(* ===== verification/Prelude.thy ===== *)
theory Prelude
  imports Main "HOL-Library.Word" "HOL-Library.Monad_Syntax"
begin

text \<open>
  Shared ground of the development: names for the machine integers the C++ code uses, shifts that
  are undefined for a count outside the width of the operand, and generic facts on words and
  option computations.

  Undefined behaviour of C++ (a null dereference, an access outside an array, a shift by the
  width of the type or more, a float to int conversion out of range) is the value \<^const>\<open>None\<close>
  of an option type; the option monad then makes a computation undefined as soon as one of its
  steps is.
\<close>

unbundle bit_operations_syntax

section \<open>Machine integers\<close>

type_synonym u8 = "8 word"
type_synonym u16 = "16 word"
type_synonym u32 = "32 word"
type_synonym u64 = "64 word"

definition int32_min :: int where "int32_min = - (2 ^ 31)"
definition int32_max :: int where "int32_max = 2 ^ 31 - 1"

text \<open>Reduction of a mathematical integer to the value a 32-bit \<open>int\<close> holds.\<close>

definition int32 :: "int \<Rightarrow> int" where
  "int32 i = sint (word_of_int i :: u32)"

lemma int32_id:
  assumes "int32_min \<le> i" "i \<le> int32_max"
  shows "int32 i = i"
  using assms
  by (simp add: int32_def int32_min_def int32_max_def signed_take_bit_int_eq_self signed_of_int)

text \<open>The result of an \<open>int\<close> operation: undefined on overflow.\<close>

definition int_checked :: "int \<Rightarrow> int option" where
  "int_checked i = (if int32_min \<le> i \<and> i \<le> int32_max then Some i else None)"

lemma int_checked_Some [simp]: "int32_min \<le> i \<Longrightarrow> i \<le> int32_max \<Longrightarrow> int_checked i = Some i"
  by (simp add: int_checked_def)

text \<open>Division and remainder of C++ on signed integers truncate towards zero.\<close>

definition c_div :: "int \<Rightarrow> int \<Rightarrow> int" where
  "c_div a b = sgn a * sgn b * (\<bar>a\<bar> div \<bar>b\<bar>)"

definition c_mod :: "int \<Rightarrow> int \<Rightarrow> int" where
  "c_mod a b = a - c_div a b * b"

lemma c_mod_nonneg: "0 \<le> a \<Longrightarrow> 0 < b \<Longrightarrow> c_mod a b = a mod b"
  by (cases "a = 0") (simp_all add: c_mod_def c_div_def minus_div_mult_eq_mod)

lemma c_mod_dvd: "b dvd a - c_mod a b"
  by (simp add: c_mod_def)

section \<open>Shifts of 64-bit values\<close>

text \<open>A C++ shift by the width of the type or more is undefined.\<close>

definition shl64 :: "u64 \<Rightarrow> u64 \<Rightarrow> u64 option" where
  "shl64 w n = (if n < 64 then Some (push_bit (unat n) w) else None)"

definition shr64 :: "u64 \<Rightarrow> u64 \<Rightarrow> u64 option" where
  "shr64 w n = (if n < 64 then Some (drop_bit (unat n) w) else None)"

lemma shl64_Some [simp]: "n < 64 \<Longrightarrow> shl64 w n = Some (push_bit (unat n) w)"
  by (simp add: shl64_def)

lemma shr64_Some [simp]: "n < 64 \<Longrightarrow> shr64 w n = Some (drop_bit (unat n) w)"
  by (simp add: shr64_def)

lemma shl64_None [simp]: "\<not> n < 64 \<Longrightarrow> shl64 w n = None"
  by (simp add: shl64_def)

section \<open>Option computations\<close>

text \<open>An array access is undefined outside the array.\<close>

definition idx :: "'a list \<Rightarrow> nat \<Rightarrow> 'a option" where
  "idx xs i = (if i < length xs then Some (xs ! i) else None)"

lemma idx_Some [simp]: "i < length xs \<Longrightarrow> idx xs i = Some (xs ! i)"
  by (simp add: idx_def)

lemma idx_SomeD: "idx xs i = Some x \<Longrightarrow> i < length xs \<and> x = xs ! i"
  by (auto simp: idx_def split: if_splits)

lemma idx_None [simp]: "\<not> i < length xs \<Longrightarrow> idx xs i = None"
  by (simp add: idx_def)

section \<open>Facts on words\<close>

lemma unat_div_numeral: "unat (x div y :: 'a::len word) = unat x div unat y"
  by (rule unat_div)

lemma unat_mod_numeral: "unat (x mod y :: 'a::len word) = unat x mod unat y"
  by (rule unat_mod)

lemma unat_64 [simp]: "unat (64 :: u64) = 64"
  by simp

lemma unat_u64_less: "unat (w :: u64) < 18446744073709551616"
proof -
  have "unat w < 2 ^ LENGTH(64)" by (rule unsigned_less)
  then show ?thesis by simp
qed

lemma unat_u32_less: "unat (w :: u32) < 4294967296"
proof -
  have "unat w < 2 ^ LENGTH(32)" by (rule unsigned_less)
  then show ?thesis by simp
qed

lemma unat_of_nat_below: "i < unat (w :: u64) \<Longrightarrow> unat (of_nat i :: u64) = i"
  using unat_u64_less [of w] by (simp add: unat_of_nat)

lemma unat_of_nat_u32: "n < 2 ^ 32 \<Longrightarrow> unat (of_nat n :: u32) = n"
  by (simp add: unat_of_nat)

lemma ucast_u32_u64: "unat (ucast (i :: u32) :: u64) = unat i"
  using unat_u32_less [of i] by (simp add: unsigned_ucast_eq take_bit_nat_eq_self)

end
