(* ===== verification/Document_Holder.thy ===== *)
theory Document_Holder
  imports Prelude
begin

text \<open>
  office/document_holder.h and document_holder.cc: a LibreOffice document shared by reference
  counted holders, each \<open>DocumentHolderWithView\<close> adding the view it uses. Holders live at
  addresses; the world keeps what each holder owns, the reference counts and the posted tasks.
  The LibreOfficeKit document is a record of functions on a state \<open>'w\<close> of its own. A failed
  \<open>CHECK\<close> ends the process; it is undefined here, as a null dereference is.
\<close>

section \<open>State\<close>

record DocumentHolderWithView =
  view_id :: int
  holder :: "nat option"
  deregisters_callback :: bool

record 'w lok_document =
  getViewsCount :: "nat \<Rightarrow> 'w \<Rightarrow> int"
  createView :: "nat \<Rightarrow> 'w \<Rightarrow> int \<times> 'w"
  getViewIds :: "nat \<Rightarrow> 'w \<Rightarrow> int list"
  setView :: "nat \<Rightarrow> int \<Rightarrow> 'w \<Rightarrow> 'w"
  registerCallback :: "nat \<Rightarrow> (nat \<times> int) option \<Rightarrow> 'w \<Rightarrow> 'w"

text \<open>The task runners a callback is posted to.\<close>

datatype runner = OwningSequence | MayBlockPool

record ('w, 'c) DocWorld =
  dw_path :: "nat \<Rightarrow> string"
  dw_doc :: "nat \<Rightarrow> nat option"
  dw_refs :: "nat \<Rightarrow> nat"
  dw_next :: nat
  dw_tasks :: "(runner \<times> 'c \<times> DocumentHolderWithView) list"
  dw_lok :: 'w

definition DocumentHolderWithView_default :: DocumentHolderWithView where
  "DocumentHolderWithView_default = \<lparr>view_id = - 1, holder = None, deregisters_callback = False\<rparr>"

section \<open>References\<close>

definition add_ref :: "nat option \<Rightarrow> ('w, 'c) DocWorld \<Rightarrow> ('w, 'c) DocWorld" where
  "add_ref h st = (case h of None \<Rightarrow> st | Some a \<Rightarrow> st\<lparr>dw_refs := (dw_refs st)(a := dw_refs st a + 1)\<rparr>)"

text \<open>Dropping the last reference deletes the holder and with it the document.\<close>

definition release :: "nat option \<Rightarrow> ('w, 'c) DocWorld \<Rightarrow> ('w, 'c) DocWorld" where
  "release h st =
     (case h of
        None \<Rightarrow> st
      | Some a \<Rightarrow>
          let n = dw_refs st a - 1
          in if n = 0 then st\<lparr>dw_refs := (dw_refs st)(a := 0), dw_doc := (dw_doc st)(a := None)\<rparr>
             else st\<lparr>dw_refs := (dw_refs st)(a := n)\<rparr>)"

definition doc_of :: "('w, 'c) DocWorld \<Rightarrow> DocumentHolderWithView \<Rightarrow> nat option" where
  "doc_of st d = Option.bind (holder d) (dw_doc st)"

text \<open>The address of the document, 0 without a holder; a holder without a document has a null pointer.\<close>

definition PtrToId :: "('w, 'c) DocWorld \<Rightarrow> DocumentHolderWithView \<Rightarrow> nat" where
  "PtrToId st d = (case doc_of st d of None \<Rightarrow> 0 | Some a \<Rightarrow> a)"

definition SetAsCurrentView ::
  "'w lok_document \<Rightarrow> DocumentHolderWithView \<Rightarrow> ('w, 'c) DocWorld \<Rightarrow> ('w, 'c) DocWorld option" where
  "SetAsCurrentView lok d st =
     (if view_id d > - 1
      then map_option (\<lambda>a. st\<lparr>dw_lok := setView lok a (view_id d) (dw_lok st)\<rparr>) (doc_of st d)
      else None)"

section \<open>Construction\<close>

text \<open>
  The constructor from a holder. The argument is a reference counted pointer of the caller, and
  the member \<open>holder_\<close> is a copy of it made before the body runs.
\<close>

definition DocumentHolderWithView_make ::
  "'w lok_document \<Rightarrow> nat option \<Rightarrow> ('w, 'c) DocWorld \<Rightarrow> (DocumentHolderWithView \<times> ('w, 'c) DocWorld) option" where
  "DocumentHolderWithView_make lok h st0 = do {
     let st = add_ref h st0;
     a \<leftarrow> h;
     doc \<leftarrow> dw_doc st a;
     let count = getViewsCount lok doc (dw_lok st);
     (vid, w) \<leftarrow>
       (if count = 0 then Some (createView lok doc (dw_lok st))
        else if dw_refs st a = 1
        then (if count = 1 then map_option (\<lambda>v. (v, dw_lok st)) (idx (getViewIds lok doc (dw_lok st)) 0) else None)
        else Some (createView lok doc (dw_lok st)));
     let d = \<lparr>view_id = vid, holder = h, deregisters_callback = False\<rparr>;
     st1 \<leftarrow> SetAsCurrentView lok d (st\<lparr>dw_lok := w\<rparr>);
     let st2 = st1\<lparr>dw_lok := registerCallback lok doc (Some (PtrToId st1 d, vid)) (dw_lok st1)\<rparr>;
     Some (d\<lparr>deregisters_callback := True\<rparr>, st2) }"

text \<open>The constructor from a document makes a holder and passes a temporary pointer to it on.\<close>

definition DocumentHolderWithView_make_doc ::
  "'w lok_document \<Rightarrow> nat option \<Rightarrow> string \<Rightarrow> ('w, 'c) DocWorld \<Rightarrow> (DocumentHolderWithView \<times> ('w, 'c) DocWorld) option" where
  "DocumentHolderWithView_make_doc lok owned_document path st = do {
     let a = dw_next st;
     let st1 = st\<lparr>dw_path := (dw_path st)(a := path), dw_doc := (dw_doc st)(a := owned_document),
                  dw_refs := (dw_refs st)(a := 1), dw_next := Suc a\<rparr>;
     (d, st2) \<leftarrow> DocumentHolderWithView_make lok (Some a) st1;
     Some (d, release (Some a) st2) }"

definition NewView ::
  "'w lok_document \<Rightarrow> DocumentHolderWithView \<Rightarrow> ('w, 'c) DocWorld \<Rightarrow> (DocumentHolderWithView \<times> ('w, 'c) DocWorld) option" where
  "NewView lok d st = DocumentHolderWithView_make lok (holder d) st"

section \<open>Copies and moves\<close>

text \<open>The results are \<open>*this\<close>, \<open>other\<close> and the world afterwards; the assignments are those of two distinct objects (assigning an object to itself does nothing).\<close>

definition move_construct :: "DocumentHolderWithView \<Rightarrow> DocumentHolderWithView \<times> DocumentHolderWithView" where
  "move_construct other =
     (\<lparr>view_id = view_id other, holder = holder other, deregisters_callback = deregisters_callback other\<rparr>,
      other\<lparr>holder := None, deregisters_callback := False\<rparr>)"

definition move_assign ::
  "DocumentHolderWithView \<Rightarrow> DocumentHolderWithView \<Rightarrow> ('w, 'c) DocWorld \<Rightarrow>
   DocumentHolderWithView \<times> DocumentHolderWithView \<times> ('w, 'c) DocWorld" where
  "move_assign this other st =
     (this\<lparr>holder := holder other, view_id := view_id other\<rparr>,
      other\<lparr>holder := None, deregisters_callback := False\<rparr>, release (holder this) st)"

definition copy_construct ::
  "DocumentHolderWithView \<Rightarrow> ('w, 'c) DocWorld \<Rightarrow> DocumentHolderWithView \<times> ('w, 'c) DocWorld" where
  "copy_construct other st =
     (\<lparr>view_id = view_id other, holder = holder other, deregisters_callback = False\<rparr>, add_ref (holder other) st)"

definition copy_assign ::
  "DocumentHolderWithView \<Rightarrow> DocumentHolderWithView \<Rightarrow> ('w, 'c) DocWorld \<Rightarrow> DocumentHolderWithView \<times> ('w, 'c) DocWorld" where
  "copy_assign this other st =
     (this\<lparr>holder := holder other, view_id := view_id other, deregisters_callback := False\<rparr>,
      release (holder this) (add_ref (holder other) st))"

text \<open>The destructor, with the release of the member \<open>holder_\<close>.\<close>

definition destroy ::
  "'w lok_document \<Rightarrow> DocumentHolderWithView \<Rightarrow> ('w, 'c) DocWorld \<Rightarrow> ('w, 'c) DocWorld option" where
  "destroy lok d st =
     (if \<not> deregisters_callback d then Some (release (holder d) st)
      else do {
        st1 \<leftarrow> SetAsCurrentView lok d st;
        doc \<leftarrow> doc_of st1 d;
        Some (release (holder d) (st1\<lparr>dw_lok := registerCallback lok doc None (dw_lok st1)\<rparr>)) })"

section \<open>Access\<close>

definition deref ::
  "'w lok_document \<Rightarrow> DocumentHolderWithView \<Rightarrow> ('w, 'c) DocWorld \<Rightarrow> (nat \<times> ('w, 'c) DocWorld) option" where
  "deref lok d st = do { st1 \<leftarrow> SetAsCurrentView lok d st; doc \<leftarrow> doc_of st1 d; Some (doc, st1) }"

definition to_bool :: "('w, 'c) DocWorld \<Rightarrow> DocumentHolderWithView \<Rightarrow> bool" where
  "to_bool st d \<longleftrightarrow> doc_of st d \<noteq> None"

definition dh_eq :: "DocumentHolderWithView \<Rightarrow> DocumentHolderWithView \<Rightarrow> bool" where
  "dh_eq a b \<longleftrightarrow> view_id a = view_id b \<and> holder a = holder b"

definition holder_Path :: "('w, 'c) DocWorld \<Rightarrow> DocumentHolderWithView \<Rightarrow> string option" where
  "holder_Path st d = map_option (dw_path st) (holder d)"

definition holder_Post ::
  "'c \<Rightarrow> DocumentHolderWithView \<Rightarrow> ('w, 'c) DocWorld \<Rightarrow> ('w, 'c) DocWorld option" where
  "holder_Post callback d st =
     (if holder d = None then None
      else let (c, st1) = copy_construct d st
           in Some (st1\<lparr>dw_tasks := dw_tasks st1 @ [(OwningSequence, callback, c)]\<rparr>))"

definition holder_PostBlocking ::
  "'c \<Rightarrow> DocumentHolderWithView \<Rightarrow> ('w, 'c) DocWorld \<Rightarrow> ('w, 'c) DocWorld" where
  "holder_PostBlocking callback d st =
     (let (c, st1) = copy_construct d st
      in st1\<lparr>dw_tasks := dw_tasks st1 @ [(MayBlockPool, callback, c)]\<rparr>)"

section \<open>Properties\<close>

lemma dh_eq_equiv: "dh_eq a a" "dh_eq a b \<Longrightarrow> dh_eq b a" "dh_eq a b \<Longrightarrow> dh_eq b c \<Longrightarrow> dh_eq a c"
  by (auto simp: dh_eq_def)

text \<open>The constructor from a holder always creates a view of its own. The caller's pointer and
  the member copy are two references, so the branch for a single reference, which would take
  over the only existing view, is never taken; on success the result registers the callback for
  the created view, and its destructor deregisters it.\<close>

theorem make_creates_view:
  assumes "0 < dw_refs st a" "dw_doc st a = Some doc" "createView lok doc (dw_lok st) = (v, w)" "0 \<le> v"
  shows "DocumentHolderWithView_make lok (Some a) st =
    Some (\<lparr>view_id = v, holder = Some a, deregisters_callback = True\<rparr>,
          st\<lparr>dw_refs := (dw_refs st)(a := dw_refs st a + 1),
             dw_lok := registerCallback lok doc (Some (doc, v)) (setView lok doc v w)\<rparr>)"
  using assms by (simp add: DocumentHolderWithView_make_def add_ref_def SetAsCurrentView_def doc_of_def PtrToId_def Let_def)

text \<open>A LibreOfficeKit document for the witnesses: the list of its views and of the calls that
  registered or deregistered a callback.\<close>

definition sample_lok :: "(int list \<times> (nat \<times> int) option list) lok_document" where
  "sample_lok = \<lparr>getViewsCount = \<lambda>_ (vs, _). int (length vs), createView = \<lambda>_ (vs, cb). (int (length vs), (vs @ [int (length vs)], cb)),
     getViewIds = \<lambda>_ (vs, _). vs, setView = \<lambda>_ _ w. w, registerCallback = \<lambda>_ c (vs, cb). (vs, cb @ [c])\<rparr>"

definition sample_world :: "(int list \<times> (nat \<times> int) option list, unit) DocWorld" where
  "sample_world = \<lparr>dw_path = \<lambda>_. [], dw_doc = (\<lambda>_. None)(0 := Some 100), dw_refs = (\<lambda>_. 0)(0 := 1), dw_next = 1,
     dw_tasks = [], dw_lok = ([0], [])\<rparr>"

theorem make_creates_view_witness:
  "\<exists>st. DocumentHolderWithView_make sample_lok (Some 0) sample_world =
     Some (\<lparr>view_id = 1, holder = Some 0, deregisters_callback = True\<rparr>, st) \<and> dw_lok st = ([0, 1], [Some (100, 1)])"
  using make_creates_view [of sample_world 0 100 sample_lok 1 "([0, 1], [])"]
  by (simp add: sample_world_def sample_lok_def)

text \<open>A moved-to object takes over the duty to deregister the callback when it is constructed by
  the move, but not when it is assigned: after a move assignment into a default-constructed
  object neither of the two deregisters, so destroying both leaves the callback registered.\<close>

theorem move_assign_drops_deregistration:
  assumes "move_construct d = (a, b)" "move_assign DocumentHolderWithView_default d st = (a', b', st')"
  shows "deregisters_callback a = deregisters_callback d \<and> \<not> deregisters_callback b \<and> dh_eq a d \<and>
    dh_eq a' d \<and> \<not> deregisters_callback a' \<and> \<not> deregisters_callback b' \<and>
    (\<exists>st1 st2. destroy lok a' st' = Some st1 \<and> destroy lok b' st1 = Some st2 \<and> dw_lok st2 = dw_lok st)"
  using assms
  by (auto simp: move_construct_def move_assign_def dh_eq_def DocumentHolderWithView_default_def
      destroy_def release_def Let_def split: option.splits)

theorem move_assign_drops_deregistration_witness:
  "\<exists>st1 st2. destroy sample_lok \<lparr>view_id = 1, holder = Some 0, deregisters_callback = False\<rparr> sample_world = Some st1 \<and>
     destroy sample_lok \<lparr>view_id = 1, holder = None, deregisters_callback = False\<rparr> st1 = Some st2 \<and> dw_lok st2 = ([0], [])"
  using move_assign_drops_deregistration
    [of "\<lparr>view_id = 1, holder = Some 0, deregisters_callback = True\<rparr>" "\<lparr>view_id = 1, holder = Some 0, deregisters_callback = True\<rparr>"
        "\<lparr>view_id = 1, holder = None, deregisters_callback = False\<rparr>" sample_world
        "\<lparr>view_id = 1, holder = Some 0, deregisters_callback = False\<rparr>" "\<lparr>view_id = 1, holder = None, deregisters_callback = False\<rparr>"
        sample_world sample_lok]
  by (simp add: move_construct_def move_assign_def DocumentHolderWithView_default_def release_def sample_world_def)

end
