(* ===== verification/Office_Instance.thy ===== *)
theory Office_Instance
  imports Document_Holder
begin

text \<open>
  office/office_instance.h and office_instance.cc: the process-wide LibreOffice instance and the
  registry of document observers, with the observer calls of \<open>DocumentHolderWithView\<close> that go
  to it. The thread-safe observer lists of Chromium are a parameter: a record of functions on a
  list type \<open>'l\<close>, with what their documentation says as the hypothesis \<open>observer_list_ok\<close>.
  A notification is recorded with the observers it is posted to.
\<close>

section \<open>State\<close>

record DocumentEventId =
  document_id :: nat
  event_id :: int
  event_view_id :: int

abbreviation document_event :: "nat \<Rightarrow> int \<Rightarrow> int \<Rightarrow> DocumentEventId" where
  "document_event d e v \<equiv> \<lparr>document_id = d, event_id = e, event_view_id = v\<rparr>"

type_synonym observer = nat

record 'l observer_list =
  ol_new :: 'l
  ol_add :: "observer \<Rightarrow> 'l \<Rightarrow> 'l"
  ol_remove :: "observer \<Rightarrow> 'l \<Rightarrow> 'l"
  ol_observers :: "'l \<Rightarrow> observer set"

definition observer_list_ok :: "'l observer_list \<Rightarrow> bool" where
  "observer_list_ok ol \<longleftrightarrow> ol_observers ol (ol_new ol) = {} \<and>
     (\<forall>o1 l. ol_observers ol (ol_add ol o1 l) = insert o1 (ol_observers ol l)) \<and>
     (\<forall>o1 l. ol_observers ol (ol_remove ol o1 l) = ol_observers ol l - {o1})"

datatype notification = OnLoaded | DocumentCallback int string | OnDestroyed

record 'l OfficeInstance =
  oi_once :: bool
  oi_tasks :: nat
  oi_instance :: bool
  oi_unset :: bool
  oi_destroying :: bool
  loaded_observers :: 'l
  document_event_observers :: "DocumentEventId \<Rightarrow> 'l option"
  document_id_to_document_event_ids :: "(nat \<times> DocumentEventId) list"
  destroyed_observers :: 'l
  oi_notified :: "(observer set \<times> notification) list"

definition OfficeInstance_init :: "'l observer_list \<Rightarrow> 'l OfficeInstance" where
  "OfficeInstance_init ol = \<lparr>oi_once = False, oi_tasks = 0, oi_instance = False, oi_unset = False, oi_destroying = False,
     loaded_observers = ol_new ol, document_event_observers = (\<lambda>_. None), document_id_to_document_event_ids = [],
     destroyed_observers = ol_new ol, oi_notified = []\<rparr>"

section \<open>The instance\<close>

text \<open>\<open>oi_tasks\<close> counts the posted calls of \<open>Initialize\<close>.\<close>

definition OfficeInstance_Create :: "'l OfficeInstance \<Rightarrow> 'l OfficeInstance" where
  "OfficeInstance_Create s = (if oi_once s then s else s\<lparr>oi_once := True, oi_tasks := Suc (oi_tasks s)\<rparr>)"

definition notify :: "'l observer_list \<Rightarrow> 'l \<Rightarrow> notification \<Rightarrow> 'l OfficeInstance \<Rightarrow> 'l OfficeInstance" where
  "notify ol l n s = s\<lparr>oi_notified := oi_notified s @ [(ol_observers ol l, n)]\<rparr>"

text \<open>
  \<open>Initialize\<close> runs on a pool thread. \<open>lok_init\<close> says whether LibreOfficeKit could be loaded, and
  \<open>unset1\<close>, \<open>unset2\<close>, \<open>unset3\<close> what the three reads of \<open>unset_\<close> return while the main thread may set it.
  Without an instance the call of \<open>setOptionalFeatures\<close> dereferences a null pointer.
\<close>

definition OfficeInstance_Initialize ::
  "'l observer_list \<Rightarrow> bool \<Rightarrow> bool \<Rightarrow> bool \<Rightarrow> bool \<Rightarrow> 'l OfficeInstance \<Rightarrow> 'l OfficeInstance option" where
  "OfficeInstance_Initialize ol lok_init unset1 unset2 unset3 s = do {
     let s1 = (if \<not> unset1 then s\<lparr>oi_instance := lok_init\<rparr> else s);
     s2 \<leftarrow> (if \<not> unset2 then if oi_instance s1 then Some s1 else None else Some s1);
     Some (if \<not> unset3 then notify ol (loaded_observers s2) OnLoaded s2 else s2) }"

definition OfficeInstance_IsValid :: "'l OfficeInstance \<Rightarrow> bool" where
  "OfficeInstance_IsValid s = oi_instance s"

definition OfficeInstance_Unset :: "'l OfficeInstance \<Rightarrow> 'l OfficeInstance" where
  "OfficeInstance_Unset s = s\<lparr>oi_unset := True, oi_instance := False\<rparr>"

definition AddLoadObserver :: "'l observer_list \<Rightarrow> observer \<Rightarrow> 'l OfficeInstance \<Rightarrow> 'l OfficeInstance" where
  "AddLoadObserver ol obs s =
     (if oi_instance s then s\<lparr>oi_notified := oi_notified s @ [({obs}, OnLoaded)]\<rparr>
      else s\<lparr>loaded_observers := ol_add ol obs (loaded_observers s)\<rparr>)"

definition RemoveLoadObserver :: "'l observer_list \<Rightarrow> observer \<Rightarrow> 'l OfficeInstance \<Rightarrow> 'l OfficeInstance" where
  "RemoveLoadObserver ol obs s = s\<lparr>loaded_observers := ol_remove ol obs (loaded_observers s)\<rparr>"

section \<open>Document observers\<close>

record DocumentCallbackContext =
  ctx_id :: nat
  ctx_view_id :: int

text \<open>A null payload is \<^const>\<open>None\<close>; making a string of it is undefined.\<close>

definition HandleDocumentCallback ::
  "'l observer_list \<Rightarrow> int \<Rightarrow> string option \<Rightarrow> DocumentCallbackContext \<Rightarrow> 'l OfficeInstance \<Rightarrow> 'l OfficeInstance option" where
  "HandleDocumentCallback ol type payload ctx s =
     (if \<not> oi_instance s then Some s
      else case document_event_observers s (document_event (ctx_id ctx) type (ctx_view_id ctx)) of
             None \<Rightarrow> Some s
           | Some l \<Rightarrow> map_option (\<lambda>p. notify ol l (DocumentCallback type p) s) payload)"

definition AddDocumentObserver :: "'l observer_list \<Rightarrow> DocumentEventId \<Rightarrow> observer \<Rightarrow> 'l OfficeInstance \<Rightarrow> 'l OfficeInstance" where
  "AddDocumentObserver ol i obs s =
     (let l = (case document_event_observers s i of None \<Rightarrow> ol_new ol | Some l \<Rightarrow> l)
      in s\<lparr>document_event_observers := (document_event_observers s)(i \<mapsto> ol_add ol obs l),
           document_id_to_document_event_ids := document_id_to_document_event_ids s @ [(document_id i, i)]\<rparr>)"

definition RemoveDocumentObserver :: "'l observer_list \<Rightarrow> DocumentEventId \<Rightarrow> observer \<Rightarrow> 'l OfficeInstance \<Rightarrow> 'l OfficeInstance" where
  "RemoveDocumentObserver ol i obs s =
     (case document_event_observers s i of
        None \<Rightarrow> s
      | Some l \<Rightarrow> s\<lparr>document_event_observers := (document_event_observers s)(i \<mapsto> ol_remove ol obs l)\<rparr>)"

text \<open>The event ids of the \<open>equal_range\<close> of a document.\<close>

definition event_range :: "nat \<Rightarrow> 'l OfficeInstance \<Rightarrow> DocumentEventId list" where
  "event_range d s = map snd (filter (\<lambda>(k, _). k = d) (document_id_to_document_event_ids s))"

definition RemoveDocumentObservers :: "nat \<Rightarrow> 'l OfficeInstance \<Rightarrow> 'l OfficeInstance" where
  "RemoveDocumentObservers d s =
     s\<lparr>document_event_observers := fold (\<lambda>i m. m(i := None)) (event_range d s) (document_event_observers s),
       document_id_to_document_event_ids := filter (\<lambda>(k, _). k \<noteq> d) (document_id_to_document_event_ids s)\<rparr>"

definition RemoveDocumentObservers_of :: "'l observer_list \<Rightarrow> nat \<Rightarrow> observer \<Rightarrow> 'l OfficeInstance \<Rightarrow> 'l OfficeInstance" where
  "RemoveDocumentObservers_of ol d obs s =
     s\<lparr>document_event_observers :=
         fold (\<lambda>i m. case m i of None \<Rightarrow> m | Some l \<Rightarrow> m(i \<mapsto> ol_remove ol obs l)) (event_range d s) (document_event_observers s)\<rparr>"

section \<open>Destruction\<close>

definition AddDestroyedObserver :: "'l observer_list \<Rightarrow> observer \<Rightarrow> 'l OfficeInstance \<Rightarrow> 'l OfficeInstance" where
  "AddDestroyedObserver ol obs s = s\<lparr>destroyed_observers := ol_add ol obs (destroyed_observers s)\<rparr>"

definition RemoveDestroyedObserver :: "'l observer_list \<Rightarrow> observer \<Rightarrow> 'l OfficeInstance \<Rightarrow> 'l OfficeInstance" where
  "RemoveDestroyedObserver ol obs s = s\<lparr>destroyed_observers := ol_remove ol obs (destroyed_observers s)\<rparr>"

definition HandleClientDestroyed :: "'l observer_list \<Rightarrow> 'l OfficeInstance \<Rightarrow> 'l OfficeInstance" where
  "HandleClientDestroyed ol s = notify ol (destroyed_observers s) OnDestroyed (s\<lparr>oi_destroying := True\<rparr>)"

section \<open>The calls of a document holder\<close>

definition holder_AddDocumentObserver ::
  "'l observer_list \<Rightarrow> ('w, 'c) DocWorld \<Rightarrow> DocumentHolderWithView \<Rightarrow> int \<Rightarrow> observer \<Rightarrow> 'l OfficeInstance \<Rightarrow> 'l OfficeInstance" where
  "holder_AddDocumentObserver ol st d event obs = AddDocumentObserver ol (document_event (PtrToId st d) event (view_id d)) obs"

definition holder_RemoveDocumentObserver ::
  "'l observer_list \<Rightarrow> ('w, 'c) DocWorld \<Rightarrow> DocumentHolderWithView \<Rightarrow> int \<Rightarrow> observer \<Rightarrow> 'l OfficeInstance \<Rightarrow> 'l OfficeInstance" where
  "holder_RemoveDocumentObserver ol st d event obs = RemoveDocumentObserver ol (document_event (PtrToId st d) event (view_id d)) obs"

definition holder_RemoveDocumentObservers_of ::
  "'l observer_list \<Rightarrow> ('w, 'c) DocWorld \<Rightarrow> DocumentHolderWithView \<Rightarrow> observer \<Rightarrow> 'l OfficeInstance \<Rightarrow> 'l OfficeInstance" where
  "holder_RemoveDocumentObservers_of ol st d obs = RemoveDocumentObservers_of ol (PtrToId st d) obs"

definition holder_RemoveDocumentObservers ::
  "('w, 'c) DocWorld \<Rightarrow> DocumentHolderWithView \<Rightarrow> 'l OfficeInstance \<Rightarrow> 'l OfficeInstance" where
  "holder_RemoveDocumentObservers st d = RemoveDocumentObservers (PtrToId st d)"

section \<open>The registry as a map from event ids to observers\<close>

text \<open>Who is notified of an event; the index by document lists every registered event under its document.\<close>

definition registered :: "'l observer_list \<Rightarrow> 'l OfficeInstance \<Rightarrow> DocumentEventId \<Rightarrow> observer set" where
  "registered ol s i = (case document_event_observers s i of None \<Rightarrow> {} | Some l \<Rightarrow> ol_observers ol l)"

definition registry_ok :: "'l OfficeInstance \<Rightarrow> bool" where
  "registry_ok s \<longleftrightarrow> (\<forall>i. document_event_observers s i \<noteq> None \<longrightarrow> (document_id i, i) \<in> set (document_id_to_document_event_ids s)) \<and>
     (\<forall>(d, i) \<in> set (document_id_to_document_event_ids s). d = document_id i)"

text \<open>
  What the clients rely on: a registry of observers by event, with per-document removal. The
  laws say who is notified after each operation.
\<close>

locale event_registry =
  fixes ok :: "'s \<Rightarrow> bool"
    and doc :: "'i \<Rightarrow> 'd"
    and who :: "'s \<Rightarrow> 'i \<Rightarrow> 'o set"
    and add :: "'i \<Rightarrow> 'o \<Rightarrow> 's \<Rightarrow> 's"
    and del :: "'i \<Rightarrow> 'o \<Rightarrow> 's \<Rightarrow> 's"
    and del_doc :: "'d \<Rightarrow> 's \<Rightarrow> 's"
    and del_doc_of :: "'d \<Rightarrow> 'o \<Rightarrow> 's \<Rightarrow> 's"
  assumes ok_add: "ok s \<Longrightarrow> ok (add i x s)"
    and ok_del: "ok s \<Longrightarrow> ok (del i x s)"
    and ok_del_doc: "ok s \<Longrightarrow> ok (del_doc d s)"
    and ok_del_doc_of: "ok s \<Longrightarrow> ok (del_doc_of d x s)"
    and who_add: "ok s \<Longrightarrow> who (add i x s) = (who s)(i := insert x (who s i))"
    and who_del: "ok s \<Longrightarrow> who (del i x s) = (who s)(i := who s i - {x})"
    and who_del_doc: "ok s \<Longrightarrow> who (del_doc d s) = (\<lambda>i. if doc i = d then {} else who s i)"
    and who_del_doc_of: "ok s \<Longrightarrow> who (del_doc_of d x s) = (\<lambda>i. if doc i = d then who s i - {x} else who s i)"
begin

lemma add_del: "ok s \<Longrightarrow> x \<notin> who s i \<Longrightarrow> who (del i x (add i x s)) = who s"
  by (auto simp: who_add who_del ok_add)

lemma add_then_del_doc_of:
  assumes "ok s" "\<forall>i. x \<notin> who s i"
  shows "who (del_doc_of (doc i) x (add i x s)) = who s"
  using assms by (intro ext) (simp add: who_add who_del_doc_of ok_add)

text \<open>Removing a document's observers removes those of every other client of the document too.\<close>

lemma del_doc_others:
  assumes "ok s" "doc i = doc j"
  shows "who (del_doc (doc i) (add j y s)) j = {}"
  using assms by (simp add: who_del_doc ok_add)

end

lemma fold_erase: "fold (\<lambda>i m. m(i := None)) is m = (\<lambda>i. if i \<in> set is then None else m i)"
  by (induction "is" arbitrary: m) auto

lemma fold_remove:
  assumes "observer_list_ok ol"
  shows "(case fold (\<lambda>i m. case m i of None \<Rightarrow> m | Some l \<Rightarrow> m(i \<mapsto> ol_remove ol x l)) is m j of
      None \<Rightarrow> {} | Some l \<Rightarrow> ol_observers ol l) =
    (case m j of None \<Rightarrow> {} | Some l \<Rightarrow> ol_observers ol l) - (if j \<in> set is then {x} else {})"
    and "fold (\<lambda>i m. case m i of None \<Rightarrow> m | Some l \<Rightarrow> m(i \<mapsto> ol_remove ol x l)) is m j = None \<longleftrightarrow> m j = None"
  using assms
  by (induction "is" arbitrary: m) (auto simp: observer_list_ok_def split: option.splits)

lemma event_range_set:
  assumes "registry_ok s" "document_event_observers s i \<noteq> None"
  shows "i \<in> set (event_range d s) \<longleftrightarrow> document_id i = d"
  using assms by (force simp: registry_ok_def event_range_def)

interpretation reg: event_registry "\<lambda>s. observer_list_ok ol \<and> registry_ok s" document_id "registered ol"
  "AddDocumentObserver ol" "RemoveDocumentObserver ol" RemoveDocumentObservers "RemoveDocumentObservers_of ol"
  for ol :: "'l observer_list"
proof (unfold_locales, goal_cases)
  case (1 s i x)
  then show ?case by (auto simp: registry_ok_def AddDocumentObserver_def Let_def)
next
  case (2 s i x)
  then show ?case by (auto simp: registry_ok_def RemoveDocumentObserver_def split: option.splits)
next
  case (3 s d)
  then show ?case
    using event_range_set [of s] by (auto simp: registry_ok_def RemoveDocumentObservers_def fold_erase split: if_splits)
next
  case (4 s d x)
  then show ?case by (auto simp: registry_ok_def RemoveDocumentObservers_of_def fold_remove)
next
  case (5 s i x)
  then show ?case
    by (auto simp: registered_def AddDocumentObserver_def Let_def observer_list_ok_def fun_eq_iff split: option.splits)
next
  case (6 s i x)
  then show ?case
    by (auto simp: registered_def RemoveDocumentObserver_def observer_list_ok_def fun_eq_iff split: option.splits)
next
  case (7 s d)
  then show ?case
    using event_range_set [of s]
    by (auto simp: registered_def RemoveDocumentObservers_def fold_erase fun_eq_iff split: option.splits)
next
  case (8 s d x)
  then have "observer_list_ok ol" by simp
  note fr = fold_remove(1) [OF this, of x]
  show ?case
  proof
    fix i
    show "registered ol (RemoveDocumentObservers_of ol d x s) i = (if document_id i = d then registered ol s i - {x} else registered ol s i)"
      using 8 event_range_set [of s i d]
      by (cases "document_event_observers s i") (simp_all add: registered_def RemoveDocumentObservers_of_def fr)
  qed
qed

section \<open>Properties\<close>

lemma OfficeInstance_init_ok: "registry_ok (OfficeInstance_init ol)"
  by (simp add: registry_ok_def OfficeInstance_init_def)

text \<open>C37: with a loaded instance, a document callback is posted exactly to the observers registered
  for its document, event type and view, and adding an observer and removing it again, by its
  event or by its document, restores who is notified of every event.\<close>

theorem HandleDocumentCallback_correct:
  assumes "observer_list_ok ol" "registry_ok s" "oi_instance s" "\<forall>i. x \<notin> registered ol s i"
  shows "HandleDocumentCallback ol type (Some p) \<lparr>ctx_id = d, ctx_view_id = v\<rparr>
      (AddDocumentObserver ol (document_event d type v) x s) =
    Some ((AddDocumentObserver ol (document_event d type v) x s)\<lparr>oi_notified := oi_notified s @
      [(insert x (registered ol s (document_event d type v)), DocumentCallback type p)]\<rparr>) \<and>
    registered ol (RemoveDocumentObserver ol i x (AddDocumentObserver ol i x s)) = registered ol s \<and>
    registered ol (RemoveDocumentObservers_of ol (document_id i) x (AddDocumentObserver ol i x s)) = registered ol s"
proof (intro conjI)
  have "registered ol (AddDocumentObserver ol (document_event d type v) x s) (document_event d type v) =
      insert x (registered ol s (document_event d type v))"
    using reg.who_add [of ol s] assms by simp
  then show "HandleDocumentCallback ol type (Some p) \<lparr>ctx_id = d, ctx_view_id = v\<rparr>
      (AddDocumentObserver ol (document_event d type v) x s) =
    Some ((AddDocumentObserver ol (document_event d type v) x s)\<lparr>oi_notified := oi_notified s @
      [(insert x (registered ol s (document_event d type v)), DocumentCallback type p)]\<rparr>)"
    using assms(3) by (simp add: HandleDocumentCallback_def notify_def AddDocumentObserver_def Let_def registered_def)
  show "registered ol (RemoveDocumentObserver ol i x (AddDocumentObserver ol i x s)) = registered ol s"
    using reg.add_del [of ol s x i] assms by simp
  show "registered ol (RemoveDocumentObservers_of ol (document_id i) x (AddDocumentObserver ol i x s)) = registered ol s"
    using reg.add_then_del_doc_of [of ol s x i] assms by simp
qed

text \<open>Observer lists for the witnesses.\<close>

definition sample_list :: "observer list observer_list" where
  "sample_list = \<lparr>ol_new = [], ol_add = (#), ol_remove = removeAll, ol_observers = set\<rparr>"

lemma sample_list_ok: "observer_list_ok sample_list"
  by (simp add: observer_list_ok_def sample_list_def)

theorem HandleDocumentCallback_correct_witness:
  "\<exists>s. HandleDocumentCallback sample_list 0 (Some ''EMPTY'') \<lparr>ctx_id = 100, ctx_view_id = 1\<rparr>
      (AddDocumentObserver sample_list (document_event 100 0 1) 7 ((OfficeInstance_init sample_list)\<lparr>oi_instance := True\<rparr>)) = Some s \<and>
     oi_notified s = [({7}, DocumentCallback 0 ''EMPTY'')]"
  using HandleDocumentCallback_correct [OF sample_list_ok, of "(OfficeInstance_init sample_list)\<lparr>oi_instance := True\<rparr>" 7 0 "''EMPTY''" 100 1]
  by (simp add: registry_ok_def OfficeInstance_init_def registered_def)

text \<open>Removing the observers of a document, as a document client does when it is destroyed,
  removes the observers of every other client and view of that document as well, and of no
  other document.\<close>

theorem RemoveDocumentObservers_all_views:
  assumes "observer_list_ok ol" "registry_ok s"
  shows "registered ol (holder_RemoveDocumentObservers st d (AddDocumentObserver ol (document_event (PtrToId st d) e v) x s)) (document_event (PtrToId st d) e v) = {} \<and>
    (\<forall>i. document_id i \<noteq> PtrToId st d \<longrightarrow> registered ol (holder_RemoveDocumentObservers st d s) i = registered ol s i)"
  using reg.del_doc_others [of ol s "document_event (PtrToId st d) e v" "document_event (PtrToId st d) e v" x]
    reg.who_del_doc [of ol s "PtrToId st d"] assms
  by (simp add: holder_RemoveDocumentObservers_def)

theorem RemoveDocumentObservers_all_views_witness:
  "registered sample_list (holder_RemoveDocumentObservers sample_world (DocumentHolderWithView_default\<lparr>holder := Some 0\<rparr>)
     (AddDocumentObserver sample_list (document_event 100 4 2) 7 (OfficeInstance_init sample_list))) (document_event 100 4 2) = {}"
  using RemoveDocumentObservers_all_views [OF sample_list_ok OfficeInstance_init_ok, of sample_world "DocumentHolderWithView_default\<lparr>holder := Some 0\<rparr>" 4 2 7]
  by (simp add: PtrToId_def doc_of_def sample_world_def)

end
