(* ===== verification/Lok_Parse.thy ===== *)
theory Lok_Parse
  imports Prelude
begin

text \<open>
  The parsers of office/lok_callback.cc. A position in a \<open>string_view\<close> is the list of bytes
  from there to its end; every view the code builds ends at the terminating NUL of a C string,
  which a read at the end returns, and a read beyond it is undefined. \<open>char\<close> is signed, as on
  the x86 and Apple targets of the project. The constructor of \<open>gfx::Rect\<close> is a parameter.
\<close>

section \<open>Scanning\<close>

type_synonym bytes = "u8 list"

definition bytes :: "string \<Rightarrow> bytes" where "bytes s = map of_char s"

definition peek :: "bytes \<Rightarrow> u8" where "peek r = (case r of [] \<Rightarrow> 0 | c # _ \<Rightarrow> c)"

text \<open>The expression \<open>*target ^ 48\<close> (48 is the digit zero) as the signed value the comparisons with 9 see.\<close>

definition digit_value :: "u8 \<Rightarrow> int" where "digit_value c = sint (c XOR 48)"

definition iswspace :: "u8 \<Rightarrow> bool" where "iswspace c \<longleftrightarrow> 9 \<le> c \<and> c \<le> 13 \<or> c = 32"

fun SkipWhitespace :: "bytes \<Rightarrow> bytes" where
  "SkipWhitespace [] = []"
| "SkipWhitespace (c # r) = (if iswspace c then SkipWhitespace r else c # r)"

fun ParseLong :: "bytes \<Rightarrow> u64 \<Rightarrow> u64 \<times> bytes" where
  "ParseLong [] value = (value, [])"
| "ParseLong (c # r) value =
     (if digit_value c \<le> 9 then ParseLong r (value * 10 + word_of_int (digit_value c)) else (value, c # r))"

lemma ParseLong_length: "length (snd (ParseLong r v)) \<le> length r"
  by (induction r v rule: ParseLong.induct) auto

lemma ParseLong_progress:
  "r \<noteq> [] \<Longrightarrow> digit_value (peek r) \<le> 9 \<Longrightarrow> length (snd (ParseLong r v)) < length r"
  using ParseLong_length by (cases r) (auto simp: peek_def less_Suc_eq_le)

lemma SkipWhitespace_length: "length (SkipWhitespace r) \<le> length r"
  by (induction r) auto

lemma digit_value_peek_nonempty: "digit_value (peek r) \<le> 9 \<Longrightarrow> r \<noteq> []"
  by (auto simp: peek_def digit_value_def)

text \<open>\<open>result\<close> is the vector built so far; the position after the call is returned with it.\<close>

function ParseCSV :: "bytes \<Rightarrow> u64 list \<Rightarrow> u64 list \<times> bytes" where
  "ParseCSV target result =
     (if target = [] then (result, target)
      else if peek target = 59 then (result, tl target)
      else let target1 = SkipWhitespace (if peek target = 44 then tl target else target)
           in if 9 < digit_value (peek target1) then (result, target1)
              else let (value, target2) = ParseLong target1 0 in ParseCSV target2 (result @ [value]))"
  by pat_completeness auto
termination
proof (relation "measure (\<lambda>(target, result). length target)", goal_cases)
  case (2 target result t1 p v t2)
  have "length t1 \<le> length (if peek target = 44 then tl target else target)"
    unfolding 2(3) by (rule SkipWhitespace_length)
  then have "length t1 \<le> length target" by (auto split: if_splits)
  moreover have "length t2 < length t1"
    using 2 ParseLong_progress [of t1 0] digit_value_peek_nonempty by (metis not_less snd_conv)
  ultimately show ?case by simp
qed simp

declare ParseCSV.simps [simp del]

text \<open>
  The loop over the lists of a payload. It ends only if every call of \<open>ParseCSV\<close> moves the
  position, so not returning is the value \<^const>\<open>None\<close>.
\<close>

partial_function (option) ParseMultipleCSV :: "bytes \<Rightarrow> u64 list list \<Rightarrow> (u64 list list \<times> bytes) option" where
  "ParseMultipleCSV target result =
     (if target = [] then Some (result, target)
      else let (csv, target1) = ParseCSV target [] in ParseMultipleCSV target1 (result @ [csv]))"

text \<open>The loop ignores the end of the view: reading on after the terminating NUL is undefined.\<close>

fun SkipNonNumeric :: "bytes \<Rightarrow> bytes option" where
  "SkipNonNumeric [] = None"
| "SkipNonNumeric (c # r) = (if 9 < digit_value c then SkipNonNumeric r else Some (c # r))"

text \<open>\<open>long\<close> values are narrowed to \<open>int\<close> by the call of the rectangle's constructor.\<close>

definition long_to_int :: "u64 \<Rightarrow> int" where "long_to_int v = int32 (sint v)"

definition ParseRect :: "(int \<Rightarrow> int \<Rightarrow> int \<Rightarrow> int \<Rightarrow> 'rect) \<Rightarrow> 'rect \<Rightarrow> bytes \<Rightarrow> ('rect \<times> bytes) option" where
  "ParseRect Rect Rect0 target = do {
     t0 \<leftarrow> SkipNonNumeric target;
     if t0 = [] then Some (Rect0, t0)
     else do {
       let (x, t1) = ParseLong t0 0;
       t2 \<leftarrow> SkipNonNumeric t1;
       let (y, t3) = ParseLong t2 0;
       t4 \<leftarrow> SkipNonNumeric t3;
       let (w, t5) = ParseLong t4 0;
       t6 \<leftarrow> SkipNonNumeric t5;
       let (h, t7) = ParseLong t6 0;
       Some (Rect (long_to_int x) (long_to_int y) (long_to_int w) (long_to_int h), t7) } }"

lemma SkipNonNumeric_length: "SkipNonNumeric r = Some s \<Longrightarrow> length s \<le> length r"
  by (induction r) (auto split: if_splits)

lemma SkipNonNumeric_digit: "SkipNonNumeric r = Some s \<Longrightarrow> s \<noteq> [] \<and> digit_value (peek s) \<le> 9"
  by (induction r) (auto simp: peek_def split: if_splits)

lemma SkipNonNumeric_ParseLong:
  assumes "SkipNonNumeric r = Some s"
  shows "length (snd (ParseLong s v)) < length r"
  using SkipNonNumeric_length [OF assms] SkipNonNumeric_digit [OF assms]
    ParseLong_progress [of s v] by auto

lemma ParseRect_SomeE:
  assumes "ParseRect Rect Rect0 r = Some (x, t)"
  obtains t0 t2 t4 t6 where "SkipNonNumeric r = Some t0" "SkipNonNumeric (snd (ParseLong t0 0)) = Some t2"
    "SkipNonNumeric (snd (ParseLong t2 0)) = Some t4" "SkipNonNumeric (snd (ParseLong t4 0)) = Some t6"
    "t = snd (ParseLong t6 0)"
  using assms SkipNonNumeric_digit [of r]
  by (auto simp: ParseRect_def bind_eq_Some_conv case_prod_beta Let_def split: if_splits)

lemma ParseRect_progress: "ParseRect Rect Rect0 r = Some (x, t) \<Longrightarrow> length t < length r"
  by (erule ParseRect_SomeE, (drule SkipNonNumeric_ParseLong [where v = 0])+, simp)

text \<open>\<open>reserve\<close> sets only the capacity of the vector.\<close>

function ParseMultipleRects ::
  "(int \<Rightarrow> int \<Rightarrow> int \<Rightarrow> int \<Rightarrow> 'rect) \<Rightarrow> 'rect \<Rightarrow> bytes \<Rightarrow> 'rect list \<Rightarrow> ('rect list \<times> bytes) option" where
  "ParseMultipleRects Rect Rect0 target result =
     (if target = [] then Some (result, target)
      else case ParseRect Rect Rect0 target of
             None \<Rightarrow> None
           | Some (r, target1) \<Rightarrow> ParseMultipleRects Rect Rect0 target1 (result @ [r]))"
  by pat_completeness auto
termination
  by (relation "measure (\<lambda>(Rect, Rect0, target, result). length target)") (auto dest: ParseRect_progress)

declare ParseMultipleRects.simps [simp del]

section \<open>Reading back printed numbers\<close>

fun dec :: "nat \<Rightarrow> bytes" where
  "dec n = (if n < 10 then [of_nat (48 + n)] else dec (n div 10) @ [of_nat (48 + n mod 10)])"

declare dec.simps [simp del]

text \<open>A list of numbers the way LibreOffice prints it: a comma and \<open>k\<close> spaces between two numbers.\<close>

definition csv_tail :: "nat \<Rightarrow> nat list \<Rightarrow> bytes" where
  "csv_tail k ns = concat (map (\<lambda>n. 44 # replicate k 32 @ dec n) ns)"

fun csv_text :: "nat \<Rightarrow> nat list \<Rightarrow> bytes" where
  "csv_text k [] = []"
| "csv_text k (n # ns) = dec n @ csv_tail k ns"

definition csv_lists :: "nat \<Rightarrow> nat list list \<Rightarrow> bytes" where
  "csv_lists k nss = concat (map (\<lambda>ns. csv_text k ns @ [59]) nss)"

abbreviation no_digit :: "bytes \<Rightarrow> bool" where "no_digit r \<equiv> 9 < digit_value (peek r)"

lemma digit_value_digit: "d < 10 \<Longrightarrow> digit_value (of_nat (48 + d)) = int d"
proof -
  assume "d < 10"
  then have "d \<in> {0, 1, 2, 3, 4, 5, 6, 7, 8, 9}" by auto
  then show ?thesis by (auto simp: digit_value_def)
qed

lemma dec_nonempty [simp]: "dec n \<noteq> []"
  by (subst dec.simps) simp

lemma dec_peek: "\<exists>d < 10. peek (dec n @ r) = of_nat (48 + d)"
proof (induction n arbitrary: r rule: dec.induct)
  case (1 n)
  show ?case
  proof (cases "n < 10")
    case True
    then show ?thesis by (subst dec.simps) (auto simp: peek_def)
  next
    case False
    then show ?thesis using 1 [OF False] by (subst dec.simps) simp
  qed
qed

lemma ParseLong_digit: "d < 10 \<Longrightarrow> ParseLong (of_nat (48 + d) # r) v = ParseLong r (v * 10 + of_nat d)"
  by (simp add: digit_value_digit del: of_nat_add)

lemma ParseLong_dec: "ParseLong (dec n @ r) 0 = ParseLong r (of_nat n)"
proof (induction n arbitrary: r rule: dec.induct)
  case (1 n)
  show ?case
  proof (cases "n < 10")
    case True
    then show ?thesis
      using ParseLong_digit [OF True, of r 0] by (subst dec.simps) simp
  next
    case False
    have "(of_nat (n div 10) * 10 + of_nat (n mod 10) :: u64) = of_nat (n div 10 * 10 + n mod 10)"
      by (simp only: of_nat_add of_nat_mult of_nat_numeral)
    also have "\<dots> = of_nat n" by (simp only: div_mult_mod_eq)
    finally show ?thesis
      using 1 [OF False, of "of_nat (48 + n mod 10) # r"] ParseLong_digit [of "n mod 10" r "of_nat (n div 10)"] False
      by (subst dec.simps) simp
  qed
qed

lemma ParseLong_stop: "no_digit r \<Longrightarrow> ParseLong r v = (v, r)"
  by (cases r) (auto simp: peek_def)

lemma ParseLong_printed: "no_digit r \<Longrightarrow> ParseLong (dec n @ r) 0 = (of_nat n, r)"
  by (simp add: ParseLong_dec ParseLong_stop)

lemma digit_peek:
  assumes "d < 10"
  shows "(of_nat (48 + d) :: u8) \<noteq> 59" "(of_nat (48 + d) :: u8) \<noteq> 44" "\<not> iswspace (of_nat (48 + d))"
proof -
  from assms have "d \<in> {0, 1, 2, 3, 4, 5, 6, 7, 8, 9}" by auto
  then show "(of_nat (48 + d) :: u8) \<noteq> 59" "(of_nat (48 + d) :: u8) \<noteq> 44" "\<not> iswspace (of_nat (48 + d))"
    by (auto simp: iswspace_def)
qed

lemma SkipWhitespace_stop: "\<not> iswspace (peek r) \<Longrightarrow> SkipWhitespace r = r"
  by (cases r) (auto simp: peek_def)

lemma SkipWhitespace_dec: "SkipWhitespace (replicate k 32 @ dec n @ r) = dec n @ r"
proof (induction k)
  case 0
  obtain d where "d < 10" "peek (dec n @ r) = of_nat (48 + d)" using dec_peek by blast
  then show ?case using digit_peek(3) by (simp add: SkipWhitespace_stop)
next
  case (Suc k)
  then show ?case by (simp add: iswspace_def)
qed

lemma ParseCSV_after:
  assumes "no_digit r" "target \<noteq> []" "peek target \<noteq> 59"
    "SkipWhitespace (if peek target = 44 then tl target else target) = dec n @ r"
  shows "ParseCSV target acc = ParseCSV r (acc @ [of_nat n])"
proof -
  obtain d where "d < 10" "peek (dec n @ r) = of_nat (48 + d)" using dec_peek by blast
  then have "digit_value (peek (dec n @ r)) \<le> 9" by (simp only: digit_value_digit)
  then show ?thesis
    using assms by (subst ParseCSV.simps) (simp add: Let_def ParseLong_printed)
qed

lemma ParseCSV_item: "no_digit r \<Longrightarrow> ParseCSV (44 # replicate k 32 @ dec n @ r) acc = ParseCSV r (acc @ [of_nat n])"
  by (rule ParseCSV_after) (simp_all add: peek_def SkipWhitespace_dec)

lemma ParseCSV_first:
  assumes "no_digit r"
  shows "ParseCSV (dec n @ r) acc = ParseCSV r (acc @ [of_nat n])"
proof (rule ParseCSV_after [OF assms])
  obtain d where d: "d < 10" "peek (dec n @ r) = of_nat (48 + d)" using dec_peek by blast
  show "peek (dec n @ r) \<noteq> 59" unfolding d(2) by (rule digit_peek(1) [OF d(1)])
  have "peek (dec n @ r) \<noteq> 44" unfolding d(2) by (rule digit_peek(2) [OF d(1)])
  then show "SkipWhitespace (if peek (dec n @ r) = 44 then tl (dec n @ r) else dec n @ r) = dec n @ r"
    using SkipWhitespace_dec [of 0] by simp
qed simp

lemma no_digit_csv_tail: "no_digit r \<Longrightarrow> no_digit (csv_tail k ns @ r)"
  by (cases ns) (auto simp: csv_tail_def peek_def digit_value_def)

lemma ParseCSV_tail:
  "no_digit r \<Longrightarrow> ParseCSV (csv_tail k ns @ r) acc = ParseCSV r (acc @ map of_nat ns)"
proof (induction ns arbitrary: acc)
  case (Cons n ns)
  then show ?case
    using ParseCSV_item [OF no_digit_csv_tail [OF Cons.prems, of k ns], of k n acc]
    by (simp add: csv_tail_def)
qed (simp add: csv_tail_def)

lemma ParseCSV_text:
  assumes "no_digit r"
  shows "ParseCSV (csv_text k ns @ r) acc = ParseCSV r (acc @ map of_nat ns)"
proof (cases ns)
  case (Cons n ms)
  then show ?thesis
    using ParseCSV_first [OF no_digit_csv_tail [OF assms, of k ms], of n acc] ParseCSV_tail [OF assms, of k ms]
    by simp
qed simp

lemma ParseCSV_list: "ParseCSV (csv_text k ns @ 59 # r) [] = (map of_nat ns, r)"
  by (subst ParseCSV_text, simp add: peek_def digit_value_def, subst ParseCSV.simps, simp add: peek_def)

lemma ParseMultipleCSV_lists:
  "ParseMultipleCSV (csv_lists k nss) acc = Some (acc @ map (map of_nat) nss, [])"
proof (induction nss arbitrary: acc)
  case Nil
  show ?case by (subst ParseMultipleCSV.simps) (simp add: csv_lists_def)
next
  case (Cons ns nss)
  have "csv_lists k (ns # nss) = csv_text k ns @ 59 # csv_lists k nss" by (simp add: csv_lists_def)
  then show ?case
    by (subst ParseMultipleCSV.simps) (simp add: ParseCSV_list Cons.IH)
qed

text \<open>A payload of semicolon-terminated, comma-separated lists of numbers is read back by
  ParseMultipleCSV as exactly those lists, in order, each number modulo 2 ^ 64; the loop returns
  and the whole payload is consumed. Any number of spaces may follow a comma.\<close>

theorem ParseMultipleCSV_printed:
  "ParseMultipleCSV (csv_lists k nss) [] = Some (map (map of_nat) nss, [])"
  using ParseMultipleCSV_lists [of k nss "[]"] by simp

text \<open>A payload whose list has no terminating semicolon is read back by ParseCSV, and the
  position reaches the end of the view.\<close>

theorem ParseCSV_printed: "ParseCSV (csv_text k ns) [] = (map of_nat ns, [])"
  using ParseCSV_text [of "[]" k ns "[]"]
  by (simp add: peek_def digit_value_def) (subst ParseCSV.simps, simp)

section \<open>Payloads the loops do not survive\<close>

lemma ParseMultipleCSV_SomeD:
  assumes "ParseMultipleCSV target acc = Some res"
  shows "target = [] \<or> snd (ParseCSV target []) \<noteq> target"
  by (rule ParseMultipleCSV.raw_induct
        [of "\<lambda>target acc res. target = [] \<or> snd (ParseCSV target []) \<noteq> target", OF _ assms])
     (fastforce split: if_splits prod.splits)

lemma ParseCSV_stuck:
  "target \<noteq> [] \<Longrightarrow> peek target \<notin> {44, 59} \<Longrightarrow> \<not> iswspace (peek target) \<Longrightarrow> no_digit target \<Longrightarrow>
    ParseCSV target acc = (acc, target)"
  by (subst ParseCSV.simps) (simp add: Let_def SkipWhitespace_stop)

text \<open>When a list of the payload is followed by a byte that is no digit, comma, semicolon
  or space, ParseMultipleCSV never returns: ParseCSV stops in front of that byte without
  moving, and the loop calls it again at the same position for ever.\<close>

theorem ParseMultipleCSV_diverges:
  assumes "c \<noteq> 44" "c \<noteq> 59" "\<not> iswspace c" "9 < digit_value c"
  shows "ParseMultipleCSV (csv_lists k nss @ c # r) acc = None"
proof (induction nss arbitrary: acc)
  case Nil
  have "snd (ParseCSV (c # r) []) = c # r" using ParseCSV_stuck [of "c # r"] assms by (simp add: peek_def)
  then show ?case
    using ParseMultipleCSV_SomeD [of "c # r" acc] by (cases "ParseMultipleCSV (c # r) acc") (auto simp: csv_lists_def)
next
  case (Cons ns nss)
  have "csv_lists k (ns # nss) @ c # r = csv_text k ns @ 59 # csv_lists k nss @ c # r"
    by (simp add: csv_lists_def)
  then show ?case by (subst ParseMultipleCSV.simps) (simp add: ParseCSV_list Cons.IH)
qed

theorem ParseMultipleCSV_diverges_witness:
  "ParseMultipleCSV (csv_lists 1 [[1, 2, 3, 4]] @ bytes ''EMPTY'') [] = None"
proof -
  have "bytes ''EMPTY'' = 69 # bytes ''MPTY''" by (simp add: bytes_def of_char_def)
  then show ?thesis
    using ParseMultipleCSV_diverges [of 69 1 "[[1, 2, 3, 4]]" "bytes ''MPTY''" "[]"]
    by (simp add: iswspace_def digit_value_def)
qed

section \<open>Rectangles\<close>

text \<open>\<open>SkipNonNumeric\<close> runs off the end of the view exactly when no byte of it counts as a digit.\<close>

lemma SkipNonNumeric_None: "SkipNonNumeric r = None \<longleftrightarrow> (\<forall>c \<in> set r. 9 < digit_value c)"
  by (induction r) auto

lemma SkipNonNumeric_dec:
  assumes "\<forall>c \<in> set gap. 9 < digit_value c"
  shows "SkipNonNumeric (gap @ dec n @ r) = Some (dec n @ r)"
  using assms
proof (induction gap)
  case Nil
  obtain d where "d < 10" "peek (dec n @ r) = of_nat (48 + d)" using dec_peek by blast
  then have "digit_value (peek (dec n @ r)) \<le> 9" by (simp only: digit_value_digit)
  then show ?case by (cases "dec n @ r") (auto simp: peek_def)
qed simp

fun rect_text :: "int \<times> int \<times> int \<times> int \<Rightarrow> bytes" where
  "rect_text (x, y, w, h) = csv_text 1 [nat x, nat y, nat w, nat h]"

fun rect_ok :: "int \<times> int \<times> int \<times> int \<Rightarrow> bool" where
  "rect_ok (x, y, w, h) \<longleftrightarrow> x \<in> {0..int32_max} \<and> y \<in> {0..int32_max} \<and> w \<in> {0..int32_max} \<and> h \<in> {0..int32_max}"

lemma long_to_int_id: "0 \<le> i \<Longrightarrow> i \<le> int32_max \<Longrightarrow> long_to_int (word_of_int i) = i"
  by (simp add: long_to_int_def int32_id int32_max_def int32_min_def signed_of_int signed_take_bit_int_eq_self)

lemma gap_ok: "\<forall>c \<in> set [44, 32 :: u8]. 9 < digit_value c"
  by (simp add: digit_value_def)

lemma ParseRect_printed:
  assumes "rect_ok (x, y, w, h)" "no_digit r" "\<forall>c \<in> set gap. 9 < digit_value c"
  shows "ParseRect Rect Rect0 (gap @ rect_text (x, y, w, h) @ r) = Some (Rect x y w h, r)"
proof -
  have nd: "no_digit (44 # s)" for s by (simp add: peek_def digit_value_def)
  have txt_eq: "rect_text (x, y, w, h) @ r =
      dec (nat x) @ 44 # 32 # dec (nat y) @ 44 # 32 # dec (nat w) @ 44 # 32 # dec (nat h) @ r"
    by (simp add: csv_tail_def)
  have skip: "SkipNonNumeric (44 # 32 # dec n @ s) = Some (dec n @ s)" for n s
    using SkipNonNumeric_dec [OF gap_ok, of n s] by simp
  show ?thesis
    unfolding ParseRect_def txt_eq using assms
    by (simp add: SkipNonNumeric_dec ParseLong_printed nd skip long_to_int_id Let_def
        del: SkipNonNumeric.simps)
qed

definition rects_text :: "(int \<times> int \<times> int \<times> int) list \<Rightarrow> bytes" where
  "rects_text rs = concat (map (\<lambda>r. 59 # rect_text r) rs)"

lemma no_digit_rects_text: "no_digit (rects_text rs)"
  by (cases rs) (auto simp: rects_text_def peek_def digit_value_def)

text \<open>A non-empty payload of rectangles in the range of a non-negative int, separated by
  semicolons, is read back by ParseMultipleRects as exactly those rectangles; the loop returns
  and consumes the payload.\<close>

theorem ParseMultipleRects_printed:
  assumes "rect_ok r0" "\<forall>r \<in> set rs. rect_ok r"
  shows "ParseMultipleRects (\<lambda>x y w h. (x, y, w, h)) Rect0 (rect_text r0 @ rects_text rs) [] = Some (r0 # rs, [])"
proof -
  have step: "ParseMultipleRects (\<lambda>x y w h. (x, y, w, h)) Rect0 (gap @ rect_text r @ rects_text rs) acc =
      ParseMultipleRects (\<lambda>x y w h. (x, y, w, h)) Rect0 (rects_text rs) (acc @ [r])"
    if "rect_ok r" "\<forall>c \<in> set gap. 9 < digit_value c" for gap r rs acc
  proof -
    obtain x y w h where r: "r = (x, y, w, h)" by (cases r) auto
    then show ?thesis
      using ParseRect_printed [of x y w h "rects_text rs" gap "\<lambda>x y w h. (x, y, w, h)" Rect0] that no_digit_rects_text
      by (subst ParseMultipleRects.simps) simp
  qed
  have rest: "ParseMultipleRects (\<lambda>x y w h. (x, y, w, h)) Rect0 (rects_text rs) acc = Some (acc @ rs, [])"
    if "\<forall>r \<in> set rs. rect_ok r" for acc
    using that
  proof (induction rs arbitrary: acc)
    case Nil
    show ?case by (subst ParseMultipleRects.simps) (simp add: rects_text_def)
  next
    case (Cons r rs)
    then show ?case using step [of r "[59]" rs acc] by (simp add: rects_text_def digit_value_def)
  qed
  show ?thesis using step [OF assms(1), of "[]" rs "[]"] rest [OF assms(2)] by simp
qed

theorem ParseMultipleRects_printed_witness:
  "ParseMultipleRects (\<lambda>x y w h. (x, y, w, h)) (0, 0, 0, 0)
     (rect_text (0, 15, 3840, 3840) @ rects_text [(3840, 15, 3840, 3840)]) [] =
   Some ([(0, 15, 3840, 3840), (3840, 15, 3840, 3840)], [])"
  by (rule ParseMultipleRects_printed) (simp_all add: int32_max_def)

text \<open>A semicolon after the last rectangle makes ParseMultipleRects undefined, although the
  comment at the function allows one: the loop is entered again, and SkipNonNumeric reads past
  the end of the view.\<close>

theorem ParseMultipleRects_trailing:
  assumes "rect_ok r0"
  shows "ParseMultipleRects (\<lambda>x y w h. (x, y, w, h)) Rect0 (rect_text r0 @ [59]) acc = None"
proof -
  obtain x y w h where r: "r0 = (x, y, w, h)" by (cases r0) auto
  have "ParseRect (\<lambda>x y w h. (x, y, w, h)) Rect0 (rect_text r0 @ [59]) = Some (r0, [59])"
    using ParseRect_printed [of x y w h "[59]" "[]"] assms r by (simp add: peek_def digit_value_def)
  moreover have "ParseRect (\<lambda>x y w h. (x, y, w, h)) Rect0 [59] = None"
    by (simp add: ParseRect_def digit_value_def)
  ultimately show ?thesis
    by (subst ParseMultipleRects.simps, simp, subst ParseMultipleRects.simps, simp)
qed

theorem ParseMultipleRects_trailing_witness:
  "ParseMultipleRects (\<lambda>x y w h. (x, y, w, h)) (0, 0, 0, 0) (rect_text (0, 15, 3840, 3840) @ [59]) [] = None"
  by (rule ParseMultipleRects_trailing) (simp add: int32_max_def)

end
