(* ===== verification/Lok_Callback.thy ===== *)
theory Lok_Callback
  imports Lok_Parse
begin

text \<open>
  The callback types of office/lok_callback.cc and the conversion of a callback's payload to a
  V8 value. The numeric values of the LibreOfficeKit callback types come from a third-party
  header and are a parameter \<open>code\<close>; so are V8's string and JSON conversions.
\<close>

section \<open>Callback types\<close>

text \<open>The enumerators of LibreOfficeKitCallbackType the code names.\<close>

datatype (plugins only: size) lok_callback_type =
    LOK_CALLBACK_INVALIDATE_TILES
  | LOK_CALLBACK_INVALIDATE_VISIBLE_CURSOR
  | LOK_CALLBACK_TEXT_SELECTION
  | LOK_CALLBACK_TEXT_SELECTION_START
  | LOK_CALLBACK_TEXT_SELECTION_END
  | LOK_CALLBACK_CURSOR_VISIBLE
  | LOK_CALLBACK_VIEW_CURSOR_VISIBLE
  | LOK_CALLBACK_GRAPHIC_SELECTION
  | LOK_CALLBACK_GRAPHIC_VIEW_SELECTION
  | LOK_CALLBACK_CELL_CURSOR
  | LOK_CALLBACK_HYPERLINK_CLICKED
  | LOK_CALLBACK_MOUSE_POINTER
  | LOK_CALLBACK_STATE_CHANGED
  | LOK_CALLBACK_STATUS_INDICATOR_START
  | LOK_CALLBACK_STATUS_INDICATOR_SET_VALUE
  | LOK_CALLBACK_STATUS_INDICATOR_FINISH
  | LOK_CALLBACK_SEARCH_NOT_FOUND
  | LOK_CALLBACK_DOCUMENT_SIZE_CHANGED
  | LOK_CALLBACK_SET_PART
  | LOK_CALLBACK_SEARCH_RESULT_SELECTION
  | LOK_CALLBACK_DOCUMENT_PASSWORD
  | LOK_CALLBACK_DOCUMENT_PASSWORD_TO_MODIFY
  | LOK_CALLBACK_CONTEXT_MENU
  | LOK_CALLBACK_INVALIDATE_VIEW_CURSOR
  | LOK_CALLBACK_TEXT_VIEW_SELECTION
  | LOK_CALLBACK_CELL_VIEW_CURSOR
  | LOK_CALLBACK_CELL_ADDRESS
  | LOK_CALLBACK_CELL_FORMULA
  | LOK_CALLBACK_UNO_COMMAND_RESULT
  | LOK_CALLBACK_ERROR
  | LOK_CALLBACK_VIEW_LOCK
  | LOK_CALLBACK_REDLINE_TABLE_SIZE_CHANGED
  | LOK_CALLBACK_REDLINE_TABLE_ENTRY_MODIFIED
  | LOK_CALLBACK_INVALIDATE_HEADER
  | LOK_CALLBACK_COMMENT
  | LOK_CALLBACK_RULER_UPDATE
  | LOK_CALLBACK_WINDOW
  | LOK_CALLBACK_VALIDITY_LIST_BUTTON
  | LOK_CALLBACK_VALIDITY_INPUT_HELP
  | LOK_CALLBACK_CLIPBOARD_CHANGED
  | LOK_CALLBACK_CONTEXT_CHANGED
  | LOK_CALLBACK_SIGNATURE_STATUS
  | LOK_CALLBACK_PROFILE_FRAME
  | LOK_CALLBACK_CELL_SELECTION_AREA
  | LOK_CALLBACK_CELL_AUTO_FILL_AREA
  | LOK_CALLBACK_TABLE_SELECTED
  | LOK_CALLBACK_REFERENCE_MARKS
  | LOK_CALLBACK_JSDIALOG
  | LOK_CALLBACK_CALC_FUNCTION_LIST
  | LOK_CALLBACK_TAB_STOP_LIST
  | LOK_CALLBACK_FORM_FIELD_BUTTON
  | LOK_CALLBACK_INVALIDATE_SHEET_GEOMETRY
  | LOK_CALLBACK_DOCUMENT_BACKGROUND_COLOR
  | LOK_COMMAND_BLOCKED
  | LOK_CALLBACK_SC_FOLLOW_JUMP
  | LOK_CALLBACK_CONTENT_CONTROL
  | LOK_CALLBACK_PRINT_RANGES
  | LOK_CALLBACK_FONTS_MISSING
  | LOK_CALLBACK_MACRO_COLORIZER
  | LOK_CALLBACK_MACRO_OVERLAY
  | LOK_CALLBACK_MEDIA_SHAPE
  | LOK_CALLBACK_EXPORT_FILE
  | LOK_CALLBACK_VIEW_RENDER_STATE
  | LOK_CALLBACK_APPLICATION_BACKGROUND_COLOR
  | LOK_CALLBACK_A11Y_FOCUS_CHANGED
  | LOK_CALLBACK_A11Y_CARET_CHANGED
  | LOK_CALLBACK_A11Y_TEXT_SELECTION_CHANGED
  | LOK_CALLBACK_COLOR_PALETTES
  | LOK_CALLBACK_DOCUMENT_PASSWORD_RESET
  | LOK_CALLBACK_A11Y_FOCUSED_CELL_CHANGED

datatype event_type = Lok lok_callback_type | Internal int

text \<open>The initialiser of the map from event names to types, in its order.\<close>

definition EventStringToTypeMap :: "(string \<times> event_type) list" where
  "EventStringToTypeMap = [
     (''invalidate_tiles'', Lok LOK_CALLBACK_INVALIDATE_TILES),
     (''invalidate_visible_cursor'', Lok LOK_CALLBACK_INVALIDATE_VISIBLE_CURSOR),
     (''text_selection'', Lok LOK_CALLBACK_TEXT_SELECTION),
     (''text_selection_start'', Lok LOK_CALLBACK_TEXT_SELECTION_START),
     (''text_selection_end'', Lok LOK_CALLBACK_TEXT_SELECTION_END),
     (''cursor_visible'', Lok LOK_CALLBACK_CURSOR_VISIBLE),
     (''view_cursor_visible'', Lok LOK_CALLBACK_VIEW_CURSOR_VISIBLE),
     (''graphic_selection'', Lok LOK_CALLBACK_GRAPHIC_SELECTION),
     (''graphic_view_selection'', Lok LOK_CALLBACK_GRAPHIC_VIEW_SELECTION),
     (''cell_cursor'', Lok LOK_CALLBACK_CELL_CURSOR),
     (''hyperlink_clicked'', Lok LOK_CALLBACK_HYPERLINK_CLICKED),
     (''mouse_pointer'', Lok LOK_CALLBACK_MOUSE_POINTER),
     (''state_changed'', Lok LOK_CALLBACK_STATE_CHANGED),
     (''status_indicator_start'', Lok LOK_CALLBACK_STATUS_INDICATOR_START),
     (''status_indicator_set_value'', Lok LOK_CALLBACK_STATUS_INDICATOR_SET_VALUE),
     (''status_indicator_finish'', Lok LOK_CALLBACK_STATUS_INDICATOR_FINISH),
     (''search_not_found'', Lok LOK_CALLBACK_SEARCH_NOT_FOUND),
     (''document_size_changed'', Lok LOK_CALLBACK_DOCUMENT_SIZE_CHANGED),
     (''set_part'', Lok LOK_CALLBACK_SET_PART),
     (''search_result_selection'', Lok LOK_CALLBACK_SEARCH_RESULT_SELECTION),
     (''document_password'', Lok LOK_CALLBACK_DOCUMENT_PASSWORD),
     (''document_password_to_modify'', Lok LOK_CALLBACK_DOCUMENT_PASSWORD_TO_MODIFY),
     (''context_menu'', Lok LOK_CALLBACK_CONTEXT_MENU),
     (''invalidate_view_cursor'', Lok LOK_CALLBACK_INVALIDATE_VIEW_CURSOR),
     (''text_view_selection'', Lok LOK_CALLBACK_TEXT_VIEW_SELECTION),
     (''cell_view_cursor'', Lok LOK_CALLBACK_CELL_VIEW_CURSOR),
     (''cell_address'', Lok LOK_CALLBACK_CELL_ADDRESS),
     (''cell_formula'', Lok LOK_CALLBACK_CELL_FORMULA),
     (''uno_command_result'', Lok LOK_CALLBACK_UNO_COMMAND_RESULT),
     (''error'', Lok LOK_CALLBACK_ERROR),
     (''view_lock'', Lok LOK_CALLBACK_VIEW_LOCK),
     (''redline_table_size_changed'', Lok LOK_CALLBACK_REDLINE_TABLE_SIZE_CHANGED),
     (''redline_table_entry_modified'', Lok LOK_CALLBACK_REDLINE_TABLE_ENTRY_MODIFIED),
     (''invalidate_header'', Lok LOK_CALLBACK_INVALIDATE_HEADER),
     (''comment'', Lok LOK_CALLBACK_COMMENT),
     (''ruler_update'', Lok LOK_CALLBACK_RULER_UPDATE),
     (''window'', Lok LOK_CALLBACK_WINDOW),
     (''validity_list_button'', Lok LOK_CALLBACK_VALIDITY_LIST_BUTTON),
     (''validity_input_help'', Lok LOK_CALLBACK_VALIDITY_INPUT_HELP),
     (''clipboard_changed'', Lok LOK_CALLBACK_CLIPBOARD_CHANGED),
     (''context_changed'', Lok LOK_CALLBACK_CONTEXT_CHANGED),
     (''signature_status'', Lok LOK_CALLBACK_SIGNATURE_STATUS),
     (''profile_frame'', Lok LOK_CALLBACK_PROFILE_FRAME),
     (''cell_selection_area'', Lok LOK_CALLBACK_CELL_SELECTION_AREA),
     (''cell_auto_fill_area'', Lok LOK_CALLBACK_CELL_AUTO_FILL_AREA),
     (''table_selected'', Lok LOK_CALLBACK_TABLE_SELECTED),
     (''reference_marks'', Lok LOK_CALLBACK_REFERENCE_MARKS),
     (''jsdialog'', Lok LOK_CALLBACK_JSDIALOG),
     (''calc_function_list'', Lok LOK_CALLBACK_CALC_FUNCTION_LIST),
     (''tab_stop_list'', Lok LOK_CALLBACK_TAB_STOP_LIST),
     (''form_field_button'', Lok LOK_CALLBACK_FORM_FIELD_BUTTON),
     (''invalidate_sheet_geometry'', Lok LOK_CALLBACK_INVALIDATE_SHEET_GEOMETRY),
     (''document_background_color'', Lok LOK_CALLBACK_DOCUMENT_BACKGROUND_COLOR),
     (''lok_command_blocked'', Lok LOK_COMMAND_BLOCKED),
     (''sc_follow_jump'', Lok LOK_CALLBACK_SC_FOLLOW_JUMP),
     (''content_control'', Lok LOK_CALLBACK_CONTENT_CONTROL),
     (''print_ranges'', Lok LOK_CALLBACK_PRINT_RANGES),
     (''fonts_missing'', Lok LOK_CALLBACK_FONTS_MISSING),
     (''macro_colorizer'', Lok LOK_CALLBACK_MACRO_COLORIZER),
     (''macro_overlay'', Lok LOK_CALLBACK_MACRO_OVERLAY),
     (''media_shape'', Lok LOK_CALLBACK_MEDIA_SHAPE),
     (''export_file'', Lok LOK_CALLBACK_EXPORT_FILE),
     (''view_render_state'', Lok LOK_CALLBACK_VIEW_RENDER_STATE),
     (''application_background_color'', Lok LOK_CALLBACK_APPLICATION_BACKGROUND_COLOR),
     (''a11y_focus_changed'', Lok LOK_CALLBACK_A11Y_FOCUS_CHANGED),
     (''a11y_caret_changed'', Lok LOK_CALLBACK_A11Y_CARET_CHANGED),
     (''a11y_text_selection_changed'', Lok LOK_CALLBACK_A11Y_TEXT_SELECTION_CHANGED),
     (''color_palettes'', Lok LOK_CALLBACK_COLOR_PALETTES),
     (''document_password_reset'', Lok LOK_CALLBACK_DOCUMENT_PASSWORD_RESET),
     (''a11y_focused_cell_changed'', Lok LOK_CALLBACK_A11Y_FOCUSED_CELL_CHANGED),
     (''ready'', Internal 300)]"

fun event_code :: "(lok_callback_type \<Rightarrow> int) \<Rightarrow> event_type \<Rightarrow> int" where
  "event_code code (Lok t) = code t"
| "event_code code (Internal i) = i"

definition EventStringToType :: "(lok_callback_type \<Rightarrow> int) \<Rightarrow> string \<Rightarrow> int" where
  "EventStringToType code eventString =
     (case map_of EventStringToTypeMap eventString of
        Some t \<Rightarrow> event_code code t
      | None \<Rightarrow> - 1)"

text \<open>The labels of the three switches.\<close>

definition json_types :: "lok_callback_type list" where
  "json_types = [
     LOK_CALLBACK_INVALIDATE_VISIBLE_CURSOR,
     LOK_CALLBACK_CURSOR_VISIBLE,
     LOK_CALLBACK_VIEW_CURSOR_VISIBLE,
     LOK_CALLBACK_GRAPHIC_SELECTION,
     LOK_CALLBACK_GRAPHIC_VIEW_SELECTION,
     LOK_CALLBACK_SET_PART,
     LOK_CALLBACK_SEARCH_RESULT_SELECTION,
     LOK_CALLBACK_CONTEXT_MENU,
     LOK_CALLBACK_INVALIDATE_VIEW_CURSOR,
     LOK_CALLBACK_TEXT_VIEW_SELECTION,
     LOK_CALLBACK_CELL_VIEW_CURSOR,
     LOK_CALLBACK_UNO_COMMAND_RESULT,
     LOK_CALLBACK_ERROR,
     LOK_CALLBACK_VIEW_LOCK,
     LOK_CALLBACK_REDLINE_TABLE_SIZE_CHANGED,
     LOK_CALLBACK_REDLINE_TABLE_ENTRY_MODIFIED,
     LOK_CALLBACK_COMMENT,
     LOK_CALLBACK_RULER_UPDATE,
     LOK_CALLBACK_WINDOW,
     LOK_CALLBACK_VALIDITY_INPUT_HELP,
     LOK_CALLBACK_CLIPBOARD_CHANGED,
     LOK_CALLBACK_REFERENCE_MARKS,
     LOK_CALLBACK_JSDIALOG,
     LOK_CALLBACK_MACRO_OVERLAY,
     LOK_CALLBACK_MACRO_COLORIZER,
     LOK_CALLBACK_CALC_FUNCTION_LIST,
     LOK_CALLBACK_TAB_STOP_LIST,
     LOK_COMMAND_BLOCKED,
     LOK_CALLBACK_TABLE_SELECTED,
     LOK_CALLBACK_FORM_FIELD_BUTTON,
     LOK_CALLBACK_CONTENT_CONTROL,
     LOK_CALLBACK_PRINT_RANGES,
     LOK_CALLBACK_STATUS_INDICATOR_SET_VALUE]"

definition csv_types :: "lok_callback_type list" where
  "csv_types = [
     LOK_CALLBACK_INVALIDATE_VISIBLE_CURSOR,
     LOK_CALLBACK_INVALIDATE_TILES,
     LOK_CALLBACK_TEXT_SELECTION_START,
     LOK_CALLBACK_TEXT_SELECTION_END,
     LOK_CALLBACK_CELL_CURSOR,
     LOK_CALLBACK_DOCUMENT_SIZE_CHANGED,
     LOK_CALLBACK_VALIDITY_LIST_BUTTON,
     LOK_CALLBACK_CELL_SELECTION_AREA,
     LOK_CALLBACK_CELL_AUTO_FILL_AREA,
     LOK_CALLBACK_SC_FOLLOW_JUMP]"

definition IsTypeJSON :: "(lok_callback_type \<Rightarrow> int) \<Rightarrow> int \<Rightarrow> bool" where
  "IsTypeJSON code type \<longleftrightarrow> type \<in> set (map code json_types)"

definition IsTypeCSV :: "(lok_callback_type \<Rightarrow> int) \<Rightarrow> int \<Rightarrow> bool" where
  "IsTypeCSV code type \<longleftrightarrow> type \<in> set (map code csv_types)"

definition IsTypeMultipleCSV :: "(lok_callback_type \<Rightarrow> int) \<Rightarrow> int \<Rightarrow> bool" where
  "IsTypeMultipleCSV code type \<longleftrightarrow> type = code LOK_CALLBACK_TEXT_SELECTION"

section \<open>Payloads\<close>

text \<open>
  The V8 values a payload becomes. \<open>'s\<close> are V8 strings and \<open>'j\<close> parsed JSON values; the
  record holds the V8 functions that make them, each of which may fail.
\<close>

datatype ('s, 'j) local_value =
    VNull
  | VString 's
  | VJson 'j
  | VNumbers "u64 list"
  | VNumberLists "u64 list list"
  | VPair "('s, 'j) local_value" "('s, 'j) local_value"

record ('s, 'j) v8 =
  NewFromUtf8 :: "bytes \<Rightarrow> 's option"
  StringLength :: "'s \<Rightarrow> nat"
  JSONParse :: "'s \<Rightarrow> 'j option"

definition ParseJSON :: "('s, 'j) v8 \<Rightarrow> 's \<Rightarrow> ('s, 'j) local_value" where
  "ParseJSON v json =
     (if StringLength v json = 0 then VNull
      else case JSONParse v json of None \<Rightarrow> VNull | Some j \<Rightarrow> VJson j)"

definition GraphicSelectionPayloadToLocalValue :: "('s, 'j) v8 \<Rightarrow> bytes \<Rightarrow> ('s, 'j) local_value" where
  "GraphicSelectionPayloadToLocalValue v payload =
     (let (numbers, start) = ParseCSV payload []
      in if start = [] then VPair (VNumbers numbers) VNull
         else case NewFromUtf8 v start of
                None \<Rightarrow> VPair (VNumbers numbers) VNull
              | Some s \<Rightarrow> VPair (VNumbers numbers) (ParseJSON v s))"

text \<open>A null payload is \<^const>\<open>None\<close>; the result is \<^const>\<open>None\<close> when the call does not return.\<close>

definition PayloadToLocalValue ::
  "(lok_callback_type \<Rightarrow> int) \<Rightarrow> ('s, 'j) v8 \<Rightarrow> int \<Rightarrow> bytes option \<Rightarrow> ('s, 'j) local_value option" where
  "PayloadToLocalValue code v type payload =
     (case payload of
        None \<Rightarrow> Some VNull
      | Some p \<Rightarrow>
          if type = code LOK_CALLBACK_GRAPHIC_SELECTION
          then Some (GraphicSelectionPayloadToLocalValue v p)
          else if IsTypeCSV code type \<and> peek p \<noteq> 123
          then Some (VNumbers (fst (ParseCSV p [])))
          else if IsTypeMultipleCSV code type
          then map_option (\<lambda>(result, _). VNumberLists result) (ParseMultipleCSV p [])
          else case NewFromUtf8 v p of
                 None \<Rightarrow> Some VNull
               | Some s \<Rightarrow>
                   if \<not> IsTypeJSON code type \<and> \<not> (type = code LOK_CALLBACK_STATE_CHANGED \<and> peek p = 123)
                   then Some (VString s)
                   else Some (ParseJSON v s))"

section \<open>Properties\<close>

definition codes_ok :: "(lok_callback_type \<Rightarrow> int) \<Rightarrow> bool" where
  "codes_ok code \<longleftrightarrow> inj code \<and> (\<forall>t. 0 \<le> code t \<and> code t \<noteq> 300)"

lemma distinct_event_names: "distinct (map fst EventStringToTypeMap)"
  unfolding EventStringToTypeMap_def by simp

lemma distinct_event_types: "distinct (map snd EventStringToTypeMap)"
  unfolding EventStringToTypeMap_def by simp

lemma event_code_inj: "codes_ok code \<Longrightarrow> (\<forall>i. Internal i \<in> T \<longrightarrow> i = 300) \<Longrightarrow> inj_on (event_code code) T"
proof (rule inj_onI)
  fix s t
  assume "codes_ok code" "\<forall>i. Internal i \<in> T \<longrightarrow> i = 300" "s \<in> T" "t \<in> T" "event_code code s = event_code code t"
  then show "s = t" by (cases s; cases t) (auto simp: codes_ok_def inj_eq)
qed

lemma internal_300: "Internal i \<in> snd ` set EventStringToTypeMap \<Longrightarrow> i = 300"
  unfolding EventStringToTypeMap_def by simp

lemma map_of_inj:
  assumes "distinct (map snd xs)" "map_of xs a = Some t" "map_of xs b = Some t"
  shows "a = b"
proof -
  have "(a, t) \<in> set xs" "(b, t) \<in> set xs" using assms map_of_SomeD by fast+
  then show ?thesis using assms(1) by (metis distinct_map inj_onD prod.inject snd_conv)
qed

text \<open>Event names and callback types correspond one to one. Whatever numbers the
  LibreOfficeKit header gives its enumerators, as long as they are distinct, non-negative and
  not the internal 300, two known event names have the same type only if they are equal, and
  exactly the unknown names have type -1.\<close>

theorem EventStringToType_inj:
  assumes "codes_ok code"
  shows "(EventStringToType code a = EventStringToType code b \<longleftrightarrow>
      a = b \<or> map_of EventStringToTypeMap a = None \<and> map_of EventStringToTypeMap b = None) \<and>
    (EventStringToType code a = - 1 \<longleftrightarrow> map_of EventStringToTypeMap a = None)"
proof -
  have inj: "inj_on (event_code code) (snd ` set EventStringToTypeMap)"
    using event_code_inj [OF assms] internal_300 by blast
  have nonneg: "event_code code t \<noteq> - 1" "- 1 \<noteq> event_code code t"
    if "map_of EventStringToTypeMap x = Some t" for x t
  proof -
    have "t \<in> snd ` set EventStringToTypeMap" using map_of_SomeD [OF that] by (metis image_eqI snd_conv)
    then have "0 \<le> event_code code t"
      using assms internal_300 by (cases t) (simp add: codes_ok_def, fastforce)
    then show "event_code code t \<noteq> - 1" "- 1 \<noteq> event_code code t" by simp_all
  qed
  have same: "a = b"
    if "map_of EventStringToTypeMap a = Some s" "map_of EventStringToTypeMap b = Some t"
      "event_code code s = event_code code t" for s t
  proof -
    have "s = t" using inj_onD [OF inj that(3)] that(1,2) map_of_SomeD by (metis image_eqI snd_conv)
    then show ?thesis using map_of_inj [OF distinct_event_types] that by blast
  qed
  show ?thesis
    unfolding EventStringToType_def
    by (cases "map_of EventStringToTypeMap a"; cases "map_of EventStringToTypeMap b")
       (auto simp: nonneg dest: same)
qed

definition sample_code :: "lok_callback_type \<Rightarrow> int" where
  "sample_code t = int (length (takeWhile (\<lambda>e. e \<noteq> Lok t) (map snd EventStringToTypeMap)))"

lemma length_EventStringToTypeMap: "length EventStringToTypeMap = 71"
  unfolding EventStringToTypeMap_def by simp

lemma Lok_in_map: "Lok t \<in> set (map snd EventStringToTypeMap)"
  unfolding EventStringToTypeMap_def by (cases t) simp_all

lemma takeWhile_length_inj:
  assumes "x \<in> set xs" "y \<in> set xs"
    "length (takeWhile (\<lambda>e. e \<noteq> x) xs) = length (takeWhile (\<lambda>e. e \<noteq> y) xs)"
  shows "x = y"
proof -
  have "xs ! length (takeWhile (\<lambda>e. e \<noteq> z) xs) = z" if "z \<in> set xs" for z
    using that by (induction xs) auto
  then show ?thesis using assms by metis
qed

lemma codes_ok_sample: "codes_ok sample_code"
proof -
  have "inj sample_code"
    using takeWhile_length_inj [OF Lok_in_map Lok_in_map] by (intro injI) (auto simp: sample_code_def)
  moreover have "sample_code t \<noteq> 300" for t
    using length_takeWhile_le [of "\<lambda>e. e \<noteq> Lok t" "map snd EventStringToTypeMap"]
    by (simp add: sample_code_def length_EventStringToTypeMap)
  ultimately show ?thesis by (simp add: codes_ok_def sample_code_def)
qed

theorem EventStringToType_inj_witness:
  "EventStringToType sample_code ''set_part'' \<noteq> EventStringToType sample_code ''ready'' \<and>
   EventStringToType sample_code ''nothing'' = - 1"
proof -
  have "map_of EventStringToTypeMap ''set_part'' \<noteq> None" "map_of EventStringToTypeMap ''nothing'' = None"
    by (simp_all add: EventStringToTypeMap_def)
  then show ?thesis
    using EventStringToType_inj [OF codes_ok_sample, of "''set_part''" "''ready''"]
      EventStringToType_inj [OF codes_ok_sample, of "''nothing''" "''nothing''"] by simp
qed

text \<open>Converting a payload returns for every callback type except TEXT_SELECTION, the only
  one whose parser may loop; and a TEXT_SELECTION payload of semicolon-terminated lists of
  numbers becomes exactly the array of those arrays.\<close>

theorem PayloadToLocalValue_returns:
  assumes "codes_ok code"
  shows "(type \<noteq> code LOK_CALLBACK_TEXT_SELECTION \<longrightarrow> (\<exists>v. PayloadToLocalValue code w type payload = Some v)) \<and>
     PayloadToLocalValue code w (code LOK_CALLBACK_TEXT_SELECTION) (Some (csv_lists k nss)) =
     Some (VNumberLists (map (map of_nat) nss))"
proof
  show "type \<noteq> code LOK_CALLBACK_TEXT_SELECTION \<longrightarrow> (\<exists>v. PayloadToLocalValue code w type payload = Some v)"
    by (auto simp: PayloadToLocalValue_def IsTypeMultipleCSV_def split: option.splits)
  have "ParseMultipleCSV (csv_lists k nss) [] = Some (map (map of_nat) nss, [])"
    using ParseMultipleCSV_lists [of k nss "[]"] by simp
  moreover have "inj code" using assms by (simp add: codes_ok_def)
  ultimately show "PayloadToLocalValue code w (code LOK_CALLBACK_TEXT_SELECTION) (Some (csv_lists k nss)) =
     Some (VNumberLists (map (map of_nat) nss))"
    by (simp add: PayloadToLocalValue_def IsTypeMultipleCSV_def IsTypeCSV_def csv_types_def inj_eq)
qed

theorem PayloadToLocalValue_returns_witness:
  "(\<exists>v. PayloadToLocalValue sample_code \<lparr>NewFromUtf8 = Some, StringLength = length, JSONParse = \<lambda>_. None :: bytes option\<rparr>
      (sample_code LOK_CALLBACK_ERROR) None = Some v) \<and>
   PayloadToLocalValue sample_code \<lparr>NewFromUtf8 = Some, StringLength = length, JSONParse = \<lambda>_. None :: bytes option\<rparr>
      (sample_code LOK_CALLBACK_TEXT_SELECTION) (Some (csv_lists 1 [[10, 20], [30]])) =
   Some (VNumberLists [[10, 20], [30]])"
  using PayloadToLocalValue_returns
      [OF codes_ok_sample, of "sample_code LOK_CALLBACK_ERROR" _ None 1 "[[10, 20], [30]]"] codes_ok_sample
  by (auto simp: codes_ok_def inj_eq)

end
