(* ===== verification/Promise.thy ===== *)
theory Promise
  imports Lok_Callback
begin

text \<open>
  office/promise.h and promise.cc: the move-only wrapper of a V8 promise resolver that is
  carried through tasks, office/v8_stringify.cc and the V8 values the clients hand to scripts.
  V8 is a parameter: the calls of a resolver are recorded in order, and contexts, resolvers and
  task runners are identified by numbers. An empty V8 handle or a null task runner is
  \<^const>\<open>None\<close>, and its use is undefined.
\<close>

section \<open>Values and state\<close>

datatype ('s, 'j) v8_value =
    VUndefined
  | VEmpty
  | VBool bool
  | VError string
  | VArrayBuffer bytes
  | VPayload "('s, 'j) local_value"
  | VArray "('s, 'j) v8_value list"
  | VObject "(string \<times> ('s, 'j) v8_value) list"
  | VText bytes
  | VWrapper nat
  | VPromise nat

datatype ('s, 'j) resolver_call = ResolverResolve "('s, 'j) v8_value" | ResolverReject "('s, 'j) v8_value"

record Promise =
  pr_isolate :: nat
  pr_context :: "nat option"
  pr_resolver :: "nat option"
  pr_task_runner :: "nat option"

text \<open>The closures that are posted to a promise's task runner.\<close>

datatype ('s, 'j) promise_task =
    TaskResolve Promise "('s, 'j) v8_value"
  | TaskResolveVoid Promise
  | TaskReject Promise string

record ('s, 'j) PromiseWorld =
  pw_next :: nat
  pw_calls :: "(nat \<times> ('s, 'j) resolver_call) list"
  pw_posted :: "(nat \<times> ('s, 'j) promise_task) list"

section \<open>The promise\<close>

definition PromiseBase_make :: "nat \<Rightarrow> nat \<Rightarrow> nat \<Rightarrow> nat option \<Rightarrow> Promise" where
  "PromiseBase_make isolate current_context handle runner =
     \<lparr>pr_isolate = isolate, pr_context = Some current_context, pr_resolver = Some handle, pr_task_runner = runner\<rparr>"

text \<open>A new resolver is a number not used before.\<close>

definition PromiseBase_new ::
  "nat \<Rightarrow> nat \<Rightarrow> nat option \<Rightarrow> ('s, 'j) PromiseWorld \<Rightarrow> Promise \<times> ('s, 'j) PromiseWorld" where
  "PromiseBase_new isolate current_context runner w =
     (PromiseBase_make isolate current_context (pw_next w) runner, w\<lparr>pw_next := Suc (pw_next w)\<rparr>)"

text \<open>The defaulted move: the new object and what is left of the old one.\<close>

definition PromiseBase_move :: "Promise \<Rightarrow> Promise \<times> Promise" where
  "PromiseBase_move p = (p, p\<lparr>pr_context := None, pr_resolver := None, pr_task_runner := None\<rparr>)"

definition PromiseBase_GetHandle :: "Promise \<Rightarrow> nat option" where
  "PromiseBase_GetHandle p = pr_resolver p"

definition resolver_call ::
  "Promise \<Rightarrow> ('s, 'j) resolver_call \<Rightarrow> ('s, 'j) PromiseWorld \<Rightarrow> ('s, 'j) PromiseWorld option" where
  "resolver_call p c w = do {
     _ \<leftarrow> pr_context p;
     r \<leftarrow> pr_resolver p;
     Some (w\<lparr>pw_calls := pw_calls w @ [(r, c)]\<rparr>) }"

definition PromiseBase_Reject :: "Promise \<Rightarrow> ('s, 'j) PromiseWorld \<Rightarrow> ('s, 'j) PromiseWorld option" where
  "PromiseBase_Reject p = resolver_call p (ResolverReject VUndefined)"

definition PromiseBase_Resolve :: "Promise \<Rightarrow> ('s, 'j) PromiseWorld \<Rightarrow> ('s, 'j) PromiseWorld option" where
  "PromiseBase_Resolve p = resolver_call p (ResolverResolve VUndefined)"

definition PromiseBase_Reject_value :: "Promise \<Rightarrow> ('s, 'j) v8_value \<Rightarrow> ('s, 'j) PromiseWorld \<Rightarrow> ('s, 'j) PromiseWorld option" where
  "PromiseBase_Reject_value p except = resolver_call p (ResolverReject except)"

definition RejectWithErrorMessage :: "Promise \<Rightarrow> string \<Rightarrow> ('s, 'j) PromiseWorld \<Rightarrow> ('s, 'j) PromiseWorld option" where
  "RejectWithErrorMessage p message = resolver_call p (ResolverReject (VError message))"

definition post_task :: "Promise \<Rightarrow> ('s, 'j) promise_task \<Rightarrow> ('s, 'j) PromiseWorld \<Rightarrow> ('s, 'j) PromiseWorld option" where
  "post_task p t w = map_option (\<lambda>r. w\<lparr>pw_posted := pw_posted w @ [(r, t)]\<rparr>) (pr_task_runner p)"

definition RejectPromise :: "Promise \<Rightarrow> string \<Rightarrow> ('s, 'j) PromiseWorld \<Rightarrow> ('s, 'j) PromiseWorld option" where
  "RejectPromise p errmsg = post_task p (TaskReject (fst (PromiseBase_move p)) errmsg)"

section \<open>The typed promises\<close>

definition void_ResolvePromise :: "Promise \<Rightarrow> ('s, 'j) PromiseWorld \<Rightarrow> ('s, 'j) PromiseWorld option" where
  "void_ResolvePromise p = post_task p (TaskResolveVoid (fst (PromiseBase_move p)))"

definition void_ResolvedPromise ::
  "nat \<Rightarrow> nat \<Rightarrow> nat option \<Rightarrow> ('s, 'j) PromiseWorld \<Rightarrow> (nat \<times> ('s, 'j) PromiseWorld) option" where
  "void_ResolvedPromise isolate current_context runner w = do {
     let (p, w1) = PromiseBase_new isolate current_context runner w;
     w2 \<leftarrow> PromiseBase_Resolve p w1;
     h \<leftarrow> PromiseBase_GetHandle p;
     Some (h, w2) }"

definition value_Resolve :: "Promise \<Rightarrow> ('s, 'j) v8_value \<Rightarrow> ('s, 'j) PromiseWorld \<Rightarrow> ('s, 'j) PromiseWorld option" where
  "value_Resolve p v = resolver_call p (ResolverResolve v)"

definition value_Resolve_void :: "Promise \<Rightarrow> ('s, 'j) PromiseWorld \<Rightarrow> ('s, 'j) PromiseWorld option" where
  "value_Resolve_void p = value_Resolve p VUndefined"

definition value_ResolvePromise :: "Promise \<Rightarrow> ('s, 'j) v8_value \<Rightarrow> ('s, 'j) PromiseWorld \<Rightarrow> ('s, 'j) PromiseWorld option" where
  "value_ResolvePromise p v = post_task p (TaskResolve (fst (PromiseBase_move p)) v)"

definition value_ResolvePromise_void :: "Promise \<Rightarrow> ('s, 'j) PromiseWorld \<Rightarrow> ('s, 'j) PromiseWorld option" where
  "value_ResolvePromise_void p = post_task p (TaskResolveVoid (fst (PromiseBase_move p)))"

text \<open>\<open>Promise<RT>\<close>, with the conversion of the result to a V8 value as the function \<open>conv\<close>.\<close>

definition typed_Resolve ::
  "('r \<Rightarrow> ('s, 'j) v8_value) \<Rightarrow> Promise \<Rightarrow> 'r \<Rightarrow> ('s, 'j) PromiseWorld \<Rightarrow> ('s, 'j) PromiseWorld option" where
  "typed_Resolve conv p v = resolver_call p (ResolverResolve (conv v))"

definition typed_ResolvePromise ::
  "('r \<Rightarrow> ('s, 'j) v8_value) \<Rightarrow> Promise \<Rightarrow> 'r \<Rightarrow> ('s, 'j) PromiseWorld \<Rightarrow> ('s, 'j) PromiseWorld option" where
  "typed_ResolvePromise conv p result = post_task p (TaskResolve (fst (PromiseBase_move p)) (conv result))"

definition typed_ResolvedPromise ::
  "('r \<Rightarrow> ('s, 'j) v8_value) \<Rightarrow> nat \<Rightarrow> nat \<Rightarrow> nat option \<Rightarrow> 'r \<Rightarrow> ('s, 'j) PromiseWorld \<Rightarrow> (nat \<times> ('s, 'j) PromiseWorld) option" where
  "typed_ResolvedPromise conv isolate current_context runner result w = do {
     let (p, w1) = PromiseBase_new isolate current_context runner w;
     w2 \<leftarrow> typed_Resolve conv p result w1;
     h \<leftarrow> PromiseBase_GetHandle p;
     Some (h, w2) }"

text \<open>
  The overload for a pointer to a wrappable object; \<open>GetWrapper\<close> is V8's conversion of the object
  and may fail. None of the two failure branches returns: a null pointer is dereferenced after
  the promise is resolved, and a failed conversion resolves a second time, with an empty handle.
\<close>

definition pointer_Resolve ::
  "(nat \<Rightarrow> ('s, 'j) v8_value option) \<Rightarrow> Promise \<Rightarrow> nat option \<Rightarrow> ('s, 'j) PromiseWorld \<Rightarrow> ('s, 'j) PromiseWorld option" where
  "pointer_Resolve GetWrapper p val w = do {
     w1 \<leftarrow> (if val = None then PromiseBase_Resolve p w else Some w);
     ptr \<leftarrow> val;
     (result, w2) \<leftarrow>
       (case GetWrapper ptr of
          Some v \<Rightarrow> Some (v, w1)
        | None \<Rightarrow> map_option (\<lambda>w2. (VEmpty, w2)) (PromiseBase_Resolve p w1));
     resolver_call p (ResolverResolve result) w2 }"

text \<open>\<open>Promise<RT>::As\<close>: a promise of another type with the same resolver, in the context and on the runner current at the call.\<close>

definition promise_As :: "nat \<Rightarrow> nat option \<Rightarrow> Promise \<Rightarrow> Promise option" where
  "promise_As current_context runner p =
     map_option (\<lambda>r. PromiseBase_make (pr_isolate p) current_context r runner) (pr_resolver p)"

section \<open>Running the posted tasks\<close>

fun run_promise_task :: "('s, 'j) promise_task \<Rightarrow> ('s, 'j) PromiseWorld \<Rightarrow> ('s, 'j) PromiseWorld option" where
  "run_promise_task (TaskResolve p v) w = resolver_call p (ResolverResolve v) w"
| "run_promise_task (TaskResolveVoid p) w = PromiseBase_Resolve p w"
| "run_promise_task (TaskReject p s) w = RejectWithErrorMessage p s w"

section \<open>Strings\<close>

text \<open>
  \<open>v8_stringify\<close>: \<open>ToString\<close> is V8's conversion, which may throw (\<^const>\<open>None\<close>), to the UTF-8 bytes it
  writes; \<open>alloc\<close> says whether the buffer can be allocated. The result is the C string, without
  its terminating zero; an empty pointer is \<^const>\<open>None\<close>.
\<close>

definition v8_stringify ::
  "(('s, 'j) v8_value \<Rightarrow> bytes option) \<Rightarrow> (nat \<Rightarrow> bool) \<Rightarrow> bool \<Rightarrow> ('s, 'j) v8_value \<Rightarrow> bytes option" where
  "v8_stringify ToString alloc is_null val =
     (if is_null \<or> val = VUndefined then None
      else case ToString val of
             None \<Rightarrow> None
           | Some s \<Rightarrow> if alloc (length s + 1) then Some s else None)"

section \<open>Properties\<close>

definition promise_live :: "Promise \<Rightarrow> bool" where
  "promise_live p \<longleftrightarrow> pr_context p \<noteq> None \<and> pr_resolver p \<noteq> None \<and> pr_task_runner p \<noteq> None"

lemma promise_live_new: "promise_live (fst (PromiseBase_new i c (Some r) w))"
  by (simp add: PromiseBase_new_def PromiseBase_make_def promise_live_def)

lemma resolver_call_live:
  assumes "promise_live p"
  shows "resolver_call p c w = Some (w\<lparr>pw_calls := pw_calls w @ [(the (pr_resolver p), c)]\<rparr>)"
  using assms by (auto simp: promise_live_def resolver_call_def)

lemma post_task_live:
  assumes "promise_live p"
  shows "post_task p t w = Some (w\<lparr>pw_posted := pw_posted w @ [(the (pr_task_runner p), t)]\<rparr>)"
  using assms by (auto simp: promise_live_def post_task_def)

lemmas promise_ops = PromiseBase_Reject_def PromiseBase_Resolve_def PromiseBase_Reject_value_def
  RejectWithErrorMessage_def RejectPromise_def void_ResolvePromise_def value_Resolve_def
  value_Resolve_void_def value_ResolvePromise_def value_ResolvePromise_void_def typed_Resolve_def
  typed_ResolvePromise_def resolver_call_live post_task_live PromiseBase_move_def

lemma moved_from_dead: "resolver_call (snd (PromiseBase_move p)) c w = None"
  by (simp add: PromiseBase_move_def resolver_call_def)

text \<open>A promise that is handed to a task is settled there and only there. Posting the
  resolution of a promise with a value calls no resolver, posts one task to the promise's own
  runner, and running that task calls the promise's resolver exactly once, with the value;
  the object it was moved from cannot settle it any more.\<close>

theorem ResolvePromise_correct:
  assumes "promise_live p"
  shows "\<exists>t. typed_ResolvePromise conv p v w =
      Some (w\<lparr>pw_posted := pw_posted w @ [(the (pr_task_runner p), t)]\<rparr>) \<and>
    (\<forall>w'. run_promise_task t w' = Some (w'\<lparr>pw_calls := pw_calls w' @ [(the (pr_resolver p), ResolverResolve (conv v))]\<rparr>)) \<and>
    PromiseBase_GetHandle (snd (PromiseBase_move p)) = None \<and>
    typed_Resolve conv (snd (PromiseBase_move p)) v w = None"
  using assms
  by (intro exI [of _ "TaskResolve p (conv v)"])
     (simp add: promise_ops PromiseBase_GetHandle_def, simp add: resolver_call_def)

theorem ResolvePromise_correct_witness:
  "\<exists>t. typed_ResolvePromise VBool (PromiseBase_make 0 1 2 (Some 3)) True \<lparr>pw_next = 3, pw_calls = [], pw_posted = []\<rparr> =
      Some \<lparr>pw_next = 3, pw_calls = [], pw_posted = [(3, t)]\<rparr> \<and>
    run_promise_task t \<lparr>pw_next = 3, pw_calls = [], pw_posted = []\<rparr> =
      Some \<lparr>pw_next = 3, pw_calls = [(2, ResolverResolve (VBool True :: (unit, unit) v8_value))], pw_posted = []\<rparr>"
proof -
  have "promise_live (PromiseBase_make 0 1 2 (Some 3))" by (simp add: promise_live_def PromiseBase_make_def)
  from ResolvePromise_correct [OF this, of "VBool :: bool \<Rightarrow> (unit, unit) v8_value" True "\<lparr>pw_next = 3, pw_calls = [], pw_posted = []\<rparr>"]
  obtain t :: "(unit, unit) promise_task" where
    "typed_ResolvePromise VBool (PromiseBase_make 0 1 2 (Some 3)) True \<lparr>pw_next = 3, pw_calls = [], pw_posted = []\<rparr> =
      Some \<lparr>pw_next = 3, pw_calls = [], pw_posted = [(3, t)]\<rparr>"
    "\<forall>w'. run_promise_task t w' = Some (w'\<lparr>pw_calls := pw_calls w' @ [(2, ResolverResolve (VBool True))]\<rparr>)"
    by (auto simp: PromiseBase_make_def)
  then show ?thesis by (intro exI [of _ t]) simp
qed

text \<open>The failure branches of Resolve for a pointer do not return. A null pointer is
  dereferenced after the promise has been resolved, and when the wrapper cannot be made the
  resolver is called twice, the second time with an empty handle.\<close>

theorem pointer_Resolve_falls_through:
  assumes "promise_live p" "GetWrapper x = None"
  shows "pointer_Resolve GetWrapper p None w = None \<and>
    pointer_Resolve GetWrapper p (Some x) w =
      Some (w\<lparr>pw_calls := pw_calls w @ [(the (pr_resolver p), ResolverResolve VUndefined), (the (pr_resolver p), ResolverResolve VEmpty)]\<rparr>)"
  using assms by (simp add: pointer_Resolve_def promise_ops)

theorem pointer_Resolve_falls_through_witness:
  "pointer_Resolve (\<lambda>_. None :: (unit, unit) v8_value option) (PromiseBase_make 0 1 2 (Some 3)) (Some 5) \<lparr>pw_next = 3, pw_calls = [], pw_posted = []\<rparr> =
     Some \<lparr>pw_next = 3, pw_calls = [(2, ResolverResolve VUndefined), (2, ResolverResolve VEmpty)], pw_posted = []\<rparr>"
proof -
  have "promise_live (PromiseBase_make 0 1 2 (Some 3))" by (simp add: promise_live_def PromiseBase_make_def)
  from pointer_Resolve_falls_through [OF this, of "\<lambda>_. None :: (unit, unit) v8_value option" 5 "\<lparr>pw_next = 3, pw_calls = [], pw_posted = []\<rparr>"]
  show ?thesis by (simp add: PromiseBase_make_def)
qed

end
