(* ===== verification/Atomic_Bitset.thy ===== *)
theory Atomic_Bitset
  imports Prelude
begin

text \<open>
  The bit set of office/atomic_bitset.cc and atomic_bitset.h: an array of 64-bit containers.
  Every operation is modelled as one atomic step (each touches one container by one atomic
  instruction, but for \<open>ResetRange\<close> and \<open>Clear\<close>, which are sequences of such
  instructions). The abstraction \<open>members\<close> reads the bit set as a set of indices; the
  interface locale \<open>bit_set\<close> states what the tile buffer relies on, and its
  interpretation \<open>ab\<close> shows that the containers provide it.
\<close>

section \<open>State and operations\<close>

record AtomicBitset =
  bs_size :: u64
  bs_container_count :: u64
  bs_data :: "u64 list option"

definition kBitsPerContainer :: u64 where "kBitsPerContainer = 64"
definition kSetBit :: u64 where "kSetBit = 1"
definition kAllBitsSet :: u64 where "kAllBitsSet = NOT 0"

definition container_index :: "u64 \<Rightarrow> u64" where
  "container_index index = index div kBitsPerContainer"

definition bit_index :: "u64 \<Rightarrow> u64" where
  "bit_index index = index mod kBitsPerContainer"

definition AtomicBitset_default :: AtomicBitset where
  "AtomicBitset_default = \<lparr>bs_size = 0, bs_container_count = 0, bs_data = None\<rparr>"

definition AtomicBitset_make :: "u64 \<Rightarrow> AtomicBitset" where
  "AtomicBitset_make n =
     (let count = (n + kBitsPerContainer - 1) div kBitsPerContainer
      in \<lparr>bs_size = n, bs_container_count = count, bs_data = Some (replicate (unat count) 0)\<rparr>)"

text \<open>Move assignment; the result is the pair of \<open>*this\<close> and \<open>other\<close> afterwards.\<close>

definition AtomicBitset_move :: "AtomicBitset \<Rightarrow> AtomicBitset \<Rightarrow> AtomicBitset \<times> AtomicBitset" where
  "AtomicBitset_move this other =
     (\<lparr>bs_size = bs_size other, bs_container_count = bs_container_count other, bs_data = bs_data other\<rparr>,
      other\<lparr>bs_size := 0, bs_container_count := 0, bs_data := None\<rparr>)"

text \<open>
  \<open>fetch_or\<close> and \<open>fetch_and\<close> on a container return its old value; a null array and
  an index outside it are undefined.
\<close>

definition fetch_op :: "(u64 \<Rightarrow> u64) \<Rightarrow> u64 \<Rightarrow> AtomicBitset \<Rightarrow> (u64 \<times> AtomicBitset) option" where
  "fetch_op f i b = do {
     d \<leftarrow> bs_data b;
     old \<leftarrow> idx d (unat i);
     Some (old, b\<lparr>bs_data := Some (d[unat i := f old])\<rparr>) }"

definition AtomicBitset_Set :: "u64 \<Rightarrow> AtomicBitset \<Rightarrow> (bool \<times> AtomicBitset) option" where
  "AtomicBitset_Set index b = do {
     mask \<leftarrow> shl64 kSetBit (bit_index index);
     (old, b') \<leftarrow> fetch_op (\<lambda>w. w OR mask) (container_index index) b;
     Some (old AND mask \<noteq> 0, b') }"

definition AtomicBitset_Reset :: "u64 \<Rightarrow> AtomicBitset \<Rightarrow> (bool \<times> AtomicBitset) option" where
  "AtomicBitset_Reset index b = do {
     mask \<leftarrow> shl64 kSetBit (bit_index index);
     (old, b') \<leftarrow> fetch_op (\<lambda>w. w AND NOT mask) (container_index index) b;
     Some (old AND mask \<noteq> 0, b') }"

definition AtomicBitset_IsSet :: "u64 \<Rightarrow> AtomicBitset \<Rightarrow> bool option" where
  "AtomicBitset_IsSet index b = do {
     mask \<leftarrow> shl64 kSetBit (bit_index index);
     d \<leftarrow> bs_data b;
     w \<leftarrow> idx d (unat (container_index index));
     Some (w AND mask \<noteq> 0) }"

text \<open>The loop that stores 0 into the containers \<open>i, \<dots>, n - 1\<close>.\<close>

function store_zero :: "nat \<Rightarrow> nat \<Rightarrow> u64 list \<Rightarrow> u64 list" where
  "store_zero i n d = (if i < n then store_zero (Suc i) n (d[i := 0]) else d)"
  by pat_completeness auto
termination
  by (relation "measure (\<lambda>(i, n, d). n - i)") auto

declare store_zero.simps [simp del]

definition AtomicBitset_ResetRange :: "u64 \<Rightarrow> u64 \<Rightarrow> AtomicBitset \<Rightarrow> AtomicBitset option" where
  "AtomicBitset_ResetRange index_start index_end b =
     (let container_start = container_index index_start; container_end = container_index index_end
      in if container_end = container_start then do {
           low \<leftarrow> shl64 kAllBitsSet index_start;
           high \<leftarrow> shr64 kAllBitsSet (kBitsPerContainer - index_end - 1);
           (_, b') \<leftarrow> fetch_op (\<lambda>w. w AND (low XOR high)) container_start b;
           Some b' }
         else do {
           first \<leftarrow> shl64 kAllBitsSet (bit_index index_start);
           (_, b1) \<leftarrow> fetch_op (\<lambda>w. w AND NOT first) container_start b;
           d \<leftarrow> bs_data b1;
           let b2 = b1\<lparr>bs_data := Some (store_zero (unat (container_start + 1)) (unat container_end) d)\<rparr>;
           last \<leftarrow> shr64 kAllBitsSet (kBitsPerContainer - bit_index index_end - 1);
           (_, b3) \<leftarrow> fetch_op (\<lambda>w. w AND NOT last) container_end b2;
           Some b3 })"

definition AtomicBitset_Clear :: "AtomicBitset \<Rightarrow> AtomicBitset option" where
  "AtomicBitset_Clear b = do {
     d \<leftarrow> bs_data b;
     Some (b\<lparr>bs_data := Some (store_zero 0 (unat (bs_container_count b)) d)\<rparr>) }"

section \<open>Abstraction and invariant\<close>

definition bitset_bits :: "u64 list \<Rightarrow> nat set" where
  "bitset_bits d = {n. n div 64 < length d \<and> bit (d ! (n div 64)) (n mod 64)}"

text \<open>The indices below the size whose bit is set.\<close>

definition members :: "AtomicBitset \<Rightarrow> nat set" where
  "members b = (case bs_data b of None \<Rightarrow> {} | Some d \<Rightarrow> bitset_bits d \<inter> {..<unat (bs_size b)})"

definition bitset_wf :: "AtomicBitset \<Rightarrow> bool" where
  "bitset_wf b \<longleftrightarrow>
     (case bs_data b of
        None \<Rightarrow> bs_size b = 0
      | Some d \<Rightarrow> length d = unat (bs_container_count b) \<and> unat (bs_size b) \<le> 64 * length d)"

section \<open>Containers\<close>

lemmas container_defs = container_index_def bit_index_def kBitsPerContainer_def kSetBit_def kAllBitsSet_def

lemma unat_container_index [simp]: "unat (container_index i) = unat i div 64"
  by (simp add: container_defs unat_div_numeral)

lemma unat_bit_index [simp]: "unat (bit_index i) = unat i mod 64"
  by (simp add: container_defs unat_mod_numeral)

lemma bit_index_less [simp]: "bit_index i < 64"
  by (simp add: word_less_nat_alt)

lemma bit_pow2: "bit (2 ^ k :: u64) n \<longleftrightarrow> n = k \<and> k < 64"
  by (auto simp: bit_exp_iff)

lemma and_mask_nonzero: "w AND 2 ^ k \<noteq> 0 \<longleftrightarrow> bit (w :: u64) k"
  using bit_iff_and_push_bit_not_eq_0 [of w k] by (simp add: push_bit_eq_mult)

lemma bit_all_ones_shl: "n < 64 \<Longrightarrow> bit (push_bit k (NOT 0 :: u64)) n \<longleftrightarrow> k \<le> n"
  by (auto simp: bit_simps)

lemma bit_all_ones_shr: "k < 64 \<Longrightarrow> bit (drop_bit k (NOT 0 :: u64)) n \<longleftrightarrow> n < 64 - k"
  by (auto simp: bit_simps)

lemma store_zero_length [simp]: "length (store_zero i n d) = length d"
  by (induction i n d rule: store_zero.induct) (subst store_zero.simps, simp)

lemma store_zero_nth:
  "j < length d \<Longrightarrow> store_zero i n d ! j = (if i \<le> j \<and> j < n then 0 else d ! j)"
proof (induction i n d rule: store_zero.induct)
  case (1 i n d)
  show ?case
  proof (cases "i < n")
    case True
    with "1.IH" "1.prems" have "store_zero (Suc i) n (d[i := 0]) ! j =
        (if Suc i \<le> j \<and> j < n then 0 else d[i := 0] ! j)"
      by simp
    with True "1.prems" show ?thesis
      by (subst store_zero.simps) (auto simp: nth_list_update)
  next
    case False
    then show ?thesis by (subst store_zero.simps) auto
  qed
qed

lemma bitset_bits_update:
  assumes "i < length d"
  shows "bitset_bits (d[i := w]) = {n \<in> bitset_bits d. n div 64 \<noteq> i} \<union> {n. n div 64 = i \<and> bit w (n mod 64)}"
  using assms by (auto simp: bitset_bits_def nth_list_update split: if_splits)

lemma div_mod_64_eq: "(n::nat) div 64 = k div 64 \<Longrightarrow> n mod 64 = k mod 64 \<Longrightarrow> n = k"
  by (metis div_mult_mod_eq)

lemma le_div_mod_64:
  "(a::nat) \<le> b \<longleftrightarrow> a div 64 < b div 64 \<or> a div 64 = b div 64 \<and> a mod 64 \<le> b mod 64"
proof -
  have split: "64 * q + r \<le> 64 * q' + r' \<longleftrightarrow> q < q' \<or> q = q' \<and> r \<le> r'"
    if "r < 64" "r' < 64" for q r q' r' :: nat
    using that by auto
  show ?thesis using split [of "a mod 64" "b mod 64" "a div 64" "b div 64"] by simp
qed

lemma fetch_op_Some:
  assumes "bs_data b = Some d" "unat i < length d"
  shows "fetch_op f i b = Some (d ! unat i, b\<lparr>bs_data := Some (d[unat i := f (d ! unat i)])\<rparr>)"
  using assms by (simp add: fetch_op_def)

text \<open>A set bit set holds an array, and every index below the size falls into it.\<close>

lemma bitset_wf_index:
  assumes "bitset_wf b" "unat i < unat (bs_size b)"
  obtains d where "bs_data b = Some d" "unat i div 64 < length d"
    "length d = unat (bs_container_count b)" "unat (bs_size b) \<le> 64 * length d"
proof (cases "bs_data b")
  case None
  with assms show ?thesis by (simp add: bitset_wf_def)
next
  case (Some d)
  with assms have "length d = unat (bs_container_count b)" "unat (bs_size b) \<le> 64 * length d"
    by (simp_all add: bitset_wf_def)
  moreover from this assms have "unat i div 64 < length d" by linarith
  ultimately show ?thesis using Some that by blast
qed

section \<open>Single bits\<close>

lemma members_update:
  assumes "bs_data b = Some d" "i < length d"
  shows "members (b\<lparr>bs_data := Some (d[i := w])\<rparr>) =
    ({n \<in> members b. n div 64 \<noteq> i} \<union> {n. n div 64 = i \<and> bit w (n mod 64) \<and> n < unat (bs_size b)})"
  using assms by (auto simp: members_def bitset_bits_update)

lemma bitset_wf_update:
  assumes "bitset_wf b" "bs_data b = Some d" "length d' = length d"
  shows "bitset_wf (b\<lparr>bs_data := Some d'\<rparr>)"
  using assms by (simp add: bitset_wf_def)

lemma members_bit:
  assumes "bs_data b = Some d" "n < unat (bs_size b)" "n div 64 < length d"
  shows "n \<in> members b \<longleftrightarrow> bit (d ! (n div 64)) (n mod 64)"
  using assms by (simp add: members_def bitset_bits_def)

lemma Set_step:
  assumes "bitset_wf b" "unat i < unat (bs_size b)"
  obtains b' where "AtomicBitset_Set i b = Some (unat i \<in> members b, b')" "bitset_wf b'"
    "bs_size b' = bs_size b" "members b' = insert (unat i) (members b)"
proof -
  obtain d where d: "bs_data b = Some d" "unat i div 64 < length d"
    using assms by (rule bitset_wf_index)
  let ?w = "d ! (unat i div 64) OR push_bit (unat i mod 64) 1"
  let ?b = "b\<lparr>bs_data := Some (d[unat i div 64 := ?w])\<rparr>"
  have "AtomicBitset_Set i b = Some (unat i \<in> members b, ?b)"
    using d assms(2)
    by (simp add: AtomicBitset_Set_def fetch_op_def kSetBit_def and_mask_nonzero members_bit)
  moreover have "members ?b = insert (unat i) (members b)"
    using d assms(2) div_mod_64_eq [of _ "unat i"]
    by (auto simp: members_update members_bit bit_or_iff bit_pow2)
      (auto simp: members_def bitset_bits_def)
  ultimately show ?thesis
    using that bitset_wf_update [OF assms(1) d(1)] by simp
qed

lemma Reset_step:
  assumes "bitset_wf b" "unat i < unat (bs_size b)"
  obtains b' where "AtomicBitset_Reset i b = Some (unat i \<in> members b, b')" "bitset_wf b'"
    "bs_size b' = bs_size b" "members b' = members b - {unat i}"
proof -
  obtain d where d: "bs_data b = Some d" "unat i div 64 < length d"
    using assms by (rule bitset_wf_index)
  let ?w = "d ! (unat i div 64) AND NOT (push_bit (unat i mod 64) 1)"
  let ?b = "b\<lparr>bs_data := Some (d[unat i div 64 := ?w])\<rparr>"
  have "AtomicBitset_Reset i b = Some (unat i \<in> members b, ?b)"
    using d assms(2)
    by (simp add: AtomicBitset_Reset_def fetch_op_def kSetBit_def and_mask_nonzero members_bit)
  moreover have "members ?b = members b - {unat i}"
    using d assms(2) div_mod_64_eq [of _ "unat i"]
    by (auto simp: members_update bit_and_iff bit_not_iff bit_pow2)
      (auto simp: members_def bitset_bits_def)
  ultimately show ?thesis
    using that bitset_wf_update [OF assms(1) d(1)] by simp
qed

lemma IsSet_eq:
  assumes "bitset_wf b" "unat i < unat (bs_size b)"
  shows "AtomicBitset_IsSet i b = Some (unat i \<in> members b)"
proof -
  obtain d where "bs_data b = Some d" "unat i div 64 < length d"
    using assms by (rule bitset_wf_index)
  with assms(2) show ?thesis
    by (simp add: AtomicBitset_IsSet_def kSetBit_def and_mask_nonzero members_bit)
qed

section \<open>Whole ranges\<close>

lemma Clear_step:
  assumes "bitset_wf b" "bs_data b \<noteq> None"
  obtains b' where "AtomicBitset_Clear b = Some b'" "bitset_wf b'" "bs_size b' = bs_size b"
    "members b' = {}" "bs_data b' \<noteq> None"
proof -
  from assms(2) obtain d where d: "bs_data b = Some d" by blast
  let ?b = "b\<lparr>bs_data := Some (store_zero 0 (unat (bs_container_count b)) d)\<rparr>"
  have "length d = unat (bs_container_count b)" using assms(1) d by (simp add: bitset_wf_def)
  then have "members ?b = {}" by (auto simp: members_def bitset_bits_def store_zero_nth)
  moreover have "AtomicBitset_Clear b = Some ?b" by (simp add: AtomicBitset_Clear_def d)
  ultimately show ?thesis
    using that bitset_wf_update [OF assms(1) d] by simp
qed

lemma make_wf:
  assumes "unat n < 2 ^ 64 - 64"
  shows "bitset_wf (AtomicBitset_make n)"
proof -
  have "unat (n + 63) = unat n + 63"
    using assms by (subst unat_add_lem [THEN iffD1]) simp_all
  then have "unat ((n + kBitsPerContainer - 1) div kBitsPerContainer) = (unat n + 63) div 64"
    by (simp add: unat_div_numeral kBitsPerContainer_def add_diff_eq [symmetric])
  then show ?thesis by (simp add: bitset_wf_def AtomicBitset_make_def Let_def)
qed

lemma make_members [simp]: "members (AtomicBitset_make n) = {}"
  by (auto simp: members_def AtomicBitset_make_def Let_def bitset_bits_def)

lemma make_size [simp]: "bs_size (AtomicBitset_make n) = n"
  by (simp add: AtomicBitset_make_def Let_def)

lemma make_data [simp]: "bs_data (AtomicBitset_make n) \<noteq> None"
  by (simp add: AtomicBitset_make_def Let_def)

lemma members_minus_range:
  assumes "bs_data b = Some d" "bs_data b' = Some d'" "length d' = length d" "bs_size b' = bs_size b"
    and "\<And>n. n div 64 < length d \<Longrightarrow> n < unat (bs_size b) \<Longrightarrow>
      bit (d' ! (n div 64)) (n mod 64) \<longleftrightarrow> bit (d ! (n div 64)) (n mod 64) \<and> \<not> (s \<le> n \<and> n \<le> e)"
  shows "members b' = members b - {s..e}"
  using assms by (auto simp: members_def bitset_bits_def)

lemma unat_63_minus:
  assumes "e < (64 :: u64)"
  shows "unat (64 - e - 1) = 63 - unat e"
proof -
  have le: "e \<le> 63" using assms by (simp add: word_le_nat_alt word_less_nat_alt)
  have "64 - e - 1 = 63 - e" by simp
  then show ?thesis using unat_sub [OF le] by simp
qed

text \<open>The three masks of \<open>ResetRange\<close>, bit by bit.\<close>

lemma mask_outside:
  assumes "n < 64" "s \<le> e" "e < 64"
  shows "bit (w AND (push_bit s (NOT 0) XOR drop_bit (63 - e) (NOT 0)) :: u64) n \<longleftrightarrow>
    bit w n \<and> \<not> (s \<le> n \<and> n \<le> e)"
  using assms bit_all_ones_shl [of n s] bit_all_ones_shr [of "63 - e" n]
  by (auto simp only: bit_and_iff bit_xor_iff)

lemma mask_below:
  "n < 64 \<Longrightarrow> bit (w AND NOT (push_bit s (NOT 0)) :: u64) n \<longleftrightarrow> bit w n \<and> n < s"
  using bit_all_ones_shl [of n s] by (auto simp only: bit_and_iff bit_not_iff_eq) simp_all

lemma mask_above:
  "n < 64 \<Longrightarrow> e < 64 \<Longrightarrow> bit (w AND NOT (drop_bit (63 - e) (NOT 0)) :: u64) n \<longleftrightarrow> bit w n \<and> e < n"
  using bit_all_ones_shr [of "63 - e" n] by (auto simp only: bit_and_iff bit_not_iff_eq) simp_all

lemma ResetRange_first_container:
  assumes "bitset_wf b" "s \<le> e" "unat e < unat (bs_size b)" "e < 64"
  obtains b' where "AtomicBitset_ResetRange s e b = Some b'" "bitset_wf b'"
    "bs_size b' = bs_size b" "members b' = members b - {unat s..unat e}"
proof -
  obtain d where d: "bs_data b = Some d" "unat e div 64 < length d"
    using assms(1,3) by (rule bitset_wf_index)
  from assms(4) have e: "unat e < 64" by (simp add: word_less_nat_alt)
  from assms(2) e have s: "unat s \<le> unat e" "s < 64"
    by (simp_all add: word_le_nat_alt word_less_nat_alt)
  define d' where "d' = d[0 := d ! 0 AND (push_bit (unat s) (NOT 0) XOR drop_bit (63 - unat e) (NOT 0))]"
  have same: "container_index e = container_index s" "container_index s = 0"
    using e s by (simp_all add: word_unat_eq_iff)
  have "63 - e < 64" using e by (simp add: word_less_nat_alt unat_sub word_le_nat_alt)
  then have "AtomicBitset_ResetRange s e b = Some (b\<lparr>bs_data := Some d'\<rparr>)"
    using d s e same unat_63_minus [OF assms(4)]
    by (simp add: AtomicBitset_ResetRange_def fetch_op_def kAllBitsSet_def kBitsPerContainer_def d'_def)
  moreover have "members (b\<lparr>bs_data := Some d'\<rparr>) = members b - {unat s..unat e}"
    by (rule members_minus_range [OF d(1), where d' = d'])
      (use d(2) e s mask_outside [of _ "unat s" "unat e"] in \<open>auto simp: d'_def nth_list_update simp del: bit_and_iff\<close>)
  ultimately show ?thesis using that bitset_wf_update [OF assms(1) d(1), of d'] by (simp add: d'_def)
qed

lemma ResetRange_many_containers:
  assumes "bitset_wf b" "s \<le> e" "unat e < unat (bs_size b)"
    and "container_index s \<noteq> container_index e"
  obtains b' where "AtomicBitset_ResetRange s e b = Some b'" "bitset_wf b'"
    "bs_size b' = bs_size b" "members b' = members b - {unat s..unat e}"
proof -
  obtain d where d: "bs_data b = Some d" "unat e div 64 < length d"
    using assms(1,3) by (rule bitset_wf_index)
  have "unat s div 64 \<le> unat e div 64" using assms(2) by (simp add: word_le_nat_alt div_le_mono)
  moreover have "unat s div 64 \<noteq> unat e div 64"
    using assms(4) by (metis unat_container_index word_unat_eq_iff)
  ultimately have le: "unat s div 64 < unat e div 64" by simp
  have suc: "unat (container_index s + 1) = Suc (unat s div 64)"
    using le unat_u64_less [of e] by (simp add: unat_word_ariths)
  define f where "f = d[unat s div 64 := d ! (unat s div 64) AND NOT (push_bit (unat s mod 64) (NOT 0))]"
  define z where "z = store_zero (Suc (unat s div 64)) (unat e div 64) f"
  define d' where "d' = z[unat e div 64 := z ! (unat e div 64) AND NOT (drop_bit (63 - unat e mod 64) (NOT 0))]"
  have len: "length f = length d" "length z = length d" "length d' = length d"
    by (simp_all add: f_def z_def d'_def)
  have "63 - bit_index e < 64"
    by (simp add: word_less_nat_alt unat_sub word_le_nat_alt)
  then have "AtomicBitset_ResetRange s e b = Some (b\<lparr>bs_data := Some d'\<rparr>)"
    using d le assms(4) suc unat_63_minus [OF bit_index_less, of e] len
    by (simp add: AtomicBitset_ResetRange_def fetch_op_def kAllBitsSet_def kBitsPerContainer_def
        f_def z_def d'_def)
  moreover have "members (b\<lparr>bs_data := Some d'\<rparr>) = members b - {unat s..unat e}"
  proof (rule members_minus_range [OF d(1), where d' = d'])
    fix n assume n: "n div 64 < length d"
    have nz: "z ! (n div 64) = (if unat s div 64 < n div 64 \<and> n div 64 < unat e div 64 then 0 else f ! (n div 64))"
      using n len by (simp add: z_def store_zero_nth Suc_le_eq)
    have order: "unat s \<le> n \<longleftrightarrow> unat s div 64 < n div 64 \<or> unat s div 64 = n div 64 \<and> unat s mod 64 \<le> n mod 64"
      "n \<le> unat e \<longleftrightarrow> n div 64 < unat e div 64 \<or> n div 64 = unat e div 64 \<and> n mod 64 \<le> unat e mod 64"
      by (rule le_div_mod_64)+
    show "bit (d' ! (n div 64)) (n mod 64) \<longleftrightarrow>
      bit (d ! (n div 64)) (n mod 64) \<and> \<not> (unat s \<le> n \<and> n \<le> unat e)"
    proof (cases "n div 64 = unat e div 64")
      case True
      then have "d' ! (n div 64) = d ! (n div 64) AND NOT (drop_bit (63 - unat e mod 64) (NOT 0))"
        using le nz n len by (simp add: d'_def f_def)
      then show ?thesis using True le mask_above [of "n mod 64" "unat e mod 64"] by (auto simp: order)
    next
      case False
      then have "d' ! (n div 64) = z ! (n div 64)" by (simp add: d'_def)
      with False nz n show ?thesis
        using le mask_below [of "n mod 64" _ "unat s mod 64"]
        by (cases "n div 64 = unat s div 64") (auto simp: order f_def)
    qed
  qed (simp_all add: len)
  ultimately show ?thesis using that bitset_wf_update [OF assms(1) d(1), of d'] by (simp add: len)
qed

section \<open>The interface the tile buffer uses\<close>

text \<open>
  What a client of a bit set may rely on: an index below the size can be set, reset and read,
  a range can be reset, everything can be cleared, and nothing else changes. The operations
  of the interface are partial, as the C++ ones are undefined on a moved-from object.
\<close>

locale bit_set =
  fixes invar :: "'s \<Rightarrow> bool"
    and msize :: "'s \<Rightarrow> nat"
    and mem :: "'s \<Rightarrow> nat set"
    and sset :: "nat \<Rightarrow> 's \<Rightarrow> (bool \<times> 's) option"
    and sreset :: "nat \<Rightarrow> 's \<Rightarrow> (bool \<times> 's) option"
    and sisset :: "nat \<Rightarrow> 's \<Rightarrow> bool option"
    and sclear :: "'s \<Rightarrow> 's option"
  assumes sset_ok: "invar s \<Longrightarrow> i < msize s \<Longrightarrow>
      \<exists>s'. sset i s = Some (i \<in> mem s, s') \<and> invar s' \<and> msize s' = msize s \<and> mem s' = insert i (mem s)"
    and sreset_ok: "invar s \<Longrightarrow> i < msize s \<Longrightarrow>
      \<exists>s'. sreset i s = Some (i \<in> mem s, s') \<and> invar s' \<and> msize s' = msize s \<and> mem s' = mem s - {i}"
    and sisset_ok: "invar s \<Longrightarrow> i < msize s \<Longrightarrow> sisset i s = Some (i \<in> mem s)"
    and sclear_ok: "invar s \<Longrightarrow> 0 < msize s \<Longrightarrow>
      \<exists>s'. sclear s = Some s' \<and> invar s' \<and> msize s' = msize s \<and> mem s' = {}"
begin

lemma sset_sisset:
  assumes "invar s" "i < msize s"
  shows "\<exists>r s'. sset i s = Some (r, s') \<and> sisset i s' = Some True"
  using sset_ok [OF assms] assms(2) sisset_ok by fastforce

lemma sset_frame:
  assumes "invar s" "i < msize s" "j < msize s" "i \<noteq> j" "sset i s = Some (r, s')"
  shows "sisset j s' = sisset j s"
  using sset_ok [OF assms(1,2)] assms by (auto simp: sisset_ok)

lemma sreset_frame:
  assumes "invar s" "i < msize s" "j < msize s" "i \<noteq> j" "sreset i s = Some (r, s')"
  shows "sisset j s' = sisset j s"
  using sreset_ok [OF assms(1,2)] assms by (auto simp: sisset_ok)

text \<open>
  Setting the bits of a list of indices one after the other, in any order and with repetitions:
  every thread that sets a tile bit performs one such step.
\<close>

lemma sset_fold:
  assumes "invar s" "\<forall>i \<in> set ks. i < msize s"
  shows "\<exists>s'. fold (\<lambda>i acc. Option.bind acc (\<lambda>t. map_option snd (sset i t))) ks (Some s) = Some s'
    \<and> invar s' \<and> msize s' = msize s \<and> mem s' = mem s \<union> set ks"
  using assms
proof (induction ks arbitrary: s)
  case Nil
  then show ?case by simp
next
  case (Cons i ks)
  obtain t where t: "sset i s = Some (i \<in> mem s, t)" "invar t" "msize t = msize s" "mem t = insert i (mem s)"
    using sset_ok [OF Cons.prems(1), of i] Cons.prems(2) by auto
  from Cons.IH [of t] t Cons.prems(2) show ?case by auto
qed

end

interpretation ab: bit_set bitset_wf "\<lambda>b. unat (bs_size b)" members
  "\<lambda>i. AtomicBitset_Set (of_nat i)" "\<lambda>i. AtomicBitset_Reset (of_nat i)"
  "\<lambda>i. AtomicBitset_IsSet (of_nat i)" AtomicBitset_Clear
proof (unfold_locales, goal_cases)
  case (1 b i)
  then have "unat (of_nat i :: u64) = i"
    by (simp add: unat_of_nat_below)
  with 1 show ?case using Set_step [of b "of_nat i"] by metis
next
  case (2 b i)
  then have "unat (of_nat i :: u64) = i"
    by (simp add: unat_of_nat_below)
  with 2 show ?case using Reset_step [of b "of_nat i"] by metis
next
  case (3 b i)
  then have "unat (of_nat i :: u64) = i"
    by (simp add: unat_of_nat_below)
  with 3 show ?case using IsSet_eq [of b "of_nat i"] by simp
next
  case (4 b)
  then have "bs_data b \<noteq> None" by (auto simp: bitset_wf_def split: option.splits)
  with 4 show ?case using Clear_step [of b] by metis
qed

section \<open>Properties\<close>

text \<open>
  \<open>Set\<close> and \<open>Reset\<close> on an index below the size are defined, report whether the bit was
  set before, add respectively remove exactly that index, and keep the bit set well formed.
\<close>

theorem Set_Reset_correct:
  assumes "bitset_wf b" "unat i < unat (bs_size b)"
  shows "\<exists>b1 b2. AtomicBitset_Set i b = Some (unat i \<in> members b, b1) \<and> bitset_wf b1 \<and>
    members b1 = insert (unat i) (members b) \<and> AtomicBitset_IsSet i b1 = Some True \<and>
    AtomicBitset_Reset i b1 = Some (True, b2) \<and> bitset_wf b2 \<and> members b2 = members b - {unat i}"
proof -
  obtain b1 where b1: "AtomicBitset_Set i b = Some (unat i \<in> members b, b1)" "bitset_wf b1"
    "bs_size b1 = bs_size b" "members b1 = insert (unat i) (members b)"
    using assms by (rule Set_step)
  obtain b2 where b2: "AtomicBitset_Reset i b1 = Some (unat i \<in> members b1, b2)" "bitset_wf b2"
    "members b2 = members b1 - {unat i}"
    using b1 assms(2) Reset_step [of b1 i] by metis
  from b1 b2 assms(2) show ?thesis by (auto simp: IsSet_eq)
qed

theorem Set_Reset_correct_witness:
  "\<exists>b1 b2. AtomicBitset_Set 70 (AtomicBitset_make 100) = Some (False, b1) \<and> bitset_wf b1 \<and>
    members b1 = {70} \<and> AtomicBitset_IsSet 70 b1 = Some True \<and>
    AtomicBitset_Reset 70 b1 = Some (True, b2) \<and> bitset_wf b2 \<and> members b2 = {}"
  using Set_Reset_correct [of "AtomicBitset_make 100" 70] by (simp add: make_wf)

text \<open>
  C18: \<open>ResetRange\<close> clears exactly the bits from \<open>index_start\<close> to \<open>index_end\<close>, both included,
  when the range lies in the first container or spans several containers.
\<close>

theorem ResetRange_correct:
  assumes "bitset_wf b" "s \<le> e" "unat e < unat (bs_size b)"
    and "e < 64 \<or> container_index s \<noteq> container_index e"
  shows "\<exists>b'. AtomicBitset_ResetRange s e b = Some b' \<and> bitset_wf b' \<and> bs_size b' = bs_size b \<and>
    members b' = members b - {unat s..unat e}"
proof (cases "e < 64")
  case True
  show ?thesis using ResetRange_first_container [OF assms(1-3) True] by metis
next
  case False
  show ?thesis using ResetRange_many_containers [OF assms(1-3)] False assms(4) by metis
qed

theorem ResetRange_correct_witness:
  "\<exists>b'. AtomicBitset_ResetRange 3 200 (AtomicBitset_make 300) = Some b' \<and> bitset_wf b' \<and>
    bs_size b' = 300 \<and> members b' = {} - {3..200}"
  using ResetRange_correct [of "AtomicBitset_make 300" 3 200]
  by (simp add: make_wf container_index_def kBitsPerContainer_def)

text \<open>
  A range inside one container other than the first makes \<open>ResetRange\<close> shift a 64-bit value
  by \<open>index_start\<close> itself instead of its bit index, an undefined shift.
\<close>

theorem ResetRange_undefined:
  assumes "container_index s = container_index e" "64 \<le> s"
  shows "AtomicBitset_ResetRange s e b = None"
  using assms by (simp add: AtomicBitset_ResetRange_def)

theorem ResetRange_undefined_witness:
  "AtomicBitset_ResetRange 70 80 (AtomicBitset_make 100) = None"
  using ResetRange_undefined [of 70 80 "AtomicBitset_make 100"]
  by (simp add: container_index_def kBitsPerContainer_def)

end
