(* ===== verification/Tile_Ranges.thy ===== *)
theory Tile_Ranges
  imports Prelude "HOL-Library.Multiset"
begin

text \<open>
  Ranges of tile indices of office/lok_tilebuffer.h and lok_tilebuffer.cc: \<open>TileRange\<close>,
  \<open>SimplifyRanges\<close>, \<open>TileCount\<close> and \<open>TileBuffer::ClipRanges\<close>. A list of ranges is
  read as the set of tile indices it covers. \<open>std::sort\<close> leaves the order of equal elements
  open; the model sorts stably and shows that every other order gives the same result.
\<close>

section \<open>State and operations\<close>

record TileRange =
  index_start :: u32
  index_end :: u32

abbreviation tile_range :: "u32 \<Rightarrow> u32 \<Rightarrow> TileRange" where
  "tile_range s e \<equiv> \<lparr>index_start = s, index_end = e\<rparr>"

text \<open>One iteration of the loop over the sorted copy, and the loop.\<close>

definition simplify_step :: "TileRange list \<Rightarrow> TileRange \<Rightarrow> TileRange list" where
  "simplify_step simplified it =
     (if index_end (last simplified) < index_start it
      then simplified @ [tile_range (index_start it) (index_end it)]
      else if index_end (last simplified) < index_end it
      then butlast simplified @ [(last simplified)\<lparr>index_end := index_end it\<rparr>]
      else simplified)"

fun simplify_loop :: "TileRange list \<Rightarrow> TileRange list \<Rightarrow> TileRange list" where
  "simplify_loop simplified [] = simplified"
| "simplify_loop simplified (it # rest) = simplify_loop (simplify_step simplified it) rest"

text \<open>The part of \<open>SimplifyRanges\<close> after the sort.\<close>

fun simplify_sorted :: "TileRange list \<Rightarrow> TileRange list" where
  "simplify_sorted [] = []"
| "simplify_sorted (x # xs) = simplify_loop [x] xs"

definition SimplifyRanges :: "TileRange list \<Rightarrow> TileRange list" where
  "SimplifyRanges tile_ranges =
     (if length tile_ranges < 2 then tile_ranges
      else simplify_sorted (sort_key index_start tile_ranges))"

definition TileCount :: "TileRange list \<Rightarrow> u64" where
  "TileCount tile_ranges =
     fold (\<lambda>it result. result + ucast (index_end it - index_start it + 1)) tile_ranges 0"

definition ClipRanges :: "TileRange list \<Rightarrow> TileRange \<Rightarrow> TileRange list" where
  "ClipRanges ranges range_limit =
     fold (\<lambda>range clipped.
       if index_end range < index_start range_limit \<or> index_start range > index_end range_limit
       then clipped
       else clipped @ [tile_range (max (index_start range) (index_start range_limit))
                                  (min (index_end range) (index_end range_limit))]) ranges []"

section \<open>Abstraction\<close>

definition range_ok :: "TileRange \<Rightarrow> bool" where
  "range_ok r \<longleftrightarrow> index_start r \<le> index_end r"

definition tiles :: "TileRange \<Rightarrow> u32 set" where
  "tiles r = {index_start r..index_end r}"

definition cover :: "TileRange list \<Rightarrow> u32 set" where
  "cover rs = (\<Union>r \<in> set rs. tiles r)"

definition ranges_ok :: "TileRange list \<Rightarrow> bool" where
  "ranges_ok rs \<longleftrightarrow> list_all range_ok rs"

text \<open>In increasing order with a gap or a border between neighbours.\<close>

definition separated :: "TileRange list \<Rightarrow> bool" where
  "separated rs \<longleftrightarrow> sorted_wrt (\<lambda>a b. index_end a < index_start b) rs"

lemma cover_simps [simp]:
  "cover [] = {}" "cover (r # rs) = tiles r \<union> cover rs" "cover (rs @ rs') = cover rs \<union> cover rs'"
  by (auto simp: cover_def)

lemma ranges_ok_simps [simp]:
  "ranges_ok []" "ranges_ok (r # rs) \<longleftrightarrow> range_ok r \<and> ranges_ok rs"
  "ranges_ok (rs @ rs') \<longleftrightarrow> ranges_ok rs \<and> ranges_ok rs'"
  by (auto simp: ranges_ok_def)

lemma separated_snoc: "separated (rs @ [r]) \<longleftrightarrow> separated rs \<and> (\<forall>a \<in> set rs. index_end a < index_start r)"
  by (auto simp: separated_def sorted_wrt_append)

section \<open>SimplifyRanges\<close>

lemma simplify_step_snoc:
  "simplify_step (bs @ [l]) it =
     (if index_end l < index_start it then bs @ [l, it]
      else bs @ [l\<lparr>index_end := max (index_end l) (index_end it)\<rparr>])"
  by (cases l) (auto simp: simplify_step_def max_def)

lemma tile_range_eta: "tile_range (index_start r) (index_end r) = r"
  by simp

lemma simplify_step_sorted:
  assumes "separated (rs @ [r])" "ranges_ok (rs @ [r])" "index_start r \<le> index_start it"
    "index_end r < index_start it" "range_ok it"
  shows "separated ((rs @ [r]) @ [it])"
  using assms by (auto simp: separated_def sorted_wrt_append range_ok_def)

text \<open>
  What the loop keeps: the ranges built so far are separated and cover what was read, and the
  last one starts no later than everything still to come.
\<close>

lemma simplify_loop_correct:
  assumes "separated (rs @ [r])" "ranges_ok (rs @ [r])" "ranges_ok xs"
    and "sorted (map index_start xs)" "\<forall>x \<in> set xs. index_start r \<le> index_start x"
  shows "separated (simplify_loop (rs @ [r]) xs) \<and> ranges_ok (simplify_loop (rs @ [r]) xs) \<and>
    cover (simplify_loop (rs @ [r]) xs) = cover (rs @ [r]) \<union> cover xs"
  using assms
proof (induction xs arbitrary: rs r)
  case Nil
  then show ?case by simp
next
  case (Cons x xs)
  from Cons.prems have x: "range_ok x" "range_ok r" "index_start r \<le> index_start x"
    and xs: "ranges_ok xs" "sorted (map index_start xs)" "\<forall>y \<in> set xs. index_start x \<le> index_start y"
    by auto
  show ?case
  proof (cases "index_end r < index_start x")
    case True
    have "separated ((rs @ [r]) @ [x])"
      using simplify_step_sorted [OF Cons.prems(1,2) x(3) True x(1)] .
    then have "separated (simplify_loop ((rs @ [r]) @ [x]) xs) \<and> ranges_ok (simplify_loop ((rs @ [r]) @ [x]) xs) \<and>
        cover (simplify_loop ((rs @ [r]) @ [x]) xs) = cover ((rs @ [r]) @ [x]) \<union> cover xs"
      using Cons.prems(2) x(1) xs by (intro Cons.IH) simp_all
    then show ?thesis using True by (simp add: simplify_step_snoc Un_assoc)
  next
    case False
    let ?r = "r\<lparr>index_end := max (index_end r) (index_end x)\<rparr>"
    have "separated (rs @ [?r])" using Cons.prems(1) by (simp add: separated_snoc)
    moreover have "range_ok ?r" using x by (simp add: range_ok_def le_max_iff_disj)
    ultimately have "separated (simplify_loop (rs @ [?r]) xs) \<and> ranges_ok (simplify_loop (rs @ [?r]) xs) \<and>
        cover (simplify_loop (rs @ [?r]) xs) = cover (rs @ [?r]) \<union> cover xs"
      using Cons.prems(2) x xs by (intro Cons.IH) auto
    moreover have "tiles ?r = tiles r \<union> tiles x"
      using x False by (auto simp: tiles_def range_ok_def le_max_iff_disj)
    ultimately show ?thesis using False by (simp add: simplify_step_snoc Un_assoc)
  qed
qed

lemma simplify_sorted_correct:
  assumes "ranges_ok xs" "sorted (map index_start xs)"
  shows "separated (simplify_sorted xs) \<and> ranges_ok (simplify_sorted xs) \<and>
    cover (simplify_sorted xs) = cover xs"
proof (cases xs)
  case Nil
  then show ?thesis by (simp add: separated_def)
next
  case (Cons x ys)
  with assms simplify_loop_correct [of "[]" x ys] show ?thesis by (simp add: separated_def)
qed

lemma cover_mset: "mset xs = mset ys \<Longrightarrow> cover xs = cover ys"
  by (metis cover_def set_mset_mset)

lemma ranges_ok_mset: "mset xs = mset ys \<Longrightarrow> ranges_ok xs = ranges_ok ys"
  by (metis list_all_iff ranges_ok_def set_mset_mset)

lemma SimplifyRanges_spec:
  assumes "ranges_ok rs"
  shows "separated (SimplifyRanges rs)" "ranges_ok (SimplifyRanges rs)" "cover (SimplifyRanges rs) = cover rs"
proof -
  have "ranges_ok (sort_key index_start rs)" using assms ranges_ok_mset [of "sort_key index_start rs" rs] by simp
  then have *: "separated (simplify_sorted (sort_key index_start rs)) \<and>
      ranges_ok (simplify_sorted (sort_key index_start rs)) \<and>
      cover (simplify_sorted (sort_key index_start rs)) = cover rs"
    using simplify_sorted_correct [of "sort_key index_start rs"] cover_mset [of "sort_key index_start rs" rs]
    by simp
  have "separated rs" if "length rs < 2"
    using that by (cases rs) (simp_all add: separated_def)
  with * assms show "separated (SimplifyRanges rs)" "ranges_ok (SimplifyRanges rs)"
    "cover (SimplifyRanges rs) = cover rs"
    by (simp_all add: SimplifyRanges_def)
qed

section \<open>The order of equal elements\<close>

lemma simplify_step_nonempty: "rs \<noteq> [] \<Longrightarrow> simplify_step rs x \<noteq> []"
  by (simp add: simplify_step_def)

lemma simplify_step_tie:
  assumes "index_start a = i" "index_start b = i" "\<not> index_end a < i"
  shows "simplify_step (bs @ [l, a]) b = bs @ [l, tile_range i (max (index_end a) (index_end b))]"
proof -
  have "simplify_step ((bs @ [l]) @ [a]) b = (bs @ [l]) @ [a\<lparr>index_end := max (index_end a) (index_end b)\<rparr>]"
    unfolding simplify_step_snoc assms(1,2) using assms(3) by (simp only: if_False simp_thms)
  moreover have "a\<lparr>index_end := max (index_end a) (index_end b)\<rparr> = tile_range i (max (index_end a) (index_end b))"
    unfolding assms(1) [symmetric] by simp
  ultimately show ?thesis by simp
qed

lemma simplify_step_swap:
  assumes e: "index_start a = i" "index_start b = i" and ok: "range_ok a" "range_ok b"
  shows "simplify_step (simplify_step (bs @ [l]) a) b = simplify_step (simplify_step (bs @ [l]) b) a"
proof (cases "index_end l < i")
  case True
  have r: "\<not> index_end a < i" "\<not> index_end b < i"
    using ok by (simp_all add: range_ok_def e not_less)
  show ?thesis unfolding simplify_step_snoc e
    using True simplify_step_tie [OF e r(1)] simplify_step_tie [OF e(2,1) r(2)] by (simp add: max.commute)
next
  case False
  then show ?thesis unfolding simplify_step_snoc e
    by (simp add: simplify_step_snoc e max.commute max.left_commute max.assoc)
qed

lemma sorted_head_least: "sorted (map f (x # xs)) \<Longrightarrow> y \<in> set (x # xs) \<Longrightarrow> f x \<le> f y"
  by auto

lemma simplify_loop_front:
  assumes "rs \<noteq> []" "\<forall>y \<in> set ys. index_start y = index_start x" "range_ok x" "ranges_ok ys"
  shows "simplify_loop rs (ys @ x # zs) = simplify_loop rs (x # ys @ zs)"
  using assms
proof (induction ys arbitrary: rs)
  case Nil
  then show ?case by simp
next
  case (Cons y ys)
  have "simplify_loop (simplify_step rs y) (ys @ x # zs) = simplify_loop (simplify_step rs y) (x # ys @ zs)"
    by (rule Cons.IH) (use Cons.prems simplify_step_nonempty in simp_all)
  moreover have "simplify_step (simplify_step rs y) x = simplify_step (simplify_step rs x) y"
  proof -
    have "index_start y = index_start x" "range_ok y" "rs = butlast rs @ [last rs]"
      using Cons.prems(1,2,4) by simp_all
    then show ?thesis using simplify_step_swap [OF _ refl _ Cons.prems(3)] by metis
  qed
  ultimately show ?case by simp
qed

lemma simplify_loop_perm:
  assumes "rs \<noteq> []" "mset xs = mset ys" "sorted (map index_start xs)" "sorted (map index_start ys)" "ranges_ok xs"
  shows "simplify_loop rs xs = simplify_loop rs ys"
  using assms
proof (induction xs arbitrary: rs ys)
  case Nil
  then show ?case by simp
next
  case (Cons x xs)
  have "x \<in> set ys" using Cons.prems(2) by (metis list.set_intros(1) set_mset_mset)
  then obtain ys1 ys2 where ys: "ys = ys1 @ x # ys2" by (meson split_list)
  have min: "\<forall>y \<in> set ys. index_start x \<le> index_start y"
    using sorted_head_least [OF Cons.prems(3)] Cons.prems(2) by (metis set_mset_mset)
  have eq: "\<forall>y \<in> set ys1. index_start y = index_start x"
    using min Cons.prems(4) ys by (auto simp: sorted_append intro: antisym)
  have ok: "range_ok x" "ranges_ok ys1"
    using Cons.prems(5) ranges_ok_mset [OF Cons.prems(2)] ys by simp_all
  have "simplify_loop rs ys = simplify_loop rs (x # ys1 @ ys2)"
    using simplify_loop_front [OF Cons.prems(1) eq ok] ys by simp
  moreover have "simplify_loop rs' xs = simplify_loop rs' (ys1 @ ys2)" if "rs' \<noteq> []" for rs'
    using Cons.IH [OF that, of "ys1 @ ys2"] Cons.prems ys by (auto simp: sorted_append)
  ultimately show ?case using simplify_step_nonempty [OF Cons.prems(1)] by simp
qed

lemma simplify_sorted_perm:
  assumes "mset xs = mset ys" "sorted (map index_start xs)" "sorted (map index_start ys)" "ranges_ok xs"
  shows "simplify_sorted xs = simplify_sorted ys"
proof (cases "xs = [] \<or> ys = []")
  case True
  with assms(1) show ?thesis by auto
next
  case False
  then obtain x xs' y ys' where e: "xs = x # xs'" "ys = y # ys'" by (meson neq_Nil_conv)
  have pre: "simplify_sorted (z # zs) = simplify_loop [tile_range (index_start z) (index_start z)] (z # zs)"
    if "range_ok z" for z zs
  proof -
    have "simplify_step [tile_range (index_start z) (index_start z)] z = [z]"
      using simplify_step_snoc [of "[]" "tile_range (index_start z) (index_start z)" z] that
      by (simp add: range_ok_def max_absorb2)
    then show ?thesis by simp
  qed
  have "set xs = set ys" using assms(1) by (metis set_mset_mset)
  then have "index_start x = index_start y"
    using sorted_head_least [of index_start x xs' y] sorted_head_least [of index_start y ys' x] assms(2,3) e
    by (intro antisym) (metis list.set_intros(1))+
  then show ?thesis
    using e pre assms ranges_ok_mset [OF assms(1)] simplify_loop_perm [of "[tile_range (index_start x) (index_start x)]" xs ys]
    by simp
qed

section \<open>ClipRanges\<close>

definition clip1 :: "TileRange \<Rightarrow> TileRange \<Rightarrow> TileRange list" where
  "clip1 lim r = (if index_end r < index_start lim \<or> index_start r > index_end lim then []
     else [tile_range (max (index_start r) (index_start lim)) (min (index_end r) (index_end lim))])"

lemma ClipRanges_concat: "ClipRanges rs lim = concat (map (clip1 lim) rs)"
proof -
  have "fold (\<lambda>range clipped.
       if index_end range < index_start lim \<or> index_start range > index_end lim
       then clipped
       else clipped @ [tile_range (max (index_start range) (index_start lim))
                                  (min (index_end range) (index_end lim))]) rs acc
      = acc @ concat (map (clip1 lim) rs)" for acc
    by (induction rs arbitrary: acc) (auto simp: clip1_def)
  then show ?thesis by (simp add: ClipRanges_def)
qed

lemma cover_clip1: "range_ok r \<Longrightarrow> cover (clip1 lim r) = tiles r \<inter> tiles lim"
  by (auto simp: clip1_def tiles_def range_ok_def)

lemma clip1_ok: "range_ok r \<Longrightarrow> range_ok lim \<Longrightarrow> ranges_ok (clip1 lim r)"
  by (auto simp: clip1_def range_ok_def)

lemma ClipRanges_cover: "ranges_ok rs \<Longrightarrow> cover (ClipRanges rs lim) = cover rs \<inter> tiles lim"
  by (induction rs) (auto simp: ClipRanges_concat cover_clip1)

lemma ClipRanges_ok: "ranges_ok rs \<Longrightarrow> range_ok lim \<Longrightarrow> ranges_ok (ClipRanges rs lim)"
  by (induction rs) (auto simp: ClipRanges_concat clip1_ok)

section \<open>TileCount\<close>

lemma fold_plus_shift:
  fixes g :: "'a \<Rightarrow> 'b::comm_monoid_add"
  shows "fold (\<lambda>x acc. acc + g x) xs a = a + fold (\<lambda>x acc. acc + g x) xs 0"
proof (induction xs arbitrary: a)
  case (Cons x xs)
  show ?case using Cons [of "a + g x"] Cons [of "g x"] by (simp add: add.assoc)
qed simp

lemma TileCount_Cons: "TileCount (r # rs) = ucast (index_end r - index_start r + 1) + TileCount rs"
  unfolding TileCount_def fold_simps o_def
  by (subst fold_plus_shift) simp

lemma card_word_interval:
  fixes a b :: u32
  assumes "a \<le> b"
  shows "card {a..b} = unat b - unat a + 1"
proof -
  have "unat ` {a..b} = {unat a..unat b}"
  proof
    show "{unat a..unat b} \<subseteq> unat ` {a..b}"
    proof
      fix n assume n: "n \<in> {unat a..unat b}"
      then have "unat (of_nat n :: u32) = n"
        using unat_u32_less [of b] by (simp add: unat_of_nat)
      with n show "n \<in> unat ` {a..b}"
        by (intro image_eqI [of _ _ "of_nat n"]) (auto simp: word_le_nat_alt)
    qed
  qed (auto simp: word_le_nat_alt)
  moreover have "card (unat ` {a..b}) = card {a..b}" by (rule card_image) (simp add: inj_on_def unsigned_word_eqI)
  ultimately show ?thesis using assms by (simp add: word_le_nat_alt Suc_diff_le)
qed

lemma range_count:
  assumes "range_ok r" "index_end r - index_start r \<noteq> - 1"
  shows "unat (ucast (index_end r - index_start r + 1) :: u64) = card (tiles r)"
proof -
  let ?d = "index_end r - index_start r"
  have "unat (?d + 1) = unat ?d + 1"
    using assms(2) by (metis add.commute add_cancel_right_left add_eq_0_iff unatSuc Suc_eq_plus1 plus_1_eq_Suc)
  moreover have "unat ?d = unat (index_end r) - unat (index_start r)"
    using assms(1) by (simp add: range_ok_def unat_sub)
  moreover have "unat (ucast (?d + 1) :: u64) = unat (?d + 1)"
    using unat_u32_less [of "?d + 1"] by (subst unsigned_ucast_eq) (simp add: take_bit_eq_mod)
  ultimately show ?thesis
    using card_word_interval assms(1) by (simp add: tiles_def range_ok_def)
qed

lemma separated_disjoint:
  assumes "separated (r # rs)" "ranges_ok (r # rs)"
  shows "tiles r \<inter> cover rs = {}"
  using assms by (fastforce simp: separated_def tiles_def cover_def)

lemma TileCount_card:
  assumes "separated rs" "ranges_ok rs" "\<forall>r \<in> set rs. index_end r - index_start r \<noteq> - 1"
  shows "unat (TileCount rs) = card (cover rs)"
  using assms
proof (induction rs)
  case Nil
  then show ?case by (simp add: TileCount_def)
next
  case (Cons r rs)
  have "unat (TileCount rs) = card (cover rs)"
    using Cons by (simp add: separated_def)
  moreover have "unat (ucast (index_end r - index_start r + 1) :: u64) = card (tiles r)"
    using Cons.prems by (simp add: range_count)
  moreover have "card (tiles r) + card (cover rs) = card (tiles r \<union> cover rs)"
    using separated_disjoint [OF Cons.prems(1,2)] by (simp add: card_Un_disjoint)
  moreover have "card (tiles r \<union> cover rs) \<le> 4294967296"
    using card_mono [of "UNIV :: u32 set"] by (simp add: card_word)
  ultimately show ?case
    by (simp add: TileCount_Cons unat_word_ariths)
qed

section \<open>The interface of range lists\<close>

text \<open>
  What the paint manager relies on when it joins, clips and simplifies ranges: which tiles the
  result covers and that it is again a list of proper ranges.
\<close>

locale range_algebra =
  fixes ok :: "'r list \<Rightarrow> bool"
    and lok :: "'r \<Rightarrow> bool"
    and cov :: "'r list \<Rightarrow> 't set"
    and cell :: "'r \<Rightarrow> 't set"
    and simplify :: "'r list \<Rightarrow> 'r list"
    and clip :: "'r list \<Rightarrow> 'r \<Rightarrow> 'r list"
  assumes ok_append: "ok (xs @ ys) \<longleftrightarrow> ok xs \<and> ok ys"
    and cov_append: "cov (xs @ ys) = cov xs \<union> cov ys"
    and ok_simplify: "ok xs \<Longrightarrow> ok (simplify xs)"
    and cov_simplify: "ok xs \<Longrightarrow> cov (simplify xs) = cov xs"
    and ok_clip: "ok xs \<Longrightarrow> lok l \<Longrightarrow> ok (clip xs l)"
    and cov_clip: "ok xs \<Longrightarrow> cov (clip xs l) = cov xs \<inter> cell l"
begin

lemma merge_clip:
  assumes "ok xs" "ok ys" "lok l"
  shows "ok (simplify (clip (xs @ ys) l))" "cov (simplify (clip (xs @ ys) l)) = (cov xs \<union> cov ys) \<inter> cell l"
  using assms by (simp_all add: ok_append cov_append ok_simplify cov_simplify ok_clip cov_clip)

lemma clip_merge:
  assumes "ok xs" "ok ys" "lok l"
  shows "ok (simplify (clip xs l @ ys))" "cov (simplify (clip xs l @ ys)) = cov xs \<inter> cell l \<union> cov ys"
  using assms by (simp_all add: ok_append cov_append ok_simplify cov_simplify ok_clip cov_clip)

lemma clip_again:
  assumes "ok xs" "lok l"
  shows "cov (simplify (clip (simplify (clip xs l)) l)) = cov (simplify (clip xs l))"
  using assms by (simp add: ok_simplify cov_simplify ok_clip cov_clip)

end

interpretation tr: range_algebra ranges_ok range_ok cover tiles SimplifyRanges ClipRanges
  by unfold_locales (simp_all add: SimplifyRanges_spec ClipRanges_ok ClipRanges_cover)

section \<open>Properties\<close>

text \<open>
  C14: \<open>SimplifyRanges\<close> returns proper ranges in increasing order that do not overlap and cover
  exactly the tiles of its argument; simplifying twice covers nothing else.
\<close>

theorem SimplifyRanges_correct:
  assumes "ranges_ok rs"
  shows "separated (SimplifyRanges rs) \<and> ranges_ok (SimplifyRanges rs) \<and>
    cover (SimplifyRanges rs) = cover rs \<and> cover (SimplifyRanges (SimplifyRanges rs)) = cover rs"
  using assms by (simp add: SimplifyRanges_spec)

theorem SimplifyRanges_correct_witness:
  "separated (SimplifyRanges [tile_range 5 20, tile_range 0 5]) \<and>
    cover (SimplifyRanges [tile_range 5 20, tile_range 0 5]) = {5..20} \<union> {0..5}"
  using SimplifyRanges_correct [of "[tile_range 5 20, tile_range 0 5]"]
  by (simp add: range_ok_def tiles_def)

text \<open>\<open>std::sort\<close> may order ranges with the same start in any way: whatever sorted permutation
  of the input the merge loop runs over, \<open>SimplifyRanges\<close> returns the same list.
\<close>

theorem SimplifyRanges_any_sort:
  assumes "ranges_ok rs" "2 \<le> length rs" "mset xs = mset rs" "sorted (map index_start xs)"
  shows "simplify_sorted xs = SimplifyRanges rs"
  using assms simplify_sorted_perm [of xs "sort_key index_start rs"] ranges_ok_mset [of xs rs]
  by (simp add: SimplifyRanges_def)

theorem SimplifyRanges_any_sort_witness:
  "simplify_sorted [tile_range 1 2, tile_range 1 9] = SimplifyRanges [tile_range 1 9, tile_range 1 2]"
  by (rule SimplifyRanges_any_sort) (simp_all add: range_ok_def)

lemma TileCount_simplified:
  assumes "ranges_ok rs" "cover rs \<noteq> UNIV"
  shows "unat (TileCount (SimplifyRanges rs)) = card (cover rs)"
proof -
  have "index_end r - index_start r \<noteq> - 1" if r: "r \<in> set (SimplifyRanges rs)" for r
  proof
    assume wrap: "index_end r - index_start r = - 1"
    have "range_ok r" using SimplifyRanges_spec(2) [OF assms(1)] r by (simp add: ranges_ok_def list_all_iff)
    then have "unat (index_end r - index_start r) = unat (index_end r) - unat (index_start r)"
      by (simp add: range_ok_def unat_sub)
    then have "index_start r = 0 \<and> index_end r = - 1"
      using wrap unat_u32_less [of "index_end r"]
      by (simp add: word_unat_eq_iff unsigned_minus_1_eq_mask mask_eq_exp_minus_1) linarith
    then have "tiles r = UNIV" by (auto simp: tiles_def)
    then have "cover (SimplifyRanges rs) = UNIV" using r by (auto simp: cover_def)
    with assms SimplifyRanges_spec(3) show False by simp
  qed
  then show ?thesis
    using TileCount_card [of "SimplifyRanges rs"] SimplifyRanges_spec [OF assms(1)] by simp
qed

lemma sum_card_tiles:
  assumes "separated rs" "ranges_ok rs"
  shows "sum_list (map (\<lambda>r. card (tiles r)) rs) = card (cover rs)"
  using assms
proof (induction rs)
  case (Cons r rs)
  then have "sum_list (map (\<lambda>r. card (tiles r)) rs) = card (cover rs)" by (simp add: separated_def)
  then show ?case using separated_disjoint [OF Cons.prems] by (simp add: card_Un_disjoint)
qed simp

text \<open>
  \<open>TileCount\<close> of a simplified list is the number of tiles the input covers, unless a single
  range holds all \<open>2 ^ 32\<close> indices, where the 32-bit difference wraps around to 0.
\<close>

theorem TileCount_SimplifyRanges:
  assumes "ranges_ok rs" "cover rs \<noteq> UNIV"
  shows "unat (TileCount (SimplifyRanges rs)) = card (cover rs)"
  by (rule TileCount_simplified [OF assms])

theorem TileCount_SimplifyRanges_witness:
  "unat (TileCount (SimplifyRanges [tile_range 3 4])) = card ({3..4} :: u32 set)"
proof -
  have "(5 :: u32) \<notin> {3..4}" by simp
  then have "({3..4} :: u32 set) \<noteq> UNIV" by blast
  then show ?thesis using TileCount_SimplifyRanges [of "[tile_range 3 4]"]
    by (simp add: range_ok_def tiles_def)
qed

end
