(* ===== verification/Machine_Float.thy ===== *)
theory Machine_Float
  imports Prelude Complex_Main
begin

text \<open>
  The part of IEEE 754 arithmetic the office module uses: \<open>float\<close> (binary32) and \<open>double\<close>
  (binary64) values, rounding to nearest with ties to even, subnormal numbers, overflow to
  infinity, NaN, comparisons and the conversions from and to integers. Finite values are
  rationals. Positive and negative zero are one value; where the
  code divides by a zero it is a positive one (a literal 0, or a sum or quotient that is exactly 0),
  so the sign of an infinite quotient is that of the dividend.
\<close>

section \<open>Values and rounding\<close>

datatype fp = Fin rat | PInf | NInf | NaN

text \<open>Rounding a rational to an integer, ties to even.\<close>

definition round_even :: "rat \<Rightarrow> int" where
  "round_even x = (let f = \<lfloor>x\<rfloor>; d = x - of_int f
     in if d < 1 / 2 then f else if 1 / 2 < d then f + 1 else if even f then f else f + 1)"

text \<open>
  A format has \<open>p\<close> bits of precision and values that are multiples of \<open>2 ^ e\<close> for an
  exponent \<open>e\<close> between \<open>emin\<close> and \<open>emax\<close>: the least one for which the value has at most
  \<open>p\<close> digits.
\<close>

definition ulp_exp :: "nat \<Rightarrow> int \<Rightarrow> int \<Rightarrow> rat \<Rightarrow> int" where
  "ulp_exp p emin emax x =
     (case find (\<lambda>e. \<bar>x\<bar> < 2 powi (int p + e)) [emin..emax] of Some e \<Rightarrow> e | None \<Rightarrow> emax)"

definition fround :: "nat \<Rightarrow> int \<Rightarrow> int \<Rightarrow> rat \<Rightarrow> fp" where
  "fround p emin emax x =
     (let e = ulp_exp p emin emax x; r = of_int (round_even (x / 2 powi e)) * 2 powi e
      in if \<bar>r\<bar> < 2 powi (int p + emax) then Fin r else if 0 < r then PInf else NInf)"

definition round32 :: "rat \<Rightarrow> fp" where "round32 = fround 24 (- 149) 104"
definition round64 :: "rat \<Rightarrow> fp" where "round64 = fround 53 (- 1074) 971"

definition representable :: "nat \<Rightarrow> int \<Rightarrow> int \<Rightarrow> rat \<Rightarrow> bool" where
  "representable p emin emax x \<longleftrightarrow>
     (\<exists>m e. x = of_int m * 2 powi e \<and> \<bar>m\<bar> < 2 ^ p \<and> emin \<le> e \<and> e \<le> emax)"

abbreviation representable32 :: "rat \<Rightarrow> bool" where
  "representable32 \<equiv> representable 24 (- 149) 104"

section \<open>Operations\<close>

text \<open>The arithmetic takes the rounding of the result's format as its first argument.\<close>

fun fp_neg :: "fp \<Rightarrow> fp" where
  "fp_neg (Fin a) = Fin (- a)" | "fp_neg PInf = NInf" | "fp_neg NInf = PInf" | "fp_neg NaN = NaN"

fun fp_add :: "(rat \<Rightarrow> fp) \<Rightarrow> fp \<Rightarrow> fp \<Rightarrow> fp" where
  "fp_add rnd (Fin a) (Fin b) = rnd (a + b)"
| "fp_add rnd NaN b = NaN"
| "fp_add rnd a NaN = NaN"
| "fp_add rnd PInf NInf = NaN"
| "fp_add rnd NInf PInf = NaN"
| "fp_add rnd PInf b = PInf"
| "fp_add rnd NInf b = NInf"
| "fp_add rnd a PInf = PInf"
| "fp_add rnd a NInf = NInf"

definition fp_sub :: "(rat \<Rightarrow> fp) \<Rightarrow> fp \<Rightarrow> fp \<Rightarrow> fp" where
  "fp_sub rnd a b = fp_add rnd a (fp_neg b)"

text \<open>The infinity with the sign of \<open>s\<close>; NaN for 0.\<close>

definition fp_inf :: "rat \<Rightarrow> fp" where
  "fp_inf s = (if 0 < s then PInf else if s < 0 then NInf else NaN)"

fun fp_mul :: "(rat \<Rightarrow> fp) \<Rightarrow> fp \<Rightarrow> fp \<Rightarrow> fp" where
  "fp_mul rnd (Fin a) (Fin b) = rnd (a * b)"
| "fp_mul rnd NaN b = NaN"
| "fp_mul rnd a NaN = NaN"
| "fp_mul rnd (Fin a) PInf = fp_inf a"
| "fp_mul rnd (Fin a) NInf = fp_inf (- a)"
| "fp_mul rnd PInf (Fin b) = fp_inf b"
| "fp_mul rnd NInf (Fin b) = fp_inf (- b)"
| "fp_mul rnd PInf PInf = PInf"
| "fp_mul rnd NInf NInf = PInf"
| "fp_mul rnd PInf NInf = NInf"
| "fp_mul rnd NInf PInf = NInf"

fun fp_div :: "(rat \<Rightarrow> fp) \<Rightarrow> fp \<Rightarrow> fp \<Rightarrow> fp" where
  "fp_div rnd (Fin a) (Fin b) = (if b = 0 then fp_inf a else rnd (a / b))"
| "fp_div rnd NaN b = NaN"
| "fp_div rnd a NaN = NaN"
| "fp_div rnd (Fin a) PInf = Fin 0"
| "fp_div rnd (Fin a) NInf = Fin 0"
| "fp_div rnd PInf (Fin b) = (if b < 0 then NInf else PInf)"
| "fp_div rnd NInf (Fin b) = (if b < 0 then PInf else NInf)"
| "fp_div rnd a b = NaN"

fun fp_abs :: "fp \<Rightarrow> fp" where
  "fp_abs (Fin a) = Fin \<bar>a\<bar>" | "fp_abs NaN = NaN" | "fp_abs a = PInf"

fun fp_less :: "fp \<Rightarrow> fp \<Rightarrow> bool" where
  "fp_less (Fin a) (Fin b) = (a < b)"
| "fp_less NaN b = False"
| "fp_less a NaN = False"
| "fp_less NInf b = (b \<noteq> NInf)"
| "fp_less a PInf = (a \<noteq> PInf)"
| "fp_less a b = False"

text \<open>The C++ operator \<open>==\<close>: NaN differs from everything, itself included.\<close>

definition fp_eq :: "fp \<Rightarrow> fp \<Rightarrow> bool" where
  "fp_eq a b \<longleftrightarrow> a = b \<and> a \<noteq> NaN"

fun fp_ceil :: "fp \<Rightarrow> fp" where
  "fp_ceil (Fin a) = Fin (of_int \<lceil>a\<rceil>)" | "fp_ceil a = a"

definition fp_max :: "fp \<Rightarrow> fp \<Rightarrow> fp" where
  "fp_max a b = (if fp_less a b then b else a)"

definition fp_clamp :: "fp \<Rightarrow> fp \<Rightarrow> fp \<Rightarrow> fp" where
  "fp_clamp v lo hi = (if fp_less v lo then lo else if fp_less hi v then hi else v)"

text \<open>Conversion to an integer type: truncation, undefined outside the range of the type.\<close>

definition rat_trunc :: "rat \<Rightarrow> int" where
  "rat_trunc x = (if 0 \<le> x then \<lfloor>x\<rfloor> else \<lceil>x\<rceil>)"

fun fp_to_int :: "int \<Rightarrow> int \<Rightarrow> fp \<Rightarrow> int option" where
  "fp_to_int lo hi (Fin a) = (if lo \<le> rat_trunc a \<and> rat_trunc a \<le> hi then Some (rat_trunc a) else None)"
| "fp_to_int lo hi a = None"

definition fp_to_int32 :: "fp \<Rightarrow> int option" where
  "fp_to_int32 = fp_to_int int32_min int32_max"

definition fp_to_u32 :: "fp \<Rightarrow> u32 option" where
  "fp_to_u32 a = map_option word_of_int (fp_to_int 0 (2 ^ 32 - 1) a)"

definition f32_of_int :: "int \<Rightarrow> fp" where "f32_of_int i = round32 (of_int i)"

text \<open>Conversion of a \<open>double\<close> to \<open>float\<close>.\<close>

fun f32_of_f64 :: "fp \<Rightarrow> fp" where
  "f32_of_f64 (Fin a) = round32 a" | "f32_of_f64 a = a"

abbreviation f32_add :: "fp \<Rightarrow> fp \<Rightarrow> fp" where "f32_add \<equiv> fp_add round32"
abbreviation f32_sub :: "fp \<Rightarrow> fp \<Rightarrow> fp" where "f32_sub \<equiv> fp_sub round32"
abbreviation f32_mul :: "fp \<Rightarrow> fp \<Rightarrow> fp" where "f32_mul \<equiv> fp_mul round32"
abbreviation f32_div :: "fp \<Rightarrow> fp \<Rightarrow> fp" where "f32_div \<equiv> fp_div round32"

section \<open>Exact cases\<close>

lemma round_even_int [simp]: "round_even (of_int m) = m"
  by (simp add: round_even_def)

lemma find_upto_le:
  assumes "P e" "a \<le> e" "e \<le> b"
  shows "\<exists>e'. find P [a..b] = Some e' \<and> a \<le> e' \<and> e' \<le> e \<and> P e'"
proof -
  have "\<exists>x \<in> set [a..b]. P x" using assms by auto
  then obtain e' where e': "find P [a..b] = Some e'" by (cases "find P [a..b]") (auto simp: find_None_iff)
  then obtain i where i: "i < length [a..b]" "P ([a..b] ! i)" "e' = [a..b] ! i" "\<forall>j<i. \<not> P ([a..b] ! j)"
    by (auto simp: find_Some_iff)
  have "e' \<le> e"
  proof (rule ccontr)
    assume "\<not> e' \<le> e"
    moreover from this i have "nat (e - a) < i" using assms by simp
    moreover have "[a..b] ! nat (e - a) = e" using assms by simp
    ultimately show False using i(4) assms(1) by metis
  qed
  with e' i show ?thesis by auto
qed

lemma ulp_exp_le:
  assumes "\<bar>x\<bar> < 2 powi (int p + e)" "emin \<le> e" "e \<le> emax"
  shows "emin \<le> ulp_exp p emin emax x \<and> ulp_exp p emin emax x \<le> e"
  using find_upto_le [of "\<lambda>e. \<bar>x\<bar> < 2 powi (int p + e)" e emin emax] assms by (auto simp: ulp_exp_def)

text \<open>A value of the format is its own rounding.\<close>

lemma fround_exact:
  assumes "representable p emin emax x"
  shows "fround p emin emax x = Fin x"
proof -
  obtain m e where x: "x = of_int m * 2 powi e" "\<bar>m\<bar> < 2 ^ p" "emin \<le> e" "e \<le> emax"
    using assms by (auto simp: representable_def)
  have "of_int \<bar>m\<bar> < (2 :: rat) ^ p" using x(2) by (metis of_int_less_iff of_int_numeral of_int_power)
  then have bound: "\<bar>x\<bar> < 2 powi (int p + e)"
    by (simp add: x(1) abs_mult power_int_add)
  define u where "u = ulp_exp p emin emax x"
  have u: "emin \<le> u" "u \<le> e" using ulp_exp_le [OF bound x(3,4)] by (simp_all add: u_def)
  have "x / 2 powi u = of_int (m * 2 ^ nat (e - u))"
  proof -
    have "(2 :: rat) powi e = 2 powi (e - u) * 2 powi u" by (simp flip: power_int_add)
    moreover have "(2 :: rat) powi (e - u) = 2 ^ nat (e - u)" using u(2) by (simp add: power_int_def)
    ultimately show ?thesis by (simp add: x(1))
  qed
  then have "of_int (round_even (x / 2 powi u)) * 2 powi u = x"
    by (metis nonzero_eq_divide_eq power_int_not_zero round_even_int zero_neq_numeral)
  moreover have "\<bar>x\<bar> < 2 powi (int p + emax)"
    using bound x(4) by (meson add_left_mono less_le_trans one_le_numeral power_int_increasing)
  ultimately show ?thesis by (simp add: fround_def u_def Let_def)
qed

lemmas round32_exact = fround_exact [of 24 "- 149" 104, folded round32_def]

lemma representable_int:
  assumes "\<bar>m\<bar> < 2 ^ p" "emin \<le> 0" "0 \<le> emax"
  shows "representable p emin emax (of_int m)"
  unfolding representable_def using assms by (intro exI [of _ m] exI [of _ 0]) simp

lemma representable_scaled:
  assumes "\<bar>m\<bar> < 2 ^ p" "emin \<le> - int k" "0 \<le> emax"
  shows "representable p emin emax (of_int m / 2 ^ k)"
  unfolding representable_def
  using assms by (intro exI [of _ m] exI [of _ "- int k"]) (simp add: power_int_minus divide_inverse)

end
