(* ===== verification/Twips.thy ===== *)
theory Twips
  imports Machine_Float
begin

text \<open>
  The conversions between twips and pixels of office/lok_callback.h, on \<open>float\<close> values.
\<close>

definition kTwipPerPx :: fp where "kTwipPerPx = Fin 15"

definition PixelToTwip :: "fp \<Rightarrow> fp \<Rightarrow> fp" where
  "PixelToTwip x zoom = f32_mul (f32_div x zoom) kTwipPerPx"

definition TwipToPixel :: "fp \<Rightarrow> fp \<Rightarrow> fp" where
  "TwipToPixel x zoom = f32_mul (f32_div x kTwipPerPx) zoom"

end
