(* ===== verification/Tile_Buffer.thy ===== *)
theory Tile_Buffer
  imports Atomic_Bitset Tile_Ranges Twips
begin

text \<open>
  \<open>TileBuffer\<close> of office/lok_tilebuffer.h and lok_tilebuffer.cc but for the painting to a
  canvas, which is in the theory Tile\_Canvas: the geometry of the tile grid, the set of valid
  tiles, the ring pool of tile images and the painting of one tile.

  \<open>gfx\<close> rectangles, LibreOfficeKit's \<open>paintTile\<close> and the pixels of a tile are parameters. A
  tile is painted on a pool thread while the main thread may act on the buffer: \<open>PaintTile\<close>
  takes what the other threads do between its reads of the active context as two functions
  on the state.
\<close>

section \<open>State\<close>

definition kTileSizePx :: int where "kTileSizePx = 256"
definition kBytesPerPx :: nat where "kBytesPerPx = 4"
definition kPoolAllocatedSize :: nat where "kPoolAllocatedSize = 256 * 1024 * 1024"
definition kBufferStride :: nat where "kBufferStride = nat kTileSizePx * nat kTileSizePx * kBytesPerPx"
definition kPoolSize :: nat where "kPoolSize = kPoolAllocatedSize div kBufferStride - 1"
definition kInvalidTileIndex :: u32 where "kInvalidTileIndex = - 1"

lemma kPoolSize_eq: "kPoolSize = 1023"
  by (simp add: kPoolSize_def kPoolAllocatedSize_def kBufferStride_def kTileSizePx_def kBytesPerPx_def)

text \<open>
  The pixels of one tile buffer have the type \<open>'p\<close>; a pool image is null until the slot has been
  painted. \<open>current_pool_index_\<close> and \<open>in_paint_\<close> are written but never read.
\<close>

record 'p TileBuffer =
  tb_columns :: u32
  tb_rows :: u32
  tb_scale :: fp
  doc_width_twips :: int
  doc_height_twips :: int
  doc_width_scaled_px :: fp
  doc_height_scaled_px :: fp
  valid_tile :: AtomicBitset
  active_context_hash :: u64
  pool_buffer :: "'p list"
  pool_index_to_tile_index :: "u32 list"
  pool_paint_images :: "'p option list"
  tb_y_pos :: int

definition TileBuffer_init :: "'p \<Rightarrow> 'p TileBuffer" where
  "TileBuffer_init raw =
     \<lparr>tb_columns = 0, tb_rows = 0, tb_scale = Fin 1, doc_width_twips = 0, doc_height_twips = 0,
      doc_width_scaled_px = Fin 0, doc_height_scaled_px = Fin 0, valid_tile = AtomicBitset_make 0,
      active_context_hash = 0, pool_buffer = replicate kPoolSize raw,
      pool_index_to_tile_index = replicate kPoolSize kInvalidTileIndex,
      pool_paint_images = replicate kPoolSize None, tb_y_pos = 0\<rparr>"

section \<open>Coordinates and the pool\<close>

definition CoordToIndex :: "u32 \<Rightarrow> u32 \<Rightarrow> u32 \<Rightarrow> u32" where
  "CoordToIndex columns x y = y * columns + x"

text \<open>Division by zero is undefined.\<close>

definition IndexToCoord :: "'p TileBuffer \<Rightarrow> u32 \<Rightarrow> (u32 \<times> u32) option" where
  "IndexToCoord tb index =
     (if tb_columns tb = 0 then None else Some (index mod tb_columns tb, index div tb_columns tb))"

definition TileToPoolIndex :: "'p TileBuffer \<Rightarrow> u32 \<Rightarrow> bool \<times> nat" where
  "TileToPoolIndex tb tile_index =
     (let result = unat tile_index mod kPoolSize
      in (result < kPoolSize \<and> pool_index_to_tile_index tb ! result = tile_index, result))"

abbreviation resident :: "'p TileBuffer \<Rightarrow> u32 \<Rightarrow> bool" where
  "resident tb i \<equiv> fst (TileToPoolIndex tb i)"

definition InvalidatePoolTile :: "nat \<Rightarrow> 'p TileBuffer \<Rightarrow> 'p TileBuffer option" where
  "InvalidatePoolTile pool_index tb = do {
     tile_index \<leftarrow> idx (pool_index_to_tile_index tb) pool_index;
     if tile_index = kInvalidTileIndex then Some tb
     else do {
       (_, v) \<leftarrow> AtomicBitset_Reset (ucast tile_index) (valid_tile tb);
       Some (tb\<lparr>valid_tile := v,
                pool_index_to_tile_index := (pool_index_to_tile_index tb)[pool_index := kInvalidTileIndex]\<rparr>) } }"

section \<open>Geometry\<close>

text \<open>The quotient of a \<open>float\<close> by 256 is exact as a \<open>double\<close>.\<close>

definition tile_span :: "fp \<Rightarrow> u32 option" where
  "tile_span px = fp_to_u32 (fp_ceil (fp_div Fin px (Fin (of_int kTileSizePx))))"

definition TileBuffer_Resize :: "int \<Rightarrow> int \<Rightarrow> fp \<Rightarrow> 'p TileBuffer \<Rightarrow> 'p TileBuffer option" where
  "TileBuffer_Resize width_twips height_twips scale tb = do {
     let w = TwipToPixel (f32_of_int width_twips) scale;
     let h = TwipToPixel (f32_of_int height_twips) scale;
     columns \<leftarrow> tile_span w;
     rows \<leftarrow> tile_span h;
     Some (tb\<lparr>doc_width_twips := width_twips, doc_height_twips := height_twips, tb_scale := scale,
              doc_width_scaled_px := w, doc_height_scaled_px := h, tb_columns := columns, tb_rows := rows,
              valid_tile := fst (AtomicBitset_move (valid_tile tb) (AtomicBitset_make (ucast (columns * rows + 1)))),
              pool_index_to_tile_index := replicate kPoolSize kInvalidTileIndex\<rparr>) }"

definition TileBuffer_Resize2 :: "int \<Rightarrow> int \<Rightarrow> 'p TileBuffer \<Rightarrow> 'p TileBuffer option" where
  "TileBuffer_Resize2 width_twips height_twips tb =
     (if doc_width_twips tb \<noteq> width_twips \<or> doc_height_twips tb \<noteq> height_twips
      then TileBuffer_Resize width_twips height_twips (tb_scale tb) tb
      else Some tb)"

definition SetActiveContext :: "u64 \<Rightarrow> 'p TileBuffer \<Rightarrow> 'p TileBuffer" where
  "SetActiveContext h tb = tb\<lparr>active_context_hash := h\<rparr>"

text \<open>The literal \<open>0.001\<close> as a \<open>double\<close>.\<close>

definition scale_epsilon :: fp where "scale_epsilon = Fin (1152921504606847 / 2 ^ 60)"

definition ResetScale :: "fp \<Rightarrow> 'p TileBuffer \<Rightarrow> 'p TileBuffer option" where
  "ResetScale scale tb =
     (if fp_less scale_epsilon (fp_abs (f32_sub scale (tb_scale tb)))
      then map_option (SetActiveContext 0)
             (TileBuffer_Resize (doc_width_twips tb) (doc_height_twips tb) scale tb)
      else Some tb)"

definition TileBuffer_IsEmpty :: "'p TileBuffer \<Rightarrow> bool" where
  "TileBuffer_IsEmpty tb \<longleftrightarrow> tb_rows tb = 0 \<or> tb_columns tb = 0"

definition SetYPosition :: "fp \<Rightarrow> 'p TileBuffer \<Rightarrow> 'p TileBuffer option" where
  "SetYPosition y tb = map_option (\<lambda>i. tb\<lparr>tb_y_pos := i\<rparr>) (fp_to_int32 y)"

section \<open>Painting a tile\<close>

text \<open>
  The arguments of \<open>paintTile\<close>: the position and size of the tile in twips, each truncated
  from \<open>float\<close> to \<open>int\<close>.
\<close>

definition tile_twips :: "'p TileBuffer \<Rightarrow> u32 \<Rightarrow> (int \<times> int \<times> int \<times> int) option" where
  "tile_twips tb tile_index = do {
     (column, row) \<leftarrow> IndexToCoord tb tile_index;
     px \<leftarrow> int_checked (kTileSizePx * int32 (uint column));
     py \<leftarrow> int_checked (kTileSizePx * int32 (uint row));
     x \<leftarrow> fp_to_int32 (PixelToTwip (f32_of_int px) (tb_scale tb));
     y \<leftarrow> fp_to_int32 (PixelToTwip (f32_of_int py) (tb_scale tb));
     size \<leftarrow> fp_to_int32 (PixelToTwip (f32_of_int kTileSizePx) (tb_scale tb));
     Some (x, y, size, size) }"

definition clear_valid :: "'p TileBuffer \<Rightarrow> 'p TileBuffer option" where
  "clear_valid tb = map_option (\<lambda>v. tb\<lparr>valid_tile := v\<rparr>) (AtomicBitset_Clear (valid_tile tb))"

text \<open>\<open>tile_index < valid_tile_.Size() && valid_tile_[tile_index]\<close>\<close>

definition tile_valid :: "'p TileBuffer \<Rightarrow> u32 \<Rightarrow> bool option" where
  "tile_valid tb tile_index =
     (if ucast tile_index < bs_size (valid_tile tb)
      then AtomicBitset_IsSet (ucast tile_index) (valid_tile tb) else Some False)"

text \<open>The pool slot of a tile is taken over from the tile that holds it.\<close>

definition claim_slot :: "u32 \<Rightarrow> 'p TileBuffer \<Rightarrow> 'p TileBuffer option" where
  "claim_slot tile_index tb =
     (let (in_pool, pool_index) = TileToPoolIndex tb tile_index
      in if in_pool then Some tb
         else map_option (\<lambda>t. t\<lparr>pool_index_to_tile_index := (pool_index_to_tile_index t)[pool_index := tile_index]\<rparr>)
                (InvalidatePoolTile pool_index tb))"

text \<open>
  From the filling of the pool buffer to the last check of the context. \<open>paint\<close> is the document's
  \<open>paintTile\<close>, \<open>blank\<close> a transparent buffer; \<open>other1\<close> and \<open>other2\<close> are what other threads
  do while the tile is painted and while the image is stored.
\<close>

definition raster_tile ::
  "(int \<times> int \<times> int \<times> int \<Rightarrow> 'p \<Rightarrow> 'p) \<Rightarrow> 'p \<Rightarrow> ('p TileBuffer \<Rightarrow> 'p TileBuffer) \<Rightarrow> ('p TileBuffer \<Rightarrow> 'p TileBuffer) \<Rightarrow>
   u32 \<Rightarrow> u64 \<Rightarrow> 'p TileBuffer \<Rightarrow> (bool \<times> 'p TileBuffer) option" where
  "raster_tile paint blank other1 other2 tile_index context_hash tb = do {
     let pool_index = snd (TileToPoolIndex tb tile_index);
     twips \<leftarrow> tile_twips tb tile_index;
     let tb1 = other1 (tb\<lparr>pool_buffer := (pool_buffer tb)[pool_index := paint twips blank]\<rparr>);
     if active_context_hash tb1 \<noteq> context_hash then map_option (Pair False) (clear_valid tb1)
     else do {
       pixels \<leftarrow> idx (pool_buffer tb1) pool_index;
       let tb2 = other2 (tb1\<lparr>pool_paint_images := (pool_paint_images tb1)[pool_index := Some pixels]\<rparr>);
       if active_context_hash tb2 \<noteq> context_hash then map_option (Pair False) (clear_valid tb2)
       else do {
         (_, v) \<leftarrow> AtomicBitset_Set (ucast tile_index) (valid_tile tb2);
         Some (True, tb2\<lparr>valid_tile := v\<rparr>) } } }"

definition TileBuffer_PaintTile ::
  "(int \<times> int \<times> int \<times> int \<Rightarrow> 'p \<Rightarrow> 'p) \<Rightarrow> 'p \<Rightarrow> ('p TileBuffer \<Rightarrow> 'p TileBuffer) \<Rightarrow> ('p TileBuffer \<Rightarrow> 'p TileBuffer) \<Rightarrow>
   bool \<Rightarrow> u32 \<Rightarrow> u64 \<Rightarrow> 'p TileBuffer \<Rightarrow> (bool \<times> 'p TileBuffer) option" where
  "TileBuffer_PaintTile paint blank other1 other2 cancelled tile_index context_hash tb =
     (let max = tb_columns tb * tb_rows tb - 1
      in if active_context_hash tb \<noteq> context_hash then map_option (Pair False) (clear_valid tb)
         else if max < tile_index then map_option (Pair False) (clear_valid tb)
         else do {
           tb1 \<leftarrow> claim_slot tile_index tb;
           if \<not> cancelled \<and> ucast tile_index < bs_size (valid_tile tb1) then do {
             valid \<leftarrow> AtomicBitset_IsSet (ucast tile_index) (valid_tile tb1);
             if \<not> valid then raster_tile paint blank other1 other2 tile_index context_hash tb1
             else map_option (\<lambda>v. (v, tb1)) (tile_valid tb1 tile_index) }
           else map_option (\<lambda>v. (v, tb1)) (tile_valid tb1 tile_index) })"

section \<open>Invalidation\<close>

definition InvalidateTile_index :: "u64 \<Rightarrow> 'p TileBuffer \<Rightarrow> 'p TileBuffer option" where
  "InvalidateTile_index index tb =
     map_option (\<lambda>(_, v). tb\<lparr>valid_tile := v\<rparr>) (AtomicBitset_Reset index (valid_tile tb))"

definition InvalidateTile :: "u32 \<Rightarrow> u32 \<Rightarrow> 'p TileBuffer \<Rightarrow> 'p TileBuffer option" where
  "InvalidateTile column row tb = InvalidateTile_index (ucast (CoordToIndex (tb_columns tb) column row)) tb"

definition InvalidateAllTiles :: "'p TileBuffer \<Rightarrow> 'p TileBuffer option" where
  "InvalidateAllTiles tb = clear_valid (SetActiveContext 0 tb)"

text \<open>The rectangle operations of \<open>gfx\<close>, for any types of rectangles.\<close>

record ('r, 'f) gfx =
  RectF_of :: "'r \<Rightarrow> 'f"
  RectF_size :: "fp \<Rightarrow> fp \<Rightarrow> 'f"
  RectF_Offset :: "fp \<Rightarrow> fp \<Rightarrow> 'f \<Rightarrow> 'f"
  IntersectRects :: "'f \<Rightarrow> 'f \<Rightarrow> 'f"
  RectF_Scale :: "fp \<Rightarrow> 'f \<Rightarrow> 'f"
  ToEnclosingRect :: "'f \<Rightarrow> 'r"
  rect_x :: "'r \<Rightarrow> int"
  rect_y :: "'r \<Rightarrow> int"
  rect_right :: "'r \<Rightarrow> int"
  rect_bottom :: "'r \<Rightarrow> int"

definition TileRect :: "('r, 'f) gfx \<Rightarrow> 'f \<Rightarrow> fp \<Rightarrow> fp \<Rightarrow> fp \<Rightarrow> 'r" where
  "TileRect g target container_width container_height tile_size =
     ToEnclosingRect g (RectF_Scale g (f32_div (Fin 1) tile_size)
       (IntersectRects g target (RectF_size g container_width container_height)))"

text \<open>The index range of a rectangle of tiles, shared by the two invalidations.\<close>

definition rect_indices :: "('r, 'f) gfx \<Rightarrow> 'r \<Rightarrow> 'p TileBuffer \<Rightarrow> TileRange" where
  "rect_indices g tile_rect tb =
     tile_range
       (CoordToIndex (tb_columns tb) (word_of_int (rect_x g tile_rect)) (word_of_int (rect_y g tile_rect)))
       (CoordToIndex (tb_columns tb) (min (word_of_int (rect_right g tile_rect)) (tb_columns tb - 1))
                                     (min (word_of_int (rect_bottom g tile_rect)) (tb_rows tb - 1)))"

definition reset_range :: "TileRange \<Rightarrow> 'p TileBuffer \<Rightarrow> 'p TileBuffer option" where
  "reset_range r tb = map_option (\<lambda>v. tb\<lparr>valid_tile := v\<rparr>)
     (AtomicBitset_ResetRange (ucast (index_start r)) (ucast (index_end r)) (valid_tile tb))"

definition InvalidateTilesInRect ::
  "('r, 'f) gfx \<Rightarrow> 'f \<Rightarrow> bool \<Rightarrow> 'p TileBuffer \<Rightarrow> (TileRange \<times> 'p TileBuffer) option" where
  "InvalidateTilesInRect g rect dry_run tb =
     (let r = rect_indices g (TileRect g rect (doc_width_scaled_px tb) (doc_height_scaled_px tb) (f32_of_int kTileSizePx)) tb
      in if \<not> dry_run then map_option (Pair r) (reset_range r tb) else Some (r, tb))"

definition InvalidateTilesInTwipRect ::
  "('r, 'f) gfx \<Rightarrow> 'r \<Rightarrow> 'p TileBuffer \<Rightarrow> (TileRange \<times> 'p TileBuffer) option" where
  "InvalidateTilesInTwipRect g rect_twips tb =
     (let r = rect_indices g (TileRect g (RectF_of g rect_twips) (f32_of_int (doc_width_twips tb))
                (f32_of_int (doc_height_twips tb)) (PixelToTwip (f32_of_int kTileSizePx) (tb_scale tb))) tb
      in map_option (Pair r) (reset_range r tb))"

section \<open>Ranges\<close>

text \<open>
  The inner loop of \<open>InvalidRangesRemaining\<close> counts \<open>i\<close> up to the end of the range or the size of
  the bit set, whichever comes first. The size is computed as an \<open>unsigned int\<close>, so the
  counter does not wrap around.
\<close>

definition remaining_step :: "'p TileBuffer \<Rightarrow> u32 \<Rightarrow> TileRange list \<Rightarrow> TileRange list option" where
  "remaining_step tb i result = do {
     valid \<leftarrow> AtomicBitset_IsSet (ucast i) (valid_tile tb);
     if \<not> valid \<or> \<not> resident tb i
     then if result \<noteq> [] \<and> index_end (last result) = i - 1
          then Some (butlast result @ [(last result)\<lparr>index_end := i\<rparr>])
          else Some (result @ [tile_range i i])
     else Some result }"

fun remaining_loop :: "'p TileBuffer \<Rightarrow> u32 list \<Rightarrow> TileRange list \<Rightarrow> TileRange list option" where
  "remaining_loop tb [] result = Some result"
| "remaining_loop tb (i # is) result = Option.bind (remaining_step tb i result) (remaining_loop tb is)"

definition range_indices :: "'p TileBuffer \<Rightarrow> TileRange \<Rightarrow> u32 list" where
  "range_indices tb it =
     map of_nat [unat (index_start it) ..< min (Suc (unat (index_end it))) (unat (bs_size (valid_tile tb)))]"

definition InvalidRangesRemaining :: "'p TileBuffer \<Rightarrow> TileRange list \<Rightarrow> TileRange list option" where
  "InvalidRangesRemaining tb tile_ranges =
     map_option SimplifyRanges (remaining_loop tb (concat (map (range_indices tb) tile_ranges)) [])"

text \<open>
  The quotients by 256 of 32-bit integers are exact as \<open>double\<close> values, and the sums stay far
  below the range of \<open>unsigned int\<close>.
\<close>

record RowLimit =
  rl_start :: u32
  rl_end :: u32

definition LimitRange :: "int \<Rightarrow> u32 \<Rightarrow> RowLimit" where
  "LimitRange y_pos view_height =
     (let start_row = (if y_pos < 0 then 0 else word_of_int \<lfloor>of_int y_pos / 256 :: rat\<rfloor>);
          end_row = word_of_int (uint start_row + \<lceil>of_int (uint view_height) / 256 :: rat\<rceil>)
      in \<lparr>rl_start = start_row, rl_end = max start_row end_row\<rparr>)"

definition LimitIndex :: "'p TileBuffer \<Rightarrow> int \<Rightarrow> u32 \<Rightarrow> TileRange" where
  "LimitIndex tb y_pos view_height =
     (let row_limit = LimitRange y_pos view_height
      in tile_range (CoordToIndex (tb_columns tb) 0 (rl_start row_limit))
                    (CoordToIndex (tb_columns tb) (tb_columns tb - 1) (rl_end row_limit)))"

definition NextScrollTileRange :: "'p TileBuffer \<Rightarrow> int \<Rightarrow> u32 \<Rightarrow> TileRange option" where
  "NextScrollTileRange tb next_y_pos view_height = do {
     d \<leftarrow> int_checked (next_y_pos - int32 (uint view_height));
     let next_y_pos = max 0 d;
     let row_limit = LimitRange next_y_pos (view_height * 3);
     let start_row = (if 0 < rl_start row_limit then rl_start row_limit else 0);
     let end_row = rl_end row_limit;
     let index_start = min start_row (tb_rows tb - 1) * tb_columns tb;
     let index_end = min end_row (tb_rows tb - 1) * tb_columns tb + tb_columns tb - 1;
     let limit = tb_columns tb * tb_rows tb - 1;
     Some (tile_range (min index_start limit) (min index_end limit)) }"

section \<open>Invariant\<close>

text \<open>
  The pool maps each of its slots to a tile of that slot or to none, and every valid tile is in
  the pool. Before the first \<open>Resize\<close> the bit set is empty.
\<close>

definition tb_wf :: "'p TileBuffer \<Rightarrow> bool" where
  "tb_wf tb \<longleftrightarrow>
     bitset_wf (valid_tile tb) \<and> bs_data (valid_tile tb) \<noteq> None \<and>
     length (pool_buffer tb) = kPoolSize \<and> length (pool_index_to_tile_index tb) = kPoolSize \<and>
     length (pool_paint_images tb) = kPoolSize \<and>
     unat (tb_columns tb) * unat (tb_rows tb) + 1 < 2 ^ 32 \<and>
     (unat (bs_size (valid_tile tb)) = unat (tb_columns tb) * unat (tb_rows tb) + 1 \<or>
      tb_columns tb = 0 \<and> tb_rows tb = 0 \<and> bs_size (valid_tile tb) = 0) \<and>
     (\<forall>p < kPoolSize. pool_index_to_tile_index tb ! p = kInvalidTileIndex \<or>
        unat (pool_index_to_tile_index tb ! p) < unat (bs_size (valid_tile tb)) \<and>
        unat (pool_index_to_tile_index tb ! p) mod kPoolSize = p) \<and>
     (\<forall>i \<in> members (valid_tile tb). unat (pool_index_to_tile_index tb ! (i mod kPoolSize)) = i)"

abbreviation slot :: "u32 \<Rightarrow> nat" where "slot i \<equiv> unat i mod kPoolSize"

text \<open>Every valid tile shows what the document paints at its position.\<close>

definition images_ok :: "(int \<times> int \<times> int \<times> int \<Rightarrow> 'p \<Rightarrow> 'p) \<Rightarrow> 'p \<Rightarrow> 'p TileBuffer \<Rightarrow> bool" where
  "images_ok paint blank tb \<longleftrightarrow>
     (\<forall>i \<in> members (valid_tile tb). \<exists>twips. tile_twips tb (of_nat i) = Some twips \<and>
        pool_paint_images tb ! (i mod kPoolSize) = Some (paint twips blank))"

definition tb_inv :: "(int \<times> int \<times> int \<times> int \<Rightarrow> 'p \<Rightarrow> 'p) \<Rightarrow> 'p \<Rightarrow> 'p TileBuffer \<Rightarrow> bool" where
  "tb_inv paint blank tb \<longleftrightarrow> tb_wf tb \<and> images_ok paint blank tb"

text \<open>What another thread may do while a tile is painted: keep the invariant, the geometry and the slot of the tile.\<close>

definition same_grid :: "'p TileBuffer \<Rightarrow> 'p TileBuffer \<Rightarrow> bool" where
  "same_grid tb tb' \<longleftrightarrow>
     tb_columns tb' = tb_columns tb \<and> tb_rows tb' = tb_rows tb \<and> tb_scale tb' = tb_scale tb"

definition same_slot :: "u32 \<Rightarrow> 'p TileBuffer \<Rightarrow> 'p TileBuffer \<Rightarrow> bool" where
  "same_slot i tb tb' \<longleftrightarrow>
     same_grid tb tb' \<and> bs_size (valid_tile tb') = bs_size (valid_tile tb) \<and>
     pool_buffer tb' ! slot i = pool_buffer tb ! slot i \<and>
     pool_index_to_tile_index tb' ! slot i = pool_index_to_tile_index tb ! slot i \<and>
     pool_paint_images tb' ! slot i = pool_paint_images tb ! slot i"

definition other_ok ::
  "(int \<times> int \<times> int \<times> int \<Rightarrow> 'p \<Rightarrow> 'p) \<Rightarrow> 'p \<Rightarrow> u32 \<Rightarrow> ('p TileBuffer \<Rightarrow> 'p TileBuffer) \<Rightarrow> bool" where
  "other_ok paint blank i f \<longleftrightarrow>
     (\<forall>tb. tb_inv paint blank tb \<longrightarrow> tb_inv paint blank (f tb) \<and> same_slot i tb (f tb))"

lemma slot_less [simp]: "slot i < kPoolSize"
  by (simp add: kPoolSize_eq)

lemma resident_iff: "resident tb i \<longleftrightarrow> pool_index_to_tile_index tb ! slot i = i"
  by (simp add: TileToPoolIndex_def Let_def)

lemma snd_TileToPoolIndex [simp]: "snd (TileToPoolIndex tb i) = slot i"
  by (simp add: TileToPoolIndex_def Let_def)

lemma tile_twips_cong:
  "tb_columns tb' = tb_columns tb \<Longrightarrow> tb_scale tb' = tb_scale tb \<Longrightarrow> tile_twips tb' i = tile_twips tb i"
  by (simp add: tile_twips_def IndexToCoord_def)

lemma tb_wfD:
  assumes "tb_wf tb"
  shows "bitset_wf (valid_tile tb)" "bs_data (valid_tile tb) \<noteq> None"
    "length (pool_buffer tb) = kPoolSize" "length (pool_index_to_tile_index tb) = kPoolSize"
    "length (pool_paint_images tb) = kPoolSize"
    "unat (tb_columns tb) * unat (tb_rows tb) + 1 < 2 ^ 32"
    "p < kPoolSize \<Longrightarrow> pool_index_to_tile_index tb ! p \<noteq> kInvalidTileIndex \<Longrightarrow>
       unat (pool_index_to_tile_index tb ! p) < unat (bs_size (valid_tile tb)) \<and>
       slot (pool_index_to_tile_index tb ! p) = p"
    "n \<in> members (valid_tile tb) \<Longrightarrow> unat (pool_index_to_tile_index tb ! (n mod kPoolSize)) = n"
    "unat (bs_size (valid_tile tb)) \<le> unat (tb_columns tb) * unat (tb_rows tb) + 1"
    "0 < unat (tb_columns tb) * unat (tb_rows tb) \<Longrightarrow>
       unat (bs_size (valid_tile tb)) = unat (tb_columns tb) * unat (tb_rows tb) + 1"
  using assms unfolding tb_wf_def by auto

text \<open>Changing the set of valid tiles to a subset of it keeps the invariant.\<close>

lemma tb_inv_shrink:
  assumes "tb_inv paint blank tb" "bitset_wf v" "bs_data v \<noteq> None" "bs_size v = bs_size (valid_tile tb)"
    "members v \<subseteq> members (valid_tile tb)"
  shows "tb_inv paint blank (tb\<lparr>valid_tile := v\<rparr>)"
  using assms tile_twips_cong [of "tb\<lparr>valid_tile := v\<rparr>" tb]
  by (auto simp: tb_inv_def tb_wf_def images_ok_def)

lemma clear_valid_ok:
  assumes "tb_inv paint blank tb"
  obtains tb' where "clear_valid tb = Some tb'" "tb_inv paint blank tb'" "members (valid_tile tb') = {}"
    "active_context_hash tb' = active_context_hash tb" "same_grid tb tb'"
proof -
  have "bitset_wf (valid_tile tb)" "bs_data (valid_tile tb) \<noteq> None"
    using assms tb_wfD by (auto simp: tb_inv_def)
  then obtain v where "AtomicBitset_Clear (valid_tile tb) = Some v" "bitset_wf v"
    "bs_size v = bs_size (valid_tile tb)" "members v = {}" "bs_data v \<noteq> None"
    by (rule Clear_step)
  then show ?thesis using that tb_inv_shrink [OF assms, of v] by (simp add: clear_valid_def same_grid_def)
qed

lemma bitset_wf_data: "bitset_wf b \<Longrightarrow> n < unat (bs_size b) \<Longrightarrow> bs_data b \<noteq> None"
  by (auto simp: bitset_wf_def split: option.splits)

lemma members_size: "n \<in> members b \<Longrightarrow> n < unat (bs_size b)"
  by (auto simp: members_def split: option.splits)

text \<open>Two states that differ in the valid tiles and the owners of the slots only.\<close>

definition pool_change :: "'p TileBuffer \<Rightarrow> 'p TileBuffer \<Rightarrow> bool" where
  "pool_change tb tb' \<longleftrightarrow> (\<exists>v q. tb' = tb\<lparr>valid_tile := v, pool_index_to_tile_index := q\<rparr>)"

lemma pool_change_refl: "pool_change tb tb"
  unfolding pool_change_def by (intro exI [of _ "valid_tile tb"] exI [of _ "pool_index_to_tile_index tb"]) simp

lemma pool_change_assign: "pool_change tb t \<Longrightarrow> pool_change tb (t\<lparr>pool_index_to_tile_index := q\<rparr>)"
  by (auto simp: pool_change_def; blast)

lemma pool_change_same:
  assumes "pool_change tb t"
  shows "tb_columns t = tb_columns tb" "tb_rows t = tb_rows tb" "tb_scale t = tb_scale tb"
    "active_context_hash t = active_context_hash tb" "pool_buffer t = pool_buffer tb"
    "pool_paint_images t = pool_paint_images tb"
  using assms by (auto simp: pool_change_def)

text \<open>Handing a slot to a tile whose slot no valid tile uses.\<close>

lemma tb_inv_assign:
  assumes "tb_inv paint blank tb" "unat i < unat (bs_size (valid_tile tb))"
    and "\<forall>n \<in> members (valid_tile tb). n mod kPoolSize \<noteq> slot i"
  shows "tb_inv paint blank (tb\<lparr>pool_index_to_tile_index := (pool_index_to_tile_index tb)[slot i := i]\<rparr>)"
    (is "tb_inv _ _ ?tb")
proof -
  have wf: "tb_wf tb" and img: "images_ok paint blank tb" using assms(1) by (simp_all add: tb_inv_def)
  note len = tb_wfD(4) [OF wf]
  have "tb_wf ?tb"
    using wf assms(2,3) unfolding tb_wf_def
    by (auto simp: len nth_list_update split: if_splits)
  moreover have "images_ok paint blank ?tb"
    using img tile_twips_cong [of ?tb tb] by (simp add: images_ok_def)
  ultimately show ?thesis by (simp add: tb_inv_def)
qed

lemma InvalidatePoolTile_ok:
  assumes inv: "tb_inv paint blank tb" and p: "p < kPoolSize"
  obtains tb' where "InvalidatePoolTile p tb = Some tb'" "tb_inv paint blank tb'"
    "\<forall>n \<in> members (valid_tile tb'). n mod kPoolSize \<noteq> p"
    "members (valid_tile tb') \<subseteq> members (valid_tile tb)"
    "\<forall>n \<in> members (valid_tile tb). n mod kPoolSize \<noteq> p \<longrightarrow> n \<in> members (valid_tile tb')"
    "bs_size (valid_tile tb') = bs_size (valid_tile tb)"
    "pool_change tb tb'"
    "pool_index_to_tile_index tb' ! p = kInvalidTileIndex"
proof -
  have wf: "tb_wf tb" using inv by (simp add: tb_inv_def)
  let ?t = "pool_index_to_tile_index tb ! p"
  have occupied: "n = unat ?t" if "n \<in> members (valid_tile tb)" "n mod kPoolSize = p" for n
    using tb_wfD(8) [OF wf that(1)] that(2) by simp
  have rd: "idx (pool_index_to_tile_index tb) p = Some ?t" using p tb_wfD(4) [OF wf] by simp
  show ?thesis
  proof (cases "?t = kInvalidTileIndex")
    case True
    have "unat ?t = 2 ^ 32 - 1" unfolding True by (simp add: kInvalidTileIndex_def unsigned_minus_1_eq_mask mask_eq_exp_minus_1)
    then have "\<forall>n \<in> members (valid_tile tb). n mod kPoolSize \<noteq> p"
      using occupied members_size tb_wfD(6,9) [OF wf] by fastforce
    then show ?thesis using that [of tb] inv rd True pool_change_refl [of tb] by (simp add: InvalidatePoolTile_def)
  next
    case False
    have t: "unat (ucast ?t :: u64) < unat (bs_size (valid_tile tb))"
      using tb_wfD(7) [OF wf p False] by (simp add: ucast_u32_u64)
    obtain v where v: "AtomicBitset_Reset (ucast ?t) (valid_tile tb) = Some (unat ?t \<in> members (valid_tile tb), v)"
      "bitset_wf v" "bs_size v = bs_size (valid_tile tb)" "members v = members (valid_tile tb) - {unat ?t}"
      using Reset_step [OF tb_wfD(1) [OF wf] t] by (auto simp: ucast_u32_u64)
    let ?tb = "tb\<lparr>valid_tile := v, pool_index_to_tile_index := (pool_index_to_tile_index tb)[p := kInvalidTileIndex]\<rparr>"
    have free: "\<forall>n \<in> members v. n mod kPoolSize \<noteq> p" using occupied v(4) by auto
    have dat: "bs_data v \<noteq> None" using bitset_wf_data [OF v(2)] v(3) t by simp
    have shrink: "tb_inv paint blank (tb\<lparr>valid_tile := v\<rparr>)"
      using tb_inv_shrink [OF inv v(2) dat v(3)] v(4) by auto
    show ?thesis
    proof (rule that [of ?tb])
      show "InvalidatePoolTile p tb = Some ?tb" using rd False v(1) by (simp add: InvalidatePoolTile_def)
      have "tb_wf ?tb" using shrink p free tb_wfD(4) [OF wf]
        unfolding tb_inv_def tb_wf_def by (auto simp: nth_list_update)
      moreover have "images_ok paint blank ?tb"
        using shrink tile_twips_cong [of ?tb "tb\<lparr>valid_tile := v\<rparr>"] by (simp add: tb_inv_def images_ok_def)
      ultimately show "tb_inv paint blank ?tb" by (simp add: tb_inv_def)
      show "\<forall>n \<in> members (valid_tile ?tb). n mod kPoolSize \<noteq> p" using free by simp
      show "members (valid_tile ?tb) \<subseteq> members (valid_tile tb)" using v(4) by auto
      show "\<forall>n \<in> members (valid_tile tb). n mod kPoolSize \<noteq> p \<longrightarrow> n \<in> members (valid_tile ?tb)"
        using v(4) tb_wfD(7) [OF wf p False] by auto
      show "bs_size (valid_tile ?tb) = bs_size (valid_tile tb)" using v(3) by simp
      show "pool_change tb ?tb" unfolding pool_change_def by blast
      show "pool_index_to_tile_index ?tb ! p = kInvalidTileIndex" using p tb_wfD(4) [OF wf] by simp
    qed
  qed
qed

lemma claim_slot_ok:
  assumes inv: "tb_inv paint blank tb" and i: "unat i < unat (bs_size (valid_tile tb))"
  obtains tb1 where "claim_slot i tb = Some tb1" "tb_inv paint blank tb1" "pool_index_to_tile_index tb1 ! slot i = i"
    "unat i \<in> members (valid_tile tb1) \<longleftrightarrow> unat i \<in> members (valid_tile tb)"
    "bs_size (valid_tile tb1) = bs_size (valid_tile tb)"
    "pool_change tb tb1"
proof (cases "resident tb i")
  case True
  then show ?thesis
    using that [of tb] inv pool_change_refl [of tb] by (simp add: claim_slot_def split_beta resident_iff)
next
  case False
  have wf: "tb_wf tb" using inv by (simp add: tb_inv_def)
  have "unat i \<notin> members (valid_tile tb)"
    using False tb_wfD(8) [OF wf, of "unat i"] by (auto simp: resident_iff unsigned_word_eqI)
  moreover obtain t where t: "InvalidatePoolTile (slot i) tb = Some t" "tb_inv paint blank t"
    "\<forall>n \<in> members (valid_tile t). n mod kPoolSize \<noteq> slot i"
    "members (valid_tile t) \<subseteq> members (valid_tile tb)"
    "bs_size (valid_tile t) = bs_size (valid_tile tb)"
    "pool_change tb t"
    using InvalidatePoolTile_ok [OF inv slot_less [of i]] by metis
  moreover have "length (pool_index_to_tile_index t) = kPoolSize"
    using t(2) tb_wfD(4) [of t] by (simp add: tb_inv_def)
  ultimately show ?thesis
    using that [of "t\<lparr>pool_index_to_tile_index := (pool_index_to_tile_index t)[slot i := i]\<rparr>"]
      tb_inv_assign [OF t(2), of i] i False pool_change_assign [OF t(6)]
    by (auto simp: claim_slot_def split_beta)
qed

section \<open>PaintTile\<close>

lemma tb_inv_buffer: "tb_inv paint blank tb \<Longrightarrow> tb_inv paint blank (tb\<lparr>pool_buffer := (pool_buffer tb)[p := x]\<rparr>)"
  by (auto simp: tb_inv_def tb_wf_def images_ok_def tile_twips_def IndexToCoord_def)

lemma tb_inv_image:
  assumes "tb_inv paint blank tb" "pool_index_to_tile_index tb ! slot i = i" "tile_twips tb i = Some twips"
  shows "tb_inv paint blank (tb\<lparr>pool_paint_images := (pool_paint_images tb)[slot i := Some (paint twips blank)]\<rparr>)"
    (is "tb_inv _ _ ?tb")
proof -
  have wf: "tb_wf tb" and img: "images_ok paint blank tb" using assms(1) by (simp_all add: tb_inv_def)
  have twips: "tile_twips ?tb j = tile_twips tb j" for j by (rule tile_twips_cong) simp_all
  have "of_nat n = i" if "n \<in> members (valid_tile tb)" "n mod kPoolSize = slot i" for n
    using tb_wfD(8) [OF wf that(1)] that(2) assms(2) by auto
  then have "images_ok paint blank ?tb"
    using img assms(3) tb_wfD(5) [OF wf] unfolding images_ok_def twips by (auto simp: nth_list_update)
  moreover have "tb_wf ?tb" using wf unfolding tb_wf_def by simp
  ultimately show ?thesis by (simp add: tb_inv_def)
qed

lemma tb_inv_set:
  assumes "tb_inv paint blank tb" "pool_index_to_tile_index tb ! slot i = i" "tile_twips tb i = Some twips"
    "pool_paint_images tb ! slot i = Some (paint twips blank)"
    "bitset_wf v" "bs_data v \<noteq> None" "bs_size v = bs_size (valid_tile tb)"
    "members v = insert (unat i) (members (valid_tile tb))"
  shows "tb_inv paint blank (tb\<lparr>valid_tile := v\<rparr>)" (is "tb_inv _ _ ?tb")
proof -
  have wf: "tb_wf tb" and img: "images_ok paint blank tb" using assms(1) by (simp_all add: tb_inv_def)
  have twips: "tile_twips ?tb j = tile_twips tb j" for j by (rule tile_twips_cong) simp_all
  have "images_ok paint blank ?tb" using img assms(3,4,8) unfolding images_ok_def twips by (cases twips) auto
  moreover have "tb_wf ?tb" using wf assms(2,5-8) unfolding tb_wf_def by simp
  ultimately show ?thesis by (simp add: tb_inv_def)
qed

lemma other_okD:
  assumes "other_ok paint blank i f" "tb_inv paint blank tb"
  shows "tb_inv paint blank (f tb)" "same_slot i tb (f tb)"
  using assms by (auto simp: other_ok_def)

definition paint_result :: "(int \<times> int \<times> int \<times> int \<Rightarrow> 'p \<Rightarrow> 'p) \<Rightarrow> 'p \<Rightarrow> u32 \<Rightarrow> u64 \<Rightarrow> bool \<Rightarrow> 'p TileBuffer \<Rightarrow> bool" where
  "paint_result paint blank i context_hash r tb \<longleftrightarrow>
     tb_inv paint blank tb \<and>
     (r \<longrightarrow> active_context_hash tb = context_hash \<and> unat i \<in> members (valid_tile tb) \<and> resident tb i) \<and>
     (active_context_hash tb \<noteq> context_hash \<longrightarrow> members (valid_tile tb) = {})"

lemma raster_stale:
  assumes "tb_inv paint blank tb" "active_context_hash tb \<noteq> context_hash"
  shows "\<exists>tb'. map_option (Pair False) (clear_valid tb) = Some (False, tb') \<and>
    paint_result paint blank i context_hash False tb' \<and> active_context_hash tb' \<noteq> context_hash \<and> same_grid tb tb'"
  using clear_valid_ok [OF assms(1)] assms(2) by (metis option.simps(9) paint_result_def)

lemma raster_finish:
  assumes inv: "tb_inv paint blank tb" and slot: "pool_index_to_tile_index tb ! slot i = i"
    and twips: "tile_twips tb i = Some twips" and img: "pool_paint_images tb ! slot i = Some (paint twips blank)"
    and i: "unat i < unat (bs_size (valid_tile tb))"
  shows "\<exists>b v. AtomicBitset_Set (ucast i) (valid_tile tb) = Some (b, v) \<and>
    tb_inv paint blank (tb\<lparr>valid_tile := v\<rparr>) \<and> unat i \<in> members v"
proof -
  have wf: "tb_wf tb" using inv by (simp add: tb_inv_def)
  obtain v where v: "AtomicBitset_Set (ucast i) (valid_tile tb) = Some (unat i \<in> members (valid_tile tb), v)" "bitset_wf v"
    "bs_size v = bs_size (valid_tile tb)" "members v = insert (unat i) (members (valid_tile tb))"
    using Set_step [OF tb_wfD(1) [OF wf], of "ucast i"] i by (auto simp: ucast_u32_u64)
  have "bs_data v \<noteq> None" using bitset_wf_data [OF v(2)] v(3) i by simp
  from tb_inv_set [where paint = paint and blank = blank, OF inv slot twips img v(2) this v(3,4)] v show ?thesis by auto
qed

lemma raster_ok:
  assumes inv: "tb_inv paint blank tb" and slot: "pool_index_to_tile_index tb ! slot i = i"
    and i: "unat i < unat (bs_size (valid_tile tb))" and twips: "tile_twips tb i = Some twips"
    and o1: "other_ok paint blank i other1" and o2: "other_ok paint blank i other2"
  shows "\<exists>r tb'. raster_tile paint blank other1 other2 i context_hash tb = Some (r, tb') \<and>
    paint_result paint blank i context_hash r tb' \<and> (\<not> r \<longrightarrow> active_context_hash tb' \<noteq> context_hash) \<and> same_grid tb tb' \<and>
    (r \<longrightarrow> pool_paint_images tb' ! slot i = Some (paint twips blank))"
proof -
  define ta where "ta = tb\<lparr>pool_buffer := (pool_buffer tb)[slot i := paint twips blank]\<rparr>"
  define t1 where "t1 = other1 ta"
  have inv_a: "tb_inv paint blank ta" unfolding ta_def by (rule tb_inv_buffer [OF inv])
  have inv1: "tb_inv paint blank t1" and same1: "same_slot i ta t1"
    unfolding t1_def by (rule other_okD [OF o1 inv_a])+
  have len: "length (pool_buffer tb) = kPoolSize" "length (pool_buffer t1) = kPoolSize" "length (pool_paint_images t1) = kPoolSize"
    using inv inv1 tb_wfD(3) [of tb] tb_wfD(3,5) [of t1] by (simp_all add: tb_inv_def)
  have grid1: "same_grid tb t1" using same1 by (simp add: same_slot_def same_grid_def ta_def)
  have buf1: "idx (pool_buffer t1) (slot i) = Some (paint twips blank)"
    using same1 len by (simp add: same_slot_def same_grid_def ta_def)
  have slot1: "pool_index_to_tile_index t1 ! slot i = i" using same1 slot by (simp add: same_slot_def same_grid_def ta_def)
  have twips1: "tile_twips t1 i = Some twips"
    using same1 twips tile_twips_cong [of t1 tb i] by (simp add: same_slot_def same_grid_def ta_def)
  have run: "raster_tile paint blank other1 other2 i context_hash tb =
      (if active_context_hash t1 \<noteq> context_hash then map_option (Pair False) (clear_valid t1)
       else let t2 = other2 (t1\<lparr>pool_paint_images := (pool_paint_images t1)[slot i := Some (paint twips blank)]\<rparr>)
            in if active_context_hash t2 \<noteq> context_hash then map_option (Pair False) (clear_valid t2)
               else do { (_, v) \<leftarrow> AtomicBitset_Set (ucast i) (valid_tile t2); Some (True, t2\<lparr>valid_tile := v\<rparr>) })"
    using buf1 by (simp add: raster_tile_def twips Let_def flip: ta_def t1_def)
  show ?thesis
  proof (cases "active_context_hash t1 = context_hash")
    case False
    then show ?thesis unfolding run using raster_stale [OF inv1 False, of i] grid1 by (auto simp: same_grid_def)
  next
    case True
    define tc where "tc = t1\<lparr>pool_paint_images := (pool_paint_images t1)[slot i := Some (paint twips blank)]\<rparr>"
    define t2 where "t2 = other2 tc"
    have inv_c: "tb_inv paint blank tc" unfolding tc_def by (rule tb_inv_image [OF inv1 slot1 twips1])
    have inv2: "tb_inv paint blank t2" and same2: "same_slot i tc t2"
      unfolding t2_def by (rule other_okD [OF o2 inv_c])+
    have grid2: "same_grid tb t2" using same2 grid1 by (simp add: same_slot_def same_grid_def tc_def)
    have slot2: "pool_index_to_tile_index t2 ! slot i = i" using same2 slot1 by (simp add: same_slot_def same_grid_def tc_def)
    have twips2: "tile_twips t2 i = Some twips"
      using same2 twips1 tile_twips_cong [of t2 t1 i] by (simp add: same_slot_def same_grid_def tc_def)
    have img2: "pool_paint_images t2 ! slot i = Some (paint twips blank)"
      using same2 len by (simp add: same_slot_def same_grid_def tc_def)
    have i2: "unat i < unat (bs_size (valid_tile t2))"
      using same1 same2 i by (simp add: same_slot_def same_grid_def tc_def ta_def)
    have run2: "raster_tile paint blank other1 other2 i context_hash tb =
      (if active_context_hash t2 \<noteq> context_hash then map_option (Pair False) (clear_valid t2)
       else do { (_, v) \<leftarrow> AtomicBitset_Set (ucast i) (valid_tile t2); Some (True, t2\<lparr>valid_tile := v\<rparr>) })"
      unfolding run by (simp add: True Let_def flip: tc_def t2_def)
    show ?thesis
    proof (cases "active_context_hash t2 = context_hash")
      case False
      then show ?thesis unfolding run2 using raster_stale [OF inv2 False, of i] grid2 by (auto simp: same_grid_def)
    next
      case ctx: True
      obtain b v where v: "AtomicBitset_Set (ucast i) (valid_tile t2) = Some (b, v)"
        "tb_inv paint blank (t2\<lparr>valid_tile := v\<rparr>)" "unat i \<in> members v"
        using raster_finish [where paint = paint and blank = blank, OF inv2 slot2 twips2 img2 i2] by blast
      then show ?thesis unfolding run2 using ctx slot2 img2 grid2
        by (auto simp: paint_result_def resident_iff same_grid_def)
    qed
  qed
qed

lemma PaintTile_run:
  assumes inv: "tb_inv paint blank tb" and i: "unat i < unat (tb_columns tb) * unat (tb_rows tb)"
    and ctx: "active_context_hash tb = context_hash"
  obtains t where "tb_inv paint blank t" "pool_index_to_tile_index t ! slot i = i"
    "unat i < unat (bs_size (valid_tile t))" "pool_change tb t"
    "TileBuffer_PaintTile paint blank other1 other2 cancelled i context_hash tb =
      (if \<not> cancelled \<and> unat i \<notin> members (valid_tile t) then raster_tile paint blank other1 other2 i context_hash t
       else Some (unat i \<in> members (valid_tile t), t))"
proof -
  have wf: "tb_wf tb" using inv by (simp add: tb_inv_def)
  have i1: "unat i < unat (bs_size (valid_tile tb))" using i tb_wfD(10) [OF wf] by linarith
  have prod: "unat (tb_columns tb * tb_rows tb) = unat (tb_columns tb) * unat (tb_rows tb)"
    using tb_wfD(6) [OF wf] by (simp add: unat_word_ariths)
  then have "0 < unat (tb_columns tb * tb_rows tb)" using i by linarith
  then have "1 \<le> tb_columns tb * tb_rows tb" by (simp add: word_le_nat_alt)
  then have max: "\<not> tb_columns tb * tb_rows tb - 1 < i"
    using i prod by (simp add: word_less_nat_alt unat_sub)
  obtain t where t: "claim_slot i tb = Some t" "tb_inv paint blank t" "pool_index_to_tile_index t ! slot i = i"
    "bs_size (valid_tile t) = bs_size (valid_tile tb)" "pool_change tb t"
    using claim_slot_ok [OF inv i1] by metis
  have it: "unat i < unat (bs_size (valid_tile t))" "ucast i < bs_size (valid_tile t)"
    using i1 t(4) by (simp_all add: word_less_nat_alt ucast_u32_u64)
  have set: "AtomicBitset_IsSet (ucast i) (valid_tile t) = Some (unat i \<in> members (valid_tile t))"
    using IsSet_eq [of "valid_tile t" "ucast i"] t(2) tb_wfD(1) [of t] it(1) by (simp add: tb_inv_def ucast_u32_u64)
  show ?thesis
  proof (rule that [OF t(2,3) it(1) t(5)])
    show "TileBuffer_PaintTile paint blank other1 other2 cancelled i context_hash tb =
      (if \<not> cancelled \<and> unat i \<notin> members (valid_tile t) then raster_tile paint blank other1 other2 i context_hash t
       else Some (unat i \<in> members (valid_tile t), t))"
      using max ctx t(1) it(2) set by (simp add: TileBuffer_PaintTile_def Let_def tile_valid_def)
  qed
qed

lemma PaintTile_ok:
  assumes inv: "tb_inv paint blank tb" and i: "unat i < unat (tb_columns tb) * unat (tb_rows tb)"
    and twips: "tile_twips tb i = Some twips"
    and o1: "other_ok paint blank i other1" and o2: "other_ok paint blank i other2"
  shows "\<exists>r tb'. TileBuffer_PaintTile paint blank other1 other2 cancelled i context_hash tb = Some (r, tb') \<and>
    paint_result paint blank i context_hash r tb' \<and>
    (\<not> cancelled \<longrightarrow> \<not> r \<longrightarrow> active_context_hash tb' \<noteq> context_hash) \<and> same_grid tb tb' \<and>
    (r \<longrightarrow> pool_paint_images tb' ! slot i = Some (paint twips blank))"
proof (cases "active_context_hash tb = context_hash")
  case False
  then show ?thesis using raster_stale [OF inv False, of i] by (auto simp: TileBuffer_PaintTile_def Let_def)
next
  case ctx: True
  obtain t where t: "tb_inv paint blank t" "pool_index_to_tile_index t ! slot i = i"
    "unat i < unat (bs_size (valid_tile t))" "pool_change tb t"
    and run: "TileBuffer_PaintTile paint blank other1 other2 cancelled i context_hash tb =
      (if \<not> cancelled \<and> unat i \<notin> members (valid_tile t) then raster_tile paint blank other1 other2 i context_hash t
       else Some (unat i \<in> members (valid_tile t), t))"
    using PaintTile_run [OF inv i ctx] .
  have twt: "tile_twips t i = Some twips"
    using twips tile_twips_cong [of t tb i] pool_change_same [OF t(4)] by simp
  have "images_ok paint blank t" using t(1) by (simp add: tb_inv_def)
  then have "paint_result paint blank i context_hash (unat i \<in> members (valid_tile t)) t \<and>
      (unat i \<in> members (valid_tile t) \<longrightarrow> pool_paint_images t ! slot i = Some (paint twips blank))"
    using t(1,2) pool_change_same(4) [OF t(4)] ctx twt by (auto simp: paint_result_def resident_iff images_ok_def)
  moreover have "same_grid tb t" using pool_change_same [OF t(4)] by (simp add: same_grid_def)
  moreover from this raster_ok [OF t(1-3) twt o1 o2, of context_hash]
  have "\<exists>r tb'. raster_tile paint blank other1 other2 i context_hash t = Some (r, tb') \<and>
      paint_result paint blank i context_hash r tb' \<and> (\<not> r \<longrightarrow> active_context_hash tb' \<noteq> context_hash) \<and>
      same_grid tb tb' \<and> (r \<longrightarrow> pool_paint_images tb' ! slot i = Some (paint twips blank))"
    unfolding same_grid_def by fastforce
  ultimately show ?thesis unfolding run by (cases "\<not> cancelled \<and> unat i \<notin> members (valid_tile t)") auto
qed

text \<open>Every call on a buffer with tiles keeps the invariant, whatever the tile index.\<close>

lemma PaintTile_inv:
  assumes inv: "tb_inv paint blank tb" and ne: "0 < unat (tb_columns tb) * unat (tb_rows tb)"
    and o1: "other_ok paint blank i other1" and o2: "other_ok paint blank i other2"
    and run: "TileBuffer_PaintTile paint blank other1 other2 cancelled i context_hash tb = Some (r, tb')"
  shows "tb_inv paint blank tb'"
proof -
  have clear: "tb_inv paint blank u" if "map_option (Pair False) (clear_valid tb) = Some (q, u)" for q u
    using clear_valid_ok [OF inv] that by fastforce
  have prod: "unat (tb_columns tb * tb_rows tb) = unat (tb_columns tb) * unat (tb_rows tb)"
    using inv tb_wfD(6) [of tb] by (simp add: unat_word_ariths tb_inv_def)
  then have "0 < unat (tb_columns tb * tb_rows tb)" using ne by linarith
  then have "1 \<le> tb_columns tb * tb_rows tb" by (simp add: word_le_nat_alt)
  then have max: "tb_columns tb * tb_rows tb - 1 < i" if "\<not> unat i < unat (tb_columns tb) * unat (tb_rows tb)"
    using that prod ne unfolding word_less_nat_alt by (simp only: unat_sub unat_1)
  show ?thesis
  proof (cases "active_context_hash tb = context_hash \<and> unat i < unat (tb_columns tb) * unat (tb_rows tb)")
    case False
    then show ?thesis using clear run max by (auto simp: TileBuffer_PaintTile_def Let_def split: if_splits)
  next
    case True
    then show ?thesis
    proof (cases "tile_twips tb i")
      case (Some twips)
      with True PaintTile_ok [OF inv _ Some o1 o2, of cancelled context_hash] run
      show ?thesis by (auto simp: paint_result_def)
    next
      case None
      obtain t where t: "tb_inv paint blank t" "pool_change tb t"
        and eq: "TileBuffer_PaintTile paint blank other1 other2 cancelled i context_hash tb =
          (if \<not> cancelled \<and> unat i \<notin> members (valid_tile t) then raster_tile paint blank other1 other2 i context_hash t
           else Some (unat i \<in> members (valid_tile t), t))"
        using PaintTile_run [OF inv] True by blast
      have "raster_tile paint blank other1 other2 i context_hash t = None"
        using None tile_twips_cong [of t tb i] pool_change_same [OF t(2)] by (simp add: raster_tile_def)
      then show ?thesis using eq run t(1) by (auto split: if_splits)
    qed
  qed
qed

section \<open>The operations of the main thread\<close>

lemma TileBuffer_init_ok: "tb_inv paint blank (TileBuffer_init raw)"
  by (simp add: tb_inv_def tb_wf_def images_ok_def TileBuffer_init_def make_wf)

lemma InvalidateTile_index_ok:
  assumes inv: "tb_inv paint blank tb" and i: "unat i < unat (bs_size (valid_tile tb))"
  obtains tb' where "InvalidateTile_index i tb = Some tb'" "tb_inv paint blank tb'"
    "members (valid_tile tb') = members (valid_tile tb) - {unat i}" "\<And>j. same_slot j tb tb'"
proof -
  have "bitset_wf (valid_tile tb)" using inv tb_wfD(1) [of tb] by (simp add: tb_inv_def)
  then obtain v where v: "AtomicBitset_Reset i (valid_tile tb) = Some (unat i \<in> members (valid_tile tb), v)"
    "bitset_wf v" "bs_size v = bs_size (valid_tile tb)" "members v = members (valid_tile tb) - {unat i}"
    using Reset_step i by metis
  have "bs_data v \<noteq> None" using bitset_wf_data [OF v(2)] v(3) i by simp
  with v that tb_inv_shrink [OF inv v(2) _ v(3)] show ?thesis
    by (simp add: InvalidateTile_index_def same_slot_def same_grid_def)
qed

lemma InvalidateAllTiles_ok:
  assumes "tb_inv paint blank tb"
  obtains tb' where "InvalidateAllTiles tb = Some tb'" "tb_inv paint blank tb'" "members (valid_tile tb') = {}"
    "active_context_hash tb' = 0"
proof -
  have "tb_inv paint blank (SetActiveContext 0 tb)"
    using assms by (auto simp: tb_inv_def tb_wf_def images_ok_def SetActiveContext_def tile_twips_def IndexToCoord_def)
  then show ?thesis using that clear_valid_ok [of paint blank "SetActiveContext 0 tb"]
    by (simp add: InvalidateAllTiles_def SetActiveContext_def) metis
qed

lemma SetActiveContext_other_ok: "other_ok paint blank i (SetActiveContext h)"
  by (auto simp: other_ok_def tb_inv_def tb_wf_def images_ok_def SetActiveContext_def same_slot_def same_grid_def
      tile_twips_def IndexToCoord_def)

lemma Resize_ok:
  assumes "tb_inv paint blank tb" "TileBuffer_Resize w h s tb = Some tb'"
    and "unat (tb_columns tb') * unat (tb_rows tb') + 1 < 2 ^ 32"
  shows "tb_inv paint blank tb'" "members (valid_tile tb') = {}" "i \<noteq> kInvalidTileIndex \<Longrightarrow> \<not> resident tb' i"
proof -
  obtain c r where c: "tile_span (TwipToPixel (f32_of_int w) s) = Some c" "tile_span (TwipToPixel (f32_of_int h) s) = Some r"
    "tb' = tb\<lparr>doc_width_twips := w, doc_height_twips := h, tb_scale := s,
       doc_width_scaled_px := TwipToPixel (f32_of_int w) s, doc_height_scaled_px := TwipToPixel (f32_of_int h) s,
       tb_columns := c, tb_rows := r, valid_tile := AtomicBitset_make (ucast (c * r + 1)),
       pool_index_to_tile_index := replicate kPoolSize kInvalidTileIndex\<rparr>"
    using assms(2) by (auto simp: TileBuffer_Resize_def bind_eq_Some_conv Let_def AtomicBitset_move_def AtomicBitset_make_def)
  have size: "unat (c * r + 1) = unat c * unat r + 1"
    using assms(3) by (simp add: c(3) unat_word_ariths)
  then show "tb_inv paint blank tb'" "members (valid_tile tb') = {}"
    using assms(1,3) unat_u32_less [of "c * r + 1"] make_wf [of "ucast (c * r + 1)"]
    by (simp_all add: tb_inv_def tb_wf_def images_ok_def c(3) ucast_u32_u64)
  show "i \<noteq> kInvalidTileIndex \<Longrightarrow> \<not> resident tb' i"
    by (auto simp: resident_iff c(3))
qed

text \<open>A range reset that is defined only clears bits.\<close>

lemma members_and:
  assumes "bs_data b = Some d" "k < length d"
  shows "members (b\<lparr>bs_data := Some (d[k := d ! k AND m])\<rparr>) \<subseteq> members b"
  using assms by (auto simp: members_def bitset_bits_def nth_list_update bit_and_iff split: if_splits)

lemma fetch_op_and:
  assumes "fetch_op (\<lambda>w. w AND m) k b = Some (x, b')" "bitset_wf b"
  shows "bitset_wf b' \<and> bs_data b' \<noteq> None \<and> bs_size b' = bs_size b \<and> members b' \<subseteq> members b"
proof -
  obtain d where d: "bs_data b = Some d" "unat k < length d" "b' = b\<lparr>bs_data := Some (d[unat k := d ! unat k AND m])\<rparr>"
    using assms(1) by (auto simp: fetch_op_def bind_eq_Some_conv dest!: idx_SomeD)
  then show ?thesis using members_and [OF d(1,2)] assms(2) by (simp add: bitset_wf_def)
qed

lemma store_zero_shrink:
  assumes "bs_data b = Some d" "bitset_wf b"
  shows "bitset_wf (b\<lparr>bs_data := Some (store_zero i n d)\<rparr>) \<and>
    members (b\<lparr>bs_data := Some (store_zero i n d)\<rparr>) \<subseteq> members b"
  using assms by (auto simp: bitset_wf_def members_def bitset_bits_def store_zero_nth split: if_splits)

lemma ResetRange_shrink:
  assumes "AtomicBitset_ResetRange s e b = Some b'" "bitset_wf b"
  shows "bitset_wf b' \<and> bs_data b' \<noteq> None \<and> bs_size b' = bs_size b \<and> members b' \<subseteq> members b"
proof (cases "container_index e = container_index s")
  case True
  then show ?thesis
    using assms fetch_op_and by (fastforce simp: AtomicBitset_ResetRange_def Let_def bind_eq_Some_conv)
next
  case False
  then obtain m m' x y b1 d b2 where b1: "fetch_op (\<lambda>w. w AND m) (container_index s) b = Some (x, b1)"
    and d: "bs_data b1 = Some d" and b2: "b2 = b1\<lparr>bs_data := Some (store_zero (unat (container_index s + 1)) (unat (container_index e)) d)\<rparr>"
    and b3: "fetch_op (\<lambda>w. w AND m') (container_index e) b2 = Some (y, b')"
    using assms(1) by (auto simp: AtomicBitset_ResetRange_def Let_def bind_eq_Some_conv)
  note w1 = fetch_op_and [OF b1 assms(2)]
  then have w2: "bitset_wf b2 \<and> members b2 \<subseteq> members b1" unfolding b2 using store_zero_shrink [OF d] by blast
  then have "bitset_wf b' \<and> bs_data b' \<noteq> None \<and> bs_size b' = bs_size b2 \<and> members b' \<subseteq> members b2"
    using fetch_op_and [OF b3] by blast
  then show ?thesis using w1 w2 b2 by auto
qed

lemma reset_range_ok:
  assumes "tb_inv paint blank tb" "reset_range r tb = Some tb'"
  shows "tb_inv paint blank tb'"
proof -
  obtain v where v: "AtomicBitset_ResetRange (ucast (index_start r)) (ucast (index_end r)) (valid_tile tb) = Some v"
    "tb' = tb\<lparr>valid_tile := v\<rparr>" using assms(2) by (auto simp: reset_range_def)
  have "bitset_wf (valid_tile tb)" using assms(1) tb_wfD(1) [of tb] by (simp add: tb_inv_def)
  then show ?thesis using ResetRange_shrink [OF v(1)] tb_inv_shrink [OF assms(1)] v(2) by simp
qed

text \<open>The states a buffer can be in: the operations in any order, each as a whole.\<close>

inductive tb_reach :: "(int \<times> int \<times> int \<times> int \<Rightarrow> 'p \<Rightarrow> 'p) \<Rightarrow> 'p \<Rightarrow> 'p \<Rightarrow> 'p TileBuffer \<Rightarrow> bool"
  for paint blank raw where
  init: "tb_reach paint blank raw (TileBuffer_init raw)"
| resize: "tb_reach paint blank raw tb \<Longrightarrow> TileBuffer_Resize w h s tb = Some tb' \<Longrightarrow>
    unat (tb_columns tb') * unat (tb_rows tb') + 1 < 2 ^ 32 \<Longrightarrow> tb_reach paint blank raw tb'"
| paint: "tb_reach paint blank raw tb \<Longrightarrow> \<not> TileBuffer_IsEmpty tb \<Longrightarrow>
    TileBuffer_PaintTile paint blank id id cancelled i context_hash tb = Some (r, tb') \<Longrightarrow> tb_reach paint blank raw tb'"
| set_context: "tb_reach paint blank raw tb \<Longrightarrow> tb_reach paint blank raw (SetActiveContext h tb)"
| invalidate_all: "tb_reach paint blank raw tb \<Longrightarrow> InvalidateAllTiles tb = Some tb' \<Longrightarrow> tb_reach paint blank raw tb'"
| invalidate: "tb_reach paint blank raw tb \<Longrightarrow> unat i < unat (bs_size (valid_tile tb)) \<Longrightarrow>
    InvalidateTile_index i tb = Some tb' \<Longrightarrow> tb_reach paint blank raw tb'"
| reset: "tb_reach paint blank raw tb \<Longrightarrow> reset_range rng tb = Some tb' \<Longrightarrow> tb_reach paint blank raw tb'"
| scroll: "tb_reach paint blank raw tb \<Longrightarrow> SetYPosition y tb = Some tb' \<Longrightarrow> tb_reach paint blank raw tb'"

lemma other_ok_id: "other_ok paint blank i id"
  by (simp add: other_ok_def same_slot_def same_grid_def)

lemma SetYPosition_ok: "tb_inv paint blank tb \<Longrightarrow> SetYPosition y tb = Some tb' \<Longrightarrow> tb_inv paint blank tb'"
  by (auto simp: tb_inv_def tb_wf_def images_ok_def SetYPosition_def tile_twips_def IndexToCoord_def)


section \<open>Concrete buffers\<close>

lemma f32_of_int_small: "\<bar>i\<bar> < 2 ^ 24 \<Longrightarrow> f32_of_int i = Fin (of_int i)"
  unfolding f32_of_int_def by (intro round32_exact representable_int) simp_all

text \<open>At scale 1 a tile is 3840 twips wide, and its position is exact.\<close>

lemma tile_twips_scale_1:
  assumes "tb_scale tb = Fin 1" "tb_columns tb \<noteq> 0"
    and c: "uint (i mod tb_columns tb) < 2 ^ 12" and r: "uint (i div tb_columns tb) < 2 ^ 12"
  shows "tile_twips tb i = Some (3840 * uint (i mod tb_columns tb), 3840 * uint (i div tb_columns tb), 3840, 3840)"
proof -
  have twip: "fp_to_int32 (PixelToTwip (f32_of_int (256 * n)) (Fin 1)) = Some (3840 * n)" if "0 \<le> n" "n < 2 ^ 12" for n
  proof -
    have "round32 (of_int (256 * n)) = Fin (of_int (256 * n))" "round32 (of_int (3840 * n)) = Fin (of_int (3840 * n))"
      using that by (intro round32_exact representable_int; simp)+
    then have "PixelToTwip (f32_of_int (256 * n)) (Fin 1) = Fin (of_int (3840 * n))"
      by (simp add: PixelToTwip_def kTwipPerPx_def f32_of_int_def)
    moreover have "rat_trunc (of_int (3840 * n)) = 3840 * n" using that by (simp only: rat_trunc_def floor_of_int ceiling_of_int if_cancel)
    ultimately show ?thesis using that by (simp add: fp_to_int32_def int32_min_def int32_max_def)
  qed
  have chk: "int_checked (256 * n) = Some (256 * n)" if "0 \<le> n" "n < 2 ^ 12" for n
    using that by (intro int_checked_Some) (simp_all add: int32_min_def int32_max_def)
  have small: "int32 n = n" if "0 \<le> n" "n < 2 ^ 12" for n
    using that by (simp add: int32_id int32_min_def int32_max_def)
  show ?thesis
    using assms twip [of "uint (i mod tb_columns tb)"] twip [of "uint (i div tb_columns tb)"] twip [of 1]
    by (simp add: tile_twips_def IndexToCoord_def kTileSizePx_def small chk)
qed

definition sample_buffer :: "'p \<Rightarrow> 'p TileBuffer" where
  "sample_buffer raw = (TileBuffer_init raw)\<lparr>tb_columns := 2, tb_rows := 3, valid_tile := AtomicBitset_make 7\<rparr>"

lemma sample_buffer_inv: "tb_inv paint blank (sample_buffer raw)"
  by (simp add: tb_inv_def tb_wf_def images_ok_def sample_buffer_def TileBuffer_init_def make_wf)

lemma sample_buffer_twips: "tile_twips (sample_buffer raw) 3 = Some (3840, 3840, 3840, 3840)"
  using tile_twips_scale_1 [of "sample_buffer raw" 3] by (simp add: sample_buffer_def TileBuffer_init_def)

section \<open>Properties\<close>




text \<open>As long as the columns are not empty, tile coordinates and tile indices translate back and
  forth: a column inside the grid and a row whose index does not overflow survive the round
  trip, and every index survives the one in the other direction.\<close>

theorem CoordToIndex_round_trip:
  assumes "tb_columns tb \<noteq> 0"
  shows "(c < tb_columns tb \<and> unat r * unat (tb_columns tb) + unat c < 2 ^ 32 \<longrightarrow>
      IndexToCoord tb (CoordToIndex (tb_columns tb) c r) = Some (c, r)) \<and>
    (\<exists>c' r'. IndexToCoord tb i = Some (c', r') \<and> c' < tb_columns tb \<and> CoordToIndex (tb_columns tb) c' r' = i)"
proof
  show "c < tb_columns tb \<and> unat r * unat (tb_columns tb) + unat c < 2 ^ 32 \<longrightarrow>
      IndexToCoord tb (CoordToIndex (tb_columns tb) c r) = Some (c, r)"
  proof
    assume a: "c < tb_columns tb \<and> unat r * unat (tb_columns tb) + unat c < 2 ^ 32"
    then have n: "unat (r * tb_columns tb + c) = unat r * unat (tb_columns tb) + unat c"
      by (simp add: unat_word_ariths)
    from a have c: "unat c < unat (tb_columns tb)" by (simp add: word_less_nat_alt)
    have "(r * tb_columns tb + c) mod tb_columns tb = c"
      using n c by (simp add: word_unat_eq_iff unat_mod)
    moreover have "(r * tb_columns tb + c) div tb_columns tb = r"
      using n c by (simp add: word_unat_eq_iff unat_div)
    ultimately show "IndexToCoord tb (CoordToIndex (tb_columns tb) c r) = Some (c, r)"
      using assms by (simp add: IndexToCoord_def CoordToIndex_def)
  qed
  show "\<exists>c' r'. IndexToCoord tb i = Some (c', r') \<and> c' < tb_columns tb \<and> CoordToIndex (tb_columns tb) c' r' = i"
    using assms word_mod_less_divisor [of "tb_columns tb" i] word_gt_0 [of "tb_columns tb"]
    by (simp add: IndexToCoord_def CoordToIndex_def word_mod_div_equality)
qed

theorem CoordToIndex_round_trip_witness:
  "IndexToCoord (sample_buffer ()) (CoordToIndex 2 1 2) = Some (1, 2) \<and>
   (\<exists>c r. IndexToCoord (sample_buffer ()) 5 = Some (c, r) \<and> c < 2 \<and> CoordToIndex 2 c r = 5)"
  using CoordToIndex_round_trip [of "sample_buffer ()" 1 2 5] by (simp add: sample_buffer_def TileBuffer_init_def)

section \<open>The remaining invalid ranges\<close>

lemma remaining_step_ok:
  assumes wf: "tb_wf tb" and i: "unat i < unat (bs_size (valid_tile tb))"
    and res: "ranges_ok res" "\<forall>r \<in> set res. unat (index_end r) < unat (bs_size (valid_tile tb))"
  shows "\<exists>res'. remaining_step tb i res = Some res' \<and> ranges_ok res' \<and>
    (\<forall>r \<in> set res'. unat (index_end r) < unat (bs_size (valid_tile tb))) \<and>
    cover res' = cover res \<union> (if unat i \<in> members (valid_tile tb) then {} else {i})"
proof -
  have set: "AtomicBitset_IsSet (ucast i) (valid_tile tb) = Some (unat i \<in> members (valid_tile tb))"
    using IsSet_eq [OF tb_wfD(1) [OF wf], of "ucast i"] i by (simp add: ucast_u32_u64)
  have "resident tb i" if "unat i \<in> members (valid_tile tb)"
    using tb_wfD(8) [OF wf that] by (simp add: resident_iff unsigned_word_eqI)
  then have run: "remaining_step tb i res =
      Some (if unat i \<in> members (valid_tile tb) then res
            else if res \<noteq> [] \<and> index_end (last res) = i - 1 then butlast res @ [(last res)\<lparr>index_end := i\<rparr>]
            else res @ [tile_range i i])"
    by (auto simp: remaining_step_def set)
  show ?thesis
  proof (cases "unat i \<notin> members (valid_tile tb) \<and> res \<noteq> [] \<and> index_end (last res) = i - 1")
    case False
    then show ?thesis unfolding run using res i by (auto simp: range_ok_def tiles_def)
  next
    case True
    define rs where "rs = butlast res"
    define l where "l = last res"
    have split: "res = rs @ [l]" using True by (simp add: rs_def l_def)
    have "range_ok l" "unat (index_end l) < unat (bs_size (valid_tile tb))" using res unfolding split by simp_all
    moreover have "index_end l = i - 1" using True by (simp add: l_def)
    ultimately have l: "index_end l = i - 1" "index_start l \<le> i - 1" "unat (index_end l) < unat (bs_size (valid_tile tb))"
      by (simp_all add: range_ok_def)
    have "i \<noteq> 0"
      using l(1,3) tb_wfD(6,9) [OF wf] by (auto simp: unsigned_minus_1_eq_mask mask_eq_exp_minus_1)
    then have pred: "unat (i - 1) = unat i - 1" "0 < unat i" by (simp_all add: unat_minus_one unat_gt_0)
    have le: "index_start l \<le> i" using l(2) pred by (simp add: word_le_nat_alt)
    have "x \<in> tiles (l\<lparr>index_end := i\<rparr>) \<longleftrightarrow> x \<in> insert i (tiles l)" for x
      using pred l(1) le by (auto simp: tiles_def word_le_nat_alt word_unat_eq_iff)
    then have "tiles (l\<lparr>index_end := i\<rparr>) = insert i (tiles l)" by blast
    moreover note le
    moreover have "remaining_step tb i res = Some (rs @ [l\<lparr>index_end := i\<rparr>])" using True by (simp add: run rs_def l_def)
    ultimately show ?thesis using True res i unfolding split by (auto simp: range_ok_def)
  qed
qed

lemma remaining_loop_ok:
  assumes wf: "tb_wf tb" and "\<forall>i \<in> set is. unat i < unat (bs_size (valid_tile tb))"
    and "ranges_ok res" "\<forall>r \<in> set res. unat (index_end r) < unat (bs_size (valid_tile tb))"
  shows "\<exists>res'. remaining_loop tb is res = Some res' \<and> ranges_ok res' \<and>
    cover res' = cover res \<union> {i \<in> set is. unat i \<notin> members (valid_tile tb)}"
  using assms(2-)
proof (induction "is" arbitrary: res)
  case (Cons i js)
  obtain res1 where r1: "remaining_step tb i res = Some res1" "ranges_ok res1"
    "\<forall>r \<in> set res1. unat (index_end r) < unat (bs_size (valid_tile tb))"
    "cover res1 = cover res \<union> (if unat i \<in> members (valid_tile tb) then {} else {i})"
    using remaining_step_ok [OF wf, of i res] Cons.prems by auto
  obtain res' where "remaining_loop tb js res1 = Some res'" "ranges_ok res'"
    "cover res' = cover res1 \<union> {i \<in> set js. unat i \<notin> members (valid_tile tb)}"
    using Cons.IH [of res1] Cons.prems r1 by auto
  with r1 show ?case by auto
qed simp

lemma range_indices_set:
  assumes "unat (bs_size (valid_tile tb)) \<le> 2 ^ 32"
  shows "set (range_indices tb r) = {i \<in> tiles r. unat i < unat (bs_size (valid_tile tb))}"
proof (intro set_eqI iffI)
  fix i
  assume "i \<in> set (range_indices tb r)"
  then obtain n where n: "i = of_nat n" "unat (index_start r) \<le> n" "n \<le> unat (index_end r)" "n < unat (bs_size (valid_tile tb))"
    by (auto simp: range_indices_def)
  then have "unat i = n" using unat_u32_less [of "index_end r"] by (simp add: unat_of_nat)
  with n show "i \<in> {i \<in> tiles r. unat i < unat (bs_size (valid_tile tb))}" by (simp add: tiles_def word_le_nat_alt)
next
  fix i
  assume "i \<in> {i \<in> tiles r. unat i < unat (bs_size (valid_tile tb))}"
  then have "unat i \<in> set [unat (index_start r) ..< min (Suc (unat (index_end r))) (unat (bs_size (valid_tile tb)))]"
    by (auto simp: tiles_def word_le_nat_alt)
  then have "of_nat (unat i) \<in> set (range_indices tb r)" unfolding range_indices_def set_map by (rule imageI)
  then show "i \<in> set (range_indices tb r)" by simp
qed

lemma InvalidRangesRemaining_spec:
  assumes "tb_wf tb"
  shows "\<exists>res. InvalidRangesRemaining tb rs = Some res \<and> separated res \<and> ranges_ok res \<and>
    cover res = {i \<in> cover rs. unat i < unat (bs_size (valid_tile tb)) \<and> unat i \<notin> members (valid_tile tb)}"
proof -
  let ?is = "concat (map (range_indices tb) rs)"
  have size: "unat (bs_size (valid_tile tb)) \<le> 2 ^ 32" using tb_wfD(6,9) [OF assms] by simp
  then have set: "set ?is = {i \<in> cover rs. unat i < unat (bs_size (valid_tile tb))}"
    by (auto simp: range_indices_set cover_def)
  obtain res where "remaining_loop tb ?is [] = Some res" "ranges_ok res"
    "cover res = {i \<in> set ?is. unat i \<notin> members (valid_tile tb)}"
    using remaining_loop_ok [OF assms, of ?is "[]"] set by auto
  then show ?thesis
    using SimplifyRanges_spec [of res] set by (auto simp: InvalidRangesRemaining_def)
qed

text \<open>InvalidRangesRemaining returns disjoint ranges in increasing order that cover exactly the
  tiles of the requested ranges inside the grid that still have to be painted.\<close>

theorem InvalidRangesRemaining_correct:
  assumes "tb_wf tb"
  shows "\<exists>res. InvalidRangesRemaining tb rs = Some res \<and> separated res \<and> ranges_ok res \<and>
    cover res = {i \<in> cover rs. unat i < unat (bs_size (valid_tile tb)) \<and> unat i \<notin> members (valid_tile tb)}"
  using InvalidRangesRemaining_spec [OF assms] .

theorem InvalidRangesRemaining_correct_witness:
  "\<exists>res. InvalidRangesRemaining (sample_buffer ()) [tile_range 4 9, tile_range 0 1] = Some res \<and> separated res \<and> ranges_ok res \<and>
    cover res = {i \<in> {4..9} \<union> {0..1}. unat i < 7}"
proof -
  have "tb_wf (sample_buffer ())" using sample_buffer_inv [of "\<lambda>_ _. ()"] by (simp add: tb_inv_def)
  then show ?thesis
    using InvalidRangesRemaining_correct [of "sample_buffer ()" "[tile_range 4 9, tile_range 0 1]"]
    by (simp add: sample_buffer_def tiles_def)
qed

section \<open>Rows in view\<close>

lemma unat_min: "unat (min a b :: u32) = min (unat a) (unat b)"
  by (simp add: min_def word_le_nat_alt)

lemma unat_minus_one_pos: "0 < unat x \<Longrightarrow> unat (x - 1 :: u32) = unat x - 1"
  by (cases "x = 0") (simp_all add: unat_minus_one)

lemma floor_256: "\<lfloor>of_int n / 256 :: rat\<rfloor> = n div 256"
  using floor_divide_of_int_eq [of n 256] by simp

lemma ceiling_256: "\<lceil>of_int n / 256 :: rat\<rceil> = (n + 255) div 256"
proof -
  have "\<lceil>of_int n / of_int 256 :: rat\<rceil> = - (- n div 256)" by (rule ceiling_divide_eq_div)
  then show ?thesis by simp
qed

lemma LimitRange_rows:
  assumes "0 \<le> y" "y \<le> int32_max"
  shows "unat (rl_start (LimitRange y h)) = nat y div 256"
    "unat (rl_end (LimitRange y h)) = nat y div 256 + (unat h + 255) div 256"
proof -
  have y: "nat y div 256 < 2 ^ 23" using assms by (simp add: int32_max_def nat_less_iff less_mult_imp_div_less)
  then have start: "uint (word_of_int (y div 256) :: u32) = y div 256"
    using assms by (simp add: unsigned_of_int take_bit_int_eq_self int32_max_def)
  have h: "(unat h + 255) div 256 < 2 ^ 25" using unat_u32_less [of h] by (simp add: less_mult_imp_div_less)
  have "(uint h + 255) div 256 = int ((unat h + 255) div 256)" by (simp add: zdiv_int)
  moreover have "y div 256 = int (nat y div 256)" using assms by (simp add: zdiv_int)
  ultimately have e: "word_of_int (y div 256 + (uint h + 255) div 256) = (of_nat (nat y div 256 + (unat h + 255) div 256) :: u32)"
    by simp
  have "unat (word_of_int (y div 256 + (uint h + 255) div 256) :: u32) = nat y div 256 + (unat h + 255) div 256"
    unfolding e using y h by (intro unat_of_nat_u32) simp
  moreover have "unat (word_of_int (y div 256) :: u32) = nat y div 256"
    using start by (simp add: nat_div_distrib assms flip: nat_uint_eq)
  ultimately show "unat (rl_start (LimitRange y h)) = nat y div 256"
    "unat (rl_end (LimitRange y h)) = nat y div 256 + (unat h + 255) div 256"
    using assms unfolding LimitRange_def floor_256 ceiling_256 Let_def
    by (simp_all add: start max_def word_le_nat_alt)
qed

text \<open>The rows within one view height of the view at \<open>y\<close>.\<close>

definition scroll_row :: "int \<Rightarrow> u32 \<Rightarrow> u32 \<Rightarrow> bool" where
  "scroll_row y h r \<longleftrightarrow> nat (y - uint h) div 256 \<le> unat r \<and> unat r \<le> nat (y - uint h) div 256 + (3 * unat h + 255) div 256"

text \<open>For a buffer with tiles, NextScrollTileRange is a proper range inside the grid that contains
  every tile of the rows in view after the scroll, with one view height before and after.\<close>

lemma NextScrollTileRange_spec:
  assumes grid: "tb_columns tb \<noteq> 0" "tb_rows tb \<noteq> 0" "unat (tb_columns tb) * unat (tb_rows tb) < 2 ^ 32"
    and y: "0 \<le> y" "y \<le> int32_max" and h: "unat h < 2 ^ 30"
  shows "\<exists>rng. NextScrollTileRange tb y h = Some rng \<and> range_ok rng \<and>
    unat (index_end rng) < unat (tb_columns tb) * unat (tb_rows tb) \<and>
    (\<forall>c r. c < tb_columns tb \<longrightarrow> r < tb_rows tb \<longrightarrow> scroll_row y h r \<longrightarrow> CoordToIndex (tb_columns tb) c r \<in> tiles rng)"
proof -
  define C where "C = unat (tb_columns tb)"
  define R where "R = unat (tb_rows tb)"
  have CR: "0 < C" "0 < R" "C * R < 2 ^ 32" using grid by (simp_all add: C_def R_def unat_gt_0)
  define y' where "y' = max 0 (y - uint h)"
  have "0 \<le> uint h" by simp
  then have "y - uint h \<le> int32_max" using y by linarith
  then have y': "0 \<le> y'" "y' \<le> int32_max" "nat y' = nat (y - uint h)" using y by (auto simp: y'_def max_def)
  have h3: "unat (h * 3) = 3 * unat h" using h by (simp add: unat_word_ariths)
  have "int (unat h) < int (2 ^ 30)" using h by (simp only: of_nat_less_iff)
  then have hu: "uint h < 1073741824" "0 \<le> uint h" by simp_all
  have lim32: "int32_min = - 2147483648" "int32_max = 2147483647" by (simp_all add: int32_min_def int32_max_def)
  have hint: "int32 (uint h) = uint h" by (rule int32_id) (use hu lim32 in linarith)+
  have chk: "int_checked (y - int32 (uint h)) = Some (y - uint h)"
    unfolding hint by (rule int_checked_Some) (use hu y lim32 in linarith)+
  define s where "s = unat (rl_start (LimitRange y' (h * 3)))"
  define e where "e = unat (rl_end (LimitRange y' (h * 3)))"
  have se: "s = nat (y - uint h) div 256" "e = nat (y - uint h) div 256 + (3 * unat h + 255) div 256"
    using LimitRange_rows [OF y'(1,2), of "h * 3"] by (simp_all add: s_def e_def y'(3) h3)
  have rows1: "unat (tb_rows tb - 1) = R - 1" using grid by (simp add: R_def unat_minus_one)
  have below: "n * C + C \<le> C * R" if "n \<le> R - 1" for n
  proof -
    have "Suc n * C \<le> R * C" using that CR by (intro mult_le_mono1) simp
    then show ?thesis by (simp add: mult.commute)
  qed
  let ?a = "min (rl_start (LimitRange y' (h * 3))) (tb_rows tb - 1) * tb_columns tb"
  let ?b = "min (rl_end (LimitRange y' (h * 3))) (tb_rows tb - 1) * tb_columns tb + tb_columns tb - 1"
  have a: "unat ?a = min s (R - 1) * C"
    using below [of "min s (R - 1)"] CR by (simp add: unat_word_ariths unat_min rows1 s_def C_def)
  have b: "unat ?b = min e (R - 1) * C + C - 1"
    using below [of "min e (R - 1)"] CR by (simp add: unat_minus_one_pos unat_word_ariths unat_min rows1 e_def C_def)
  have "unat (tb_columns tb * tb_rows tb) = C * R" using CR by (simp add: unat_word_ariths C_def R_def)
  then have lim: "unat (tb_columns tb * tb_rows tb - 1) = C * R - 1" using CR by (simp add: unat_minus_one_pos)
  have ab: "unat (min ?a (tb_columns tb * tb_rows tb - 1)) = min s (R - 1) * C"
    "unat (min ?b (tb_columns tb * tb_rows tb - 1)) = min e (R - 1) * C + C - 1"
    using below [of "min s (R - 1)"] below [of "min e (R - 1)"] CR by (auto simp: unat_min a b lim)
  have tile_in: "min s (R - 1) * C \<le> unat (CoordToIndex (tb_columns tb) c r) \<and>
      unat (CoordToIndex (tb_columns tb) c r) \<le> min e (R - 1) * C + C - 1"
    if tile: "c < tb_columns tb" "r < tb_rows tb" "scroll_row y h r" for c r
  proof -
    have row: "s \<le> unat r" "unat r \<le> e" using tile(3) se by (simp_all add: scroll_row_def)
    have rc: "unat r \<le> R - 1" "unat c < C" using tile(1,2) by (simp_all add: R_def C_def word_less_nat_alt)
    then have "unat r * C + unat c < 2 ^ 32" using below [of "unat r"] CR by linarith
    then have "unat (CoordToIndex (tb_columns tb) c r) = unat r * C + unat c"
      by (simp add: CoordToIndex_def unat_word_ariths C_def)
    moreover have "min s (R - 1) * C \<le> unat r * C" "unat r * C \<le> min e (R - 1) * C"
      using row rc(1) by (intro mult_le_mono1; simp)+
    ultimately show ?thesis using rc(2) by linarith
  qed
  have "s \<le> e" by (simp add: se)
  then have "min s (R - 1) * C \<le> min e (R - 1) * C" by (intro mult_le_mono1 min.mono) simp_all
  moreover have "min e (R - 1) * C + C - 1 < C * R" using below [of "min e (R - 1)"] CR by simp
  ultimately have ends: "min s (R - 1) * C \<le> min e (R - 1) * C + C - 1" "min e (R - 1) * C + C - 1 < C * R"
    using CR by linarith+
  let ?rng = "tile_range (min ?a (tb_columns tb * tb_rows tb - 1)) (min ?b (tb_columns tb * tb_rows tb - 1))"
  have "(if 0 < w then w else 0) = w" for w :: u32 by (simp add: word_gt_0)
  then have run: "NextScrollTileRange tb y h = Some ?rng"
    by (simp only: NextScrollTileRange_def chk Let_def y'_def bind.simps)
  have "range_ok ?rng \<and> unat (index_end ?rng) < C * R"
    using ends by (simp only: range_ok_def TileRange.simps word_le_nat_alt ab)
  moreover have "CoordToIndex (tb_columns tb) c r \<in> tiles ?rng" if "c < tb_columns tb" "r < tb_rows tb" "scroll_row y h r" for c r
    using tile_in [OF that] by (simp only: tiles_def atLeastAtMost_iff TileRange.simps word_le_nat_alt ab)
  ultimately show ?thesis unfolding run C_def R_def by blast
qed

end
