(* ===== verification/Cancellation_Flag.thy ===== *)
theory Cancellation_Flag
  imports Prelude
begin

text \<open>
  office/cancellation_flag.h: reference-counted flags that cancel paint tasks. The heap of flags
  is a list, a flag pointer is null or an index into it, so that two holders of one pointer see
  the same flag. A flag is never cleared (\<open>base::AtomicFlag\<close> has no reset), and a flag that is
  no longer referenced simply stays in the list.
\<close>

type_synonym flag_heap = "bool list"
type_synonym CancelFlagPtr = "nat option"

definition CancelFlag_Create :: "flag_heap \<Rightarrow> CancelFlagPtr \<times> flag_heap" where
  "CancelFlag_Create h = (Some (length h), h @ [False])"

fun CancelFlag_IsCancelled :: "flag_heap \<Rightarrow> CancelFlagPtr \<Rightarrow> bool" where
  "CancelFlag_IsCancelled h None = False"
| "CancelFlag_IsCancelled h (Some a) = h ! a"

fun CancelFlag_Set :: "CancelFlagPtr \<Rightarrow> flag_heap \<Rightarrow> flag_heap" where
  "CancelFlag_Set None h = h"
| "CancelFlag_Set (Some a) h = h[a := True]"

text \<open>The pointer is passed by reference: its new value is returned.\<close>

definition CancelFlag_CancelAndReset :: "CancelFlagPtr \<Rightarrow> flag_heap \<Rightarrow> CancelFlagPtr \<times> flag_heap" where
  "CancelFlag_CancelAndReset flag h = CancelFlag_Create (CancelFlag_Set flag h)"

definition flag_ok :: "flag_heap \<Rightarrow> CancelFlagPtr \<Rightarrow> bool" where
  "flag_ok h flag \<longleftrightarrow> (case flag of None \<Rightarrow> True | Some a \<Rightarrow> a < length h)"

lemma CancelAndReset_fresh:
  assumes "CancelFlag_CancelAndReset flag h = (flag', h')"
  shows "flag' = Some (length h)" "length h' = Suc (length h)" "flag_ok h' flag'"
    "\<not> CancelFlag_IsCancelled h' flag'"
  using assms
  by (cases flag; auto simp: CancelFlag_CancelAndReset_def CancelFlag_Create_def flag_ok_def nth_append)+

lemma CancelAndReset_old:
  assumes "CancelFlag_CancelAndReset flag h = (flag', h')" "flag_ok h g"
  shows "CancelFlag_IsCancelled h' g \<longleftrightarrow> CancelFlag_IsCancelled h g \<or> g = flag \<and> flag \<noteq> None"
  using assms
  by (cases flag; cases g)
     (auto simp: CancelFlag_CancelAndReset_def CancelFlag_Create_def flag_ok_def nth_append nth_list_update,
      metis nth_list_update_eq nth_list_update_neq)

text \<open>CancelAndReset cancels every holder of the old flag and nobody else, and the fresh flag
  it installs is different from every existing one and not cancelled.\<close>

theorem CancelAndReset_correct:
  assumes "CancelFlag_CancelAndReset flag h = (flag', h')" "flag_ok h g"
  shows "(CancelFlag_IsCancelled h' g \<longleftrightarrow> CancelFlag_IsCancelled h g \<or> g = flag \<and> flag \<noteq> None) \<and>
    \<not> CancelFlag_IsCancelled h' flag' \<and> flag' \<noteq> g \<and> flag_ok h' flag' \<and> flag_ok h' g"
  using CancelAndReset_fresh [OF assms(1)] CancelAndReset_old [OF assms] assms(2)
  by (auto simp: flag_ok_def split: option.splits)

theorem CancelAndReset_correct_witness:
  "(CancelFlag_IsCancelled [False, True, False] (Some 0) \<longleftrightarrow> CancelFlag_IsCancelled [False, False] (Some 0) \<or> Some (0 :: nat) = Some 1) \<and>
   \<not> CancelFlag_IsCancelled [False, True, False] (Some 2) \<and> Some (2 :: nat) \<noteq> Some 0"
  using CancelAndReset_correct [of "Some 1" "[False, False]" "Some 2" "[False, True, False]" "Some 0"]
  by (simp add: CancelFlag_CancelAndReset_def CancelFlag_Create_def flag_ok_def)

end
