(* ===== verification/Paint_Manager.thy ===== *)
theory Paint_Manager
  imports Tile_Buffer Cancellation_Flag Document_Holder
begin

text \<open>
  office/paint_manager.h and paint_manager.cc: the scheduling of paint tasks. The state is the
  manager with what it shares with its surroundings: the heap of cancellation flags, the
  client's tile buffer, the paint jobs posted to the thread pool and the barriers made for them.
  The hashes of pointers and floats are parameters.
\<close>

section \<open>State\<close>

record Task =
  task_document :: DocumentHolderWithView
  task_y_pos :: int
  task_view_height :: int
  task_scale :: fp
  task_full_paint :: bool
  task_tile_ranges :: "TileRange list"
  skip_paint_flag :: CancelFlagPtr
  skip_invalidation_flag :: CancelFlagPtr

text \<open>A call of \<open>PaintTileRange\<close> bound and posted to the pool.\<close>

record PaintJob =
  job_cancel_flag :: CancelFlagPtr
  job_document :: DocumentHolderWithView
  job_range :: TileRange
  job_context_hash :: u64
  job_barrier :: nat

text \<open>A barrier closure: the number of runs it waits for and the flags its closure checks.\<close>

record Barrier =
  barrier_count :: u64
  barrier_task_flag :: CancelFlagPtr
  barrier_manager_flag :: CancelFlagPtr

record 'p PaintManager =
  pm_flags :: flag_heap
  pm_tile_buffer :: "'p TileBuffer option"
  pm_jobs :: "PaintJob list"
  pm_barriers :: "Barrier list"
  skip_render :: bool
  current_task :: "Task option"
  next_task :: "Task option"
  cancel_invalidate :: CancelFlagPtr

text \<open>The hash functions of the standard library.\<close>

record hashes =
  hash_ptr :: "nat option \<Rightarrow> u64"
  hash_float :: "fp \<Rightarrow> u64"

section \<open>Tasks\<close>

definition make_task ::
  "DocumentHolderWithView \<Rightarrow> int \<Rightarrow> int \<Rightarrow> fp \<Rightarrow> bool \<Rightarrow> TileRange list \<Rightarrow> 'p PaintManager \<Rightarrow> Task \<times> 'p PaintManager" where
  "make_task document y_pos view_height scale full_paint tile_ranges st =
     (let (f, h1) = CancelFlag_Create (pm_flags st); (g, h2) = CancelFlag_Create h1
      in (\<lparr>task_document = document, task_y_pos = y_pos, task_view_height = view_height, task_scale = scale,
           task_full_paint = full_paint, task_tile_ranges = tile_ranges, skip_paint_flag = f,
           skip_invalidation_flag = g\<rparr>,
          st\<lparr>pm_flags := h2\<rparr>))"

definition ContextHash :: "hashes \<Rightarrow> Task \<Rightarrow> u64" where
  "ContextHash hs t = hash_ptr hs (holder (task_document t)) XOR push_bit 1 (hash_float hs (task_scale t))"

text \<open>The sums of positions and heights are \<open>int\<close> additions.\<close>

definition CanMergeWith :: "Task \<Rightarrow> Task \<Rightarrow> bool option" where
  "CanMergeWith this other =
     (if \<not> (dh_eq (task_document this) (task_document other) \<and>
            fp_less (fp_abs (f32_sub (task_scale other) (task_scale this))) scale_epsilon) then Some False
      else if \<not> task_y_pos this \<le> task_y_pos other then Some False
      else do {
        bottom \<leftarrow> int_checked (task_y_pos this + task_view_height this);
        if \<not> task_y_pos other < bottom then Some False
        else if \<not> task_y_pos other \<le> task_y_pos this then Some False
        else do {
          other_bottom \<leftarrow> int_checked (task_y_pos other + task_view_height other);
          Some (task_y_pos this < other_bottom) } })"

text \<open>
  \<open>MergeWith\<close> another task: its coordinates and document are taken over, the ranges of this one
  are clipped to its view. No call site of the module uses this overload.
\<close>

definition MergeWith_task :: "Task \<Rightarrow> Task \<Rightarrow> 'p TileBuffer \<Rightarrow> 'p PaintManager \<Rightarrow> Task \<times> 'p PaintManager" where
  "MergeWith_task this other tile_buffer =
     (let clipped_ranges = ClipRanges (task_tile_ranges this)
            (LimitIndex tile_buffer (task_y_pos other) (word_of_int (task_view_height other))) @ task_tile_ranges other
      in make_task (task_document other) (task_y_pos other) (task_view_height other) (task_scale other)
           (task_full_paint this \<or> task_full_paint other) (SimplifyRanges clipped_ranges))"

definition MergeWith :: "Task \<Rightarrow> TileRange list \<Rightarrow> 'p TileBuffer \<Rightarrow> 'p PaintManager \<Rightarrow> Task \<times> 'p PaintManager" where
  "MergeWith this tile_ranges tile_buffer =
     (let limit = LimitIndex tile_buffer (task_y_pos this) (word_of_int (task_view_height this));
          clipped_ranges = ClipRanges (task_tile_ranges this @ tile_ranges) limit
      in make_task (task_document this) (task_y_pos this) (task_view_height this) (task_scale this)
           (task_full_paint this \<or> task_full_paint this) (SimplifyRanges clipped_ranges))"

section \<open>The manager\<close>

definition PaintManager_init :: "flag_heap \<Rightarrow> 'p TileBuffer option \<Rightarrow> 'p PaintManager" where
  "PaintManager_init h tb =
     (let (f, h') = CancelFlag_Create h
      in \<lparr>pm_flags = h', pm_tile_buffer = tb, pm_jobs = [], pm_barriers = [], skip_render = False,
          current_task = None, next_task = None, cancel_invalidate = f\<rparr>)"

text \<open>The constructor that takes the tasks over from another manager of the same world.\<close>

definition PaintManager_transfer :: "'p PaintManager \<Rightarrow> 'p PaintManager" where
  "PaintManager_transfer other =
     (let (f, h') = CancelFlag_Create (pm_flags other)
      in other\<lparr>pm_flags := h', skip_render := False, cancel_invalidate := f\<rparr>)"

definition PostCurrentTask :: "hashes \<Rightarrow> 'p PaintManager \<Rightarrow> 'p PaintManager" where
  "PostCurrentTask hs st =
     (case current_task st of
        None \<Rightarrow> st
      | Some t \<Rightarrow>
          if skip_render st \<or> CancelFlag_IsCancelled (pm_flags st) (cancel_invalidate st) then st
          else
            let post = (\<lambda>hash st1.
                  let simplified_ranges = SimplifyRanges (task_tile_ranges t);
                      b = length (pm_barriers st1)
                  in st1\<lparr>pm_barriers := pm_barriers st1 @
                           [\<lparr>barrier_count = TileCount simplified_ranges, barrier_task_flag = skip_invalidation_flag t,
                             barrier_manager_flag = cancel_invalidate st1\<rparr>],
                         pm_jobs := pm_jobs st1 @
                           map (\<lambda>it. \<lparr>job_cancel_flag = skip_paint_flag t, job_document = task_document t, job_range = it,
                                      job_context_hash = hash, job_barrier = b\<rparr>) simplified_ranges\<rparr>)
            in (case pm_tile_buffer st of
                  None \<Rightarrow> post 0 st
                | Some tile_buffer \<Rightarrow>
                    let hash = ContextHash hs t
                    in if TileBuffer_IsEmpty tile_buffer then st
                       else post hash (st\<lparr>pm_tile_buffer := Some (SetActiveContext hash tile_buffer)\<rparr>)))"

text \<open>The loop that compares the ranges of the current task with the first ranges of the next one.\<close>

fun same_ranges :: "TileRange list \<Rightarrow> TileRange list \<Rightarrow> bool" where
  "same_ranges [] n_it = True"
| "same_ranges (it # its) [] = False"
| "same_ranges (it # its) (n # n_it) = (it = n \<and> same_ranges its n_it)"

text \<open>
  The steps of \<open>ScheduleNextPaint\<close>: merge the given ranges, merge what is left of the current
  task, clip, replace the current task, post.
\<close>

definition merge_given :: "TileRange list \<Rightarrow> 'p PaintManager \<Rightarrow> 'p PaintManager" where
  "merge_given tile_ranges st =
     (case (pm_tile_buffer st, next_task st, current_task st) of
        (Some tb, Some n, _) \<Rightarrow>
          if tile_ranges \<noteq> [] then let (t, st1) = MergeWith n tile_ranges tb st in st1\<lparr>next_task := Some t\<rparr> else st
      | (Some tb, None, Some c) \<Rightarrow>
          if tile_ranges \<noteq> [] then let (t, st1) = MergeWith c tile_ranges tb st in st1\<lparr>next_task := Some t\<rparr> else st
      | _ \<Rightarrow> st)"

definition merge_remaining :: "'p PaintManager \<Rightarrow> 'p PaintManager option" where
  "merge_remaining st =
     (case (pm_tile_buffer st, next_task st, current_task st) of
        (Some tb, Some n, Some c) \<Rightarrow> do {
          merge \<leftarrow> CanMergeWith c n;
          if merge then do {
            remaining \<leftarrow> InvalidRangesRemaining tb (task_tile_ranges c);
            if remaining \<noteq> [] then let (t, st1) = MergeWith n remaining tb st in Some (st1\<lparr>next_task := Some t\<rparr>)
            else Some st }
          else Some st }
      | _ \<Rightarrow> Some st)"

text \<open>The tile buffer is dereferenced without a check.\<close>

definition clip_next :: "'p PaintManager \<Rightarrow> 'p PaintManager option" where
  "clip_next st =
     (case next_task st of
        None \<Rightarrow> Some st
      | Some n \<Rightarrow> do {
          tb \<leftarrow> pm_tile_buffer st;
          let (t, st1) = MergeWith n [] tb st;
          Some (st1\<lparr>next_task := Some t\<rparr>) })"

definition replace_current :: "'p PaintManager \<Rightarrow> 'p PaintManager" where
  "replace_current st =
     (let st1 =
        (case (current_task st, next_task st) of
           (Some c, Some n) \<Rightarrow>
             let is_same_task = dh_eq (task_document c) (task_document n) \<and> same_ranges (task_tile_ranges c) (task_tile_ranges n)
             in if \<not> is_same_task \<and> task_y_pos c \<noteq> task_y_pos n
                then st\<lparr>pm_flags := CancelFlag_Set (skip_invalidation_flag c) (CancelFlag_Set (skip_paint_flag c) (pm_flags st)),
                        current_task := None\<rparr>
                else st\<lparr>current_task := None\<rparr>
         | (Some c, None) \<Rightarrow> st\<lparr>current_task := None\<rparr>
         | _ \<Rightarrow> st)
      in st1\<lparr>current_task := next_task st1, next_task := current_task st1\<rparr>)"

definition ScheduleNextPaint :: "hashes \<Rightarrow> TileRange list \<Rightarrow> 'p PaintManager \<Rightarrow> (bool \<times> 'p PaintManager) option" where
  "ScheduleNextPaint hs tile_ranges st = do {
     st1 \<leftarrow> merge_remaining (merge_given tile_ranges st);
     st2 \<leftarrow> clip_next st1;
     let st3 = replace_current st2;
     Some (if current_task st3 \<noteq> None then (True, PostCurrentTask hs st3) else (False, st3)) }"

definition SchedulePaint ::
  "hashes \<Rightarrow> DocumentHolderWithView \<Rightarrow> int \<Rightarrow> int \<Rightarrow> fp \<Rightarrow> bool \<Rightarrow> TileRange list \<Rightarrow> 'p PaintManager \<Rightarrow> 'p PaintManager option" where
  "SchedulePaint hs document y_pos view_height scale full_paint tile_ranges st =
     (case current_task st of
        None \<Rightarrow>
          let (t, st1) = make_task document y_pos view_height scale full_paint tile_ranges st
          in Some (PostCurrentTask hs (st1\<lparr>current_task := Some t\<rparr>))
      | Some c \<Rightarrow>
          let (tile_ranges, full_paint) =
                (case next_task st of
                   Some n \<Rightarrow>
                     if dh_eq (task_document n) document
                     then let r1 = tile_ranges @ task_tile_ranges n; p1 = full_paint \<or> task_full_paint n
                          in if dh_eq (task_document c) document
                             then (r1 @ task_tile_ranges c, p1 \<or> task_full_paint c) else (r1, p1)
                     else (tile_ranges, full_paint)
                 | None \<Rightarrow> (tile_ranges, full_paint));
              (t, st1) = make_task document y_pos view_height scale full_paint (SimplifyRanges tile_ranges) st
          in map_option snd (ScheduleNextPaint hs [] (st1\<lparr>next_task := Some t\<rparr>)))"

definition OnDestroy :: "'p PaintManager \<Rightarrow> 'p PaintManager" where
  "OnDestroy st =
     (let (f, h) = CancelFlag_CancelAndReset (cancel_invalidate st) (pm_flags st)
      in st\<lparr>cancel_invalidate := f, pm_flags := h\<rparr>)"

definition cancel_task :: "Task option \<Rightarrow> flag_heap \<Rightarrow> flag_heap" where
  "cancel_task t h =
     (case t of None \<Rightarrow> h | Some t \<Rightarrow> CancelFlag_Set (skip_invalidation_flag t) (CancelFlag_Set (skip_paint_flag t) h))"

definition ClearTasks :: "'p PaintManager \<Rightarrow> 'p PaintManager" where
  "ClearTasks st =
     st\<lparr>pm_flags := cancel_task (next_task st) (cancel_task (current_task st) (pm_flags st)),
        current_task := None, next_task := None\<rparr>"

definition PausePaint :: "'p PaintManager \<Rightarrow> 'p PaintManager" where
  "PausePaint st = st\<lparr>skip_render := True\<rparr>"

definition ResumePaint :: "hashes \<Rightarrow> bool \<Rightarrow> 'p PaintManager \<Rightarrow> 'p PaintManager" where
  "ResumePaint hs paint_next st =
     (let st1 = st\<lparr>skip_render := False\<rparr>
      in if \<not> paint_next then st1
         else case current_task st1 of
                Some _ \<Rightarrow> PostCurrentTask hs st1
              | None \<Rightarrow>
                  (case next_task st1 of
                     Some n \<Rightarrow> PostCurrentTask hs (st1\<lparr>current_task := Some n, next_task := None\<rparr>)
                   | None \<Rightarrow> st1))"

section \<open>The paint jobs\<close>

text \<open>
  The loop of \<open>PaintTileRange\<close> with the static \<open>PaintTile\<close> it calls: every painted tile runs the
  barrier closure once, and a tile that could not be painted ends the loop. The result is the
  buffer and the number of runs. \<open>paint_tile\<close> is \<open>TileBuffer::PaintTile\<close> with its other arguments.
\<close>

partial_function (option) paint_loop ::
  "(u32 \<Rightarrow> 'p TileBuffer \<Rightarrow> (bool \<times> 'p TileBuffer) option) \<Rightarrow> u32 \<Rightarrow> u32 \<Rightarrow> 'p TileBuffer \<Rightarrow> nat \<Rightarrow> ('p TileBuffer \<times> nat) option" where
  "paint_loop paint_tile last_index tile_index tb runs =
     (if tile_index \<le> last_index
      then case paint_tile tile_index tb of
             None \<Rightarrow> None
           | Some (res, tb1) \<Rightarrow>
               if res then paint_loop paint_tile last_index (tile_index + 1) tb1 (Suc runs) else Some (tb1, Suc runs)
      else Some (tb, runs))"

text \<open>
  \<open>others\<close> gives, for each tile, what other threads do while it is painted, and \<open>cancelled\<close> what the
  cancellation flag reads when its painting starts.
\<close>

definition PaintTileRange ::
  "(DocumentHolderWithView \<Rightarrow> int \<times> int \<times> int \<times> int \<Rightarrow> 'p \<Rightarrow> 'p) \<Rightarrow> 'p \<Rightarrow>
   (u32 \<Rightarrow> ('p TileBuffer \<Rightarrow> 'p TileBuffer) \<times> ('p TileBuffer \<Rightarrow> 'p TileBuffer)) \<Rightarrow> (u32 \<Rightarrow> bool) \<Rightarrow>
   PaintJob \<Rightarrow> 'p TileBuffer \<Rightarrow> ('p TileBuffer \<times> nat) option" where
  "PaintTileRange paint blank others cancelled job tb =
     paint_loop (\<lambda>i. TileBuffer_PaintTile (paint (job_document job)) blank (fst (others i)) (snd (others i))
                       (cancelled i) i (job_context_hash job))
       (index_end (job_range job)) (index_start (job_range job)) tb 0"

text \<open>What the closure behind a barrier does when it runs: it invalidates the container unless a flag is set.\<close>

definition completed_invalidates :: "flag_heap \<Rightarrow> Barrier \<Rightarrow> bool" where
  "completed_invalidates h b \<longleftrightarrow>
     \<not> CancelFlag_IsCancelled h (barrier_manager_flag b) \<and> \<not> CancelFlag_IsCancelled h (barrier_task_flag b)"

section \<open>Tasks keep their flags apart\<close>

definition task_flags :: "Task option \<Rightarrow> CancelFlagPtr list" where
  "task_flags t = (case t of None \<Rightarrow> [] | Some t \<Rightarrow> [skip_paint_flag t, skip_invalidation_flag t])"

text \<open>The flags of the two tasks and of the manager are allocated, distinct and not cancelled.\<close>

definition live_flags :: "'p PaintManager \<Rightarrow> CancelFlagPtr list" where
  "live_flags st = cancel_invalidate st # task_flags (current_task st) @ task_flags (next_task st)"

definition flags_ok :: "flag_heap \<Rightarrow> CancelFlagPtr list \<Rightarrow> bool" where
  "flags_ok h fs \<longleftrightarrow> distinct fs \<and> (\<forall>f \<in> set fs. \<exists>a < length h. f = Some a \<and> \<not> h ! a)"

definition pm_inv :: "'p PaintManager \<Rightarrow> bool" where
  "pm_inv st \<longleftrightarrow> flags_ok (pm_flags st) (live_flags st)"

lemma flags_ok_Create:
  assumes "flags_ok h fs" "CancelFlag_Create h = (f, h')"
  shows "flags_ok h' (f # fs)" "flags_ok h' fs"
  using assms by (fastforce simp: flags_ok_def CancelFlag_Create_def nth_append)+

lemma flags_ok_subset: "flags_ok h fs \<Longrightarrow> distinct gs \<Longrightarrow> set gs \<subseteq> set fs \<Longrightarrow> flags_ok h gs"
  by (auto simp: flags_ok_def)

lemma flags_ok_Set:
  assumes "flags_ok h fs" "f \<notin> set fs"
  shows "flags_ok (CancelFlag_Set f h) fs"
proof (cases f)
  case (Some a)
  have "h[a := True] ! b = h ! b" if "Some b \<in> set fs" for b using that assms(2) Some by (cases "a = b") auto
  then show ?thesis using assms Some by (fastforce simp: flags_ok_def)
qed (use assms in simp)

lemma make_task_ok:
  assumes "flags_ok (pm_flags st) fs" "make_task d y v s p rs st = (t, st')"
  shows "flags_ok (pm_flags st') (skip_paint_flag t # skip_invalidation_flag t # fs)"
    "st' = st\<lparr>pm_flags := pm_flags st'\<rparr>"
    "task_document t = d" "task_y_pos t = y" "task_view_height t = v" "task_scale t = s"
    "task_full_paint t = p" "task_tile_ranges t = rs"
proof -
  obtain f h1 where f: "CancelFlag_Create (pm_flags st) = (f, h1)" by fastforce
  obtain g h2 where g: "CancelFlag_Create h1 = (g, h2)" by fastforce
  have "flags_ok h2 (g # f # fs)"
    using flags_ok_Create(1) [OF flags_ok_Create(1) [OF assms(1) f] g] .
  then have "flags_ok h2 (f # g # fs)" by (auto simp: flags_ok_def)
  then show "flags_ok (pm_flags st') (skip_paint_flag t # skip_invalidation_flag t # fs)"
    "st' = st\<lparr>pm_flags := pm_flags st'\<rparr>"
    "task_document t = d" "task_y_pos t = y" "task_view_height t = v" "task_scale t = s"
    "task_full_paint t = p" "task_tile_ranges t = rs"
    using assms(2) f g by (auto simp: make_task_def)
qed

text \<open>Installing a fresh task as the next one.\<close>

lemma install_next_ok:
  assumes "pm_inv st" "make_task d y v s p rs st = (t, st')"
  shows "pm_inv (st'\<lparr>next_task := Some t\<rparr>)"
proof -
  have "flags_ok (pm_flags st) (live_flags st)" using assms(1) by (simp add: pm_inv_def)
  note ok = make_task_ok [OF this assms(2)]
  have same: "cancel_invalidate st' = cancel_invalidate st" "current_task st' = current_task st" by (subst ok(2); simp)+
  show ?thesis
    unfolding pm_inv_def
    by (rule flags_ok_subset [where fs = "skip_paint_flag t # skip_invalidation_flag t # live_flags st"])
       (use ok(1) in \<open>auto simp: live_flags_def task_flags_def same flags_ok_def\<close>)
qed

lemma install_current_ok:
  assumes "pm_inv st" "make_task d y v s p rs st = (t, st')"
  shows "pm_inv (st'\<lparr>current_task := Some t\<rparr>)"
proof -
  have "flags_ok (pm_flags st) (live_flags st)" using assms(1) by (simp add: pm_inv_def)
  note ok = make_task_ok [OF this assms(2)]
  have same: "cancel_invalidate st' = cancel_invalidate st" "next_task st' = next_task st" by (subst ok(2); simp)+
  show ?thesis
    unfolding pm_inv_def
    by (rule flags_ok_subset [where fs = "skip_paint_flag t # skip_invalidation_flag t # live_flags st"])
       (use ok(1) in \<open>auto simp: live_flags_def task_flags_def same flags_ok_def\<close>)
qed

lemma MergeWith_ok:
  assumes "pm_inv st" "MergeWith n rs tb st = (t, st')"
  shows "pm_inv (st'\<lparr>next_task := Some t\<rparr>)"
  using assms by (auto simp: MergeWith_def Let_def intro: install_next_ok)

lemma pm_inv_frame:
  "pm_inv st \<Longrightarrow> pm_flags st' = pm_flags st \<Longrightarrow> cancel_invalidate st' = cancel_invalidate st \<Longrightarrow>
   current_task st' = current_task st \<Longrightarrow> next_task st' = next_task st \<Longrightarrow> pm_inv st'"
  by (simp add: pm_inv_def live_flags_def)

lemma PostCurrentTask_frame:
  "pm_flags (PostCurrentTask hs st) = pm_flags st" "cancel_invalidate (PostCurrentTask hs st) = cancel_invalidate st"
  "current_task (PostCurrentTask hs st) = current_task st" "next_task (PostCurrentTask hs st) = next_task st"
  "skip_render (PostCurrentTask hs st) = skip_render st"
  by (simp_all add: PostCurrentTask_def Let_def split: option.splits)

lemma PostCurrentTask_ok: "pm_inv st \<Longrightarrow> pm_inv (PostCurrentTask hs st)"
  by (erule pm_inv_frame) (rule PostCurrentTask_frame)+

lemma merge_given_ok: "pm_inv st \<Longrightarrow> pm_inv (merge_given rs st)"
  by (auto simp: merge_given_def Let_def split: option.splits prod.splits intro: MergeWith_ok)

lemma merge_remaining_ok: "pm_inv st \<Longrightarrow> merge_remaining st = Some st' \<Longrightarrow> pm_inv st'"
  by (cases "pm_tile_buffer st"; cases "next_task st"; cases "current_task st")
     (auto simp: merge_remaining_def Let_def bind_eq_Some_conv case_prod_beta split: if_splits intro: MergeWith_ok)

lemma clip_next_ok: "pm_inv st \<Longrightarrow> clip_next st = Some st' \<Longrightarrow> pm_inv st'"
  by (cases "next_task st")
     (auto simp: clip_next_def Let_def bind_eq_Some_conv case_prod_beta intro: MergeWith_ok)

lemma replace_current_ok: 
  assumes "pm_inv st"
  shows "pm_inv (replace_current st)"
proof -
  have keep: "flags_ok (pm_flags st) (cancel_invalidate st # task_flags (next_task st))"
    by (rule flags_ok_subset [OF assms [unfolded pm_inv_def]])
       (use assms in \<open>auto simp: pm_inv_def live_flags_def flags_ok_def\<close>)
  show ?thesis
  proof (cases "current_task st")
    case None
    then show ?thesis using keep by (simp add: replace_current_def pm_inv_def live_flags_def task_flags_def)
  next
    case (Some c)
    have "skip_paint_flag c \<notin> set (cancel_invalidate st # task_flags (next_task st))"
      "skip_invalidation_flag c \<notin> set (cancel_invalidate st # task_flags (next_task st))"
      using assms Some by (auto simp: pm_inv_def live_flags_def flags_ok_def task_flags_def)
    then have "flags_ok (CancelFlag_Set (skip_invalidation_flag c) (CancelFlag_Set (skip_paint_flag c) (pm_flags st)))
        (cancel_invalidate st # task_flags (next_task st))"
      using keep by (intro flags_ok_Set)
    then show ?thesis using keep Some
      by (auto simp: replace_current_def pm_inv_def live_flags_def task_flags_def [of None] Let_def split: option.splits)
  qed
qed

lemma ScheduleNextPaint_ok:
  assumes "pm_inv st" "ScheduleNextPaint hs rs st = Some (r, st')"
  shows "pm_inv st'"
proof -
  obtain st1 st2 where st1: "merge_remaining (merge_given rs st) = Some st1" and st2: "clip_next st1 = Some st2"
    and st': "st' = PostCurrentTask hs (replace_current st2) \<or> st' = replace_current st2"
    using assms(2) by (auto simp: ScheduleNextPaint_def bind_eq_Some_conv Let_def split: if_splits)
  have "pm_inv st2" using clip_next_ok [OF merge_remaining_ok [OF merge_given_ok [OF assms(1)] st1] st2] .
  then show ?thesis using st' PostCurrentTask_ok replace_current_ok by blast
qed

lemma SchedulePaint_ok: "pm_inv st \<Longrightarrow> SchedulePaint hs d y v s p rs st = Some st' \<Longrightarrow> pm_inv st'"
  by (auto simp: SchedulePaint_def Let_def split: option.splits prod.splits if_splits
      intro: PostCurrentTask_ok install_current_ok dest: ScheduleNextPaint_ok [OF install_next_ok])

lemma OnDestroy_ok:
  assumes "pm_inv st"
  shows "pm_inv (OnDestroy st)"
proof -
  let ?fs = "task_flags (current_task st) @ task_flags (next_task st)"
  have "flags_ok (pm_flags st) ?fs" "cancel_invalidate st \<notin> set ?fs"
    using assms by (auto simp: pm_inv_def live_flags_def flags_ok_def)
  then have "flags_ok (CancelFlag_Set (cancel_invalidate st) (pm_flags st)) ?fs" by (rule flags_ok_Set)
  then show ?thesis
    using flags_ok_Create(1) [of _ ?fs]
    by (auto simp: OnDestroy_def CancelFlag_CancelAndReset_def pm_inv_def live_flags_def split: prod.splits)
qed

lemma ClearTasks_ok:
  assumes "pm_inv st"
  shows "pm_inv (ClearTasks st)"
proof -
  have base: "flags_ok (pm_flags st) [cancel_invalidate st]"
    using assms by (auto simp: pm_inv_def live_flags_def flags_ok_def)
  have fresh: "f \<notin> set [cancel_invalidate st]" if "f \<in> set (task_flags (current_task st) @ task_flags (next_task st))" for f
    using assms that by (auto simp: pm_inv_def live_flags_def flags_ok_def)
  have cancel: "flags_ok (cancel_task t h) [cancel_invalidate st]"
    if "flags_ok h [cancel_invalidate st]" "set (task_flags t) \<subseteq> set (task_flags (current_task st) @ task_flags (next_task st))" for t h
  proof (cases t)
    case (Some u)
    then have "skip_paint_flag u \<notin> set [cancel_invalidate st]" "skip_invalidation_flag u \<notin> set [cancel_invalidate st]"
      using that(2) by (intro fresh; simp add: task_flags_def [of "Some u"])+
    then show ?thesis using that(1) Some flags_ok_Set by (simp add: cancel_task_def)
  qed (use that in \<open>simp add: cancel_task_def\<close>)
  show ?thesis using cancel [OF cancel [OF base]]
    by (auto simp: ClearTasks_def pm_inv_def live_flags_def task_flags_def [of None])
qed

lemma ResumePaint_ok:
  assumes "pm_inv st"
  shows "pm_inv (ResumePaint hs p st)"
proof -
  have 1: "pm_inv (st\<lparr>skip_render := False\<rparr>)" by (rule pm_inv_frame [OF assms]) simp_all
  have "pm_inv (st\<lparr>skip_render := False, current_task := next_task st, next_task := None\<rparr>)" if "current_task st = None"
    using assms that by (simp add: pm_inv_def live_flags_def task_flags_def)
  with 1 show ?thesis
    by (auto simp: ResumePaint_def Let_def split: option.splits intro!: PostCurrentTask_ok)
qed

lemma PaintManager_init_ok: "pm_inv (PaintManager_init h tb)"
  by (simp add: PaintManager_init_def CancelFlag_Create_def pm_inv_def live_flags_def flags_ok_def task_flags_def)

lemma PaintManager_transfer_ok:
  assumes "pm_inv st"
  shows "pm_inv (PaintManager_transfer st)"
proof -
  have "flags_ok (pm_flags st) (task_flags (current_task st) @ task_flags (next_task st))"
    using assms by (auto simp: pm_inv_def live_flags_def flags_ok_def)
  from flags_ok_Create(1) [OF this] show ?thesis
    by (auto simp: PaintManager_transfer_def pm_inv_def live_flags_def split: prod.splits)
qed

text \<open>The managers the operations reach; the client may change its tile buffer at any time.\<close>

inductive pm_reach :: "hashes \<Rightarrow> 'p PaintManager \<Rightarrow> bool" for hs where
  init: "pm_reach hs (PaintManager_init h tb)"
| transfer: "pm_reach hs st \<Longrightarrow> pm_reach hs (PaintManager_transfer st)"
| client: "pm_reach hs st \<Longrightarrow> pm_reach hs (st\<lparr>pm_tile_buffer := tb\<rparr>)"
| schedule: "pm_reach hs st \<Longrightarrow> SchedulePaint hs d y v s p rs st = Some st' \<Longrightarrow> pm_reach hs st'"
| schedule_next: "pm_reach hs st \<Longrightarrow> ScheduleNextPaint hs rs st = Some (r, st') \<Longrightarrow> pm_reach hs st'"
| destroy: "pm_reach hs st \<Longrightarrow> pm_reach hs (OnDestroy st)"
| clear: "pm_reach hs st \<Longrightarrow> pm_reach hs (ClearTasks st)"
| pause: "pm_reach hs st \<Longrightarrow> pm_reach hs (PausePaint st)"
| resume: "pm_reach hs st \<Longrightarrow> pm_reach hs (ResumePaint hs p st)"

lemma pm_reach_inv: "pm_reach hs st \<Longrightarrow> pm_inv st"
proof (induction rule: pm_reach.induct)
  case (client st tb)
  then show ?case by (simp add: pm_inv_def live_flags_def)
next
  case (pause st)
  then show ?case by (simp add: PausePaint_def pm_inv_def live_flags_def)
qed (blast intro: PaintManager_init_ok PaintManager_transfer_ok SchedulePaint_ok ScheduleNextPaint_ok
    OnDestroy_ok ClearTasks_ok ResumePaint_ok)+

section \<open>What the next task paints\<close>

definition task_limit :: "'p TileBuffer \<Rightarrow> Task \<Rightarrow> TileRange" where
  "task_limit tb t = LimitIndex tb (task_y_pos t) (word_of_int (task_view_height t))"

abbreviation task_cover :: "Task \<Rightarrow> u32 set" where "task_cover t \<equiv> cover (task_tile_ranges t)"

definition same_place :: "Task \<Rightarrow> Task \<Rightarrow> bool" where
  "same_place a b \<longleftrightarrow> task_document a = task_document b \<and> task_y_pos a = task_y_pos b \<and>
     task_view_height a = task_view_height b \<and> task_scale a = task_scale b \<and> task_full_paint a = task_full_paint b"

lemma make_task_fields:
  assumes "make_task d y v s p rs st = (t, st')"
  shows "st' = st\<lparr>pm_flags := pm_flags st'\<rparr>" "task_document t = d" "task_y_pos t = y" "task_view_height t = v"
    "task_scale t = s" "task_full_paint t = p" "task_tile_ranges t = rs"
  using make_task_ok [of st "[]", OF _ assms] by (simp_all add: flags_ok_def)

lemma MergeWith_spec:
  assumes "ranges_ok (task_tile_ranges n)" "ranges_ok rs" "range_ok (task_limit tb n)" "MergeWith n rs tb st = (t, st')"
  shows "same_place t n" "separated (task_tile_ranges t)" "ranges_ok (task_tile_ranges t)"
    "task_cover t = (task_cover n \<union> cover rs) \<inter> tiles (task_limit tb n)"
    "st' = st\<lparr>pm_flags := pm_flags st'\<rparr>"
proof -
  let ?rs = "SimplifyRanges (ClipRanges (task_tile_ranges n @ rs) (task_limit tb n))"
  have run: "make_task (task_document n) (task_y_pos n) (task_view_height n) (task_scale n) (task_full_paint n) ?rs st = (t, st')"
    using assms(4) by (simp add: MergeWith_def Let_def task_limit_def)
  note f = make_task_fields [OF run]
  show "same_place t n" "st' = st\<lparr>pm_flags := pm_flags st'\<rparr>" using f by (simp_all add: same_place_def)
  have "ranges_ok (ClipRanges (task_tile_ranges n @ rs) (task_limit tb n))" using assms by (intro tr.ok_clip) simp_all
  then show "separated (task_tile_ranges t)" by (simp add: f(7) SimplifyRanges_spec(1))
  show "ranges_ok (task_tile_ranges t)" "task_cover t = (task_cover n \<union> cover rs) \<inter> tiles (task_limit tb n)"
    unfolding f(7) by (rule tr.merge_clip [OF assms(1-3)])+
qed

lemma task_limit_place: "same_place t n \<Longrightarrow> task_limit tb t = task_limit tb n"
  by (simp add: same_place_def task_limit_def)

lemma same_place_trans: "same_place a b \<Longrightarrow> same_place b c \<Longrightarrow> same_place a c"
  by (simp add: same_place_def)

text \<open>The next task may have been merged with what is left of the current one.\<close>

lemma merge_remaining_spec:
  assumes tb: "pm_tile_buffer st = Some tb" "tb_wf tb" and n: "next_task st = Some n" "ranges_ok (task_tile_ranges n)"
    and c: "current_task st = Some c" "CanMergeWith c n \<noteq> None" and lim: "range_ok (task_limit tb n)"
  obtains st' n' where "merge_remaining st = Some st'" "next_task st' = Some n'" "same_place n' n"
    "ranges_ok (task_tile_ranges n')" "task_cover n \<inter> tiles (task_limit tb n) \<subseteq> task_cover n'"
    "task_cover n' \<subseteq> task_cover n \<union> task_cover c" "pm_tile_buffer st' = Some tb" "current_task st' = Some c"
proof -
  obtain res where res: "InvalidRangesRemaining tb (task_tile_ranges c) = Some res" "ranges_ok res"
    "cover res \<subseteq> task_cover c"
    using InvalidRangesRemaining_spec [OF tb(2), of "task_tile_ranges c"] by auto
  obtain m where m: "CanMergeWith c n = Some m" using c(2) by blast
  show ?thesis
  proof (cases "m \<and> res \<noteq> []")
    case False
    then have "merge_remaining st = Some st" using tb n c m res by (auto simp: merge_remaining_def)
    then show ?thesis using that [of st n] n tb c by (auto simp: same_place_def)
  next
    case True
    obtain t st1 where t: "MergeWith n res tb st = (t, st1)" by fastforce
    note sp = MergeWith_spec [OF n(2) res(2) lim t]
    have "merge_remaining st = Some (st1\<lparr>next_task := Some t\<rparr>)"
      using True tb n c m res t by (simp add: merge_remaining_def)
    moreover have "pm_tile_buffer st1 = Some tb" "current_task st1 = Some c"
      using tb(1) c(1) by (subst sp(5); simp)+
    ultimately show ?thesis using that [of "st1\<lparr>next_task := Some t\<rparr>" t] sp res(3) by auto
  qed
qed

lemma clip_next_spec:
  assumes "pm_tile_buffer st = Some tb" "next_task st = Some n" "ranges_ok (task_tile_ranges n)" "range_ok (task_limit tb n)"
  obtains st' n' where "clip_next st = Some st'" "next_task st' = Some n'" "same_place n' n"
    "separated (task_tile_ranges n')" "task_cover n' = task_cover n \<inter> tiles (task_limit tb n)"
    "pm_tile_buffer st' = Some tb" "current_task st' = current_task st"
proof -
  obtain t st1 where t: "MergeWith n [] tb st = (t, st1)" by fastforce
  note sp = MergeWith_spec [OF assms(3) _ assms(4) t]
  have "clip_next st = Some (st1\<lparr>next_task := Some t\<rparr>)" using assms t by (simp add: clip_next_def)
  moreover have "pm_tile_buffer st1 = Some tb" "current_task st1 = current_task st"
    using assms(1) by (subst sp(5); simp)+
  ultimately show ?thesis using that [of "st1\<lparr>next_task := Some t\<rparr>" t] sp by simp
qed

lemma replace_current_tasks:
  "current_task (replace_current st) = next_task st" "next_task st \<noteq> None \<Longrightarrow> next_task (replace_current st) = None"
  by (auto simp: replace_current_def Let_def split: option.splits)

lemma ScheduleNextPaint_spec:
  assumes tb: "pm_tile_buffer st = Some tb" "tb_wf tb" and n: "next_task st = Some n" "ranges_ok (task_tile_ranges n)"
    and c: "current_task st = Some c" "CanMergeWith c n \<noteq> None" and lim: "range_ok (task_limit tb n)"
  shows "\<exists>st' t. ScheduleNextPaint hs [] st = Some (True, st') \<and> current_task st' = Some t \<and> next_task st' = None \<and>
    same_place t n \<and> separated (task_tile_ranges t) \<and>
    task_cover n \<inter> tiles (task_limit tb n) \<subseteq> task_cover t \<and>
    task_cover t \<subseteq> (task_cover n \<union> task_cover c) \<inter> tiles (task_limit tb n)"
proof -
  have given: "merge_given [] st = st" by (auto simp: merge_given_def split: option.splits)
  obtain st1 n1 where s1: "merge_remaining st = Some st1" "next_task st1 = Some n1" "same_place n1 n"
    "ranges_ok (task_tile_ranges n1)" "task_cover n \<inter> tiles (task_limit tb n) \<subseteq> task_cover n1"
    "task_cover n1 \<subseteq> task_cover n \<union> task_cover c" "pm_tile_buffer st1 = Some tb"
    using merge_remaining_spec [OF assms] by metis
  have lim1: "task_limit tb n1 = task_limit tb n" using task_limit_place [OF s1(3)] .
  obtain st2 n2 where s2: "clip_next st1 = Some st2" "next_task st2 = Some n2" "same_place n2 n1"
    "separated (task_tile_ranges n2)" "task_cover n2 = task_cover n1 \<inter> tiles (task_limit tb n1)"
    using clip_next_spec [OF s1(7,2,4)] lim lim1 by metis
  have cur: "current_task (replace_current st2) = Some n2" "next_task (replace_current st2) = None"
    using replace_current_tasks [of st2] s2(2) by auto
  have run: "ScheduleNextPaint hs [] st = Some (True, PostCurrentTask hs (replace_current st2))"
    by (simp add: ScheduleNextPaint_def given s1(1) s2(1) cur Let_def)
  show ?thesis
    unfolding run using cur s1 s2 same_place_trans [OF s2(3) s1(3)] lim1 by (auto simp: PostCurrentTask_frame)
qed

lemma next_task_replace: "next_task (replace_current st) = None"
  by (auto simp: replace_current_def Let_def split: option.splits)

lemma ScheduleNextPaint_no_next: "ScheduleNextPaint hs rs st = Some (r, st') \<Longrightarrow> next_task st' = None"
  by (auto simp: ScheduleNextPaint_def bind_eq_Some_conv Let_def next_task_replace PostCurrentTask_frame split: if_splits)

lemma SchedulePaint_no_next:
  assumes "SchedulePaint hs d y v s p rs st = Some st'" "next_task st = None"
  shows "next_task st' = None"
proof (cases "current_task st")
  case None
  obtain t st1 where t: "make_task d y v s p rs st = (t, st1)" by fastforce
  have "next_task st1 = None" using make_task_fields(1) [OF t] assms(2) by (metis PaintManager.ext_inject PaintManager.surjective PaintManager.update_convs(1))
  then show ?thesis using assms None t by (auto simp: SchedulePaint_def PostCurrentTask_frame)
next
  case (Some c)
  then show ?thesis using assms by (auto simp: SchedulePaint_def Let_def split: prod.splits dest: ScheduleNextPaint_no_next)
qed

lemma pm_reach_no_next: "pm_reach hs st \<Longrightarrow> next_task st = None"
proof (induction rule: pm_reach.induct)
  case (schedule st d y v s p rs st')
  then show ?case using SchedulePaint_no_next by blast
next
  case (schedule_next st rs r st')
  then show ?case using ScheduleNextPaint_no_next by blast
qed (auto simp: PaintManager_init_def PaintManager_transfer_def CancelFlag_Create_def OnDestroy_def ClearTasks_def PausePaint_def
    ResumePaint_def Let_def PostCurrentTask_frame split: prod.splits option.splits)

section \<open>Properties\<close>

text \<open>C22: between its operations the paint manager never holds a next task, the flags of its
  current task and of the manager itself are allocated, pairwise distinct and not cancelled, whatever
  sequence of operations led there. So the test of the manager's flag in PostCurrentTask never
  fires: a flag is replaced by a fresh one as soon as it is cancelled.\<close>

theorem pm_reach_flags:
  assumes "pm_reach hs st"
  shows "next_task st = None \<and> flags_ok (pm_flags st) (live_flags st) \<and>
    \<not> CancelFlag_IsCancelled (pm_flags st) (cancel_invalidate st)"
proof -
  have ok: "flags_ok (pm_flags st) (live_flags st)" using pm_reach_inv [OF assms] by (simp add: pm_inv_def)
  then have "\<not> CancelFlag_IsCancelled (pm_flags st) (cancel_invalidate st)"
    by (auto simp: flags_ok_def live_flags_def)
  with ok pm_reach_no_next [OF assms] show ?thesis by simp
qed

definition sample_hashes :: hashes where
  "sample_hashes = \<lparr>hash_ptr = \<lambda>p. case p of None \<Rightarrow> 0 | Some a \<Rightarrow> of_nat a, hash_float = \<lambda>_. 3\<rparr>"

theorem pm_reach_flags_witness:
  "next_task (OnDestroy (PaintManager_init [] (None :: unit TileBuffer option))) = None \<and>
   flags_ok (pm_flags (OnDestroy (PaintManager_init [] (None :: unit TileBuffer option)))) (live_flags (OnDestroy (PaintManager_init [] (None :: unit TileBuffer option)))) \<and>
   \<not> CancelFlag_IsCancelled (pm_flags (OnDestroy (PaintManager_init [] (None :: unit TileBuffer option)))) (cancel_invalidate (OnDestroy (PaintManager_init [] (None :: unit TileBuffer option))))"
  by (rule pm_reach_flags [of sample_hashes]) (intro pm_reach.destroy pm_reach.init)

text \<open>Two tasks merge only at the same scroll position. The comment at CanMergeWith asks for
  overlapping views, but its two conditions on the positions bound each by the other.\<close>

theorem CanMergeWith_same_position:
  "CanMergeWith a b = Some True \<Longrightarrow> task_y_pos a = task_y_pos b \<and> dh_eq (task_document a) (task_document b)"
  by (auto simp: CanMergeWith_def bind_eq_Some_conv split: if_splits)

lemma CanMergeWith_defined:
  assumes "int32_min \<le> task_y_pos a + task_view_height a" "task_y_pos a + task_view_height a \<le> int32_max"
    "int32_min \<le> task_y_pos b + task_view_height b" "task_y_pos b + task_view_height b \<le> int32_max"
  shows "CanMergeWith a b \<noteq> None"
  using assms by (auto simp: CanMergeWith_def)

definition sample_task :: "int \<Rightarrow> TileRange list \<Rightarrow> Task" where
  "sample_task y rs = \<lparr>task_document = DocumentHolderWithView_default, task_y_pos = y, task_view_height = 600,
     task_scale = Fin 1, task_full_paint = False, task_tile_ranges = rs, skip_paint_flag = None, skip_invalidation_flag = None\<rparr>"

theorem CanMergeWith_same_position_witness:
  "task_y_pos (sample_task 10 []) = task_y_pos (sample_task 10 [tile_range 0 1]) \<and>
   dh_eq (task_document (sample_task 10 [])) (task_document (sample_task 10 [tile_range 0 1]))"
proof (rule CanMergeWith_same_position)
  have "round32 (of_int 0) = Fin (of_int 0)" by (intro round32_exact representable_int) simp_all
  then show "CanMergeWith (sample_task 10 []) (sample_task 10 [tile_range 0 1]) = Some True"
    by (simp add: CanMergeWith_def sample_task_def dh_eq_def fp_sub_def scale_epsilon_def int_checked_def
        int32_min_def int32_max_def)
qed

lemma SchedulePaint_spec:
  assumes tb: "pm_tile_buffer st = Some tb" "tb_wf tb" and rs: "ranges_ok rs" and nxt: "next_task st = None"
    and lim: "range_ok (LimitIndex tb y (word_of_int v))"
    and y: "int32_min \<le> y + v" "y + v \<le> int32_max"
    and cur: "\<forall>c. current_task st = Some c \<longrightarrow> int32_min \<le> task_y_pos c + task_view_height c \<and>
      task_y_pos c + task_view_height c \<le> int32_max"
  shows "\<exists>st' t. SchedulePaint hs d y v s p rs st = Some st' \<and> current_task st' = Some t \<and> next_task st' = None \<and>
    task_document t = d \<and> task_y_pos t = y \<and> task_view_height t = v \<and> task_scale t = s \<and> task_full_paint t = p \<and>
    cover rs \<inter> tiles (LimitIndex tb y (word_of_int v)) \<subseteq> task_cover t \<and>
    (current_task st \<noteq> None \<longrightarrow> task_cover t \<subseteq> tiles (LimitIndex tb y (word_of_int v)))"
proof (cases "current_task st")
  case None
  obtain t st1 where t: "make_task d y v s p rs st = (t, st1)" by fastforce
  have "next_task st1 = None" using make_task_fields(1) [OF t] nxt by (metis PaintManager.ext_inject PaintManager.surjective PaintManager.update_convs(1))
  moreover have "SchedulePaint hs d y v s p rs st = Some (PostCurrentTask hs (st1\<lparr>current_task := Some t\<rparr>))"
    using None t by (simp add: SchedulePaint_def)
  ultimately show ?thesis using make_task_fields [OF t] None by (auto simp: PostCurrentTask_frame)
next
  case c: (Some c)
  obtain t st1 where t: "make_task d y v s p (SimplifyRanges rs) st = (t, st1)" by fastforce
  note f = make_task_fields [OF t]
  let ?st = "st1\<lparr>next_task := Some t\<rparr>"
  have st: "pm_tile_buffer ?st = Some tb" "current_task ?st = Some c"
    using tb(1) c by (subst f(1); simp)+
  have run: "SchedulePaint hs d y v s p rs st = map_option snd (ScheduleNextPaint hs [] ?st)"
    using c nxt t by (simp add: SchedulePaint_def)
  have limt: "task_limit tb t = LimitIndex tb y (word_of_int v)" by (simp add: task_limit_def f)
  have "CanMergeWith c t \<noteq> None" using cur c y f by (intro CanMergeWith_defined) simp_all
  then obtain st' t' where "ScheduleNextPaint hs [] ?st = Some (True, st')" "current_task st' = Some t'" "next_task st' = None"
    "same_place t' t" "task_cover t \<inter> tiles (task_limit tb t) \<subseteq> task_cover t'"
    "task_cover t' \<subseteq> (task_cover t \<union> task_cover c) \<inter> tiles (task_limit tb t)"
    using ScheduleNextPaint_spec [OF st(1) tb(2) _ _ st(2), of t hs] lim limt f(7) SimplifyRanges_spec(2) [OF rs] by auto
  then show ?thesis unfolding run using f limt SimplifyRanges_spec(3) [OF rs] by (auto simp: same_place_def)
qed

text \<open>C9: a requested paint is never lost. After SchedulePaint, with a tile buffer and in-range
  coordinates, there is a current task for the requested document, position and scale whose ranges
  are proper and contain every requested tile that lies in the view; if a task was running
  they contain nothing outside the view.\<close>

theorem SchedulePaint_correct:
  assumes tb: "pm_tile_buffer st = Some tb" "tb_wf tb" and rs: "ranges_ok rs" and nxt: "next_task st = None"
    and lim: "range_ok (LimitIndex tb y (word_of_int v))"
    and y: "int32_min \<le> y + v" "y + v \<le> int32_max"
    and cur: "\<forall>c. current_task st = Some c \<longrightarrow> int32_min \<le> task_y_pos c + task_view_height c \<and>
      task_y_pos c + task_view_height c \<le> int32_max"
  shows "\<exists>st' t. SchedulePaint hs d y v s p rs st = Some st' \<and> current_task st' = Some t \<and> next_task st' = None \<and>
    task_document t = d \<and> task_y_pos t = y \<and> task_view_height t = v \<and> task_scale t = s \<and> task_full_paint t = p \<and>
    cover rs \<inter> tiles (LimitIndex tb y (word_of_int v)) \<subseteq> task_cover t \<and>
    (current_task st \<noteq> None \<longrightarrow> task_cover t \<subseteq> tiles (LimitIndex tb y (word_of_int v)))"
  using SchedulePaint_spec [OF assms] .

definition sample_manager :: "unit PaintManager" where
  "sample_manager = (PaintManager_init [] (Some (sample_buffer ())))\<lparr>current_task := Some (sample_task 10 [tile_range 0 3])\<rparr>"

theorem SchedulePaint_correct_witness:
  "\<exists>st' t. SchedulePaint sample_hashes DocumentHolderWithView_default 300 512 (Fin 1) False [tile_range 1 2] sample_manager = Some st' \<and>
    current_task st' = Some t \<and> next_task st' = None \<and>
    task_document t = DocumentHolderWithView_default \<and> task_y_pos t = 300 \<and> task_view_height t = 512 \<and> task_scale t = Fin 1 \<and>
    \<not> task_full_paint t \<and> {1..2} \<inter> tiles (LimitIndex (sample_buffer ()) 300 512) \<subseteq> task_cover t \<and>
    task_cover t \<subseteq> tiles (LimitIndex (sample_buffer ()) 300 512)"
proof -
  have tb: "pm_tile_buffer sample_manager = Some (sample_buffer ())" "next_task sample_manager = None"
    "current_task sample_manager = Some (sample_task 10 [tile_range 0 3])"
    by (simp_all add: sample_manager_def PaintManager_init_def CancelFlag_Create_def)
  have "tb_wf (sample_buffer ())" using sample_buffer_inv [of "\<lambda>_ _. ()"] by (simp add: tb_inv_def)
  moreover have "range_ok (LimitIndex (sample_buffer ()) 300 512)"
    by (simp add: LimitIndex_def LimitRange_def range_ok_def CoordToIndex_def sample_buffer_def Let_def floor_divide_of_int_eq [of 300 256, simplified]
        ceiling_256 [of 512, simplified])
  ultimately show ?thesis
    using SchedulePaint_correct [of sample_manager "sample_buffer ()" "[tile_range 1 2]" 300 512 sample_hashes
        DocumentHolderWithView_default "Fin 1" False] tb
    by (simp add: range_ok_def tiles_def [of "tile_range 1 2"] sample_task_def int32_min_def int32_max_def)
qed

section \<open>Completion\<close>

text \<open>C20: PostCurrentTask posts one job per simplified range, all with the active context it has set
  on the tile buffer, and the barrier waits for exactly as many runs as the jobs have tiles.\<close>

theorem PostCurrentTask_barrier:
  assumes t: "current_task st = Some t" and run: "\<not> skip_render st" "\<not> CancelFlag_IsCancelled (pm_flags st) (cancel_invalidate st)"
    and tb: "pm_tile_buffer st = Some tb" "\<not> TileBuffer_IsEmpty tb"
    and rs: "ranges_ok (task_tile_ranges t)" "task_cover t \<noteq> UNIV"
  shows "\<exists>b js. pm_barriers (PostCurrentTask hs st) = pm_barriers st @ [b] \<and> pm_jobs (PostCurrentTask hs st) = pm_jobs st @ js \<and>
    (\<forall>j \<in> set js. job_barrier j = length (pm_barriers st) \<and> job_context_hash j = ContextHash hs t \<and>
       job_document j = task_document t \<and> job_cancel_flag j = skip_paint_flag t) \<and>
    pm_tile_buffer (PostCurrentTask hs st) = Some (SetActiveContext (ContextHash hs t) tb) \<and>
    separated (map job_range js) \<and> cover (map job_range js) = task_cover t \<and>
    barrier_task_flag b = skip_invalidation_flag t \<and>
    unat (barrier_count b) = sum_list (map (\<lambda>j. card (tiles (job_range j))) js)"
proof -
  let ?rs = "SimplifyRanges (task_tile_ranges t)"
  let ?js = "map (\<lambda>it. \<lparr>job_cancel_flag = skip_paint_flag t, job_document = task_document t, job_range = it,
      job_context_hash = ContextHash hs t, job_barrier = length (pm_barriers st)\<rparr>) ?rs"
  let ?b = "\<lparr>barrier_count = TileCount ?rs, barrier_task_flag = skip_invalidation_flag t, barrier_manager_flag = cancel_invalidate st\<rparr>"
  have post: "PostCurrentTask hs st = st\<lparr>pm_tile_buffer := Some (SetActiveContext (ContextHash hs t) tb),
      pm_barriers := pm_barriers st @ [?b], pm_jobs := pm_jobs st @ ?js\<rparr>"
    using t run tb by (simp add: PostCurrentTask_def Let_def)
  have ranges: "map job_range ?js = ?rs" by (simp add: o_def)
  have "sum_list (map (\<lambda>j. card (tiles (job_range j))) ?js) = sum_list (map (\<lambda>r. card (tiles r)) ?rs)"
    by (simp add: o_def)
  also have "\<dots> = card (task_cover t)"
    using sum_card_tiles SimplifyRanges_spec [OF rs(1)] by simp
  also have "\<dots> = unat (barrier_count ?b)" using TileCount_simplified [OF rs] by simp
  finally have sum: "unat (barrier_count ?b) = sum_list (map (\<lambda>j. card (tiles (job_range j))) ?js)" by simp
  show ?thesis
    by (rule exI [of _ ?b], rule exI [of _ ?js])
       (use sum ranges SimplifyRanges_spec [OF rs(1)] in \<open>simp add: post\<close>)
qed

lemma paint_loop_ok:
  assumes step: "\<And>i tb. index_start r \<le> i \<Longrightarrow> i \<le> index_end r \<Longrightarrow> I tb \<Longrightarrow>
      \<exists>res tb'. paint_tile i tb = Some (res, tb') \<and> I tb' \<and> (\<not> res \<longrightarrow> Q tb')"
    and "I tb" "unat (index_end r) < 2 ^ 32 - 1" "index_start r \<le> i" "unat i \<le> Suc (unat (index_end r))"
  shows "\<exists>tb' k. paint_loop paint_tile (index_end r) i tb n = Some (tb', n + k) \<and> I tb' \<and>
    k \<le> Suc (unat (index_end r)) - unat i \<and> (k = Suc (unat (index_end r)) - unat i \<or> Q tb') \<and>
    (i \<le> index_end r \<longrightarrow> 0 < k)"
  using assms(2-)
proof (induction "Suc (unat (index_end r)) - unat i" arbitrary: i tb n)
  case 0
  then have "\<not> i \<le> index_end r" by (simp add: word_le_nat_alt)
  then show ?case using 0 by (subst paint_loop.simps) simp
next
  case (Suc m)
  then have i: "i \<le> index_end r" by (simp add: word_le_nat_alt)
  obtain res tb1 where s: "paint_tile i tb = Some (res, tb1)" "I tb1" "\<not> res \<longrightarrow> Q tb1"
    using step [OF Suc.prems(3) i Suc.prems(1)] by blast
  have "unat i < 2 ^ 32 - 1" using i Suc.prems(2) by (simp add: word_le_nat_alt)
  then have nxt: "unat (i + 1) = Suc (unat i)" by (simp add: unat_word_ariths)
  show ?case
  proof (cases res)
    case False
    then have "paint_loop paint_tile (index_end r) i tb n = Some (tb1, Suc n)"
      using i s(1) by (subst paint_loop.simps) simp
    then show ?thesis using s False Suc.hyps(2) by (intro exI [of _ tb1] exI [of _ 1]) simp
  next
    case True
    have "\<exists>tb' k. paint_loop paint_tile (index_end r) (i + 1) tb1 (Suc n) = Some (tb', Suc n + k) \<and> I tb' \<and>
        k \<le> Suc (unat (index_end r)) - unat (i + 1) \<and> (k = Suc (unat (index_end r)) - unat (i + 1) \<or> Q tb')"
    proof -
      have "m = Suc (unat (index_end r)) - unat (i + 1)" using Suc.hyps(2) nxt by simp
      moreover have "index_start r \<le> i + 1" "unat (i + 1) \<le> Suc (unat (index_end r))"
        using Suc.prems(3) i nxt by (simp_all add: word_le_nat_alt)
      ultimately show ?thesis using Suc.hyps(1) [of "i + 1" tb1 "Suc n"] s(2) Suc.prems(2) by blast
    qed
    then obtain tb' k where k: "paint_loop paint_tile (index_end r) (i + 1) tb1 (Suc n) = Some (tb', Suc n + k)" "I tb'"
      "k \<le> Suc (unat (index_end r)) - unat (i + 1)" "k = Suc (unat (index_end r)) - unat (i + 1) \<or> Q tb'" by blast
    have "paint_loop paint_tile (index_end r) i tb n = Some (tb', n + Suc k)"
      using i s(1) True k(1) by (subst paint_loop.simps) simp
    then show ?thesis using k nxt Suc.hyps(2) by (intro exI [of _ tb'] exI [of _ "Suc k"]) auto
  qed
qed

text \<open>C19: a posted job always returns, for a range inside the grid, and keeps the tile buffer's
  invariant; it runs the barrier at least once and at most once per tile, and exactly once per
  tile when it is not cancelled and the context is still its own at the end. So the container
  is invalidated exactly when no job of the task was stopped.\<close>

theorem PaintTileRange_correct:
  assumes inv: "tb_inv (paint (job_document job)) blank tb"
    and r: "range_ok (job_range job)" "unat (index_end (job_range job)) < unat (tb_columns tb) * unat (tb_rows tb)"
    and twips: "\<forall>i \<in> tiles (job_range job). tile_twips tb i \<noteq> None"
    and others: "\<forall>i. other_ok (paint (job_document job)) blank i (fst (others i)) \<and> other_ok (paint (job_document job)) blank i (snd (others i))"
  shows "\<exists>tb' k. PaintTileRange paint blank others cancelled job tb = Some (tb', k) \<and>
    tb_inv (paint (job_document job)) blank tb' \<and> 0 < k \<and> k \<le> card (tiles (job_range job)) \<and>
    ((\<forall>i. \<not> cancelled i) \<and> active_context_hash tb' = job_context_hash job \<longrightarrow> k = card (tiles (job_range job)))"
proof -
  let ?r = "job_range job"
  let ?I = "\<lambda>u. tb_inv (paint (job_document job)) blank u \<and> same_grid tb u"
  let ?Q = "\<lambda>u. (\<exists>i. cancelled i) \<or> active_context_hash u \<noteq> job_context_hash job"
  let ?paint_tile = "\<lambda>i. TileBuffer_PaintTile (paint (job_document job)) blank (fst (others i)) (snd (others i))
    (cancelled i) i (job_context_hash job)"
  have step: "\<exists>res u'. ?paint_tile i u = Some (res, u') \<and> ?I u' \<and> (\<not> res \<longrightarrow> ?Q u')"
    if i: "index_start ?r \<le> i" "i \<le> index_end ?r" and u: "?I u" for i u
  proof -
    have "tile_twips u i = tile_twips tb i" using u by (intro tile_twips_cong) (simp_all add: same_grid_def)
    moreover have "i \<in> tiles ?r" using i by (simp add: tiles_def)
    ultimately obtain tw where tw: "tile_twips u i = Some tw" using twips by fastforce
    have "unat i < unat (tb_columns u) * unat (tb_rows u)"
      using i(2) r(2) u by (auto simp: word_le_nat_alt same_grid_def)
    from PaintTile_ok [OF conjunct1 [OF u] this tw, of "fst (others i)" "snd (others i)" "cancelled i" "job_context_hash job"]
    show ?thesis using others u unfolding paint_result_def same_grid_def by metis
  qed
  have lim: "unat (index_end ?r) < 2 ^ 32 - 1"
    using r(2) inv tb_wfD(6) [of tb] by (simp add: tb_inv_def)
  have card: "card (tiles ?r) = Suc (unat (index_end ?r)) - unat (index_start ?r)"
    using card_word_interval [of "index_start ?r" "index_end ?r"] r(1)
    by (simp add: tiles_def range_ok_def word_le_nat_alt Suc_diff_le)
  have le: "index_start ?r \<le> index_end ?r" using r(1) by (simp add: range_ok_def)
  then have "unat (index_start ?r) \<le> Suc (unat (index_end ?r))" by (simp add: word_le_nat_alt)
  from paint_loop_ok [of ?r ?I ?paint_tile ?Q tb "index_start ?r" 0, OF step _ lim _ this] inv le card
  show ?thesis by (auto simp: PaintTileRange_def same_grid_def)
qed

definition sample_job :: PaintJob where
  "sample_job = \<lparr>job_cancel_flag = None, job_document = DocumentHolderWithView_default, job_range = tile_range 3 3,
     job_context_hash = 0, job_barrier = 0\<rparr>"

theorem PaintTileRange_correct_witness:
  "\<exists>tb' k. PaintTileRange (\<lambda>_ t p. t) (0, 0, 0, 0) (\<lambda>_. (SetActiveContext 0, id)) (\<lambda>_. False) sample_job (sample_buffer (0, 0, 0, 0)) = Some (tb', k) \<and>
    tb_inv (\<lambda>t p. t) (0, 0, 0, 0) tb' \<and> 0 < k \<and> k \<le> 1 \<and> (active_context_hash tb' = 0 \<longrightarrow> k = 1)"
proof -
  have tiles: "tiles (job_range sample_job) = {3}" by (auto simp: sample_job_def tiles_def)
  then have "\<forall>i \<in> tiles (job_range sample_job). tile_twips (sample_buffer (0 :: int, 0 :: int, 0 :: int, 0 :: int)) i \<noteq> None"
    by (simp add: sample_buffer_twips)
  then show ?thesis
    using PaintTileRange_correct [of "\<lambda>_ t p. t" sample_job "(0, 0, 0, 0)" "sample_buffer (0, 0, 0, 0)" "\<lambda>_. (SetActiveContext 0, id)" "\<lambda>_. False"]
      sample_buffer_inv [of "\<lambda>t p. t" "(0, 0, 0, 0)" "(0, 0, 0, 0)"] tiles
    by (simp add: sample_job_def range_ok_def sample_buffer_def SetActiveContext_other_ok other_ok_id)
qed

theorem PostCurrentTask_barrier_witness:
  "\<exists>b js. pm_barriers (PostCurrentTask sample_hashes sample_manager) = [b] \<and> pm_jobs (PostCurrentTask sample_hashes sample_manager) = js \<and>
    separated (map job_range js) \<and> cover (map job_range js) = {0..3} \<and>
    unat (barrier_count b) = sum_list (map (\<lambda>j. card (tiles (job_range j))) js)"
proof -
  have st: "pm_tile_buffer sample_manager = Some (sample_buffer ())" "pm_barriers sample_manager = []" "pm_jobs sample_manager = []"
    "current_task sample_manager = Some (sample_task 10 [tile_range 0 3])" "\<not> skip_render sample_manager"
    "\<not> CancelFlag_IsCancelled (pm_flags sample_manager) (cancel_invalidate sample_manager)"
    by (simp_all add: sample_manager_def PaintManager_init_def CancelFlag_Create_def)
  have rs: "task_tile_ranges (sample_task 10 [tile_range 0 3]) = [tile_range 0 3]" by (simp add: sample_task_def)
  have "5 \<notin> cover [tile_range 0 3]" by (simp add: tiles_def)
  then have "cover [tile_range 0 3] \<noteq> UNIV" by blast
  moreover have "\<not> TileBuffer_IsEmpty (sample_buffer ())" by (simp add: TileBuffer_IsEmpty_def sample_buffer_def)
  moreover have "ranges_ok [tile_range 0 3]" by (simp add: range_ok_def)
  ultimately show ?thesis
    using PostCurrentTask_barrier [of sample_manager "sample_task 10 [tile_range 0 3]" "sample_buffer ()" sample_hashes] st
    unfolding rs by (auto simp: tiles_def [of "tile_range 0 3"])
qed

text \<open>Scheduling a paint while a task is running and the client has no tile buffer
  dereferences a null pointer: the step that clips the next task does not check the buffer.\<close>

theorem SchedulePaint_null_buffer:
  assumes "current_task st = Some c" "pm_tile_buffer st = None"
  shows "SchedulePaint hs d y v s p rs st = None"
proof -
  have "ScheduleNextPaint hs [] (st1\<lparr>next_task := Some t\<rparr>) = None"
    if "make_task d y v s p' rs' st = (t, st1)" for p' rs' t st1
  proof -
    have "pm_tile_buffer st1 = None" using assms(2) by (subst make_task_fields(1) [OF that]) simp
    then show ?thesis by (simp add: ScheduleNextPaint_def merge_given_def merge_remaining_def clip_next_def)
  qed
  then show ?thesis using assms(1) by (simp add: SchedulePaint_def Let_def split: prod.splits)
qed

theorem SchedulePaint_null_buffer_witness:
  "SchedulePaint sample_hashes DocumentHolderWithView_default 0 600 (Fin 1) True [] (sample_manager\<lparr>pm_tile_buffer := None\<rparr>) = None"
  by (rule SchedulePaint_null_buffer [of _ "sample_task 10 [tile_range 0 3]"]) (simp_all add: sample_manager_def)

end
