(* ===== verification/Tile_Canvas.thy ===== *)
theory Tile_Canvas
  imports Tile_Buffer
begin

text \<open>
  The painting of a tile buffer to a canvas in office/lok_tilebuffer.cc: \<open>PaintToCanvas\<close>,
  \<open>Snapshot\<close> and \<open>MakeSnapshot\<close>. A canvas is the list of operations performed on it. The pool
  threads may repaint tiles during the second pass over the tiles: \<open>view n\<close> is the buffer and
  \<open>cancelled n\<close> the cancellation flag as its iteration \<open>n\<close> reads them.
\<close>

section \<open>State\<close>

record 'p Snapshot =
  snap_tiles :: "'p option list"
  snap_scale :: fp
  column_start :: u32
  column_end :: u32
  row_start :: u32
  row_end :: u32
  scroll_y_position :: u32

definition Snapshot_default :: "'p Snapshot" where
  "Snapshot_default = \<lparr>snap_tiles = [], snap_scale = Fin 0, column_start = 0, column_end = 0, row_start = 0,
     row_end = 0, scroll_y_position = 0\<rparr>"

definition Snapshot_make :: "'p option list \<Rightarrow> fp \<Rightarrow> int \<Rightarrow> int \<Rightarrow> int \<Rightarrow> int \<Rightarrow> int \<Rightarrow> 'p Snapshot" where
  "Snapshot_make ts scale cs ce rs re y = \<lparr>snap_tiles = ts, snap_scale = scale, column_start = word_of_int cs,
     column_end = word_of_int ce, row_start = word_of_int rs, row_end = word_of_int re, scroll_y_position = word_of_int y\<rparr>"

datatype 'p canvas_op = Translate fp fp | Scale fp | DrawImage "'p option" fp fp

section \<open>Loops over a rectangle of tiles\<close>

definition u32_range :: "u32 \<Rightarrow> u32 \<Rightarrow> u32 list" where
  "u32_range a b = map of_nat [unat a ..< unat b]"

text \<open>The iterations of the nested loops over rows and columns, in their order, as pairs of column and row.\<close>

definition grid :: "u32 \<Rightarrow> u32 \<Rightarrow> u32 \<Rightarrow> u32 \<Rightarrow> (u32 \<times> u32) list" where
  "grid rs re cs ce = concat (map (\<lambda>row. map (\<lambda>column. (column, row)) (u32_range cs ce)) (u32_range rs re))"

definition tile_at :: "'p TileBuffer \<Rightarrow> u32 \<times> u32 \<Rightarrow> u32" where
  "tile_at tb p = CoordToIndex (tb_columns tb) (fst p) (snd p)"

definition pool_image :: "'p TileBuffer \<Rightarrow> u32 \<Rightarrow> 'p option" where
  "pool_image tb i = pool_paint_images tb ! snd (TileToPoolIndex tb i)"

definition draw_at :: "'p option \<Rightarrow> u32 \<times> u32 \<Rightarrow> 'p canvas_op" where
  "draw_at img p = DrawImage img (f32_of_int (uint (word_of_int kTileSizePx * fst p))) (f32_of_int (uint (word_of_int kTileSizePx * snd p)))"

text \<open>The first and last rows and columns of the tiles a rectangle of the view touches.\<close>

definition visible :: "('r, 'f) gfx \<Rightarrow> 'r \<Rightarrow> 'p TileBuffer \<Rightarrow> u32 \<times> u32 \<times> u32 \<times> u32" where
  "visible g rect tb =
     (let offset_rect = RectF_Offset g (Fin 0) (f32_of_int (tb_y_pos tb)) (RectF_of g rect);
          tile_rect = TileRect g offset_rect (doc_width_scaled_px tb) (doc_height_scaled_px tb) (f32_of_int kTileSizePx)
      in (word_of_int (rect_y g tile_rect), word_of_int (rect_bottom g tile_rect),
          word_of_int (rect_x g tile_rect), word_of_int (rect_right g tile_rect)))"

section \<open>PaintToCanvas\<close>

definition add_missing :: "u32 \<Rightarrow> TileRange list \<Rightarrow> TileRange list" where
  "add_missing tile_index missing =
     (if missing = [] \<or> index_end (last missing) + 1 \<noteq> tile_index then missing @ [tile_range tile_index tile_index]
      else butlast missing @ [(last missing)\<lparr>index_end := tile_index\<rparr>])"

fun dry_run :: "'p TileBuffer \<Rightarrow> u32 \<Rightarrow> (u32 \<times> u32) list \<Rightarrow> TileRange list \<Rightarrow> int \<Rightarrow> TileRange list \<times> int" where
  "dry_run tb first_row [] missing last_good_row = (missing, last_good_row)"
| "dry_run tb first_row (p # ps) missing last_good_row =
     (if \<not> resident tb (tile_at tb p)
      then dry_run tb first_row ps (add_missing (tile_at tb p) missing)
             (if last_good_row = - 1 then max (int32 (uint (snd p))) (int32 (uint first_row)) else last_good_row)
      else dry_run tb first_row ps missing last_good_row)"

fun draw_tiles :: "(nat \<Rightarrow> bool) \<Rightarrow> (nat \<Rightarrow> 'p TileBuffer) \<Rightarrow> nat \<Rightarrow> (u32 \<times> u32) list \<Rightarrow> 'p canvas_op list" where
  "draw_tiles cancelled view n [] = []"
| "draw_tiles cancelled view n (p # ps) =
     (if cancelled n then []
      else if \<not> resident (view n) (tile_at (view n) p) then []
      else draw_at (pool_image (view n) (tile_at (view n) p)) p # draw_tiles cancelled view (Suc n) ps)"

text \<open>\<open>*it++\<close> beyond the tiles of the snapshot is undefined.\<close>

fun draw_snapshot :: "(nat \<Rightarrow> bool) \<Rightarrow> nat \<Rightarrow> (u32 \<times> u32) list \<Rightarrow> 'p option list \<Rightarrow> 'p canvas_op list option" where
  "draw_snapshot cancelled n [] it = Some []"
| "draw_snapshot cancelled n (p # ps) it =
     (if cancelled n then Some []
      else case it of
             [] \<Rightarrow> None
           | img # it' \<Rightarrow> map_option ((#) (draw_at img p)) (draw_snapshot cancelled (Suc n) ps it'))"

definition PaintToCanvas ::
  "('r, 'f) gfx \<Rightarrow> (nat \<Rightarrow> bool) \<Rightarrow> (nat \<Rightarrow> 'p TileBuffer) \<Rightarrow> 'p Snapshot \<Rightarrow> 'r \<Rightarrow> fp \<Rightarrow> bool \<Rightarrow> bool \<Rightarrow> 'p TileBuffer \<Rightarrow>
   (TileRange list \<times> 'p canvas_op list) option" where
  "PaintToCanvas g cancelled view snapshot rect total_scale scale_pending scrolling tb = do {
     neg_y \<leftarrow> int_checked (- tb_y_pos tb);
     let (rs, re, cs, ce) = visible g rect tb;
     let (missing, last_good_row) = dry_run tb rs (grid rs re cs ce) [] (- 1);
     let re = (if last_good_row \<noteq> - 1 then word_of_int last_good_row else re);
     let start = Translate (Fin 0) (f32_of_int neg_y);
     if scrolling \<or> (missing = [] \<and> \<not> scale_pending)
     then Some (missing, start # draw_tiles cancelled view 0 (grid rs re cs ce))
     else if snap_tiles snapshot = [] then Some (missing, [start])
     else do {
       drawn \<leftarrow> draw_snapshot cancelled 0
         (grid (row_start snapshot) (row_end snapshot) (column_start snapshot) (column_end snapshot)) (snap_tiles snapshot);
       Some (missing, [start, Translate (Fin 0) (f32_of_int (tb_y_pos tb)), Scale (f32_div total_scale (snap_scale snapshot)),
                       Translate (Fin 0) (f32_of_int neg_y)] @ drawn) } }"

section \<open>MakeSnapshot\<close>

fun collect_tiles :: "'p TileBuffer \<Rightarrow> (u32 \<times> u32) list \<Rightarrow> 'p option list option" where
  "collect_tiles tb [] = Some []"
| "collect_tiles tb (p # ps) =
     (if \<not> resident tb (tile_at tb p) then None
      else map_option ((#) (pool_image tb (tile_at tb p))) (collect_tiles tb ps))"

definition MakeSnapshot :: "('r, 'f) gfx \<Rightarrow> 'r \<Rightarrow> 'p TileBuffer \<Rightarrow> 'p Snapshot" where
  "MakeSnapshot g rect tb =
     (let (rs, re, cs, ce) = visible g rect tb
      in case collect_tiles tb (grid rs re cs ce) of
           None \<Rightarrow> Snapshot_default
         | Some ts \<Rightarrow> Snapshot_make ts (tb_scale tb) (int32 (uint cs)) (int32 (uint ce)) (int32 (uint rs)) (int32 (uint re)) (tb_y_pos tb))"

section \<open>Facts\<close>

lemma set_u32_range: "set (u32_range a b) = {i. a \<le> i \<and> i < b}"
proof (intro set_eqI iffI)
  fix i assume "i \<in> set (u32_range a b)"
  then obtain n where n: "i = of_nat n" "unat a \<le> n" "n < unat b" by (auto simp: u32_range_def)
  then have "unat i = n" using unat_u32_less [of b] by (simp add: unat_of_nat)
  with n show "i \<in> {i. a \<le> i \<and> i < b}" by (simp add: word_le_nat_alt word_less_nat_alt)
next
  fix i assume "i \<in> {i. a \<le> i \<and> i < b}"
  then have "unat i \<in> set [unat a ..< unat b]" by (simp add: word_le_nat_alt word_less_nat_alt)
  then have "of_nat (unat i) \<in> set (u32_range a b)" unfolding u32_range_def set_map by (rule imageI)
  then show "i \<in> set (u32_range a b)" by simp
qed

lemma set_grid: "set (grid rs re cs ce) = {(c, r). cs \<le> c \<and> c < ce \<and> rs \<le> r \<and> r < re}"
  by (auto simp: grid_def set_u32_range)

lemma length_grid: "length (grid rs re cs ce) = (unat re - unat rs) * (unat ce - unat cs)"
  by (simp add: grid_def length_concat o_def sum_list_triv u32_range_def)

lemma word_of_int32: "word_of_int (int32 (uint (w :: u32))) = w"
  by (simp add: int32_def)

lemma add_missing_ok:
  assumes "ranges_ok m" "\<forall>r \<in> set m. unat (index_end r) < 2 ^ 32 - 1" "unat i < 2 ^ 32 - 1"
  shows "ranges_ok (add_missing i m) \<and> (\<forall>r \<in> set (add_missing i m). unat (index_end r) < 2 ^ 32 - 1) \<and>
    cover (add_missing i m) = insert i (cover m) \<and> add_missing i m \<noteq> []"
proof (cases "m = [] \<or> index_end (last m) + 1 \<noteq> i")
  case True
  then show ?thesis using assms by (auto simp: add_missing_def range_ok_def tiles_def)
next
  case False
  then obtain rs l where split: "m = rs @ [l]" by (metis append_butlast_last_id)
  have eq: "index_end l + 1 = i" using False split by simp
  have l: "index_start l \<le> index_end l" "unat (index_end l) < 2 ^ 32 - 1" using assms(1,2) split by (simp_all add: range_ok_def)
  then have i: "unat i = Suc (unat (index_end l))" unfolding eq [symmetric] by (simp add: unat_word_ariths)
  have "x \<in> tiles (l\<lparr>index_end := i\<rparr>) \<longleftrightarrow> x \<in> insert i (tiles l)" for x
    using i l(1) by (auto simp: tiles_def word_le_nat_alt word_unat_eq_iff)
  then have "tiles (l\<lparr>index_end := i\<rparr>) = insert i (tiles l)" by blast
  moreover have "add_missing i m = rs @ [l\<lparr>index_end := i\<rparr>]" using False split by (simp add: add_missing_def)
  moreover have "index_start l \<le> i" using l(1) i by (simp add: word_le_nat_alt)
  ultimately show ?thesis using assms split by (auto simp: range_ok_def)
qed

lemma dry_run_missing:
  assumes "ranges_ok m" "\<forall>r \<in> set m. unat (index_end r) < 2 ^ 32 - 1" "\<forall>p \<in> set ps. unat (tile_at tb p) < 2 ^ 32 - 1"
  shows "ranges_ok (fst (dry_run tb fr ps m lg)) \<and>
    cover (fst (dry_run tb fr ps m lg)) = cover m \<union> tile_at tb ` {p \<in> set ps. \<not> resident tb (tile_at tb p)} \<and>
    (fst (dry_run tb fr ps m lg) = [] \<longleftrightarrow> m = [] \<and> (\<forall>p \<in> set ps. resident tb (tile_at tb p)))"
  using assms
proof (induction ps arbitrary: m lg)
  case (Cons p ps)
  show ?case
  proof (cases "resident tb (tile_at tb p)")
    case True
    then show ?thesis using Cons.IH [of m lg] Cons.prems by auto
  next
    case False
    let ?m = "add_missing (tile_at tb p) m"
    note m = add_missing_ok [OF Cons.prems(1,2), of "tile_at tb p"]
    show ?thesis
      using Cons.IH [of ?m "if lg = - 1 then max (int32 (uint (snd p))) (int32 (uint fr)) else lg"] m Cons.prems(3) False
      by auto
  qed
qed simp

lemma dry_run_row_kept: "lg \<noteq> - 1 \<Longrightarrow> snd (dry_run tb fr ps m lg) = lg"
  by (induction ps arbitrary: m) simp_all

lemma int32_uint: "unat w < 2 ^ 31 \<Longrightarrow> int32 (uint (w :: u32)) = uint w"
proof -
  assume "unat w < 2 ^ 31"
  then have "int (unat w) < int (2 ^ 31)" by (simp only: of_nat_less_iff)
  then have "uint w < 2147483648" "0 \<le> uint w" by simp_all
  moreover have "int32_min = - 2147483648" "int32_max = 2147483647" by (simp_all add: int32_min_def int32_max_def)
  ultimately show ?thesis by (intro int32_id; linarith)
qed

text \<open>The row recorded by the dry run is that of the first missing tile.\<close>

lemma dry_run_row:
  assumes "\<forall>p \<in> set ps. fr \<le> snd p \<and> unat (snd p) < 2 ^ 31"
  shows "(\<forall>p \<in> set ps. resident tb (tile_at tb p)) \<and> snd (dry_run tb fr ps m (- 1)) = - 1 \<or>
    (\<exists>xs p ys. ps = xs @ p # ys \<and> (\<forall>q \<in> set xs. resident tb (tile_at tb q)) \<and> \<not> resident tb (tile_at tb p) \<and>
       snd (dry_run tb fr ps m (- 1)) = uint (snd p))"
  using assms
proof (induction ps)
  case (Cons p ps)
  show ?case
  proof (cases "resident tb (tile_at tb p)")
    case True
    from Cons consider "(\<forall>p \<in> set ps. resident tb (tile_at tb p)) \<and> snd (dry_run tb fr ps m (- 1)) = - 1"
      | xs q ys where "ps = xs @ q # ys" "\<forall>q \<in> set xs. resident tb (tile_at tb q)" "\<not> resident tb (tile_at tb q)"
        "snd (dry_run tb fr ps m (- 1)) = uint (snd q)" by auto
    then show ?thesis
    proof cases
      case 1
      then show ?thesis using True by simp
    next
      case 2
      have "p # ps = (p # xs) @ q # ys" using 2(1) by simp
      then show ?thesis using 2 True by (intro disjI2 exI [of _ "p # xs"] exI [of _ q] exI [of _ ys]) simp
    qed
  next
    case False
    have p: "fr \<le> snd p" "unat (snd p) < 2 ^ 31" using Cons.prems by simp_all
    then have fr: "unat fr < 2 ^ 31" by (simp add: word_le_nat_alt)
    have "max (int32 (uint (snd p))) (int32 (uint fr)) = uint (snd p)"
      using int32_uint [OF p(2)] int32_uint [OF fr] p(1) by (simp add: max_def word_le_def)
    moreover have "uint (snd p) \<noteq> - 1" using unsigned_greater_eq [where ?'a = int, of "snd p"] by linarith
    ultimately have "snd (dry_run tb fr (p # ps) m (- 1)) = uint (snd p)"
      using False by (simp add: dry_run_row_kept)
    then show ?thesis using False by (intro disjI2 exI [of _ "[]"] exI [of _ p] exI [of _ ps]) simp
  qed
qed simp

lemma sorted_u32_range: "sorted (u32_range a b)"
proof -
  have "sorted_wrt (\<lambda>x y. (of_nat x :: u32) \<le> of_nat y) [unat a ..< unat b]"
  proof (rule sorted_wrt_mono_rel [of _ "(<)"])
    fix x y assume "x \<in> set [unat a ..< unat b]" "y \<in> set [unat a ..< unat b]" "x < y"
    moreover from this have "unat (of_nat x :: u32) = x" "unat (of_nat y :: u32) = y"
      using unat_u32_less [of b] by (simp_all add: unat_of_nat)
    ultimately show "(of_nat x :: u32) \<le> of_nat y" by (simp add: word_le_nat_alt)
  qed simp
  then show ?thesis by (simp add: u32_range_def sorted_wrt_map)
qed

lemma grid_rows_sorted: "sorted_wrt (\<lambda>p q. snd p \<le> snd q) (grid rs re cs ce)"
proof -
  have "sorted_wrt (\<lambda>p q. snd p \<le> snd q) (concat (map (\<lambda>r. map (\<lambda>c. (c, r)) C) R))"
    if "sorted R" for C R :: "u32 list"
    using that
  proof (induction R)
    case (Cons r R)
    then show ?case by (auto simp: sorted_wrt_append sorted_wrt_map sorted_wrt_true)
  qed simp
  then show ?thesis using sorted_u32_range by (simp add: grid_def)
qed

lemma grid_before:
  assumes "grid rs re cs ce = xs @ p # ys"
  shows "set (grid rs (snd p) cs ce) \<subseteq> set xs"
proof
  fix q assume q: "q \<in> set (grid rs (snd p) cs ce)"
  have p: "p \<in> set (grid rs re cs ce)" using assms by simp
  then have "q \<in> set (xs @ p # ys)" using q unfolding assms [symmetric] by (auto simp: set_grid)
  moreover have "snd q < snd p" using q by (auto simp: set_grid)
  moreover have "\<forall>y \<in> set ys. snd p \<le> snd y"
    using grid_rows_sorted [of rs re cs ce] unfolding assms by (simp add: sorted_wrt_append)
  ultimately show "q \<in> set xs" by fastforce
qed

lemma draw_tiles_all:
  assumes "\<forall>p \<in> set ps. resident tb (tile_at tb p)"
  shows "draw_tiles (\<lambda>_. False) (\<lambda>_. tb) n ps = map (\<lambda>p. draw_at (pool_image tb (tile_at tb p)) p) ps"
  using assms by (induction ps arbitrary: n) simp_all

lemma draw_snapshot_images:
  assumes "draw_snapshot cancelled n ps it = Some ops" "DrawImage img x y \<in> set ops"
  shows "img \<in> set it"
  using assms
proof (induction ps arbitrary: n it ops)
  case (Cons p ps)
  then show ?case by (cases it) (fastforce simp: draw_at_def split: if_splits)+
qed simp

lemma draw_snapshot_defined:
  "length ps \<le> length it \<Longrightarrow> \<exists>ops. draw_snapshot cancelled n ps it = Some ops"
  by (induction cancelled n ps it rule: draw_snapshot.induct) (auto split: list.splits)

lemma collect_tiles_length: "collect_tiles tb ps = Some ts \<Longrightarrow> length ts = length ps"
  by (induction ps arbitrary: ts) (auto split: if_splits)

section \<open>Properties\<close>

definition snapshot_ok :: "'p Snapshot \<Rightarrow> bool" where
  "snapshot_ok s \<longleftrightarrow> snap_tiles s = [] \<or>
     length (snap_tiles s) = length (grid (row_start s) (row_end s) (column_start s) (column_end s))"

text \<open>The visible rows and columns lie in the grid of tiles.\<close>

fun view_ok :: "'p TileBuffer \<Rightarrow> u32 \<times> u32 \<times> u32 \<times> u32 \<Rightarrow> bool" where
  "view_ok tb (rs, re, cs, ce) \<longleftrightarrow> ce \<le> tb_columns tb \<and> re \<le> tb_rows tb \<and>
     unat (tb_columns tb) * unat (tb_rows tb) < 2 ^ 32 - 1 \<and> unat re < 2 ^ 31"

lemma view_ok_tile:
  assumes "view_ok tb (rs, re, cs, ce)" "p \<in> set (grid rs re cs ce)"
  shows "unat (tile_at tb p) < 2 ^ 32 - 1" "rs \<le> snd p" "unat (snd p) < 2 ^ 31"
proof -
  obtain c r where p: "p = (c, r)" "c < ce" "r < re" "rs \<le> r" using assms(2) by (auto simp: set_grid)
  then have c: "unat c < unat (tb_columns tb)" and r: "Suc (unat r) \<le> unat (tb_rows tb)"
    using assms(1) by (auto simp: word_le_nat_alt word_less_nat_alt)
  have "unat r * unat (tb_columns tb) + unat (tb_columns tb) \<le> unat (tb_rows tb) * unat (tb_columns tb)"
    using mult_le_mono1 [OF r, of "unat (tb_columns tb)"] by simp
  then have b: "unat r * unat (tb_columns tb) + unat c < 2 ^ 32 - 1"
    using c assms(1) by (simp add: mult.commute)
  then show "unat (tile_at tb p) < 2 ^ 32 - 1"
    by (simp add: tile_at_def CoordToIndex_def p unat_word_ariths)
  show "rs \<le> snd p" using p by simp
  show "unat (snd p) < 2 ^ 31" using p assms(1) by (simp add: word_less_nat_alt)
qed

text \<open>MakeSnapshot returns either an empty snapshot or one with exactly one image for every tile
  of its rectangle, so that drawing it on a canvas never reads past its images.\<close>

theorem MakeSnapshot_ok:
  "snapshot_ok (MakeSnapshot g rect tb) \<and>
   (\<exists>ops. draw_snapshot cancelled 0 (grid (row_start (MakeSnapshot g rect tb)) (row_end (MakeSnapshot g rect tb))
      (column_start (MakeSnapshot g rect tb)) (column_end (MakeSnapshot g rect tb))) (snap_tiles (MakeSnapshot g rect tb)) = Some ops)"
proof -
  have ok: "length (snap_tiles (MakeSnapshot g rect tb)) =
      length (grid (row_start (MakeSnapshot g rect tb)) (row_end (MakeSnapshot g rect tb))
        (column_start (MakeSnapshot g rect tb)) (column_end (MakeSnapshot g rect tb)))"
    by (auto simp: MakeSnapshot_def Snapshot_default_def Snapshot_make_def word_of_int32 length_grid
        dest: collect_tiles_length split: option.splits prod.splits)
  then show ?thesis by (auto simp: snapshot_ok_def intro!: draw_snapshot_defined)
qed

text \<open>PaintToCanvas reports as missing exactly the visible tiles that are not in the pool. When
  tiles are missing and the view is not scrolling it draws no tile of the pool, only images of
  the snapshot.\<close>

theorem PaintToCanvas_missing:
  assumes y: "int32_min < tb_y_pos tb" "tb_y_pos tb \<le> int32_max" and vis: "visible g rect tb = (rs, re, cs, ce)"
    and ok: "view_ok tb (rs, re, cs, ce)" "snapshot_ok snapshot"
  shows "\<exists>missing ops. PaintToCanvas g cancelled view snapshot rect total_scale scale_pending scrolling tb = Some (missing, ops) \<and>
    ranges_ok missing \<and> cover missing = tile_at tb ` {p \<in> set (grid rs re cs ce). \<not> resident tb (tile_at tb p)} \<and>
    (\<not> scrolling \<and> missing \<noteq> [] \<longrightarrow> (\<forall>img x y. DrawImage img x y \<in> set ops \<longrightarrow> img \<in> set (snap_tiles snapshot)))"
proof -
  have neg: "int_checked (- tb_y_pos tb) = Some (- tb_y_pos tb)"
    using y by (intro int_checked_Some) (simp_all add: int32_min_def int32_max_def)
  obtain m lg where dry: "dry_run tb rs (grid rs re cs ce) [] (- 1) = (m, lg)" by fastforce
  have m: "ranges_ok m" "cover m = tile_at tb ` {p \<in> set (grid rs re cs ce). \<not> resident tb (tile_at tb p)}"
    using dry_run_missing [of "[]" "grid rs re cs ce" tb rs "- 1"] view_ok_tile(1) [OF ok(1)] by (simp_all add: dry)
  let ?snap = "grid (row_start snapshot) (row_end snapshot) (column_start snapshot) (column_end snapshot)"
  obtain drawn where drawn: "snap_tiles snapshot \<noteq> [] \<Longrightarrow> draw_snapshot cancelled 0 ?snap (snap_tiles snapshot) = Some drawn"
    using draw_snapshot_defined [of ?snap "snap_tiles snapshot" cancelled 0] ok(2) by (auto simp: snapshot_ok_def)
  then show ?thesis using m draw_snapshot_images [of cancelled 0 ?snap "snap_tiles snapshot"]
    by (simp add: PaintToCanvas_def neg vis dry Let_def) blast
qed

text \<open>A geometry for the witnesses, in which rectangles are given by the tiles they touch.\<close>

definition sample_gfx :: "(int \<times> int \<times> int \<times> int, int \<times> int \<times> int \<times> int) gfx" where
  "sample_gfx = \<lparr>RectF_of = id, RectF_size = \<lambda>_ _. (0, 0, 0, 0), RectF_Offset = \<lambda>_ _ r. r, IntersectRects = \<lambda>a b. a,
     RectF_Scale = \<lambda>_ r. r, ToEnclosingRect = id, rect_x = fst, rect_y = \<lambda>r. fst (snd r),
     rect_right = \<lambda>r. fst (snd (snd r)), rect_bottom = \<lambda>r. snd (snd (snd r))\<rparr>"

lemma sample_visible: "visible sample_gfx (0, 1, 2, 3) tb = (1, 3, 0, 2)"
  by (simp add: visible_def TileRect_def sample_gfx_def Let_def)

lemma sample_view_ok: "view_ok (sample_buffer raw) (1, 3, 0, 2)"
  by (simp add: sample_buffer_def)

theorem PaintToCanvas_missing_witness:
  "\<exists>missing ops. PaintToCanvas sample_gfx (\<lambda>_. False) (\<lambda>_. sample_buffer ()) Snapshot_default (0, 1, 2, 3) (Fin 1) False False (sample_buffer ()) = Some (missing, ops) \<and>
    ranges_ok missing \<and> cover missing = tile_at (sample_buffer ()) ` {p \<in> set (grid 1 3 0 2). \<not> resident (sample_buffer ()) (tile_at (sample_buffer ()) p)} \<and>
    (missing \<noteq> [] \<longrightarrow> (\<forall>img x y. DrawImage img x y \<in> set ops \<longrightarrow> img \<in> set (snap_tiles (Snapshot_default :: unit Snapshot))))"
proof -
  have "int32_min < tb_y_pos (sample_buffer ())" "tb_y_pos (sample_buffer ()) \<le> int32_max"
    by (simp_all add: sample_buffer_def TileBuffer_init_def int32_min_def int32_max_def)
  moreover have "snapshot_ok (Snapshot_default :: unit Snapshot)" by (simp add: snapshot_ok_def Snapshot_default_def)
  ultimately show ?thesis
    using PaintToCanvas_missing [OF _ _ sample_visible sample_view_ok, of "()" Snapshot_default "\<lambda>_. False" "\<lambda>_. sample_buffer ()" "Fin 1" False False]
    by simp
qed

text \<open>While scrolling, PaintToCanvas draws only complete rows: the rows it draws are those above
  the first row with a missing tile (all visible rows if none is missing), each visible tile of
  these rows is in the pool and is drawn exactly once, in order, with its image.\<close>

theorem PaintToCanvas_rows:
  assumes y: "int32_min < tb_y_pos tb" "tb_y_pos tb \<le> int32_max" and vis: "visible g rect tb = (rs, re, cs, ce)"
    and ok: "view_ok tb (rs, re, cs, ce)"
  shows "\<exists>missing last. PaintToCanvas g (\<lambda>_. False) (\<lambda>_. tb) snapshot rect total_scale scale_pending True tb =
      Some (missing, Translate (Fin 0) (f32_of_int (- tb_y_pos tb)) #
             map (\<lambda>p. draw_at (pool_image tb (tile_at tb p)) p) (grid rs last cs ce)) \<and>
    (\<forall>p \<in> set (grid rs last cs ce). resident tb (tile_at tb p)) \<and>
    (last = re \<and> missing = [] \<or> (\<exists>c. (c, last) \<in> set (grid rs re cs ce) \<and> \<not> resident tb (tile_at tb (c, last))))"
proof -
  have neg: "int_checked (- tb_y_pos tb) = Some (- tb_y_pos tb)"
    using y by (intro int_checked_Some) (simp_all add: int32_min_def int32_max_def)
  obtain m lg where dry: "dry_run tb rs (grid rs re cs ce) [] (- 1) = (m, lg)" by fastforce
  have m: "m = [] \<longleftrightarrow> (\<forall>p \<in> set (grid rs re cs ce). resident tb (tile_at tb p))"
    using dry_run_missing [of "[]" "grid rs re cs ce" tb rs "- 1"] view_ok_tile(1) [OF ok] by (simp add: dry)
  have run: "PaintToCanvas g (\<lambda>_. False) (\<lambda>_. tb) snapshot rect total_scale scale_pending True tb =
      Some (m, Translate (Fin 0) (f32_of_int (- tb_y_pos tb)) #
        draw_tiles (\<lambda>_. False) (\<lambda>_. tb) 0 (grid rs (if lg \<noteq> - 1 then word_of_int lg else re) cs ce))"
    by (simp add: PaintToCanvas_def neg vis dry Let_def)
  from dry_run_row [of "grid rs re cs ce" rs tb "[]"] view_ok_tile(2,3) [OF ok] dry
  consider "\<forall>p \<in> set (grid rs re cs ce). resident tb (tile_at tb p)" "lg = - 1"
    | xs p ys where "grid rs re cs ce = xs @ p # ys" "\<forall>q \<in> set xs. resident tb (tile_at tb q)"
      "\<not> resident tb (tile_at tb p)" "lg = uint (snd p)" by auto
  then show ?thesis
  proof cases
    case 1
    then show ?thesis unfolding run using m by (intro exI [of _ m] exI [of _ re]) (simp add: draw_tiles_all)
  next
    case 2
    have "uint (snd p) \<noteq> - 1" using unsigned_greater_eq [where ?'a = int, of "snd p"] by linarith
    then have last: "(if lg \<noteq> - 1 then word_of_int lg else re) = snd p" using 2(4) by simp
    have all: "\<forall>q \<in> set (grid rs (snd p) cs ce). resident tb (tile_at tb q)" using grid_before [OF 2(1)] 2(2) by blast
    have "(fst p, snd p) \<in> set (grid rs re cs ce)" "\<not> resident tb (tile_at tb (fst p, snd p))" using 2(1,3) by simp_all
    then have "\<exists>c. (c, snd p) \<in> set (grid rs re cs ce) \<and> \<not> resident tb (tile_at tb (c, snd p))" by blast
    then show ?thesis unfolding run last using all
      by - (rule exI [of _ m], rule exI [of _ "snd p"], simp only: draw_tiles_all [OF all], blast)
  qed
qed

theorem PaintToCanvas_rows_witness:
  "\<exists>missing last. PaintToCanvas sample_gfx (\<lambda>_. False) (\<lambda>_. sample_buffer ()) Snapshot_default (0, 1, 2, 3) (Fin 1) False True (sample_buffer ()) =
      Some (missing, Translate (Fin 0) (f32_of_int 0) #
        map (\<lambda>p. draw_at (pool_image (sample_buffer ()) (tile_at (sample_buffer ()) p)) p) (grid 1 last 0 2)) \<and>
    (\<forall>p \<in> set (grid 1 last 0 2). resident (sample_buffer ()) (tile_at (sample_buffer ()) p)) \<and>
    (last = 3 \<and> missing = [] \<or> (\<exists>c. (c, last) \<in> set (grid 1 3 0 2) \<and> \<not> resident (sample_buffer ()) (tile_at (sample_buffer ()) (c, last))))"
proof -
  have "int32_min < tb_y_pos (sample_buffer ())" "tb_y_pos (sample_buffer ()) \<le> int32_max" "tb_y_pos (sample_buffer ()) = 0"
    by (simp_all add: sample_buffer_def TileBuffer_init_def int32_min_def int32_max_def)
  then show ?thesis
    using PaintToCanvas_rows [OF _ _ sample_visible sample_view_ok, of "()" Snapshot_default "Fin 1" False] by simp
qed

end
