(* ===== verification/Document_Client.thy ===== *)
theory Document_Client
  imports Office_Instance Promise Paint_Manager Tile_Canvas
begin

text \<open>
  office/document_client.h and document_client.cc, with office/v8_callback.h and
  office/renderer_transferable.h: the script-visible client of a document. This theory holds its
  state, the event bus, the mount counter, the transfer of a renderer's state and the document
  callbacks; \<open>Document_Commands\<close> holds the calls that go to LibreOfficeKit.

  Scripts are a parameter: \<open>js\<close> says what a listener does to the client when it is called, so a
  listener may call back into the client. LibreOfficeKit is a record of functions on its own
  state, as in \<open>Document_Holder\<close>.
\<close>

section \<open>State\<close>

record ('r, 'p) RendererTransferable =
  rt_tile_buffer :: "'p TileBuffer option"
  rt_paint_manager :: "'p PaintManager option"
  rt_snapshot :: "'p Snapshot"
  rt_page_rects :: "'r list"
  rt_first_intersect :: int
  rt_last_intersect :: int
  rt_last_cursor_rect :: string
  rt_zoom :: fp

text \<open>The default constructor leaves \<open>zoom\<close> uninitialised: \<open>mem\<close> is what the memory held.\<close>

definition RendererTransferable_default :: "fp \<Rightarrow> ('r, 'p) RendererTransferable" where
  "RendererTransferable_default mem = \<lparr>rt_tile_buffer = None, rt_paint_manager = None, rt_snapshot = Snapshot_default,
     rt_page_rects = [], rt_first_intersect = - 1, rt_last_intersect = - 1, rt_last_cursor_rect = [], rt_zoom = mem\<rparr>"

text \<open>A \<open>SafeV8Function\<close>: the function its persistent handle holds, \<^const>\<open>None\<close> for an empty handle.\<close>

type_synonym SafeV8Function = "nat option"

definition SafeV8Function_IsAlive :: "SafeV8Function \<Rightarrow> bool" where
  "SafeV8Function_IsAlive f \<longleftrightarrow> f \<noteq> None"

text \<open>
  A vector of listeners carries the number of operations so far that invalidate its iterators.
  The members \<open>dc_self\<close> (the client's address), \<open>dc_calls\<close> (the listeners called and their arguments)
  and \<open>dc_ready_tasks\<close> (the posted calls of \<open>EmitReady\<close>) record effects on the outside.
\<close>

record listeners =
  ls_generation :: nat
  ls_functions :: "SafeV8Function list"

record ('s, 'j, 'r, 'p) DocumentClient =
  document_holder :: DocumentHolderWithView
  document_height_in_twips :: int
  document_width_in_twips :: int
  page_rects :: "'r list"
  state_change_buffer :: "string list"
  is_ready :: bool
  tile_buffers_to_restore :: "nat \<Rightarrow> ('r, 'p) RendererTransferable option"
  mount_counter :: int
  event_listeners :: "int \<Rightarrow> listeners option"
  event_types_registered :: "int set"
  can_undo :: bool
  can_redo :: bool
  dc_isolate :: "nat option"
  mounted :: "nat option"
  dc_self :: observer
  dc_calls :: "(nat \<times> ('s, 'j) v8_value) list"
  dc_ready_tasks :: "(nat \<times> nat) list"

text \<open>The members no constructor initialises: the ready flag and the size of the document.\<close>

record uninitialised =
  mem_is_ready :: bool
  mem_height :: int
  mem_width :: int

section \<open>Construction\<close>

definition internal_monitors :: "lok_callback_type list" where
  "internal_monitors = [LOK_CALLBACK_DOCUMENT_SIZE_CHANGED, LOK_CALLBACK_INVALIDATE_TILES, LOK_CALLBACK_STATE_CHANGED]"

text \<open>The client and the office instance after the constructor; \<open>this\<close> is the client's address.\<close>

definition DocumentClient_make ::
  "(lok_callback_type \<Rightarrow> int) \<Rightarrow> 'l observer_list \<Rightarrow> ('w, 'c) DocWorld \<Rightarrow> uninitialised \<Rightarrow> observer \<Rightarrow> DocumentHolderWithView \<Rightarrow>
   'l OfficeInstance \<Rightarrow> ('s, 'j, 'r, 'p) DocumentClient \<times> 'l OfficeInstance" where
  "DocumentClient_make code ol st mem this d oi =
     (\<lparr>document_holder = d, document_height_in_twips = mem_height mem, document_width_in_twips = mem_width mem,
       page_rects = [], state_change_buffer = [], is_ready = mem_is_ready mem, tile_buffers_to_restore = (\<lambda>_. None),
       mount_counter = 0, event_listeners = (\<lambda>_. None), event_types_registered = set (map code internal_monitors),
       can_undo = False, can_redo = False, dc_isolate = None, mounted = None, dc_self = this, dc_calls = [], dc_ready_tasks = []\<rparr>,
      AddDestroyedObserver ol this
        (fold (\<lambda>t. holder_AddDocumentObserver ol st d (code t) this) internal_monitors oi))"

definition DocumentClient_destroy ::
  "'l observer_list \<Rightarrow> ('w, 'c) DocWorld \<Rightarrow> ('s, 'j, 'r, 'p) DocumentClient \<Rightarrow> 'l OfficeInstance \<Rightarrow> 'l OfficeInstance" where
  "DocumentClient_destroy ol st c oi =
     RemoveDestroyedObserver ol (dc_self c)
       (if to_bool st (document_holder c) then holder_RemoveDocumentObservers st (document_holder c) oi else oi)"

section \<open>Accessors\<close>

definition client_IsReady :: "('s, 'j, 'r, 'p) DocumentClient \<Rightarrow> bool" where
  "client_IsReady c = is_ready c"

definition client_PageRects :: "('s, 'j, 'r, 'p) DocumentClient \<Rightarrow> 'r list" where
  "client_PageRects c = page_rects c"

text \<open>A \<open>gfx::Size\<close>: the \<open>long\<close> members are converted to \<open>int\<close>, and a size is never negative.\<close>

definition DocumentSizeTwips :: "('s, 'j, 'r, 'p) DocumentClient \<Rightarrow> int \<times> int" where
  "DocumentSizeTwips c = (max 0 (int32 (document_width_in_twips c)), max 0 (int32 (document_height_in_twips c)))"

definition client_CanUndo :: "('s, 'j, 'r, 'p) DocumentClient \<Rightarrow> bool" where
  "client_CanUndo c = can_undo c"

definition client_CanRedo :: "('s, 'j, 'r, 'p) DocumentClient \<Rightarrow> bool" where
  "client_CanRedo c = can_redo c"

definition GetDocument ::
  "('s, 'j, 'r, 'p) DocumentClient \<Rightarrow> ('w, 'c) DocWorld \<Rightarrow> DocumentHolderWithView \<times> ('w, 'c) DocWorld" where
  "GetDocument c st = copy_construct (document_holder c) st"

section \<open>Size\<close>

text \<open>The LibreOfficeKit calls on a document, each on the document's address.\<close>

record 'w lok_size =
  getDocumentSize :: "nat \<Rightarrow> 'w \<Rightarrow> (int \<times> int) \<times> 'w"
  getPartPageRectangles :: "nat \<Rightarrow> 'w \<Rightarrow> bytes option \<times> 'w"
  getParts :: "nat \<Rightarrow> 'w \<Rightarrow> int \<times> 'w"

text \<open>\<open>document_holder_->f(...)\<close>: the view is made current first.\<close>

definition lok_call ::
  "'w lok_document \<Rightarrow> DocumentHolderWithView \<Rightarrow> (nat \<Rightarrow> 'w \<Rightarrow> 'a \<times> 'w) \<Rightarrow> ('w, 'c) DocWorld \<Rightarrow> ('a \<times> ('w, 'c) DocWorld) option" where
  "lok_call lok d f st = do {
     (doc, st1) \<leftarrow> deref lok d st;
     let (r, w) = f doc (dw_lok st1);
     Some (r, st1\<lparr>dw_lok := w\<rparr>) }"

definition GetNumberOfPages ::
  "'w lok_document \<Rightarrow> 'w lok_size \<Rightarrow> ('s, 'j, 'r, 'p) DocumentClient \<Rightarrow> ('w, 'c) DocWorld \<Rightarrow> (int \<times> ('w, 'c) DocWorld) option" where
  "GetNumberOfPages lok sz c st = lok_call lok (document_holder c) (getParts sz) st"

text \<open>
  A null string has no view, and reserving a negative number of rectangles, as a huge
  \<open>size_t\<close>, ends the process.
\<close>

definition RefreshSize ::
  "'w lok_document \<Rightarrow> 'w lok_size \<Rightarrow> (int \<Rightarrow> int \<Rightarrow> int \<Rightarrow> int \<Rightarrow> 'r) \<Rightarrow> 'r \<Rightarrow> ('s, 'j, 'r, 'p) DocumentClient \<Rightarrow> ('w, 'c) DocWorld \<Rightarrow>
   (('s, 'j, 'r, 'p) DocumentClient \<times> ('w, 'c) DocWorld) option" where
  "RefreshSize lok sz Rect Rect0 c st = do {
     ((width, height), st1) \<leftarrow> lok_call lok (document_holder c) (getDocumentSize sz) st;
     let c1 = c\<lparr>document_width_in_twips := width, document_height_in_twips := height\<rparr>;
     (page_rect, st2) \<leftarrow> lok_call lok (document_holder c) (getPartPageRectangles sz) st1;
     page_rect_sv \<leftarrow> page_rect;
     (new_size, st3) \<leftarrow> GetNumberOfPages lok sz c1 st2;
     (rects, _) \<leftarrow> (if new_size < 0 then None else ParseMultipleRects Rect Rect0 page_rect_sv []);
     Some (c1\<lparr>page_rects := rects\<rparr>, st3) }"

section \<open>Mounting\<close>

text \<open>\<open>base::AtomicRefCount\<close>: an \<open>int\<close> that wraps; the result is the old value, and whether the new one is not 0.\<close>

definition AtomicRefCount_Increment :: "int \<Rightarrow> int \<times> int" where
  "AtomicRefCount_Increment n = (n, int32 (n + 1))"

definition AtomicRefCount_Decrement :: "int \<Rightarrow> bool \<times> int" where
  "AtomicRefCount_Decrement n = (n \<noteq> 1, int32 (n - 1))"

text \<open>\<open>GetWrapper\<close> is V8's, and may fail; \<open>current_context\<close> is the context \<open>EmitReady\<close> will run in.\<close>

definition Mount ::
  "'w lok_document \<Rightarrow> 'w lok_size \<Rightarrow> (int \<Rightarrow> int \<Rightarrow> int \<Rightarrow> int \<Rightarrow> 'r) \<Rightarrow> 'r \<Rightarrow> nat option \<Rightarrow> nat \<Rightarrow> nat \<Rightarrow>
   ('s, 'j, 'r, 'p) DocumentClient \<Rightarrow> ('w, 'c) DocWorld \<Rightarrow> (bool \<times> ('s, 'j, 'r, 'p) DocumentClient \<times> ('w, 'c) DocWorld) option" where
  "Mount lok sz Rect Rect0 wrapper isolate current_context c st =
     (let (old, n) = AtomicRefCount_Increment (mount_counter c); c1 = c\<lparr>mount_counter := n\<rparr>
      in if old \<noteq> 0 then Some (False, c1, st)
         else do {
           let c2 = (case wrapper of None \<Rightarrow> c1 | Some v \<Rightarrow> c1\<lparr>mounted := Some v\<rparr>);
           (c3, st1) \<leftarrow> RefreshSize lok sz Rect Rect0 c2 st;
           Some (True, c3\<lparr>dc_ready_tasks := dc_ready_tasks c3 @ [(isolate, current_context)]\<rparr>, st1) })"

definition Unmount :: "('s, 'j, 'r, 'p) DocumentClient \<Rightarrow> bool \<times> ('s, 'j, 'r, 'p) DocumentClient" where
  "Unmount c =
     (let (not_last_mount, n) = AtomicRefCount_Decrement (mount_counter c); c1 = c\<lparr>mount_counter := n\<rparr>
      in if not_last_mount then (False, c1) else (True, c1\<lparr>mounted := None\<rparr>))"

section \<open>Transfer of a renderer\<close>

definition MarkRendererWillRemount ::
  "nat \<Rightarrow> ('r, 'p) RendererTransferable \<Rightarrow> ('s, 'j, 'r, 'p) DocumentClient \<Rightarrow> ('s, 'j, 'r, 'p) DocumentClient" where
  "MarkRendererWillRemount restore_key t c =
     c\<lparr>tile_buffers_to_restore := (tile_buffers_to_restore c)(restore_key \<mapsto> t)\<rparr>"

definition GetRestoredRenderer ::
  "fp \<Rightarrow> nat \<Rightarrow> ('s, 'j, 'r, 'p) DocumentClient \<Rightarrow> ('r, 'p) RendererTransferable \<times> ('s, 'j, 'r, 'p) DocumentClient" where
  "GetRestoredRenderer mem restore_key c =
     (case tile_buffers_to_restore c restore_key of
        None \<Rightarrow> (RendererTransferable_default mem, c)
      | Some t \<Rightarrow> (t, c\<lparr>tile_buffers_to_restore := (tile_buffers_to_restore c)(restore_key := None)\<rparr>))"

section \<open>The event bus\<close>

definition listeners_of :: "('s, 'j, 'r, 'p) DocumentClient \<Rightarrow> int \<Rightarrow> SafeV8Function list" where
  "listeners_of c type = (case event_listeners c type of None \<Rightarrow> [] | Some l \<Rightarrow> ls_functions l)"

text \<open>Appending to a vector invalidates its iterators.\<close>

definition On ::
  "(lok_callback_type \<Rightarrow> int) \<Rightarrow> 'l observer_list \<Rightarrow> ('w, 'c) DocWorld \<Rightarrow> nat \<Rightarrow> string \<Rightarrow> SafeV8Function \<Rightarrow>
   ('s, 'j, 'r, 'p) DocumentClient \<Rightarrow> 'l OfficeInstance \<Rightarrow> ('s, 'j, 'r, 'p) DocumentClient \<times> 'l OfficeInstance" where
  "On code ol st isolate event_name f c oi =
     (let type = EventStringToType code event_name;
          l = (case event_listeners c type of None \<Rightarrow> \<lparr>ls_generation = 0, ls_functions = []\<rparr> | Some l \<Rightarrow> l);
          c1 = c\<lparr>event_listeners := (event_listeners c)
                   (type \<mapsto> \<lparr>ls_generation = ls_generation l + 1, ls_functions = ls_functions l @ [f]\<rparr>)\<rparr>;
          (c2, oi2) =
            (if type \<in> event_types_registered c1 then (c1, oi)
             else (c1\<lparr>event_types_registered := insert type (event_types_registered c1)\<rparr>,
                   holder_AddDocumentObserver ol st (document_holder c1) type (dc_self c1) oi))
      in (if dc_isolate c2 = None then c2\<lparr>dc_isolate := Some isolate\<rparr> else c2, oi2))"

text \<open>\<open>std::remove\<close> and \<open>erase\<close>; the iterators stay valid when nothing is removed.\<close>

definition Off ::
  "(lok_callback_type \<Rightarrow> int) \<Rightarrow> string \<Rightarrow> SafeV8Function \<Rightarrow> ('s, 'j, 'r, 'p) DocumentClient \<Rightarrow> ('s, 'j, 'r, 'p) DocumentClient" where
  "Off code event_name f c =
     (let type = EventStringToType code event_name
      in case event_listeners c type of
           None \<Rightarrow> c
         | Some l \<Rightarrow>
             let vec = filter (\<lambda>g. g \<noteq> f) (ls_functions l);
                 gen = (if vec = ls_functions l then ls_generation l else ls_generation l + 1)
             in c\<lparr>event_listeners := (event_listeners c)(type \<mapsto> \<lparr>ls_generation = gen, ls_functions = vec\<rparr>)\<rparr>)"

text \<open>
  The range-based loop over the listeners of \<open>type\<close>. Each live listener is called with the
  argument \<open>arg\<close>, whose conversion may not return; the loop goes on with the iterators it has, so
  it is undefined when the call has invalidated them.
\<close>

fun emit_loop ::
  "(nat \<Rightarrow> ('s, 'j) v8_value \<Rightarrow> ('s, 'j, 'r, 'p) DocumentClient \<Rightarrow> ('s, 'j, 'r, 'p) DocumentClient) \<Rightarrow> int \<Rightarrow> nat \<Rightarrow>
   SafeV8Function list \<Rightarrow> ('s, 'j) v8_value option \<Rightarrow> ('s, 'j, 'r, 'p) DocumentClient \<Rightarrow> ('s, 'j, 'r, 'p) DocumentClient option" where
  "emit_loop js type gen [] arg c = Some c"
| "emit_loop js type gen (f # fs) arg c =
     (case f of
        None \<Rightarrow> emit_loop js type gen fs arg c
      | Some k \<Rightarrow>
          (case arg of
             None \<Rightarrow> None
           | Some v \<Rightarrow>
               let c1 = js k v (c\<lparr>dc_calls := dc_calls c @ [(k, v)]\<rparr>)
               in if map_option ls_generation (event_listeners c1 type) = Some gen
                  then emit_loop js type gen fs arg c1 else None))"

definition emit_type ::
  "(nat \<Rightarrow> ('s, 'j) v8_value \<Rightarrow> ('s, 'j, 'r, 'p) DocumentClient \<Rightarrow> ('s, 'j, 'r, 'p) DocumentClient) \<Rightarrow> int \<Rightarrow>
   ('s, 'j) v8_value option \<Rightarrow> ('s, 'j, 'r, 'p) DocumentClient \<Rightarrow> ('s, 'j, 'r, 'p) DocumentClient option" where
  "emit_type js type arg c =
     (case event_listeners c type of
        None \<Rightarrow> Some c
      | Some l \<Rightarrow> emit_loop js type (ls_generation l) (ls_functions l) arg c)"

definition Emit ::
  "(lok_callback_type \<Rightarrow> int) \<Rightarrow> (nat \<Rightarrow> ('s, 'j) v8_value \<Rightarrow> ('s, 'j, 'r, 'p) DocumentClient \<Rightarrow> ('s, 'j, 'r, 'p) DocumentClient) \<Rightarrow>
   string \<Rightarrow> ('s, 'j) v8_value \<Rightarrow> ('s, 'j, 'r, 'p) DocumentClient \<Rightarrow> ('s, 'j, 'r, 'p) DocumentClient option" where
  "Emit code js event_name data c = emit_type js (EventStringToType code event_name) (Some data) c"

text \<open>\<open>c_str()\<close> as read by a callee that stops at the first zero byte.\<close>

definition c_str :: "string \<Rightarrow> bytes" where
  "c_str s = map of_char (takeWhile (\<lambda>ch. ch \<noteq> CHR 0x00) s)"

definition EventPayload_ToV8 ::
  "(lok_callback_type \<Rightarrow> int) \<Rightarrow> ('s, 'j) v8 \<Rightarrow> int \<Rightarrow> string \<Rightarrow> ('s, 'j) v8_value option" where
  "EventPayload_ToV8 code v type payload =
     map_option (\<lambda>x. VObject [(''payload'', VPayload x)]) (PayloadToLocalValue code v type (Some (c_str payload)))"

text \<open>Without an isolate opening a handle scope for a listener is undefined.\<close>

definition ForwardEmit ::
  "(lok_callback_type \<Rightarrow> int) \<Rightarrow> ('s, 'j) v8 \<Rightarrow> (nat \<Rightarrow> ('s, 'j) v8_value \<Rightarrow> ('s, 'j, 'r, 'p) DocumentClient \<Rightarrow> ('s, 'j, 'r, 'p) DocumentClient) \<Rightarrow>
   int \<Rightarrow> string \<Rightarrow> ('s, 'j, 'r, 'p) DocumentClient \<Rightarrow> ('s, 'j, 'r, 'p) DocumentClient option" where
  "ForwardEmit code v js type payload c =
     (if listeners_of c type \<noteq> [] \<and> dc_isolate c = None then None
      else emit_type js type (EventPayload_ToV8 code v type payload) c)"

section \<open>Document callbacks\<close>

definition uno_undo :: string where "uno_undo = ''.uno:Undo=''"
definition uno_redo :: string where "uno_redo = ''.uno:Redo=''"

definition HandleStateChange :: "string \<Rightarrow> ('s, 'j, 'r, 'p) DocumentClient \<Rightarrow> ('s, 'j, 'r, 'p) DocumentClient" where
  "HandleStateChange payload c =
     (let c1 = (if take (length uno_undo) payload = uno_undo
                then c\<lparr>can_undo := drop (length uno_undo) payload = ''enabled''\<rparr> else c);
          c2 = (if take (length uno_redo) payload = uno_redo
                then c1\<lparr>can_redo := drop (length uno_redo) payload = ''enabled''\<rparr> else c1)
      in if \<not> is_ready c2 then c2\<lparr>state_change_buffer := state_change_buffer c2 @ [payload]\<rparr> else c2)"

definition HandleInvalidate :: "('s, 'j, 'r, 'p) DocumentClient \<Rightarrow> ('s, 'j, 'r, 'p) DocumentClient" where
  "HandleInvalidate c = c\<lparr>is_ready := True\<rparr>"

definition HandleDocSizeChanged ::
  "'w lok_document \<Rightarrow> 'w lok_size \<Rightarrow> (int \<Rightarrow> int \<Rightarrow> int \<Rightarrow> int \<Rightarrow> 'r) \<Rightarrow> 'r \<Rightarrow> ('s, 'j, 'r, 'p) DocumentClient \<Rightarrow> ('w, 'c) DocWorld \<Rightarrow>
   (('s, 'j, 'r, 'p) DocumentClient \<times> ('w, 'c) DocWorld) option" where
  "HandleDocSizeChanged lok sz Rect Rect0 c st = RefreshSize lok sz Rect Rect0 c st"

definition client_DocumentCallback ::
  "(lok_callback_type \<Rightarrow> int) \<Rightarrow> ('s, 'j) v8 \<Rightarrow> (nat \<Rightarrow> ('s, 'j) v8_value \<Rightarrow> ('s, 'j, 'r, 'p) DocumentClient \<Rightarrow> ('s, 'j, 'r, 'p) DocumentClient) \<Rightarrow>
   'w lok_document \<Rightarrow> 'w lok_size \<Rightarrow> (int \<Rightarrow> int \<Rightarrow> int \<Rightarrow> int \<Rightarrow> 'r) \<Rightarrow> 'r \<Rightarrow> int \<Rightarrow> string \<Rightarrow>
   ('s, 'j, 'r, 'p) DocumentClient \<Rightarrow> ('w, 'c) DocWorld \<Rightarrow> (('s, 'j, 'r, 'p) DocumentClient \<times> ('w, 'c) DocWorld) option" where
  "client_DocumentCallback code v js lok sz Rect Rect0 type payload c st = do {
     (c1, st1) \<leftarrow>
       (if type = code LOK_CALLBACK_DOCUMENT_SIZE_CHANGED then HandleDocSizeChanged lok sz Rect Rect0 c st
        else if type = code LOK_CALLBACK_INVALIDATE_TILES then Some (HandleInvalidate c, st)
        else if type = code LOK_CALLBACK_STATE_CHANGED then Some (HandleStateChange payload c, st)
        else Some (c, st));
     c2 \<leftarrow> ForwardEmit code v js type payload c1;
     Some (c2, st1) }"

text \<open>The posted task of \<open>Mount\<close>: the buffered state changes become the argument of the ready event.\<close>

definition EmitReady ::
  "(lok_callback_type \<Rightarrow> int) \<Rightarrow> ('s, 'j) v8 \<Rightarrow> (nat \<Rightarrow> ('s, 'j) v8_value \<Rightarrow> ('s, 'j, 'r, 'p) DocumentClient \<Rightarrow> ('s, 'j, 'r, 'p) DocumentClient) \<Rightarrow>
   ('s, 'j, 'r, 'p) DocumentClient \<Rightarrow> ('s, 'j, 'r, 'p) DocumentClient option" where
  "EmitReady code v js c = do {
     vs \<leftarrow> those (map (\<lambda>p. PayloadToLocalValue code v (code LOK_CALLBACK_STATE_CHANGED) (Some (c_str p))) (state_change_buffer c));
     Emit code js ''ready'' (VArray (map VPayload vs)) (c\<lparr>state_change_buffer := []\<rparr>) }"

section \<open>The event bus as an interface\<close>

text \<open>
  What scripts rely on: listeners are kept per event in the order they were added, and adding or
  removing one touches only the events with the same key.
\<close>

locale event_bus =
  fixes key :: "'e \<Rightarrow> 'k"
    and lst :: "'b \<Rightarrow> 'k \<Rightarrow> 'f list"
    and on :: "'e \<Rightarrow> 'f \<Rightarrow> 'b \<Rightarrow> 'b"
    and off :: "'e \<Rightarrow> 'f \<Rightarrow> 'b \<Rightarrow> 'b"
  assumes lst_on: "lst (on e f b) = (lst b)(key e := lst b (key e) @ [f])"
    and lst_off: "lst (off e f b) = (lst b)(key e := filter (\<lambda>g. g \<noteq> f) (lst b (key e)))"
begin

lemma off_on: "f \<notin> set (lst b (key e)) \<Longrightarrow> lst (off e f (on e f b)) = lst b"
  by (rule ext) (auto simp: lst_on lst_off filter_id_conv)

lemma off_removes: "f \<notin> set (lst (off e f b) (key e))"
  by (simp add: lst_off)

lemma lst_fold_on: "lst (fold (on e) fs b) (key e) = lst b (key e) @ fs"
  by (induction fs arbitrary: b) (simp_all add: lst_on)

end

lemma listeners_of_On:
  "listeners_of (fst (On code ol st i e f c oi)) =
     (listeners_of c)(EventStringToType code e := listeners_of c (EventStringToType code e) @ [f])"
  by (rule ext) (auto simp: On_def listeners_of_def Let_def split: option.splits)

lemma listeners_of_Off:
  "listeners_of (Off code e f c) =
     (listeners_of c)(EventStringToType code e := filter (\<lambda>g. g \<noteq> f) (listeners_of c (EventStringToType code e)))"
  by (rule ext) (auto simp: Off_def listeners_of_def Let_def split: option.splits)

interpretation bus: event_bus "EventStringToType code" "\<lambda>(c, oi). listeners_of c"
  "\<lambda>e f (c, oi). On code ol st i e f c oi" "\<lambda>e f (c, oi). (Off code e f c, oi)"
  for code :: "lok_callback_type \<Rightarrow> int" and ol :: "'l observer_list" and st :: "('w, 'c) DocWorld" and i :: nat
  by unfold_locales (simp_all add: case_prod_beta listeners_of_On listeners_of_Off)

text \<open>Emitting when no listener changes the listeners of the event.\<close>

definition undisturbed ::
  "int \<Rightarrow> (nat \<Rightarrow> ('s, 'j) v8_value \<Rightarrow> ('s, 'j, 'r, 'p) DocumentClient \<Rightarrow> ('s, 'j, 'r, 'p) DocumentClient) \<Rightarrow> bool" where
  "undisturbed type js \<longleftrightarrow> (\<forall>k v c. event_listeners (js k v c) type = event_listeners c type)"

definition call_all ::
  "(nat \<Rightarrow> ('s, 'j) v8_value \<Rightarrow> ('s, 'j, 'r, 'p) DocumentClient \<Rightarrow> ('s, 'j, 'r, 'p) DocumentClient) \<Rightarrow> SafeV8Function list \<Rightarrow>
   ('s, 'j) v8_value \<Rightarrow> ('s, 'j, 'r, 'p) DocumentClient \<Rightarrow> ('s, 'j, 'r, 'p) DocumentClient" where
  "call_all js fs v c = fold (\<lambda>k c. js k v (c\<lparr>dc_calls := dc_calls c @ [(k, v)]\<rparr>)) (map the (filter (\<lambda>f. f \<noteq> None) fs)) c"

lemma emit_loop_undisturbed:
  assumes "undisturbed type js" "map_option ls_generation (event_listeners c type) = Some gen"
  shows "emit_loop js type gen fs (Some v) c = Some (call_all js fs v c)"
  using assms
  by (induction fs arbitrary: c) (auto simp: call_all_def undisturbed_def split: option.splits)

lemma emit_type_undisturbed:
  assumes "undisturbed type js"
  shows "emit_type js type (Some v) c = Some (call_all js (listeners_of c type) v c)"
proof (cases "event_listeners c type")
  case None
  then show ?thesis by (simp add: emit_type_def listeners_of_def call_all_def)
next
  case (Some l)
  then show ?thesis using emit_loop_undisturbed [OF assms, of c "ls_generation l"]
    by (simp add: emit_type_def listeners_of_def)
qed

lemma call_all_passive:
  "call_all (\<lambda>_ _ c. c) fs v c = c\<lparr>dc_calls := dc_calls c @ map (\<lambda>f. (the f, v)) (filter (\<lambda>f. f \<noteq> None) fs)\<rparr>"
proof -
  have "fold (\<lambda>k c. c\<lparr>dc_calls := dc_calls c @ [(k, v)]\<rparr>) ks c = c\<lparr>dc_calls := dc_calls c @ map (\<lambda>k. (k, v)) ks\<rparr>" for ks
    by (induction ks arbitrary: c) simp_all
  then show ?thesis by (simp add: call_all_def comp_def)
qed

lemma undisturbed_passive: "undisturbed type (\<lambda>_ _ c. c)"
  by (simp add: undisturbed_def)

section \<open>Properties\<close>

text \<open>C23: the event bus. Whatever was registered before, adding the listeners of an event in some
  order and emitting the event calls first the earlier listeners and then the added ones, in that
  order, each once, as long as no listener changes the listeners of the event while it is
  emitted; a listener that was added and removed again is not called.\<close>

theorem Emit_correct:
  assumes "undisturbed (EventStringToType code e) js"
    and "fold (\<lambda>f (c, oi). On code ol st i e f c oi) fs (c, oi) = (c1, oi1)"
    and "f \<notin> set (listeners_of c1 (EventStringToType code e))"
  shows "Emit code js e v c1 = Some (call_all js (listeners_of c (EventStringToType code e) @ fs) v c1) \<and>
    Emit code js e v (Off code e f (fst (On code ol st i e f c1 oi1))) =
      Some (call_all js (listeners_of c (EventStringToType code e) @ fs) v (Off code e f (fst (On code ol st i e f c1 oi1))))"
proof -
  have l: "listeners_of c1 (EventStringToType code e) = listeners_of c (EventStringToType code e) @ fs"
    using bus.lst_fold_on [where code = code and ol = ol and st = st and i = i and e = e and fs = fs and b = "(c, oi)"] assms(2) by simp
  have "listeners_of (Off code e f (fst (On code ol st i e f c1 oi1))) = listeners_of c1"
    using bus.off_on [where code = code and ol = ol and st = st and i = i and e = e and f = f and b = "(c1, oi1)"] assms(3) by (simp add: case_prod_beta)
  then show ?thesis
    unfolding Emit_def emit_type_undisturbed [OF assms(1)] l by (simp add: l)
qed

text \<open>A client for the witnesses, on the sample document of \<open>Document_Holder\<close>.\<close>

definition sample_client :: "(unit, unit, int \<times> int \<times> int \<times> int, unit) DocumentClient" where
  "sample_client = \<lparr>document_holder = \<lparr>view_id = 0, holder = Some 0, deregisters_callback = True\<rparr>, document_height_in_twips = 0,
     document_width_in_twips = 0, page_rects = [], state_change_buffer = [], is_ready = False, tile_buffers_to_restore = (\<lambda>_. None),
     mount_counter = 0, event_listeners = (\<lambda>_. None), event_types_registered = {}, can_undo = False, can_redo = False,
     dc_isolate = None, mounted = None, dc_self = 7, dc_calls = [], dc_ready_tasks = []\<rparr>"

lemma sample_client_no_listeners: "listeners_of sample_client n = []"
  by (simp add: listeners_of_def sample_client_def)

lemma sample_client_no_calls: "dc_calls sample_client = []"
  by (simp add: sample_client_def)

lemma dc_calls_On [simp]: "dc_calls (fst (On code ol st i e f c oi)) = dc_calls c"
  by (simp add: On_def Let_def)

lemma dc_calls_Off [simp]: "dc_calls (Off code e f c) = dc_calls c"
  by (simp add: Off_def Let_def split: option.split)

theorem Emit_correct_witness:
  "map_option dc_calls (Emit sample_code (\<lambda>_ _ c. c) ''ready'' VUndefined
     (fst (On sample_code sample_list sample_world 0 ''ready'' (Some 2)
       (fst (On sample_code sample_list sample_world 0 ''ready'' (Some 1) sample_client (OfficeInstance_init sample_list)))
       (snd (On sample_code sample_list sample_world 0 ''ready'' (Some 1) sample_client (OfficeInstance_init sample_list)))))) =
   Some [(1, VUndefined), (2, VUndefined)]"
proof -
  let ?on = "\<lambda>f (c, oi). On sample_code sample_list sample_world 0 ''ready'' f c oi"
  let ?c1 = "fold ?on [Some 1, Some 2] (sample_client, OfficeInstance_init sample_list)"
  have fresh: "Some 3 \<notin> set (listeners_of (fst ?c1) (EventStringToType sample_code ''ready''))"
    by (simp add: case_prod_beta listeners_of_On sample_client_no_listeners)
  have calls: "dc_calls (fst ?c1) = []" by (simp add: case_prod_beta sample_client_no_calls)
  show ?thesis
    using Emit_correct [OF undisturbed_passive prod.collapse [symmetric] fresh, of VUndefined] calls
    by (simp add: sample_client_no_listeners call_all_passive case_prod_beta)
qed

text \<open>A listener that removes itself while its event is emitted makes Emit undefined. The loop
  goes on with iterators into the vector from which the listener has just been erased.\<close>

theorem Emit_once_undefined:
  assumes "listeners_of c (EventStringToType code e) = Some k # fs"
  shows "Emit code (\<lambda>k' _. Off code e (Some k')) e v c = None"
proof -
  obtain l where l: "event_listeners c (EventStringToType code e) = Some l" "ls_functions l = Some k # fs"
    using assms by (auto simp: listeners_of_def split: option.splits)
  have "filter (\<lambda>g. g \<noteq> Some k) fs \<noteq> Some k # fs"
    by (metis filter_id_conv length_filter_le impossible_Cons)
  then show ?thesis
    using l by (simp add: Emit_def emit_type_def Off_def Let_def)
qed

theorem Emit_once_undefined_witness:
  "Emit sample_code (\<lambda>k' _. Off sample_code ''ready'' (Some k')) ''ready'' VUndefined
     (fst (On sample_code sample_list sample_world 0 ''ready'' (Some 1) sample_client (OfficeInstance_init sample_list))) = None"
  by (rule Emit_once_undefined [where k = 1 and fs = "[]"])
     (simp add: listeners_of_On sample_client_no_listeners)

text \<open>All unknown event names are one event. Listening to an unknown name is logged as an error
  but still registers the listener, under the type -1, and emitting any other unknown name calls
  it.\<close>

theorem unknown_events_alias:
  assumes "map_of EventStringToTypeMap a = None" "map_of EventStringToTypeMap b = None" "undisturbed (- 1) js"
  shows "Emit code js b v (fst (On code ol st i a f c oi)) =
    Some (call_all js (listeners_of c (- 1) @ [f]) v (fst (On code ol st i a f c oi)))"
proof -
  have "EventStringToType code a = - 1" "EventStringToType code b = - 1"
    using assms(1,2) by (simp_all add: EventStringToType_def)
  then show ?thesis
    by (simp add: Emit_def emit_type_undisturbed [OF assms(3)] listeners_of_On)
qed

theorem unknown_events_alias_witness:
  "map_option dc_calls (Emit sample_code (\<lambda>_ _ c. c) ''saved'' VUndefined
     (fst (On sample_code sample_list sample_world 0 ''closed'' (Some 1) sample_client (OfficeInstance_init sample_list)))) =
   Some [(1, VUndefined)]"
proof -
  have "map_of EventStringToTypeMap ''closed'' = None" "map_of EventStringToTypeMap ''saved'' = None"
    by (simp_all add: EventStringToTypeMap_def)
  note same = unknown_events_alias [OF this undisturbed_passive]
  show ?thesis unfolding same call_all_passive by (simp add: sample_client_no_listeners sample_client_no_calls)
qed

text \<open>What the handlers of state changes do to a client that is not ready.\<close>

lemma HandleStateChange_fields [simp]:
  "is_ready (HandleStateChange p c) = is_ready c" "event_listeners (HandleStateChange p c) = event_listeners c"
  "state_change_buffer (HandleStateChange p c) = state_change_buffer c @ (if is_ready c then [] else [p])"
  "mount_counter (HandleStateChange p c) = mount_counter c" "mounted (HandleStateChange p c) = mounted c"
  by (simp_all add: HandleStateChange_def Let_def)

lemma fold_HandleStateChange [simp]:
  "is_ready (fold HandleStateChange ps c) = is_ready c" "event_listeners (fold HandleStateChange ps c) = event_listeners c"
  "state_change_buffer (fold HandleStateChange ps c) = state_change_buffer c @ (if is_ready c then [] else ps)"
  by (induction ps arbitrary: c) simp_all

lemma those_Some: "(\<forall>x \<in> set xs. f x \<noteq> None) \<Longrightarrow> those (map f xs) = Some (map (\<lambda>x. the (f x)) xs)"
  by (induction xs) auto

lemma state_payload_returns:
  assumes "codes_ok code"
  shows "PayloadToLocalValue code v (code LOK_CALLBACK_STATE_CHANGED) p \<noteq> None"
proof -
  have "code LOK_CALLBACK_STATE_CHANGED \<noteq> code LOK_CALLBACK_TEXT_SELECTION"
    using assms by (simp add: codes_ok_def inj_eq)
  then show ?thesis by (auto simp: PayloadToLocalValue_def IsTypeMultipleCSV_def split: option.splits)
qed

lemma HandleStateChange_undo:
  "can_undo (HandleStateChange p c) =
     (if take (length uno_undo) p = uno_undo then drop (length uno_undo) p = ''enabled'' else can_undo c)"
  by (simp add: HandleStateChange_def Let_def)

text \<open>C24: state changes that arrive before the document is ready are not lost. While the ready flag
  is clear every state change is kept, and the ready event passes them to its listeners as one
  array, in order of arrival and each converted, and empties the buffer; can_undo follows the
  last undo state. The flag has no initial value in the code: when the memory happened to be
  non-zero the state changes are dropped.\<close>

theorem EmitReady_delivers:
  assumes "codes_ok code" "undisturbed (EventStringToType code ''ready'') js" "\<not> is_ready c"
  shows "EmitReady code v js (fold HandleStateChange ps c) =
      Some (call_all js (listeners_of c (EventStringToType code ''ready''))
        (VArray (map (\<lambda>p. VPayload (the (PayloadToLocalValue code v (code LOK_CALLBACK_STATE_CHANGED) (Some (c_str p)))))
          (state_change_buffer c @ ps)))
        ((fold HandleStateChange ps c)\<lparr>state_change_buffer := []\<rparr>)) \<and>
    (\<forall>p. PayloadToLocalValue code v (code LOK_CALLBACK_STATE_CHANGED) p \<noteq> None) \<and>
    can_undo (HandleStateChange ''.uno:Undo=enabled'' c) \<and> \<not> can_undo (HandleStateChange ''.uno:Undo=disabled'' c) \<and>
    state_change_buffer (fold HandleStateChange ps (c\<lparr>is_ready := True\<rparr>)) = state_change_buffer c"
proof -
  have "those (map (\<lambda>p. PayloadToLocalValue code v (code LOK_CALLBACK_STATE_CHANGED) (Some (c_str p))) (state_change_buffer c @ ps)) =
      Some (map (\<lambda>p. the (PayloadToLocalValue code v (code LOK_CALLBACK_STATE_CHANGED) (Some (c_str p)))) (state_change_buffer c @ ps))"
    by (rule those_Some) (use state_payload_returns [OF assms(1)] in blast)
  then have "EmitReady code v js (fold HandleStateChange ps c) =
      Some (call_all js (listeners_of c (EventStringToType code ''ready''))
        (VArray (map (\<lambda>p. VPayload (the (PayloadToLocalValue code v (code LOK_CALLBACK_STATE_CHANGED) (Some (c_str p)))))
          (state_change_buffer c @ ps)))
        ((fold HandleStateChange ps c)\<lparr>state_change_buffer := []\<rparr>))"
    using assms(3) by (simp add: EmitReady_def Emit_def emit_type_undisturbed [OF assms(2)] comp_def) (simp add: listeners_of_def)
  then show ?thesis
    using state_payload_returns [OF assms(1), of v] assms(3) by (simp add: HandleStateChange_undo uno_undo_def)
qed

definition sample_v8 :: "(unit, unit) v8" where
  "sample_v8 = \<lparr>NewFromUtf8 = \<lambda>_. Some (), StringLength = \<lambda>_. 0, JSONParse = \<lambda>_. None\<rparr>"

lemma is_ready_On [simp]: "is_ready (fst (On code ol st i e f c oi)) = is_ready c"
  by (simp add: On_def Let_def)

lemma fold_HandleStateChange_calls [simp]: "dc_calls (fold HandleStateChange ps c) = dc_calls c"
  by (induction ps arbitrary: c) (simp_all add: HandleStateChange_def Let_def)

theorem EmitReady_delivers_witness:
  "map_option (\<lambda>c. map fst (dc_calls c)) (EmitReady sample_code sample_v8 (\<lambda>_ _ c. c) (fold HandleStateChange [''.uno:Bold=true'']
     (fst (On sample_code sample_list sample_world 0 ''ready'' (Some 1) sample_client (OfficeInstance_init sample_list))))) = Some [1]"
proof -
  have nr: "\<not> is_ready (fst (On sample_code sample_list sample_world 0 ''ready'' (Some 1) sample_client (OfficeInstance_init sample_list)))"
    by simp (simp add: sample_client_def)
  note e = EmitReady_delivers [OF codes_ok_sample undisturbed_passive nr, of sample_v8 "[''.uno:Bold=true'']", THEN conjunct1]
  show ?thesis unfolding e call_all_passive
    by (simp add: listeners_of_On sample_client_no_listeners) (simp add: HandleStateChange_def Let_def sample_client_no_calls)
qed

section \<open>Mounting\<close>

text \<open>
  The states a client reaches by its operations, with scripts that only listen. \<open>Unmount\<close> is
  called by a plugin that has mounted the client before, and V8 can make the client's wrapper. The
  other holders of the document and the office instance may change at any time.
\<close>

inductive client_reach ::
  "(lok_callback_type \<Rightarrow> int) \<Rightarrow> ('s, 'j) v8 \<Rightarrow> 'l observer_list \<Rightarrow> 'w lok_document \<Rightarrow> 'w lok_size \<Rightarrow> (int \<Rightarrow> int \<Rightarrow> int \<Rightarrow> int \<Rightarrow> 'r) \<Rightarrow> 'r \<Rightarrow>
   ('s, 'j, 'r, 'p) DocumentClient \<Rightarrow> ('w, 'c) DocWorld \<Rightarrow> 'l OfficeInstance \<Rightarrow> bool"
  for code v ol lok sz Rect Rect0 where
  make: "DocumentClient_make code ol st mem this d oi = (c, oi') \<Longrightarrow> client_reach code v ol lok sz Rect Rect0 c st oi'"
| mount: "client_reach code v ol lok sz Rect Rect0 c st oi \<Longrightarrow> mount_counter c < int32_max \<Longrightarrow>
    Mount lok sz Rect Rect0 (Some wrapper) i ctx c st = Some (b, c', st') \<Longrightarrow> client_reach code v ol lok sz Rect Rect0 c' st' oi"
| unmount: "client_reach code v ol lok sz Rect Rect0 c st oi \<Longrightarrow> 0 < mount_counter c \<Longrightarrow> Unmount c = (b, c') \<Longrightarrow> client_reach code v ol lok sz Rect Rect0 c' st oi"
| on: "client_reach code v ol lok sz Rect Rect0 c st oi \<Longrightarrow> On code ol st i e f c oi = (c', oi') \<Longrightarrow> client_reach code v ol lok sz Rect Rect0 c' st oi'"
| off: "client_reach code v ol lok sz Rect Rect0 c st oi \<Longrightarrow> client_reach code v ol lok sz Rect Rect0 (Off code e f c) st oi"
| emit: "client_reach code v ol lok sz Rect Rect0 c st oi \<Longrightarrow> Emit code (\<lambda>_ _ c. c) e x c = Some c' \<Longrightarrow> client_reach code v ol lok sz Rect Rect0 c' st oi"
| ready: "client_reach code v ol lok sz Rect Rect0 c st oi \<Longrightarrow> EmitReady code v (\<lambda>_ _ c. c) c = Some c' \<Longrightarrow> client_reach code v ol lok sz Rect Rect0 c' st oi"
| callback: "client_reach code v ol lok sz Rect Rect0 c st oi \<Longrightarrow>
    client_DocumentCallback code v (\<lambda>_ _ c. c) lok sz Rect Rect0 type payload c st = Some (c', st') \<Longrightarrow> client_reach code v ol lok sz Rect Rect0 c' st' oi"
| remount: "client_reach code v ol lok sz Rect Rect0 c st oi \<Longrightarrow> client_reach code v ol lok sz Rect Rect0 (MarkRendererWillRemount key t c) st oi"
| restored: "client_reach code v ol lok sz Rect Rect0 c st oi \<Longrightarrow> GetRestoredRenderer z key c = (t, c') \<Longrightarrow> client_reach code v ol lok sz Rect Rect0 c' st oi"
| environment: "client_reach code v ol lok sz Rect Rect0 c st oi \<Longrightarrow> client_reach code v ol lok sz Rect Rect0 c st' oi'"

definition mount_state :: "('s, 'j, 'r, 'p) DocumentClient \<Rightarrow> int \<times> nat option" where
  "mount_state c = (mount_counter c, mounted c)"

lemma mount_state_emit_loop:
  "emit_loop (\<lambda>_ _ c. c) type gen fs arg c = Some c' \<Longrightarrow> mount_state c' = mount_state c"
  by (induction fs arbitrary: c) (auto simp: mount_state_def Let_def split: option.splits if_splits)

lemma mount_state_emit_type: "emit_type (\<lambda>_ _ c. c) type arg c = Some c' \<Longrightarrow> mount_state c' = mount_state c"
  by (auto simp: emit_type_def dest: mount_state_emit_loop split: option.splits)

lemma mount_state_RefreshSize: "RefreshSize lok sz Rect Rect0 c st = Some (c', st') \<Longrightarrow> mount_state c' = mount_state c"
  by (auto simp: RefreshSize_def mount_state_def Let_def split: Option.bind_splits prod.splits if_splits)

lemma mount_state_On: "mount_state (fst (On code ol st i e f c oi)) = mount_state c"
  by (simp add: On_def mount_state_def Let_def)

lemma mount_state_callback:
  assumes "client_DocumentCallback code v (\<lambda>_ _ c. c) lok sz Rect Rect0 type payload c st = Some (c', st')"
  shows "mount_state c' = mount_state c"
  using assms
  by (auto simp: client_DocumentCallback_def HandleDocSizeChanged_def HandleInvalidate_def ForwardEmit_def mount_state_def [of "HandleStateChange payload c"]
      dest!: mount_state_emit_type mount_state_RefreshSize split: Option.bind_splits prod.splits if_splits)
     (simp_all add: mount_state_def)

lemma mount_state_ready: "EmitReady code v (\<lambda>_ _ c. c) c = Some c' \<Longrightarrow> mount_state c' = mount_state c"
  by (auto simp: EmitReady_def Emit_def dest!: mount_state_emit_type split: Option.bind_splits) (simp add: mount_state_def)

definition mount_ok :: "('s, 'j, 'r, 'p) DocumentClient \<Rightarrow> bool" where
  "mount_ok c \<longleftrightarrow> 0 \<le> mount_counter c \<and> mount_counter c \<le> int32_max \<and> (mounted c \<noteq> None \<longleftrightarrow> 0 < mount_counter c)"

lemma mount_ok_cong: "mount_state c' = mount_state c \<Longrightarrow> mount_ok c' = mount_ok c"
  by (simp add: mount_state_def mount_ok_def)

lemma mount_ok_Mount:
  assumes "mount_ok c" "mount_counter c < int32_max" "Mount lok sz Rect Rect0 (Some wr) i ctx c st = Some (b, c', st')"
  shows "mount_ok c' \<and> mount_counter c' = mount_counter c + 1 \<and> b = (mounted c = None)"
proof -
  have "int32 (mount_counter c + 1) = mount_counter c + 1"
    using assms(1,2) by (intro int32_id) (simp_all add: mount_ok_def int32_min_def int32_max_def)
  then show ?thesis
    using assms
    by (auto simp: Mount_def AtomicRefCount_Increment_def mount_ok_def mount_state_def Let_def
        dest!: mount_state_RefreshSize split: Option.bind_splits if_splits)
qed

lemma mount_ok_Unmount:
  assumes "mount_ok c" "0 < mount_counter c" "Unmount c = (b, c')"
  shows "mount_ok c' \<and> mount_counter c' = mount_counter c - 1 \<and> b = (mounted c' = None)"
proof -
  have "int32 (mount_counter c - 1) = mount_counter c - 1"
    using assms(1,2) by (intro int32_id) (simp_all add: mount_ok_def int32_min_def int32_max_def)
  then show ?thesis
    using assms by (auto simp: Unmount_def AtomicRefCount_Decrement_def mount_ok_def Let_def split: if_splits)
qed

lemma mount_ok_reach: "client_reach code v ol lok sz Rect Rect0 c st oi \<Longrightarrow> mount_ok c"
proof (induction rule: client_reach.induct)
  case (make st mem this d oi c oi')
  then show ?case by (auto simp: DocumentClient_make_def mount_ok_def int32_max_def)
next
  case (mount c st oi wrapper i ctx b c' st')
  show ?case using mount_ok_Mount [OF mount.IH mount.hyps(2,3)] by simp
next
  case (unmount c st oi b c')
  show ?case using mount_ok_Unmount [OF unmount.IH unmount.hyps(2,3)] by simp
next
  case (on c st oi i e f c' oi')
  then show ?case using mount_ok_cong mount_state_On by (metis fst_conv)
next
  case (off c st oi e f)
  then show ?case by (auto simp: Off_def mount_ok_def Let_def split: option.split)
next
  case (emit c st oi e x c')
  then show ?case using mount_ok_cong mount_state_emit_type by (metis Emit_def)
next
  case (ready c st oi c')
  then show ?case using mount_ok_cong mount_state_ready by blast
next
  case (callback c st oi type payload c' st')
  then show ?case using mount_ok_cong mount_state_callback by metis
next
  case (remount c st oi key t)
  then show ?case by (simp add: MarkRendererWillRemount_def mount_ok_def)
next
  case (restored c st oi z key t c')
  then show ?case by (auto simp: GetRestoredRenderer_def mount_ok_def split: option.splits)
next
  case (environment c st oi st' oi')
  then show ?case by simp
qed

text \<open>C26: the mount counter. In every state a client reaches, the counter is not negative and the
  client is kept alive by its mounted handle exactly while it is mounted somewhere; the next
  Mount reports a first mount exactly when it was not mounted, and the next Unmount a last one
  exactly when it is not mounted afterwards.\<close>

theorem client_reach_mounted:
  assumes "client_reach code v ol lok sz Rect Rect0 c st oi"
  shows "0 \<le> mount_counter c \<and> (mounted c \<noteq> None \<longleftrightarrow> 0 < mount_counter c) \<and>
    (mount_counter c < int32_max \<longrightarrow> Mount lok sz Rect Rect0 (Some wr) i ctx c st = Some (b, c', st') \<longrightarrow> b = (mounted c = None)) \<and>
    (0 < mount_counter c \<longrightarrow> fst (Unmount c) = (mounted (snd (Unmount c)) = None))"
proof -
  have ok: "mount_ok c" using assms by (rule mount_ok_reach)
  have "b = (mounted c = None)"
    if "mount_counter c < int32_max" "Mount lok sz Rect Rect0 (Some wr) i ctx c st = Some (b, c', st')"
    using mount_ok_Mount [OF ok that] by simp
  moreover have "fst (Unmount c) = (mounted (snd (Unmount c)) = None)" if "0 < mount_counter c"
    using mount_ok_Unmount [OF ok that prod.collapse [symmetric]] by simp
  ultimately show ?thesis using ok unfolding mount_ok_def by blast
qed

text \<open>A LibreOfficeKit whose document has one page, for the witnesses.\<close>

definition sample_size :: "(int list \<times> (nat \<times> int) option list) lok_size" where
  "sample_size = \<lparr>getDocumentSize = \<lambda>_ w. ((12240, 15840), w),
     getPartPageRectangles = \<lambda>_ w. (Some (rect_text (0, 0, 12240, 15840)), w), getParts = \<lambda>_ w. (1, w)\<rparr>"

lemma sample_reach:
  "client_reach sample_code sample_v8 sample_list sample_lok sample_size (\<lambda>x y w h. (x, y, w, h)) (0, 0, 0, 0)
     (fst (DocumentClient_make sample_code sample_list sample_world \<lparr>mem_is_ready = False, mem_height = 0, mem_width = 0\<rparr> 7
        (document_holder sample_client) (OfficeInstance_init sample_list)) :: (unit, unit, int \<times> int \<times> int \<times> int, unit) DocumentClient)
     sample_world
     (snd (DocumentClient_make sample_code sample_list sample_world \<lparr>mem_is_ready = False, mem_height = 0, mem_width = 0\<rparr> 7
        (document_holder sample_client) (OfficeInstance_init sample_list)
        :: (unit, unit, int \<times> int \<times> int \<times> int, unit) DocumentClient \<times> observer list OfficeInstance))"
  by (rule client_reach.make [OF prod.collapse [symmetric]])

theorem client_reach_mounted_witness:
  "mounted (fst (DocumentClient_make sample_code sample_list sample_world \<lparr>mem_is_ready = False, mem_height = 0, mem_width = 0\<rparr> 7
     (document_holder sample_client) (OfficeInstance_init sample_list)) :: (unit, unit, int \<times> int \<times> int \<times> int, unit) DocumentClient) = None"
proof -
  have "mount_counter (fst (DocumentClient_make sample_code sample_list sample_world \<lparr>mem_is_ready = False, mem_height = 0, mem_width = 0\<rparr> 7
     (document_holder sample_client) (OfficeInstance_init sample_list)) :: (unit, unit, int \<times> int \<times> int \<times> int, unit) DocumentClient) = 0"
    by (simp add: DocumentClient_make_def)
  then show ?thesis using client_reach_mounted [OF sample_reach, THEN conjunct2, THEN conjunct1] by simp
qed

end
