(* ===== verification/Document_Commands.thy ===== *)
theory Document_Commands
  imports Document_Client
begin

text \<open>
  office/document_client.cc: the calls a script makes on a document client that go on to
  LibreOfficeKit, directly or through a task: saving, commands, selections, the clipboard and new
  views. A task keeps a copy of the document holder; its result goes back to the promise's own
  runner as a reply, which is dropped when the office client is gone (\<open>office\<close> is what
  \<open>MaybeValid\<close> returns then). V8's conversions and the UNO bridge are parameters.
\<close>

section \<open>LibreOfficeKit's calls\<close>

text \<open>An item of the clipboard: its type, the memory of its stream and the stream's size.\<close>

record clip_item =
  ci_mime_type :: string
  ci_stream :: bytes
  ci_size :: nat

record 'w lok_commands =
  gotoOutline :: "int \<Rightarrow> nat \<Rightarrow> 'w \<Rightarrow> bytes option \<times> 'w"
  setAuthor :: "string \<Rightarrow> nat \<Rightarrow> 'w \<Rightarrow> unit \<times> 'w"
  postUnoCommand :: "string \<Rightarrow> bytes option \<Rightarrow> bool \<Rightarrow> nat \<Rightarrow> 'w \<Rightarrow> unit \<times> 'w"
  lok_setTextSelection :: "int \<Rightarrow> int \<Rightarrow> int \<Rightarrow> nat \<Rightarrow> 'w \<Rightarrow> unit \<times> 'w"
  lok_setGraphicSelection :: "int \<Rightarrow> int \<Rightarrow> int \<Rightarrow> nat \<Rightarrow> 'w \<Rightarrow> unit \<times> 'w"
  lok_resetSelection :: "nat \<Rightarrow> 'w \<Rightarrow> unit \<times> 'w"
  lok_getClipboard :: "string list option \<Rightarrow> nat \<Rightarrow> 'w \<Rightarrow> clip_item list option \<times> 'w"
  lok_setClipboard :: "string list \<Rightarrow> bytes list \<Rightarrow> nat \<Rightarrow> 'w \<Rightarrow> bool \<times> 'w"
  lok_paste :: "string \<Rightarrow> string \<Rightarrow> nat \<Rightarrow> 'w \<Rightarrow> bool \<times> 'w"
  lok_getCommandValues :: "string \<Rightarrow> nat \<Rightarrow> 'w \<Rightarrow> bytes option \<times> 'w"
  lok_saveToMemory :: "bytes option \<Rightarrow> nat \<Rightarrow> 'w \<Rightarrow> bytes \<times> 'w"
  lok_saveAs :: "bytes option \<Rightarrow> bytes option \<Rightarrow> bytes option \<Rightarrow> nat \<Rightarrow> 'w \<Rightarrow> bool \<times> 'w"
  lok_initializeForRendering :: "nat \<Rightarrow> 'w \<Rightarrow> unit \<times> 'w"
  getXComponent :: "nat \<Rightarrow> 'w \<Rightarrow> nat \<times> 'w"

section \<open>Tasks and replies\<close>

datatype client_task =
    SaveToMemoryTask Promise "bytes option"
  | GetCommandValuesTask Promise string
  | SaveAsTask "bytes option" "bytes option" "bytes option" Promise
  | InitializeForRenderingTask

datatype client_reply =
    SavedReply Promise bytes
  | CommandValuesReply Promise bytes

text \<open>What a script passes: the isolate, its current context and the current sequence's runner.\<close>

record caller =
  caller_isolate :: nat
  caller_context :: nat
  caller_runner :: nat

definition new_promise :: "caller \<Rightarrow> ('s, 'j) PromiseWorld \<Rightarrow> Promise \<times> ('s, 'j) PromiseWorld" where
  "new_promise cl pw = PromiseBase_new (caller_isolate cl) (caller_context cl) (Some (caller_runner cl)) pw"

section \<open>Saving\<close>

definition SaveToMemory ::
  "(('s, 'j) v8_value \<Rightarrow> bytes option) \<Rightarrow> caller \<Rightarrow> ('s, 'j) v8_value option \<Rightarrow> ('s, 'j, 'r, 'p) DocumentClient \<Rightarrow>
   ('s, 'j) PromiseWorld \<Rightarrow> ('w, client_task) DocWorld \<Rightarrow> nat option \<times> ('s, 'j) PromiseWorld \<times> ('w, client_task) DocWorld" where
  "SaveToMemory stringify cl arg c pw st =
     (let (promise, pw1) = new_promise cl pw;
          format = Option.bind arg stringify
      in (PromiseBase_GetHandle promise, pw1, holder_PostBlocking (SaveToMemoryTask promise format) (document_holder c) st))"

definition SaveAs ::
  "(('s, 'j) v8_value \<Rightarrow> bytes option) \<Rightarrow> caller \<Rightarrow> ('s, 'j) v8_value list \<Rightarrow> ('s, 'j, 'r, 'p) DocumentClient \<Rightarrow>
   ('s, 'j) PromiseWorld \<Rightarrow> ('w, client_task) DocWorld \<Rightarrow> string + (nat option \<times> ('s, 'j) PromiseWorld \<times> ('w, client_task) DocWorld)" where
  "SaveAs stringify cl args c pw st =
     (case args of
        [] \<Rightarrow> Inl ''missing path''
      | a # rest \<Rightarrow>
          let path = stringify a;
              format = (case rest of [] \<Rightarrow> None | b # _ \<Rightarrow> stringify b);
              options = (case rest of _ # b # _ \<Rightarrow> stringify b | _ \<Rightarrow> None);
              (promise, pw1) = new_promise cl pw
          in Inr (PromiseBase_GetHandle promise, pw1, holder_PostBlocking (SaveAsTask path format options promise) (document_holder c) st))"

definition InitializeForRendering ::
  "('s, 'j, 'r, 'p) DocumentClient \<Rightarrow> ('w, client_task) DocWorld \<Rightarrow> ('s, 'j) v8_value \<times> ('w, client_task) DocWorld" where
  "InitializeForRendering c st = (VEmpty, holder_PostBlocking InitializeForRenderingTask (document_holder c) st)"

section \<open>Commands\<close>

definition GetCommandValues ::
  "caller \<Rightarrow> string \<Rightarrow> ('s, 'j, 'r, 'p) DocumentClient \<Rightarrow>
   ('s, 'j) PromiseWorld \<Rightarrow> ('w, client_task) DocWorld \<Rightarrow> (nat option \<times> ('s, 'j) PromiseWorld \<times> ('w, client_task) DocWorld) option" where
  "GetCommandValues cl command c pw st =
     (let (promise, pw1) = new_promise cl pw
      in map_option (\<lambda>st1. (PromiseBase_GetHandle promise, pw1, st1))
           (holder_Post (GetCommandValuesTask promise command) (document_holder c) st))"

text \<open>V8's parse of a JSON text; a failure is an empty handle.\<close>

definition parse_json :: "('s, 'j) v8 \<Rightarrow> 's \<Rightarrow> ('s, 'j) v8_value" where
  "parse_json v s = (case JSONParse v s of None \<Rightarrow> VEmpty | Some j \<Rightarrow> VPayload (VJson j))"

definition GotoOutline ::
  "('s, 'j) v8 \<Rightarrow> 'w lok_document \<Rightarrow> 'w lok_commands \<Rightarrow> int \<Rightarrow> ('s, 'j, 'r, 'p) DocumentClient \<Rightarrow> ('w, 'c) DocWorld \<Rightarrow>
   (('s, 'j) v8_value \<times> ('w, 'c) DocWorld) option" where
  "GotoOutline v lok cmd i c st = do {
     (result, st1) \<leftarrow> lok_call lok (document_holder c) (gotoOutline cmd i) st;
     Some (case Option.bind result (NewFromUtf8 v) of None \<Rightarrow> VUndefined | Some s \<Rightarrow> parse_json v s, st1) }"

definition SetAuthor ::
  "'w lok_document \<Rightarrow> 'w lok_commands \<Rightarrow> string \<Rightarrow> ('s, 'j, 'r, 'p) DocumentClient \<Rightarrow> ('w, 'c) DocWorld \<Rightarrow> ('w, 'c) DocWorld option" where
  "SetAuthor lok cmd author c st = map_option snd (lok_call lok (document_holder c) (setAuthor cmd author) st)"

text \<open>\<open>JSONStringify\<close> and \<open>ToUtf8\<close> are V8's conversions to a string and of a string to bytes.\<close>

definition jsonStringify ::
  "(('s, 'j) v8_value \<Rightarrow> ('s, 'j) v8_value option) \<Rightarrow> (('s, 'j) v8_value \<Rightarrow> bytes option) \<Rightarrow> ('s, 'j) v8_value \<Rightarrow> bytes option" where
  "jsonStringify JSONStringify stringify val =
     (if val = VUndefined then None
      else case JSONStringify val of None \<Rightarrow> None | Some str_object \<Rightarrow> stringify str_object)"

definition PostUnoCommandInternal ::
  "'w lok_document \<Rightarrow> 'w lok_commands \<Rightarrow> string \<Rightarrow> bytes option \<Rightarrow> bool \<Rightarrow> ('s, 'j, 'r, 'p) DocumentClient \<Rightarrow> ('w, 'c) DocWorld \<Rightarrow> ('w, 'c) DocWorld option" where
  "PostUnoCommandInternal lok cmd command json_buffer notifyWhenFinished c st =
     map_option snd (lok_call lok (document_holder c) (postUnoCommand cmd command json_buffer notifyWhenFinished) st)"

text \<open>\<open>args\<close> are the arguments after the command; \<open>BooleanValue\<close> is V8's.\<close>

definition PostUnoCommand ::
  "(('s, 'j) v8_value \<Rightarrow> ('s, 'j) v8_value option) \<Rightarrow> (('s, 'j) v8_value \<Rightarrow> bytes option) \<Rightarrow> (('s, 'j) v8_value \<Rightarrow> bool) \<Rightarrow>
   'w lok_document \<Rightarrow> 'w lok_commands \<Rightarrow> string \<Rightarrow> ('s, 'j) v8_value list \<Rightarrow> ('s, 'j, 'r, 'p) DocumentClient \<Rightarrow>
   ('w, 'c) DocWorld \<Rightarrow> ('w, 'c) DocWorld option" where
  "PostUnoCommand JSONStringify stringify BooleanValue lok cmd command args c st =
     (let json_buffer = (case args of a # _ \<Rightarrow> if a \<noteq> VUndefined then jsonStringify JSONStringify stringify a else None | [] \<Rightarrow> None);
          given = (case args of a # _ \<Rightarrow> a \<noteq> VUndefined | [] \<Rightarrow> False);
          notifyWhenFinished = (case args of _ # b # _ \<Rightarrow> BooleanValue b | _ \<Rightarrow> False)
      in if given \<and> json_buffer = None then Some st
         else PostUnoCommandInternal lok cmd command json_buffer notifyWhenFinished c st)"

definition SetTextSelection ::
  "'w lok_document \<Rightarrow> 'w lok_commands \<Rightarrow> int \<Rightarrow> int \<Rightarrow> int \<Rightarrow> ('s, 'j, 'r, 'p) DocumentClient \<Rightarrow> ('w, 'c) DocWorld \<Rightarrow> ('w, 'c) DocWorld option" where
  "SetTextSelection lok cmd n_type n_x n_y c st =
     map_option snd (lok_call lok (document_holder c) (lok_setTextSelection cmd n_type n_x n_y) st)"

definition SetGraphicSelection ::
  "'w lok_document \<Rightarrow> 'w lok_commands \<Rightarrow> int \<Rightarrow> int \<Rightarrow> int \<Rightarrow> ('s, 'j, 'r, 'p) DocumentClient \<Rightarrow> ('w, 'c) DocWorld \<Rightarrow> ('w, 'c) DocWorld option" where
  "SetGraphicSelection lok cmd n_type n_x n_y c st =
     map_option snd (lok_call lok (document_holder c) (lok_setGraphicSelection cmd n_type n_x n_y) st)"

definition ResetSelection ::
  "'w lok_document \<Rightarrow> 'w lok_commands \<Rightarrow> ('s, 'j, 'r, 'p) DocumentClient \<Rightarrow> ('w, 'c) DocWorld \<Rightarrow> ('w, 'c) DocWorld option" where
  "ResetSelection lok cmd c st = map_option snd (lok_call lok (document_holder c) (lok_resetSelection cmd) st)"

definition Paste ::
  "'w lok_document \<Rightarrow> 'w lok_commands \<Rightarrow> string \<Rightarrow> string \<Rightarrow> ('s, 'j, 'r, 'p) DocumentClient \<Rightarrow> ('w, 'c) DocWorld \<Rightarrow> (bool \<times> ('w, 'c) DocWorld) option" where
  "Paste lok cmd mime_type data c st = lok_call lok (document_holder c) (lok_paste cmd mime_type data) st"

text \<open>\<open>convert::As\<close> of the UNO bridge is the parameter \<open>conv\<close>.\<close>

definition client_As ::
  "(nat \<Rightarrow> string \<Rightarrow> ('s, 'j) v8_value) \<Rightarrow> 'w lok_document \<Rightarrow> 'w lok_commands \<Rightarrow> string \<Rightarrow> ('s, 'j, 'r, 'p) DocumentClient \<Rightarrow> ('w, 'c) DocWorld \<Rightarrow>
   (('s, 'j) v8_value \<times> ('w, 'c) DocWorld) option" where
  "client_As conv lok cmd type c st =
     map_option (\<lambda>(component, st1). (conv component type, st1)) (lok_call lok (document_holder c) (getXComponent cmd) st)"

text \<open>A client for a new view of the same document; \<open>wrapper\<close> is V8's object for it, which may not be made.\<close>

definition client_NewView ::
  "(lok_callback_type \<Rightarrow> int) \<Rightarrow> 'l observer_list \<Rightarrow> 'w lok_document \<Rightarrow> uninitialised \<Rightarrow> observer \<Rightarrow> nat option \<Rightarrow>
   ('s, 'j, 'r, 'p) DocumentClient \<Rightarrow> ('w, 'c) DocWorld \<Rightarrow> 'l OfficeInstance \<Rightarrow>
   (('s, 'j) v8_value \<times> ('s, 'j, 'r, 'p) DocumentClient \<times> ('w, 'c) DocWorld \<times> 'l OfficeInstance) option" where
  "client_NewView code ol lok mem this wrapper c st oi = do {
     (d, st1) \<leftarrow> NewView lok (document_holder c) st;
     let (new_client, oi1) = DocumentClient_make code ol st1 mem this (fst (move_construct d)) oi;
     Some (case wrapper of None \<Rightarrow> VUndefined | Some w \<Rightarrow> VWrapper w, new_client, st1, oi1) }"

section \<open>Running the tasks\<close>

text \<open>The copy of a holder that is bound into a task.\<close>

abbreviation copy_of :: "DocumentHolderWithView \<Rightarrow> DocumentHolderWithView" where
  "copy_of d \<equiv> \<lparr>view_id = view_id d, holder = holder d, deregisters_callback = False\<rparr>"

text \<open>The bound copy of the holder is destroyed after the task has run.\<close>

fun run_client_task ::
  "'w lok_document \<Rightarrow> 'w lok_commands \<Rightarrow> bool \<Rightarrow> client_task \<Rightarrow> DocumentHolderWithView \<Rightarrow> ('s, 'j) PromiseWorld \<Rightarrow> ('w, 'c) DocWorld \<Rightarrow>
   (('s, 'j) PromiseWorld \<times> (nat \<times> client_reply) list \<times> ('w, 'c) DocWorld) option" where
  "run_client_task lok cmd office (SaveToMemoryTask promise format) d pw st =
     (if \<not> office then map_option (\<lambda>st1. (pw, [], st1)) (destroy lok d st)
      else do {
        (out, st1) \<leftarrow> lok_call lok d (lok_saveToMemory cmd format) st;
        (pw1, replies) \<leftarrow>
          (if out = [] then map_option (\<lambda>pw1. (pw1, [])) (value_ResolvePromise_void promise pw)
           else map_option (\<lambda>r. (pw, [(r, SavedReply promise out)])) (pr_task_runner promise));
        st2 \<leftarrow> destroy lok d st1;
        Some (pw1, replies, st2) })"
| "run_client_task lok cmd office (GetCommandValuesTask promise command) d pw st = do {
     (result, st1) \<leftarrow> lok_call lok d (lok_getCommandValues cmd command) st;
     (pw1, replies) \<leftarrow>
       (case result of
          None \<Rightarrow> map_option (\<lambda>pw1. (pw1, [])) (value_Resolve_void promise pw)
        | Some s \<Rightarrow> map_option (\<lambda>r. (pw, [(r, CommandValuesReply promise s)])) (pr_task_runner promise));
     st2 \<leftarrow> destroy lok d st1;
     Some (pw1, replies, st2) }"
| "run_client_task lok cmd office (SaveAsTask path format options promise) d pw st = do {
     (res, st1) \<leftarrow> lok_call lok d (lok_saveAs cmd path format options) st;
     pw1 \<leftarrow> typed_ResolvePromise VBool promise res pw;
     st2 \<leftarrow> destroy lok d st1;
     Some (pw1, [], st2) }"
| "run_client_task lok cmd office InitializeForRenderingTask d pw st = do {
     (_, st1) \<leftarrow> lok_call lok d (lok_initializeForRendering cmd) st;
     st2 \<leftarrow> destroy lok d st1;
     Some (pw, [], st2) }"

fun run_client_reply :: "('s, 'j) v8 \<Rightarrow> bool \<Rightarrow> client_reply \<Rightarrow> ('s, 'j) PromiseWorld \<Rightarrow> ('s, 'j) PromiseWorld option" where
  "run_client_reply v office (SavedReply promise data) pw =
     (if \<not> office then Some pw else value_Resolve promise (VArrayBuffer data) pw)"
| "run_client_reply v office (CommandValuesReply promise result) pw =
     (if \<not> office then Some pw
      else case NewFromUtf8 v result of
             None \<Rightarrow> value_Resolve_void promise pw
           | Some s \<Rightarrow> value_Resolve promise (parse_json v s) pw)"

section \<open>The clipboard\<close>

definition text_plain :: string where "text_plain = ''text/plain''"

definition lok_clipboard_to_buffer :: "string \<Rightarrow> bytes \<Rightarrow> nat \<Rightarrow> ('s, 'j) v8_value option" where
  "lok_clipboard_to_buffer mime_type stream n =
     (if n \<le> length stream
      then Some (VObject [(''mimeType'', VText (c_str mime_type)), (''buffer'', VArrayBuffer (take n stream))]) else None)"

text \<open>A text item is read up to its terminating zero byte, whatever its size.\<close>

definition lok_clipboard_to_string :: "string \<Rightarrow> bytes \<Rightarrow> ('s, 'j) v8_value option" where
  "lok_clipboard_to_string mime_type stream =
     (if 0 \<in> set stream
      then Some (VObject [(''mimeType'', VText (c_str mime_type)), (''text'', VText (takeWhile (\<lambda>b. b \<noteq> 0) stream))]) else None)"

text \<open>The value of one item, and whether its memory is freed. The values are made with the client's isolate.\<close>

definition clip_value :: "nat option \<Rightarrow> clip_item \<Rightarrow> (('s, 'j) v8_value \<times> bool) option" where
  "clip_value isolate it =
     (if isolate = None then None
      else if ci_size it = 0 then Some (VUndefined, False)
      else map_option (\<lambda>x. (x, True))
        (if take 5 (ci_mime_type it) = ''text/''
         then lok_clipboard_to_string (if take (length text_plain) (ci_mime_type it) = text_plain then text_plain else ci_mime_type it) (ci_stream it)
         else lok_clipboard_to_buffer (ci_mime_type it) (ci_stream it) (ci_size it)))"

text \<open>
  The result also lists which items are freed. \<open>mime_types\<close> is the script's argument, when it
  converts to a list of strings.
\<close>

definition GetClipboard ::
  "'w lok_document \<Rightarrow> 'w lok_commands \<Rightarrow> string list option \<Rightarrow> ('s, 'j, 'r, 'p) DocumentClient \<Rightarrow> ('w, 'c) DocWorld \<Rightarrow>
   (('s, 'j) v8_value \<times> bool list \<times> ('w, 'c) DocWorld) option" where
  "GetClipboard lok cmd mime_types c st = do {
     let types = (case mime_types of None \<Rightarrow> [] | Some ms \<Rightarrow> ms);
     let mime_c_str = map (\<lambda>m. if m = text_plain then ''text/plain;charset=utf-8'' else m) types;
     (res, st1) \<leftarrow> lok_call lok (document_holder c) (lok_getClipboard cmd (if types = [] then None else Some mime_c_str)) st;
     (case res of
        None \<Rightarrow> Some (VArray [], [], st1)
      | Some items \<Rightarrow> do {
          vs \<leftarrow> those (map (clip_value (dc_isolate c)) items);
          Some (VArray (map fst vs), map snd vs, st1) }) }"

text \<open>
  The loop of \<open>SetClipboard\<close>. The string \<open>mime_type\<close> is a local of the loop body: it lives at an
  address of the store until the end of the iteration, and \<open>mime_c_str\<close> keeps the address. An
  entry without a type or a buffer leaves the default, an empty string and an empty handle.
\<close>

type_synonym string_store = "nat \<Rightarrow> string option"

fun clipboard_loop ::
  "(string option \<times> bytes option) list \<Rightarrow> nat \<Rightarrow> string_store \<Rightarrow> (nat list \<times> bytes list \<times> string_store) option" where
  "clipboard_loop [] a store = Some ([], [], store)"
| "clipboard_loop ((mime, buffer) # entries) a store = do {
     let store1 = store(a \<mapsto> (case mime of None \<Rightarrow> [] | Some m \<Rightarrow> m));
     data \<leftarrow> buffer;
     let store2 = store1(a := None);
     (ptrs, streams, store3) \<leftarrow> clipboard_loop entries (Suc a) store2;
     Some (a # ptrs, data # streams, store3) }"

definition SetClipboard ::
  "'w lok_document \<Rightarrow> 'w lok_commands \<Rightarrow> (string option \<times> bytes option) list \<Rightarrow> ('s, 'j, 'r, 'p) DocumentClient \<Rightarrow> ('w, 'c) DocWorld \<Rightarrow>
   (bool \<times> ('w, 'c) DocWorld) option" where
  "SetClipboard lok cmd clipboard_data c st =
     (if clipboard_data = [] then Some (False, st)
      else do {
        (ptrs, streams, store) \<leftarrow> clipboard_loop clipboard_data 0 (\<lambda>_. None);
        mimes \<leftarrow> those (map store ptrs);
        lok_call lok (document_holder c) (lok_setClipboard cmd mimes streams) st })"

section \<open>Properties\<close>

lemma new_promise_live: "promise_live (fst (new_promise cl pw))"
  by (simp add: new_promise_def promise_live_new)

lemma new_promise_fields [simp]:
  "pr_resolver (fst (new_promise cl pw)) = Some (pw_next pw)"
  "pr_task_runner (fst (new_promise cl pw)) = Some (caller_runner cl)"
  by (simp_all add: new_promise_def PromiseBase_new_def PromiseBase_make_def)

lemma destroy_copy: "\<not> deregisters_callback d \<Longrightarrow> destroy lok d st = Some (release (holder d) st)"
  by (simp add: destroy_def)


text \<open>LibreOfficeKit calls for the witnesses: saving writes two bytes, and the clipboard holds two items, the second one empty.\<close>

definition sample_commands :: "(int list \<times> (nat \<times> int) option list) lok_commands" where
  "sample_commands = \<lparr>gotoOutline = \<lambda>_ _ w. (None, w), setAuthor = \<lambda>_ _ w. ((), w), postUnoCommand = \<lambda>_ _ _ _ w. ((), w),
     lok_setTextSelection = \<lambda>_ _ _ _ w. ((), w), lok_setGraphicSelection = \<lambda>_ _ _ _ w. ((), w), lok_resetSelection = \<lambda>_ w. ((), w),
     lok_getClipboard = \<lambda>_ _ w. (Some [\<lparr>ci_mime_type = ''text/plain;charset=utf-8'', ci_stream = [104, 105, 0], ci_size = 2\<rparr>,
       \<lparr>ci_mime_type = ''image/png'', ci_stream = [], ci_size = 0\<rparr>], w),
     lok_setClipboard = \<lambda>_ _ _ w. (True, w), lok_paste = \<lambda>_ _ _ w. (True, w), lok_getCommandValues = \<lambda>_ _ w. (None, w),
     lok_saveToMemory = \<lambda>_ _ w. ([80, 75], w), lok_saveAs = \<lambda>_ _ _ _ w. (True, w), lok_initializeForRendering = \<lambda>_ w. ((), w),
     getXComponent = \<lambda>_ w. (0, w)\<rparr>"

definition command_world :: "(int list \<times> (nat \<times> int) option list, client_task) DocWorld" where
  "command_world = \<lparr>dw_path = \<lambda>_. [], dw_doc = (\<lambda>_. None)(0 := Some 100), dw_refs = (\<lambda>_. 0)(0 := 1), dw_next = 1,
     dw_tasks = [], dw_lok = ([0], [])\<rparr>"

lemma command_world_call:
  "lok_call sample_lok (copy_of (document_holder sample_client)) f command_world =
     Some (fst (f 100 ([0], [])), command_world\<lparr>dw_lok := snd (f 100 ([0], []))\<rparr>)"
  "lok_call sample_lok (document_holder sample_client) f command_world =
     Some (fst (f 100 ([0], [])), command_world\<lparr>dw_lok := snd (f 100 ([0], []))\<rparr>)"
  by (simp_all add: lok_call_def deref_def SetAsCurrentView_def doc_of_def sample_client_def command_world_def sample_lok_def
      case_prod_beta Let_def)

definition sample_caller :: caller where
  "sample_caller = \<lparr>caller_isolate = 1, caller_context = 2, caller_runner = 3\<rparr>"

definition sample_promises :: "(unit, unit) PromiseWorld" where
  "sample_promises = \<lparr>pw_next = 5, pw_calls = [], pw_posted = []\<rparr>"


text \<open>Every pointer the loop of SetClipboard has stored dangles after it.\<close>

lemma clipboard_loop_dangles:
  assumes "clipboard_loop entries a store = Some (ptrs, streams, store')"
  shows "length ptrs = length entries \<and> (\<forall>x \<in> set ptrs. a \<le> x \<and> store' x = None) \<and> (\<forall>x < a. store' x = store x)"
  using assms
proof (induction entries arbitrary: a store ptrs streams)
  case Nil
  then show ?case by simp
next
  case (Cons e entries)
  obtain mime buffer where e: "e = (mime, buffer)" by (cases e)
  from Cons.prems e obtain d ps ss where b: "ptrs = a # ps"
    "clipboard_loop entries (Suc a) (store(a := None)) = Some (ps, ss, store')"
    by (auto split: Option.bind_splits)
  from Cons.IH [OF b(2)] show ?case using b(1) by (auto simp: Suc_le_eq)
qed

text \<open>Setting the clipboard with any entry is undefined. The pointer to an entry's type is taken
  from a string of the loop body that is gone at the end of the iteration, and all of them are
  read afterwards; only the call without entries returns, and it does nothing.\<close>

theorem SetClipboard_dangles:
  "SetClipboard lok cmd clipboard_data c st = (if clipboard_data = [] then Some (False, st) else None)"
proof (cases "clipboard_loop clipboard_data 0 (\<lambda>_. None)")
  case None
  then show ?thesis by (simp add: SetClipboard_def)
next
  case (Some r)
  obtain ptrs streams store where r: "r = (ptrs, streams, store)" by (cases r)
  note d = clipboard_loop_dangles [OF Some [unfolded r]]
  show ?thesis
  proof (cases ptrs)
    case Nil
    then show ?thesis using d by (simp add: SetClipboard_def)
  next
    case (Cons x xs)
    then show ?thesis using d Some r by (auto simp: SetClipboard_def)
  qed
qed

text \<open>The clipboard comes back item by item, in order, once a script has listened to an event of
  the client. Before that the client has no isolate, and reading a clipboard with any item is
  undefined. The items with an empty stream become undefined, and their memory is not freed.\<close>

theorem GetClipboard_correct:
  fixes c :: "('s, 'j, 'r, 'p) DocumentClient"
  assumes "lok_call lok (document_holder c)
      (lok_getClipboard cmd (Some (map (\<lambda>m. if m = text_plain then ''text/plain;charset=utf-8'' else m) ms))) st = Some (Some items, st1)"
    and "ms \<noteq> []"
    and "\<forall>it \<in> set items. ci_size it < length (ci_stream it) \<and> ci_stream it ! ci_size it = 0 \<or> ci_size it = 0"
  shows "(dc_isolate c = None \<and> items \<noteq> [] \<longrightarrow> GetClipboard lok cmd (Some ms) c st = None) \<and>
    (dc_isolate c \<noteq> None \<longrightarrow>
      (\<exists>vs. GetClipboard lok cmd (Some ms) c st = Some (VArray vs, map (\<lambda>it. ci_size it \<noteq> 0) items, st1) \<and> length vs = length items \<and>
        (\<forall>i < length items. ci_size (items ! i) = 0 \<longrightarrow> vs ! i = VUndefined) \<and>
        (\<forall>i < length items. ci_size (items ! i) \<noteq> 0 \<longrightarrow> take 5 (ci_mime_type (items ! i)) \<noteq> ''text/'' \<longrightarrow>
          vs ! i = VObject [(''mimeType'', VText (c_str (ci_mime_type (items ! i)))),
            (''buffer'', VArrayBuffer (take (ci_size (items ! i)) (ci_stream (items ! i))))])))"
proof (intro conjI impI)
  assume "dc_isolate c = None \<and> items \<noteq> []"
  then show "GetClipboard lok cmd (Some ms) c st = None"
    using assms(1,2) by (cases items) (simp_all add: GetClipboard_def clip_value_def)
next
  assume iso: "dc_isolate c \<noteq> None"
  let ?cv = "clip_value (dc_isolate c) :: clip_item \<Rightarrow> (('s, 'j) v8_value \<times> bool) option"
  have ex: "\<exists>x. ?cv it = Some (x, ci_size it \<noteq> 0)" if "it \<in> set items" for it
  proof -
    note sz = bspec [OF assms(3) that]
    show ?thesis
    proof (cases "ci_size it = 0")
      case True
      then show ?thesis using iso by (simp add: clip_value_def)
    next
      case False
      with sz have "ci_size it < length (ci_stream it)" "ci_stream it ! ci_size it = 0" by simp_all
      then have "0 \<in> set (ci_stream it)" by (metis nth_mem)
      with \<open>ci_size it < length (ci_stream it)\<close> show ?thesis
        using iso False by (simp add: clip_value_def lok_clipboard_to_string_def lok_clipboard_to_buffer_def)
    qed
  qed
  have one: "?cv it \<noteq> None" "snd (the (?cv it)) = (ci_size it \<noteq> 0)" if "it \<in> set items" for it
  proof -
    from ex [OF that] obtain x where "?cv it = Some (x, ci_size it \<noteq> 0)" by blast
    then show "?cv it \<noteq> None" "snd (the (?cv it)) = (ci_size it \<noteq> 0)" by simp_all
  qed
  let ?vs = "map (\<lambda>it. fst (the (?cv it))) items"
  have "those (map ?cv items) = Some (map (\<lambda>it. the (?cv it)) items)"
    by (rule those_Some) (use one(1) in blast)
  then have "GetClipboard lok cmd (Some ms) c st = Some (VArray ?vs, map (\<lambda>it. ci_size it \<noteq> 0) items, st1)"
    using assms(1,2) one(2) by (simp add: GetClipboard_def comp_def)
  moreover have "fst (the (?cv (items ! i))) = VUndefined" if "i < length items" "ci_size (items ! i) = 0" for i
    using iso that by (auto simp: clip_value_def)
  moreover have "fst (the (?cv it)) = VObject [(''mimeType'', VText (c_str (ci_mime_type it))), (''buffer'', VArrayBuffer (take (ci_size it) (ci_stream it)))]"
    if "it \<in> set items" "ci_size it \<noteq> 0" "take 5 (ci_mime_type it) \<noteq> ''text/''" for it
  proof -
    from bspec [OF assms(3) that(1)] have "ci_size it \<le> length (ci_stream it)" using that(2) by simp
    then show ?thesis using iso that(2,3) by (auto simp: clip_value_def lok_clipboard_to_buffer_def)
  qed
  ultimately show "\<exists>vs. GetClipboard lok cmd (Some ms) c st = Some (VArray vs, map (\<lambda>it. ci_size it \<noteq> 0) items, st1) \<and> length vs = length items \<and>
        (\<forall>i < length items. ci_size (items ! i) = 0 \<longrightarrow> vs ! i = VUndefined) \<and>
        (\<forall>i < length items. ci_size (items ! i) \<noteq> 0 \<longrightarrow> take 5 (ci_mime_type (items ! i)) \<noteq> ''text/'' \<longrightarrow>
          vs ! i = VObject [(''mimeType'', VText (c_str (ci_mime_type (items ! i)))),
            (''buffer'', VArrayBuffer (take (ci_size (items ! i)) (ci_stream (items ! i))))])"
    by (intro exI [of _ ?vs]) (simp add: nth_map)
qed

theorem GetClipboard_correct_witness:
  "GetClipboard sample_lok sample_commands (Some [''text/plain'']) sample_client command_world = None"
  using GetClipboard_correct [of sample_lok sample_client sample_commands "[''text/plain'']" command_world
      "[\<lparr>ci_mime_type = ''text/plain;charset=utf-8'', ci_stream = [104, 105, 0], ci_size = 2\<rparr>,
        \<lparr>ci_mime_type = ''image/png'', ci_stream = [], ci_size = 0\<rparr>]" command_world]
  by (simp add: command_world_call(2)) (simp add: sample_commands_def sample_client_def command_world_def)

end
