(* ===== verification/Office_Client.thy ===== *)
theory Office_Client
  imports Document_Commands
begin

text \<open>
  office/office_client.h and office_client.cc: the script-visible client of the office, one per
  thread, which loads documents. A client lives at an address of the world; loads are tasks that
  wait for the office to be loaded, run on the thread pool and post their completion to the
  client's runner. LibreOfficeKit's loaders and V8's wrappers are parameters.
\<close>

section \<open>State\<close>

text \<open>
  A bound load: of a URL, with an unretained pointer to the client, or of a buffer, with a weak
  pointer. Both carry the promise, the path and the runner of the completion.
\<close>

datatype load =
    LoadUrl nat Promise bytes nat
  | LoadBuffer nat Promise bytes string nat

text \<open>A completion bound with a weak pointer to the client, the promise, the path and the loaded document.\<close>

datatype completion = Completion nat Promise string "nat option"

record OfficeClient =
  oc_office :: bool
  oc_self :: "nat option"
  oc_loaded :: bool
  oc_deferred :: "load list"
  oc_task_runner :: nat

record OfficeWorld =
  ow_clients :: "nat \<Rightarrow> OfficeClient option"
  ow_next :: nat
  ow_tls :: "nat \<Rightarrow> nat option"
  ow_counter :: int
  ow_runner :: "load list"
  ow_pool :: "load list"
  ow_completions :: "(nat \<times> completion) list"

section \<open>Installation\<close>

text \<open>
  The constructor and the destructor of the client at the address \<open>a\<close>. When the instance is
  loaded already, adding the load observer calls its \<open>OnLoaded\<close> at once.
\<close>

definition OfficeClient_make ::
  "'l observer_list \<Rightarrow> nat \<Rightarrow> OfficeWorld \<Rightarrow> 'l OfficeInstance \<Rightarrow> nat \<times> OfficeWorld \<times> 'l OfficeInstance" where
  "OfficeClient_make ol runner w oi =
     (let a = ow_next w
      in (a, w\<lparr>ow_next := Suc a, ow_clients := (ow_clients w)(a \<mapsto>
                \<lparr>oc_office = oi_instance oi, oc_self = None, oc_loaded = oi_instance oi, oc_deferred = [], oc_task_runner = runner\<rparr>)\<rparr>,
          AddLoadObserver ol a oi))"

definition OfficeClient_destroy ::
  "'l observer_list \<Rightarrow> nat \<Rightarrow> OfficeWorld \<Rightarrow> 'l OfficeInstance \<Rightarrow> OfficeWorld \<times> 'l OfficeInstance" where
  "OfficeClient_destroy ol a w oi = (w\<lparr>ow_clients := (ow_clients w)(a := None)\<rparr>, RemoveLoadObserver ol a oi)"

text \<open>\<open>lazy_tls->Set(...)\<close> on a thread: the client that was there is destroyed.\<close>

definition tls_Set ::
  "'l observer_list \<Rightarrow> nat \<Rightarrow> nat option \<Rightarrow> OfficeWorld \<Rightarrow> 'l OfficeInstance \<Rightarrow> OfficeWorld \<times> 'l OfficeInstance" where
  "tls_Set ol th new w oi =
     (let old = ow_tls w th; w1 = w\<lparr>ow_tls := (ow_tls w)(th := new)\<rparr>
      in case old of None \<Rightarrow> (w1, oi) | Some a \<Rightarrow> OfficeClient_destroy ol a w1 oi)"

definition set_client :: "nat \<Rightarrow> (OfficeClient \<Rightarrow> OfficeClient) \<Rightarrow> OfficeWorld \<Rightarrow> OfficeWorld" where
  "set_client a f w = w\<lparr>ow_clients := (ow_clients w)(a := map_option f (ow_clients w a))\<rparr>"

text \<open>\<open>wrapper\<close> is V8's object for the new client; without one the handle stays empty.\<close>

definition InstallToContext ::
  "'l observer_list \<Rightarrow> nat \<Rightarrow> nat \<Rightarrow> nat option \<Rightarrow> OfficeWorld \<Rightarrow> 'l OfficeInstance \<Rightarrow> OfficeWorld \<times> 'l OfficeInstance" where
  "InstallToContext ol th runner wrapper w oi =
     (let (a, w1, oi1) = OfficeClient_make ol runner w oi;
          w2 = set_client a (\<lambda>c. c\<lparr>oc_self := wrapper\<rparr>) w1;
          (w3, oi3) = tls_Set ol th (Some a) w2 oi1
      in (w3\<lparr>ow_counter := snd (AtomicRefCount_Increment (ow_counter w3))\<rparr>, oi3))"

definition OfficeClient_Unset :: "nat \<Rightarrow> OfficeWorld \<Rightarrow> OfficeWorld" where
  "OfficeClient_Unset a w = set_client a (\<lambda>c. c\<lparr>oc_self := None\<rparr>) w"

definition RemoveFromContext ::
  "'l observer_list \<Rightarrow> nat \<Rightarrow> OfficeWorld \<Rightarrow> 'l OfficeInstance \<Rightarrow> OfficeWorld \<times> 'l OfficeInstance" where
  "RemoveFromContext ol th w oi =
     (let (more, n) = AtomicRefCount_Decrement (ow_counter w); w1 = w\<lparr>ow_counter := n\<rparr>
      in if more then (w1, oi)
         else let w2 = (case ow_tls w1 th of None \<Rightarrow> w1 | Some a \<Rightarrow> OfficeClient_Unset a w1)
              in tls_Set ol th None w2 oi)"

text \<open>The accessor of the global \<open>libreoffice\<close>, the handle and the weak pointer of the thread's client.\<close>

definition office_GetHandle :: "nat \<Rightarrow> OfficeWorld \<Rightarrow> nat option" where
  "office_GetHandle a w = Option.bind (ow_clients w a) oc_self"

definition GetOfficeHandle :: "nat \<Rightarrow> OfficeWorld \<Rightarrow> nat option" where
  "GetOfficeHandle th w = (case ow_tls w th of None \<Rightarrow> None | Some a \<Rightarrow> office_GetHandle a w)"

definition office_GetWeakPtr :: "nat \<Rightarrow> OfficeWorld \<Rightarrow> nat option" where
  "office_GetWeakPtr th w = ow_tls w th"

text \<open>\<open>MaybeValid\<close> of a weak pointer: the client still exists.\<close>

definition alive :: "nat \<Rightarrow> OfficeWorld \<Rightarrow> bool" where
  "alive a w \<longleftrightarrow> ow_clients w a \<noteq> None"

section \<open>The office\<close>

text \<open>Signalling a second time ends the process. The deferred closures are posted to the runner.\<close>

definition office_OnLoaded :: "nat \<Rightarrow> OfficeWorld \<Rightarrow> OfficeWorld option" where
  "office_OnLoaded a w = do {
     c \<leftarrow> ow_clients w a;
     (if oc_loaded c then None
      else Some (w\<lparr>ow_clients := (ow_clients w)(a \<mapsto> c\<lparr>oc_office := True, oc_loaded := True, oc_deferred := []\<rparr>),
                   ow_runner := ow_runner w @ oc_deferred c\<rparr>)) }"

text \<open>\<open>getError\<close> is LibreOfficeKit's; the result also says whether \<open>freeError\<close> was called.\<close>

definition GetLastError :: "string option \<Rightarrow> OfficeClient \<Rightarrow> string \<times> bool" where
  "GetLastError err c =
     (if \<not> oc_office c then ([], False)
      else case err of None \<Rightarrow> ([], False) | Some e \<Rightarrow> (e, True))"

definition HandleBeforeUnload :: "'l observer_list \<Rightarrow> 'l OfficeInstance \<Rightarrow> 'l OfficeInstance" where
  "HandleBeforeUnload ol oi = (if OfficeInstance_IsValid oi then HandleClientDestroyed ol oi else oi)"

section \<open>Loading\<close>

text \<open>A bound load starts on the pool, or waits for the office.\<close>

definition start_load :: "nat \<Rightarrow> OfficeClient \<Rightarrow> load \<Rightarrow> OfficeWorld \<Rightarrow> OfficeWorld" where
  "start_load a c l w =
     (if oc_loaded c then w\<lparr>ow_pool := ow_pool w @ [l]\<rparr>
      else w\<lparr>ow_clients := (ow_clients w)(a \<mapsto> c\<lparr>oc_deferred := oc_deferred c @ [l]\<rparr>)\<rparr>)"

text \<open>\<open>Inl\<close> is the exception thrown for an invalid URL; the promise is rejected then.\<close>

definition LoadDocumentAsync ::
  "(('s, 'j) v8_value \<Rightarrow> bytes option) \<Rightarrow> caller \<Rightarrow> nat \<Rightarrow> ('s, 'j) v8_value \<Rightarrow> ('s, 'j) PromiseWorld \<Rightarrow> OfficeWorld \<Rightarrow>
   ((string + nat) \<times> ('s, 'j) PromiseWorld \<times> OfficeWorld) option" where
  "LoadDocumentAsync stringify cl a url pw w = do {
     c \<leftarrow> ow_clients w a;
     let (promise, pw1) = new_promise cl pw;
     h \<leftarrow> PromiseBase_GetHandle promise;
     (case stringify url of
        None \<Rightarrow> map_option (\<lambda>pw2. (Inl ''Invalid URL'', pw2, w)) (PromiseBase_Reject promise pw1)
      | Some sUrl \<Rightarrow> Some (Inr h, pw1, start_load a c (LoadUrl a promise sUrl (oc_task_runner c)) w)) }"

text \<open>\<open>token\<close> is the random token of the path.\<close>

definition LoadDocumentFromArrayBuffer ::
  "string \<Rightarrow> caller \<Rightarrow> nat \<Rightarrow> bytes \<Rightarrow> ('s, 'j) PromiseWorld \<Rightarrow> OfficeWorld \<Rightarrow> (nat \<times> ('s, 'j) PromiseWorld \<times> OfficeWorld) option" where
  "LoadDocumentFromArrayBuffer token cl a array_buffer pw w = do {
     c \<leftarrow> ow_clients w a;
     let (promise, pw1) = new_promise cl pw;
     h \<leftarrow> PromiseBase_GetHandle promise;
     (if array_buffer = [] then map_option (\<lambda>pw2. (h, pw2, w)) (PromiseBase_Resolve promise pw1)
      else Some (h, pw1, start_load a c (LoadBuffer a promise array_buffer (''memory://'' @ token) (oc_task_runner c)) w)) }"

text \<open>A deferred closure posted by the signal moves its load to the pool.\<close>

definition PostBlockingAsync :: "load \<Rightarrow> OfficeWorld \<Rightarrow> OfficeWorld" where
  "PostBlockingAsync l w = w\<lparr>ow_pool := ow_pool w @ [l]\<rparr>"

text \<open>LibreOfficeKit's loaders: the address of the document, or a null pointer.\<close>

record lok_office =
  documentLoad :: "bytes \<Rightarrow> nat option"
  loadFromMemory :: "bytes \<Rightarrow> nat option"

definition post_completion :: "nat \<Rightarrow> completion \<Rightarrow> OfficeWorld \<Rightarrow> OfficeWorld" where
  "post_completion runner k w = w\<lparr>ow_completions := ow_completions w @ [(runner, k)]\<rparr>"

definition string_of_bytes :: "bytes \<Rightarrow> string" where
  "string_of_bytes = map (\<lambda>b. char_of (unat b))"

text \<open>The load on the pool: the client that is gone is dereferenced in both cases.\<close>

fun run_load :: "lok_office \<Rightarrow> load \<Rightarrow> OfficeWorld \<Rightarrow> OfficeWorld option" where
  "run_load lo (LoadUrl a promise url runner) w = do {
     c \<leftarrow> ow_clients w a;
     let doc = (if oc_office c then documentLoad lo url else None);
     Some (post_completion runner (Completion a promise (string_of_bytes url) doc) w) }"
| "run_load lo (LoadBuffer a promise data path runner) w = do {
     c \<leftarrow> ow_clients w a;
     (if oc_office c then Some (post_completion runner (Completion a promise path (loadFromMemory lo data)) w) else None) }"

text \<open>
  The completion makes a client for the document, at the address \<open>this\<close>; \<open>GetWrapper\<close> is V8's.
\<close>

fun ResolveLoadWithDocumentClient ::
  "(lok_callback_type \<Rightarrow> int) \<Rightarrow> 'l observer_list \<Rightarrow> 'w lok_document \<Rightarrow> uninitialised \<Rightarrow> (nat \<Rightarrow> ('s, 'j) v8_value option) \<Rightarrow> observer \<Rightarrow>
   completion \<Rightarrow> OfficeWorld \<Rightarrow> ('s, 'j) PromiseWorld \<Rightarrow> ('w, 'c) DocWorld \<Rightarrow> 'l OfficeInstance \<Rightarrow>
   (('s, 'j, 'r, 'p) DocumentClient option \<times> ('s, 'j) PromiseWorld \<times> ('w, 'c) DocWorld \<times> 'l OfficeInstance) option" where
  "ResolveLoadWithDocumentClient code ol lok mem GetWrapper this (Completion a promise path doc) w pw st oi =
     (if \<not> alive a w then Some (None, pw, st, oi)
      else case doc of
             None \<Rightarrow> map_option (\<lambda>pw1. (None, pw1, st, oi)) (PromiseBase_Resolve promise pw)
           | Some d \<Rightarrow> do {
               (h, st1) \<leftarrow> DocumentHolderWithView_make_doc lok (Some d) path st;
               let (doc_client, oi1) = DocumentClient_make code ol st1 mem this (fst (move_construct h)) oi;
               pw1 \<leftarrow> pointer_Resolve GetWrapper promise (Some this) pw;
               Some (Some doc_client, pw1, st1, oi1) })"

section \<open>Reachable worlds\<close>

text \<open>The operations of the clients on all threads.\<close>

datatype office_op =
    OpInstall nat nat "nat option"
  | OpRemove nat
  | OpLoaded nat
  | OpLoad nat load
  | OpRunDeferred
  | OpRunLoad

definition office_step :: "'l observer_list \<Rightarrow> lok_office \<Rightarrow> office_op \<Rightarrow> OfficeWorld \<times> 'l OfficeInstance \<Rightarrow> (OfficeWorld \<times> 'l OfficeInstance) option" where
  "office_step ol lo op s =
     (let (w, oi) = s
      in case op of
           OpInstall th runner wr \<Rightarrow> Some (InstallToContext ol th runner wr w oi)
         | OpRemove th \<Rightarrow> Some (RemoveFromContext ol th w oi)
         | OpLoaded a \<Rightarrow> map_option (\<lambda>w1. (w1, oi)) (office_OnLoaded a w)
         | OpLoad a l \<Rightarrow> map_option (\<lambda>c. (start_load a c l w, oi)) (ow_clients w a)
         | OpRunDeferred \<Rightarrow> (case ow_runner w of [] \<Rightarrow> Some (w, oi) | l # ls \<Rightarrow> Some (PostBlockingAsync l (w\<lparr>ow_runner := ls\<rparr>), oi))
         | OpRunLoad \<Rightarrow> (case ow_pool w of [] \<Rightarrow> Some (w, oi) | l # ls \<Rightarrow> map_option (\<lambda>w1. (w1, oi)) (run_load lo l (w\<lparr>ow_pool := ls\<rparr>))))"

definition OfficeWorld_init :: OfficeWorld where
  "OfficeWorld_init = \<lparr>ow_clients = (\<lambda>_. None), ow_next = 0, ow_tls = (\<lambda>_. None), ow_counter = 0, ow_runner = [], ow_pool = [], ow_completions = []\<rparr>"

inductive office_reach :: "'l observer_list \<Rightarrow> lok_office \<Rightarrow> OfficeWorld \<times> 'l OfficeInstance \<Rightarrow> bool" for ol lo where
  init: "office_reach ol lo (OfficeWorld_init, OfficeInstance_init ol)"
| step: "office_reach ol lo s \<Longrightarrow> office_step ol lo op s = Some s' \<Longrightarrow> office_reach ol lo s'"

text \<open>Each living client is the client of exactly one thread, and only those are to be told that the office is loaded.\<close>

definition tls_inv :: "(nat \<Rightarrow> nat option) \<Rightarrow> nat set \<Rightarrow> nat \<Rightarrow> nat set \<Rightarrow> bool" where
  "tls_inv T A n W \<longleftrightarrow> A = ran T \<and> inj_on T (dom T) \<and> (\<forall>a \<in> A. a < n) \<and> W \<subseteq> A"

definition office_inv :: "'l observer_list \<Rightarrow> OfficeWorld \<times> 'l OfficeInstance \<Rightarrow> bool" where
  "office_inv ol s \<longleftrightarrow> tls_inv (ow_tls (fst s)) {a. alive a (fst s)} (ow_next (fst s)) (ol_observers ol (loaded_observers (snd s)))"

section \<open>Properties\<close>

lemma alive_set_client [simp]: "alive x (set_client a f w) = alive x w"
  by (simp add: alive_def set_client_def)

lemma set_client_fields [simp]:
  "ow_tls (set_client a f w) = ow_tls w" "ow_next (set_client a f w) = ow_next w" "ow_counter (set_client a f w) = ow_counter w"
  by (simp_all add: set_client_def)

lemma alive_update [simp]:
  "alive x (w\<lparr>ow_clients := m\<rparr>) \<longleftrightarrow> m x \<noteq> None" "alive x (w\<lparr>ow_tls := T\<rparr>) = alive x w" "alive x (w\<lparr>ow_next := n\<rparr>) = alive x w"
  "alive x (w\<lparr>ow_counter := k\<rparr>) = alive x w" "alive x (w\<lparr>ow_runner := ls\<rparr>) = alive x w" "alive x (w\<lparr>ow_pool := ls\<rparr>) = alive x w"
  "alive x (w\<lparr>ow_completions := cs\<rparr>) = alive x w"
  by (simp_all add: alive_def)

lemma observers_add: "observer_list_ok ol \<Longrightarrow> ol_observers ol (ol_add ol x l) = insert x (ol_observers ol l)"
  and observers_remove: "observer_list_ok ol \<Longrightarrow> ol_observers ol (ol_remove ol x l) = ol_observers ol l - {x}"
  by (simp_all add: observer_list_ok_def)

lemma tls_inv_drop:
  assumes "tls_inv T A n W" "T th = Some a"
  shows "tls_inv (T(th := None)) (A - {a}) n (W - {a})"
proof -
  have "ran (T(th := None)) = ran T - {a}"
  proof (intro set_eqI iffI)
    fix x
    assume "x \<in> ran (T(th := None))"
    then obtain t where "t \<noteq> th" "T t = Some x" by (auto simp: ran_def split: if_splits)
    moreover from this have "x \<noteq> a" using assms by (auto simp: tls_inv_def inj_on_def dom_def)
    ultimately show "x \<in> ran T - {a}" by (auto intro: ranI)
  next
    fix x
    assume "x \<in> ran T - {a}"
    then obtain t where "T t = Some x" "x \<noteq> a" by (auto simp: ran_def)
    then have "(T(th := None)) t = Some x" using assms(2) by auto
    then show "x \<in> ran (T(th := None))" by (rule ranI)
  qed
  moreover have "inj_on (T(th := None)) (dom (T(th := None)))"
    using assms(1) by (auto simp: tls_inv_def inj_on_def)
  ultimately show ?thesis using assms(1) by (auto simp: tls_inv_def)
qed

lemma tls_inv_put:
  assumes "tls_inv T A n W" "T th = None" "W' \<subseteq> insert n W"
  shows "tls_inv (T(th \<mapsto> n)) (insert n A) (Suc n) W'"
proof -
  have "n \<notin> ran T" using assms(1) by (auto simp: tls_inv_def)
  then have "inj_on (T(th \<mapsto> n)) (dom (T(th \<mapsto> n)))"
    using assms(1,2) by (auto simp: tls_inv_def inj_on_def ran_def dom_def)
  moreover have "ran (T(th \<mapsto> n)) = insert n (ran T)"
    using assms(2) by (simp add: ran_map_upd)
  ultimately show ?thesis using assms(1,3) by (auto simp: tls_inv_def less_Suc_eq)
qed

lemma tls_inv_replace:
  assumes "tls_inv T A n W" "T th = Some a" "W' \<subseteq> insert n W"
  shows "tls_inv (T(th \<mapsto> n)) (insert n A - {a}) (Suc n) (W' - {a})"
proof -
  have "a \<noteq> n" using assms(1,2) by (auto simp: tls_inv_def ran_def)
  then show ?thesis
    using tls_inv_put [OF tls_inv_drop [OF assms(1,2)], of th "W' - {a}"] assms(3) by (simp add: insert_Diff_if) blast
qed

text \<open>What the operations do to the parts the invariant is about.\<close>

lemma tls_Set_parts:
  assumes "observer_list_ok ol"
  shows "ow_tls (fst (tls_Set ol th new w oi)) = (ow_tls w)(th := new)"
    and "ow_next (fst (tls_Set ol th new w oi)) = ow_next w"
    and "{x. alive x (fst (tls_Set ol th new w oi))} = {x. alive x w} - set_option (ow_tls w th)"
    and "ol_observers ol (loaded_observers (snd (tls_Set ol th new w oi))) = ol_observers ol (loaded_observers oi) - set_option (ow_tls w th)"
  by (auto simp: tls_Set_def OfficeClient_destroy_def RemoveLoadObserver_def observers_remove [OF assms] alive_def Let_def split: option.splits)

lemma office_inv_clear:
  assumes "observer_list_ok ol" "office_inv ol (w, oi)"
  shows "office_inv ol (tls_Set ol th None w oi)"
proof (cases "ow_tls w th")
  case None
  then have "(ow_tls w)(th := None) = ow_tls w" by auto
  then show ?thesis using assms(2) None unfolding office_inv_def tls_Set_parts [OF assms(1)] by simp
next
  case (Some a)
  show ?thesis
    using tls_inv_drop [OF assms(2) [unfolded office_inv_def fst_conv snd_conv] Some] Some
    unfolding office_inv_def tls_Set_parts [OF assms(1)] by simp
qed

lemma Install_split:
  "InstallToContext ol th runner wrapper w oi =
     (let (w3, oi3) = tls_Set ol th (Some (ow_next w))
            (set_client (ow_next w) (\<lambda>c. c\<lparr>oc_self := wrapper\<rparr>) (fst (snd (OfficeClient_make ol runner w oi))))
            (AddLoadObserver ol (ow_next w) oi)
      in (w3\<lparr>ow_counter := snd (AtomicRefCount_Increment (ow_counter w3))\<rparr>, oi3))"
  by (simp add: InstallToContext_def OfficeClient_make_def Let_def)

lemma make_parts:
  "ow_tls (fst (snd (OfficeClient_make ol runner w oi))) = ow_tls w"
  "ow_next (fst (snd (OfficeClient_make ol runner w oi))) = Suc (ow_next w)"
  "{x. alive x (fst (snd (OfficeClient_make ol runner w oi)))} = insert (ow_next w) {x. alive x w}"
  by (auto simp: OfficeClient_make_def alive_def Let_def)

lemma office_inv_Install:
  assumes "observer_list_ok ol" "office_inv ol (w, oi)"
  shows "office_inv ol (InstallToContext ol th runner wrapper w oi)"
proof -
  have W': "ol_observers ol (loaded_observers (AddLoadObserver ol (ow_next w) oi)) \<subseteq> insert (ow_next w) (ol_observers ol (loaded_observers oi))"
    by (auto simp: AddLoadObserver_def observers_add [OF assms(1)])
  note inv = assms(2) [unfolded office_inv_def fst_conv snd_conv]
  have "tls_inv ((ow_tls w)(th \<mapsto> ow_next w)) (insert (ow_next w) {x. alive x w} - set_option (ow_tls w th)) (Suc (ow_next w))
      (ol_observers ol (loaded_observers (AddLoadObserver ol (ow_next w) oi)) - set_option (ow_tls w th))"
  proof (cases "ow_tls w th")
    case None
    show ?thesis using tls_inv_put [OF inv None W'] None by simp
  next
    case (Some a)
    show ?thesis using tls_inv_replace [OF inv Some W'] Some by simp
  qed
  then show ?thesis
    unfolding office_inv_def Install_split case_prod_beta Let_def fst_conv snd_conv
    by (simp add: tls_Set_parts [OF assms(1)] make_parts)
qed

lemma office_inv_Remove:
  assumes "observer_list_ok ol" "office_inv ol (w, oi)"
  shows "office_inv ol (RemoveFromContext ol th w oi)"
proof -
  have "office_inv ol (w\<lparr>ow_counter := n\<rparr>, oi)" "office_inv ol (OfficeClient_Unset a (w\<lparr>ow_counter := n\<rparr>), oi)" for n a
    using assms(2) by (simp_all add: office_inv_def OfficeClient_Unset_def)
  then show ?thesis
    using office_inv_clear [OF assms(1)] by (auto simp: RemoveFromContext_def Let_def case_prod_beta split: option.split)
qed

lemma office_inv_same:
  assumes "office_inv ol (w, oi)" "ow_tls w' = ow_tls w" "ow_next w' = ow_next w" "\<And>x. alive x w' = alive x w"
  shows "office_inv ol (w', oi)"
  using assms by (simp add: office_inv_def)

lemma start_load_same:
  assumes "ow_clients w a = Some c"
  shows "ow_tls (start_load a c l w) = ow_tls w" "ow_next (start_load a c l w) = ow_next w" "alive x (start_load a c l w) = alive x w"
  using assms by (auto simp: start_load_def alive_def)

lemma run_load_same:
  assumes "run_load lo l w = Some w'"
  shows "ow_tls w' = ow_tls w \<and> ow_next w' = ow_next w \<and> ow_clients w' = ow_clients w"
  using assms by (cases l) (auto simp: post_completion_def split: Option.bind_splits if_splits)

lemma OnLoaded_same:
  assumes "office_OnLoaded a w = Some w'"
  shows "ow_tls w' = ow_tls w" "ow_next w' = ow_next w" "alive x w' = alive x w"
  using assms by (auto simp: office_OnLoaded_def alive_def split: Option.bind_splits if_splits)

lemma office_inv_step:
  assumes "observer_list_ok ol" "office_inv ol (w, oi)" "office_step ol lo op (w, oi) = Some (w', oi')"
  shows "office_inv ol (w', oi')"
proof (cases op)
  case (OpInstall th runner wr)
  then show ?thesis using office_inv_Install [OF assms(1,2), of th runner wr] assms(3) by (simp add: office_step_def)
next
  case (OpRemove th)
  then show ?thesis using office_inv_Remove [OF assms(1,2), of th] assms(3) by (simp add: office_step_def)
next
  case (OpLoaded a)
  then show ?thesis using assms(2,3) OnLoaded_same by (auto simp: office_step_def intro: office_inv_same)
next
  case (OpLoad a l)
  then show ?thesis using assms(2,3) start_load_same by (auto simp: office_step_def intro: office_inv_same)
next
  case OpRunDeferred
  then show ?thesis
    using assms(2,3) by (auto simp: office_step_def PostBlockingAsync_def office_inv_def split: list.splits)
next
  case OpRunLoad
  then show ?thesis
    using assms(2,3) by (auto simp: office_step_def office_inv_def alive_def dest!: run_load_same split: list.splits)
qed

text \<open>C29: the office clients of all threads. In every state the operations reach, the living clients
  are exactly the clients in the threads' slots, no two threads share one, and only living
  clients wait to be told that the office is loaded.\<close>

theorem office_reach_inv:
  assumes "observer_list_ok ol" "office_reach ol lo (w, oi)"
  shows "(\<forall>a. alive a w \<longleftrightarrow> (\<exists>th. ow_tls w th = Some a)) \<and>
    (\<forall>th th' a. ow_tls w th = Some a \<longrightarrow> ow_tls w th' = Some a \<longrightarrow> th = th') \<and>
    (\<forall>a. a \<in> ol_observers ol (loaded_observers oi) \<longrightarrow> alive a w)"
proof -
  have "office_inv ol s" if "office_reach ol lo s" for s
    using that
  proof (induction rule: office_reach.induct)
    case init
    then show ?case using assms(1)
      by (simp add: office_inv_def tls_inv_def OfficeWorld_init_def OfficeInstance_init_def observer_list_ok_def alive_def)
  next
    case (step s op s')
    then show ?case using office_inv_step [OF assms(1)] by (metis surj_pair)
  qed
  from this [OF assms(2)] have "tls_inv (ow_tls w) {a. alive a w} (ow_next w) (ol_observers ol (loaded_observers oi))"
    by (simp add: office_inv_def)
  then show ?thesis by (auto simp: tls_inv_def ran_def inj_on_def dom_def)
qed

theorem office_reach_inv_witness:
  "\<exists>w oi. office_reach sample_list \<lparr>documentLoad = \<lambda>_. None, loadFromMemory = \<lambda>_. None\<rparr> (w, oi) \<and> ow_tls w 9 = Some 0 \<and>
     alive 0 w \<and> \<not> alive 1 w"
proof -
  obtain w oi where s: "InstallToContext sample_list 9 3 (Some 4) OfficeWorld_init (OfficeInstance_init sample_list) = (w, oi)"
    by (rule prod.exhaust)
  have reach: "office_reach sample_list \<lparr>documentLoad = \<lambda>_. None, loadFromMemory = \<lambda>_. None\<rparr> (w, oi)"
    by (rule office_reach.step [OF office_reach.init, of _ _ "OpInstall 9 3 (Some 4)"]) (simp add: office_step_def s)
  have tls: "ow_tls w = [9 \<mapsto> 0]"
    using arg_cong [OF s, of "\<lambda>s. ow_tls (fst s)"]
    by (simp add: InstallToContext_def OfficeClient_make_def tls_Set_def OfficeWorld_init_def set_client_def Let_def)
  have "alive x w \<longleftrightarrow> x = 0" for x
    using office_reach_inv [OF sample_list_ok reach, THEN conjunct1, THEN spec, of x] tls by auto
  then show ?thesis using reach tls by (intro exI [of _ w] exI [of _ oi]) simp
qed


text \<open>A thread with a client that waits for the office, for the witnesses.\<close>

definition sample_office :: OfficeWorld where
  "sample_office = OfficeWorld_init\<lparr>ow_clients := [0 \<mapsto> \<lparr>oc_office = False, oc_self = Some 4, oc_loaded = False, oc_deferred = [], oc_task_runner = 3\<rparr>],
     ow_next := 1, ow_tls := [9 \<mapsto> 0], ow_counter := 1\<rparr>"

definition no_memory :: uninitialised where
  "no_memory = \<lparr>mem_is_ready = False, mem_height = 0, mem_width = 0\<rparr>"

lemma sample_make_doc: "\<exists>h st. DocumentHolderWithView_make_doc sample_lok (Some 100) path command_world = Some (h, st)"
  by (simp add: DocumentHolderWithView_make_doc_def DocumentHolderWithView_make_def SetAsCurrentView_def doc_of_def PtrToId_def add_ref_def
      sample_lok_def command_world_def Let_def)


text \<open>Installing the office into a second context of a thread destroys the client of the first
  one while its loads may be running: a load that was started before and runs afterwards uses the
  destroyed client, through an unretained pointer for a URL and an invalid weak pointer for a
  buffer.\<close>

theorem Install_dangles:
  assumes "ow_tls w th = Some a" "a < ow_next w"
  shows "run_load lo (LoadUrl a p url r) (fst (InstallToContext ol th runner wrapper w oi)) = None \<and>
    run_load lo (LoadBuffer a p data path r) (fst (InstallToContext ol th runner wrapper w oi)) = None"
  using assms
  by (simp add: InstallToContext_def OfficeClient_make_def tls_Set_def OfficeClient_destroy_def set_client_def Let_def)

theorem Install_dangles_witness:
  "run_load \<lparr>documentLoad = \<lambda>_. None, loadFromMemory = \<lambda>_. None\<rparr> (LoadUrl 0 (fst (new_promise sample_caller sample_promises)) [97] 3)
     (fst (InstallToContext sample_list 9 3 (Some 6) sample_office (OfficeInstance_init sample_list))) = None"
proof -
  have "ow_tls sample_office 9 = Some 0" "0 < ow_next sample_office" by (simp_all add: sample_office_def)
  from Install_dangles [OF this, THEN conjunct1] show ?thesis .
qed

end
