(* ===== verification/Office_Keys.thy ===== *)
theory Office_Keys
  imports Prelude
begin

text \<open>
  office/office_keys.cc and office/office_keys.h: the translation of a DOM key code with its
  modifiers into the key code LibreOffice expects. The USB codes of the DOM keys come from
  Chromium's dom_code_data.inc and are a parameter \<open>usb\<close>; what the code relies on (that the
  letters, digits and function keys are numbered consecutively) is the hypothesis \<open>usb_layout\<close>.
\<close>

section \<open>Keys\<close>

datatype (plugins only: size) dom_key =
    ARROW_DOWN | ARROW_UP | ARROW_LEFT | ARROW_RIGHT | DK_HOME | DK_END | PAGE_UP | PAGE_DOWN
  | ENTER | DK_ESCAPE | DK_TAB | DK_BACKSPACE | NUMPAD_BACKSPACE | DK_SPACE | DK_INSERT | DK_DEL
  | NUMPAD_ADD | NUMPAD_SUBTRACT | NUMPAD_MULTIPLY | NUMPAD_DIVIDE | NUMPAD_DECIMAL | NUMPAD_COMMA
  | DK_OPEN | DK_CUT | DK_COPY | DK_PASTE | DK_UNDO | DK_REDO | DK_FIND | PROPS | CONTEXT_MENU
  | DK_HELP | NUM_LOCK | CAPS_LOCK | SCROLL_LOCK
  | DK_F1 | DK_F12 | DK_F13 | DK_F24 | US_A | US_Z | DIGIT1 | DIGIT9 | DIGIT0 | NUMPAD1 | NUMPAD9 | NUMPAD0 | US_V | US_W

text \<open>The enumerators of \<open>LOKKeyCodes\<close> the code uses, with the values the enumeration gives them.\<close>

datatype (plugins only: size) LOKKeyCodes =
    NUM0 | NUM1 | L_A | L_F1 | L_F13
  | DOWN | UP | LEFT | RIGHT | HOME | L_END | PAGEUP | PAGEDOWN
  | RETURN | ESCAPE | TAB | BACKSPACE | SPACE | INSERT | DEL | ADD | SUBTRACT | MULTIPLY | DIVIDE | POINT | COMMA
  | OPEN | CUT | COPY | PASTE | UNDO | REPEAT | FIND | PROPERTIES | CONTEXTMENU | HELP
  | CAPSLOCK | NUMLOCK | SCROLLLOCK

primrec lok_code :: "LOKKeyCodes \<Rightarrow> int" where
  "lok_code NUM0 = 256" | "lok_code NUM1 = 257" | "lok_code L_A = 512" | "lok_code L_F1 = 768" | "lok_code L_F13 = 780"
| "lok_code DOWN = 1024" | "lok_code UP = 1025" | "lok_code LEFT = 1026" | "lok_code RIGHT = 1027"
| "lok_code HOME = 1028" | "lok_code L_END = 1029" | "lok_code PAGEUP = 1030" | "lok_code PAGEDOWN = 1031"
| "lok_code RETURN = 1280" | "lok_code ESCAPE = 1281" | "lok_code TAB = 1282" | "lok_code BACKSPACE = 1283"
| "lok_code SPACE = 1284" | "lok_code INSERT = 1285" | "lok_code DEL = 1286" | "lok_code ADD = 1287"
| "lok_code SUBTRACT = 1288" | "lok_code MULTIPLY = 1289" | "lok_code DIVIDE = 1290" | "lok_code POINT = 1291"
| "lok_code COMMA = 1292" | "lok_code OPEN = 1296" | "lok_code CUT = 1297" | "lok_code COPY = 1298"
| "lok_code PASTE = 1299" | "lok_code UNDO = 1300" | "lok_code REPEAT = 1301" | "lok_code FIND = 1302"
| "lok_code PROPERTIES = 1303" | "lok_code CONTEXTMENU = 1305" | "lok_code HELP = 1307"
| "lok_code CAPSLOCK = 1316" | "lok_code NUMLOCK = 1317" | "lok_code SCROLLLOCK = 1318"

definition directMap :: "(dom_key \<times> LOKKeyCodes) list" where
  "directMap = [
     (ARROW_DOWN, DOWN), (ARROW_UP, UP), (ARROW_LEFT, LEFT), (ARROW_RIGHT, RIGHT),
     (DK_HOME, HOME), (DK_END, L_END), (PAGE_UP, PAGEUP), (PAGE_DOWN, PAGEDOWN),
     (ENTER, RETURN), (DK_ESCAPE, ESCAPE), (DK_TAB, TAB), (DK_BACKSPACE, BACKSPACE),
     (NUMPAD_BACKSPACE, BACKSPACE), (DK_SPACE, SPACE), (DK_INSERT, INSERT), (DK_DEL, DEL),
     (NUMPAD_ADD, ADD), (NUMPAD_SUBTRACT, SUBTRACT), (NUMPAD_MULTIPLY, MULTIPLY),
     (NUMPAD_DIVIDE, DIVIDE), (NUMPAD_DECIMAL, POINT), (NUMPAD_COMMA, COMMA),
     (DK_OPEN, OPEN), (DK_CUT, CUT), (DK_COPY, COPY), (DK_PASTE, PASTE), (DK_UNDO, UNDO),
     (DK_REDO, REPEAT), (DK_FIND, FIND), (PROPS, PROPERTIES), (CONTEXT_MENU, CONTEXTMENU),
     (DK_HELP, HELP), (NUM_LOCK, NUMLOCK), (CAPS_LOCK, CAPSLOCK), (SCROLL_LOCK, SCROLLLOCK)]"

section \<open>Modifiers\<close>

definition kShiftKey :: int where "kShiftKey = 1"
definition kControlKey :: int where "kControlKey = 2"
definition kAltKey :: int where "kAltKey = 4"
definition kMetaKey :: int where "kMetaKey = 8"
definition LOK_Shift :: int where "LOK_Shift = 0x1000"
definition LOK_Mod1 :: int where "LOK_Mod1 = 0x2000"
definition LOK_Mod2 :: int where "LOK_Mod2 = 0x4000"
definition LOK_Mod3 :: int where "LOK_Mod3 = 0x8000"
definition LOK_Mask :: int where "LOK_Mask = 0xF000"

lemmas modifier_bits = kShiftKey_def kControlKey_def kAltKey_def kMetaKey_def
  LOK_Shift_def LOK_Mod1_def LOK_Mod2_def LOK_Mod3_def LOK_Mask_def

definition EventModifiersToLOKModifiers :: "int \<Rightarrow> int" where
  "EventModifiersToLOKModifiers modifiers =
     (let result = 0;
          result = (if modifiers AND kShiftKey \<noteq> 0 then result OR LOK_Shift else result);
          result = (if modifiers AND kControlKey \<noteq> 0 then result OR LOK_Mod1 else result);
          result = (if modifiers AND kAltKey \<noteq> 0 then result OR LOK_Mod2 else result);
          result = (if modifiers AND kMetaKey \<noteq> 0 then result OR LOK_Mod3 else result)
      in result)"

section \<open>Key codes\<close>

definition unmappedKey :: "(dom_key \<Rightarrow> int) \<Rightarrow> int \<Rightarrow> int \<Rightarrow> int" where
  "unmappedKey usb dom_code lok_modifiers =
     (if usb DK_F1 \<le> dom_code \<and> dom_code \<le> usb DK_F12 then (dom_code - usb DK_F1) + lok_code L_F1
      else if usb DK_F13 \<le> dom_code \<and> dom_code \<le> usb DK_F24 then (dom_code - usb DK_F13) + lok_code L_F13
      else if lok_modifiers = 0 then 0
      else if usb US_A \<le> dom_code \<and> dom_code \<le> usb US_Z then (dom_code - usb US_A) + lok_code L_A
      else if usb DIGIT1 \<le> dom_code \<and> dom_code \<le> usb DIGIT9 then (dom_code - usb DIGIT1) + lok_code NUM1
      else if usb NUMPAD1 \<le> dom_code \<and> dom_code \<le> usb NUMPAD9 then (dom_code - usb NUMPAD1) + lok_code NUM1
      else if dom_code = usb DIGIT0 \<or> dom_code = usb NUMPAD0 then lok_code NUM0
      else 0)"

definition directMap_find :: "(dom_key \<Rightarrow> int) \<Rightarrow> int \<Rightarrow> LOKKeyCodes option" where
  "directMap_find usb dom_code = map_of (map (\<lambda>(k, l). (usb k, l)) directMap) dom_code"

definition DOMKeyCodeToLOKKeyCode :: "(dom_key \<Rightarrow> int) \<Rightarrow> int \<Rightarrow> int \<Rightarrow> int" where
  "DOMKeyCodeToLOKKeyCode usb dom_code modifiers =
     (let lok_modifiers = EventModifiersToLOKModifiers modifiers;
          result = (case directMap_find usb dom_code of
                      None \<Rightarrow> unmappedKey usb dom_code lok_modifiers
                    | Some l \<Rightarrow> lok_code l)
      in result OR lok_modifiers)"

section \<open>Properties\<close>

definition usb_layout :: "(dom_key \<Rightarrow> int) \<Rightarrow> bool" where
  "usb_layout usb \<longleftrightarrow> usb DK_F12 = usb DK_F1 + 11 \<and> usb DK_F24 = usb DK_F13 + 11 \<and>
     usb US_Z = usb US_A + 25 \<and> usb DIGIT9 = usb DIGIT1 + 8 \<and> usb NUMPAD9 = usb NUMPAD1 + 8"

definition base_key :: "(dom_key \<Rightarrow> int) \<Rightarrow> int \<Rightarrow> int \<Rightarrow> int" where
  "base_key usb dom_code modifiers =
     (case directMap_find usb dom_code of
        None \<Rightarrow> unmappedKey usb dom_code (EventModifiersToLOKModifiers modifiers)
      | Some l \<Rightarrow> lok_code l)"

lemma lok_code_range: "256 \<le> lok_code l \<and> lok_code l < 4096"
  by (cases l) simp_all

lemma unmappedKey_range: "usb_layout usb \<Longrightarrow> 0 \<le> unmappedKey usb dom_code m \<and> unmappedKey usb dom_code m < 4096"
  by (simp add: unmappedKey_def usb_layout_def)

lemma base_key_range: "usb_layout usb \<Longrightarrow> 0 \<le> base_key usb dom_code modifiers \<and> base_key usb dom_code modifiers < 4096"
  using unmappedKey_range lok_code_range
  by (cases "directMap_find usb dom_code") (simp_all add: base_key_def order.trans [of 0 256])

lemma and_exp_bit: "m AND 2 ^ k \<noteq> 0 \<longleftrightarrow> bit (m :: int) k"
  by (simp add: bit_iff_and_push_bit_not_eq_0 push_bit_eq_mult)

lemma take_bit_4: "take_bit 4 (m :: int) = of_bool (bit m 0) + 2 * of_bool (bit m 1) + 4 * of_bool (bit m 2) + 8 * of_bool (bit m 3)"
  using take_bit_Suc_from_most [of 3 m] take_bit_Suc_from_most [of 2 m] take_bit_Suc_from_most [of 1 m]
    take_bit_Suc_from_most [of 0 m]
  by (simp add: eval_nat_numeral)

lemma EventModifiers_shift: "EventModifiersToLOKModifiers m = push_bit 12 (take_bit 4 m)"
proof -
  have "m AND 1 \<noteq> 0 \<longleftrightarrow> bit m 0" "m AND 2 \<noteq> 0 \<longleftrightarrow> bit m 1" "m AND 4 \<noteq> 0 \<longleftrightarrow> bit m 2" "m AND 8 \<noteq> 0 \<longleftrightarrow> bit m 3"
    using and_exp_bit [of m 0] and_exp_bit [of m 1] and_exp_bit [of m 2] and_exp_bit [of m 3] by simp_all
  then show ?thesis
    unfolding EventModifiersToLOKModifiers_def modifier_bits take_bit_4
    by (cases "bit m 0"; cases "bit m 1"; cases "bit m 2"; cases "bit m 3") (simp_all add: push_bit_eq_mult)
qed

lemma split_or:
  assumes "0 \<le> b" "b < (4096 :: int)"
  shows "(b OR push_bit 12 k) AND 0xFFF = b" "drop_bit 12 (b OR push_bit 12 k) = k"
proof -
  have b: "take_bit 12 b = b" using assms by (simp add: take_bit_int_eq_self)
  have "(b OR push_bit 12 k) AND mask 12 = take_bit 12 b OR take_bit 12 (push_bit 12 k)"
    by (simp only: take_bit_or flip: take_bit_eq_mask)
  then show "(b OR push_bit 12 k) AND 0xFFF = b" by (simp add: b mask_eq_exp_minus_1 take_bit_push_bit)
  have "drop_bit 12 b = 0" using assms by (simp add: drop_bit_eq_div)
  moreover have "drop_bit 12 (push_bit 12 k) = k" by (simp add: drop_bit_eq_div push_bit_eq_mult)
  ultimately show "drop_bit 12 (b OR push_bit 12 k) = k" by simp
qed

text \<open>The LibreOffice key code carries the key and the modifiers in separate bits. With the
  consecutive USB codes of the DOM keys, the low 12 bits of DOMKeyCodeToLOKKeyCode are the key's
  code and the bits above are exactly Shift, Control, Alt and Meta of the event; without one of
  these modifiers a letter or digit that is no direct key has the code 0.\<close>

theorem DOMKeyCodeToLOKKeyCode_split:
  assumes "usb_layout usb"
  shows "DOMKeyCodeToLOKKeyCode usb dom_code modifiers AND 0xFFF = base_key usb dom_code modifiers \<and>
    drop_bit 12 (DOMKeyCodeToLOKKeyCode usb dom_code modifiers) = take_bit 4 modifiers \<and>
    (take_bit 4 modifiers = 0 \<longrightarrow> directMap_find usb dom_code = None \<longrightarrow>
      \<not> (usb DK_F1 \<le> dom_code \<and> dom_code \<le> usb DK_F12) \<longrightarrow> \<not> (usb DK_F13 \<le> dom_code \<and> dom_code \<le> usb DK_F24) \<longrightarrow>
      DOMKeyCodeToLOKKeyCode usb dom_code modifiers = 0)"
proof -
  have "DOMKeyCodeToLOKKeyCode usb dom_code modifiers = base_key usb dom_code modifiers OR push_bit 12 (take_bit 4 modifiers)"
    by (simp add: DOMKeyCodeToLOKKeyCode_def base_key_def Let_def flip: EventModifiers_shift)
  moreover have "base_key usb dom_code modifiers = 0"
    if "take_bit 4 modifiers = 0" "directMap_find usb dom_code = None"
      "\<not> (usb DK_F1 \<le> dom_code \<and> dom_code \<le> usb DK_F12)" "\<not> (usb DK_F13 \<le> dom_code \<and> dom_code \<le> usb DK_F24)"
    using that by (simp add: base_key_def unmappedKey_def EventModifiers_shift)
  ultimately show ?thesis
    using split_or [of "base_key usb dom_code modifiers"] base_key_range [OF assms, of dom_code modifiers] by simp
qed

text \<open>The USB codes of the ranges, and a code outside them for every other key.\<close>

definition sample_usb :: "dom_key \<Rightarrow> int" where
  "sample_usb k =
     (case k of DK_F1 \<Rightarrow> 0x07003a | DK_F12 \<Rightarrow> 0x070045 | DK_F13 \<Rightarrow> 0x070068 | DK_F24 \<Rightarrow> 0x070073
        | US_A \<Rightarrow> 0x070004 | US_Z \<Rightarrow> 0x07001d | DIGIT1 \<Rightarrow> 0x07001e | DIGIT9 \<Rightarrow> 0x070026 | DIGIT0 \<Rightarrow> 0x070027
        | NUMPAD1 \<Rightarrow> 0x070059 | NUMPAD9 \<Rightarrow> 0x070061 | NUMPAD0 \<Rightarrow> 0x070062 | _ \<Rightarrow> 0)"

theorem DOMKeyCodeToLOKKeyCode_split_witness:
  "DOMKeyCodeToLOKKeyCode sample_usb 0x07001d 3 AND 0xFFF = 537 \<and>
   drop_bit 12 (DOMKeyCodeToLOKKeyCode sample_usb 0x07001d 3) = 3 \<and>
   DOMKeyCodeToLOKKeyCode sample_usb 0x07001d 0 = 0"
proof -
  have layout: "usb_layout sample_usb" by (simp add: usb_layout_def sample_usb_def)
  have find: "directMap_find sample_usb 0x07001d = None"
    by (simp add: directMap_find_def directMap_def sample_usb_def)
  have base: "base_key sample_usb 0x07001d 3 = 537"
    by (simp add: base_key_def find unmappedKey_def sample_usb_def EventModifiers_shift)
  show ?thesis
    using DOMKeyCodeToLOKKeyCode_split [OF layout, of "0x07001d" 3] base
      DOMKeyCodeToLOKKeyCode_split [OF layout, of "0x07001d" 0] find
    by (simp add: sample_usb_def)
qed

end
