(* ===== verification/Plugin_Zoom.thy ===== *)
theory Plugin_Zoom
  imports Twips
begin

text \<open>
  The zoom factors of office/office_web_plugin.cc: a requested zoom is clipped so that the
  256-pixel tile becomes a multiple of 8 pixels wide. Values of type \<open>float\<close> are those of
  \<open>Machine_Float\<close>; the conversion of the ceiled width to \<open>int\<close> is undefined out of range.
\<close>

definition clipToNearest8PxZoom :: "int \<Rightarrow> fp \<Rightarrow> fp option" where
  "clipToNearest8PxZoom w s = do {
     let scaled_width = f32_mul (f32_of_int w) s;
     width \<leftarrow> fp_to_int32 (fp_ceil scaled_width);
     let m = c_mod width 8;
     if m = 0 then Some s
     else do {
       let low_scale = f32_div (f32_sub (fp_ceil scaled_width) (f32_of_int m)) (f32_of_int w);
       let high_scale = f32_div (f32_sub (f32_add (fp_ceil scaled_width) (Fin 8)) (f32_of_int m)) (f32_of_int w);
       Some (if fp_less (fp_abs (f32_sub low_scale s)) (fp_abs (f32_sub high_scale s)) then low_scale else high_scale) } }"

section \<open>Exactness\<close>

definition f32_value :: "rat \<Rightarrow> bool" where
  "f32_value x \<longleftrightarrow> representable 24 (- 149) 104 x"

lemma round32_value: "f32_value x \<Longrightarrow> round32 x = Fin x"
  by (simp add: f32_value_def round32_exact)

lemma f32_value_int: "\<bar>m\<bar> < 2 ^ 24 \<Longrightarrow> f32_value (of_int m)"
  by (simp add: f32_value_def representable_int)

lemma f32_value_256th: "\<bar>m\<bar> < 2 ^ 24 \<Longrightarrow> f32_value (of_int m / 256)"
  using representable_scaled [of m 24 "- 149" 8 104] by (simp add: f32_value_def)

text \<open>Scaling a small value by 256 is exact.\<close>

lemma f32_value_times_256:
  assumes "f32_value x" "\<bar>x\<bar> < 2 ^ 90"
  shows "f32_value (256 * x)"
proof -
  obtain m e where x: "x = of_int m * 2 powi e" "\<bar>m\<bar> < 2 ^ 24" "- 149 \<le> e" "e \<le> 104"
    using assms(1) by (auto simp: f32_value_def representable_def)
  show ?thesis
  proof (cases "m = 0")
    case True
    then show ?thesis using f32_value_int [of 0] x(1) by simp
  next
    case False
    have "e < 90"
    proof (rule ccontr)
      assume "\<not> e < 90"
      then have "(2 :: rat) powi 90 \<le> 2 powi e" by (intro power_int_increasing) simp_all
      moreover have "(1 :: rat) \<le> of_int \<bar>m\<bar>" using False by simp
      ultimately have "(2 :: rat) powi 90 \<le> of_int \<bar>m\<bar> * 2 powi e"
        by (metis mult_1 mult_mono of_int_0_le_iff abs_ge_zero zero_le_power_int zero_le_numeral)
      then show False using assms(2) x(1) by (simp add: abs_mult)
    qed
    moreover have "256 * x = of_int m * 2 powi (e + 8)"
      by (simp add: x(1) power_int_add)
    ultimately show ?thesis
      unfolding f32_value_def representable_def using x(2,3) by (intro exI [of _ m] exI [of _ "e + 8"]) simp
  qed
qed

lemma close_multiple:
  fixes x :: rat
  assumes "8 dvd k" "0 \<le> k" "of_int k - 256 * x < 8" "256 * x - of_int k < 8"
  shows "8 dvd \<lceil>256 * (of_int k / 256 :: rat)\<rceil> \<and> 0 \<le> (of_int k / 256 :: rat) \<and> \<bar>of_int k / 256 - x\<bar> < 8 / 256"
proof -
  have "256 * (of_int k / 256 :: rat) = of_int k" by simp
  then have "8 dvd \<lceil>256 * (of_int k / 256 :: rat)\<rceil>" using assms(1) by (simp only: ceiling_of_int)
  moreover have "of_int k / 256 - x < 8 / 256" "- (of_int k / 256 - x) < 8 / 256" using assms(3,4) by linarith+
  ultimately show ?thesis using assms(2) unfolding abs_less_iff by simp
qed

text \<open>Clipping a zoom returns, for every non-negative zoom below 4096, a zoom for which the 256-pixel
  tile is an exact multiple of 8 pixels wide or was already after rounding up, and which differs
  from the requested one by less than 8 of 256 pixels.\<close>

theorem clipToNearest8PxZoom_correct:
  assumes "f32_value x" "0 \<le> x" "x < 4096"
  shows "\<exists>z. clipToNearest8PxZoom 256 (Fin x) = Some (Fin z) \<and> 8 dvd \<lceil>256 * z\<rceil> \<and> 0 \<le> z \<and> \<bar>z - x\<bar> < 8 / 256"
proof -
  define n where "n = \<lceil>256 * x\<rceil>"
  have n: "of_int n - 1 < 256 * x" "256 * x \<le> of_int n" by (simp_all add: n_def ceiling_correct)
  have n0: "0 \<le> n" using assms(2) by (simp add: n_def)
  have nu: "n \<le> 1048576" unfolding n_def using assms(3) by (subst ceiling_le_iff) simp
  have "f32_value (256 * x)" using assms by (intro f32_value_times_256) simp_all
  then have sw: "f32_mul (f32_of_int 256) (Fin x) = Fin (256 * x)"
    using round32_value [OF f32_value_int [of 256]] by (simp add: f32_of_int_def round32_value)
  have w: "fp_to_int32 (fp_ceil (Fin (256 * x))) = Some n"
    using n0 nu by (simp add: fp_to_int32_def rat_trunc_def int32_min_def int32_max_def flip: n_def)
  define m where "m = n mod 8"
  have m: "c_mod n 8 = m" "0 \<le> m" "m < 8" using n0 by (simp_all add: c_mod_nonneg m_def)
  have dvd: "8 dvd n - m" "8 dvd n + 8 - m" "m \<le> n"
    unfolding m_def using n0 zmod_le_nonneg_dividend [of n 8] by presburger+
  have fl: "f32_of_int m = Fin (of_int m)" "f32_of_int 256 = Fin 256"
    using round32_value [OF f32_value_int [of m]] round32_value [OF f32_value_int [of 256]] m(2,3) by (simp_all add: f32_of_int_def)
  have exact: "round32 (of_int k) = Fin (of_int k)" "round32 (of_int k / 256) = Fin (of_int k / 256)" if "0 \<le> k" "k \<le> n + 8" for k
    using that nu by (auto intro!: round32_value f32_value_int f32_value_256th)
  have low: "f32_div (f32_sub (Fin (of_int n)) (f32_of_int m)) (f32_of_int 256) = Fin (of_int (n - m) / 256)"
    using exact [of "n - m"] dvd(3) m(2) by (simp add: fp_sub_def fl)
  have high: "f32_div (f32_sub (f32_add (Fin (of_int n)) (Fin 8)) (f32_of_int m)) (f32_of_int 256) = Fin (of_int (n + 8 - m) / 256)"
    using exact [of "n + 8"] exact [of "n + 8 - m"] n0 m(2,3) by (simp add: fp_sub_def fl)
  have mr: "(0 :: rat) \<le> of_int m" "(of_int m :: rat) \<le> 7" using m(2,3) by simp_all
  let ?P = "\<lambda>z. 8 dvd \<lceil>256 * z\<rceil> \<and> 0 \<le> z \<and> \<bar>z - x\<bar> < 8 / 256"
  have Px: "?P x" if "m = 0" using that assms(2) dvd(1) by (simp add: n_def)
  have Pl: "?P (of_int (n - m) / 256)"
    using n mr dvd by (intro close_multiple) (simp_all add: algebra_simps)
  have Ph: "?P (of_int (n + 8 - m) / 256)" if "m \<noteq> 0"
  proof -
    have "(1 :: rat) \<le> of_int m" using that m(2) by simp
    then show ?thesis using n mr dvd n0 m(3) by (intro close_multiple) (simp_all add: algebra_simps)
  qed
  have clip: "clipToNearest8PxZoom 256 (Fin x) =
      Some (if m = 0 then Fin x
        else if fp_less (fp_abs (f32_sub (Fin (of_int (n - m) / 256)) (Fin x))) (fp_abs (f32_sub (Fin (of_int (n + 8 - m) / 256)) (Fin x)))
        then Fin (of_int (n - m) / 256) else Fin (of_int (n + 8 - m) / 256))"
    unfolding clipToNearest8PxZoom_def sw Let_def w Option.bind_lunit m(1)
    unfolding fp_ceil.simps n_def [symmetric] low high by simp
  show ?thesis
  proof (cases "m = 0")
    case True
    then show ?thesis using Px unfolding clip by auto
  next
    case False
    show ?thesis
    proof (cases "fp_less (fp_abs (f32_sub (Fin (of_int (n - m) / 256)) (Fin x))) (fp_abs (f32_sub (Fin (of_int (n + 8 - m) / 256)) (Fin x)))")
      case True
      then show ?thesis using Pl False unfolding clip by (intro exI [of _ "of_int (n - m) / 256"]) (simp only: if_True if_False simp_thms)
    next
      case not_low: False
      then show ?thesis using Ph [OF False] False unfolding clip
        by (intro exI [of _ "of_int (n + 8 - m) / 256"]) (simp only: if_True if_False simp_thms)
    qed
  qed
qed

theorem clipToNearest8PxZoom_correct_witness:
  "\<exists>z. clipToNearest8PxZoom 256 (Fin 11) = Some (Fin z) \<and> 8 dvd \<lceil>256 * z\<rceil> \<and> 0 \<le> z \<and> \<bar>z - 11\<bar> < 8 / 256"
  using clipToNearest8PxZoom_correct [of 11] f32_value_int [of 11] by simp

text \<open>A zoom near 0 is clipped to 0.\<close>

lemma clip_to_zero: "clipToNearest8PxZoom 256 (Fin (1 / 128)) = Some (Fin 0)"
proof -
  have r: "round32 2 = Fin 2" "round32 10 = Fin 10" "round32 8 = Fin 8" "round32 256 = Fin 256" "round32 0 = Fin 0"
    using round32_value [OF f32_value_int [of 2]] round32_value [OF f32_value_int [of 10]] round32_value [OF f32_value_int [of 8]]
      round32_value [OF f32_value_int [of 256]] round32_value [OF f32_value_int [of 0]] by simp_all
  have f: "round32 (1 / 32) = Fin (1 / 32)" "round32 (3 / 128) = Fin (3 / 128)" "round32 (- (1 / 128)) = Fin (- (1 / 128))"
    using round32_value [OF f32_value_256th [of 8]] round32_value [OF f32_value_256th [of 6]]
      round32_value [OF f32_value_256th [of "- 2"]] by simp_all
  have "c_mod 2 8 = 2" using c_mod_nonneg [of 2 8] by simp
  then show ?thesis
    by (simp add: clipToNearest8PxZoom_def f32_of_int_def r f fp_to_int32_def rat_trunc_def int32_min_def int32_max_def fp_sub_def Let_def)
qed

end
