(* ===== verification/Office_Web_Plugin.thy ===== *)
theory Office_Web_Plugin
  imports Office_Client Office_Keys Plugin_Zoom
begin

text \<open>
  office/office_web_plugin.h and office_web_plugin.cc, with office/web_plugin_utils.cc: the
  plugin that shows a document in a page. It owns the tile buffer and the paint manager, listens
  to the document's callbacks, follows scrolling, zooming and resizing, and hands its rendering
  state over to the next plugin of the document. The tile buffer is the one the paint manager
  sees through its client, \<open>pm_tile_buffer\<close>. Blink, \<open>gfx\<close>, Skia and the clock are parameters;
  posted tasks and canvas operations are recorded.
\<close>

section \<open>Parameters\<close>

record ('r, 'f) view_ops =
  vo_gfx :: "('r, 'f) gfx"
  vo_Rect :: "int \<Rightarrow> int \<Rightarrow> int \<Rightarrow> int \<Rightarrow> 'r"
  vo_Rect0 :: 'r
  vo_width :: "'r \<Rightarrow> int"
  vo_height :: "'r \<Rightarrow> int"
  vo_set_width :: "int \<Rightarrow> 'r \<Rightarrow> 'r"
  vo_set_height :: "int \<Rightarrow> 'r \<Rightarrow> 'r"
  vo_IsEmpty :: "'r \<Rightarrow> bool"
  vo_Intersects :: "'r \<Rightarrow> 'r \<Rightarrow> bool"
  vo_Contains :: "'r \<Rightarrow> int \<times> int \<Rightarrow> bool"
  vo_Intersect :: "'r \<Rightarrow> 'r \<Rightarrow> 'r"
  vo_ScaleToEnclosingRect :: "'r \<Rightarrow> fp \<Rightarrow> 'r"
  vo_ScaleToCeiled :: "'r \<Rightarrow> fp \<Rightarrow> 'r"
  vo_RectF_height :: "'f \<Rightarrow> fp"
  vo_ToCeiledPoint :: "fp \<times> fp \<Rightarrow> int \<times> int"
  vo_ScaleToRoundedPoint :: "fp \<times> fp \<Rightarrow> fp \<Rightarrow> int \<times> int"

section \<open>State\<close>

datatype (plugins only: size) CursorType =
    kNull | kNone | kContextMenu | kHelp | kPointer | kProgress | kWait | kCell | kCross | kIBeam | kVerticalText | kAlias
  | kCopy | kMove | kNoDrop | kNotAllowed | kGrab | kGrabbing | kEastResize | kNorthResize | kNorthEastResize
  | kNorthWestResize | kSouthResize | kSouthEastResize | kSouthWestResize | kWestResize | kEastWestResize
  | kNorthSouthResize | kNorthEastSouthWestResize | kNorthWestSouthEastResize | kColumnResize | kRowResize | kZoomIn | kZoomOut

text \<open>The tasks the plugin posts to its own runner.\<close>

datatype 'r plugin_task =
    TaskInvalidateContainer
  | TaskTryResumePaint
  | TaskOnViewportChanged 'r fp
  | TaskOnGeometryChanged fp fp
  | TaskUpdateScroll int

text \<open>
  Times are \<^const>\<open>None\<close> for the null time and a number of milliseconds otherwise. The debounce
  timer holds its interval and whether it is running. \<open>wp_invalidations\<close> counts the calls that
  invalidate the container.
\<close>

record ('r, 'p) OfficeWebPlugin =
  wp_container :: bool
  css_plugin_rect :: 'r
  plugin_rect :: 'r
  available_area :: 'r
  available_area_twips :: 'r
  viewport_zoom :: fp
  device_scale :: fp
  wp_zoom :: fp
  wp_old_zoom :: fp
  first_paint :: bool
  wp_scale_pending :: bool
  in_paint :: bool
  wp_scroll_y :: int
  stop_scrolling :: bool
  cursor_type :: CursorType
  has_focus :: bool
  last_cursor_rect :: string
  last_css_cursor_time :: "int option"
  wp_document :: DocumentHolderWithView
  wp_document_client :: "nat option"
  paint_manager :: "'p PaintManager"
  take_snapshot :: bool
  wp_snapshot :: "'p Snapshot"
  wp_scrolling :: bool
  page_rects_cached :: "'r list"
  first_intersect :: int
  last_intersect :: int
  restore_key :: nat
  wp_visible :: bool
  disable_input :: bool
  doomed :: bool
  registered_observers :: bool
  last_full_invalidation_time :: "int option"
  update_debounce_timer :: "(int \<times> bool) option"
  wp_self :: observer
  wp_tasks :: "'r plugin_task list"
  wp_invalidations :: nat

text \<open>
  The constructor: \<open>tb\<close> is the new tile buffer, \<open>token\<close> the random restore key; the members the
  constructor does not initialise are not read before they are written.
\<close>

definition OfficeWebPlugin_make ::
  "('r, 'f) view_ops \<Rightarrow> 'l observer_list \<Rightarrow> flag_heap \<Rightarrow> 'p TileBuffer \<Rightarrow> nat \<Rightarrow> observer \<Rightarrow> 'l OfficeInstance \<Rightarrow>
   ('r, 'p) OfficeWebPlugin \<times> 'l OfficeInstance" where
  "OfficeWebPlugin_make vo ol h tb token this oi =
     (\<lparr>wp_container = False, css_plugin_rect = vo_Rect0 vo, plugin_rect = vo_Rect0 vo, available_area = vo_Rect0 vo,
       available_area_twips = vo_Rect0 vo, viewport_zoom = Fin 1, device_scale = Fin 1, wp_zoom = Fin 1, wp_old_zoom = Fin 1,
       first_paint = True, wp_scale_pending = False, in_paint = False, wp_scroll_y = 0, stop_scrolling = False, cursor_type = kPointer,
       has_focus = False, last_cursor_rect = [], last_css_cursor_time = None, wp_document = DocumentHolderWithView_default,
       wp_document_client = None, paint_manager = PaintManager_init h (Some tb), take_snapshot = True, wp_snapshot = Snapshot_default,
       wp_scrolling = False, page_rects_cached = [], first_intersect = - 1, last_intersect = - 1, restore_key = token, wp_visible = True,
       disable_input = False, doomed = False, registered_observers = False, last_full_invalidation_time = None,
       update_debounce_timer = None, wp_self = this, wp_tasks = [], wp_invalidations = 0\<rparr>,
      AddDestroyedObserver ol this oi)"

definition plugin_Initialize :: "('r, 'p) OfficeWebPlugin \<Rightarrow> bool \<times> ('r, 'p) OfficeWebPlugin" where
  "plugin_Initialize p = (True, p\<lparr>wp_container := True\<rparr>)"

abbreviation tile_buffer :: "('r, 'p) OfficeWebPlugin \<Rightarrow> 'p TileBuffer option" where
  "tile_buffer p \<equiv> pm_tile_buffer (paint_manager p)"

definition set_tile_buffer :: "'p TileBuffer \<Rightarrow> ('r, 'p) OfficeWebPlugin \<Rightarrow> ('r, 'p) OfficeWebPlugin" where
  "set_tile_buffer tb p = p\<lparr>paint_manager := (paint_manager p)\<lparr>pm_tile_buffer := Some tb\<rparr>\<rparr>"

text \<open>\<open>tile_buffer_->f(...)\<close>\<close>

definition on_tile_buffer :: "('p TileBuffer \<Rightarrow> 'p TileBuffer option) \<Rightarrow> ('r, 'p) OfficeWebPlugin \<Rightarrow> ('r, 'p) OfficeWebPlugin option" where
  "on_tile_buffer f p = do { tb \<leftarrow> tile_buffer p; tb1 \<leftarrow> f tb; Some (set_tile_buffer tb1 p) }"

definition post_plugin_task :: "'r plugin_task \<Rightarrow> ('r, 'p) OfficeWebPlugin \<Rightarrow> ('r, 'p) OfficeWebPlugin" where
  "post_plugin_task t p = p\<lparr>wp_tasks := wp_tasks p @ [t]\<rparr>"

text \<open>The clients by address; a weak pointer is valid while its client exists.\<close>

type_synonym ('s, 'j, 'r, 'p) clients = "nat \<Rightarrow> ('s, 'j, 'r, 'p) DocumentClient option"

definition document_client :: "('s, 'j, 'r, 'p) clients \<Rightarrow> ('r, 'p) OfficeWebPlugin \<Rightarrow> ('s, 'j, 'r, 'p) DocumentClient option" where
  "document_client cs p = Option.bind (wp_document_client p) cs"

section \<open>Scales and sizes\<close>

abbreviation f64_mul :: "fp \<Rightarrow> fp \<Rightarrow> fp" where "f64_mul \<equiv> fp_mul round64"

definition TotalScale :: "('r, 'p) OfficeWebPlugin \<Rightarrow> fp" where
  "TotalScale p = f32_of_f64 (f64_mul (f32_mul (wp_zoom p) (device_scale p)) (viewport_zoom p))"

definition TwipToPx :: "fp \<Rightarrow> ('r, 'p) OfficeWebPlugin \<Rightarrow> fp" where
  "TwipToPx x p = TwipToPixel x (TotalScale p)"

definition TwipToCSSPx :: "fp \<Rightarrow> ('r, 'p) OfficeWebPlugin \<Rightarrow> fp" where
  "TwipToCSSPx x p = fp_ceil (TwipToPixel x (wp_zoom p))"

definition GetZoom :: "('r, 'p) OfficeWebPlugin \<Rightarrow> fp" where
  "GetZoom p = wp_zoom p"

text \<open>A \<open>gfx::Size\<close> made of two \<open>float\<close> values.\<close>

definition size_of :: "fp \<Rightarrow> fp \<Rightarrow> (int \<times> int) option" where
  "size_of w h = do { w \<leftarrow> fp_to_int32 w; h \<leftarrow> fp_to_int32 h; Some (max 0 w, max 0 h) }"

definition GetDocumentPixelSize :: "('s, 'j, 'r, 'p) clients \<Rightarrow> ('r, 'p) OfficeWebPlugin \<Rightarrow> (int \<times> int) option" where
  "GetDocumentPixelSize cs p =
     (case document_client cs p of
        None \<Rightarrow> Some (0, 0)
      | Some c \<Rightarrow> let (w, h) = DocumentSizeTwips c
                  in size_of (fp_ceil (TwipToPx (f32_of_int w) p)) (fp_ceil (TwipToPx (f32_of_int h) p)))"

definition GetDocumentCSSPixelSize :: "('s, 'j, 'r, 'p) clients \<Rightarrow> ('r, 'p) OfficeWebPlugin \<Rightarrow> (int \<times> int) option" where
  "GetDocumentCSSPixelSize cs p =
     (case document_client cs p of
        None \<Rightarrow> Some (0, 0)
      | Some c \<Rightarrow> let (w, h) = DocumentSizeTwips c
                  in size_of (TwipToCSSPx (f32_of_int w) p) (TwipToCSSPx (f32_of_int h) p))"

section \<open>Pages in view\<close>

text \<open>The height of the view, \<open>plugin_rect_.height() / device_scale_ / (float)viewport_zoom_\<close>.\<close>

definition view_height :: "('r, 'f) view_ops \<Rightarrow> ('r, 'p) OfficeWebPlugin \<Rightarrow> fp" where
  "view_height vo p = f32_div (f32_div (f32_of_int (vo_height vo (plugin_rect p))) (device_scale p)) (f32_of_f64 (viewport_zoom p))"

fun intersect_loop :: "('r \<Rightarrow> bool) \<Rightarrow> 'r list \<Rightarrow> int \<Rightarrow> int \<Rightarrow> int \<Rightarrow> int \<times> int" where
  "intersect_loop hit [] i fst_i lst_i = (fst_i, lst_i)"
| "intersect_loop hit (r # rs) i fst_i lst_i =
     (let f = (if fst_i = - 1 \<and> hit r then i else fst_i)
      in if f \<noteq> - 1
         then if \<not> hit r then (f, lst_i) else intersect_loop hit rs (i + 1) f i
         else intersect_loop hit rs (i + 1) f lst_i)"

definition UpdateIntersectingPages :: "('r, 'f) view_ops \<Rightarrow> ('r, 'p) OfficeWebPlugin \<Rightarrow> ('r, 'p) OfficeWebPlugin option" where
  "UpdateIntersectingPages vo p = do {
     y \<leftarrow> fp_to_int32 (f32_div (f32_of_int (wp_scroll_y p)) (device_scale p));
     h \<leftarrow> fp_to_int32 (view_height vo p);
     let scroll_rect = vo_Rect vo 0 y 800 h;
     let (fst_i, lst_i) = intersect_loop (\<lambda>r. vo_Intersects vo r scroll_rect) (page_rects_cached p) 0 (- 1) (- 1);
     Some (p\<lparr>first_intersect := fst_i, last_intersect := lst_i\<rparr>) }"

definition plugin_PageRects ::
  "('r, 'f) view_ops \<Rightarrow> ('s, 'j, 'r, 'p) clients \<Rightarrow> ('w, 'c) DocWorld \<Rightarrow> ('r, 'p) OfficeWebPlugin \<Rightarrow> ('r list \<times> ('r, 'p) OfficeWebPlugin) option" where
  "plugin_PageRects vo cs st p =
     (case document_client cs p of
        None \<Rightarrow> Some ([], p)
      | Some c \<Rightarrow>
          if \<not> to_bool st (wp_document p) then Some ([], p)
          else let scale = f32_div (wp_zoom p) kTwipPerPx;
                   result = map (\<lambda>r. vo_ScaleToCeiled vo r scale) (client_PageRects c)
               in map_option (Pair result) (UpdateIntersectingPages vo (p\<lparr>page_rects_cached := result\<rparr>)))"

section \<open>Scheduling paints\<close>

text \<open>The area in view, offset by the scroll position.\<close>

definition offset_area :: "('r, 'f) view_ops \<Rightarrow> ('r, 'p) OfficeWebPlugin \<Rightarrow> 'f" where
  "offset_area vo p =
     RectF_Offset (vo_gfx vo) (Fin 0) (f32_of_int (wp_scroll_y p)) (RectF_of (vo_gfx vo) (available_area p))"

text \<open>A range is limited to the tiles in view; \<^const>\<open>None\<close> when it is out of view.\<close>

definition limit_range :: "TileRange \<Rightarrow> TileRange \<Rightarrow> TileRange option" where
  "limit_range rng limit =
     (if index_end limit < index_start rng \<or> index_end rng < index_start limit then None
      else Some (tile_range (max (index_start rng) (index_start limit)) (min (index_end rng) (index_end limit))))"

definition schedule ::
  "hashes \<Rightarrow> fp \<Rightarrow> bool \<Rightarrow> TileRange \<Rightarrow> ('r, 'p) OfficeWebPlugin \<Rightarrow> ('r, 'p) OfficeWebPlugin option" where
  "schedule hs height full_paint rng p = do {
     vh \<leftarrow> fp_to_int32 height;
     pm \<leftarrow> SchedulePaint hs (wp_document p) (wp_scroll_y p) vh (TotalScale p) full_paint [rng] (paint_manager p);
     Some (p\<lparr>paint_manager := pm\<rparr>) }"

definition ScheduleAvailableAreaPaint ::
  "hashes \<Rightarrow> ('r, 'f) view_ops \<Rightarrow> bool \<Rightarrow> ('r, 'p) OfficeWebPlugin \<Rightarrow> ('r, 'p) OfficeWebPlugin option" where
  "ScheduleAvailableAreaPaint hs vo invalidate p = do {
     let area = offset_area vo p;
     let height = vo_RectF_height vo area;
     tb \<leftarrow> tile_buffer p;
     if TileBuffer_IsEmpty tb then Some p
     else do {
       (rng, tb1) \<leftarrow> InvalidateTilesInRect (vo_gfx vo) area (\<not> invalidate) tb;
       let p1 = set_tile_buffer tb1 p;
       vh \<leftarrow> fp_to_u32 height;
       (case limit_range rng (LimitIndex tb1 (wp_scroll_y p) vh) of
          None \<Rightarrow> Some p1
        | Some r \<Rightarrow> schedule hs height True r (p1\<lparr>take_snapshot := True\<rparr>)) } }"

definition TryResumePaint :: "('r, 'p) OfficeWebPlugin \<Rightarrow> ('r, 'p) OfficeWebPlugin" where
  "TryResumePaint p =
     (case update_debounce_timer p of None \<Rightarrow> p | Some (interval, _) \<Rightarrow> p\<lparr>update_debounce_timer := Some (interval, True)\<rparr>)"

definition DebouncedResumePaint :: "hashes \<Rightarrow> ('r, 'p) OfficeWebPlugin \<Rightarrow> ('r, 'p) OfficeWebPlugin" where
  "DebouncedResumePaint hs p = p\<lparr>paint_manager := ResumePaint hs True (paint_manager p)\<rparr>"

definition DebounceUpdates :: "int \<Rightarrow> ('r, 'p) OfficeWebPlugin \<Rightarrow> ('r, 'p) OfficeWebPlugin" where
  "DebounceUpdates interval p =
     (if interval \<le> 0 \<and> update_debounce_timer p \<noteq> None then p\<lparr>update_debounce_timer := None\<rparr>
      else p\<lparr>update_debounce_timer := Some (interval, True), paint_manager := PausePaint (paint_manager p)\<rparr>)"

definition plugin_InvalidateAllTiles :: "('w, 'c) DocWorld \<Rightarrow> ('r, 'p) OfficeWebPlugin \<Rightarrow> ('r, 'p) OfficeWebPlugin option" where
  "plugin_InvalidateAllTiles st p =
     (if \<not> to_bool st (wp_document p) \<or> tile_buffer p = None then Some p else on_tile_buffer InvalidateAllTiles p)"

definition TriggerFullRerender ::
  "hashes \<Rightarrow> ('r, 'f) view_ops \<Rightarrow> ('s, 'j, 'r, 'p) clients \<Rightarrow> ('r, 'p) OfficeWebPlugin \<Rightarrow> ('r, 'p) OfficeWebPlugin option" where
  "TriggerFullRerender hs vo cs p =
     (let p1 = p\<lparr>first_paint := True\<rparr>
      in case document_client cs p1 of
           None \<Rightarrow> Some p1
         | Some c \<Rightarrow>
             if fst (DocumentSizeTwips c) = 0 \<or> snd (DocumentSizeTwips c) = 0 then Some p1
             else Option.bind (on_tile_buffer InvalidateAllTiles p1) (ScheduleAvailableAreaPaint hs vo True))"

section \<open>The container\<close>

definition InvalidateWeakContainer :: "('r, 'p) OfficeWebPlugin \<Rightarrow> ('r, 'p) OfficeWebPlugin" where
  "InvalidateWeakContainer p = (if \<not> in_paint p then p\<lparr>wp_invalidations := Suc (wp_invalidations p)\<rparr> else p)"

definition InvalidatePluginContainer :: "('r, 'p) OfficeWebPlugin \<Rightarrow> ('r, 'p) OfficeWebPlugin" where
  "InvalidatePluginContainer p = (if wp_container p then post_plugin_task TaskInvalidateContainer p else p)"

definition OnGeometryChanged ::
  "('r, 'f) view_ops \<Rightarrow> ('s, 'j, 'r, 'p) clients \<Rightarrow> ('w, 'c) DocWorld \<Rightarrow> fp \<Rightarrow> fp \<Rightarrow> ('r, 'p) OfficeWebPlugin \<Rightarrow> ('r, 'p) OfficeWebPlugin option" where
  "OnGeometryChanged vo cs st old_zoom old_device_scale p =
     (if \<not> to_bool st (wp_document p) then Some p
      else do {
        p1 \<leftarrow> (if \<not> fp_eq (viewport_zoom p) old_zoom \<or> \<not> fp_eq (device_scale p) old_device_scale
               then on_tile_buffer (ResetScale (TotalScale p)) p else Some p);
        (dw, dh) \<leftarrow> GetDocumentPixelSize cs p1;
        let area = vo_Rect vo 0 0 (vo_width vo (plugin_rect p1)) (vo_height vo (plugin_rect p1));
        let area1 = (if dw < vo_width vo area then vo_set_width vo dw area else area);
        let area2 = (if dh < vo_height vo (plugin_rect p1) then vo_set_height vo dh area1 else area1);
        Some (p1\<lparr>available_area := area2, available_area_twips := vo_ScaleToEnclosingRect vo area2 kTwipPerPx\<rparr>) })"

definition OnViewportChanged ::
  "hashes \<Rightarrow> ('r, 'f) view_ops \<Rightarrow> ('s, 'j, 'r, 'p) clients \<Rightarrow> ('w, 'c) DocWorld \<Rightarrow> 'r \<Rightarrow> fp \<Rightarrow> ('r, 'p) OfficeWebPlugin \<Rightarrow> ('r, 'p) OfficeWebPlugin option" where
  "OnViewportChanged hs vo cs st rect new_device_scale p =
     (let p1 = p\<lparr>css_plugin_rect := rect\<rparr>
      in if fp_eq new_device_scale (device_scale p1) \<and> rect = plugin_rect p1 then Some p1
         else do {
           let need_fresh_paint = vo_height vo rect \<noteq> vo_height vo (plugin_rect p1);
           let old_device_scale = device_scale p1;
           p2 \<leftarrow> OnGeometryChanged vo cs st (viewport_zoom p1) old_device_scale (p1\<lparr>device_scale := new_device_scale, plugin_rect := rect\<rparr>);
           if to_bool st (wp_document p2) \<and> need_fresh_paint then ScheduleAvailableAreaPaint hs vo False p2 else Some p2 })"

text \<open>\<open>container_scale\<close> is what \<open>container::DeviceScale\<close> reads from the page.\<close>

definition UpdateGeometry ::
  "hashes \<Rightarrow> ('r, 'f) view_ops \<Rightarrow> ('s, 'j, 'r, 'p) clients \<Rightarrow> ('w, 'c) DocWorld \<Rightarrow> fp \<Rightarrow> 'r \<Rightarrow> ('r, 'p) OfficeWebPlugin \<Rightarrow> ('r, 'p) OfficeWebPlugin option" where
  "UpdateGeometry hs vo cs st container_scale window_rect p =
     (if vo_IsEmpty vo window_rect then Some p else OnViewportChanged hs vo cs st window_rect container_scale p)"

definition UpdateVisibility :: "bool \<Rightarrow> ('r, 'p) OfficeWebPlugin \<Rightarrow> ('r, 'p) OfficeWebPlugin" where
  "UpdateVisibility visibility p = p\<lparr>wp_visible := visibility\<rparr>"

section \<open>Painting\<close>

datatype ('r, 'p) view_op = ClearCanvas | ClipTo 'r | TranslateTo int int | Tiles "'p canvas_op list"

definition UpdateSnapshot :: "'p Snapshot \<Rightarrow> ('r, 'p) OfficeWebPlugin \<Rightarrow> ('r, 'p) OfficeWebPlugin" where
  "UpdateSnapshot snapshot p = (if snap_tiles snapshot = [] then p else p\<lparr>wp_snapshot := snapshot\<rparr>)"

text \<open>The width of a Skia rectangle made from an origin and a width: \<open>(x + w) - x\<close> in \<open>float\<close>.\<close>

definition sk_extent :: "int \<Rightarrow> int \<Rightarrow> int option" where
  "sk_extent x w = fp_to_int32 (f32_sub (f32_add (f32_of_int x) (f32_of_int w)) (f32_of_int x))"

text \<open>
  \<open>in_paint_\<close> is set only while \<open>Paint\<close> runs, and nothing that runs then reads it.
  \<open>paint_cancel_flag_\<close> is never set, so nothing is cancelled; \<open>view\<close> is what each drawn tile sees of
  the buffer while other threads paint.
\<close>

definition Paint ::
  "hashes \<Rightarrow> ('r, 'f) view_ops \<Rightarrow> (nat \<Rightarrow> 'p TileBuffer) \<Rightarrow> ('w, 'c) DocWorld \<Rightarrow> 'r \<Rightarrow> ('r, 'p) OfficeWebPlugin \<Rightarrow>
   (('r, 'p) view_op list \<times> ('r, 'p) OfficeWebPlugin) option" where
  "Paint hs vo view st rect p =
     (if \<not> wp_visible p then Some ([], p)
      else let invalidate_rect = vo_Intersect vo (css_plugin_rect p) rect;
               ops = (if wp_scale_pending p \<or> first_paint p then [ClearCanvas] else []) @ [ClipTo invalidate_rect]
           in if \<not> to_bool st (wp_document p) then Some (ops, p)
              else do {
                let x = rect_x (vo_gfx vo) (plugin_rect p); let y = rect_y (vo_gfx vo) (plugin_rect p);
                let ops1 = ops @ (if x \<noteq> 0 \<or> y \<noteq> 0 then [TranslateTo x y] else []);
                w \<leftarrow> sk_extent (rect_x (vo_gfx vo) invalidate_rect) (vo_width vo invalidate_rect);
                h \<leftarrow> sk_extent (rect_y (vo_gfx vo) invalidate_rect) (vo_height vo invalidate_rect);
                let size = vo_Rect vo 0 0 w h;
                tb \<leftarrow> tile_buffer p;
                (missing, drawn) \<leftarrow> PaintToCanvas (vo_gfx vo) (\<lambda>_. False) view (wp_snapshot p) size (TotalScale p) (wp_scale_pending p) (wp_scrolling p) tb;
                let p1 = (if missing = [] \<and> take_snapshot p \<and> \<not> wp_scrolling p
                          then (UpdateSnapshot (MakeSnapshot (vo_gfx vo) size tb) p)\<lparr>take_snapshot := False\<rparr> else p);
                let p2 = (if update_debounce_timer p1 \<noteq> None \<and> \<not> wp_scrolling p1
                          then p1\<lparr>paint_manager := PausePaint (paint_manager p1)\<rparr> else p1);
                p3 \<leftarrow>
                  (if wp_scale_pending p2
                   then Option.bind (on_tile_buffer (ResetScale (TotalScale p2)) (p2\<lparr>wp_scale_pending := False\<rparr>))
                          (ScheduleAvailableAreaPaint hs vo True)
                   else do {
                     (scheduled, pm) \<leftarrow> ScheduleNextPaint hs missing (paint_manager p2);
                     let p4 = p2\<lparr>paint_manager := pm\<rparr>;
                     if \<not> scheduled \<and> missing \<noteq> [] then ScheduleAvailableAreaPaint hs vo True p4 else Some p4 });
                Some (ops1 @ [Tiles drawn], p3\<lparr>first_paint := False, wp_scrolling := False\<rparr>) })"

end
