(* ===== verification/Plugin_Events.thy ===== *)
theory Plugin_Events
  imports Office_Web_Plugin
begin

text \<open>
  office/office_web_plugin.cc: what the plugin does when the document, the page or a script asks
  for something: invalidation callbacks, zooming, scrolling, rendering a document with the
  transfer of a former plugin's state, its end, and the input events.
\<close>

section \<open>Callbacks of the document\<close>

text \<open>More than 10 milliseconds since the last time, or no last time.\<close>

definition debounce_over :: "int \<Rightarrow> int option \<Rightarrow> bool" where
  "debounce_over now last_time \<longleftrightarrow> (case last_time of None \<Rightarrow> True | Some t \<Rightarrow> 10 < now - t)"

text \<open>The part for a payload that starts with \<open>EMPTY\<close>; \<open>rest\<close> is what follows.\<close>

definition invalidate_all ::
  "hashes \<Rightarrow> ('r, 'f) view_ops \<Rightarrow> int \<Rightarrow> string \<Rightarrow> ('r, 'p) OfficeWebPlugin \<Rightarrow> ('r, 'p) OfficeWebPlugin option" where
  "invalidate_all hs vo now rest p =
     (let num = fst (ParseCSV (map of_char rest) [])
      in if rest \<noteq> [] \<and> (num = [] \<or> int32 (uint (hd num)) \<noteq> last_intersect p) then Some p
         else if debounce_over now (last_full_invalidation_time p)
         then map_option (\<lambda>p1. p1\<lparr>last_full_invalidation_time := Some now\<rparr>)
                (ScheduleAvailableAreaPaint hs vo True (post_plugin_task TaskTryResumePaint p))
         else Some p)"

definition invalidate_rect ::
  "hashes \<Rightarrow> ('r, 'f) view_ops \<Rightarrow> string \<Rightarrow> ('r, 'p) OfficeWebPlugin \<Rightarrow> ('r, 'p) OfficeWebPlugin option" where
  "invalidate_rect hs vo payload p = do {
     (dirty_rect, _) \<leftarrow> ParseRect (vo_Rect vo) (vo_Rect0 vo) (map of_char payload);
     if vo_IsEmpty vo dirty_rect then Some p
     else do {
       let height = vo_RectF_height vo (offset_area vo p);
       tb \<leftarrow> tile_buffer p;
       (rng, tb1) \<leftarrow> InvalidateTilesInTwipRect (vo_gfx vo) dirty_rect tb;
       let p1 = set_tile_buffer tb1 p;
       vh \<leftarrow> fp_to_u32 height;
       (case limit_range rng (LimitIndex tb1 (wp_scroll_y p) vh) of
          None \<Rightarrow> Some p1
        | Some r \<Rightarrow> schedule hs height False r ((post_plugin_task TaskTryResumePaint p1)\<lparr>take_snapshot := True\<rparr>)) } }"

definition HandleInvalidateTiles ::
  "hashes \<Rightarrow> ('r, 'f) view_ops \<Rightarrow> ('w, 'c) DocWorld \<Rightarrow> int \<Rightarrow> string \<Rightarrow> ('r, 'p) OfficeWebPlugin \<Rightarrow> ('r, 'p) OfficeWebPlugin option" where
  "HandleInvalidateTiles hs vo st now payload p =
     (if \<not> to_bool st (wp_document p) then Some p
      else if take 5 payload = ''EMPTY'' then invalidate_all hs vo now (drop 5 payload) p
      else invalidate_rect hs vo payload p)"

definition plugin_DocumentCallback ::
  "(lok_callback_type \<Rightarrow> int) \<Rightarrow> hashes \<Rightarrow> ('r, 'f) view_ops \<Rightarrow> 'w lok_document \<Rightarrow> 'w lok_size \<Rightarrow> int \<Rightarrow> int \<Rightarrow> string \<Rightarrow>
   ('w, 'c) DocWorld \<Rightarrow> ('r, 'p) OfficeWebPlugin \<Rightarrow> (('w, 'c) DocWorld \<times> ('r, 'p) OfficeWebPlugin) option" where
  "plugin_DocumentCallback code hs vo lok sz now type payload st p =
     (if type = code LOK_CALLBACK_DOCUMENT_SIZE_CHANGED
      then if \<not> to_bool st (wp_document p) then Some (st, p)
           else do {
             ((width, height), st1) \<leftarrow> lok_call lok (wp_document p) (getDocumentSize sz) st;
             p1 \<leftarrow> on_tile_buffer (TileBuffer_Resize2 width height) p;
             Some (st1, p1) }
      else if type = code LOK_CALLBACK_INVALIDATE_TILES then map_option (Pair st) (HandleInvalidateTiles hs vo st now payload p)
      else if type = code LOK_CALLBACK_INVALIDATE_VISIBLE_CURSOR
      then Some (st, if payload \<noteq> [] then p\<lparr>last_cursor_rect := payload\<rparr> else p)
      else Some (st, p))"

section \<open>Zooming and scrolling\<close>

text \<open>The literal \<open>0.0001f\<close>.\<close>

definition zoom_epsilon :: fp where "zoom_epsilon = Fin (13743895 / 2 ^ 37)"

definition SetZoom :: "('w, 'c) DocWorld \<Rightarrow> fp \<Rightarrow> ('r, 'p) OfficeWebPlugin \<Rightarrow> ('r, 'p) OfficeWebPlugin option" where
  "SetZoom st requested p = do {
     zoom \<leftarrow> clipToNearest8PxZoom 256 requested;
     if fp_less (fp_abs (f32_sub (wp_zoom p) zoom)) zoom_epsilon then Some p
     else do {
       y \<leftarrow> fp_to_int32 (f32_mul (f32_div zoom (wp_zoom p)) (f32_of_int (wp_scroll_y p)));
       let p1 = p\<lparr>wp_old_zoom := wp_zoom p, wp_scroll_y := y, wp_zoom := zoom\<rparr>;
       if \<not> to_bool st (wp_document p1) then Some p1
       else let p2 = p1\<lparr>wp_scale_pending := True\<rparr>
            in if in_paint p2 then Some p2
               else map_option InvalidatePluginContainer (on_tile_buffer (\<lambda>tb. Some (SetActiveContext 0 tb)) p2) } }"

text \<open>Where a request to scroll to \<open>y_position\<close> goes, in device pixels.\<close>

definition scroll_target :: "('r, 'f) view_ops \<Rightarrow> ('s, 'j, 'r, 'p) DocumentClient \<Rightarrow> ('r, 'p) OfficeWebPlugin \<Rightarrow> int \<Rightarrow> fp" where
  "scroll_target vo c p y_position =
     (let max_y = fp_max (f32_sub (TwipToPx (f32_of_int (snd (DocumentSizeTwips c))) p) (view_height vo p)) (Fin 0)
      in f32_mul (fp_clamp (f32_of_int y_position) (Fin 0) max_y) (device_scale p))"

definition UpdateScroll ::
  "hashes \<Rightarrow> ('r, 'f) view_ops \<Rightarrow> ('s, 'j, 'r, 'p) clients \<Rightarrow> ('w, 'c) DocWorld \<Rightarrow> int \<Rightarrow> ('r, 'p) OfficeWebPlugin \<Rightarrow> ('r, 'p) OfficeWebPlugin option" where
  "UpdateScroll hs vo cs st y_position p =
     (case (document_client cs p, tile_buffer p) of
        (Some c, Some tb) \<Rightarrow>
          if \<not> to_bool st (wp_document p) \<or> stop_scrolling p \<or> TileBuffer_IsEmpty tb then Some p
          else do {
            let height = view_height vo p;
            let scaled_y = scroll_target vo c p y_position;
            y \<leftarrow> fp_to_int32 scaled_y;
            let p1 = p\<lparr>wp_scroll_y := y\<rparr>;
            vh \<leftarrow> fp_to_u32 height;
            rng \<leftarrow> NextScrollTileRange tb y vh;
            p2 \<leftarrow> on_tile_buffer (SetYPosition scaled_y) p1;
            let p3 = p2\<lparr>paint_manager := ResumePaint hs False (paint_manager p2)\<rparr>;
            p4 \<leftarrow> schedule hs (f32_mul height (device_scale p3)) False rng p3;
            p5 \<leftarrow> UpdateIntersectingPages vo p4;
            Some (p5\<lparr>wp_scrolling := True, take_snapshot := True\<rparr>) }
      | _ \<Rightarrow> Some p)"

section \<open>Rendering a document\<close>

text \<open>The options a script passes; a restore key that is no token is as good as none.\<close>

record render_options =
  ro_zoom :: "fp option"
  ro_disable_input :: "bool option"
  ro_restore_key :: "nat option"

definition apply_options :: "render_options option \<Rightarrow> ('r, 'p) OfficeWebPlugin \<Rightarrow> ('r, 'p) OfficeWebPlugin option" where
  "apply_options opts p =
     (case opts of
        None \<Rightarrow> Some p
      | Some ro \<Rightarrow> do {
          p1 \<leftarrow> (case ro_zoom ro of None \<Rightarrow> Some p | Some z \<Rightarrow> map_option (\<lambda>z'. p\<lparr>wp_zoom := z'\<rparr>) (clipToNearest8PxZoom 256 z));
          Some (case ro_disable_input ro of None \<Rightarrow> p1 | Some b \<Rightarrow> p1\<lparr>disable_input := b\<rparr>) })"

text \<open>Taking over the state of a former plugin.\<close>

definition take_over :: "('r, 'p) RendererTransferable \<Rightarrow> ('r, 'p) OfficeWebPlugin \<Rightarrow> ('r, 'p) OfficeWebPlugin" where
  "take_over t p =
     (let tb = (case rt_tile_buffer t of Some tb \<Rightarrow> if TileBuffer_IsEmpty tb then tile_buffer p else Some tb | None \<Rightarrow> tile_buffer p);
          pm = (case rt_paint_manager t of None \<Rightarrow> paint_manager p | Some other \<Rightarrow> PaintManager_transfer other)
      in p\<lparr>paint_manager := pm\<lparr>pm_tile_buffer := tb\<rparr>, wp_snapshot := rt_snapshot t, first_paint := False,
           page_rects_cached := rt_page_rects t, first_intersect := rt_first_intersect t, last_intersect := rt_last_intersect t,
           last_cursor_rect := rt_last_cursor_rect t, wp_zoom := (if fp_less (Fin 0) (rt_zoom t) then rt_zoom t else wp_zoom p)\<rparr>)"

definition plugin_monitors :: "lok_callback_type list" where
  "plugin_monitors = [LOK_CALLBACK_DOCUMENT_SIZE_CHANGED, LOK_CALLBACK_INVALIDATE_TILES, LOK_CALLBACK_INVALIDATE_VISIBLE_CURSOR]"

text \<open>What a call needs from outside: LibreOfficeKit, V8's wrapper and context, and uninitialised memory.\<close>

record ('r, 'w) render_env =
  re_code :: "lok_callback_type \<Rightarrow> int"
  re_lok :: "'w lok_document"
  re_size :: "'w lok_size"
  re_commands :: "'w lok_commands"
  re_wrapper :: "nat option"
  re_isolate :: nat
  re_context :: nat
  re_mem :: fp

text \<open>The scroll position and the tile buffer after mounting.\<close>

definition set_view :: "bool \<Rightarrow> ('s, 'j, 'r, 'p) DocumentClient \<Rightarrow> ('r, 'p) OfficeWebPlugin \<Rightarrow> ('r, 'p) OfficeWebPlugin option" where
  "set_view needs_restore c p =
     (if needs_restore then Some (p\<lparr>wp_scroll_y := int32 (uint (scroll_y_position (wp_snapshot p)))\<rparr>)
      else do {
        let (w, h) = DocumentSizeTwips c;
        let p1 = p\<lparr>wp_scroll_y := 0, wp_zoom := (if \<not> fp_eq (wp_zoom p) (wp_zoom p) \<or> fp_less (wp_zoom p) (Fin 0) then Fin 1 else wp_zoom p)\<rparr>;
        p2 \<leftarrow> on_tile_buffer (SetYPosition (Fin 0)) p1;
        on_tile_buffer (TileBuffer_Resize w h (TotalScale p2)) p2 })"

text \<open>The state the client keeps under the key, if rendering restores one.\<close>

definition restore_from ::
  "fp \<Rightarrow> nat option \<Rightarrow> ('s, 'j, 'r, 'p) DocumentClient \<Rightarrow> ('r, 'p) OfficeWebPlugin \<Rightarrow> ('r, 'p) OfficeWebPlugin \<times> ('s, 'j, 'r, 'p) DocumentClient" where
  "restore_from mem restored c p =
     (case restored of
        None \<Rightarrow> (p, c)
      | Some key \<Rightarrow> let (t, c1) = GetRestoredRenderer mem key c in (take_over t p, c1))"

text \<open>The tasks posted at the end of rendering.\<close>

definition after_render :: "hashes \<Rightarrow> bool \<Rightarrow> bool \<Rightarrow> ('r, 'p) OfficeWebPlugin \<Rightarrow> ('r, 'p) OfficeWebPlugin" where
  "after_render hs needs_reset needs_restore p =
     (let p1 = (if needs_reset
                then post_plugin_task (TaskUpdateScroll 0) (post_plugin_task (TaskOnGeometryChanged (viewport_zoom p) (device_scale p)) p) else p)
      in if needs_restore
         then let q = post_plugin_task (TaskOnGeometryChanged (viewport_zoom p1) (device_scale p1)) p1;
                  q1 = q\<lparr>paint_manager := ResumePaint hs True (paint_manager q)\<rparr>
              in post_plugin_task (TaskUpdateScroll (wp_scroll_y q1)) q1
         else p1)"

text \<open>
  The part of \<open>RenderDocument\<close> after the plugin holds the document; \<open>restored\<close> is the restore key
  when there is a state to restore.
\<close>

definition render_held ::
  "('r, 'w) render_env \<Rightarrow> hashes \<Rightarrow> ('r, 'f) view_ops \<Rightarrow> 'l observer_list \<Rightarrow> nat \<Rightarrow> bool \<Rightarrow> nat option \<Rightarrow>
   ('s, 'j, 'r, 'p) clients \<Rightarrow> ('w, 'c) DocWorld \<Rightarrow> 'l OfficeInstance \<Rightarrow> ('r, 'p) OfficeWebPlugin \<Rightarrow>
   (nat option \<times> ('s, 'j, 'r, 'p) clients \<times> ('w, 'c) DocWorld \<times> 'l OfficeInstance \<times> ('r, 'p) OfficeWebPlugin) option" where
  "render_held env hs vo ol a needs_reset restored cs st oi p = do {
     p1 \<leftarrow> (if needs_reset then on_tile_buffer InvalidateAllTiles (p\<lparr>first_paint := True\<rparr>) else Some p);
     c \<leftarrow> cs a;
     let (p2, c1) = restore_from (re_mem env) restored c p1;
     (_, c2, st1) \<leftarrow> Mount (re_lok env) (re_size env) (vo_Rect vo) (vo_Rect0 vo) (re_wrapper env) (re_isolate env) (re_context env) c1 st;
     p3 \<leftarrow> set_view (restored \<noteq> None) c2 p2;
     let p4 = (if needs_reset
               then post_plugin_task (TaskOnViewportChanged (css_plugin_rect p3) (device_scale p3)) (p3\<lparr>device_scale := Fin 0\<rparr>) else p3);
     st2 \<leftarrow> (if restored = None
             then map_option snd (lok_call (re_lok env) (wp_document p4) (lok_resetSelection (re_commands env)) st1) else Some st1);
     let oi1 = fold (\<lambda>t. holder_AddDocumentObserver ol st2 (wp_document p4) (re_code env t) (wp_self p4)) plugin_monitors oi;
     let p5 = after_render hs needs_reset (restored \<noteq> None) (p4\<lparr>registered_observers := True\<rparr>);
     Some (Some (restore_key p5), cs(a \<mapsto> c2), st2, oi1, p5) }"

text \<open>
  \<open>RenderDocument\<close> with the client at the address \<open>a\<close> (an empty handle is \<^const>\<open>None\<close>). The result is
  the restore key, or none when nothing is rendered.
\<close>

definition RenderDocument ::
  "('r, 'w) render_env \<Rightarrow> hashes \<Rightarrow> ('r, 'f) view_ops \<Rightarrow> 'l observer_list \<Rightarrow> nat option \<Rightarrow> render_options option \<Rightarrow>
   ('s, 'j, 'r, 'p) clients \<Rightarrow> ('w, 'c) DocWorld \<Rightarrow> 'l OfficeInstance \<Rightarrow> ('r, 'p) OfficeWebPlugin \<Rightarrow>
   (nat option \<times> ('s, 'j, 'r, 'p) clients \<times> ('w, 'c) DocWorld \<times> 'l OfficeInstance \<times> ('r, 'p) OfficeWebPlugin) option" where
  "RenderDocument env hs vo ol client opts cs st oi p =
     (case client of
        None \<Rightarrow> Some (None, cs, st, oi, p)
      | Some a \<Rightarrow> do {
          c \<leftarrow> cs a;
          p1 \<leftarrow> apply_options opts p;
          let maybe_restore_key = Option.bind opts ro_restore_key;
          let had_document = to_bool st (wp_document p1);
          let needs_reset = (had_document \<and> \<not> dh_eq (wp_document p1) (document_holder c));
          let oi1 = (if registered_observers p1 \<and> had_document
                     then holder_RemoveDocumentObservers_of ol st (wp_document p1) (wp_self p1) oi else oi);
          let cs1 = (case (needs_reset, wp_document_client p1) of
                       (True, Some b) \<Rightarrow> (case cs b of None \<Rightarrow> cs | Some d \<Rightarrow> cs(b \<mapsto> snd (Unmount d)))
                     | _ \<Rightarrow> cs);
          let restored = (if had_document then None else maybe_restore_key);
          let (tmp, st1) = GetDocument c st;
          let (d1, _, st2) = move_assign (wp_document p1) tmp st1;
          let p2 = p1\<lparr>wp_document := d1, wp_document_client := Some a\<rparr>;
          if \<not> to_bool st2 (wp_document p2) then Some (None, cs1, st2, oi1, p2)
          else render_held env hs vo ol a needs_reset restored cs1 st2 oi1 p2 })"

text \<open>Running one of the posted tasks.\<close>

fun run_plugin_task ::
  "hashes \<Rightarrow> ('r, 'f) view_ops \<Rightarrow> ('s, 'j, 'r, 'p) clients \<Rightarrow> ('w, 'c) DocWorld \<Rightarrow> 'r plugin_task \<Rightarrow> ('r, 'p) OfficeWebPlugin \<Rightarrow>
   ('r, 'p) OfficeWebPlugin option" where
  "run_plugin_task hs vo cs st TaskInvalidateContainer p = Some (InvalidateWeakContainer p)"
| "run_plugin_task hs vo cs st TaskTryResumePaint p = Some (TryResumePaint p)"
| "run_plugin_task hs vo cs st (TaskOnViewportChanged r s) p = OnViewportChanged hs vo cs st r s p"
| "run_plugin_task hs vo cs st (TaskOnGeometryChanged z s) p = OnGeometryChanged vo cs st z s p"
| "run_plugin_task hs vo cs st (TaskUpdateScroll y) p = UpdateScroll hs vo cs st y p"

section \<open>The end of the plugin\<close>

definition transferable :: "('r, 'p) OfficeWebPlugin \<Rightarrow> ('r, 'p) RendererTransferable" where
  "transferable p = \<lparr>rt_tile_buffer = tile_buffer p, rt_paint_manager = Some (paint_manager p), rt_snapshot = wp_snapshot p,
     rt_page_rects = page_rects_cached p, rt_first_intersect = first_intersect p, rt_last_intersect = last_intersect p,
     rt_last_cursor_rect = last_cursor_rect p, rt_zoom = wp_zoom p\<rparr>"

text \<open>The plugin is deleted at the end, and with it its hold on the document.\<close>

definition Destroy ::
  "'w lok_document \<Rightarrow> 'l observer_list \<Rightarrow> ('s, 'j, 'r, 'p) clients \<Rightarrow> ('w, 'c) DocWorld \<Rightarrow> 'l OfficeInstance \<Rightarrow> ('r, 'p) OfficeWebPlugin \<Rightarrow>
   (('s, 'j, 'r, 'p) clients \<times> ('w, 'c) DocWorld \<times> 'l OfficeInstance) option" where
  "Destroy lok ol cs st oi p0 =
     (let p = p0\<lparr>paint_manager := OnDestroy (paint_manager p0)\<rparr>;
          cs1 = (case wp_document_client p of
                   None \<Rightarrow> cs
                 | Some a \<Rightarrow> (case cs a of None \<Rightarrow> cs
                              | Some c \<Rightarrow> cs(a \<mapsto> MarkRendererWillRemount (restore_key p) (transferable p) (snd (Unmount c)))));
          oi1 = (if \<not> doomed p then RemoveDestroyedObserver ol (wp_self p) oi else oi);
          oi2 = (if to_bool st (wp_document p) then holder_RemoveDocumentObservers_of ol st (wp_document p) (wp_self p) oi1 else oi1)
      in map_option (\<lambda>st1. (cs1, st1, oi2)) (destroy lok (wp_document p) st))"

text \<open>The office is being destroyed: the plugin lets go of its document.\<close>

definition plugin_OnDestroyed ::
  "'l observer_list \<Rightarrow> ('w, 'c) DocWorld \<Rightarrow> 'l OfficeInstance \<Rightarrow> ('r, 'p) OfficeWebPlugin \<Rightarrow> ('w, 'c) DocWorld \<times> 'l OfficeInstance \<times> ('r, 'p) OfficeWebPlugin" where
  "plugin_OnDestroyed ol st oi p =
     (let (d, _, st1) = move_assign (wp_document p) DocumentHolderWithView_default st
      in (st1, RemoveDestroyedObserver ol (wp_self p) oi, p\<lparr>doomed := True, wp_document := d\<rparr>))"

definition plugin_CanUndo :: "('s, 'j, 'r, 'p) clients \<Rightarrow> ('r, 'p) OfficeWebPlugin \<Rightarrow> bool" where
  "plugin_CanUndo cs p = (case document_client cs p of None \<Rightarrow> False | Some c \<Rightarrow> client_CanUndo c)"

definition plugin_CanRedo :: "('s, 'j, 'r, 'p) clients \<Rightarrow> ('r, 'p) OfficeWebPlugin \<Rightarrow> bool" where
  "plugin_CanRedo cs p = (case document_client cs p of None \<Rightarrow> False | Some c \<Rightarrow> client_CanRedo c)"

end
