(* ===== verification/Plugin_Input.thy ===== *)
theory Plugin_Input
  imports Plugin_Events
begin

text \<open>
  The input events of office/office_web_plugin.cc, with the input helpers of
  office/web_plugin_utils.cc: key and mouse events are translated and posted to the document, and
  the cursor follows the style of the page. Blink's event types and its coordinate transformation
  are parameters, as are the event codes of LibreOfficeKit.
\<close>

section \<open>Parameters\<close>

datatype web_type = kMouseDown | kMouseUp | kMouseMove | kRawKeyDown | kKeyUp | kChar

datatype lok_event = LOK_KEYEVENT_KEYINPUT | LOK_KEYEVENT_KEYUP
  | LOK_MOUSEEVENT_MOUSEBUTTONDOWN | LOK_MOUSEEVENT_MOUSEBUTTONUP | LOK_MOUSEEVENT_MOUSEMOVE

record web_event =
  we_type :: int
  we_modifiers :: int
  we_dom_code :: int
  we_text :: int
  we_position :: "fp \<times> fp"
  we_click_count :: int

record web_input =
  wi_type :: "web_type \<Rightarrow> int"
  IsGestureEventType :: "int \<Rightarrow> bool"
  IsKeyboardEventType :: "int \<Rightarrow> bool"
  TranslateAndScaleWebInputEvent :: "web_event \<Rightarrow> fp \<times> fp \<Rightarrow> fp \<Rightarrow> web_event option"
  is_mac :: bool
  wi_usb :: "dom_key \<Rightarrow> int"

record 'w lok_input =
  postKeyEvent :: "lok_event \<Rightarrow> int \<Rightarrow> int \<Rightarrow> nat \<Rightarrow> 'w \<Rightarrow> unit \<times> 'w"
  postMouseEvent :: "lok_event \<Rightarrow> int \<times> int \<Rightarrow> int \<Rightarrow> int \<Rightarrow> int \<Rightarrow> nat \<Rightarrow> 'w \<Rightarrow> unit \<times> 'w"

section \<open>The tasks posted to the document\<close>

datatype input_task =
    KeyTask lok_event int int
  | MouseTask lok_event "int \<times> int" int int int
  | FocusTask "int \<times> int"

fun run_input_task ::
  "'w lok_document \<Rightarrow> 'w lok_input \<Rightarrow> input_task \<Rightarrow> DocumentHolderWithView \<Rightarrow> ('w, 'c) DocWorld \<Rightarrow> ('w, 'c) DocWorld option" where
  "run_input_task lok li (KeyTask key_event txt lok_key_code) d st =
     map_option snd (lok_call lok d (postKeyEvent li key_event txt lok_key_code) st)"
| "run_input_task lok li (MouseTask event_type pos clickCount buttons modifiers) d st =
     map_option snd (lok_call lok d (postMouseEvent li event_type pos clickCount buttons modifiers) st)"
| "run_input_task lok li (FocusTask pos) d st = do {
     (_, st1) \<leftarrow> lok_call lok d (postMouseEvent li LOK_MOUSEEVENT_MOUSEBUTTONDOWN pos 1 1 0) st;
     map_option snd (lok_call lok d (postMouseEvent li LOK_MOUSEEVENT_MOUSEBUTTONUP pos 1 1 0) st1) }"

section \<open>Focus\<close>

text \<open>\<open>by_script\<close> is the focus type \<open>kScript\<close>; \<open>emb\<close> makes a task of the document's runner.\<close>

definition UpdateFocus ::
  "('r, 'f) view_ops \<Rightarrow> (input_task \<Rightarrow> 'c) \<Rightarrow> bool \<Rightarrow> bool \<Rightarrow> ('w, 'c) DocWorld \<Rightarrow> ('r, 'p) OfficeWebPlugin \<Rightarrow>
   (('w, 'c) DocWorld \<times> ('r, 'p) OfficeWebPlugin) option" where
  "UpdateFocus vo emb focused by_script st p =
     (if disable_input p then Some (st, p)
      else if to_bool st (wp_document p) \<and> focused \<and> by_script
      then if last_cursor_rect p = [] then Some (st, p)
           else do {
             (pos, _) \<leftarrow> ParseRect (vo_Rect vo) (vo_Rect0 vo) (map of_char (last_cursor_rect p));
             st1 \<leftarrow> holder_Post (emb (FocusTask (rect_x (vo_gfx vo) pos, rect_y (vo_gfx vo) pos))) (wp_document p) st;
             Some (st1, p\<lparr>has_focus := focused\<rparr>) }
      else Some (st, p\<lparr>has_focus := focused\<rparr>))"

section \<open>Cursors\<close>

definition cursor_map :: "(string \<times> CursorType) list" where
  "cursor_map = [
     (''auto'', kNull), (''default'', kNull), (''none'', kNone), (''context-menu'', kContextMenu), (''help'', kHelp),
     (''pointer'', kPointer), (''progress'', kProgress), (''wait'', kWait), (''cell'', kCell), (''crosshair'', kCross),
     (''text'', kIBeam), (''vertical-text'', kVerticalText), (''alias'', kAlias), (''copy'', kCopy), (''move'', kMove),
     (''no-drop'', kNoDrop), (''not-allowed'', kNotAllowed), (''grab'', kGrab), (''grabbing'', kGrabbing),
     (''e-resize'', kEastResize), (''n-resize'', kNorthResize), (''ne-resize'', kNorthEastResize), (''nw-resize'', kNorthWestResize),
     (''s-resize'', kSouthResize), (''se-resize'', kSouthEastResize), (''sw-resize'', kSouthWestResize), (''w-resize'', kWestResize),
     (''ew-resize'', kEastWestResize), (''ns-resize'', kNorthSouthResize), (''nesw-resize'', kNorthEastSouthWestResize),
     (''nwse-resize'', kNorthWestSouthEastResize), (''col-resize'', kColumnResize), (''row-resize'', kRowResize),
     (''all-scroll'', kMove), (''zoom-in'', kZoomIn), (''zoom-out'', kZoomOut)]"

definition cssCursorToMojom :: "string \<Rightarrow> CursorType" where
  "cssCursorToMojom css = (case map_of cursor_map css of None \<Rightarrow> kNull | Some c \<Rightarrow> c)"

section \<open>Keys\<close>

text \<open>On macOS the command key takes the place of the control key.\<close>

definition mac_modifiers :: "int \<Rightarrow> int" where
  "mac_modifiers m =
     (let m1 = m AND NOT kControlKey
      in if m1 AND kMetaKey \<noteq> 0 then (m1 OR kControlKey) AND NOT kMetaKey else m1)"

text \<open>The result says whether the event was handled.\<close>

definition HandleKeyEvent ::
  "web_input \<Rightarrow> (input_task \<Rightarrow> 'c) \<Rightarrow> web_event \<Rightarrow> ('r, 'p) OfficeWebPlugin \<Rightarrow> ('w, 'c) DocWorld \<Rightarrow> (bool \<times> ('w, 'c) DocWorld) option" where
  "HandleKeyEvent wi emb event p st =
     (let type = we_type event; usb = wi_usb wi;
          base_modifier = (if is_mac wi then kMetaKey else kControlKey)
      in if \<not> to_bool st (wp_document p) then Some (False, st)
         else if type = wi_type wi kChar \<and> we_dom_code event = usb DK_SPACE then Some (True, st)
         else if type \<noteq> wi_type wi kRawKeyDown \<and> type \<noteq> wi_type wi kKeyUp then Some (False, st)
         else if we_modifiers event AND base_modifier \<noteq> 0 \<and> (we_dom_code event = usb US_W \<or> we_dom_code event = usb US_V)
         then Some (False, st)
         else let modifiers = (if is_mac wi then mac_modifiers (we_modifiers event) else we_modifiers event);
                  lok_key_code = DOMKeyCodeToLOKKeyCode usb (we_dom_code event) modifiers;
                  key_event = (if type = wi_type wi kKeyUp then LOK_KEYEVENT_KEYUP else LOK_KEYEVENT_KEYINPUT)
              in map_option (Pair True) (holder_Post (emb (KeyTask key_event (we_text event) lok_key_code)) (wp_document p) st))"

section \<open>Mouse\<close>

definition GetRelativeMousePosition :: "web_input \<Rightarrow> web_event \<Rightarrow> fp \<times> fp \<Rightarrow> fp \<times> fp" where
  "GetRelativeMousePosition wi event delta =
     we_position (case TranslateAndScaleWebInputEvent wi event delta (Fin 1) of Some transformed \<Rightarrow> transformed | None \<Rightarrow> event)"

definition GetClickCount :: "web_event \<Rightarrow> int" where
  "GetClickCount event = we_click_count event"

definition mouse_buttons :: "int \<Rightarrow> int" where
  "mouse_buttons modifiers =
     (let buttons = 0;
          buttons = (if modifiers AND 64 \<noteq> 0 then buttons OR 1 else buttons);
          buttons = (if modifiers AND 128 \<noteq> 0 then buttons OR 2 else buttons);
          buttons = (if modifiers AND 256 \<noteq> 0 then buttons OR 4 else buttons)
      in buttons)"

definition mouse_event_type :: "web_input \<Rightarrow> int \<Rightarrow> lok_event option" where
  "mouse_event_type wi type =
     (if type = wi_type wi kMouseDown then Some LOK_MOUSEEVENT_MOUSEBUTTONDOWN
      else if type = wi_type wi kMouseUp then Some LOK_MOUSEEVENT_MOUSEBUTTONUP
      else if type = wi_type wi kMouseMove then Some LOK_MOUSEEVENT_MOUSEMOVE
      else None)"

definition HandleMouseEvent ::
  "('r, 'f) view_ops \<Rightarrow> web_input \<Rightarrow> (input_task \<Rightarrow> 'c) \<Rightarrow> int \<Rightarrow> fp \<times> fp \<Rightarrow> int \<Rightarrow> int \<Rightarrow> ('r, 'p) OfficeWebPlugin \<Rightarrow> ('w, 'c) DocWorld \<Rightarrow>
   (bool \<times> ('w, 'c) DocWorld) option" where
  "HandleMouseEvent vo wi emb type position modifiers clickCount p st =
     (if \<not> to_bool st (wp_document p) then Some (False, st)
      else case mouse_event_type wi type of
             None \<Rightarrow> Some (False, st)
           | Some event_type \<Rightarrow>
               if \<not> vo_Contains vo (available_area p) (vo_ToCeiledPoint vo position)
               then Some (event_type = LOK_MOUSEEVENT_MOUSEBUTTONDOWN, st)
               else let position1 = (f32_add (fst position) (Fin 0), f32_add (snd position) (f32_of_int (wp_scroll_y p)));
                        pos = vo_ScaleToRoundedPoint vo position1 (f32_div kTwipPerPx (TotalScale p));
                        buttons = mouse_buttons modifiers
                    in if 0 < buttons
                       then map_option (Pair True)
                              (holder_Post (emb (MouseTask event_type pos clickCount buttons (EventModifiersToLOKModifiers modifiers))) (wp_document p) st)
                       else Some (False, st))"

section \<open>Dispatch\<close>

text \<open>\<open>now\<close> is the clock, \<open>css\<close> what \<open>container::CSSCursor\<close> reads; the cursor of the plugin is the one
  handed back to Blink.\<close>

definition update_cursor :: "int \<Rightarrow> string \<Rightarrow> ('r, 'p) OfficeWebPlugin \<Rightarrow> ('r, 'p) OfficeWebPlugin" where
  "update_cursor now css p =
     (if debounce_over now (last_css_cursor_time p)
      then p\<lparr>last_css_cursor_time := Some now, cursor_type := cssCursorToMojom css\<rparr> else p)"

definition HandleInputEvent ::
  "('r, 'f) view_ops \<Rightarrow> web_input \<Rightarrow> (input_task \<Rightarrow> 'c) \<Rightarrow> int \<Rightarrow> string \<Rightarrow> web_event \<Rightarrow> ('r, 'p) OfficeWebPlugin \<Rightarrow> ('w, 'c) DocWorld \<Rightarrow>
   (bool \<times> ('w, 'c) DocWorld \<times> ('r, 'p) OfficeWebPlugin) option" where
  "HandleInputEvent vo wi emb now css event p st =
     (let p1 = update_cursor now css p; event_type = we_type event
      in if disable_input p1 then Some (False, st, p1)
         else if IsGestureEventType wi event_type then Some (False, st, p1)
         else if IsKeyboardEventType wi event_type
         then map_option (\<lambda>(r, st1). (r, st1, p1)) (HandleKeyEvent wi emb event p1 st)
         else if mouse_event_type wi event_type = None then Some (False, st, p1)
         else map_option (\<lambda>(r, st1). (r, st1, p1))
                (HandleMouseEvent vo wi emb event_type
                   (GetRelativeMousePosition wi event (f32_of_int (- rect_x (vo_gfx vo) (available_area p1)), Fin 0))
                   (we_modifiers event) (GetClickCount event) p1 st))"

end
