(* ===== verification/Plugin_Properties.thy ===== *)
theory Plugin_Properties
  imports Plugin_Input
begin

text \<open>
  What the plugin promises: the pages it reports in view, the bounds of scrolling and zooming, the
  input events that reach the document, and the hand-over of the rendering state from a destroyed
  plugin to the next one.
\<close>

section \<open>Pages in view\<close>

lemma intersect_loop_found:
  assumes "0 \<le> f"
  shows "intersect_loop hit rs i f (i - 1) = (f, i - 1 + int (length (takeWhile hit rs)))"
  using assms
proof (induction rs arbitrary: i)
  case (Cons r rs)
  then show ?case using Cons.IH [of "i + 1"] by (cases "hit r") simp_all
qed simp

lemma intersect_loop_search:
  assumes "0 \<le> i"
  shows "intersect_loop hit rs i (- 1) (- 1) =
    (let n = length (takeWhile (Not \<circ> hit) rs)
     in if n = length rs then (- 1, - 1)
        else (i + int n, i + int n + int (length (takeWhile hit (drop n rs))) - 1))"
  using assms
proof (induction rs arbitrary: i)
  case (Cons r rs)
  then show ?case using Cons.IH [of "i + 1"] intersect_loop_found [of i hit rs "i + 1"]
    by (cases "hit r") (simp_all add: Let_def)
qed simp

text \<open>The pages \<open>f\<close> to \<open>l\<close> are the first run of pages in view.\<close>

definition first_run :: "('r \<Rightarrow> bool) \<Rightarrow> 'r list \<Rightarrow> int \<Rightarrow> int \<Rightarrow> bool" where
  "first_run hit rs f l \<longleftrightarrow>
     0 \<le> f \<and> f \<le> l \<and> l < int (length rs) \<and>
     (\<forall>i. 0 \<le> i \<and> i < f \<longrightarrow> \<not> hit (rs ! nat i)) \<and> (\<forall>i. f \<le> i \<and> i \<le> l \<longrightarrow> hit (rs ! nat i)) \<and>
     (l + 1 < int (length rs) \<longrightarrow> \<not> hit (rs ! nat (l + 1)))"

lemma first_run_intro:
  assumes n: "n = length (takeWhile (Not \<circ> hit) rs)" "n \<noteq> length rs" and k: "k = length (takeWhile hit (drop n rs))"
  shows "first_run hit rs (int n) (int n + int k - 1)"
proof -
  have n': "n < length rs" using n length_takeWhile_le [of "Not \<circ> hit" rs] by simp
  have at_n: "hit (rs ! n)" using nth_length_takeWhile [of "Not \<circ> hit" rs] n n' by simp
  have k0: "0 < k" using at_n n' by (simp add: k Cons_nth_drop_Suc [symmetric])
  have kn: "n + k \<le> length rs" using length_takeWhile_le [of hit "drop n rs"] n' by (simp add: k)
  have before: "\<not> hit (rs ! i)" if "i < n" for i
    using takeWhile_nth [of i "Not \<circ> hit" rs] set_takeWhileD [of "rs ! i" "Not \<circ> hit" rs] nth_mem [of i "takeWhile (Not \<circ> hit) rs"] that n
    by (metis comp_apply)
  have inside: "hit (rs ! (n + j))" if "j < k" for j
    using takeWhile_nth [of j hit "drop n rs"] set_takeWhileD [of _ hit "drop n rs"] nth_mem [of j "takeWhile hit (drop n rs)"] that k n'
    by (metis nth_drop less_imp_le)
  have after: "\<not> hit (rs ! (n + k))" if "n + k < length rs"
    using nth_length_takeWhile [of hit "drop n rs"] that n' by (simp add: k)
  have "hit (rs ! nat i)" if "int n \<le> i" "i \<le> int n + int k - 1" for i
    using inside [of "nat i - n"] that by (simp add: nat_less_iff)
  moreover have "\<not> hit (rs ! nat i)" if "0 \<le> i" "i < int n" for i using before [of "nat i"] that by simp
  moreover have "nat (int n + int k) = n + k" by simp
  ultimately show ?thesis unfolding first_run_def using k0 kn after by simp
qed

text \<open>The pages reported in view are the first run of pages that intersect the view. Updating them
  returns whenever the scroll position and the view's height are in the range of \<open>int\<close>; when no page
  intersects the view both indices are -1, and otherwise they are the ends of the first run of
  consecutive pages in view, with nothing in view before it and its end not in view or the last page.\<close>

theorem UpdateIntersectingPages_correct:
  assumes "fp_to_int32 (f32_div (f32_of_int (wp_scroll_y p)) (device_scale p)) = Some y" "fp_to_int32 (view_height vo p) = Some h"
  shows "\<exists>p1. UpdateIntersectingPages vo p = Some p1 \<and> p1 = p\<lparr>first_intersect := first_intersect p1, last_intersect := last_intersect p1\<rparr> \<and>
    (let hit = \<lambda>r. vo_Intersects vo r (vo_Rect vo 0 y 800 h)
     in if \<exists>r \<in> set (page_rects_cached p). hit r then first_run hit (page_rects_cached p) (first_intersect p1) (last_intersect p1)
        else first_intersect p1 = - 1 \<and> last_intersect p1 = - 1)"
proof -
  define hit where "hit = (\<lambda>r. vo_Intersects vo r (vo_Rect vo 0 y 800 h))"
  define rs where "rs = page_rects_cached p"
  define n where "n = length (takeWhile (Not \<circ> hit) rs)"
  define k where "k = length (takeWhile hit (drop n rs))"
  obtain f l where loop: "intersect_loop hit rs 0 (- 1) (- 1) = (f, l)" by force
  have upd: "UpdateIntersectingPages vo p = Some (p\<lparr>first_intersect := f, last_intersect := l\<rparr>)"
    using assms loop by (simp add: UpdateIntersectingPages_def hit_def rs_def)
  have none: "n = length rs \<longleftrightarrow> (\<forall>r \<in> set rs. \<not> hit r)"
    unfolding n_def by (metis comp_apply set_takeWhileD takeWhile_eq_all_conv takeWhile_eq_take take_all_iff order_refl)
  have "(f, l) = (if n = length rs then (- 1, - 1) else (int n, int n + int k - 1))"
    using loop unfolding intersect_loop_search [OF order_refl] by (auto simp: Let_def n_def k_def split: if_splits)
  then have "if \<exists>r \<in> set rs. hit r then first_run hit rs f l else f = - 1 \<and> l = - 1"
    using first_run_intro [OF n_def _ k_def] none by (auto split: if_splits)
  then show ?thesis using upd by (simp add: Let_def flip: hit_def rs_def)
qed

text \<open>A geometry and a plugin for the witnesses.\<close>

type_synonym sample_rect = "int \<times> int \<times> int \<times> int"

definition sample_view :: "(sample_rect, sample_rect) view_ops" where
  "sample_view = \<lparr>vo_gfx = sample_gfx, vo_Rect = \<lambda>x y w h. (x, y, w, h), vo_Rect0 = (0, 0, 0, 0),
     vo_width = \<lambda>(x, y, w, h). w, vo_height = \<lambda>(x, y, w, h). h, vo_set_width = \<lambda>w' (x, y, w, h). (x, y, w', h),
     vo_set_height = \<lambda>h' (x, y, w, h). (x, y, w, h'), vo_IsEmpty = \<lambda>(x, y, w, h). w = 0 \<or> h = 0,
     vo_Intersects = \<lambda>(x, y, w, h) (x', y', w', h'). y < y' + h' \<and> y' < y + h,
     vo_Contains = \<lambda>(x, y, w, h) (a, b). x \<le> a \<and> a < x + w \<and> y \<le> b \<and> b < y + h, vo_Intersect = \<lambda>a b. a,
     vo_ScaleToEnclosingRect = \<lambda>r _. r, vo_ScaleToCeiled = \<lambda>r _. r, vo_RectF_height = \<lambda>(x, y, w, h). Fin (of_int h),
     vo_ToCeiledPoint = \<lambda>_. (0, 0), vo_ScaleToRoundedPoint = \<lambda>_ _. (0, 0)\<rparr>"

definition sample_plugin :: "(sample_rect, unit) OfficeWebPlugin" where
  "sample_plugin = fst (OfficeWebPlugin_make sample_view sample_list (pm_flags sample_manager) (sample_buffer ()) 5 8 (OfficeInstance_init sample_list))"

lemma fin_int [simp]: "\<bar>m\<bar> < 2 ^ 24 \<Longrightarrow> f32_of_int m = Fin (of_int m)"
  by (simp add: f32_of_int_def round32_value f32_value_int)

lemma round32_numeral [simp]:
  "(numeral n :: int) < 2 ^ 24 \<Longrightarrow> round32 (numeral n) = Fin (numeral n)" "round32 0 = Fin 0" "round32 1 = Fin 1"
  using round32_value [OF f32_value_int [of "numeral n"]] round32_value [OF f32_value_int [of 0]] round32_value [OF f32_value_int [of 1]]
  by simp_all

lemma round64_numeral [simp]: "(numeral n :: int) < 2 ^ 53 \<Longrightarrow> round64 (numeral n) = Fin (numeral n)" "round64 1 = Fin 1"
  using fround_exact [OF representable_int [of "numeral n" 53 "- 1074" 971]] fround_exact [OF representable_int [of 1 53 "- 1074" 971]]
  by (simp_all add: round64_def)

theorem UpdateIntersectingPages_correct_witness:
  "map_option (\<lambda>p. (first_intersect p, last_intersect p))
     (UpdateIntersectingPages sample_view (sample_plugin\<lparr>plugin_rect := (0, 0, 800, 600), wp_scroll_y := 1000,
        page_rects_cached := [(0, 0, 800, 900), (0, 950, 800, 900), (0, 1900, 800, 900)]\<rparr>)) = Some (1, 1)"
proof -
  let ?p = "sample_plugin\<lparr>plugin_rect := (0, 0, 800, 600), wp_scroll_y := 1000,
    page_rects_cached := [(0, 0, 800, 900), (0, 950, 800, 900), (0, 1900, 800, 900)]\<rparr>"
  have s: "device_scale ?p = Fin 1" "viewport_zoom ?p = Fin 1" by (simp_all add: sample_plugin_def OfficeWebPlugin_make_def)
  have "fp_to_int32 (f32_div (f32_of_int (wp_scroll_y ?p)) (device_scale ?p)) = Some 1000" "fp_to_int32 (view_height sample_view ?p) = Some 600"
    unfolding view_height_def s by (simp_all add: sample_view_def fp_to_int32_def rat_trunc_def int32_min_def int32_max_def)
  note u = UpdateIntersectingPages_correct [OF this]
  show ?thesis
  proof (rule exE [OF u], elim conjE)
    fix q
    assume q: "UpdateIntersectingPages sample_view ?p = Some q"
      and run: "let hit = \<lambda>r. vo_Intersects sample_view r (vo_Rect sample_view 0 1000 800 600)
        in if \<exists>r \<in> set (page_rects_cached ?p). hit r then first_run hit (page_rects_cached ?p) (first_intersect q) (last_intersect q)
           else first_intersect q = - 1 \<and> last_intersect q = - 1"
    let ?rs = "[(0, 0, 800, 900), (0, 950, 800, 900), (0, 1900, 800, 900)] :: sample_rect list"
    have "first_run (\<lambda>r. vo_Intersects sample_view r (vo_Rect sample_view 0 1000 800 600)) ?rs (first_intersect q) (last_intersect q)"
      using run by (simp add: Let_def sample_view_def)
    note fr = this [unfolded first_run_def]
    have "first_intersect q \<noteq> 0" using fr by (auto simp: sample_view_def)
    moreover have "\<not> 1 < first_intersect q" using fr by (auto simp: sample_view_def dest: spec [of _ 1])
    ultimately have f: "first_intersect q = 1" using fr by linarith
    have "\<not> 2 \<le> last_intersect q" using fr f by (auto simp: sample_view_def dest: spec [of _ 2])
    then have "first_intersect q = 1 \<and> last_intersect q = 1" using fr f by linarith
    then show ?thesis using q by simp
  qed
qed

section \<open>Scrolling\<close>

lemma round_even_nonneg: "0 \<le> x \<Longrightarrow> 0 \<le> round_even x"
  by (simp add: round_even_def Let_def)

lemma round32_nonneg: "0 \<le> x \<Longrightarrow> round32 x = Fin r \<Longrightarrow> 0 \<le> r"
  using round_even_nonneg [of "x / 2 powi ulp_exp 24 (- 149) 104 x"]
  by (auto simp: round32_def fround_def Let_def split: if_splits)

lemma clamp_nonneg: "fp_clamp v (Fin 0) (fp_max m (Fin 0)) = Fin x \<Longrightarrow> 0 \<le> x"
  by (cases v; cases m) (auto simp: fp_clamp_def fp_max_def split: if_splits)

lemma scroll_target_nonneg:
  assumes "device_scale p = Fin s" "0 \<le> s" "scroll_target vo c p y = Fin t"
  shows "0 \<le> t"
proof -
  define m where "m = f32_sub (TwipToPx (f32_of_int (snd (DocumentSizeTwips c))) p) (view_height vo p)"
  define v where "v = fp_clamp (f32_of_int y) (Fin 0) (fp_max m (Fin 0))"
  have t: "f32_mul v (Fin s) = Fin t" using assms(1,3) by (simp add: scroll_target_def v_def m_def)
  then obtain x where x: "v = Fin x" by (cases v) (auto simp: fp_inf_def split: if_splits)
  have "0 \<le> x" using clamp_nonneg x by (simp add: v_def)
  then show ?thesis using t x assms(2) round32_nonneg [of "x * s" t] by simp
qed

lemma scroll_position_nonneg:
  assumes "device_scale p = Fin s" "0 \<le> s" "fp_to_int32 (scroll_target vo c p y) = Some pos"
  shows "0 \<le> pos" "pos \<le> int32_max"
proof -
  obtain t where t: "scroll_target vo c p y = Fin t" "pos = rat_trunc t" "pos \<le> int32_max"
    using assms(3) by (cases "scroll_target vo c p y") (auto simp: fp_to_int32_def split: if_splits)
  then show "0 \<le> pos" "pos \<le> int32_max"
    using scroll_target_nonneg [OF assms(1,2) t(1)] by (simp_all add: rat_trunc_def)
qed

lemma LimitIndex_y_pos [simp]: "LimitIndex (tb\<lparr>tb_y_pos := y\<rparr>) = LimitIndex tb"
  by (simp add: LimitIndex_def fun_eq_iff)

lemma tb_wf_y_pos: "tb_wf tb \<Longrightarrow> tb_wf (tb\<lparr>tb_y_pos := y\<rparr>)"
  by (simp add: tb_wf_def)

text \<open>The conversions of an update of the scroll position to \<open>y\<close> are all in range.\<close>

definition scroll_in_range ::
  "('r, 'f) view_ops \<Rightarrow> ('s, 'j, 'r, 'p) DocumentClient \<Rightarrow> ('r, 'p) OfficeWebPlugin \<Rightarrow> int \<Rightarrow> int \<Rightarrow> u32 \<Rightarrow> int \<Rightarrow> bool" where
  "scroll_in_range vo c p y pos h v \<longleftrightarrow>
     fp_to_int32 (scroll_target vo c p y) = Some pos \<and> fp_to_u32 (view_height vo p) = Some h \<and> fp_to_int32 (view_height vo p) \<noteq> None \<and>
     fp_to_int32 (f32_mul (view_height vo p) (device_scale p)) = Some v \<and> fp_to_int32 (f32_div (f32_of_int pos) (device_scale p)) \<noteq> None \<and>
     unat h < 2 ^ 30 \<and> int32_min \<le> pos + v \<and> pos + v \<le> int32_max"


text \<open>The sample plugin with a document of one page.\<close>

definition sample_mounted :: "(sample_rect, unit) OfficeWebPlugin" where
  "sample_mounted = sample_plugin\<lparr>wp_document := \<lparr>view_id = 0, holder = Some 0, deregisters_callback = False\<rparr>, wp_document_client := Some 3,
     plugin_rect := (0, 0, 800, 256)\<rparr>"

definition sample_page :: "(unit, unit, sample_rect, unit) DocumentClient" where
  "sample_page = sample_client\<lparr>document_height_in_twips := 15840, document_width_in_twips := 12240\<rparr>"

lemmas sample_plugin_defs = sample_mounted_def sample_plugin_def OfficeWebPlugin_make_def PaintManager_init_def CancelFlag_Create_def
  sample_page_def sample_client_def sample_view_def

lemma sample_target: "scroll_target sample_view sample_page sample_mounted 300 = Fin 300"
  by (simp add: scroll_target_def TwipToPx_def TwipToPixel_def TotalScale_def view_height_def kTwipPerPx_def DocumentSizeTwips_def
      fp_clamp_def fp_max_def fp_sub_def int32_id int32_min_def int32_max_def sample_plugin_defs)

lemma sample_in_range: "scroll_in_range sample_view sample_page sample_mounted 300 300 256 256"
  unfolding scroll_in_range_def sample_target
  by (simp add: view_height_def sample_plugin_defs fp_to_int32_def fp_to_u32_def rat_trunc_def int32_min_def int32_max_def)


text \<open>The end of the document does not stop scrolling when the device scale is 2. The bound takes
  the height of the document in device pixels, subtracts the height of the view in CSS pixels and
  is multiplied by the device scale once more: a request beyond the end of a document of
  \<open>2 * n\<close> device pixels goes to \<open>2 * (2 * n - v)\<close>, which is below its last pixel.\<close>

theorem scroll_target_past_end:
  assumes "device_scale p = Fin 2" "viewport_zoom p = Fin 1" "wp_zoom p = Fin 1" "vo_height vo (plugin_rect p) = 2 * v"
    "document_height_in_twips c = 15 * n" "0 \<le> v" "v < n" "n < 2 ^ 20" "2 * n \<le> y" "y < 2 ^ 24"
  shows "TwipToPx (f32_of_int (snd (DocumentSizeTwips c))) p = Fin (of_int (2 * n)) \<and>
    scroll_target vo c p y = Fin (of_int (2 * (2 * n - v))) \<and> 2 * n < 2 * (2 * n - v)"
proof -
  have exact: "round32 (of_int k) = Fin (of_int k)" if "0 \<le> k" "k < 2 ^ 24" for k
    using round32_value [OF f32_value_int [of k]] that by simp
  have fin: "f32_of_int k = Fin (of_int k)" if "0 \<le> k" "k < 2 ^ 24" for k using exact that by (simp add: f32_of_int_def)
  have scale: "TotalScale p = Fin 2" using assms(1-3) by (simp add: TotalScale_def)
  have doc: "snd (DocumentSizeTwips c) = 15 * n"
    using assms(5-8) by (simp add: DocumentSizeTwips_def int32_id int32_min_def int32_max_def)
  have px: "TwipToPx (f32_of_int (15 * n)) p = Fin (of_int (2 * n))"
    using assms(6-8) exact [of n] exact [of "2 * n"] fin [of "15 * n"]
    by (simp add: TwipToPx_def TwipToPixel_def scale kTwipPerPx_def mult.commute)
  have vh: "view_height vo p = Fin (of_int v)"
    using assms(1,2,4,6-8) exact [of v] fin [of "2 * v"] by (simp add: view_height_def)
  have "f32_sub (Fin (of_int (2 * n))) (Fin (of_int v)) = Fin (of_int (2 * n - v))"
    using exact [of "2 * n - v"] assms(6-8) by (simp add: fp_sub_def)
  moreover have "f32_of_int y = Fin (of_int y)" using fin [of y] assms(6-10) by simp
  moreover have "f32_mul (Fin (of_int (2 * n - v))) (Fin 2) = Fin (of_int (2 * (2 * n - v)))"
    using exact [of "2 * (2 * n - v)"] assms(6-8) by (simp add: mult.commute)
  moreover have "fp_clamp (Fin (of_int y)) (Fin 0) (fp_max (Fin (of_int (2 * n - v))) (Fin 0)) = Fin (of_int (2 * n - v))"
  proof -
    have "\<not> (of_int y :: rat) < 0" "\<not> (of_int (2 * n - v) :: rat) < 0" "of_int y \<le> (of_int (2 * n - v) :: rat) \<longrightarrow> y = 2 * n - v"
      using assms(6-10) by (simp_all only: of_int_less_0_iff of_int_le_iff) linarith+
    then show ?thesis by (auto simp only: fp_clamp_def fp_max_def fp_less.simps if_False split: if_splits)
  qed
  ultimately have "scroll_target vo c p y = Fin (of_int (2 * (2 * n - v)))"
    using assms(1) by (simp only: scroll_target_def doc px vh Let_def)
  then show ?thesis using px doc assms(7) by simp
qed

theorem scroll_target_past_end_witness:
  "scroll_target sample_view sample_page (sample_mounted\<lparr>device_scale := Fin 2, plugin_rect := (0, 0, 800, 1200)\<rparr>) 5000 = Fin 3024 \<and>
   TwipToPx (f32_of_int (snd (DocumentSizeTwips sample_page))) (sample_mounted\<lparr>device_scale := Fin 2, plugin_rect := (0, 0, 800, 1200)\<rparr>) = Fin 2112"
  using scroll_target_past_end [of "sample_mounted\<lparr>device_scale := Fin 2, plugin_rect := (0, 0, 800, 1200)\<rparr>" sample_view 600 sample_page 1056 5000]
  by (simp add: sample_plugin_defs)

section \<open>Zooming\<close>

text \<open>A small zoom makes every later zoom undefined. From the zoom 1, a request for 1/128 is clipped
  to the zoom 0; the next request divides by it and converts the NaN it gets for the scroll
  position to \<open>int\<close>.\<close>

theorem SetZoom_zero_undefined:
  assumes "wp_zoom p = Fin 1" "\<bar>wp_scroll_y p\<bar> < 2 ^ 24" "tile_buffer p = Some tb"
  shows "\<exists>p1. SetZoom st (Fin (1 / 128)) p = Some p1 \<and> wp_zoom p1 = Fin 0 \<and> SetZoom st' (Fin 1) p1 = None"
proof -
  have eps: "\<not> fp_less (Fin 1) zoom_epsilon" by (simp add: zoom_epsilon_def)
  have m1: "round32 (- 1) = Fin (- 1)" using round32_value [OF f32_value_int [of "- 1"]] by simp
  have zero: "fp_to_int32 (Fin 0) = Some 0" by (simp add: fp_to_int32_def rat_trunc_def int32_min_def int32_max_def)
  define q where "q = p\<lparr>wp_old_zoom := Fin 1, wp_scroll_y := 0, wp_zoom := Fin 0\<rparr>"
  define p1 where "p1 = (if \<not> to_bool st (wp_document p) then q else if in_paint p then q\<lparr>wp_scale_pending := True\<rparr>
    else InvalidatePluginContainer (set_tile_buffer (SetActiveContext 0 tb) (q\<lparr>wp_scale_pending := True\<rparr>)))"
  have run: "SetZoom st (Fin (1 / 128)) p = Some p1"
    unfolding SetZoom_def clip_to_zero Option.bind_lunit
    using assms eps zero by (simp add: fp_sub_def p1_def q_def on_tile_buffer_def)
  have p1: "wp_zoom p1 = Fin 0" "wp_scroll_y p1 = 0"
    by (simp_all add: p1_def q_def InvalidatePluginContainer_def post_plugin_task_def set_tile_buffer_def)
  have clip: "clipToNearest8PxZoom 256 (Fin 1) = Some (Fin 1)"
    by (simp add: clipToNearest8PxZoom_def f32_of_int_def fp_to_int32_def rat_trunc_def int32_min_def int32_max_def c_mod_def c_div_def)
  have "SetZoom st' (Fin 1) p1 = None"
    unfolding SetZoom_def clip Option.bind_lunit p1
    using eps by (simp add: fp_sub_def m1 fp_inf_def f32_of_int_def fp_to_int32_def)
  then show ?thesis using run p1(1) by blast
qed

theorem SetZoom_zero_undefined_witness:
  "\<exists>p1. SetZoom sample_world (Fin (1 / 128)) sample_mounted = Some p1 \<and> wp_zoom p1 = Fin 0 \<and> SetZoom sample_world (Fin 1) p1 = None"
  using SetZoom_zero_undefined [of sample_mounted "sample_buffer ()"] by (simp add: sample_plugin_defs)

section \<open>Debouncing\<close>

text \<open>The jobs posted so far, and whether painting is paused.\<close>

definition job_state :: "'p PaintManager \<Rightarrow> PaintJob list \<times> bool" where
  "job_state pm = (pm_jobs pm, skip_render pm)"

lemma job_state_make_task: "job_state (snd (make_task d y v s full rs pm)) = job_state pm"
proof -
  define pm1 where "pm1 = snd (make_task d y v s full rs pm)"
  have "pm1 = pm\<lparr>pm_flags := pm_flags pm1\<rparr>" unfolding pm1_def by (rule make_task_fields(1) [OF prod.collapse [symmetric]])
  then have "job_state pm1 = job_state (pm\<lparr>pm_flags := pm_flags pm1\<rparr>)" by (rule arg_cong)
  then show ?thesis by (simp add: job_state_def pm1_def)
qed

lemma job_state_MergeWith: "job_state (snd (MergeWith t rs tb pm)) = job_state pm"
  by (simp add: MergeWith_def Let_def job_state_make_task)

lemma job_state_tasks [simp]:
  "job_state (pm\<lparr>current_task := t\<rparr>) = job_state pm" "job_state (pm\<lparr>next_task := t\<rparr>) = job_state pm" "job_state (pm\<lparr>pm_flags := h\<rparr>) = job_state pm"
  by (simp_all add: job_state_def)

lemma job_state_merge: "job_state (merge_given rs pm) = job_state pm" "merge_remaining pm = Some pm1 \<Longrightarrow> job_state pm1 = job_state pm"
  "clip_next pm = Some pm1 \<Longrightarrow> job_state pm1 = job_state pm" "job_state (replace_current pm) = job_state pm"
  by (auto simp: merge_given_def merge_remaining_def clip_next_def replace_current_def Let_def case_prod_beta bind_eq_Some_conv job_state_MergeWith
      split: option.splits if_splits)

lemma PostCurrentTask_paused: "skip_render pm \<Longrightarrow> PostCurrentTask hs pm = pm"
  by (simp add: PostCurrentTask_def split: option.split)

lemma ScheduleNextPaint_paused:
  assumes "ScheduleNextPaint hs rs pm = Some (r, pm')" "skip_render pm"
  shows "job_state pm' = job_state pm"
proof -
  obtain pm1 pm2 where s: "merge_remaining (merge_given rs pm) = Some pm1" "clip_next pm1 = Some pm2"
    "pm' = (if current_task (replace_current pm2) \<noteq> None then PostCurrentTask hs (replace_current pm2) else replace_current pm2)"
    using assms(1) by (auto simp: ScheduleNextPaint_def bind_eq_Some_conv Let_def split: if_splits)
  have same: "job_state (replace_current pm2) = job_state pm"
    using job_state_merge(2) [OF s(1)] job_state_merge(3) [OF s(2)] by (simp add: job_state_merge(1,4))
  then have "skip_render (replace_current pm2)" using assms(2) by (simp add: job_state_def)
  then show ?thesis using s(3) same by (simp add: PostCurrentTask_paused)
qed

lemma SchedulePaint_paused:
  assumes "SchedulePaint hs d y v s full rs pm = Some pm'" "skip_render pm"
  shows "job_state pm' = job_state pm"
proof -
  have paused: "skip_render pm1" if "job_state pm1 = job_state pm" for pm1 using that assms(2) by (simp add: job_state_def)
  show ?thesis
  proof (cases "current_task pm")
    case None
    obtain t pm1 where t: "make_task d y v s full rs pm = (t, pm1)" by fastforce
    have same: "job_state (pm1\<lparr>current_task := Some t\<rparr>) = job_state pm" using job_state_make_task [of d y v s full rs pm] t by simp
    moreover have "pm' = pm1\<lparr>current_task := Some t\<rparr>"
      using assms(1) None t PostCurrentTask_paused [OF paused [OF same], of hs] by (simp add: SchedulePaint_def)
    ultimately show ?thesis by (simp only:)
  next
    case (Some c)
    obtain rs' full' where run: "SchedulePaint hs d y v s full rs pm =
        map_option snd (ScheduleNextPaint hs [] ((snd (make_task d y v s full' rs' pm))\<lparr>next_task := Some (fst (make_task d y v s full' rs' pm))\<rparr>))"
      unfolding SchedulePaint_def Some option.case Let_def case_prod_beta by blast
    have same: "job_state ((snd (make_task d y v s full' rs' pm))\<lparr>next_task := Some (fst (make_task d y v s full' rs' pm))\<rparr>) = job_state pm"
      by (simp add: job_state_make_task)
    then show ?thesis using assms(1) ScheduleNextPaint_paused [OF _ paused [OF same]] unfolding run by fastforce
  qed
qed

text \<open>Turning the debounce of updates off leaves painting paused. Turning it on pauses the paint
  manager and starts a timer that would resume it; turning it off destroys the timer and does not
  resume. From then on no paint that is scheduled posts a job.\<close>

theorem DebounceUpdates_stuck:
  assumes "0 < interval"
  shows "(let p1 = DebounceUpdates 0 (DebounceUpdates interval p)
    in update_debounce_timer p1 = None \<and> TryResumePaint p1 = p1 \<and>
       (\<forall>hs h full rng p2. schedule hs h full rng p1 = Some p2 \<longrightarrow> pm_jobs (paint_manager p2) = pm_jobs (paint_manager p) \<and> skip_render (paint_manager p2)))"
proof -
  define p1 where "p1 = DebounceUpdates 0 (DebounceUpdates interval p)"
  have p1: "update_debounce_timer p1 = None" "skip_render (paint_manager p1)" "pm_jobs (paint_manager p1) = pm_jobs (paint_manager p)"
    using assms by (simp_all add: p1_def DebounceUpdates_def PausePaint_def)
  have "job_state (paint_manager p2) = job_state (paint_manager p1)" if "schedule hs h full rng p1 = Some p2" for hs h full rng p2
    using that SchedulePaint_paused [OF _ p1(2)] by (auto simp: schedule_def bind_eq_Some_conv)
  then show ?thesis using p1 by (simp add: TryResumePaint_def Let_def job_state_def flip: p1_def)
qed

theorem DebounceUpdates_stuck_witness:
  "pm_jobs (paint_manager (the (schedule sample_hashes (Fin 256) False (tile_range 2 5) (DebounceUpdates 0 (DebounceUpdates 100 sample_mounted))))) = []"
proof -
  have "schedule sample_hashes (Fin 256) False (tile_range 2 5) (DebounceUpdates 0 (DebounceUpdates 100 sample_mounted)) \<noteq> None"
    by (simp add: schedule_def fp_to_int32_def rat_trunc_def int32_min_def int32_max_def SchedulePaint_def DebounceUpdates_def PausePaint_def
        sample_plugin_defs Let_def case_prod_beta)
  moreover have "pm_jobs (paint_manager sample_mounted) = []" by (simp add: sample_plugin_defs)
  ultimately show ?thesis using DebounceUpdates_stuck [of 100 sample_mounted] by (auto simp: Let_def)
qed

section \<open>Input\<close>

text \<open>The shortcuts the page handles itself: closing and pasting.\<close>

definition reserved_key :: "web_input \<Rightarrow> web_event \<Rightarrow> bool" where
  "reserved_key wi event \<longleftrightarrow> we_modifiers event AND (if is_mac wi then kMetaKey else kControlKey) \<noteq> 0 \<and>
     (we_dom_code event = wi_usb wi US_W \<or> we_dom_code event = wi_usb wi US_V)"

definition input_allowed :: "web_input \<Rightarrow> web_event \<Rightarrow> input_task \<Rightarrow> bool" where
  "input_allowed wi event t \<longleftrightarrow>
     (case t of
        KeyTask e txt code \<Rightarrow> IsKeyboardEventType wi (we_type event) \<and> \<not> reserved_key wi event \<and> txt = we_text event \<and>
          we_type event = (if e = LOK_KEYEVENT_KEYUP then wi_type wi kKeyUp else wi_type wi kRawKeyDown)
      | MouseTask e pos n buttons m \<Rightarrow> \<not> IsKeyboardEventType wi (we_type event) \<and> mouse_event_type wi (we_type event) = Some e \<and>
          n = we_click_count event \<and> 1 \<le> buttons \<and> buttons \<le> 7
      | FocusTask pos \<Rightarrow> False)"

lemma mouse_buttons_le: "0 \<le> mouse_buttons m \<and> mouse_buttons m \<le> 7"
  by (simp add: mouse_buttons_def Let_def)

lemma holder_Post_defined:
  assumes "to_bool st d"
  shows "\<exists>st'. holder_Post t d st = Some st' \<and> dw_tasks st' = dw_tasks st @ [(OwningSequence, t, d\<lparr>deregisters_callback := False\<rparr>)]"
proof -
  have "holder d \<noteq> None" using assms by (cases "holder d") (auto simp: to_bool_def doc_of_def)
  then show ?thesis by (auto simp: holder_Post_def copy_construct_def add_ref_def Let_def)
qed

text \<open>A space that would scroll the page.\<close>

definition space_char :: "web_input \<Rightarrow> web_event \<Rightarrow> bool" where
  "space_char wi event \<longleftrightarrow> we_type event = wi_type wi kChar \<and> we_dom_code event = wi_usb wi DK_SPACE"

text \<open>The events the document is to see.\<close>

definition mouse_position :: "('r, 'f) view_ops \<Rightarrow> web_input \<Rightarrow> web_event \<Rightarrow> ('r, 'p) OfficeWebPlugin \<Rightarrow> fp \<times> fp" where
  "mouse_position vo wi event p = GetRelativeMousePosition wi event (f32_of_int (- rect_x (vo_gfx vo) (available_area p)), Fin 0)"

definition wanted :: "('r, 'f) view_ops \<Rightarrow> web_input \<Rightarrow> web_event \<Rightarrow> ('r, 'p) OfficeWebPlugin \<Rightarrow> bool" where
  "wanted vo wi event p \<longleftrightarrow> \<not> disable_input p \<and> \<not> IsGestureEventType wi (we_type event) \<and>
     (if IsKeyboardEventType wi (we_type event)
      then (we_type event = wi_type wi kRawKeyDown \<or> we_type event = wi_type wi kKeyUp) \<and> \<not> space_char wi event \<and> \<not> reserved_key wi event
      else mouse_event_type wi (we_type event) \<noteq> None \<and> 0 < mouse_buttons (we_modifiers event) \<and>
        vo_Contains vo (available_area p) (vo_ToCeiledPoint vo (mouse_position vo wi event p)))"

definition key_task :: "web_input \<Rightarrow> web_event \<Rightarrow> input_task" where
  "key_task wi event = KeyTask (if we_type event = wi_type wi kKeyUp then LOK_KEYEVENT_KEYUP else LOK_KEYEVENT_KEYINPUT) (we_text event)
     (DOMKeyCodeToLOKKeyCode (wi_usb wi) (we_dom_code event) (if is_mac wi then mac_modifiers (we_modifiers event) else we_modifiers event))"

lemma HandleKeyEvent_cases:
  "HandleKeyEvent wi emb event p st =
     (if \<not> to_bool st (wp_document p) then Some (False, st)
      else if space_char wi event then Some (True, st)
      else if we_type event \<noteq> wi_type wi kRawKeyDown \<and> we_type event \<noteq> wi_type wi kKeyUp then Some (False, st)
      else if reserved_key wi event then Some (False, st)
      else map_option (Pair True) (holder_Post (emb (key_task wi event)) (wp_document p) st))"
  unfolding HandleKeyEvent_def space_char_def reserved_key_def key_task_def Let_def by (rule refl)

lemma HandleKeyEvent_unwanted:
  assumes "we_type event \<noteq> wi_type wi kRawKeyDown \<and> we_type event \<noteq> wi_type wi kKeyUp \<or> space_char wi event \<or> reserved_key wi event \<or>
    \<not> to_bool st (wp_document p)"
  shows "\<exists>handled. HandleKeyEvent wi emb event p st = Some (handled, st)"
proof -
  have "map_option snd (HandleKeyEvent wi emb event p st) = Some st"
    unfolding HandleKeyEvent_cases using assms by (simp split: if_split, blast?)
  then show ?thesis by auto
qed

lemma HandleKeyEvent_wanted:
  assumes d: "to_bool st (wp_document p)" and k: "IsKeyboardEventType wi (we_type event)" "\<not> reserved_key wi event" "\<not> space_char wi event"
    "we_type event = wi_type wi kRawKeyDown \<or> we_type event = wi_type wi kKeyUp"
  shows "\<exists>t st'. HandleKeyEvent wi emb event p st = Some (True, st') \<and> input_allowed wi event t \<and>
    dw_tasks st' = dw_tasks st @ [(OwningSequence, emb t, (wp_document p)\<lparr>deregisters_callback := False\<rparr>)]"
proof -
  have "HandleKeyEvent wi emb event p st = map_option (Pair True) (holder_Post (emb (key_task wi event)) (wp_document p) st)"
    unfolding HandleKeyEvent_cases using d k(2-4) by auto
  moreover have "input_allowed wi event (key_task wi event)" using k by (auto simp: input_allowed_def key_task_def)
  ultimately show ?thesis using holder_Post_defined [OF d, of "emb (key_task wi event)"] by (metis option.simps(9))
qed

lemma HandleMouseEvent_unwanted:
  assumes "mouse_event_type wi type = None \<or> \<not> 0 < mouse_buttons m \<or> \<not> vo_Contains vo (available_area p) (vo_ToCeiledPoint vo pos) \<or> \<not> to_bool st (wp_document p)"
  shows "\<exists>handled. HandleMouseEvent vo wi emb type pos m n p st = Some (handled, st)"
  using assms by (auto simp: HandleMouseEvent_def Let_def split: option.splits)

lemma HandleMouseEvent_wanted:
  assumes d: "to_bool st (wp_document p)" and m: "\<not> IsKeyboardEventType wi (we_type event)" "mouse_event_type wi (we_type event) = Some e"
    "0 < mouse_buttons (we_modifiers event)" "vo_Contains vo (available_area p) (vo_ToCeiledPoint vo pos)"
  shows "\<exists>t st'. HandleMouseEvent vo wi emb (we_type event) pos (we_modifiers event) (GetClickCount event) p st = Some (True, st') \<and>
    input_allowed wi event t \<and> dw_tasks st' = dw_tasks st @ [(OwningSequence, emb t, (wp_document p)\<lparr>deregisters_callback := False\<rparr>)]"
proof -
  define t where "t = MouseTask e (vo_ScaleToRoundedPoint vo (f32_add (fst pos) (Fin 0), f32_add (snd pos) (f32_of_int (wp_scroll_y p)))
    (f32_div kTwipPerPx (TotalScale p))) (GetClickCount event) (mouse_buttons (we_modifiers event)) (EventModifiersToLOKModifiers (we_modifiers event))"
  have "HandleMouseEvent vo wi emb (we_type event) pos (we_modifiers event) (GetClickCount event) p st =
      map_option (Pair True) (holder_Post (emb t) (wp_document p) st)"
    using d m(2-4) by (auto simp: HandleMouseEvent_def Let_def t_def)
  moreover have "input_allowed wi event t"
    using m mouse_buttons_le [of "we_modifiers event"] by (simp add: input_allowed_def t_def GetClickCount_def)
  ultimately show ?thesis using holder_Post_defined [OF d, of "emb t"] by (metis option.simps(9))
qed

text \<open>C32: every input event is answered, and the document sees exactly the events it is to see. An event
  changes only the cursor of the plugin. With a document, a key pressed or released, other than a
  shortcut the page handles itself, and a mouse event with a button down inside the document post
  one task for the event and are reported as handled, unless input is disabled or the event is a
  gesture; every other event posts nothing.\<close>

theorem HandleInputEvent_correct:
  "\<exists>handled st'. HandleInputEvent vo wi emb now css event p st = Some (handled, st', update_cursor now css p) \<and>
     (if to_bool st (wp_document p) \<and> wanted vo wi event p
      then handled \<and> (\<exists>t. input_allowed wi event t \<and>
        dw_tasks st' = dw_tasks st @ [(OwningSequence, emb t, (wp_document p)\<lparr>deregisters_callback := False\<rparr>)])
      else st' = st)"
proof -
  define p1 where "p1 = update_cursor now css p"
  have p1: "disable_input p1 = disable_input p" "wp_document p1 = wp_document p" "available_area p1 = available_area p"
    by (simp_all add: p1_def update_cursor_def)
  consider (off) "disable_input p \<or> IsGestureEventType wi (we_type event)"
    | (key) "\<not> disable_input p" "\<not> IsGestureEventType wi (we_type event)" "IsKeyboardEventType wi (we_type event)"
    | (mouse) "\<not> disable_input p" "\<not> IsGestureEventType wi (we_type event)" "\<not> IsKeyboardEventType wi (we_type event)" by blast
  then show ?thesis
  proof cases
    case off
    then show ?thesis by (auto simp: HandleInputEvent_def Let_def p1 wanted_def simp flip: p1_def)
  next
    case key
    then have run: "HandleInputEvent vo wi emb now css event p st = map_option (\<lambda>(r, st1). (r, st1, p1)) (HandleKeyEvent wi emb event p1 st)"
      by (simp add: HandleInputEvent_def Let_def p1 flip: p1_def)
    show ?thesis
    proof (cases "to_bool st (wp_document p) \<and> wanted vo wi event p")
      case True
      then show ?thesis using HandleKeyEvent_wanted [of st p1 wi event emb] key unfolding run p1_def [symmetric] p1
        by (auto simp: wanted_def)
    next
      case False
      then show ?thesis using HandleKeyEvent_unwanted [of event wi st p1 emb] key unfolding run p1_def [symmetric] p1
        by (auto simp: wanted_def)
    qed
  next
    case mouse
    show ?thesis
    proof (cases "mouse_event_type wi (we_type event)")
      case None
      then show ?thesis using mouse by (auto simp: HandleInputEvent_def Let_def p1 wanted_def simp flip: p1_def)
    next
      case (Some e)
      let ?pos = "mouse_position vo wi event p"
      have run: "HandleInputEvent vo wi emb now css event p st = map_option (\<lambda>(r, st1). (r, st1, p1))
          (HandleMouseEvent vo wi emb (we_type event) ?pos (we_modifiers event) (GetClickCount event) p1 st)"
        using mouse Some by (simp add: HandleInputEvent_def Let_def p1 mouse_position_def flip: p1_def)
      show ?thesis
      proof (cases "to_bool st (wp_document p) \<and> wanted vo wi event p")
        case True
        then show ?thesis using HandleMouseEvent_wanted [of st p1 wi event e vo ?pos emb] mouse Some unfolding run p1_def [symmetric] p1
          by (auto simp: wanted_def)
      next
        case False
        then show ?thesis
          using HandleMouseEvent_unwanted [of wi "we_type event" "we_modifiers event" vo p1 ?pos st emb "GetClickCount event"] mouse Some
          unfolding run p1_def [symmetric] p1 by (auto simp: wanted_def)
      qed
    qed
  qed
qed

end
