(* ===== verification/Plugin_Transfer.thy ===== *)
theory Plugin_Transfer
  imports Plugin_Properties
begin

text \<open>
  The life of a plugin's rendering state: what a destroyed plugin leaves with its document client,
  what the next plugin takes over when it renders the document with the restore key, how often the
  client is mounted, and what is left registered with the office.
\<close>

section \<open>Steps of rendering\<close>

lemma ResumePaint_tile_buffer:
  "\<exists>h. pm_tile_buffer (ResumePaint hs next pm) = map_option (SetActiveContext h) (pm_tile_buffer pm)"
proof -
  have id: "\<exists>h. tb = map_option (SetActiveContext h) tb" for tb :: "'p TileBuffer option"
    by (cases tb) (auto simp: SetActiveContext_def intro: exI [of _ "active_context_hash (the tb)"])
  have "\<exists>h. pm_tile_buffer (PostCurrentTask hs q) = map_option (SetActiveContext h) (pm_tile_buffer q)" for q :: "'p PaintManager"
    using id [of "pm_tile_buffer q"] by (auto simp: PostCurrentTask_def Let_def split: option.splits)
  from this [of "pm\<lparr>skip_render := False\<rparr>"] this [of "pm\<lparr>skip_render := False, current_task := next_task pm, next_task := None\<rparr>"] id [of "pm_tile_buffer pm"]
  show ?thesis by (auto simp: ResumePaint_def Let_def split: option.split)
qed

lemma Mount_frame:
  assumes "Mount lok sz Rect Rect0 wrapper isolate ctx c st = Some (b, c', st')"
  shows "tile_buffers_to_restore c' = tile_buffers_to_restore c" "document_holder c' = document_holder c"
    "mount_counter c' = int32 (mount_counter c + 1)" "dw_doc st' = dw_doc st"
proof -
  have lok: "dw_doc st2 = dw_doc st1" if "lok_call lok d f st1 = Some (r, st2)" for d f st1 r st2
    using that by (auto simp: lok_call_def deref_def SetAsCurrentView_def bind_eq_Some_conv case_prod_beta split: if_splits)
  show "tile_buffers_to_restore c' = tile_buffers_to_restore c" "document_holder c' = document_holder c"
    "mount_counter c' = int32 (mount_counter c + 1)" "dw_doc st' = dw_doc st"
    using assms
    by (auto simp: Mount_def RefreshSize_def GetNumberOfPages_def AtomicRefCount_Increment_def Let_def bind_eq_Some_conv
        dest!: lok split: if_splits option.splits)
qed

text \<open>Taking a reference of an existing document in place of a handle without one.\<close>

lemma take_document:
  assumes "\<not> to_bool st d" "to_bool st e"
  shows "to_bool (snd (snd (move_assign d (fst (copy_construct e st)) (snd (copy_construct e st))))) e"
    "holder (fst (move_assign d (fst (copy_construct e st)) (snd (copy_construct e st)))) = holder e"
    "view_id (fst (move_assign d (fst (copy_construct e st)) (snd (copy_construct e st)))) = view_id e"
proof -
  obtain a where a: "holder e = Some a" "dw_doc st a \<noteq> None" using assms(2) by (cases "holder e") (auto simp: to_bool_def doc_of_def)
  have "holder d \<noteq> Some a" using assms(1) a by (auto simp: to_bool_def doc_of_def)
  then show "to_bool (snd (snd (move_assign d (fst (copy_construct e st)) (snd (copy_construct e st))))) e"
    using a by (auto simp: move_assign_def copy_construct_def add_ref_def release_def to_bool_def doc_of_def Let_def split: option.split)
qed (simp_all add: move_assign_def copy_construct_def)

lemma to_bool_cong: "holder d = holder e \<Longrightarrow> dw_doc st = dw_doc st' \<Longrightarrow> to_bool st d = to_bool st' e"
  by (simp add: to_bool_def doc_of_def)

section \<open>Taking over\<close>

definition restore_options :: "nat \<Rightarrow> render_options option" where
  "restore_options key = Some \<lparr>ro_zoom = None, ro_disable_input = None, ro_restore_key = Some key\<rparr>"

text \<open>Mounting the client is defined as long as its document exists.\<close>

definition mountable :: "('r, 'w) render_env \<Rightarrow> ('r, 'f) view_ops \<Rightarrow> ('s, 'j, 'r, 'p) DocumentClient \<Rightarrow> ('w, 'c) DocWorld itself \<Rightarrow> bool" where
  "mountable env vo c (_ :: ('w, 'c) DocWorld itself) \<longleftrightarrow>
     (\<forall>(c' :: ('s, 'j, 'r, 'p) DocumentClient) (st :: ('w, 'c) DocWorld).
        document_holder c' = document_holder c \<longrightarrow> mount_counter c' = mount_counter c \<longrightarrow> to_bool st (document_holder c) \<longrightarrow>
        Mount (re_lok env) (re_size env) (vo_Rect vo) (vo_Rect0 vo) (re_wrapper env) (re_isolate env) (re_context env) c' st \<noteq> None)"

text \<open>What a plugin has after it took over \<open>t\<close> from the client at \<open>a\<close>.\<close>

definition took_over :: "('r, 'p) RendererTransferable \<Rightarrow> nat \<Rightarrow> ('r, 'p) OfficeWebPlugin \<Rightarrow> ('r, 'p) OfficeWebPlugin \<Rightarrow> bool" where
  "took_over t a q q' \<longleftrightarrow>
     (\<exists>h. tile_buffer q' = map_option (SetActiveContext h) (tile_buffer (take_over t q))) \<and> wp_snapshot q' = rt_snapshot t \<and>
     page_rects_cached q' = rt_page_rects t \<and> first_intersect q' = rt_first_intersect t \<and> last_intersect q' = rt_last_intersect t \<and>
     last_cursor_rect q' = rt_last_cursor_rect t \<and> wp_zoom q' = wp_zoom (take_over t q) \<and>
     wp_scroll_y q' = int32 (uint (scroll_y_position (rt_snapshot t))) \<and> wp_document_client q' = Some a"

lemma RenderDocument_restoring:
  fixes c :: "('s, 'j, 'r, 'p) DocumentClient" and st :: "('w, 'c) DocWorld"
  assumes cs: "cs a = Some c" and q: "\<not> to_bool st (wp_document q)" and doc: "to_bool st (document_holder c)"
    and m: "mountable env vo c TYPE(('w, 'c) DocWorld)" and t: "GetRestoredRenderer (re_mem env) key c = (t, c1)"
  shows "\<exists>cs' st' oi' q' c2. RenderDocument env hs vo ol (Some a) (restore_options key) cs st oi q =
      Some (Some (restore_key q), cs', st', oi', q') \<and> cs' a = Some c2 \<and>
    tile_buffers_to_restore c2 = tile_buffers_to_restore c1 \<and> took_over t a q q'"
proof -
  obtain d tmp st1 where move: "move_assign (wp_document q) (fst (copy_construct (document_holder c) st)) (snd (copy_construct (document_holder c) st)) = (d, tmp, st1)"
    by (metis prod.collapse)
  note td = take_document [OF q doc, unfolded move fst_conv snd_conv]
  have c1: "document_holder c1 = document_holder c" "mount_counter c1 = mount_counter c"
    using t by (auto simp: GetRestoredRenderer_def split: option.splits)
  then obtain b c2 st2 where mnt: "Mount (re_lok env) (re_size env) (vo_Rect vo) (vo_Rect0 vo) (re_wrapper env) (re_isolate env) (re_context env) c1 st1 = Some (b, c2, st2)"
    using m td(1) unfolding mountable_def by fastforce
  have d: "to_bool st1 d" using td(1) by (simp only: to_bool_cong [OF td(2) refl])
  define q1 where "q1 = take_over t (q\<lparr>wp_document := d, wp_document_client := Some a\<rparr>)"
  define q2 where "q2 = post_plugin_task (TaskOnGeometryChanged (viewport_zoom q) (device_scale q))
    (q1\<lparr>wp_scroll_y := int32 (uint (scroll_y_position (wp_snapshot q1))), registered_observers := True\<rparr>)"
  define q3 where "q3 = q2\<lparr>paint_manager := ResumePaint hs True (paint_manager q2)\<rparr>"
  define q' where "q' = post_plugin_task (TaskUpdateScroll (wp_scroll_y q3)) q3"
  have "RenderDocument env hs vo ol (Some a) (restore_options key) cs st oi q =
      Some (Some (restore_key q), cs(a \<mapsto> c2), st2, fold (\<lambda>t. holder_AddDocumentObserver ol st2 d (re_code env t) (wp_self q)) plugin_monitors oi, q')"
    using cs q d t mnt move
    by (simp add: RenderDocument_def render_held_def restore_from_def after_render_def restore_options_def apply_options_def GetDocument_def
        case_prod_beta set_view_def q'_def q3_def q2_def q1_def post_plugin_task_def take_over_def Let_def)
  moreover have "took_over t a q q'"
  proof -
    have "tile_buffer q2 = tile_buffer (take_over t q)"
      by (simp add: q2_def q1_def post_plugin_task_def take_over_def Let_def split: option.split)
    moreover have "tile_buffer q' = pm_tile_buffer (ResumePaint hs True (paint_manager q2))" by (simp add: q'_def q3_def post_plugin_task_def)
    ultimately show ?thesis
      using ResumePaint_tile_buffer [of hs True "paint_manager q2"] unfolding took_over_def
      by (simp add: q'_def q3_def q2_def q1_def post_plugin_task_def take_over_def Let_def)
  qed
  ultimately show ?thesis using Mount_frame(1) [OF mnt] by fastforce
qed

text \<open>C30: a plugin that is destroyed and rendered again goes on where it was. Destroy leaves the rendering
  state with the document client; a new plugin that renders the document with the restore key of
  the old one has its tiles, snapshot, pages, cursor and zoom and the scroll position of the
  snapshot, and the state is taken only once.\<close>

theorem RenderDocument_restores:
  fixes c :: "('s, 'j, 'r, 'p) DocumentClient" and st1 :: "('w, 'c) DocWorld"
  assumes old: "wp_document_client p = Some a" "cs a = Some c" "tile_buffer p = Some tb" "\<not> TileBuffer_IsEmpty tb" "fp_less (Fin 0) (wp_zoom p)"
    and destroyed: "Destroy lok ol cs st oi p = Some (cs1, st1, oi1)"
    and new: "\<not> to_bool st1 (wp_document q)" "to_bool st1 (document_holder c)" "mountable env vo (snd (Unmount c)) TYPE(('w, 'c) DocWorld)"
  shows "\<exists>cs2 st2 oi2 q' c2. RenderDocument env hs vo ol (Some a) (restore_options (restore_key p)) cs1 st1 oi1 q =
      Some (Some (restore_key q), cs2, st2, oi2, q') \<and> cs2 a = Some c2 \<and> tile_buffers_to_restore c2 (restore_key p) = None \<and>
    (\<exists>h. tile_buffer q' = Some (SetActiveContext h tb)) \<and> wp_snapshot q' = wp_snapshot p \<and> page_rects_cached q' = page_rects_cached p \<and>
    first_intersect q' = first_intersect p \<and> last_intersect q' = last_intersect p \<and> last_cursor_rect q' = last_cursor_rect p \<and>
    wp_zoom q' = wp_zoom p \<and> wp_scroll_y q' = int32 (uint (scroll_y_position (wp_snapshot p)))"
proof -
  define p' where "p' = p\<lparr>paint_manager := OnDestroy (paint_manager p)\<rparr>"
  define c1 where "c1 = MarkRendererWillRemount (restore_key p) (transferable p') (snd (Unmount c))"
  define c2 where "c2 = c1\<lparr>tile_buffers_to_restore := (tile_buffers_to_restore c1)(restore_key p := None)\<rparr>"
  have "cs1 = cs(a \<mapsto> c1)" using destroyed old(1,2) by (auto simp: Destroy_def Let_def c1_def p'_def)
  then have at: "cs1 a = Some c1" by simp
  have same: "document_holder c1 = document_holder c" "mount_counter c1 = mount_counter (snd (Unmount c))" "document_holder (snd (Unmount c)) = document_holder c"
    by (simp_all add: c1_def MarkRendererWillRemount_def Unmount_def Let_def case_prod_beta)
  have mnt: "mountable env vo c1 TYPE(('w, 'c) DocWorld)" using new(3) by (simp add: mountable_def same)
  have got: "GetRestoredRenderer (re_mem env) (restore_key p) c1 = (transferable p', c2)"
    by (simp add: GetRestoredRenderer_def c1_def MarkRendererWillRemount_def c2_def)
  have tb: "tile_buffer p' = Some tb" using old(3) by (simp add: p'_def OnDestroy_def case_prod_beta)
  have take: "tile_buffer (take_over (transferable p') q) = Some tb" "wp_zoom (take_over (transferable p') q) = wp_zoom p"
    using tb old(4,5) by (simp_all add: take_over_def transferable_def Let_def p'_def)
  show ?thesis
    using RenderDocument_restoring [where cs = cs1 and a = a and c = c1, OF at new(1) new(2) [folded same(1)] mnt got, of hs ol oi1] take
    unfolding took_over_def by (fastforce simp: transferable_def p'_def c2_def)
qed

text \<open>A restore key the client does not know leaves the plugin without tiles. Rendering reports
  success, but the tile buffer is the plugin's own, never resized to the document, so that an
  empty one stays empty and every later scroll is ignored; and the zoom becomes whatever positive
  value the memory of the transferable held.\<close>

theorem RenderDocument_unknown_key:
  fixes c :: "('s, 'j, 'r, 'p) DocumentClient" and st :: "('w, 'c) DocWorld"
  assumes "cs a = Some c" "\<not> to_bool st (wp_document q)" "to_bool st (document_holder c)" "mountable env vo c TYPE(('w, 'c) DocWorld)"
    and key: "tile_buffers_to_restore c key = None" and empty: "tile_buffer q = Some tb" "TileBuffer_IsEmpty tb"
  shows "\<exists>cs' st' oi' q'. RenderDocument env hs vo ol (Some a) (restore_options key) cs st oi q =
      Some (Some (restore_key q), cs', st', oi', q') \<and>
    (\<exists>tb'. tile_buffer q' = Some tb' \<and> TileBuffer_IsEmpty tb') \<and> UpdateScroll hs vo cs' st' y q' = Some q' \<and>
    wp_zoom q' = (if fp_less (Fin 0) (re_mem env) then re_mem env else wp_zoom q)"
proof -
  let ?t = "RendererTransferable_default (re_mem env) :: ('r, 'p) RendererTransferable"
  have got: "GetRestoredRenderer (re_mem env) key c = (?t, c)" using key by (simp add: GetRestoredRenderer_def)
  obtain cs' st' oi' q' where run: "RenderDocument env hs vo ol (Some a) (restore_options key) cs st oi q =
      Some (Some (restore_key q), cs', st', oi', q')" and t: "took_over ?t a q q'"
    using RenderDocument_restoring [where cs = cs and a = a and c = c, OF assms(1-4) got] by blast
  have "tile_buffer (take_over ?t q) = Some tb" "wp_zoom (take_over ?t q) = (if fp_less (Fin 0) (re_mem env) then re_mem env else wp_zoom q)"
    using empty(1) by (simp_all add: take_over_def RendererTransferable_default_def Let_def)
  then obtain tb' where tb': "tile_buffer q' = Some tb'" "TileBuffer_IsEmpty tb'"
    and zoom: "wp_zoom q' = (if fp_less (Fin 0) (re_mem env) then re_mem env else wp_zoom q)"
    using t empty(2) by (auto simp: took_over_def TileBuffer_IsEmpty_def SetActiveContext_def)
  have "UpdateScroll hs vo cs' st' y q' = Some q'" using tb' by (simp add: UpdateScroll_def split: option.split)
  then show ?thesis using run tb' zoom by blast
qed

text \<open>The sample document with two more plugins that show it.\<close>

definition sample_env :: "(sample_rect, int list \<times> (nat \<times> int) option list) render_env" where
  "sample_env = \<lparr>re_code = sample_code, re_lok = sample_lok, re_size = sample_size, re_commands = sample_commands,
     re_wrapper = Some 1, re_isolate = 0, re_context = 0, re_mem = Fin 0\<rparr>"

definition sample_shared :: "(int list \<times> (nat \<times> int) option list, unit) DocWorld" where
  "sample_shared = sample_world\<lparr>dw_refs := (\<lambda>_. 0)(0 := 3)\<rparr>"

definition sample_clients :: "(unit, unit, sample_rect, unit) clients" where
  "sample_clients = [3 \<mapsto> sample_page\<lparr>mount_counter := 2\<rparr>]"

lemma mountable_counter: "mount_counter c \<noteq> 0 \<Longrightarrow> mountable env vo c T"
  by (simp add: mountable_def Mount_def AtomicRefCount_Increment_def)

lemma sample_unmount: "mount_counter (snd (Unmount (sample_page\<lparr>mount_counter := 2\<rparr>))) = 1"
  by (simp add: Unmount_def AtomicRefCount_Decrement_def int32_def Let_def)

lemma sample_no_document: "\<not> to_bool st (wp_document sample_plugin)"
  by (simp add: to_bool_def doc_of_def sample_plugin_defs DocumentHolderWithView_default_def)

theorem RenderDocument_restores_witness:
  "\<exists>cs1 st1 oi1 cs2 st2 oi2 q' h. Destroy sample_lok sample_list sample_clients sample_shared (OfficeInstance_init sample_list) sample_mounted = Some (cs1, st1, oi1) \<and>
     RenderDocument sample_env sample_hashes sample_view sample_list (Some 3) (restore_options 5) cs1 st1 oi1 sample_plugin = Some (Some 5, cs2, st2, oi2, q') \<and>
     tile_buffer q' = Some (SetActiveContext h (sample_buffer ()))"
proof -
  have key: "restore_key sample_mounted = 5" "restore_key sample_plugin = 5" by (simp_all add: sample_plugin_defs)
  have old: "wp_document_client sample_mounted = Some 3" "sample_clients 3 = Some (sample_page\<lparr>mount_counter := 2\<rparr>)"
    "tile_buffer sample_mounted = Some (sample_buffer ())" "\<not> TileBuffer_IsEmpty (sample_buffer ())" "fp_less (Fin 0) (wp_zoom sample_mounted)"
    by (simp_all add: sample_plugin_defs sample_clients_def TileBuffer_IsEmpty_def sample_buffer_def)
  obtain cs1 oi1 where d: "Destroy sample_lok sample_list sample_clients sample_shared (OfficeInstance_init sample_list) sample_mounted =
      Some (cs1, sample_world\<lparr>dw_refs := (\<lambda>_. 0)(0 := 2)\<rparr>, oi1)"
    by (simp add: Destroy_def destroy_def sample_plugin_defs sample_shared_def sample_world_def release_def Let_def)
  have doc: "to_bool (sample_world\<lparr>dw_refs := (\<lambda>_. 0)(0 := 2)\<rparr>) (document_holder (sample_page\<lparr>mount_counter := 2\<rparr>))"
    by (simp add: to_bool_def doc_of_def sample_world_def sample_plugin_defs)
  have "mountable sample_env sample_view (snd (Unmount (sample_page\<lparr>mount_counter := 2\<rparr>))) TYPE((int list \<times> (nat \<times> int) option list, unit) DocWorld)"
    by (rule mountable_counter) (simp add: sample_unmount)
  from RenderDocument_restores [where cs = sample_clients, OF old d sample_no_document doc this, of sample_hashes] d show ?thesis
    unfolding key by blast
qed

theorem RenderDocument_unknown_key_witness:
  "\<exists>cs' st' oi' q'. RenderDocument sample_env sample_hashes sample_view sample_list (Some 3) (restore_options 9)
       sample_clients sample_shared (OfficeInstance_init sample_list)
       (set_tile_buffer (TileBuffer_init ()) sample_plugin) = Some (Some 5, cs', st', oi', q') \<and>
     UpdateScroll sample_hashes sample_view cs' st' 300 q' = Some q'"
proof -
  let ?q = "set_tile_buffer (TileBuffer_init ()) sample_plugin"
  have q: "\<not> to_bool sample_shared (wp_document ?q)" "restore_key ?q = 5" "tile_buffer ?q = Some (TileBuffer_init ())"
    using sample_no_document [of sample_shared] by (simp_all add: set_tile_buffer_def) (simp add: sample_plugin_defs)
  have c: "sample_clients 3 = Some (sample_page\<lparr>mount_counter := 2\<rparr>)" "to_bool sample_shared (document_holder (sample_page\<lparr>mount_counter := 2\<rparr>))"
    "tile_buffers_to_restore (sample_page\<lparr>mount_counter := 2\<rparr>) 9 = None"
    by (simp_all add: sample_clients_def to_bool_def doc_of_def sample_shared_def sample_world_def sample_plugin_defs)
  have e: "TileBuffer_IsEmpty (TileBuffer_init ())" by (simp add: TileBuffer_IsEmpty_def TileBuffer_init_def)
  have "mountable sample_env sample_view (sample_page\<lparr>mount_counter := 2\<rparr>) TYPE((int list \<times> (nat \<times> int) option list, unit) DocWorld)"
    by (rule mountable_counter) simp
  from RenderDocument_unknown_key [where cs = sample_clients, OF c(1) q(1) c(2) this c(3) q(3) e, of sample_hashes sample_list "OfficeInstance_init sample_list" 300]
  show ?thesis unfolding q(2) by blast
qed

section \<open>Mounts\<close>

text \<open>The document a plugin shows and its identity, which most steps leave alone.\<close>

definition plugin_doc :: "('r, 'p) OfficeWebPlugin \<Rightarrow> DocumentHolderWithView \<times> nat option \<times> observer" where
  "plugin_doc p = (wp_document p, wp_document_client p, wp_self p)"

lemma plugin_doc_steps:
  "on_tile_buffer f p = Some q \<Longrightarrow> plugin_doc q = plugin_doc p" "plugin_doc (take_over t p) = plugin_doc p"
  "plugin_doc (fst (restore_from mem r c p)) = plugin_doc p" "plugin_doc (post_plugin_task tk p) = plugin_doc p"
  "plugin_doc (after_render hs b1 b2 p) = plugin_doc p" "apply_options opts p = Some q \<Longrightarrow> plugin_doc q = plugin_doc p"
  by (auto simp: plugin_doc_def on_tile_buffer_def set_tile_buffer_def take_over_def restore_from_def post_plugin_task_def after_render_def
      apply_options_def Let_def case_prod_beta bind_eq_Some_conv split: option.splits)

lemma plugin_doc_set_view: "set_view b c p = Some q \<Longrightarrow> plugin_doc q = plugin_doc p"
  by (auto simp: set_view_def Let_def bind_eq_Some_conv case_prod_beta split: if_splits dest!: plugin_doc_steps(1)) (simp_all add: plugin_doc_def)

lemma restore_from_client:
  "mount_counter (snd (restore_from mem r c p)) = mount_counter c" "document_holder (snd (restore_from mem r c p)) = document_holder c"
  by (auto simp: restore_from_def GetRestoredRenderer_def Let_def split: option.splits)

lemma lok_call_doc: "lok_call lok d f st = Some (r, st') \<Longrightarrow> dw_doc st' = dw_doc st"
  by (auto simp: lok_call_def deref_def SetAsCurrentView_def bind_eq_Some_conv case_prod_beta split: if_splits)

lemma render_held_steps:
  assumes "render_held env hs vo ol a rs r cs st oi p = Some (k, cs', st', oi', p')" "cs a = Some c"
  shows "\<exists>c'. cs' a = Some c' \<and> mount_counter c' = int32 (mount_counter c + 1) \<and> document_holder c' = document_holder c \<and>
    plugin_doc p' = plugin_doc p \<and> registered_observers p' \<and> dw_doc st' = dw_doc st \<and>
    oi' = fold (\<lambda>t. holder_AddDocumentObserver ol st' (wp_document p) (re_code env t) (wp_self p)) plugin_monitors oi"
proof -
  let ?p4 = "\<lambda>p3. (if rs then post_plugin_task (TaskOnViewportChanged (css_plugin_rect p3) (device_scale p3)) (p3\<lparr>device_scale := Fin 0\<rparr>) else p3)"
  note run = assms(1) [unfolded render_held_def case_prod_beta Let_def]
  obtain p1 where p1: "(if rs then on_tile_buffer InvalidateAllTiles (p\<lparr>first_paint := True\<rparr>) else Some p) = Some p1"
    using run by (auto simp only: bind_eq_Some_conv)
  note run = run [unfolded p1 assms(2) Option.bind_lunit]
  obtain b c2 st1 where mnt: "Mount (re_lok env) (re_size env) (vo_Rect vo) (vo_Rect0 vo) (re_wrapper env) (re_isolate env) (re_context env)
      (snd (restore_from (re_mem env) r c p1)) st = Some (b, c2, st1)"
    using run by (auto simp only: bind_eq_Some_conv split_paired_Ex)
  note run = run [unfolded mnt Option.bind_lunit fst_conv snd_conv]
  obtain p3 where p3: "set_view (r \<noteq> None) c2 (fst (restore_from (re_mem env) r c p1)) = Some p3"
    using run by (auto simp only: bind_eq_Some_conv)
  note run = run [unfolded p3 Option.bind_lunit]
  have cs': "cs' = cs(a \<mapsto> c2)" and p': "p' = after_render hs rs (r \<noteq> None) ((?p4 p3)\<lparr>registered_observers := True\<rparr>)"
    and st2: "(if r = None then map_option snd (lok_call (re_lok env) (wp_document (?p4 p3)) (lok_resetSelection (re_commands env)) st1) else Some st1) = Some st'"
    and oi': "oi' = fold (\<lambda>t. holder_AddDocumentObserver ol st' (wp_document (?p4 p3)) (re_code env t) (wp_self (?p4 p3))) plugin_monitors oi"
    using run by (auto simp only: bind_eq_Some_conv option.inject prod.inject)
  have p4: "plugin_doc (?p4 p3) = plugin_doc p3" "plugin_doc ((?p4 p3)\<lparr>registered_observers := True\<rparr>) = plugin_doc p3"
    by (simp_all add: plugin_doc_def post_plugin_task_def)
  have "plugin_doc p1 = plugin_doc p" using p1 by (cases rs) (auto dest!: plugin_doc_steps(1) simp: plugin_doc_def)
  then have p3': "plugin_doc p3 = plugin_doc p" using plugin_doc_set_view [OF p3] by (simp add: plugin_doc_steps(3))
  moreover have "plugin_doc p' = plugin_doc p3" unfolding p' plugin_doc_steps(5) by (rule p4)
  moreover have "registered_observers p'" unfolding p' by (simp add: after_render_def post_plugin_task_def Let_def)
  moreover have "dw_doc st' = dw_doc st" using st2 Mount_frame(4) [OF mnt] by (auto dest!: lok_call_doc split: if_splits)
  moreover have "wp_document (?p4 p3) = wp_document p" "wp_self (?p4 p3) = wp_self p" using p4(1) p3' by (simp_all add: plugin_doc_def)
  ultimately show ?thesis using Mount_frame(2,3) [OF mnt] cs' oi' by (simp add: restore_from_client)
qed

lemma RenderDocument_mounts:
  assumes run: "RenderDocument env hs vo ol (Some a) opts cs st oi p = Some (Some k, cs', st', oi', p')"
    and c: "cs a = Some c" and same: "\<not> to_bool st (wp_document p) \<or> dh_eq (wp_document p) (document_holder c)"
  shows "\<exists>c'. cs' a = Some c' \<and> mount_counter c' = int32 (mount_counter c + 1) \<and> document_holder c' = document_holder c \<and>
    wp_document_client p' = Some a \<and> dh_eq (wp_document p') (document_holder c)"
proof -
  obtain p1 where p1: "apply_options opts p = Some p1" using run c by (auto simp: RenderDocument_def bind_eq_Some_conv)
  have d1: "wp_document p1 = wp_document p" using plugin_doc_steps(6) [OF p1] by (simp add: plugin_doc_def)
  obtain d tmp st1 where move: "move_assign (wp_document p) (fst (copy_construct (document_holder c) st)) (snd (copy_construct (document_holder c) st)) = (d, tmp, st1)"
    by (metis prod.collapse)
  have d: "dh_eq d (document_holder c)" using move by (auto simp: move_assign_def copy_construct_def dh_eq_def)
  have no_reset: "(to_bool st (wp_document p) \<and> \<not> dh_eq (wp_document p) (document_holder c)) = False" using same by blast
  obtain r oi1 where "render_held env hs vo ol a False r cs st1 oi1 (p1\<lparr>wp_document := d, wp_document_client := Some a\<rparr>) = Some (Some k, cs', st', oi', p')"
    using run c p1 move unfolding RenderDocument_def option.case GetDocument_def Let_def case_prod_beta
    by (simp only: Option.bind_lunit d1 no_reset fst_conv snd_conv bool.case prod.case option.inject prod.inject split: if_splits) auto
  from render_held_steps [OF this c] d show ?thesis by (auto simp: plugin_doc_def)
qed

lemma Destroy_unmounts:
  assumes "Destroy lok ol cs st oi p = Some (cs', st', oi')" "wp_document_client p = Some a" "cs a = Some c"
  shows "\<exists>c'. cs' a = Some c' \<and> mount_counter c' = int32 (mount_counter c - 1)"
  using assms
  by (auto simp: Destroy_def Let_def MarkRendererWillRemount_def Unmount_def AtomicRefCount_Decrement_def case_prod_beta)

text \<open>Rendering the document a plugin already shows leaks a mount. The call mounts the client again
  and, since the document is the same, does not unmount it first; destroying the plugin unmounts
  once, so that the client is left with as many mounts as before, one of them for a plugin that
  does not exist any more. Without the second rendering the plugin's mount goes away with it.\<close>

theorem RenderDocument_mount_leak:
  assumes c: "cs a = Some c" "0 \<le> mount_counter c" "mount_counter c < int32_max" and shown: "dh_eq (wp_document p) (document_holder c)"
    and again: "RenderDocument env hs vo ol (Some a) opts cs st oi p = Some (Some k, cs1, st1, oi1, p1)"
    and gone: "Destroy lok ol cs1 st1 oi1 p1 = Some (cs2, st2, oi2)"
    and alone: "wp_document_client p = Some a" "Destroy lok ol cs st oi p = Some (cs3, st3, oi3)"
  shows "(\<exists>c2. cs2 a = Some c2 \<and> mount_counter c2 = mount_counter c) \<and> (\<exists>c3. cs3 a = Some c3 \<and> mount_counter c3 = mount_counter c - 1)"
proof -
  obtain c1 where c1: "cs1 a = Some c1" "mount_counter c1 = int32 (mount_counter c + 1)" "wp_document_client p1 = Some a"
    using RenderDocument_mounts [OF again c(1)] shown by blast
  have "int32 (mount_counter c + 1) = mount_counter c + 1" "int32 (mount_counter c) = mount_counter c" "int32 (mount_counter c - 1) = mount_counter c - 1"
    using c(2,3) by (auto intro!: int32_id simp: int32_min_def int32_max_def)
  then show ?thesis using Destroy_unmounts [OF gone c1(3,1)] Destroy_unmounts [OF alone(2,1) c(1)] c1(2) by auto
qed

section \<open>Registration\<close>

text \<open>A plugin is registered only with the document it shows.\<close>

definition own_document :: "'l observer_list \<Rightarrow> ('w, 'c) DocWorld \<Rightarrow> 'l OfficeInstance \<Rightarrow> ('r, 'p) OfficeWebPlugin \<Rightarrow> bool" where
  "own_document ol st oi p \<longleftrightarrow>
     (\<forall>i. wp_self p \<in> registered ol oi i \<longrightarrow>
        registered_observers p \<and> to_bool st (wp_document p) \<and> document_id i = PtrToId st (wp_document p))"

lemma add_observers:
  assumes "observer_list_ok ol" "registry_ok oi"
  shows "registry_ok (fold (\<lambda>t. holder_AddDocumentObserver ol st d (code t) x) ts oi) \<and>
    registered ol (fold (\<lambda>t. holder_AddDocumentObserver ol st d (code t) x) ts oi) i \<subseteq>
      registered ol oi i \<union> (if document_id i = PtrToId st d then {x} else {}) \<and>
    registered ol oi i \<subseteq> registered ol (fold (\<lambda>t. holder_AddDocumentObserver ol st d (code t) x) ts oi) i"
  using assms
proof (induction ts arbitrary: oi)
  case (Cons t ts)
  let ?oi = "holder_AddDocumentObserver ol st d (code t) x oi"
  have ok: "registry_ok ?oi" using reg.ok_add [of ol oi] Cons.prems by (simp add: holder_AddDocumentObserver_def)
  have "registered ol ?oi i \<subseteq> registered ol oi i \<union> (if document_id i = PtrToId st d then {x} else {})" "registered ol oi i \<subseteq> registered ol ?oi i"
    using reg.who_add [of ol oi] Cons.prems by (auto simp: holder_AddDocumentObserver_def)
  then show ?case using Cons.IH [OF Cons.prems(1) ok] by (cases "document_id i = PtrToId st d") (simp_all, blast+)
qed simp

lemma remove_observers:
  assumes "observer_list_ok ol" "registry_ok oi"
  shows "registry_ok (holder_RemoveDocumentObservers_of ol st d x oi)"
    "registered ol (holder_RemoveDocumentObservers_of ol st d x oi) i = registered ol oi i - (if document_id i = PtrToId st d then {x} else {})"
  using reg.ok_del_doc_of [of ol oi] reg.who_del_doc_of [of ol oi] assms by (simp_all add: holder_RemoveDocumentObservers_of_def)

lemma RenderDocument_branches:
  assumes run: "RenderDocument env hs vo ol (Some a) opts cs st oi p = Some (r, cs', st', oi', p')"
  obtains (none) "oi' = (if registered_observers p \<and> to_bool st (wp_document p)
      then holder_RemoveDocumentObservers_of ol st (wp_document p) (wp_self p) oi else oi)" "wp_self p' = wp_self p"
  | (held) rs rst cs1 st1 c p2 where "render_held env hs vo ol a rs rst cs1 st1 (if registered_observers p \<and> to_bool st (wp_document p)
      then holder_RemoveDocumentObservers_of ol st (wp_document p) (wp_self p) oi else oi) p2 = Some (r, cs', st', oi', p')"
    "cs1 a = Some c" "wp_self p2 = wp_self p" "to_bool st1 (wp_document p2)"
proof -
  obtain c p1 where c: "cs a = Some c" and p1: "apply_options opts p = Some p1" using run by (auto simp: RenderDocument_def bind_eq_Some_conv)
  have same: "wp_document p1 = wp_document p" "wp_self p1 = wp_self p" "registered_observers p1 = registered_observers p"
    using p1 by (auto simp: apply_options_def bind_eq_Some_conv split: option.splits)
  note run = run [unfolded RenderDocument_def option.case c p1 Option.bind_lunit Let_def case_prod_beta same]
  define st2 where "st2 = snd (snd (move_assign (wp_document p) (fst (GetDocument c st)) (snd (GetDocument c st))))"
  define p2 where "p2 = p1\<lparr>wp_document := fst (move_assign (wp_document p) (fst (GetDocument c st)) (snd (GetDocument c st))), wp_document_client := Some a\<rparr>"
  note run = run [folded st2_def p2_def]
  have p2: "wp_self p2 = wp_self p" by (simp add: p2_def same)
  show thesis
  proof (cases "to_bool st2 (wp_document p2)")
    case False
    then show thesis using run p2 none by (auto simp only: not_False_eq_True if_True option.inject prod.inject)
  next
    case True
    then have "(\<not> to_bool st2 (wp_document p2)) = False" by simp
    note run = run [unfolded this if_False]
    from run obtain c1 where "(case fst (to_bool st (wp_document p) \<and> \<not> dh_eq (wp_document p) (document_holder c), wp_document_client p1) of
        True \<Rightarrow> case snd (to_bool st (wp_document p) \<and> \<not> dh_eq (wp_document p) (document_holder c), wp_document_client p1) of
          None \<Rightarrow> cs | Some b \<Rightarrow> case cs b of None \<Rightarrow> cs | Some d \<Rightarrow> cs(b \<mapsto> snd (Unmount d))
      | False \<Rightarrow> cs) a = Some c1"
      unfolding render_held_def by (auto simp only: bind_eq_Some_conv)
    from held [OF run this p2 True] show thesis .
  qed
qed

text \<open>C31: a plugin is registered only with the document it shows. Rendering a document, also another one
  and also when it fails, keeps this: the registrations for the former document are removed first.
  A plugin for which it holds and that is destroyed is not called back any more, neither for a
  document nor at the end of the office, and no other observer loses a registration.\<close>

theorem plugin_registration:
  assumes ok: "observer_list_ok ol" "registry_ok oi" and own: "own_document ol st oi p"
  shows "(\<forall>r cs' st' oi' p'. RenderDocument env hs vo ol client opts cs st oi p = Some (r, cs', st', oi', p') \<longrightarrow>
      registry_ok oi' \<and> own_document ol st' oi' p' \<and> (\<forall>i. registered ol oi' i - {wp_self p} = registered ol oi i - {wp_self p})) \<and>
    (\<forall>cs' st' oi'. Destroy lok ol cs st oi p = Some (cs', st', oi') \<longrightarrow> (\<forall>i. registered ol oi' i = registered ol oi i - {wp_self p}) \<and>
      (\<not> doomed p \<longrightarrow> ol_observers ol (destroyed_observers oi') = ol_observers ol (destroyed_observers oi) - {wp_self p}))"
proof (intro conjI allI impI)
  fix r cs' st' oi' p' i
  assume run: "RenderDocument env hs vo ol client opts cs st oi p = Some (r, cs', st', oi', p')"
  define oi1 where "oi1 = (if registered_observers p \<and> to_bool st (wp_document p)
    then holder_RemoveDocumentObservers_of ol st (wp_document p) (wp_self p) oi else oi)"
  have oi1: "registry_ok oi1" "registered ol oi1 i = registered ol oi i - {wp_self p}" for i
    using ok(2) own by (auto simp: oi1_def own_document_def remove_observers [OF ok])
  have "registry_ok oi' \<and> own_document ol st' oi' p' \<and> (\<forall>i. registered ol oi' i - {wp_self p} = registered ol oi i - {wp_self p})"
  proof (cases client)
    case None
    then show ?thesis using run ok own by (auto simp: RenderDocument_def)
  next
    case (Some a)
    from run [unfolded Some] show ?thesis
    proof (cases rule: RenderDocument_branches)
      case none
      then have "oi' = oi1" by (simp add: oi1_def)
      then show ?thesis using oi1 none(2) by (simp add: own_document_def)
    next
      case (held rs rst cs1 st1 c p2)
      from render_held_steps [OF held(1,2), folded oi1_def] have p': "plugin_doc p' = plugin_doc p2" "registered_observers p'" "dw_doc st' = dw_doc st1"
        and oi': "oi' = fold (\<lambda>t. holder_AddDocumentObserver ol st' (wp_document p2) (re_code env t) (wp_self p2)) plugin_monitors oi1" by blast+
      note added = add_observers [OF ok(1) oi1(1), of st' "wp_document p2" "re_code env" "wp_self p2" plugin_monitors, folded oi']
      have "to_bool st' (wp_document p2)" using held(4) p'(3) by (simp add: to_bool_def doc_of_def)
      then have "own_document ol st' oi' p'"
        using added oi1(2) held(3) p' unfolding own_document_def plugin_doc_def by (fastforce split: if_splits)
      moreover have "registered ol oi' i - {wp_self p} = registered ol oi i - {wp_self p}" for i
        using added [of i] oi1(2) [of i] held(3) by (auto split: if_splits)
      ultimately show ?thesis using added by blast
    qed
  qed
  then show "registry_ok oi'" "own_document ol st' oi' p'" "registered ol oi' i - {wp_self p} = registered ol oi i - {wp_self p}" by blast+
next
  fix cs' st' oi' i
  assume gone: "Destroy lok ol cs st oi p = Some (cs', st', oi')"
  define oi1 where "oi1 = (if \<not> doomed p then RemoveDestroyedObserver ol (wp_self p) oi else oi)"
  have oi': "oi' = (if to_bool st (wp_document p) then holder_RemoveDocumentObservers_of ol st (wp_document p) (wp_self p) oi1 else oi1)"
    using gone by (auto simp: Destroy_def Let_def oi1_def)
  have same: "registered ol oi1 = registered ol oi" "registry_ok oi1"
    using ok(2) by (auto simp: oi1_def RemoveDestroyedObserver_def registered_def registry_ok_def fun_eq_iff)
  show "registered ol oi' i = registered ol oi i - {wp_self p}"
    using own unfolding oi' own_document_def by (auto simp: remove_observers(2) [OF ok(1) same(2)] same(1))
  assume "\<not> doomed p"
  then have "destroyed_observers oi' = ol_remove ol (wp_self p) (destroyed_observers oi)"
    unfolding oi' oi1_def holder_RemoveDocumentObservers_of_def RemoveDocumentObservers_of_def by (simp add: RemoveDestroyedObserver_def Let_def)
  then show "ol_observers ol (destroyed_observers oi') = ol_observers ol (destroyed_observers oi) - {wp_self p}"
    using ok(1) by (simp add: observer_list_ok_def)
qed

lemma sample_page_size: "DocumentSizeTwips (sample_page\<lparr>mount_counter := n\<rparr>) = (12240, 15840)"
  by (simp add: DocumentSizeTwips_def sample_plugin_defs int32_id int32_min_def int32_max_def)

lemma sample_resize: "TileBuffer_Resize 12240 15840 (Fin 1) tb \<noteq> None"
  by (simp add: TileBuffer_Resize_def TwipToPixel_def kTwipPerPx_def tile_span_def kTileSizePx_def fp_to_u32_def rat_trunc_def)

lemma sample_set_view:
  assumes "wp_zoom p = Fin 1" "device_scale p = Fin 1" "viewport_zoom p = Fin 1" "tile_buffer p = Some tb"
  shows "set_view False (sample_page\<lparr>mount_counter := n\<rparr>) p \<noteq> None"
  using assms sample_resize [of "tb\<lparr>tb_y_pos := 0\<rparr>"]
  by (auto simp: set_view_def sample_page_size fp_eq_def on_tile_buffer_def SetYPosition_def fp_to_int32_def rat_trunc_def int32_min_def int32_max_def
      set_tile_buffer_def TotalScale_def)

lemma sample_renders:
  "\<exists>k cs' st' oi' p'. RenderDocument sample_env sample_hashes sample_view sample_list (Some 3) None sample_clients sample_shared
     (OfficeInstance_init sample_list) sample_mounted = Some (Some k, cs', st', oi', p') \<and> wp_document p' = wp_document sample_mounted"
proof -
  let ?d = "wp_document sample_mounted" and ?c = "sample_page\<lparr>mount_counter := 2\<rparr>"
  have d: "?d = \<lparr>view_id = 0, holder = Some 0, deregisters_callback = False\<rparr>" "document_holder ?c = \<lparr>view_id = 0, holder = Some 0, deregisters_callback = True\<rparr>"
    by (simp_all add: sample_plugin_defs)
  have st: "dw_doc sample_shared 0 = Some 100" "dw_refs sample_shared 0 = 3" by (simp_all add: sample_shared_def sample_world_def)
  have had: "to_bool sample_shared ?d" "dh_eq ?d (document_holder ?c)" "\<not> registered_observers sample_mounted"
    by (simp_all add: to_bool_def doc_of_def d st dh_eq_def) (simp add: sample_plugin_defs)
  define st2 where "st2 = release (Some 0) (add_ref (Some 0) sample_shared)"
  have st2: "dw_doc st2 0 = Some 100" using st by (simp add: st2_def release_def add_ref_def Let_def)
  have move: "move_assign ?d (fst (copy_construct (document_holder ?c) sample_shared)) (snd (copy_construct (document_holder ?c) sample_shared)) =
      (?d, \<lparr>view_id = 0, holder = None, deregisters_callback = False\<rparr>, st2)"
    by (simp add: move_assign_def copy_construct_def d st2_def)
  have same: "sample_mounted\<lparr>wp_document := ?d, wp_document_client := Some 3\<rparr> = sample_mounted" by (simp add: sample_mounted_def)
  obtain p3 where p3: "set_view False (sample_page\<lparr>mount_counter := 3\<rparr>) sample_mounted = Some p3"
    using sample_set_view [of sample_mounted "sample_buffer ()" 3] by (auto simp: sample_plugin_defs)
  have d3: "wp_document p3 = ?d" using plugin_doc_set_view [OF p3] by (simp add: plugin_doc_def)
  have mnt: "Mount l sz R R0 w i x ?c st2 = Some (False, sample_page\<lparr>mount_counter := 3\<rparr>, st2)" for l sz R R0 w i x
    by (simp add: Mount_def AtomicRefCount_Increment_def int32_def)
  obtain st4 where reset: "lok_call sample_lok ?d (lok_resetSelection sample_commands) st2 = Some ((), st4)"
    using st2 by (simp add: lok_call_def deref_def SetAsCurrentView_def d doc_of_def sample_lok_def sample_commands_def)
  have "RenderDocument sample_env sample_hashes sample_view sample_list (Some 3) None sample_clients sample_shared (OfficeInstance_init sample_list) sample_mounted =
    render_held sample_env sample_hashes sample_view sample_list 3 False None sample_clients st2 (OfficeInstance_init sample_list) sample_mounted"
    using had st2 move same
    by (simp add: RenderDocument_def sample_clients_def apply_options_def GetDocument_def case_prod_beta Let_def)
       (simp add: to_bool_def doc_of_def d)
  then show ?thesis
    using p3 reset d3 plugin_doc_steps(5) [of sample_hashes False False "p3\<lparr>registered_observers := True\<rparr>"]
    by (simp add: render_held_def restore_from_def sample_clients_def mnt sample_env_def plugin_doc_def Let_def)
qed

theorem RenderDocument_mount_leak_witness:
  "\<exists>k cs1 st1 oi1 p1 cs2 st2 oi2 c2. RenderDocument sample_env sample_hashes sample_view sample_list (Some 3) None sample_clients sample_shared
     (OfficeInstance_init sample_list) sample_mounted = Some (Some k, cs1, st1, oi1, p1) \<and>
     Destroy sample_lok sample_list cs1 st1 oi1 p1 = Some (cs2, st2, oi2) \<and> cs2 3 = Some c2 \<and> mount_counter c2 = 2"
proof -
  have destroy: "\<exists>cs' st' oi'. Destroy sample_lok sample_list cs st oi p = Some (cs', st', oi')" if "\<not> deregisters_callback (wp_document p)"
    for cs :: "(unit, unit, sample_rect, unit) clients" and st oi and p :: "(sample_rect, unit) OfficeWebPlugin"
    using that by (simp add: Destroy_def destroy_def Let_def)
  obtain k cs1 st1 oi1 p1 where again: "RenderDocument sample_env sample_hashes sample_view sample_list (Some 3) None sample_clients sample_shared
     (OfficeInstance_init sample_list) sample_mounted = Some (Some k, cs1, st1, oi1, p1)" and d: "wp_document p1 = wp_document sample_mounted"
    using sample_renders by blast
  have nd: "\<not> deregisters_callback (wp_document sample_mounted)" by (simp add: sample_plugin_defs)
  obtain cs2 st2 oi2 where gone: "Destroy sample_lok sample_list cs1 st1 oi1 p1 = Some (cs2, st2, oi2)" using destroy [of p1] d nd by metis
  obtain cs3 st3 oi3 where alone: "Destroy sample_lok sample_list sample_clients sample_shared (OfficeInstance_init sample_list) sample_mounted = Some (cs3, st3, oi3)"
    using destroy [OF nd] by blast
  have "sample_clients 3 = Some (sample_page\<lparr>mount_counter := 2\<rparr>)" "dh_eq (wp_document sample_mounted) (document_holder (sample_page\<lparr>mount_counter := 2\<rparr>))"
    "wp_document_client sample_mounted = Some 3"
    by (simp_all add: sample_clients_def sample_plugin_defs dh_eq_def)
  from RenderDocument_mount_leak [where cs = sample_clients and a = 3, OF this(1) _ _ this(2) again gone this(3) alone] again gone
  show ?thesis by (auto simp: int32_max_def)
qed

theorem plugin_registration_witness:
  "\<exists>k cs' st' oi' p'. RenderDocument sample_env sample_hashes sample_view sample_list (Some 3) None sample_clients sample_shared
     (OfficeInstance_init sample_list) sample_mounted = Some (Some k, cs', st', oi', p') \<and> own_document sample_list st' oi' p'"
proof -
  have "own_document sample_list sample_shared (OfficeInstance_init sample_list) sample_mounted"
    by (simp add: own_document_def registered_def OfficeInstance_init_def)
  note p = plugin_registration [OF sample_list_ok OfficeInstance_init_ok this, of sample_env sample_hashes sample_view "Some 3" None sample_clients,
      THEN conjunct1, rule_format]
  from sample_renders p show ?thesis by blast
qed

end
