(* ===== verification/Asar_Archive.thy ===== *)
theory Asar_Archive
  imports Prelude
begin

text \<open>
  shell/common/asar/archive.cc, archive.h and scoped_temporary_file.cc: an asar package is one file
  with a JSON header, a tree of directories, files and links, followed by the contents of the
  files. The dictionaries of the header (\<open>base::Value\<close>), paths (\<open>base::FilePath\<close>), files (\<open>base::File\<close>),
  \<open>base::Pickle\<close> and the file system are parameters. A lookup that never ends, since links lead
  back to themselves, and the end of the process by a failed check are \<^const>\<open>None\<close>; where the code
  returns \<open>false\<close> the inner option is \<^const>\<open>None\<close>.
\<close>

section \<open>Parameters\<close>

record ('v, 'p, 'f, 'w) asar_ops =
  FindStringKey :: "string \<Rightarrow> 'v \<Rightarrow> string option"
  FindIntKey :: "string \<Rightarrow> 'v \<Rightarrow> int option"
  FindBoolKey :: "string \<Rightarrow> 'v \<Rightarrow> bool option"
  FindListKey :: "string \<Rightarrow> 'v \<Rightarrow> string option list option"
  FindKey :: "string \<Rightarrow> 'v \<Rightarrow> bool"
  GetDictionary :: "string \<Rightarrow> 'v \<Rightarrow> 'v option"
  dict_keys :: "'v \<Rightarrow> string list"
  JSONReader_Read :: "string \<Rightarrow> 'v option"
  StringToUint64 :: "string \<Rightarrow> bool \<times> u64"
  Pickle_UInt32 :: "u8 list \<Rightarrow> u32 option"
  Pickle_String :: "u8 list \<Rightarrow> string option"
  AsUTF8Unsafe :: "'p \<Rightarrow> string"
  FromUTF8Unsafe :: "string \<Rightarrow> 'p"
  path_empty :: 'p
  DirName :: "'p \<Rightarrow> 'p"
  MatchesAsar :: "'p \<Rightarrow> bool"
  AppendRelativePath :: "'p \<Rightarrow> 'p \<Rightarrow> 'p option"
  AddUnpacked :: "'p \<Rightarrow> 'p"
  path_Append :: "'p \<Rightarrow> 'p \<Rightarrow> 'p"
  path_Extension :: "'p \<Rightarrow> string"
  AddExtension :: "string \<Rightarrow> 'p \<Rightarrow> 'p"
  File_Open :: "'p \<Rightarrow> 'w \<Rightarrow> 'f"
  File_IsValid :: "'f \<Rightarrow> bool"
  ReadAtCurrentPos :: "u64 \<Rightarrow> 'f \<Rightarrow> int \<times> u8 list \<times> 'f"
  File_Read :: "u64 \<Rightarrow> u64 \<Rightarrow> 'f \<Rightarrow> int \<times> u8 list"
  base_ReadFileToString :: "'p \<Rightarrow> 'w \<Rightarrow> u8 list option"
  DirectoryExists :: "'p \<Rightarrow> 'w \<Rightarrow> bool"
  CreateTemporaryFile :: "'w \<Rightarrow> 'p option \<times> 'w"
  file_Move :: "'p \<Rightarrow> 'p \<Rightarrow> 'w \<Rightarrow> bool \<times> 'w"
  file_Write :: "'p \<Rightarrow> u8 list \<Rightarrow> 'w \<Rightarrow> int option \<times> 'w"
  file_Delete :: "'p \<Rightarrow> 'w \<Rightarrow> 'w"
  SetPosixFilePermissions :: "'p \<Rightarrow> 'w \<Rightarrow> 'w"
  sha256_hex :: "u8 list \<Rightarrow> string"
  on_windows :: bool
  on_mac :: bool
  integrity_fuse :: bool

section \<open>State\<close>

datatype HashAlgorithm = SHA256 | HashNONE

record IntegrityPayload =
  ip_algorithm :: HashAlgorithm
  ip_hash :: string
  ip_block_size :: u32
  ip_blocks :: "string list"

record FileInfo =
  fi_unpacked :: bool
  fi_executable :: bool
  fi_size :: u32
  fi_offset :: u64
  fi_integrity :: "IntegrityPayload option"

record Stats =
  st_info :: FileInfo
  is_file :: bool
  is_directory :: bool
  is_link :: bool

definition FileInfo_init :: FileInfo where
  "FileInfo_init = \<lparr>fi_unpacked = False, fi_executable = False, fi_size = 0, fi_offset = 0, fi_integrity = None\<rparr>"

definition Stats_init :: Stats where
  "Stats_init = \<lparr>st_info = FileInfo_init, is_file = True, is_directory = False, is_link = False\<rparr>"

record ('v, 'p, 'f) Archive =
  initialized :: bool
  header_validated :: bool
  archive_path :: 'p
  archive_file :: 'f
  header_size :: u32
  header :: "'v option"
  ar_external_files :: "'p \<Rightarrow> 'p option"

section \<open>Nodes of the header\<close>

definition kSeparators :: "('v, 'p, 'f, 'w) asar_ops \<Rightarrow> char set" where
  "kSeparators ops = (if on_windows ops then {CHR 0x5C, CHR 0x2F} else {CHR 0x2F})"

text \<open>The functions call each other; \<open>lookup\<close> is the lookup of a path from the root.\<close>

definition GetFilesNode :: "('v, 'p, 'f, 'w) asar_ops \<Rightarrow> (string \<Rightarrow> 'v option option) \<Rightarrow> 'v \<Rightarrow> 'v option option" where
  "GetFilesNode ops lookup dir = do {
     linked \<leftarrow> (case FindStringKey ops ''link'' dir of None \<Rightarrow> Some (Some dir) | Some link \<Rightarrow> lookup link);
     Some (Option.bind linked (GetDictionary ops ''files'')) }"

definition GetChildNode ::
  "('v, 'p, 'f, 'w) asar_ops \<Rightarrow> (string \<Rightarrow> 'v option option) \<Rightarrow> 'v \<Rightarrow> string \<Rightarrow> 'v \<Rightarrow> 'v option option" where
  "GetChildNode ops lookup root name dir =
     (if name = [] then Some (Some root)
      else do { files \<leftarrow> GetFilesNode ops lookup dir; Some (Option.bind files (GetDictionary ops name)) })"

function node_loop ::
  "('v, 'p, 'f, 'w) asar_ops \<Rightarrow> (string \<Rightarrow> 'v option option) \<Rightarrow> 'v \<Rightarrow> string \<Rightarrow> 'v \<Rightarrow> 'v option option" where
  "node_loop ops lookup root path dir =
     (let sep = (\<lambda>c. c \<in> kSeparators ops)
      in case dropWhile (Not \<circ> sep) path of
           [] \<Rightarrow> GetChildNode ops lookup root path dir
         | _ # rest \<Rightarrow> do {
             child \<leftarrow> GetChildNode ops lookup root (takeWhile (Not \<circ> sep) path) dir;
             (case child of None \<Rightarrow> Some None | Some c \<Rightarrow> node_loop ops lookup root rest c) })"
  by pat_completeness auto
termination
proof (relation "measure (\<lambda>(ops, lookup, root, path, dir). length path)", goal_cases)
  case (2 ops lookup root path dir sep x rest child c)
  have "length (x # rest) \<le> length path" using 2(2) length_dropWhile_le by metis
  then show ?case by simp
qed simp

declare node_loop.simps [simp del]

text \<open>More defined lookups of links give more defined lookups.\<close>

lemma option_ord_iff: "option_ord a b \<longleftrightarrow> a = None \<or> a = b"
  by (simp add: flat_ord_def)

lemma GetChildNode_mono:
  assumes "\<And>x. option_ord (f x) (g x)"
  shows "option_ord (GetChildNode ops f root name dir) (GetChildNode ops g root name dir)"
proof (cases "FindStringKey ops ''link'' dir")
  case (Some link)
  then show ?thesis using assms [of link] by (auto simp: GetChildNode_def GetFilesNode_def option_ord_iff)
qed (simp add: GetChildNode_def GetFilesNode_def option_ord_iff)

lemma node_loop_mono:
  assumes "\<And>x. option_ord (f x) (g x)"
  shows "option_ord (node_loop ops f root path dir) (node_loop ops g root path dir)"
proof (induction "length path" arbitrary: path dir rule: less_induct)
  case less
  show ?case
  proof (cases "dropWhile (Not \<circ> (\<lambda>c. c \<in> kSeparators ops)) path")
    case Nil
    then show ?thesis unfolding node_loop.simps [of _ _ _ path] Let_def Nil list.case by (intro GetChildNode_mono assms)
  next
    case (Cons x rest)
    let ?n = "takeWhile (Not \<circ> (\<lambda>c. c \<in> kSeparators ops)) path"
    have "length rest < length path" using Cons length_dropWhile_le [of "Not \<circ> (\<lambda>c. c \<in> kSeparators ops)" path] by simp
    note ih = less [OF this]
    have "GetChildNode ops f root ?n dir = None \<or> GetChildNode ops f root ?n dir = GetChildNode ops g root ?n dir"
      using GetChildNode_mono [where f = f and g = g, OF assms] by (simp add: option_ord_iff)
    then consider "GetChildNode ops f root ?n dir = None"
      | v where "GetChildNode ops f root ?n dir = Some v" "GetChildNode ops g root ?n dir = Some v" by fastforce
    then show ?thesis
    proof cases
      case 1
      then show ?thesis unfolding node_loop.simps [of _ _ _ path] Let_def Cons list.case by (simp add: option_ord_iff)
    next
      case (2 v)
      then show ?thesis unfolding node_loop.simps [of _ _ _ path] Let_def Cons list.case 2 using ih by (cases v) (simp_all add: option_ord_iff)
    qed
  qed
qed

lemma node_loop_monotone [partial_function_mono]:
  assumes "\<And>x. mono_option (\<lambda>F. f F x)"
  shows "mono_option (\<lambda>F. node_loop ops (f F) root path dir)"
  using assms unfolding monotone_def by (blast intro: node_loop_mono)

partial_function (option) GetNodeFromPath :: "('v, 'p, 'f, 'w) asar_ops \<Rightarrow> 'v \<Rightarrow> string \<Rightarrow> 'v option option" where
  "GetNodeFromPath ops root path =
     (if path = [] then Some (Some root) else node_loop ops (GetNodeFromPath ops root) root path root)"

section \<open>Information on files\<close>

text \<open>The loop over the hashes of the blocks: an entry that is no string ends the process.\<close>

fun read_blocks :: "string option list \<Rightarrow> string list option" where
  "read_blocks [] = Some []"
| "read_blocks (None # bs) = None"
| "read_blocks (Some b # bs) = map_option ((#) b) (read_blocks bs)"

definition read_integrity :: "('v, 'p, 'f, 'w) asar_ops \<Rightarrow> 'v \<Rightarrow> IntegrityPayload option option" where
  "read_integrity ops node =
     (case GetDictionary ops ''integrity'' node of
        None \<Rightarrow> Some None
      | Some integrity \<Rightarrow>
          (case (FindStringKey ops ''algorithm'' integrity, FindStringKey ops ''hash'' integrity, FindIntKey ops ''blockSize'' integrity,
                 FindListKey ops ''blocks'' integrity) of
             (Some algorithm, Some hash, Some block_size, Some blocks) \<Rightarrow>
               if 0 < block_size
               then map_option (\<lambda>bs. if algorithm = ''SHA256''
                      then Some \<lparr>ip_algorithm = SHA256, ip_hash = hash, ip_block_size = word_of_int block_size, ip_blocks = bs\<rparr> else None)
                      (read_blocks blocks)
               else Some None
           | _ \<Rightarrow> Some None))"

definition FillFileInfoWithNode ::
  "('v, 'p, 'f, 'w) asar_ops \<Rightarrow> FileInfo \<Rightarrow> u32 \<Rightarrow> bool \<Rightarrow> 'v \<Rightarrow> (bool \<times> FileInfo) option" where
  "FillFileInfoWithNode ops info hsize load_integrity node =
     (case FindIntKey ops ''size'' node of
        None \<Rightarrow> Some (False, info)
      | Some n_size \<Rightarrow>
          let info1 = info\<lparr>fi_size := word_of_int n_size\<rparr>;
              info2 = (case FindBoolKey ops ''unpacked'' node of None \<Rightarrow> info1 | Some unpacked \<Rightarrow> info1\<lparr>fi_unpacked := unpacked\<rparr>)
          in if FindBoolKey ops ''unpacked'' node = Some True then Some (True, info2)
             else case FindStringKey ops ''offset'' node of
                    None \<Rightarrow> Some (False, info2)
                  | Some offset \<Rightarrow>
                      let (ok, n) = StringToUint64 ops offset
                      in if \<not> ok then Some (False, info2\<lparr>fi_offset := n\<rparr>)
                         else let info3 = info2\<lparr>fi_offset := n + ucast hsize\<rparr>;
                                  info4 = (case FindBoolKey ops ''executable'' node of None \<Rightarrow> info3 | Some e \<Rightarrow> info3\<lparr>fi_executable := e\<rparr>)
                              in if on_mac ops \<and> load_integrity \<and> integrity_fuse ops
                                 then do {
                                   integrity \<leftarrow> read_integrity ops node;
                                   let info5 = (case integrity of None \<Rightarrow> info4 | Some i \<Rightarrow> info4\<lparr>fi_integrity := Some i\<rparr>);
                                   if fi_integrity info5 = None then None else Some (True, info5) }
                                 else Some (True, info4))"

text \<open>\<open>node->GetString("link", ...)\<close> is the lookup of a string, as the key has no dot.\<close>

partial_function (option) GetFileInfo ::
  "('v, 'p, 'f, 'w) asar_ops \<Rightarrow> ('v, 'p, 'f) Archive \<Rightarrow> 'p \<Rightarrow> FileInfo \<Rightarrow> (bool \<times> FileInfo) option" where
  "GetFileInfo ops ar path info =
     (case header ar of
        None \<Rightarrow> Some (False, info)
      | Some root \<Rightarrow> do {
          node \<leftarrow> GetNodeFromPath ops root (AsUTF8Unsafe ops path);
          (case node of
             None \<Rightarrow> Some (False, info)
           | Some n \<Rightarrow>
               (case FindStringKey ops ''link'' n of
                  Some link \<Rightarrow> GetFileInfo ops ar (FromUTF8Unsafe ops link) info
                | None \<Rightarrow> FillFileInfoWithNode ops info (header_size ar) (header_validated ar) n)) })"

definition Archive_Stat ::
  "('v, 'p, 'f, 'w) asar_ops \<Rightarrow> ('v, 'p, 'f) Archive \<Rightarrow> 'p \<Rightarrow> Stats \<Rightarrow> (bool \<times> Stats) option" where
  "Archive_Stat ops ar path stats =
     (case header ar of
        None \<Rightarrow> Some (False, stats)
      | Some root \<Rightarrow> do {
          node \<leftarrow> GetNodeFromPath ops root (AsUTF8Unsafe ops path);
          (case node of
             None \<Rightarrow> Some (False, stats)
           | Some n \<Rightarrow>
               if FindKey ops ''link'' n then Some (True, stats\<lparr>is_file := False, is_link := True\<rparr>)
               else if FindKey ops ''files'' n then Some (True, stats\<lparr>is_file := False, is_directory := True\<rparr>)
               else map_option (\<lambda>(ok, info). (ok, stats\<lparr>st_info := info\<rparr>))
                      (FillFileInfoWithNode ops (st_info stats) (header_size ar) (header_validated ar) n)) })"

definition Readdir :: "('v, 'p, 'f, 'w) asar_ops \<Rightarrow> ('v, 'p, 'f) Archive \<Rightarrow> 'p \<Rightarrow> 'p list option option" where
  "Readdir ops ar path =
     (case header ar of
        None \<Rightarrow> Some None
      | Some root \<Rightarrow> do {
          node \<leftarrow> GetNodeFromPath ops root (AsUTF8Unsafe ops path);
          (case node of
             None \<Rightarrow> Some None
           | Some n \<Rightarrow> do {
               files \<leftarrow> GetFilesNode ops (GetNodeFromPath ops root) n;
               Some (map_option (\<lambda>f. map (FromUTF8Unsafe ops) (dict_keys ops f)) files) }) })"

definition Realpath :: "('v, 'p, 'f, 'w) asar_ops \<Rightarrow> ('v, 'p, 'f) Archive \<Rightarrow> 'p \<Rightarrow> 'p option option" where
  "Realpath ops ar path =
     (case header ar of
        None \<Rightarrow> Some None
      | Some root \<Rightarrow> do {
          node \<leftarrow> GetNodeFromPath ops root (AsUTF8Unsafe ops path);
          Some (map_option (\<lambda>n. case FindStringKey ops ''link'' n of Some link \<Rightarrow> FromUTF8Unsafe ops link | None \<Rightarrow> path) node) })"

section \<open>Opening\<close>

definition Archive_make :: "('v, 'p, 'f, 'w) asar_ops \<Rightarrow> 'p \<Rightarrow> 'w \<Rightarrow> ('v, 'p, 'f) Archive" where
  "Archive_make ops path w =
     \<lparr>initialized = False, header_validated = False, archive_path = path, archive_file = File_Open ops path w,
      header_size = 0, header = None, ar_external_files = (\<lambda>_. None)\<rparr>"

text \<open>\<open>ValidateIntegrityOrDie\<close>: \<^const>\<open>None\<close> when the process ends.\<close>

definition ValidateIntegrityOrDie :: "('v, 'p, 'f, 'w) asar_ops \<Rightarrow> u8 list \<Rightarrow> IntegrityPayload \<Rightarrow> unit option" where
  "ValidateIntegrityOrDie ops data integrity =
     (if ip_algorithm integrity = SHA256 then if ip_hash integrity \<noteq> sha256_hex ops data then None else Some () else None)"

text \<open>
  The check of the header on macOS, where \<open>archive_mac.mm\<close> knows what to check: \<open>relative\<close> says whether \<open>RelativePath\<close> has a value, and \<open>payload\<close> is
  what \<open>HeaderIntegrity\<close> finds. The result is the new value of \<open>header_validated_\<close>.
\<close>

definition validate_header ::
  "('v, 'p, 'f, 'w) asar_ops \<Rightarrow> bool \<Rightarrow> IntegrityPayload option \<Rightarrow> string \<Rightarrow> bool \<Rightarrow> bool option" where
  "validate_header ops relative payload hdr validated =
     (if on_mac ops \<and> integrity_fuse ops \<and> relative
      then do {
        integrity \<leftarrow> payload;
        if ip_algorithm integrity \<noteq> HashNONE then map_option (\<lambda>_. True) (ValidateIntegrityOrDie ops (map of_char hdr) integrity) else None }
      else Some validated)"

text \<open>A \<open>size_t\<close> as the \<open>int\<close> it is compared with.\<close>

definition u64_int :: "u64 \<Rightarrow> int" where "u64_int n = int32 (uint n)"

definition read_exact ::
  "('v, 'p, 'f, 'w) asar_ops \<Rightarrow> u64 \<Rightarrow> ('v, 'p, 'f) Archive \<Rightarrow> u8 list option \<times> ('v, 'p, 'f) Archive" where
  "read_exact ops n ar =
     (let (len, buf, f) = ReadAtCurrentPos ops n (archive_file ar)
      in (if len = u64_int n then Some buf else None, ar\<lparr>archive_file := f\<rparr>))"

text \<open>\<open>JSONReader_Read\<close> gives a value only for a header that is a dictionary.\<close>

definition Archive_Init ::
  "('v, 'p, 'f, 'w) asar_ops \<Rightarrow> bool \<Rightarrow> IntegrityPayload option \<Rightarrow> ('v, 'p, 'f) Archive \<Rightarrow> (bool \<times> ('v, 'p, 'f) Archive) option" where
  "Archive_Init ops relative payload ar0 =
     (if initialized ar0 then None
      else let ar = ar0\<lparr>initialized := True\<rparr>
           in if \<not> File_IsValid ops (archive_file ar) then Some (False, ar)
              else let (b1, ar1) = read_exact ops 8 ar
                   in case Option.bind b1 (Pickle_UInt32 ops) of
                        None \<Rightarrow> Some (False, ar1)
                      | Some hsize \<Rightarrow>
                          let (b2, ar2) = read_exact ops (ucast hsize) ar1
                          in case Option.bind b2 (Pickle_String ops) of
                               None \<Rightarrow> Some (False, ar2)
                             | Some hdr \<Rightarrow> do {
                                 v \<leftarrow> validate_header ops relative payload hdr (header_validated ar2);
                                 let ar3 = ar2\<lparr>header_validated := v\<rparr>;
                                 Some (case JSONReader_Read ops hdr of
                                         None \<Rightarrow> (False, ar3)
                                       | Some root \<Rightarrow> (True, ar3\<lparr>header_size := 8 + hsize, header := Some root\<rparr>)) })"

section \<open>Temporary copies\<close>

text \<open>A temporary file is its path, empty before it is created; its end deletes it.\<close>

definition ScopedTemporaryFile_Init :: "('v, 'p, 'f, 'w) asar_ops \<Rightarrow> string \<Rightarrow> 'p \<Rightarrow> 'w \<Rightarrow> bool \<times> 'p \<times> 'w" where
  "ScopedTemporaryFile_Init ops ext tmp w =
     (if tmp \<noteq> path_empty ops then (True, tmp, w)
      else case CreateTemporaryFile ops w of
             (None, w1) \<Rightarrow> (False, tmp, w1)
           | (Some path, w1) \<Rightarrow>
               if on_windows ops \<and> ext \<noteq> []
               then let new_path = AddExtension ops ext path; (ok, w2) = file_Move ops path new_path w1
                    in if ok then (True, new_path, w2) else (False, path, w2)
               else (True, path, w1))"

definition ScopedTemporaryFile_destroy :: "('v, 'p, 'f, 'w) asar_ops \<Rightarrow> 'p \<Rightarrow> 'w \<Rightarrow> 'w" where
  "ScopedTemporaryFile_destroy ops tmp w = (if tmp \<noteq> path_empty ops then file_Delete ops tmp w else w)"

definition InitFromFile ::
  "('v, 'p, 'f, 'w) asar_ops \<Rightarrow> 'f \<Rightarrow> string \<Rightarrow> u64 \<Rightarrow> u64 \<Rightarrow> IntegrityPayload option \<Rightarrow> 'p \<Rightarrow> 'w \<Rightarrow> (bool \<times> 'p \<times> 'w) option" where
  "InitFromFile ops src ext offset n integrity tmp w =
     (if \<not> File_IsValid ops src then Some (False, tmp, w)
      else let (ok, path, w1) = ScopedTemporaryFile_Init ops ext tmp w
           in if \<not> ok then Some (False, path, w1)
              else let (len, buf) = File_Read ops offset n src
                   in if len \<noteq> u64_int n then Some (False, path, w1)
                      else do {
                        _ \<leftarrow> (case integrity of None \<Rightarrow> Some () | Some i \<Rightarrow> ValidateIntegrityOrDie ops buf i);
                        let (written, w2) = file_Write ops path buf w1;
                        Some (written = Some (u64_int n), path, w2) })"

text \<open>The result is the path of the copy, or none.\<close>

definition CopyFileOut ::
  "('v, 'p, 'f, 'w) asar_ops \<Rightarrow> 'p \<Rightarrow> ('v, 'p, 'f) Archive \<Rightarrow> 'w \<Rightarrow> ('p option \<times> ('v, 'p, 'f) Archive \<times> 'w) option" where
  "CopyFileOut ops path ar w =
     (if header ar = None then Some (None, ar, w)
      else case ar_external_files ar path of
             Some tmp \<Rightarrow> Some (Some tmp, ar, w)
           | None \<Rightarrow> do {
               (ok, info) \<leftarrow> GetFileInfo ops ar path FileInfo_init;
               if \<not> ok then Some (None, ar, w)
               else if fi_unpacked info then Some (Some (path_Append ops (AddUnpacked ops (archive_path ar)) path), ar, w)
               else do {
                 (ok, tmp, w1) \<leftarrow> InitFromFile ops (archive_file ar) (path_Extension ops path) (fi_offset info) (ucast (fi_size info))
                                  (fi_integrity info) (path_empty ops) w;
                 if \<not> ok then Some (None, ar, ScopedTemporaryFile_destroy ops tmp w1)
                 else let w2 = (if \<not> on_windows ops \<and> fi_executable info then SetPosixFilePermissions ops tmp w1 else w1)
                      in Some (Some tmp, ar\<lparr>ar_external_files := (ar_external_files ar)(path \<mapsto> tmp)\<rparr>, w2) } })"

end
