(* ===== verification/Asar_Util.thy ===== *)
theory Asar_Util
  imports Asar_Archive
begin

text \<open>
  shell/common/asar/asar_util.cc: the cache of archives, the split of a path into an archive and a
  path inside it, and reading a file through both. The properties relate an archive to the tree of
  directories and file contents it stands for.
\<close>

section \<open>Operations\<close>

record ('v, 'p, 'f) AsarState =
  archive_cache :: "'p \<Rightarrow> ('v, 'p, 'f) Archive option"
  is_directory_cache :: "'p \<Rightarrow> bool option"

definition IsDirectoryCached ::
  "('v, 'p, 'f, 'w) asar_ops \<Rightarrow> 'w \<Rightarrow> 'p \<Rightarrow> ('v, 'p, 'f) AsarState \<Rightarrow> bool \<times> ('v, 'p, 'f) AsarState" where
  "IsDirectoryCached ops w path s =
     (case is_directory_cache s path of
        Some b \<Rightarrow> (b, s)
      | None \<Rightarrow> let b = DirectoryExists ops path w in (b, s\<lparr>is_directory_cache := (is_directory_cache s)(path \<mapsto> b)\<rparr>))"

text \<open>\<open>rel\<close> and \<open>pay\<close> are what macOS knows about the integrity of the archive at a path.\<close>

definition GetOrCreateAsarArchive ::
  "('v, 'p, 'f, 'w) asar_ops \<Rightarrow> ('p \<Rightarrow> bool) \<Rightarrow> ('p \<Rightarrow> IntegrityPayload option) \<Rightarrow> 'w \<Rightarrow> 'p \<Rightarrow> ('v, 'p, 'f) AsarState \<Rightarrow>
   (('v, 'p, 'f) Archive option \<times> ('v, 'p, 'f) AsarState) option" where
  "GetOrCreateAsarArchive ops rel pay w path s =
     (case archive_cache s path of
        Some ar \<Rightarrow> Some (Some ar, s)
      | None \<Rightarrow> do {
          (ok, ar) \<leftarrow> Archive_Init ops (rel path) (pay path) (Archive_make ops path w);
          Some (if ok then (Some ar, s\<lparr>archive_cache := (archive_cache s)(path \<mapsto> ar)\<rparr>) else (None, s)) })"

definition ClearArchives :: "('v, 'p, 'f) AsarState \<Rightarrow> ('v, 'p, 'f) AsarState" where
  "ClearArchives s = s\<lparr>archive_cache := (\<lambda>_. None)\<rparr>"

text \<open>The loop up the directories; \<^const>\<open>None\<close> inside is the root that is no archive.\<close>

partial_function (option) archive_loop ::
  "('v, 'p, 'f, 'w) asar_ops \<Rightarrow> 'w \<Rightarrow> 'p \<Rightarrow> ('v, 'p, 'f) AsarState \<Rightarrow> ('p option \<times> ('v, 'p, 'f) AsarState) option" where
  "archive_loop ops w iter s =
     (let dirname = DirName ops iter;
          (dir, s1) = (if MatchesAsar ops iter then IsDirectoryCached ops w iter s else (True, s))
      in if MatchesAsar ops iter \<and> \<not> dir then Some (Some iter, s1)
         else if iter = dirname then Some (None, s1)
         else archive_loop ops w dirname s1)"

definition GetAsarArchivePath ::
  "('v, 'p, 'f, 'w) asar_ops \<Rightarrow> 'w \<Rightarrow> 'p \<Rightarrow> bool \<Rightarrow> ('v, 'p, 'f) AsarState \<Rightarrow> (('p \<times> 'p) option \<times> ('v, 'p, 'f) AsarState) option" where
  "GetAsarArchivePath ops w full_path allow_root s = do {
     (found, s1) \<leftarrow> archive_loop ops w full_path s;
     Some (case found of
             None \<Rightarrow> None
           | Some iter \<Rightarrow>
               if allow_root \<and> iter = full_path then Some (iter, path_empty ops)
               else map_option (Pair iter) (AppendRelativePath ops iter full_path), s1) }"

text \<open>The archive is shared with the cache, so its temporary files are kept there.\<close>

definition asar_ReadFileToString ::
  "('v, 'p, 'f, 'w) asar_ops \<Rightarrow> ('p \<Rightarrow> bool) \<Rightarrow> ('p \<Rightarrow> IntegrityPayload option) \<Rightarrow> 'p \<Rightarrow> ('v, 'p, 'f) AsarState \<Rightarrow> 'w \<Rightarrow>
   (u8 list option \<times> ('v, 'p, 'f) AsarState \<times> 'w) option" where
  "asar_ReadFileToString ops rel pay path s w = do {
     (split, s1) \<leftarrow> GetAsarArchivePath ops w path False s;
     (case split of
        None \<Rightarrow> Some (base_ReadFileToString ops path w, s1, w)
      | Some (asar_path, relative_path) \<Rightarrow> do {
          (archive, s2) \<leftarrow> GetOrCreateAsarArchive ops rel pay w asar_path s1;
          (case archive of
             None \<Rightarrow> Some (None, s2, w)
           | Some ar \<Rightarrow> do {
               (ok, info) \<leftarrow> GetFileInfo ops ar relative_path FileInfo_init;
               if \<not> ok then Some (None, s2, w)
               else if fi_unpacked info
               then do {
                 (real_path, ar1, w1) \<leftarrow> CopyFileOut ops relative_path ar w;
                 Some (base_ReadFileToString ops (case real_path of None \<Rightarrow> path_empty ops | Some r \<Rightarrow> r) w1,
                       s2\<lparr>archive_cache := (archive_cache s2)(asar_path \<mapsto> ar1)\<rparr>, w1) }
               else let src = File_Open ops asar_path w
                    in if \<not> File_IsValid ops src then Some (None, s2, w)
                       else let n = ucast (fi_size info); (len, contents) = File_Read ops (fi_offset info) n src
                            in if u64_int n \<noteq> len then Some (None, s2, w)
                               else do {
                                 _ \<leftarrow> (case fi_integrity info of None \<Rightarrow> Some () | Some i \<Rightarrow> ValidateIntegrityOrDie ops contents i);
                                 Some (Some contents, s2, w) } }) }) }"

section \<open>The tree an archive stands for\<close>

datatype asar_tree = AFile "u8 list" | ADir "(string \<times> asar_tree) list"

fun asar_lookup :: "asar_tree \<Rightarrow> string list \<Rightarrow> asar_tree option" where
  "asar_lookup t [] = Some t"
| "asar_lookup (AFile c) (n # ns) = None"
| "asar_lookup (ADir kids) (n # ns) = Option.bind (map_of kids n) (\<lambda>k. asar_lookup k ns)"

text \<open>
  \<open>v\<close> is the node of a tree without links: a file has its size and the offset of its content in
  the archive, whose bytes are \<open>arch\<close>, after the header.
\<close>

inductive represents :: "('v, 'p, 'f, 'w) asar_ops \<Rightarrow> u8 list \<Rightarrow> u32 \<Rightarrow> asar_tree \<Rightarrow> 'v \<Rightarrow> bool" for ops arch hsize where
  repr_file: "FindStringKey ops ''link'' v = None \<Longrightarrow> GetDictionary ops ''files'' v = None \<Longrightarrow> FindBoolKey ops ''unpacked'' v \<noteq> Some True \<Longrightarrow>
    FindIntKey ops ''size'' v = Some (int (length c)) \<Longrightarrow> length c < 2 ^ 31 \<Longrightarrow> FindStringKey ops ''offset'' v = Some otext \<Longrightarrow>
    StringToUint64 ops otext = (True, off) \<Longrightarrow> unat off + unat hsize + length c \<le> length arch \<Longrightarrow> length arch < 2 ^ 63 \<Longrightarrow>
    take (length c) (drop (unat off + unat hsize) arch) = c \<Longrightarrow> represents ops arch hsize (AFile c) v"
| repr_dir: "FindStringKey ops ''link'' v = None \<Longrightarrow> FindIntKey ops ''size'' v = None \<Longrightarrow> GetDictionary ops ''files'' v = Some f \<Longrightarrow>
    (\<And>n. GetDictionary ops n f = None \<longleftrightarrow> map_of kids n = None) \<Longrightarrow>
    (\<And>n u k. GetDictionary ops n f = Some u \<Longrightarrow> map_of kids n = Some k \<Longrightarrow> represents ops arch hsize k u) \<Longrightarrow>
    represents ops arch hsize (ADir kids) v"

inductive_cases represents_fileE: "represents ops arch hsize (AFile c) v"
inductive_cases represents_dirE: "represents ops arch hsize (ADir kids) v"

fun join_path :: "string list \<Rightarrow> string" where
  "join_path [] = []"
| "join_path [n] = n"
| "join_path (n # m # ns) = n @ CHR 0x2F # join_path (m # ns)"

definition name_ok :: "('v, 'p, 'f, 'w) asar_ops \<Rightarrow> string \<Rightarrow> bool" where
  "name_ok ops n \<longleftrightarrow> n \<noteq> [] \<and> set n \<inter> kSeparators ops = {}"

lemma GetChildNode_represents:
  assumes "represents ops arch hsize t v" "n \<noteq> []"
  shows "\<exists>r. GetChildNode ops lk root n v = Some r \<and>
    (case asar_lookup t [n] of None \<Rightarrow> r = None | Some k \<Rightarrow> \<exists>u. r = Some u \<and> represents ops arch hsize k u)"
proof (cases t)
  case (AFile c)
  then show ?thesis using assms by (auto simp: GetChildNode_def GetFilesNode_def elim!: represents_fileE)
next
  case (ADir kids)
  from assms(1) [unfolded ADir] obtain f where f: "FindStringKey ops ''link'' v = None" "GetDictionary ops ''files'' v = Some f"
    "GetDictionary ops n f = None \<longleftrightarrow> map_of kids n = None"
    "\<And>u k. GetDictionary ops n f = Some u \<Longrightarrow> map_of kids n = Some k \<Longrightarrow> represents ops arch hsize k u"
    by (elim represents_dirE) blast
  then show ?thesis using assms(2) ADir by (cases "map_of kids n") (auto simp: GetChildNode_def GetFilesNode_def)
qed

lemma node_loop_join:
  assumes "represents ops arch hsize t v" "ns \<noteq> []" "\<forall>n \<in> set ns. name_ok ops n"
  shows "\<exists>r. node_loop ops lk root (join_path ns) v = Some r \<and>
    (case asar_lookup t ns of None \<Rightarrow> r = None | Some k \<Rightarrow> \<exists>u. r = Some u \<and> represents ops arch hsize k u)"
  using assms
proof (induction ns arbitrary: t v rule: join_path.induct)
  case (2 n)
  then have "dropWhile (Not \<circ> (\<lambda>c. c \<in> kSeparators ops)) n = []" by (auto simp: name_ok_def)
  then have "node_loop ops lk root n v = GetChildNode ops lk root n v" by (simp only: node_loop.simps [of _ _ _ n] Let_def list.case)
  then show ?case using GetChildNode_represents [OF 2(1), of n lk root] 2 by (simp add: name_ok_def)
next
  case (3 n m ns)
  let ?p = "n @ CHR 0x2F # join_path (m # ns)" and ?sep = "\<lambda>c. c \<in> kSeparators ops"
  have n: "n \<noteq> []" "\<forall>c \<in> set n. \<not> ?sep c" using 3(4) by (auto simp: name_ok_def)
  have sl: "?sep (CHR 0x2F)" by (simp add: kSeparators_def)
  have split: "dropWhile (Not \<circ> ?sep) ?p = CHR 0x2F # join_path (m # ns)" "takeWhile (Not \<circ> ?sep) ?p = n"
    using n(2) sl by (simp_all add: dropWhile_append2 takeWhile_append2)
  have step: "node_loop ops lk root ?p v = Option.bind (GetChildNode ops lk root n v)
      (\<lambda>child. case child of None \<Rightarrow> Some None | Some c \<Rightarrow> node_loop ops lk root (join_path (m # ns)) c)"
    unfolding node_loop.simps [of _ _ _ ?p] Let_def split list.case by (rule refl)
  obtain r where r: "GetChildNode ops lk root n v = Some r"
    "case asar_lookup t [n] of None \<Rightarrow> r = None | Some k \<Rightarrow> \<exists>u. r = Some u \<and> represents ops arch hsize k u"
    using GetChildNode_represents [OF 3(2) n(1)] by blast
  have two: "asar_lookup t (n # m # ns) = Option.bind (asar_lookup t [n]) (\<lambda>k. asar_lookup k (m # ns))"
    by (cases t) (auto split: Option.bind_split)
  show ?case
  proof (cases "asar_lookup t [n]")
    case None
    then show ?thesis using r two by (simp add: step)
  next
    case (Some k)
    then obtain u where "r = Some u" "represents ops arch hsize k u" using r(2) by auto
    then show ?thesis using 3(1) [of k u] 3(4) r(1) Some two by (simp add: step)
  qed
qed simp

lemma GetNodeFromPath_represents:
  assumes "represents ops arch hsize t root" "\<forall>n \<in> set ns. name_ok ops n"
  shows "\<exists>r. GetNodeFromPath ops root (join_path ns) = Some r \<and>
    (case asar_lookup t ns of None \<Rightarrow> r = None | Some k \<Rightarrow> \<exists>u. r = Some u \<and> represents ops arch hsize k u)"
proof (cases "ns = []")
  case True
  then show ?thesis using assms(1) by (simp add: GetNodeFromPath.simps)
next
  case False
  then have "join_path ns \<noteq> []" using assms(2) by (cases ns rule: join_path.cases) (auto simp: name_ok_def)
  then show ?thesis using node_loop_join [OF assms(1) False assms(2)] by (simp add: GetNodeFromPath.simps [of _ _ "join_path ns"])
qed

text \<open>The documented behaviour of \<open>base::File\<close>: reading inside a file gives its bytes.\<close>

definition file_holds :: "('v, 'p, 'f, 'w) asar_ops \<Rightarrow> 'f \<Rightarrow> u8 list \<Rightarrow> bool" where
  "file_holds ops f arch \<longleftrightarrow> File_IsValid ops f \<and>
     (\<forall>off n. unat off + unat n \<le> length arch \<longrightarrow> unat n < 2 ^ 31 \<longrightarrow>
        File_Read ops off n f = (int (unat n), take (unat n) (drop (unat off) arch)))"

lemma FillFileInfo_represents:
  assumes "represents ops arch hsize (AFile c) v" "\<not> (on_mac ops \<and> load \<and> integrity_fuse ops)"
  shows "\<exists>info. FillFileInfoWithNode ops FileInfo_init hsize load v = Some (True, info) \<and> \<not> fi_unpacked info \<and>
    unat (fi_size info) = length c \<and> unat (fi_offset info) + length c \<le> length arch \<and>
    take (length c) (drop (unat (fi_offset info)) arch) = c \<and> fi_integrity info = None"
proof -
  obtain x o1 where v: "FindBoolKey ops ''unpacked'' v \<noteq> Some True" "FindIntKey ops ''size'' v = Some (int (length c))" "length c < 2 ^ 31"
    "FindStringKey ops ''offset'' v = Some x" "StringToUint64 ops x = (True, o1)" "unat o1 + unat hsize + length c \<le> length arch"
    "length arch < 2 ^ 63" "take (length c) (drop (unat o1 + unat hsize) arch) = c"
    using assms(1) by (auto elim: represents_fileE)
  have sum: "unat (o1 + ucast hsize) = unat o1 + unat hsize" using v(6,7) by (simp add: unat_word_ariths ucast_u32_u64)
  have sz: "unat (word_of_int (int (length c)) :: u32) = length c" using v(3) by (simp add: unat_of_nat)
  show ?thesis
    using v assms(2) sum sz
    by (cases "FindBoolKey ops ''unpacked'' v"; cases "FindBoolKey ops ''executable'' v") (auto simp: FillFileInfoWithNode_def FileInfo_init_def Let_def)
qed

lemma represents_no_link: "represents ops arch hsize t v \<Longrightarrow> FindStringKey ops ''link'' v = None"
  by (erule represents.cases) auto

text \<open>C35: reading a file of an archive gives its content. For an archive whose header stands for a tree
  without links, reading a path inside it returns, and the result is the content of the file that
  the tree has under the path, or a failure where the tree has no file there.\<close>

theorem asar_ReadFileToString_correct:
  assumes split: "GetAsarArchivePath ops w path False s = Some (Some (asar_path, rel), s1)"
    and archive: "GetOrCreateAsarArchive ops rl pay w asar_path s1 = Some (Some ar, s2)" "header ar = Some root"
      "represents ops arch (header_size ar) t root" "file_holds ops (File_Open ops asar_path w) arch"
    and names: "AsUTF8Unsafe ops rel = join_path ns" "\<forall>n \<in> set ns. name_ok ops n"
    and plain: "\<not> (on_mac ops \<and> header_validated ar \<and> integrity_fuse ops)"
  shows "asar_ReadFileToString ops rl pay path s w =
    Some (case asar_lookup t ns of Some (AFile c) \<Rightarrow> Some c | _ \<Rightarrow> None, s2, w)"
proof -
  obtain r where r: "GetNodeFromPath ops root (AsUTF8Unsafe ops rel) = Some r"
    "case asar_lookup t ns of None \<Rightarrow> r = None | Some k \<Rightarrow> \<exists>u. r = Some u \<and> represents ops arch (header_size ar) k u"
    using GetNodeFromPath_represents [OF archive(3) names(2)] names(1) by auto
  have info: "GetFileInfo ops ar rel FileInfo_init = (case r of None \<Rightarrow> Some (False, FileInfo_init) | Some u \<Rightarrow>
      (case FindStringKey ops ''link'' u of Some l \<Rightarrow> GetFileInfo ops ar (FromUTF8Unsafe ops l) FileInfo_init
       | None \<Rightarrow> FillFileInfoWithNode ops FileInfo_init (header_size ar) (header_validated ar) u))"
    by (subst GetFileInfo.simps) (simp add: archive(2) r(1))
  show ?thesis
  proof (cases "asar_lookup t ns")
    case None
    then show ?thesis using r(2) info by (simp add: asar_ReadFileToString_def split archive(1))
  next
    case (Some k)
    then obtain u where u: "r = Some u" "represents ops arch (header_size ar) k u" using r(2) by auto
    note info = info [unfolded u(1) option.case represents_no_link [OF u(2)]]
    show ?thesis
    proof (cases k)
      case (ADir kids)
      have "FindIntKey ops ''size'' u = None" using u(2) unfolding ADir by (auto elim: represents_dirE)
      then have "GetFileInfo ops ar rel FileInfo_init = Some (False, FileInfo_init)" by (simp add: info FillFileInfoWithNode_def)
      then show ?thesis using Some ADir by (simp add: asar_ReadFileToString_def split archive(1))
    next
      case (AFile c)
      obtain i where i: "FillFileInfoWithNode ops FileInfo_init (header_size ar) (header_validated ar) u = Some (True, i)" "\<not> fi_unpacked i"
        "unat (fi_size i) = length c" "unat (fi_offset i) + length c \<le> length arch" "take (length c) (drop (unat (fi_offset i)) arch) = c"
        "fi_integrity i = None"
        using FillFileInfo_represents [OF u(2) [unfolded AFile] plain] by blast
      have small: "length c < 2 ^ 31" using u(2) unfolding AFile by (auto elim: represents_fileE)
      have n: "unat (ucast (fi_size i) :: u64) = length c" using i(3) by (simp add: ucast_u32_u64)
      have "uint (ucast (fi_size i) :: u64) = int (unat (ucast (fi_size i) :: u64))" by simp
      note un = this [unfolded n]
      have "u64_int (ucast (fi_size i)) = int (length c)"
        unfolding u64_int_def un using small by (simp add: int32_id int32_min_def int32_max_def)
      moreover have "File_Read ops (fi_offset i) (ucast (fi_size i)) (File_Open ops asar_path w) = (int (length c), c)"
        using archive(4) i(4,5) small n un by (simp add: file_holds_def)
      ultimately show ?thesis
        using archive(4) i Some AFile info by (simp add: asar_ReadFileToString_def split archive(1) file_holds_def)
    qed
  qed
qed

section \<open>Finding the archive\<close>

definition cache_true :: "('v, 'p, 'f, 'w) asar_ops \<Rightarrow> 'w \<Rightarrow> ('v, 'p, 'f) AsarState \<Rightarrow> bool" where
  "cache_true ops w s \<longleftrightarrow> (\<forall>p b. is_directory_cache s p = Some b \<longrightarrow> b = DirectoryExists ops p w)"

definition is_archive :: "('v, 'p, 'f, 'w) asar_ops \<Rightarrow> 'w \<Rightarrow> 'p \<Rightarrow> bool" where
  "is_archive ops w p \<longleftrightarrow> MatchesAsar ops p \<and> \<not> DirectoryExists ops p w"

lemma IsDirectoryCached_true:
  "cache_true ops w s \<Longrightarrow> IsDirectoryCached ops w p s = (b, s1) \<Longrightarrow>
    b = DirectoryExists ops p w \<and> cache_true ops w s1 \<and> archive_cache s1 = archive_cache s"
  by (auto simp: IsDirectoryCached_def cache_true_def Let_def split: option.splits if_splits)

text \<open>The innermost archive on the way up from \<open>p\<close>, if any.\<close>

definition innermost :: "('v, 'p, 'f, 'w) asar_ops \<Rightarrow> 'w \<Rightarrow> 'p \<Rightarrow> 'p option \<Rightarrow> bool" where
  "innermost ops w p r \<longleftrightarrow>
     (case r of
        None \<Rightarrow> \<forall>k. \<not> is_archive ops w ((DirName ops ^^ k) p)
      | Some a \<Rightarrow> \<exists>k. a = (DirName ops ^^ k) p \<and> is_archive ops w a \<and> (\<forall>j<k. \<not> is_archive ops w ((DirName ops ^^ j) p)))"

lemma innermost_step:
  assumes "\<not> is_archive ops w p" "innermost ops w (DirName ops p) r"
  shows "innermost ops w p r"
proof (cases r)
  case None
  have "\<not> is_archive ops w ((DirName ops ^^ k) p)" for k
    using assms None by (cases k) (auto simp: innermost_def funpow_swap1 simp del: funpow.simps(2) simp: funpow_Suc_right)
  then show ?thesis by (simp add: None innermost_def)
next
  case (Some a)
  then obtain k where k: "a = (DirName ops ^^ k) (DirName ops p)" "is_archive ops w a" "\<forall>j<k. \<not> is_archive ops w ((DirName ops ^^ j) (DirName ops p))"
    using assms(2) by (auto simp: innermost_def)
  have "\<not> is_archive ops w ((DirName ops ^^ j) p)" if "j < Suc k" for j
    using that assms(1) k(3) by (cases j) (auto simp: funpow_Suc_right simp del: funpow.simps(2))
  moreover have "a = (DirName ops ^^ Suc k) p" using k(1) by (simp add: funpow_Suc_right del: funpow.simps(2))
  ultimately show ?thesis using k(2) unfolding Some innermost_def option.case by blast
qed

lemma archive_loop_innermost:
  assumes depth: "\<forall>p. DirName ops p \<noteq> p \<longrightarrow> depth (DirName ops p) < (depth p :: nat)" and "cache_true ops w s"
  shows "\<exists>r s1. archive_loop ops w p s = Some (r, s1) \<and> innermost ops w p r \<and> cache_true ops w s1 \<and> archive_cache s1 = archive_cache s"
  using assms(2)
proof (induction "depth p" arbitrary: p s rule: less_induct)
  case less
  obtain dir s1 where d: "(if MatchesAsar ops p then IsDirectoryCached ops w p s else (True, s)) = (dir, s1)" by fastforce
  have s1: "(MatchesAsar ops p \<and> \<not> dir) = is_archive ops w p" "cache_true ops w s1" "archive_cache s1 = archive_cache s"
    using d IsDirectoryCached_true [OF less.prems, of p dir s1] less.prems by (auto simp: is_archive_def split: if_splits)
  have step: "archive_loop ops w p s = (if is_archive ops w p then Some (Some p, s1)
      else if p = DirName ops p then Some (None, s1) else archive_loop ops w (DirName ops p) s1)"
    by (subst archive_loop.simps) (simp only: d Let_def prod.case s1(1))
  consider "is_archive ops w p" | "\<not> is_archive ops w p" "p = DirName ops p" | "\<not> is_archive ops w p" "p \<noteq> DirName ops p" by blast
  then show ?case
  proof cases
    case 1
    then have "innermost ops w p (Some p)" by (auto simp: innermost_def intro: exI [of _ 0])
    then show ?thesis using 1 step s1 by simp
  next
    case 2
    then have "(DirName ops ^^ k) p = p" for k by (induction k) auto
    then have "innermost ops w p None" using 2 by (simp add: innermost_def)
    then show ?thesis using 2 step s1 by simp
  next
    case 3
    then have "depth (DirName ops p) < depth p" using depth by simp
    from less.hyps [OF this s1(2)] show ?thesis using 3 step s1(3) innermost_step [OF 3(1)] by auto
  qed
qed

text \<open>C36: the search for the archive of a path ends at the innermost archive on the way. As long as
  going up a path ends, and what is cached about directories is true, GetAsarArchivePath returns;
  it finds the innermost part of the path that has the extension of an archive and is no
  directory, and the rest of the path below it, and fails when there is no such part.\<close>

theorem GetAsarArchivePath_correct:
  assumes depth: "\<forall>p. DirName ops p \<noteq> p \<longrightarrow> depth (DirName ops p) < (depth p :: nat)" and cache: "cache_true ops w s"
  shows "\<exists>r s1. innermost ops w p r \<and> cache_true ops w s1 \<and> archive_cache s1 = archive_cache s \<and>
    GetAsarArchivePath ops w p root s =
      Some (case r of None \<Rightarrow> None
            | Some a \<Rightarrow> if root \<and> a = p then Some (a, path_empty ops) else map_option (Pair a) (AppendRelativePath ops a p), s1)"
  using archive_loop_innermost [OF assms, of p] by (fastforce simp: GetAsarArchivePath_def)

section \<open>Links\<close>

text \<open>The nodes of the paths \<open>C\<close> are links to paths of \<open>C\<close>.\<close>

definition link_cycle :: "('v, 'p, 'f, 'w) asar_ops \<Rightarrow> ('v, 'p, 'f) Archive \<Rightarrow> 'p set \<Rightarrow> bool" where
  "link_cycle ops ar C \<longleftrightarrow>
     (\<forall>p \<in> C. \<exists>root n l. header ar = Some root \<and> GetNodeFromPath ops root (AsUTF8Unsafe ops p) = Some (Some n) \<and>
        FindStringKey ops ''link'' n = Some l \<and> FromUTF8Unsafe ops l \<in> C)"

lemma GetFileInfo_no_cycle:
  assumes "GetFileInfo ops ar path info = Some r"
  shows "\<forall>C. link_cycle ops ar C \<longrightarrow> path \<notin> C"
proof (rule GetFileInfo.raw_induct [of "\<lambda>ops ar path info r. \<forall>C. link_cycle ops ar C \<longrightarrow> path \<notin> C", OF _ assms], intro allI impI notI)
  fix f :: "('a, 'b, 'c, 'd) asar_ops \<Rightarrow> ('a, 'b, 'c) Archive \<Rightarrow> 'b \<Rightarrow> FileInfo \<Rightarrow> (bool \<times> FileInfo) option"
    and ops ar path info r C
  assume ih: "\<And>ops ar path info r. f ops ar path info = Some r \<Longrightarrow> \<forall>C. link_cycle ops ar C \<longrightarrow> path \<notin> C"
    and run: "(case header ar of None \<Rightarrow> Some (False, info)
      | Some root \<Rightarrow> GetNodeFromPath ops root (AsUTF8Unsafe ops path) \<bind> (\<lambda>node. case node of None \<Rightarrow> Some (False, info)
          | Some n \<Rightarrow> (case FindStringKey ops ''link'' n of None \<Rightarrow> FillFileInfoWithNode ops info (header_size ar) (header_validated ar) n
              | Some link \<Rightarrow> f ops ar (FromUTF8Unsafe ops link) info))) = Some r"
    and cyc: "link_cycle ops ar C" and "path \<in> C"
  then obtain root n l where n: "header ar = Some root" "GetNodeFromPath ops root (AsUTF8Unsafe ops path) = Some (Some n)"
    "FindStringKey ops ''link'' n = Some l" "FromUTF8Unsafe ops l \<in> C"
    unfolding link_cycle_def by blast
  then have "f ops ar (FromUTF8Unsafe ops l) info = Some r" using run by simp
  from ih [OF this] show False using cyc n(4) by blast
qed

text \<open>Links that lead back to themselves are followed for ever. For every set of paths whose nodes are
  links to paths of the set, getting the information of one of them, and so reading it or copying it
  out, does not return.\<close>

theorem GetFileInfo_link_cycle:
  assumes "link_cycle ops ar C" "path \<in> C"
  shows "GetFileInfo ops ar path info = None \<and> (ar_external_files ar path = None \<longrightarrow> CopyFileOut ops path ar w = None)"
proof -
  have "GetFileInfo ops ar path i = None" for i
    using GetFileInfo_no_cycle [of ops ar path i] assms by (cases "GetFileInfo ops ar path i") auto
  moreover have "header ar \<noteq> None" using assms by (auto simp: link_cycle_def)
  ultimately show ?thesis by (auto simp: CopyFileOut_def)
qed

text \<open>A separator at the end of a path leads back to the root, whatever comes before it.\<close>

lemma trailing_separator:
  assumes "name_ok ops n" "GetChildNode ops (GetNodeFromPath ops root) root n root = Some (Some c)"
  shows "GetNodeFromPath ops root (n @ [CHR 0x2F]) = Some (Some root)"
proof -
  let ?sep = "\<lambda>c. c \<in> kSeparators ops"
  have n: "\<forall>c \<in> set n. \<not> ?sep c" "?sep (CHR 0x2F)" using assms(1) by (auto simp: name_ok_def kSeparators_def)
  have split: "dropWhile (Not \<circ> ?sep) (n @ [CHR 0x2F]) = [CHR 0x2F]" "takeWhile (Not \<circ> ?sep) (n @ [CHR 0x2F]) = n"
    using n by (simp_all add: dropWhile_append2 takeWhile_append2)
  have "node_loop ops f root [] v = Some (Some root)" for f and v by (simp add: node_loop.simps [of _ _ _ "[]"] GetChildNode_def)
  then show ?thesis
    unfolding GetNodeFromPath.simps [of _ _ "n @ [CHR 0x2F]"] node_loop.simps [of _ _ _ "n @ [CHR 0x2F]"] Let_def split list.case
    by (simp add: assms(2))
qed

section \<open>Sample archive\<close>

text \<open>For the witnesses: values of JSON, paths as lists of names, and a file system with one archive.\<close>

datatype sample_json = SDict "(string \<times> sample_json) list" | SStr string | SInt int

fun sample_find :: "string \<Rightarrow> sample_json \<Rightarrow> sample_json option" where
  "sample_find k (SDict kvs) = map_of kvs k"
| "sample_find k _ = None"

definition sample_bytes :: "u8 list" where "sample_bytes = replicate 10 0 @ [104, 105]"

definition sample_asar :: "sample_json \<Rightarrow> (sample_json, string list, u8 list, unit) asar_ops" where
  "sample_asar root = \<lparr>FindStringKey = \<lambda>k v. (case sample_find k v of Some (SStr s) \<Rightarrow> Some s | _ \<Rightarrow> None),
     FindIntKey = \<lambda>k v. (case sample_find k v of Some (SInt i) \<Rightarrow> Some i | _ \<Rightarrow> None), FindBoolKey = \<lambda>_ _. None, FindListKey = \<lambda>_ _. None,
     FindKey = \<lambda>k v. sample_find k v \<noteq> None, GetDictionary = \<lambda>k v. (case sample_find k v of Some (SDict d) \<Rightarrow> Some (SDict d) | _ \<Rightarrow> None),
     dict_keys = \<lambda>_. [], JSONReader_Read = \<lambda>_. Some root, StringToUint64 = \<lambda>_. (True, 0), Pickle_UInt32 = \<lambda>_. Some 2, Pickle_String = \<lambda>_. Some [],
     AsUTF8Unsafe = join_path, FromUTF8Unsafe = \<lambda>s. [s], path_empty = [], DirName = butlast, MatchesAsar = \<lambda>p. p \<noteq> [] \<and> last p = ''app.asar'',
     AppendRelativePath = \<lambda>a p. if take (length a) p = a \<and> length a < length p then Some (drop (length a) p) else None,
     AddUnpacked = id, path_Append = (@), path_Extension = \<lambda>_. [], AddExtension = \<lambda>_ p. p, File_Open = \<lambda>_ _. sample_bytes,
     File_IsValid = \<lambda>_. True, ReadAtCurrentPos = \<lambda>n f. (u64_int n, [], f), File_Read = \<lambda>off n f. (int (unat n), take (unat n) (drop (unat off) f)),
     base_ReadFileToString = \<lambda>_ _. None, DirectoryExists = \<lambda>_ _. False, CreateTemporaryFile = \<lambda>w. (None, w), file_Move = \<lambda>_ _ w. (False, w),
     file_Write = \<lambda>_ _ w. (None, w), file_Delete = \<lambda>_ w. w, SetPosixFilePermissions = \<lambda>_ w. w, sha256_hex = \<lambda>_. [],
     on_windows = False, on_mac = False, integrity_fuse = False\<rparr>"

lemma sample_asar_simps [simp]:
  "FindStringKey (sample_asar root) k v = (case sample_find k v of Some (SStr s) \<Rightarrow> Some s | _ \<Rightarrow> None)"
  "FindIntKey (sample_asar root) k v = (case sample_find k v of Some (SInt i) \<Rightarrow> Some i | _ \<Rightarrow> None)"
  "FindBoolKey (sample_asar root) k v = None" "JSONReader_Read (sample_asar root) h = Some root"
  "GetDictionary (sample_asar root) k v = (case sample_find k v of Some (SDict d) \<Rightarrow> Some (SDict d) | _ \<Rightarrow> None)"
  "StringToUint64 (sample_asar root) s = (True, 0)" "Pickle_UInt32 (sample_asar root) b = Some 2" "Pickle_String (sample_asar root) b = Some []"
  "AsUTF8Unsafe (sample_asar root) = join_path" "FromUTF8Unsafe (sample_asar root) s = [s]" "DirName (sample_asar root) = butlast"
  "MatchesAsar (sample_asar root) p \<longleftrightarrow> p \<noteq> [] \<and> last p = ''app.asar''" "DirectoryExists (sample_asar root) p w = False"
  "AppendRelativePath (sample_asar root) a p = (if take (length a) p = a \<and> length a < length p then Some (drop (length a) p) else None)"
  "File_Open (sample_asar root) p w = sample_bytes" "File_IsValid (sample_asar root) f" "ReadAtCurrentPos (sample_asar root) n f = (u64_int n, [], f)"
  "File_Read (sample_asar root) off n f = (int (unat n), take (unat n) (drop (unat off) f))"
  "\<not> on_windows (sample_asar root)" "\<not> on_mac (sample_asar root)"
  by (simp_all add: sample_asar_def)

definition sample_header :: sample_json where
  "sample_header = SDict [(''files'', SDict [(''a'', SDict [(''size'', SInt 2), (''offset'', SStr ''0'')])])]"

definition empty_asar :: "(sample_json, string list, u8 list) AsarState" where
  "empty_asar = \<lparr>archive_cache = (\<lambda>_. None), is_directory_cache = (\<lambda>_. None)\<rparr>"

lemma sample_represents:
  "represents (sample_asar sample_header) sample_bytes 10 (ADir [(''a'', AFile [104, 105])]) sample_header"
proof (rule repr_dir [of _ _ "SDict [(''a'', SDict [(''size'', SInt 2), (''offset'', SStr ''0'')])]"])
  fix n u k
  assume "GetDictionary (sample_asar sample_header) n (SDict [(''a'', SDict [(''size'', SInt 2), (''offset'', SStr ''0'')])]) = Some u"
    "map_of [(''a'', AFile [104, 105])] n = Some k"
  then have ku: "k = AFile [104, 105]" "u = SDict [(''size'', SInt 2), (''offset'', SStr ''0'')]" by (simp_all split: if_splits)
  show "represents (sample_asar sample_header) sample_bytes 10 k u"
    unfolding ku by (rule repr_file [where otext = "''0''" and off = 0]) (simp_all add: sample_bytes_def)
qed (simp_all add: sample_header_def)

lemma sample_split:
  "GetAsarArchivePath (sample_asar root) () [''app.asar'', ''a''] False empty_asar =
     Some (Some ([''app.asar''], [''a'']), empty_asar\<lparr>is_directory_cache := [[''app.asar''] \<mapsto> False]\<rparr>)"
  by (simp add: GetAsarArchivePath_def archive_loop.simps [of _ _ "[''app.asar'', ''a'']"] archive_loop.simps [of _ _ "[''app.asar'']"]
      IsDirectoryCached_def empty_asar_def Let_def)

theorem asar_ReadFileToString_correct_witness:
  "map_option fst (asar_ReadFileToString (sample_asar sample_header) (\<lambda>_. False) (\<lambda>_. None) [''app.asar'', ''a''] empty_asar ()) = Some (Some [104, 105])"
proof -
  let ?ops = "sample_asar sample_header"
  let ?s = "empty_asar\<lparr>is_directory_cache := [[''app.asar''] \<mapsto> False]\<rparr>"
  obtain ar s2 where ar: "GetOrCreateAsarArchive ?ops (\<lambda>_. False) (\<lambda>_. None) () [''app.asar''] ?s = Some (Some ar, s2)"
    "header ar = Some sample_header" "header_size ar = 10"
    by (simp add: GetOrCreateAsarArchive_def Archive_Init_def Archive_make_def read_exact_def validate_header_def empty_asar_def)
  have r: "represents ?ops sample_bytes (header_size ar) (ADir [(''a'', AFile [104, 105])]) sample_header" using sample_represents by (simp add: ar(3))
  have f: "file_holds ?ops (File_Open ?ops [''app.asar''] ()) sample_bytes" by (simp add: file_holds_def)
  have n: "AsUTF8Unsafe ?ops [''a''] = join_path [''a'']" "\<forall>n \<in> set [''a'']. name_ok ?ops n" "\<not> (on_mac ?ops \<and> header_validated ar \<and> integrity_fuse ?ops)"
    by (simp_all add: name_ok_def kSeparators_def)
  show ?thesis unfolding asar_ReadFileToString_correct [OF sample_split ar(1,2) r f n] by simp
qed

theorem GetAsarArchivePath_correct_witness:
  "\<exists>r s1. innermost (sample_asar sample_header) () [''app.asar'', ''a''] r \<and>
     GetAsarArchivePath (sample_asar sample_header) () [''app.asar'', ''a''] False empty_asar = Some (Some ([''app.asar''], [''a'']), s1) \<and> r = Some [''app.asar'']"
proof -
  have d: "\<forall>p. DirName (sample_asar sample_header) p \<noteq> p \<longrightarrow> length (DirName (sample_asar sample_header) p) < length p"
    by auto (metis One_nat_def butlast.simps(1) diff_less length_greater_0_conv zero_less_one)
  have "cache_true (sample_asar sample_header) () empty_asar" by (simp add: cache_true_def empty_asar_def)
  from GetAsarArchivePath_correct [OF d this, of "[''app.asar'', ''a'']" False] show ?thesis
    unfolding sample_split by (auto split: option.splits if_splits)
qed

theorem GetFileInfo_link_cycle_witness:
  "GetFileInfo (sample_asar sample_header)
     ((Archive_make (sample_asar sample_header) [] ())\<lparr>header := Some (SDict [(''files'', SDict [(''a'', SDict [(''link'', SStr ''a'')])])])\<rparr>) [''a''] FileInfo_init = None"
proof -
  let ?ar = "(Archive_make (sample_asar sample_header) [] ())\<lparr>header := Some (SDict [(''files'', SDict [(''a'', SDict [(''link'', SStr ''a'')])])])\<rparr>"
  have "link_cycle (sample_asar sample_header) ?ar {[''a'']}"
    by (simp add: link_cycle_def GetNodeFromPath.simps [of _ _ "''a''"] node_loop.simps [of _ _ _ "''a''"] kSeparators_def GetChildNode_def GetFilesNode_def)
  from GetFileInfo_link_cycle [OF this, of "[''a'']"] show ?thesis by simp
qed

end
