(* ===== verification/Asar_Loader.thy ===== *)
theory Asar_Loader
  imports Asar_Util
begin

text \<open>
  shell/browser/net/asar/asar\_file\_validator.cc and asar\_url\_loader.cc: the files of an archive are
  served to pages as \<open>file:\<close> URLs, also in part, and where the header of the archive has hashes of the
  blocks of a file, every block that is touched is checked. Files, pipes, headers and types of content
  are parameters. A failed check ends the process, as does undefined behaviour: both are \<^const>\<open>None\<close>.
\<close>

section \<open>The validator\<close>

record 'f AsarFileValidator =
  v_file :: 'f
  v_integrity :: IntegrityPayload
  read_start :: u64
  extra_read :: u64
  read_max :: u64
  done_reading :: bool
  current_block :: int
  max_block :: int
  current_hash_byte_count :: u64
  total_hash_byte_count :: u64
  current_hash :: "u8 list option"

text \<open>A hash in progress is the list of the bytes it has been given.\<close>

definition AsarFileValidator_make :: "IntegrityPayload \<Rightarrow> 'f \<Rightarrow> 'f AsarFileValidator" where
  "AsarFileValidator_make integrity f =
     \<lparr>v_file = f, v_integrity = integrity, read_start = 0, extra_read = 0, read_max = 0, done_reading = False,
      current_block = 0, max_block = int32 (int (length (ip_blocks integrity)) - 1),
      current_hash_byte_count = 0, total_hash_byte_count = 0, current_hash = None\<rparr>"

definition v_block_size :: "'f AsarFileValidator \<Rightarrow> u64" where
  "v_block_size v = ucast (ip_block_size (v_integrity v))"

text \<open>The rest of a block, after the last read, that is hashed but not served. A read of \<open>n\<close> bytes has to
  give all of them; \<open>front\<close> of an empty buffer is undefined.\<close>

definition hash_rest :: "('v, 'p, 'f, 'w) asar_ops \<Rightarrow> u8 list \<Rightarrow> 'f AsarFileValidator \<Rightarrow> u8 list option" where
  "hash_rest ops h v =
     (if done_reading v \<and> total_hash_byte_count v - extra_read v \<noteq> read_max v - read_start v then
        let bytes_needed = min (v_block_size v - current_hash_byte_count v)
                               (read_max v - read_start v - total_hash_byte_count v + extra_read v);
            offset = read_start v + total_hash_byte_count v - extra_read v;
            (len, bytes) = File_Read ops offset bytes_needed (v_file v)
        in if len \<noteq> uint bytes_needed \<or> bytes_needed = 0 then None else Some (h @ bytes)
      else Some h)"

definition FinishBlock :: "('v, 'p, 'f, 'w) asar_ops \<Rightarrow> 'f AsarFileValidator \<Rightarrow> (bool \<times> 'f AsarFileValidator) option" where
  "FinishBlock ops v =
     (if current_hash_byte_count v = 0 \<and> (\<not> done_reading v \<or> current_block v > max_block v) then Some (True, v)
      else do {
        actual \<leftarrow> hash_rest ops (case current_hash v of None \<Rightarrow> [] | Some h \<Rightarrow> h) v;
        let v1 = v\<lparr>current_hash := None, current_hash_byte_count := 0\<rparr>;
        expected_hash \<leftarrow> (if current_block v < 0 then None else idx (ip_blocks (v_integrity v)) (nat (current_block v)));
        Some (if expected_hash \<noteq> sha256_hex ops actual then (False, v1)
              else (True, v1\<lparr>current_block := current_block v + 1\<rparr>)) })"

text \<open>The loop of \<open>OnRead\<close> over the bytes that are left of the buffer. The count of a step is an \<open>int\<close>; one
  that does not fit, from a block size of 2 GB or more, is not followed.\<close>

partial_function (option) OnRead ::
  "('v, 'p, 'f, 'w) asar_ops \<Rightarrow> u8 list \<Rightarrow> 'f AsarFileValidator \<Rightarrow> 'f AsarFileValidator option" where
  "OnRead ops buffer v =
     (if buffer = [] then Some v
      else if current_block v > max_block v then None
      else do {
        v1 \<leftarrow> (case current_hash v of
                 Some _ \<Rightarrow> Some v
               | None \<Rightarrow> if ip_algorithm (v_integrity v) = SHA256
                          then Some (v\<lparr>current_hash_byte_count := 0, current_hash := Some []\<rparr>) else None);
        n \<leftarrow> int_checked (uint (min (v_block_size v1 - current_hash_byte_count v1) (of_nat (length buffer))));
        let bytes_to_hash = nat n;
        let v2 = v1\<lparr>current_hash := map_option (\<lambda>h. h @ take bytes_to_hash buffer) (current_hash v1),
                    current_hash_byte_count := current_hash_byte_count v1 + of_nat bytes_to_hash,
                    total_hash_byte_count := total_hash_byte_count v1 + of_nat bytes_to_hash\<rparr>;
        v3 \<leftarrow> (if current_hash_byte_count v2 = v_block_size v2 then do {
                 (ok, v3) \<leftarrow> FinishBlock ops v2;
                 (if ok then Some v3 else None) }
               else Some v2);
        OnRead ops (drop bytes_to_hash buffer) v3 })"

definition OnDone :: "('v, 'p, 'f, 'w) asar_ops \<Rightarrow> 'f AsarFileValidator \<Rightarrow> 'f AsarFileValidator option" where
  "OnDone ops v = do {
     (ok, v1) \<leftarrow> FinishBlock ops (v\<lparr>done_reading := True\<rparr>);
     (if ok then Some v1 else None) }"

definition SetRange :: "u64 \<Rightarrow> u64 \<Rightarrow> u64 \<Rightarrow> 'f AsarFileValidator \<Rightarrow> 'f AsarFileValidator" where
  "SetRange start extra mx v = v\<lparr>read_start := start, extra_read := extra, read_max := mx\<rparr>"

definition SetCurrentBlock :: "int \<Rightarrow> 'f AsarFileValidator \<Rightarrow> 'f AsarFileValidator" where
  "SetCurrentBlock block v = v\<lparr>current_block := block\<rparr>"

section \<open>The loader\<close>

datatype MojoResult = MOJO_OK | MOJO_NOT_FOUND | MOJO_PERMISSION_DENIED | MOJO_RESOURCE_EXHAUSTED | MOJO_ABORTED | MOJO_OTHER

datatype NetError =
  NET_OK | NET_FAILED | NET_FILE_NOT_FOUND | NET_ACCESS_DENIED | NET_INSUFFICIENT_RESOURCES | NET_ABORTED
| NET_REQUEST_RANGE_NOT_SATISFIABLE

fun ConvertMojoResultToNetError :: "MojoResult \<Rightarrow> NetError" where
  "ConvertMojoResultToNetError MOJO_OK = NET_OK"
| "ConvertMojoResultToNetError MOJO_NOT_FOUND = NET_FILE_NOT_FOUND"
| "ConvertMojoResultToNetError MOJO_PERMISSION_DENIED = NET_ACCESS_DENIED"
| "ConvertMojoResultToNetError MOJO_RESOURCE_EXHAUSTED = NET_INSUFFICIENT_RESOURCES"
| "ConvertMojoResultToNetError MOJO_ABORTED = NET_ABORTED"
| "ConvertMojoResultToNetError MOJO_OTHER = NET_FAILED"

definition kDefaultFileUrlPipeSize :: u64 where "kDefaultFileUrlPipeSize = 65536"
definition kMaxBytesToSniff :: u32 where "kMaxBytesToSniff = 1024"

text \<open>What the client of the loader is told, or that a plain file is served by Chromium.\<close>

record ResponseHead =
  content_length :: int
  mime_type :: string
  did_mime_sniff :: bool
  response_headers :: "(string \<times> string) list option"

datatype loader_message =
  ReceivedResponse ResponseHead
| Completed NetError u64
| ServedAsPlainFile

text \<open>The parameters: the request, a pipe, the types of content. \<open>source_read\<close> reads from a file at an
  offset; \<open>write_data\<close> is the first write to the pipe. A range is its first and last byte.\<close>

record ('p, 'f, 'r) loader_env =
  FileURLToFilePath :: "'p option"
  pipe_created :: bool
  range_header :: "string option"
  ParseRangeHeader :: "string \<Rightarrow> 'r list option"
  ComputeBounds :: "u32 \<Rightarrow> 'r \<Rightarrow> 'r option"
  range_IsValid :: "'r \<Rightarrow> bool"
  first_byte_position :: "'r \<Rightarrow> u64"
  last_byte_position :: "'r \<Rightarrow> u64"
  default_range :: 'r
  source_read :: "'f \<Rightarrow> u64 \<Rightarrow> u64 \<Rightarrow> MojoResult \<times> u8 list"
  write_data :: "u8 list \<Rightarrow> MojoResult \<times> u32"
  GetMimeTypeFromFile :: "'p \<Rightarrow> string option"
  SniffMimeType :: "u8 list \<Rightarrow> string"
  extra_headers :: "(string \<times> string) list option"

text \<open>The data producer has a file, the position and the end of what is to be written, and the validator
  if there is one.\<close>

record 'f DataProducer =
  dp_file :: 'f
  dp_position :: u64
  dp_end :: u64
  dp_validator :: "'f AsarFileValidator option"

record 'f AsarURLLoader =
  receiver_bound :: bool
  client_bound :: bool
  loader_deleted :: bool
  data_producer :: "'f DataProducer option"
  total_bytes_written :: u64
  client_log :: "loader_message list"
  piped :: "u8 list"

definition AsarURLLoader_init :: "'f AsarURLLoader" where
  "AsarURLLoader_init =
     \<lparr>receiver_bound = False, client_bound = False, loader_deleted = False, data_producer = None,
      total_bytes_written = 0, client_log = [], piped = []\<rparr>"

definition tell :: "loader_message \<Rightarrow> 'f AsarURLLoader \<Rightarrow> 'f AsarURLLoader" where
  "tell m st = st\<lparr>client_log := client_log st @ [m]\<rparr>"

definition MaybeDeleteSelf :: "'f AsarURLLoader \<Rightarrow> 'f AsarURLLoader" where
  "MaybeDeleteSelf st = (if \<not> receiver_bound st \<and> \<not> client_bound st then st\<lparr>loader_deleted := True\<rparr> else st)"

definition OnConnectionError :: "'f AsarURLLoader \<Rightarrow> 'f AsarURLLoader" where
  "OnConnectionError st = MaybeDeleteSelf (st\<lparr>receiver_bound := False\<rparr>)"

text \<open>The client is a remote; using it after it was reset is undefined.\<close>

definition OnClientComplete :: "NetError \<Rightarrow> 'f AsarURLLoader \<Rightarrow> 'f AsarURLLoader option" where
  "OnClientComplete e st =
     (if \<not> client_bound st then None
      else Some (MaybeDeleteSelf ((tell (Completed e 0) st)\<lparr>client_bound := False\<rparr>)))"

definition OnFileWritten :: "MojoResult \<Rightarrow> 'f AsarURLLoader \<Rightarrow> 'f AsarURLLoader option" where
  "OnFileWritten result st =
     (let st1 = st\<lparr>data_producer := None\<rparr>
      in if \<not> client_bound st1 then None
         else Some (MaybeDeleteSelf
                ((tell (if result = MOJO_OK then Completed NET_OK (total_bytes_written st1) else Completed NET_FAILED 0) st1)
                   \<lparr>client_bound := False\<rparr>)))"

text \<open>A source of data is a file, behind the validator if there is one. A read passes what was read to
  the validator; the end of the source is the end of the validator.\<close>

definition filtered_read ::
  "('v, 'p, 'f, 'w) asar_ops \<Rightarrow> ('p, 'f, 'r) loader_env \<Rightarrow> 'f \<Rightarrow> u64 \<Rightarrow> u64 \<Rightarrow> 'f AsarFileValidator option
    \<Rightarrow> (MojoResult \<times> u8 list \<times> 'f AsarFileValidator option) option" where
  "filtered_read ops env f offset n validator =
     (let (result, bytes) = source_read env f offset n
      in case validator of
           None \<Rightarrow> Some (result, bytes, None)
         | Some v \<Rightarrow> map_option (\<lambda>v1. (result, bytes, Some v1)) (OnRead ops bytes v))"

definition drop_source :: "('v, 'p, 'f, 'w) asar_ops \<Rightarrow> 'f AsarFileValidator option \<Rightarrow> 's \<Rightarrow> 's option" where
  "drop_source ops validator st =
     (case validator of None \<Rightarrow> Some st | Some v \<Rightarrow> map_option (\<lambda>_. st) (OnDone ops v))"

text \<open>The range that is asked for: \<^const>\<open>None\<close> where it cannot be satisfied.\<close>

definition requested_range :: "('p, 'f, 'r) loader_env \<Rightarrow> u32 \<Rightarrow> 'r option" where
  "requested_range env fsize =
     (case range_header env of
        None \<Rightarrow> Some (default_range env)
      | Some h \<Rightarrow>
          (case ParseRangeHeader env h of
             Some [r] \<Rightarrow> ComputeBounds env fsize r
           | _ \<Rightarrow> None))"

definition saturated_int64 :: "u64 \<Rightarrow> int" where
  "saturated_int64 n = min (uint n) (2 ^ 63 - 1)"

definition content_head :: "('p, 'f, 'r) loader_env \<Rightarrow> 'p \<Rightarrow> u8 list \<Rightarrow> u64 \<Rightarrow> ResponseHead" where
  "content_head env path sniffed total_bytes_to_send =
     (let (mime, sniff) = (case GetMimeTypeFromFile env path of Some m \<Rightarrow> (m, False) | None \<Rightarrow> (SniffMimeType env sniffed, True))
      in \<lparr>content_length = saturated_int64 total_bytes_to_send, mime_type = mime, did_mime_sniff = sniff,
          response_headers = map_option (\<lambda>hs. hs @ [(''Content-Type'', mime)]) (extra_headers env)\<rparr>)"

section \<open>Serving a file\<close>

text \<open>An early end of \<open>Start\<close>: the client is told, and the source ends.\<close>

definition give_up ::
  "('v, 'p, 'f, 'w) asar_ops \<Rightarrow> NetError \<Rightarrow> 'f AsarFileValidator option \<Rightarrow> 'f AsarURLLoader \<Rightarrow> 'f AsarURLLoader option" where
  "give_up ops e validator st = do { st1 \<leftarrow> OnClientComplete e st; drop_source ops validator st1 }"

text \<open>The bytes before the first byte to send, from the start of its block on, are read for the validator.
  Blocks are counted in an \<open>int\<close>, and their starts in 32 bits.\<close>

definition skip_to_range ::
  "('v, 'p, 'f, 'w) asar_ops \<Rightarrow> ('p, 'f, 'r) loader_env \<Rightarrow> 'f \<Rightarrow> FileInfo \<Rightarrow> u32 \<Rightarrow> u64 \<Rightarrow> u64 \<Rightarrow> 'f AsarFileValidator option
    \<Rightarrow> (MojoResult \<times> u64 \<times> 'f AsarFileValidator option) option" where
  "skip_to_range ops env f info block_size first dropped validator =
     (let start_block = int32 (uint (first div ucast block_size));
          block_start = ucast (word_of_int start_block * block_size :: u32) :: u64;
          bytes_to_drop = (if start_block = 0 then first - ucast kMaxBytesToSniff else first - block_start);
          v1 = map_option (SetCurrentBlock start_block) validator
      in if bytes_to_drop > 0
         then map_option (\<lambda>(result, _, v2). (result, dropped + bytes_to_drop, v2))
                (filtered_read ops env f
                   (fi_offset info + block_start + (if start_block = 0 then ucast kMaxBytesToSniff else 0)) bytes_to_drop v1)
         else Some (MOJO_OK, dropped, v1))"

text \<open>After the head: the end, if nothing is left to send, or the data producer.\<close>

definition send_rest ::
  "('v, 'p, 'f, 'w) asar_ops \<Rightarrow> ('p, 'f, 'r) loader_env \<Rightarrow> 'f \<Rightarrow> FileInfo \<Rightarrow> u64 \<Rightarrow> u64 \<Rightarrow> u64 \<Rightarrow> 'f AsarFileValidator option
    \<Rightarrow> 'f AsarURLLoader \<Rightarrow> 'f AsarURLLoader option" where
  "send_rest ops env f info first amount dropped validator st =
     (let file_end = fi_offset info + ucast (fi_size info);
          with_range = (\<lambda>dropped. map_option (SetRange (fi_offset info + first) dropped file_end))
      in if amount = 0 then do {
           st1 \<leftarrow> OnFileWritten MOJO_OK st;
           drop_source ops (with_range dropped validator) st1 }
         else do {
           (result, dropped2, v2) \<leftarrow>
              (case fi_integrity info of
                 None \<Rightarrow> Some (MOJO_OK, dropped, validator)
               | Some i \<Rightarrow> skip_to_range ops env f info (ip_block_size i) first dropped validator);
           (if result \<noteq> MOJO_OK then give_up ops (ConvertMojoResultToNetError result) v2 st
            else Some (st\<lparr>data_producer := Some \<lparr>dp_file = f, dp_position = first + fi_offset info,
                                                  dp_end = first + fi_offset info + amount,
                                                  dp_validator = with_range dropped2 v2\<rparr>\<rparr>)) })"

definition send_range ::
  "('v, 'p, 'f, 'w) asar_ops \<Rightarrow> ('p, 'f, 'r) loader_env \<Rightarrow> 'p \<Rightarrow> 'f \<Rightarrow> FileInfo \<Rightarrow> u8 list \<Rightarrow> u64 \<Rightarrow> u64
    \<Rightarrow> 'f AsarFileValidator option \<Rightarrow> 'f AsarURLLoader \<Rightarrow> 'f AsarURLLoader option" where
  "send_range ops env path f info initial first amount validator st =
     (let initial_size = ucast (min kMaxBytesToSniff (fi_size info)) :: u64;
          bytes_read = of_nat (length initial) :: u64;
          block_size = (case fi_integrity info of None \<Rightarrow> 0 | Some i \<Rightarrow> ip_block_size i);
          respond = tell (ReceivedResponse (content_head env path initial amount))
      in if first < bytes_read then
           let write_size = min (ucast (bytes_read - first)) (ucast amount) :: u32;
               (result, written) = write_data env (take (unat write_size) (drop (unat first) initial));
               st1 = st\<lparr>piped := piped st @ take (unat written) (drop (unat first) initial)\<rparr>
           in if result \<noteq> MOJO_OK \<or> written \<noteq> write_size then do {
                st2 \<leftarrow> OnFileWritten result st1;
                drop_source ops validator st2 }
              else send_rest ops env f info bytes_read (amount - ucast write_size) initial_size validator (respond st1)
         else if fi_integrity info \<noteq> None \<and> first \<ge> ucast block_size then
           let bytes_to_drop = ucast (block_size - kMaxBytesToSniff) :: u64
           in do {
             (result, _, v1) \<leftarrow> filtered_read ops env f (fi_offset info + ucast kMaxBytesToSniff) bytes_to_drop validator;
             (if result \<noteq> MOJO_OK then give_up ops (ConvertMojoResultToNetError result) v1 st
              else send_rest ops env f info first amount (initial_size + bytes_to_drop) v1 (respond st)) }
         else send_rest ops env f info first amount initial_size validator (respond st))"

definition serve_file ::
  "('v, 'p, 'f, 'w) asar_ops \<Rightarrow> ('p, 'f, 'r) loader_env \<Rightarrow> 'p \<Rightarrow> 'f \<Rightarrow> FileInfo \<Rightarrow> 'f AsarURLLoader \<Rightarrow> 'f AsarURLLoader option" where
  "serve_file ops env path f info st = do {
     (result, initial, validator) \<leftarrow>
        filtered_read ops env f (fi_offset info) (ucast (min kMaxBytesToSniff (fi_size info)))
          (map_option (\<lambda>i. AsarFileValidator_make i f) (fi_integrity info));
     (if result \<noteq> MOJO_OK then give_up ops (ConvertMojoResultToNetError result) validator st
      else case requested_range env (fi_size info) of
             None \<Rightarrow> give_up ops NET_REQUEST_RANGE_NOT_SATISFIABLE validator st
           | Some r \<Rightarrow>
               let first = (if range_IsValid env r then first_byte_position env r else 0);
                   amount = (if range_IsValid env r then last_byte_position env r - first + 1 else ucast (fi_size info))
               in send_range ops env path f info initial first amount validator (st\<lparr>total_bytes_written := amount\<rparr>)) }"

definition AsarURLLoader_Start ::
  "('v, 'p, 'f, 'w) asar_ops \<Rightarrow> ('p \<Rightarrow> bool) \<Rightarrow> ('p \<Rightarrow> IntegrityPayload option) \<Rightarrow> ('p, 'f, 'r) loader_env
    \<Rightarrow> ('v, 'p, 'f) AsarState \<Rightarrow> 'w \<Rightarrow> ('f AsarURLLoader \<times> ('v, 'p, 'f) AsarState \<times> 'w) option" where
  "AsarURLLoader_Start ops rel pay env s w =
     (let st = AsarURLLoader_init
      in case FileURLToFilePath env of
           None \<Rightarrow> Some (MaybeDeleteSelf (tell (Completed NET_FAILED 0) st), s, w)
         | Some path \<Rightarrow> do {
             (split, s1) \<leftarrow> GetAsarArchivePath ops w path False s;
             (case split of
                None \<Rightarrow> Some (MaybeDeleteSelf (tell ServedAsPlainFile st), s1, w)
              | Some (asar_path, relative_path) \<Rightarrow>
                  let st1 = st\<lparr>client_bound := True, receiver_bound := True\<rparr>;
                      finish = (\<lambda>r s w. map_option (\<lambda>st2. (st2, s, w)) r)
                  in do {
                    (archive, s2) \<leftarrow> GetOrCreateAsarArchive ops rel pay w asar_path s1;
                    (case archive of
                       None \<Rightarrow> finish (OnClientComplete NET_FILE_NOT_FOUND st1) s2 w
                     | Some ar \<Rightarrow> do {
                         (ok, info) \<leftarrow> GetFileInfo ops ar relative_path FileInfo_init;
                         (if \<not> ok then finish (OnClientComplete NET_FILE_NOT_FOUND st1) s2 w
                          else do {
                            (real_path, info1, s3, w1) \<leftarrow>
                              (if fi_unpacked info then do {
                                 (real, ar1, w1) \<leftarrow> CopyFileOut ops relative_path ar w;
                                 Some (case real of None \<Rightarrow> path_empty ops | Some r \<Rightarrow> r, info\<lparr>fi_offset := 0\<rparr>,
                                       s2\<lparr>archive_cache := (archive_cache s2)(asar_path \<mapsto> ar1)\<rparr>, w1) }
                               else Some (archive_path ar, info, s2, w));
                            (if \<not> pipe_created env then finish (OnClientComplete NET_FAILED st1) s3 w1
                             else finish (serve_file ops env path (File_Open ops real_path w1) info1 st1) s3 w1) }) }) }) })"

text \<open>The data producer reads up to \<open>n\<close> bytes and writes them to the pipe. When it is done, or the pipe is
  closed, its source ends and the loader is told.\<close>

definition producer_step ::
  "('v, 'p, 'f, 'w) asar_ops \<Rightarrow> ('p, 'f, 'r) loader_env \<Rightarrow> u64 \<Rightarrow> 'f AsarURLLoader \<Rightarrow> 'f AsarURLLoader option" where
  "producer_step ops env n st = do {
     dp \<leftarrow> data_producer st;
     (result, bytes, v1) \<leftarrow> filtered_read ops env (dp_file dp) (dp_position dp) (min n (dp_end dp - dp_position dp)) (dp_validator dp);
     Some (st\<lparr>data_producer := Some (dp\<lparr>dp_position := dp_position dp + of_nat (length bytes), dp_validator := v1\<rparr>),
              piped := piped st @ bytes\<rparr>) }"

definition producer_done :: "('v, 'p, 'f, 'w) asar_ops \<Rightarrow> MojoResult \<Rightarrow> 'f AsarURLLoader \<Rightarrow> 'f AsarURLLoader option" where
  "producer_done ops result st = do {
     dp \<leftarrow> data_producer st;
     st1 \<leftarrow> drop_source ops (dp_validator dp) st;
     OnFileWritten result st1 }"

text \<open>The whole of the producer's work: reads of the sizes \<open>ns\<close>, and when everything is written, the end.\<close>

primrec producer_steps ::
  "('v, 'p, 'f, 'w) asar_ops \<Rightarrow> ('p, 'f, 'r) loader_env \<Rightarrow> u64 list \<Rightarrow> 'f AsarURLLoader \<Rightarrow> 'f AsarURLLoader option" where
  "producer_steps ops env [] st = Some st"
| "producer_steps ops env (n # ns) st = do { st1 \<leftarrow> producer_step ops env n st; producer_steps ops env ns st1 }"

definition deliver ::
  "('v, 'p, 'f, 'w) asar_ops \<Rightarrow> ('p, 'f, 'r) loader_env \<Rightarrow> u64 list \<Rightarrow> 'f AsarURLLoader \<Rightarrow> 'f AsarURLLoader option" where
  "deliver ops env ns st =
     (case data_producer st of
        None \<Rightarrow> Some st
      | Some _ \<Rightarrow> do {
          st1 \<leftarrow> producer_steps ops env ns st;
          dp \<leftarrow> data_producer st1;
          (if dp_position dp = dp_end dp then producer_done ops MOJO_OK st1 else Some st1) })"

end
