(* ===== verification/Asar_Validation.thy ===== *)
theory Asar_Validation
  imports Asar_Loader
begin

text \<open>
  What the validator of archive files shows. While the content of a file is read in order, in pieces of
  any size, the validator stays at the position of the reader, and every block that has been completed
  has the hash that the header of the archive gives for it. At the end the block that was begun is
  completed from the file.
\<close>

section \<open>Blocks\<close>

definition block_len :: "IntegrityPayload \<Rightarrow> nat" where
  "block_len i = unat (ip_block_size i)"

definition content_block :: "IntegrityPayload \<Rightarrow> u8 list \<Rightarrow> nat \<Rightarrow> u8 list" where
  "content_block i c j = take (block_len i) (drop (j * block_len i) c)"

definition valid_block :: "('v, 'p, 'f, 'w) asar_ops \<Rightarrow> IntegrityPayload \<Rightarrow> u8 list \<Rightarrow> nat \<Rightarrow> bool" where
  "valid_block ops i c j \<longleftrightarrow> j < length (ip_blocks i) \<and> ip_blocks i ! j = sha256_hex ops (content_block i c j)"

definition integrity_ok :: "IntegrityPayload \<Rightarrow> bool" where
  "integrity_ok i \<longleftrightarrow> ip_algorithm i = SHA256 \<and> 0 < block_len i \<and> block_len i < 2 ^ 31 \<and> length (ip_blocks i) < 2 ^ 31"

text \<open>The validator has been given the content \<open>c\<close> up to position \<open>q\<close>, from the start of a block on: the
  state it then has, whatever the pieces were.\<close>

definition reading :: "IntegrityPayload \<Rightarrow> u8 list \<Rightarrow> nat \<Rightarrow> 'f AsarFileValidator \<Rightarrow> 'f AsarFileValidator" where
  "reading i c q v =
     v\<lparr>current_block := int (q div block_len i),
       current_hash_byte_count := of_nat (q mod block_len i),
       current_hash := (if q mod block_len i = 0 then None else Some (drop (q div block_len i * block_len i) (take q c)))\<rparr>"

definition reads_at :: "IntegrityPayload \<Rightarrow> u8 list \<Rightarrow> nat \<Rightarrow> 'f AsarFileValidator \<Rightarrow> bool" where
  "reads_at i c p v \<longleftrightarrow>
     v_integrity v = i \<and> \<not> done_reading v \<and> max_block v = int (length (ip_blocks i)) - 1 \<and> v = reading i c p v"

definition read_on :: "IntegrityPayload \<Rightarrow> u8 list \<Rightarrow> nat \<Rightarrow> nat \<Rightarrow> 'f AsarFileValidator \<Rightarrow> 'f AsarFileValidator" where
  "read_on i c p n v = reading i c (p + n) (v\<lparr>total_hash_byte_count := total_hash_byte_count v + of_nat n\<rparr>)"

lemma reading_reading [simp]: "reading i c q (reading i c p v) = reading i c q v"
  by (simp add: reading_def)

lemma read_on_0: "reads_at i c p v \<Longrightarrow> read_on i c p 0 v = v"
  by (simp add: read_on_def reads_at_def)

lemma read_on_twice: "read_on i c (p + m) n (read_on i c p m v) = read_on i c p (m + n) v"
  by (simp add: read_on_def reading_def add.assoc)

lemma reads_at_read_on: "reads_at i c p v \<Longrightarrow> reads_at i c (p + n) (read_on i c p n v)"
  by (simp add: reads_at_def read_on_def) (simp add: reading_def)

lemma reads_at_make: "integrity_ok i \<Longrightarrow> reads_at i c 0 (AsarFileValidator_make i f)"
  by (simp add: reads_at_def reading_def AsarFileValidator_make_def integrity_ok_def int32_id int32_min_def int32_max_def)

lemma reads_at_SetRange: "reads_at i c p (SetRange a b m v) = reads_at i c p v"
  by (cases v) (simp add: reads_at_def SetRange_def reading_def)

lemma reads_at_SetCurrentBlock:
  assumes "reads_at i c p v" "p mod block_len i = 0" "0 < block_len i"
  shows "reads_at i c (j * block_len i) (SetCurrentBlock (int j) v)"
  using assms by (cases v) (simp add: reads_at_def SetCurrentBlock_def reading_def)

lemma unat_min_word: "unat (min a b) = min (unat a) (unat b)"
  by (simp add: min_def word_le_nat_alt)

lemma unat_of_nat_64: "n < 2 ^ 64 \<Longrightarrow> unat (of_nat n :: u64) = n"
  by (simp add: unat_of_nat)

lemma v_block_size_nat: "v_block_size v = of_nat (block_len (v_integrity v))"
  by (simp add: v_block_size_def block_len_def)

lemma v_block_size_unat: "unat (v_block_size v) = block_len (v_integrity v)"
  by (simp add: v_block_size_def block_len_def ucast_u32_u64)

lemma take_drop_join: "a \<le> b \<Longrightarrow> b \<le> n \<Longrightarrow> drop a (take b c) @ take (n - b) (drop b c) = take (n - a) (drop a c)"
proof -
  assume "a \<le> b" "b \<le> n"
  then have "n - a = (b - a) + (n - b)" by simp
  then show ?thesis using \<open>a \<le> b\<close> by (simp only: drop_take take_add drop_drop) simp
qed

section \<open>Reading\<close>

lemma block_step:
  assumes "0 < B" "0 < (n::nat)" "n \<le> B - p mod B"
  shows "(p + n) div B = (if p mod B + n = B then Suc (p div B) else p div B)"
    "(p + n) mod B = (if p mod B + n = B then 0 else p mod B + n)"
proof -
  define q where "q = p div B"
  define s where "s = p mod B + n"
  have sum: "p + n = q * B + s" unfolding q_def s_def by simp
  have le: "s \<le> B" using assms mod_less_divisor[OF assms(1), of p] unfolding s_def by linarith
  have "(q * B + s) div B = (if s = B then Suc q else q) \<and> (q * B + s) mod B = (if s = B then 0 else s)"
    using le assms(1) by (cases "s = B") auto
  then show "(p + n) div B = (if p mod B + n = B then Suc (p div B) else p div B)"
    "(p + n) mod B = (if p mod B + n = B then 0 else p mod B + n)"
    unfolding sum by (simp_all add: q_def s_def)
qed

lemma FinishBlock_reading:
  assumes "integrity_ok i" "v_integrity v = i" "\<not> done_reading v" "current_hash v = Some h"
    "current_block v = int k" "current_hash_byte_count v \<noteq> 0" "k < length (ip_blocks i)" "h = content_block i c k"
  shows "FinishBlock ops v =
     Some (if valid_block ops i c k then (True, v\<lparr>current_hash := None, current_hash_byte_count := 0, current_block := int k + 1\<rparr>)
           else (False, v\<lparr>current_hash := None, current_hash_byte_count := 0\<rparr>))"
  using assms by (simp add: FinishBlock_def hash_rest_def valid_block_def idx_def)

lemma OnRead_step:
  assumes i: "integrity_ok i" and v: "reads_at i c p v" and b: "b \<noteq> []" "p + length b \<le> length c"
    "b = take (length b) (drop p c)" and c: "length c < 2 ^ 64"
    and n: "n = min (block_len i - p mod block_len i) (length b)"
  shows "OnRead ops b v =
     (if p div block_len i < length (ip_blocks i) \<and> ((p + n) mod block_len i = 0 \<longrightarrow> valid_block ops i c (p div block_len i))
      then OnRead ops (drop n b) (read_on i c p n v) else None)"
proof -
  let ?B = "block_len i"
  have B: "0 < ?B" "?B < 2 ^ 31" "ip_algorithm i = SHA256" using i by (simp_all add: integrity_ok_def)
  have vi: "v_integrity v = i" "\<not> done_reading v" "max_block v = int (length (ip_blocks i)) - 1" "v = reading i c p v"
    using v unfolding reads_at_def by blast+
  have cur: "current_block v = int (p div ?B)" "current_hash_byte_count v = of_nat (p mod ?B)"
    "current_hash v = (if p mod ?B = 0 then None else Some (drop (p div ?B * ?B) (take p c)))"
    by (subst vi(4), simp add: reading_def)+
  define h where "h = drop (p div ?B * ?B) (take p c)"
  define v1 where "v1 = v\<lparr>current_hash := Some h\<rparr>"
  have mod: "p mod ?B < ?B" using B(1) by simp
  have h0: "p mod ?B = 0 \<Longrightarrow> h = []" using div_mult_mod_eq[of p ?B] by (simp add: h_def)
  have n0: "0 < n" "n \<le> ?B - p mod ?B" "n \<le> length b" using b(1) mod unfolding n by simp_all
  have v1: "(case current_hash v of Some _ \<Rightarrow> Some v
           | None \<Rightarrow> if ip_algorithm (v_integrity v) = SHA256
                     then Some (v\<lparr>current_hash_byte_count := 0, current_hash := Some []\<rparr>) else None) = Some v1"
    using h0 cur vi(1) B(3) unfolding v1_def h_def by (cases v) (auto simp: h_def)
  have bs: "v_block_size v1 = of_nat ?B" "v_integrity v1 = i" by (simp_all add: v_block_size_nat v1_def vi(1))
  have count1: "current_hash_byte_count v1 = of_nat (p mod ?B)" by (simp add: v1_def cur(2))
  have rest: "(of_nat ?B :: u64) - of_nat (p mod ?B) = of_nat (?B - p mod ?B)" using mod by (simp add: of_nat_diff)
  have uints: "uint (min (v_block_size v1 - current_hash_byte_count v1) (of_nat (length b))) = int n"
  proof -
    have "unat (min (v_block_size v1 - current_hash_byte_count v1) (of_nat (length b))) = n"
      unfolding bs count1 rest unat_min_word using b(2) c B(2) by (simp add: unat_of_nat_64 n)
    then show ?thesis by (metis uint_nat)
  qed
  have checked: "int_checked (int n) = Some (int n)"
    using n0 B(2) by (intro int_checked_Some) (simp_all add: int32_min_def int32_max_def)
  define v2 where "v2 = v1\<lparr>current_hash := Some (drop (p div ?B * ?B) (take (p + n) c)),
                    current_hash_byte_count := of_nat (p mod ?B + n), total_hash_byte_count := total_hash_byte_count v + of_nat n\<rparr>"
  have joined: "h @ take n b = drop (p div ?B * ?B) (take (p + n) c)"
  proof -
    have "take n b = take n (drop p c)" using n0(3) by (subst b(3)) (simp add: min_absorb1)
    moreover have "p div ?B * ?B \<le> p" by simp
    ultimately show ?thesis using b(2) n0(3) by (simp add: h_def take_add)
  qed
  have v2: "v1\<lparr>current_hash := map_option (\<lambda>h. h @ take n b) (current_hash v1),
               current_hash_byte_count := current_hash_byte_count v1 + of_nat n,
               total_hash_byte_count := total_hash_byte_count v1 + of_nat n\<rparr> = v2"
    unfolding v2_def using joined count1 by (simp add: v1_def)
  have full: "current_hash_byte_count v2 = v_block_size v2 \<longleftrightarrow> p mod ?B + n = ?B"
  proof -
    have "current_hash_byte_count v2 = of_nat (p mod ?B + n)" "v_block_size v2 = of_nat ?B"
      by (simp_all add: v2_def v1_def v_block_size_nat vi(1))
    moreover have "p mod ?B + n \<le> ?B" using n0(2) mod by linarith
    then have "p mod ?B + n < 2 ^ 64" "?B < 2 ^ 64" using B(2) by simp_all
    ultimately show ?thesis by (metis unat_of_nat_64)
  qed
  have step: "OnRead ops b v =
      (if p div ?B < length (ip_blocks i) then
         do { v3 \<leftarrow> (if p mod ?B + n = ?B then do { (ok, v3) \<leftarrow> FinishBlock ops v2; (if ok then Some v3 else None) } else Some v2);
              OnRead ops (drop n b) v3 }
       else None)"
  proof -
    have "current_block v > max_block v \<longleftrightarrow> \<not> p div ?B < length (ip_blocks i)" using vi(3) cur(1) by linarith
    then show ?thesis
      by (subst OnRead.simps) (simp only: v1 uints checked b(1) bind.bind_lunit Let_def nat_int v2 full if_False if_True not_True_eq_False split: if_split, simp)
  qed
  have div: "(p + n) div ?B = (if p mod ?B + n = ?B then Suc (p div ?B) else p div ?B)"
    and md: "(p + n) mod ?B = (if p mod ?B + n = ?B then 0 else p mod ?B + n)" using block_step[OF B(1) n0(1,2)] by simp_all
  show ?thesis
  proof (cases "p div ?B < length (ip_blocks i) \<and> p mod ?B + n = ?B")
    case True
    have whole: "p + n = Suc (p div ?B) * ?B" using True by (metis add.assoc div_mult_mod_eq mult_Suc add.commute)
    have "FinishBlock ops v2 =
       Some (if valid_block ops i c (p div ?B) then (True, v2\<lparr>current_hash := None, current_hash_byte_count := 0, current_block := int (p div ?B) + 1\<rparr>)
             else (False, v2\<lparr>current_hash := None, current_hash_byte_count := 0\<rparr>))"
    proof (rule FinishBlock_reading[OF i])
      show "v_integrity v2 = i" "\<not> done_reading v2" "current_block v2 = int (p div ?B)"
        using vi(1,2) cur(1) by (simp_all add: v2_def v1_def)
      show "current_hash v2 = Some (drop (p div ?B * ?B) (take (p + n) c))" by (simp add: v2_def)
      have "unat (of_nat (p mod ?B + n) :: u64) = ?B" using True B(2) by (simp add: unat_of_nat_64)
      then show "current_hash_byte_count v2 \<noteq> 0" using B(1) by (auto simp: v2_def)
      show "p div ?B < length (ip_blocks i)" using True by simp
      show "drop (p div ?B * ?B) (take (p + n) c) = content_block i c (p div ?B)"
        unfolding whole content_block_def by (simp add: drop_take)
    qed
    moreover have "v2\<lparr>current_hash := None, current_hash_byte_count := 0, current_block := int (p div ?B) + 1\<rparr> = read_on i c p n v"
      using True unfolding read_on_def reading_def div md by (simp add: v2_def v1_def)
    ultimately show ?thesis using True unfolding step md by simp
  next
    case False
    have "v2 = read_on i c p n v" if "p mod ?B + n \<noteq> ?B"
      using that n0(1) cur(1) unfolding read_on_def reading_def div md by (cases v) (simp add: v2_def v1_def)
    then show ?thesis using False n0(1) unfolding step md by auto
  qed
qed

text \<open>Reading from \<open>p\<close> to \<open>q\<close> is accepted: there are blocks for what was read, and the completed ones are
  the ones the header has hashes of.\<close>

definition blocks_ok :: "('v, 'p, 'f, 'w) asar_ops \<Rightarrow> IntegrityPayload \<Rightarrow> u8 list \<Rightarrow> nat \<Rightarrow> nat \<Rightarrow> bool" where
  "blocks_ok ops i c p q \<longleftrightarrow>
     (p < q \<longrightarrow> (q - 1) div block_len i < length (ip_blocks i)) \<and>
     list_all (valid_block ops i c) [p div block_len i ..< q div block_len i]"

lemma blocks_ok_step:
  assumes B: "0 < block_len i" and n: "n = min (block_len i - p mod block_len i) l" and l: "0 < l"
  shows "blocks_ok ops i c p (p + l) \<longleftrightarrow>
    p div block_len i < length (ip_blocks i) \<and> ((p + n) mod block_len i = 0 \<longrightarrow> valid_block ops i c (p div block_len i)) \<and>
    blocks_ok ops i c (p + n) (p + l)"
proof -
  let ?B = "block_len i"
  have mod: "p mod ?B < ?B" using B by simp
  have n0: "0 < n" "n \<le> ?B - p mod ?B" "n \<le> l" using mod l unfolding n by simp_all
  note s = block_step[OF B n0(1,2)]
  have mono: "p div ?B \<le> (p + l - 1) div ?B" using l by (intro div_le_mono) simp
  show ?thesis
  proof (cases "p mod ?B + n = ?B")
    case True
    have d: "(p + n) div ?B = Suc (p div ?B)" "(p + n) mod ?B = 0" using s True by simp_all
    have "(p + n) div ?B \<le> (p + l) div ?B" using n0(3) by (intro div_le_mono) simp
    then have upt: "[p div ?B ..< (p + l) div ?B] = p div ?B # [(p + n) div ?B ..< (p + l) div ?B]"
      using d(1) by (simp add: upt_conv_Cons)
    have "(p + l - 1) div ?B = p div ?B" if "l = n"
    proof -
      have "p + l - 1 = p div ?B * ?B + (?B - 1)" using that True B div_mult_mod_eq[of p ?B] by linarith
      moreover have "(q * ?B + r) div ?B = q" if "r < ?B" for q r using that by simp
      ultimately show ?thesis using B by (metis diff_less zero_less_one)
    qed
    then show ?thesis using mono n0(3) l unfolding blocks_ok_def upt d(2) by (cases "l = n") auto
  next
    case False
    then have e: "n = l" using n0(2) mod unfolding n by linarith
    then have "p mod ?B + l < ?B" using False n0(2) mod by linarith
    then have "(p + l) div ?B = p div ?B" "(p + l) mod ?B \<noteq> 0" "(p + l - 1) div ?B = p div ?B"
      using s False e l block_step[OF B, of "l - 1" p] by (simp_all, cases "l = 1", simp_all)
    then show ?thesis using l by (simp add: blocks_ok_def e)
  qed
qed

lemma OnRead_reads:
  assumes "integrity_ok i" "reads_at i c p v" "p + length b \<le> length c" "b = take (length b) (drop p c)" "length c < 2 ^ 64"
  shows "OnRead ops b v = (if blocks_ok ops i c p (p + length b) then Some (read_on i c p (length b) v) else None)"
  using assms(2-4)
proof (induction "length b" arbitrary: b p v rule: less_induct)
  case less
  show ?case
  proof (cases "b = []")
    case True
    then show ?thesis using read_on_0[OF less.prems(1)] by (simp add: OnRead.simps blocks_ok_def)
  next
    case False
    define n where "n = min (block_len i - p mod block_len i) (length b)"
    have B: "0 < block_len i" using assms(1) by (simp add: integrity_ok_def)
    then have n0: "0 < n" "n \<le> length b" using False unfolding n_def by simp_all
    have rest: "length (drop n b) < length b" "p + n + length (drop n b) = p + length b" using n0 False by simp_all
    have "drop n b = take (length (drop n b)) (drop (p + n) c)"
      by (subst less.prems(3)) (simp add: drop_take add.commute)
    then have "OnRead ops (drop n b) (read_on i c p n v) =
       (if blocks_ok ops i c (p + n) (p + length b) then Some (read_on i c (p + n) (length b - n) (read_on i c p n v)) else None)"
      using less.hyps[OF rest(1) reads_at_read_on[OF less.prems(1)]] rest less.prems(2) by simp
    then show ?thesis
      unfolding OnRead_step[OF assms(1) less.prems(1) False less.prems(2,3) assms(5) n_def]
        blocks_ok_step[OF B n_def, unfolded length_greater_0_conv, OF False] read_on_twice
      using n0 by auto
  qed
qed

section \<open>The end of reading\<close>

text \<open>The file holds the content at an offset.\<close>

definition holds :: "('v, 'p, 'f, 'w) asar_ops \<Rightarrow> 'f \<Rightarrow> nat \<Rightarrow> u8 list \<Rightarrow> bool" where
  "holds ops f off c \<longleftrightarrow>
     off + length c < 2 ^ 64 \<and>
     (\<forall>p n. p + n \<le> length c \<longrightarrow> File_Read ops (of_nat (off + p)) (of_nat n) f = (int n, take n (drop p c)))"

text \<open>The validator knows where it is: it has been given what comes from position \<open>first\<close> on, up to \<open>p\<close>,
  besides \<open>extra_read\<close> bytes.\<close>

definition placed :: "nat \<Rightarrow> u8 list \<Rightarrow> nat \<Rightarrow> nat \<Rightarrow> 'f AsarFileValidator \<Rightarrow> bool" where
  "placed off c first p v \<longleftrightarrow>
     read_start v = of_nat (off + first) \<and> read_max v = of_nat (off + length c) \<and>
     total_hash_byte_count v = extra_read v + of_nat (p - first) \<and> first \<le> p \<and> p \<le> length c"

lemma placed_read_on: "placed off c first p v \<Longrightarrow> p + n \<le> length c \<Longrightarrow> placed off c first (p + n) (read_on i c p n v)"
  by (simp add: placed_def read_on_def reading_def add.assoc flip: of_nat_add)

lemma hash_rest_reads:
  assumes B: "integrity_ok i" "v_integrity v = i" and f: "holds ops (v_file v) off c" and v: "placed off c first p v" "done_reading v"
    "current_hash_byte_count v = of_nat (p mod block_len i)"
  shows "hash_rest ops h v = Some (h @ take (block_len i - p mod block_len i) (drop p c))"
proof -
  let ?B = "block_len i"
  have B0: "0 < ?B" "?B < 2 ^ 31" using B by (simp_all add: integrity_ok_def)
  have mod: "p mod ?B < ?B" using B0 by simp
  have lens: "first \<le> p" "p \<le> length c" "off + length c < 2 ^ 64" using v f by (simp_all add: placed_def holds_def)
  have start: "read_start v = of_nat (off + first)" and mx: "read_max v = of_nat (off + length c)"
    and tot: "total_hash_byte_count v = extra_read v + of_nat (p - first)" using v(1) by (simp_all add: placed_def)
  have d1: "total_hash_byte_count v - extra_read v = of_nat (p - first)" by (simp add: tot)
  have d2: "read_max v - read_start v = of_nat (length c - first)"
    using lens by (simp add: start mx of_nat_diff)
  have d3: "read_max v - read_start v - total_hash_byte_count v + extra_read v = of_nat (length c - p)"
    using lens by (simp add: start mx tot of_nat_diff)
  have d4: "read_start v + total_hash_byte_count v - extra_read v = of_nat (off + p)"
    using lens by (simp add: start tot of_nat_diff)
  have d5: "v_block_size v - current_hash_byte_count v = of_nat (?B - p mod ?B)"
    using mod by (simp add: v_block_size_nat B(2) v(3) of_nat_diff)
  define n where "n = min (?B - p mod ?B) (length c - p)"
  have need: "min (of_nat (?B - p mod ?B)) (of_nat (length c - p)) = (of_nat n :: u64)"
  proof (subst word_unat_eq_iff)
    have "?B - p mod ?B < 2 ^ 64" "length c - p < 2 ^ 64" "n < 2 ^ 64" using B0 lens unfolding n_def by simp_all
    then show "unat (min (of_nat (?B - p mod ?B)) (of_nat (length c - p)) :: u64) = unat (of_nat n :: u64)"
      unfolding unat_min_word by (simp add: unat_of_nat_64 n_def)
  qed
  have small: "n < 2 ^ 64" "p - first < 2 ^ 64" "length c - first < 2 ^ 64" using lens B0 unfolding n_def by simp_all
  have ne: "(of_nat (p - first) :: u64) \<noteq> of_nat (length c - first) \<longleftrightarrow> p < length c"
    using small lens by (metis diff_less_mono le_neq_implies_less less_irrefl unat_of_nat_64)
  have rd: "File_Read ops (of_nat (off + p)) (of_nat n) (v_file v) = (int n, take n (drop p c))"
    using f lens unfolding holds_def n_def by simp
  have un: "uint (of_nat n :: u64) = int n" using small(1) by (metis uint_nat unat_of_nat_64)
  have tk: "take n (drop p c) = take (?B - p mod ?B) (drop p c)" unfolding n_def by (simp add: min_def)
  show ?thesis
  proof (cases "p < length c")
    case True
    then have "n \<noteq> 0" using mod unfolding n_def by simp
    then have "(of_nat n :: u64) \<noteq> 0" using small(1) by (metis unat_0 unat_of_nat_64)
    moreover have "total_hash_byte_count v - extra_read v \<noteq> read_max v - read_start v" using True ne unfolding d1 d2 by blast
    ultimately show ?thesis
      unfolding hash_rest_def Let_def d3 d4 d5 need rd tk[symmetric] prod.case un using v(2) by simp
  next
    case False
    then show ?thesis using ne by (simp add: hash_rest_def d1 d2)
  qed
qed

lemma OnDone_reads:
  assumes i: "integrity_ok i" and v: "reads_at i c p v" and f: "holds ops (v_file v) off c" and r: "placed off c first p v"
  shows "OnDone ops v \<noteq> None \<longleftrightarrow>
    (p mod block_len i = 0 \<and> length (ip_blocks i) \<le> p div block_len i) \<or> valid_block ops i c (p div block_len i)"
proof -
  let ?B = "block_len i"
  let ?v = "v\<lparr>done_reading := True\<rparr>"
  have B: "0 < ?B" "?B < 2 ^ 31" using i by (simp_all add: integrity_ok_def)
  have vi: "v_integrity v = i" "max_block v = int (length (ip_blocks i)) - 1" "v = reading i c p v"
    using v unfolding reads_at_def by blast+
  have cur: "current_block v = int (p div ?B)" "current_hash_byte_count v = of_nat (p mod ?B)"
    "current_hash v = (if p mod ?B = 0 then None else Some (drop (p div ?B * ?B) (take p c)))"
    by (subst vi(3), simp add: reading_def)+
  have p: "p \<le> length c" "p div ?B * ?B \<le> p" "p mod ?B < ?B" using r B(1) by (simp_all add: placed_def)
  have h: "(case current_hash v of None \<Rightarrow> [] | Some h \<Rightarrow> h) = drop (p div ?B * ?B) (take p c)"
    by (cases "p mod ?B = 0") (simp_all add: cur(3) mod_0_imp_dvd)
  have zero: "current_hash_byte_count v = 0 \<longleftrightarrow> p mod ?B = 0"
  proof -
    have "unat (of_nat (p mod ?B) :: u64) = p mod ?B" using p(3) B(2) by (simp add: unat_of_nat_64)
    then show ?thesis unfolding cur(2) using unat_eq_zero[of "of_nat (p mod ?B) :: u64"] by (simp only:)
  qed
  have rest: "hash_rest ops (case current_hash v of None \<Rightarrow> [] | Some h \<Rightarrow> h) ?v = Some (content_block i c (p div ?B))"
  proof -
    have "?B - p mod ?B = p div ?B * ?B + ?B - p" using div_mult_mod_eq[of p ?B] by linarith
    moreover have "p \<le> p div ?B * ?B + ?B" using div_mult_mod_eq[of p ?B] p(3) by linarith
    ultimately have "drop (p div ?B * ?B) (take p c) @ take (?B - p mod ?B) (drop p c) = content_block i c (p div ?B)"
      using take_drop_join[OF p(2), of "p div ?B * ?B + ?B" c] by (simp add: content_block_def)
    then show ?thesis
      unfolding h using hash_rest_reads[OF i, of ?v ops off c first p] f r vi(1) cur(2) by (simp add: placed_def)
  qed
  have over: "current_block v > max_block v \<longleftrightarrow> length (ip_blocks i) \<le> p div ?B" using vi(2) cur(1) by linarith
  show ?thesis
    using rest zero over vi(1) cur(1)
    by (cases "p div ?B < length (ip_blocks i)") (auto simp: OnDone_def FinishBlock_def valid_block_def idx_def Let_def split: if_splits)
qed

end
