(* ===== verification/Asar_Serving.thy ===== *)
theory Asar_Serving
  imports Asar_Validation
begin

text \<open>
  What a page gets of a file whose blocks have hashes: the bytes of the range it asked for, of which
  every block has been checked when the loader is done. A file whose blocks are right is served.
\<close>

section \<open>Reading through the validator\<close>

lemma unat_of_nat_32: "n < 2 ^ 32 \<Longrightarrow> unat (of_nat n :: u32) = n"
  by (simp add: unat_of_nat)

lemma ucast_of_nat_32: "n < 2 ^ 32 \<Longrightarrow> (ucast (of_nat n :: u32) :: u64) = of_nat n"
  by (metis of_nat_unat unat_of_nat_32)

text \<open>The source gives what the file holds.\<close>

definition serves :: "('p, 'f, 'r) loader_env \<Rightarrow> 'f \<Rightarrow> nat \<Rightarrow> u8 list \<Rightarrow> bool" where
  "serves env f off c \<longleftrightarrow>
     (\<forall>p n. p + n \<le> length c \<longrightarrow> source_read env f (of_nat (off + p)) (of_nat n) = (MOJO_OK, take n (drop p c)))"

lemma filtered_reads:
  assumes i: "integrity_ok i" and v: "reads_at i c p v" and s: "serves env f off c" and n: "p + n \<le> length c" "length c < 2 ^ 64"
    and w: "w = of_nat (off + p)" "k = of_nat n"
  shows "filtered_read ops env f w k (Some v) =
    (if blocks_ok ops i c p (p + n) then Some (MOJO_OK, take n (drop p c), Some (read_on i c p n v)) else None)"
proof -
  have len: "length (take n (drop p c)) = n" using n(1) by simp
  have "OnRead ops (take n (drop p c)) v = (if blocks_ok ops i c p (p + n) then Some (read_on i c p n v) else None)"
    using OnRead_reads[OF i v, of "take n (drop p c)" ops] n by (simp add: len)
  moreover have "source_read env f w k = (MOJO_OK, take n (drop p c))" using s n(1) unfolding serves_def w by blast
  ultimately show ?thesis by (simp add: filtered_read_def)
qed

text \<open>A read of nothing, at the start of a block or in it, is always accepted.\<close>

lemma blocks_ok_refl: "blocks_ok ops i c p p"
  by (simp add: blocks_ok_def)

lemma blocks_ok_in_block:
  "p \<le> q \<Longrightarrow> q div block_len i = p div block_len i \<Longrightarrow>
   blocks_ok ops i c p q \<longleftrightarrow> (p < q \<longrightarrow> p div block_len i < length (ip_blocks i))"
  by (auto simp: blocks_ok_def) (metis Suc_pred div_le_mono diff_le_self le_antisym less_Suc_eq_le not_gr_zero not_less_zero)+

lemma blocks_ok_trans:
  assumes "p \<le> q" "q \<le> r" "blocks_ok ops i c p q" "blocks_ok ops i c q r"
  shows "blocks_ok ops i c p r"
proof -
  have "[p div block_len i ..< r div block_len i] = [p div block_len i ..< q div block_len i] @ [q div block_len i ..< r div block_len i]"
    using upt_add_eq_append[of "p div block_len i" "q div block_len i" "r div block_len i - q div block_len i"] assms(1,2)
    by (simp add: div_le_mono)
  then show ?thesis using assms by (cases "q = r") (simp_all add: blocks_ok_def)
qed

text \<open>The blocks that the range from \<open>p\<close> to \<open>q\<close> touches.\<close>

definition touched_valid :: "('v, 'p, 'f, 'w) asar_ops \<Rightarrow> IntegrityPayload \<Rightarrow> u8 list \<Rightarrow> nat \<Rightarrow> nat \<Rightarrow> bool" where
  "touched_valid ops i c p q \<longleftrightarrow> (\<forall>j. p < Suc j * block_len i \<longrightarrow> j * block_len i < q \<longrightarrow> valid_block ops i c j)"

lemma read_and_done_valid:
  assumes "blocks_ok ops i c p q" "0 < block_len i"
    "(q mod block_len i = 0 \<and> length (ip_blocks i) \<le> q div block_len i) \<or> valid_block ops i c (q div block_len i)"
  shows "touched_valid ops i c p q"
  unfolding touched_valid_def
proof (intro allI impI)
  fix j assume j: "p < Suc j * block_len i" "j * block_len i < q"
  have "p div block_len i \<le> j" using j(1) assms(2) by (metis div_less_iff_less_mult less_Suc_eq_le)
  moreover have "j \<le> q div block_len i" using j(2) assms(2) by (simp add: less_eq_div_iff_mult_less_eq)
  moreover have "j \<noteq> q div block_len i" if "q mod block_len i = 0" using that j(2) by auto
  ultimately show "valid_block ops i c j"
    using assms(1,3) unfolding blocks_ok_def list_all_iff by (cases "j = q div block_len i") auto
qed

text \<open>An archive whose header has the right hashes of all the blocks of a file.\<close>

definition all_valid :: "('v, 'p, 'f, 'w) asar_ops \<Rightarrow> IntegrityPayload \<Rightarrow> u8 list \<Rightarrow> bool" where
  "all_valid ops i c \<longleftrightarrow>
     length c \<le> length (ip_blocks i) * block_len i \<and> list_all (valid_block ops i c) [0 ..< length (ip_blocks i)]"

lemma all_valid_block: "all_valid ops i c \<Longrightarrow> j < length (ip_blocks i) \<Longrightarrow> valid_block ops i c j"
  by (simp add: all_valid_def list_all_iff)

lemma all_valid_blocks_ok:
  assumes "all_valid ops i c" "0 < block_len i" "q \<le> length c"
  shows "blocks_ok ops i c p q"
proof -
  have le: "q \<le> length (ip_blocks i) * block_len i" using assms(1,3) by (simp add: all_valid_def)
  then have "q div block_len i \<le> length (ip_blocks i)"
    using assms(2) by (metis div_le_mono nonzero_mult_div_cancel_right less_irrefl)
  moreover have "p < q \<Longrightarrow> (q - 1) div block_len i < length (ip_blocks i)"
    using le assms(2) by (simp add: div_less_iff_less_mult)
  ultimately show ?thesis using all_valid_block[OF assms(1)] by (simp add: blocks_ok_def list_all_iff)
qed

lemma all_valid_done:
  assumes "all_valid ops i c" "0 < block_len i" "p \<le> length c"
  shows "(p mod block_len i = 0 \<and> length (ip_blocks i) \<le> p div block_len i) \<or> valid_block ops i c (p div block_len i)"
proof (cases "p div block_len i < length (ip_blocks i)")
  case False
  have "p \<le> length (ip_blocks i) * block_len i" using assms(1,3) by (simp add: all_valid_def)
  moreover have "length (ip_blocks i) * block_len i \<le> p div block_len i * block_len i" using False by (intro mult_right_mono) simp_all
  ultimately have "p mod block_len i = 0" using div_mult_mod_eq[of p "block_len i"] by linarith
  then show ?thesis using False by simp
qed (use all_valid_block[OF assms(1)] in simp)

section \<open>To the start of the range\<close>

lemma skip_to_range_reads:
  assumes i: "integrity_ok i" "1024 \<le> block_len i" and s: "serves env f off c" and a: "a < length c" "length c < 2 ^ 32"
    and p: "if a < block_len i then p = 1024 \<and> 1024 \<le> a else p mod block_len i = 0"
    and v: "reads_at i c p v" and info: "fi_offset info = of_nat off"
  defines "b \<equiv> if a < block_len i then 1024 else a div block_len i * block_len i"
  shows "skip_to_range ops env f info (ip_block_size i) (of_nat a) d (Some v) =
    (if blocks_ok ops i c b a
     then Some (MOJO_OK, d + of_nat (a - b), Some (read_on i c b (a - b) (SetCurrentBlock (int (a div block_len i)) v)))
     else None)"
proof -
  let ?B = "block_len i" and ?v = "SetCurrentBlock (int (a div block_len i)) v"
  have B: "0 < ?B" "?B < 2 ^ 31" using i(1) by (simp_all add: integrity_ok_def)
  have a64: "unat (of_nat a :: u64) = a" using a by (simp add: unat_of_nat_64)
  have bs: "unat (ucast (ip_block_size i) :: u64) = ?B" by (simp add: block_len_def ucast_u32_u64)
  have le: "a div ?B * ?B \<le> a" "a div ?B \<le> a" by simp_all
  have small: "a div ?B < 2 ^ 31"
  proof -
    have "a div ?B \<le> a div 1024" using i(2) by (intro div_le_mono2) simp_all
    also have "a div 1024 < 2 ^ 31" using a by (intro less_mult_imp_div_less) simp
    finally show ?thesis .
  qed
  have "uint (of_nat a div ucast (ip_block_size i) :: u64) = int (a div ?B)"
    unfolding uint_div_distrib by (simp only: uint_nat a64 bs zdiv_int)
  then have sb: "int32 (uint (of_nat a div ucast (ip_block_size i) :: u64)) = int (a div ?B)"
    using small by (simp add: int32_id int32_min_def int32_max_def)
  have bsw: "ip_block_size i = of_nat ?B" by (simp add: block_len_def)
  have "a div ?B * ?B < 2 ^ 32" using le(1) a by linarith
  then have "unat (word_of_int (int (a div ?B)) * ip_block_size i :: u32) = a div ?B * ?B"
    unfolding bsw by (simp add: unat_of_nat flip: of_nat_mult)
  then have start: "(ucast (word_of_int (int (a div ?B)) * ip_block_size i :: u32) :: u64) = of_nat (a div ?B * ?B)"
    by (metis of_nat_unat)
  have zero: "int (a div ?B) = 0 \<longleftrightarrow> a < ?B" using B(1) by (simp add: div_eq_0_iff)
  have b: "b \<le> a" using p unfolding b_def by simp
  have drop: "(if int (a div ?B) = 0 then of_nat a - ucast kMaxBytesToSniff else of_nat a - of_nat (a div ?B * ?B)) = (of_nat (a - b) :: u64)"
    using b unfolding b_def zero by (auto simp: kMaxBytesToSniff_def of_nat_diff simp del: of_nat_mult)
  have src: "fi_offset info + of_nat (a div ?B * ?B) + (if int (a div ?B) = 0 then ucast kMaxBytesToSniff else 0) = of_nat (off + b)"
    unfolding b_def zero info by (simp add: kMaxBytesToSniff_def)
  have at: "reads_at i c b ?v"
  proof (cases "a < ?B")
    case True
    then have "p = b" "1024 < ?B" using p unfolding b_def by simp_all
    then have "?v = v" using v True by (cases v) (simp add: reads_at_def reading_def SetCurrentBlock_def b_def)
    then show ?thesis using v \<open>p = b\<close> by simp
  next
    case False
    then show ?thesis using reads_at_SetCurrentBlock[OF v _ B(1), of "a div ?B"] p unfolding b_def by simp
  qed
  have pos: "(of_nat (a - b) :: u64) > 0 \<longleftrightarrow> b < a"
  proof -
    have "unat (of_nat (a - b) :: u64) = a - b" using a by (simp add: unat_of_nat_64)
    then show ?thesis by (metis word_gt_0 unat_eq_zero zero_less_diff neq0_conv)
  qed
  have read: "filtered_read ops env f (of_nat (off + b)) (of_nat (a - b)) (Some ?v) =
      (if blocks_ok ops i c b a then Some (MOJO_OK, take (a - b) (drop b c), Some (read_on i c b (a - b) ?v)) else None)"
    using filtered_reads[OF i(1) at s _ _ refl refl, of "a - b" ops] a b by simp
  show ?thesis
  proof (cases "b < a")
    case True
    then show ?thesis
      unfolding skip_to_range_def sb Let_def start drop src option.map pos read by simp
  next
    case False
    then have "b = a" using b by simp
    then show ?thesis using False read_on_0[OF at]
      unfolding skip_to_range_def sb Let_def start drop option.map pos by (simp add: blocks_ok_refl)
  qed
qed

section \<open>The data producer\<close>

text \<open>A file of an archive whose header has hashes of its blocks. Blocks are at least as large as what is
  read to find the type of the content.\<close>

definition verified_file ::
  "('v, 'p, 'f, 'w) asar_ops \<Rightarrow> ('p, 'f, 'r) loader_env \<Rightarrow> 'f \<Rightarrow> FileInfo \<Rightarrow> IntegrityPayload \<Rightarrow> nat \<Rightarrow> u8 list \<Rightarrow> bool" where
  "verified_file ops env f info i off c \<longleftrightarrow>
     integrity_ok i \<and> 1024 \<le> block_len i \<and> holds ops f off c \<and> serves env f off c \<and> length c < 2 ^ 32 \<and>
     fi_offset info = of_nat off \<and> fi_size info = of_nat (length c) \<and> fi_integrity info = Some i"

lemma verified_fileD:
  assumes "verified_file ops env f info i off c"
  shows "integrity_ok i" "1024 \<le> block_len i" "holds ops f off c" "serves env f off c" "length c < 2 ^ 32" "length c < 2 ^ 64"
    "fi_offset info = of_nat off" "fi_size info = of_nat (length c)" "fi_integrity info = Some i" "off + length c < 2 ^ 64" "0 < block_len i"
  using assms by (simp_all add: verified_file_def holds_def integrity_ok_def)

text \<open>What \<open>OnDone\<close> looks at: the block that was begun, or the one after the last one read.\<close>

definition done_ok :: "('v, 'p, 'f, 'w) asar_ops \<Rightarrow> IntegrityPayload \<Rightarrow> u8 list \<Rightarrow> nat \<Rightarrow> bool" where
  "done_ok ops i c p \<longleftrightarrow>
     (p mod block_len i = 0 \<and> length (ip_blocks i) \<le> p div block_len i) \<or> valid_block ops i c (p div block_len i)"

lemma all_valid_done_ok: "all_valid ops i c \<Longrightarrow> 0 < block_len i \<Longrightarrow> p \<le> length c \<Longrightarrow> done_ok ops i c p"
  unfolding done_ok_def by (rule all_valid_done)

text \<open>The producer of the bytes from \<open>a\<close> to \<open>e\<close> is at position \<open>p\<close>, and so is the validator.\<close>

definition producing ::
  "'f \<Rightarrow> IntegrityPayload \<Rightarrow> nat \<Rightarrow> u8 list \<Rightarrow> nat \<Rightarrow> nat \<Rightarrow> nat \<Rightarrow> 'f AsarURLLoader \<Rightarrow> bool" where
  "producing f i off c a e p st \<longleftrightarrow>
     (\<exists>v. data_producer st =
            Some \<lparr>dp_file = f, dp_position = of_nat (off + p), dp_end = of_nat (off + e), dp_validator = Some v\<rparr> \<and>
          v_file v = f \<and> reads_at i c p v \<and> placed off c a p v) \<and> p \<le> e \<and> e \<le> length c"

lemma v_file_read_on [simp]: "v_file (read_on i c p n v) = v_file v"
  by (simp add: read_on_def reading_def)

lemma v_file_setters [simp]: "v_file (SetRange a b m v) = v_file v" "v_file (SetCurrentBlock j v) = v_file v"
  "total_hash_byte_count (SetCurrentBlock j v) = total_hash_byte_count v"
  by (simp_all add: SetRange_def SetCurrentBlock_def)

lemma total_read_on: "total_hash_byte_count (read_on i c p n v) = total_hash_byte_count v + of_nat n"
  by (simp add: read_on_def reading_def)

lemma producer_step_reads:
  assumes F: "verified_file ops env f info i off c" and st: "producing f i off c a e p st"
  shows "if blocks_ok ops i c p (p + min (unat n) (e - p))
    then \<exists>dp. producer_step ops env n st =
           Some (st\<lparr>data_producer := Some dp, piped := piped st @ take (min (unat n) (e - p)) (drop p c)\<rparr>) \<and>
         producing f i off c a e (p + min (unat n) (e - p)) (st\<lparr>data_producer := Some dp\<rparr>)
    else producer_step ops env n st = None"
proof -
  note F' = verified_fileD[OF F]
  define k where "k = min (unat n) (e - p)"
  obtain v where dp: "data_producer st =
      Some \<lparr>dp_file = f, dp_position = of_nat (off + p), dp_end = of_nat (off + e), dp_validator = Some v\<rparr>"
    and v: "v_file v = f" "reads_at i c p v" "placed off c a p v" and e: "p \<le> e" "e \<le> length c"
    using st unfolding producing_def by blast
  have k: "p + k \<le> e" "p + k \<le> length c" "k \<le> e - p" using e unfolding k_def by simp_all
  have len: "min (length c - p) k = k" using k e by simp
  have "min n (of_nat (off + e) - of_nat (off + p)) = of_nat k"
  proof (subst word_unat_eq_iff)
    have "e - p < 2 ^ 64" "k < 2 ^ 64" using e F'(6) unfolding k_def by simp_all
    moreover have "(of_nat (off + e) - of_nat (off + p) :: u64) = of_nat (e - p)" using e(1) by (simp add: of_nat_diff)
    ultimately show "unat (min n (of_nat (off + e) - of_nat (off + p))) = unat (of_nat k :: u64)"
      by (simp only: unat_min_word unat_of_nat_64 k_def)
  qed
  then have "filtered_read ops env f (of_nat (off + p)) (min n (of_nat (off + e) - of_nat (off + p))) (Some v) =
      (if blocks_ok ops i c p (p + k) then Some (MOJO_OK, take k (drop p c), Some (read_on i c p k v)) else None)"
    using filtered_reads[OF F'(1) v(2) F'(4) k(2) F'(6) refl refl, of ops] by simp
  then have step: "producer_step ops env n st =
     (if blocks_ok ops i c p (p + k)
      then Some (st\<lparr>data_producer := Some \<lparr>dp_file = f, dp_position = of_nat (off + (p + k)), dp_end = of_nat (off + e),
                                         dp_validator = Some (read_on i c p k v)\<rparr>,
                    piped := piped st @ take k (drop p c)\<rparr>)
      else None)"
    unfolding producer_step_def dp by (simp add: len add.assoc)
  have "producing f i off c a e (p + k)
      (st\<lparr>data_producer := Some \<lparr>dp_file = f, dp_position = of_nat (off + (p + k)), dp_end = of_nat (off + e),
                                 dp_validator = Some (read_on i c p k v)\<rparr>\<rparr>)"
    using k e v reads_at_read_on[OF v(2)] placed_read_on[OF v(3) k(2)] unfolding producing_def by simp
  then show ?thesis unfolding step k_def[symmetric] by auto
qed

lemma producer_steps_reads:
  assumes F: "verified_file ops env f info i off c" and "producing f i off c a e p st"
    and "producer_steps ops env ns st = Some st'"
  shows "\<exists>q dp. p \<le> q \<and> q \<le> e \<and> min e (p + sum_list (map unat ns)) \<le> q \<and> blocks_ok ops i c p q \<and> producing f i off c a e q st' \<and>
    st' = st\<lparr>data_producer := Some dp, piped := piped st @ take (q - p) (drop p c)\<rparr>"
  using assms(2,3)
proof (induction ns arbitrary: st p)
  case Nil
  then have "producing f i off c a e p st" "st' = st" by simp_all
  moreover from this obtain dp where "data_producer st = Some dp" unfolding producing_def by blast
  ultimately show ?case
    by (intro exI[of _ p] exI[of _ dp]) (cases st, simp add: blocks_ok_refl producing_def)
next
  case (Cons n ns)
  define k where "k = min (unat n) (e - p)"
  have pe: "p \<le> e" using Cons.prems(1) by (simp add: producing_def)
  obtain st1 where s1: "producer_step ops env n st = Some st1" "producer_steps ops env ns st1 = Some st'"
    using Cons.prems(2) by (auto split: bind_splits)
  obtain dp where bk: "blocks_ok ops i c p (p + k)"
    and st1: "st1 = st\<lparr>data_producer := Some dp, piped := piped st @ take k (drop p c)\<rparr>"
    and pr: "producing f i off c a e (p + k) (st\<lparr>data_producer := Some dp\<rparr>)"
    using producer_step_reads[OF F Cons.prems(1), of n] s1(1) unfolding k_def[symmetric] by (auto split: if_splits)
  have "producing f i off c a e (p + k) st1" using pr unfolding st1 producing_def by simp
  from Cons.IH[OF this s1(2)] obtain q dq where q: "p + k \<le> q" "q \<le> e" "blocks_ok ops i c (p + k) q"
    "producing f i off c a e q st'" "st' = st1\<lparr>data_producer := Some dq, piped := piped st1 @ take (q - (p + k)) (drop (p + k) c)\<rparr>"
    and far: "min e (p + k + sum_list (map unat ns)) \<le> q"
    by blast
  have "min e (p + (unat n + sum_list (map unat ns))) \<le> q"
    using far q(1) pe unfolding k_def by (cases "unat n \<le> e - p") (simp_all add: add.assoc min_def)
  have "take k (drop p c) @ take (q - (p + k)) (drop (p + k) c) = take (q - p) (drop p c)"
    using q(1) take_add[of k "q - (p + k)" "drop p c"] by (simp add: add.commute)
  then have "st' = st\<lparr>data_producer := Some dq, piped := piped st @ take (q - p) (drop p c)\<rparr>"
    unfolding q(5) st1 by simp
  moreover have "blocks_ok ops i c p q" using blocks_ok_trans[OF _ q(1) bk q(3)] by simp
  ultimately show ?case using q(1,2,4) \<open>min e (p + (unat n + sum_list (map unat ns))) \<le> q\<close>
    by (intro exI[of _ q] exI[of _ dq]) simp
qed

lemma producer_steps_all_valid:
  assumes F: "verified_file ops env f info i off c" and V: "all_valid ops i c" and "producing f i off c a e p st"
  shows "producer_steps ops env ns st \<noteq> None"
  using assms(3)
proof (induction ns arbitrary: st p)
  case (Cons n ns)
  define k where "k = min (unat n) (e - p)"
  have "p \<le> e" "e \<le> length c" using Cons.prems unfolding producing_def by blast+
  then have "p + k \<le> length c" unfolding k_def using min.cobounded2[of "unat n" "e - p"] by linarith
  then have "blocks_ok ops i c p (p + k)" using all_valid_blocks_ok[OF V verified_fileD(11)[OF F]] by blast
  then obtain dp where s1: "producer_step ops env n st =
      Some (st\<lparr>data_producer := Some dp, piped := piped st @ take k (drop p c)\<rparr>)"
    and pr: "producing f i off c a e (p + k) (st\<lparr>data_producer := Some dp\<rparr>)"
    using producer_step_reads[OF F Cons.prems, of n] unfolding k_def[symmetric] by auto
  have "producing f i off c a e (p + k) (st\<lparr>data_producer := Some dp, piped := piped st @ take k (drop p c)\<rparr>)"
    using pr unfolding producing_def by simp
  from Cons.IH[OF this] show ?case by (simp add: s1)
qed simp

text \<open>The end.\<close>

definition finished :: "u64 \<Rightarrow> u8 list \<Rightarrow> 'f AsarURLLoader \<Rightarrow> 'f AsarURLLoader" where
  "finished n bytes st = MaybeDeleteSelf (st\<lparr>data_producer := None, piped := piped st @ bytes,
     client_log := client_log st @ [Completed NET_OK n], client_bound := False\<rparr>)"

lemma OnFileWritten_finished: "client_bound st \<Longrightarrow> OnFileWritten MOJO_OK st = Some (finished (total_bytes_written st) [] st)"
  by (cases st) (simp add: OnFileWritten_def finished_def tell_def Let_def)

lemma drop_source_reads:
  assumes F: "verified_file ops env f info i off c" and v: "v_file v = f" "reads_at i c p v" "placed off c a p v"
  shows "drop_source ops (Some v) st = (if done_ok ops i c p then Some st else None)"
  using OnDone_reads[OF verified_fileD(1)[OF F] v(2) _ v(3), of ops] verified_fileD(3)[OF F] v(1)
  unfolding done_ok_def drop_source_def by (cases "OnDone ops v") auto

lemma producer_done_reads:
  assumes F: "verified_file ops env f info i off c" and st: "producing f i off c a e p st" "client_bound st"
  shows "producer_done ops MOJO_OK st = (if done_ok ops i c p then Some (finished (total_bytes_written st) [] st) else None)"
proof -
  obtain v where dp: "data_producer st =
      Some \<lparr>dp_file = f, dp_position = of_nat (off + p), dp_end = of_nat (off + e), dp_validator = Some v\<rparr>"
    and v: "v_file v = f" "reads_at i c p v" "placed off c a p v"
    using st(1) unfolding producing_def by blast
  show ?thesis
    by (simp add: producer_done_def dp drop_source_reads[OF F v] OnFileWritten_finished[OF st(2)])
qed

lemma deliver_reads:
  assumes F: "verified_file ops env f info i off c" and st: "producing f i off c a e p st" "client_bound st"
    and d: "deliver ops env ns st = Some st'" "data_producer st' = None"
  shows "st' = finished (total_bytes_written st) (take (e - p) (drop p c)) st \<and> touched_valid ops i c p e"
proof -
  obtain dp0 where dp0: "data_producer st = Some dp0" using st(1) unfolding producing_def by blast
  obtain st1 where s1: "producer_steps ops env ns st = Some st1"
    using d(1) by (auto simp: deliver_def dp0 split: bind_splits)
  obtain q dp where q: "p \<le> q" "q \<le> e" "blocks_ok ops i c p q" "producing f i off c a e q st1"
    and st1: "st1 = st\<lparr>data_producer := Some dp, piped := piped st @ take (q - p) (drop p c)\<rparr>"
    using producer_steps_reads[OF F st(1) s1] by blast
  have el: "e \<le> length c" using st(1) by (simp add: producing_def)
  have dp1: "dp_position dp = of_nat (off + q)" "dp_end dp = of_nat (off + e)" using q(4) unfolding producing_def st1 by auto
  have bound: "off + length c < 2 ^ 64" using verified_fileD(10)[OF F] .
  have fin: "dp_position dp = dp_end dp"
  proof (rule ccontr)
    assume "dp_position dp \<noteq> dp_end dp"
    then have "st' = st1" using d(1) by (simp add: deliver_def dp0 s1) (simp add: st1)
    then show False using d(2) by (simp add: st1)
  qed
  then have e: "q = e"
    unfolding dp1 using bound el q(2) by (metis (no_types) add_left_cancel add_le_cancel_left le_less_trans unat_of_nat_64)
  have "producer_done ops MOJO_OK st1 = Some st'" using d(1) fin by (simp add: deliver_def dp0 s1) (simp add: st1)
  then have ok: "done_ok ops i c q" and st': "st' = finished (total_bytes_written st1) [] st1"
    using producer_done_reads[OF F q(4), of] st(2) by (auto simp: st1 split: if_splits)
  have "touched_valid ops i c p e"
    using read_and_done_valid[OF q(3) verified_fileD(11)[OF F]] ok unfolding done_ok_def e by blast
  moreover have "st' = finished (total_bytes_written st) (take (e - p) (drop p c)) st"
    unfolding st' unfolding st1 e finished_def by simp
  ultimately show ?thesis by blast
qed

section \<open>Serving\<close>

lemma placed_SetRange:
  assumes "total_hash_byte_count v = d" "p \<le> length c" "x = of_nat (off + p)" "y = of_nat (off + length c)"
  shows "placed off c p p (SetRange x d y v)"
  using assms by (simp add: placed_def SetRange_def)

lemma file_end: "verified_file ops env f info i off c \<Longrightarrow> fi_offset info + ucast (fi_size info) = of_nat (off + length c)"
  using ucast_of_nat_32[OF verified_fileD(5)] by (simp add: verified_fileD(7,8))

lemma send_rest_done:
  assumes F: "verified_file ops env f info i off c"
    and v: "v_file v = f" "reads_at i c p v" "p \<le> length c" "total_hash_byte_count v = of_nat p" and st: "client_bound st"
  shows "send_rest ops env f info (of_nat p) 0 (of_nat p) (Some v) st =
    (if done_ok ops i c p then Some (finished (total_bytes_written st) [] st) else None)"
proof -
  have "placed off c p p (SetRange (fi_offset info + of_nat p) (of_nat p) (fi_offset info + ucast (fi_size info)) v)"
    using placed_SetRange[OF v(4,3), of _ off] file_end[OF F] by (simp add: verified_fileD[OF F])
  note ended = drop_source_reads[OF F, of "SetRange (fi_offset info + of_nat p) (of_nat p) (fi_offset info + ucast (fi_size info)) v", OF _ _ this]
  show ?thesis
    unfolding send_rest_def Let_def using v
    by (simp add: OnFileWritten_finished[OF st] ended reads_at_SetRange)
qed

lemma send_rest_producing:
  assumes F: "verified_file ops env f info i off c" and m: "0 < m" "a + m \<le> length c"
    and p: "if a < block_len i then p = 1024 \<and> 1024 \<le> a else p mod block_len i = 0"
    and v: "v_file v = f" "reads_at i c p v" "total_hash_byte_count v = d"
  defines "b \<equiv> if a < block_len i then 1024 else a div block_len i * block_len i"
  shows "if blocks_ok ops i c b a
    then \<exists>dp. send_rest ops env f info (of_nat a) (of_nat m) d (Some v) st = Some (st\<lparr>data_producer := Some dp\<rparr>) \<and>
              producing f i off c a (a + m) a (st\<lparr>data_producer := Some dp\<rparr>)
    else send_rest ops env f info (of_nat a) (of_nat m) d (Some v) st = None"
proof -
  note F' = verified_fileD[OF F]
  have a: "a < length c" using m by simp
  have b: "b \<le> a" using p unfolding b_def by simp
  have m0: "(of_nat m :: u64) \<noteq> 0"
  proof -
    have "unat (of_nat m :: u64) = m" using m F'(6) by (simp add: unat_of_nat_64)
    then show ?thesis using m(1) by auto
  qed
  define v1 where "v1 = read_on i c b (a - b) (SetCurrentBlock (int (a div block_len i)) v)"
  define v2 where "v2 = SetRange (of_nat (off + a)) (d + of_nat (a - b)) (of_nat (off + length c)) v1"
  note skip = skip_to_range_reads[OF F'(1,2,4) a F'(5) p v(2) F'(7), of ops d, folded b_def, folded v1_def]
  have sent: "send_rest ops env f info (of_nat a) (of_nat m) d (Some v) st =
    (if blocks_ok ops i c b a
     then Some (st\<lparr>data_producer := Some \<lparr>dp_file = f, dp_position = of_nat (off + a), dp_end = of_nat (off + (a + m)), dp_validator = Some v2\<rparr>\<rparr>)
     else None)"
    unfolding send_rest_def Let_def F'(9) option.case skip
    using m0 file_end[OF F] F'(7) by (simp add: v2_def add_ac)
  have "v_file v2 = f" unfolding v2_def v1_def by (simp add: v(1))
  moreover have "reads_at i c a v2"
  proof -
    have "reads_at i c b (SetCurrentBlock (int (a div block_len i)) v)"
    proof (cases "a < block_len i")
      case True
      then have "p = b" "1024 < block_len i" using p unfolding b_def by simp_all
      then have "SetCurrentBlock (int (a div block_len i)) v = v"
        using v(2) True by (cases v) (simp add: reads_at_def reading_def SetCurrentBlock_def b_def)
      then show ?thesis using v(2) \<open>p = b\<close> by simp
    next
      case False
      then show ?thesis using reads_at_SetCurrentBlock[OF v(2) _ F'(11), of "a div block_len i"] p unfolding b_def by simp
    qed
    from reads_at_read_on[OF this, of "a - b"] show ?thesis unfolding v2_def v1_def reads_at_SetRange using b by simp
  qed
  moreover have "placed off c a a v2"
    unfolding v2_def using a by (intro placed_SetRange) (simp_all add: v1_def total_read_on v(3))
  ultimately have "producing f i off c a (a + m) a (st\<lparr>data_producer :=
      Some \<lparr>dp_file = f, dp_position = of_nat (off + a), dp_end = of_nat (off + (a + m)), dp_validator = Some v2\<rparr>\<rparr>)"
    unfolding producing_def using m(2) by simp
  then show ?thesis unfolding sent by auto
qed

text \<open>The outcome of serving the bytes from \<open>a\<close> to \<open>e\<close>: all of them were sent and their blocks checked, or
  those before \<open>p\<close> were and the producer has to send the others.\<close>

definition outcome ::
  "('v, 'p, 'f, 'w) asar_ops \<Rightarrow> 'f \<Rightarrow> IntegrityPayload \<Rightarrow> nat \<Rightarrow> u8 list \<Rightarrow> nat \<Rightarrow> nat \<Rightarrow> ResponseHead \<Rightarrow>
    'f AsarURLLoader \<Rightarrow> 'f AsarURLLoader \<Rightarrow> bool" where
  "outcome ops f i off c a e head st st' \<longleftrightarrow>
     (touched_valid ops i c a e \<and>
        st' = finished (total_bytes_written st) (take (e - a) (drop a c)) (tell (ReceivedResponse head) st)) \<or>
     (\<exists>p dp. a \<le> p \<and> blocks_ok ops i c a p \<and> producing f i off c p e p st' \<and>
        st' = (tell (ReceivedResponse head) st)\<lparr>data_producer := Some dp, piped := piped st @ take (p - a) (drop a c)\<rparr>)"

lemma touched_valid_mono: "touched_valid ops i c p q \<Longrightarrow> p \<le> p' \<Longrightarrow> q' \<le> q \<Longrightarrow> touched_valid ops i c p' q'"
  unfolding touched_valid_def by (meson le_less_trans less_le_trans)

lemma tell_simps [simp]:
  "client_bound (tell m st) = client_bound st" "total_bytes_written (tell m st) = total_bytes_written st"
  "piped (tell m st) = piped st" "client_log (tell m st) = client_log st @ [m]" "data_producer (tell m st) = data_producer st"
  by (simp_all add: tell_def)

text \<open>The bytes that were read to find the type of the content are sent first.\<close>

definition writes_all :: "('p, 'f, 'r) loader_env \<Rightarrow> bool" where
  "writes_all env \<longleftrightarrow> (\<forall>b. length b \<le> 1024 \<longrightarrow> write_data env b = (MOJO_OK, of_nat (length b)))"

lemma ucast_of_nat_64: "n < 2 ^ 32 \<Longrightarrow> (ucast (of_nat n :: u64) :: u32) = of_nat n"
proof -
  assume "n < 2 ^ 32"
  then have "unat (of_nat n :: u64) = n" by (simp add: unat_of_nat_64)
  then show ?thesis by (metis of_nat_unat)
qed

lemma min_of_nat_32: "x < 2 ^ 32 \<Longrightarrow> y < 2 ^ 32 \<Longrightarrow> min (of_nat x) (of_nat y) = (of_nat (min x y) :: u32)"
  by (subst word_unat_eq_iff) (simp only: unat_min_word unat_of_nat_32 min_less_iff_disj simp_thms)

lemma sniff_size:
  assumes "verified_file ops env f info i off c"
  shows "(ucast (min kMaxBytesToSniff (fi_size info)) :: u64) = of_nat (min 1024 (length c))"
proof -
  have "length c < 2 ^ 32" using verified_fileD(5)[OF assms] .
  then have "min (of_nat 1024) (of_nat (length c)) = (of_nat (min 1024 (length c)) :: u32)" "min 1024 (length c) < 2 ^ 32"
    by (intro min_of_nat_32) simp_all
  then show ?thesis using ucast_of_nat_32 unfolding verified_fileD(8)[OF assms] kMaxBytesToSniff_def by simp
qed

lemma blocks_ok_mono: "blocks_ok ops i c p q \<Longrightarrow> p \<le> p' \<Longrightarrow> blocks_ok ops i c p' q"
  using div_le_mono[of p p' "block_len i"] by (auto simp: blocks_ok_def list_all_iff)

lemma send_range_head:
  assumes F: "verified_file ops env f info i off c" and w: "writes_all env" and st: "client_bound st"
    and n: "n = min 1024 (length c)" and a: "a < n" and m: "a + m \<le> length c"
    and v: "v_file v = f" "reads_at i c n v" "total_hash_byte_count v = of_nat n" and b: "blocks_ok ops i c 0 n"
  shows "send_range ops env path f info (take n c) (of_nat a) (of_nat m) (Some v) st = Some st' \<Longrightarrow>
      outcome ops f i off c a (a + m) (content_head env path (take n c) (of_nat m)) st st'" (is "?A \<Longrightarrow> ?P")
    "all_valid ops i c \<Longrightarrow> send_range ops env path f info (take n c) (of_nat a) (of_nat m) (Some v) st \<noteq> None"
proof -
  note F' = verified_fileD[OF F]
  let ?head = "content_head env path (take n c) (of_nat m)"
  define k where "k = min (n - a) m"
  have small: "n \<le> 1024" "m < 2 ^ 32" "k \<le> 1024" "a < 2 ^ 64" "n < 2 ^ 64" using n a m F'(5) unfolding k_def by simp_all
  define st1 where "st1 = (tell (ReceivedResponse ?head) (st\<lparr>piped := piped st @ take k (drop a c)\<rparr>))"
  have len: "length (take n c) = n" using n by simp
  have lt: "(of_nat a :: u64) < of_nat n" using a small by (simp add: word_less_nat_alt unat_of_nat_64)
  have kw: "min (ucast (of_nat n - of_nat a :: u64)) (ucast (of_nat m :: u64)) = (of_nat k :: u32)"
  proof -
    have "(of_nat n - of_nat a :: u64) = of_nat (n - a)" using a by (simp add: of_nat_diff)
    then show ?thesis using small a ucast_of_nat_64[of "n - a"] ucast_of_nat_64[of m] min_of_nat_32[of "n - a" m] by (simp add: k_def)
  qed
  have ku: "unat (of_nat k :: u32) = k" "(of_nat m - ucast (of_nat k :: u32) :: u64) = of_nat (m - k)"
    using small by (simp_all add: unat_of_nat_32 ucast_of_nat_32 of_nat_diff k_def)
  have data: "take k (drop a (take n c)) = take k (drop a c)" unfolding k_def by (simp add: drop_take min_def)
  have wr: "write_data env (take k (drop a c)) = (MOJO_OK, of_nat k)"
  proof -
    have "length (take k (drop a c)) = k" using m unfolding k_def by simp
    then show ?thesis using w small(3) unfolding writes_all_def by metis
  qed
  have sr: "send_range ops env path f info (take n c) (of_nat a) (of_nat m) (Some v) st =
     send_rest ops env f info (of_nat n) (of_nat (m - k)) (of_nat n) (Some v) st1"
    unfolding send_range_def Let_def len sniff_size[OF F, folded n] kw ku unat_of_nat_64[OF small(4)]
      data wr prod.case st1_def using lt by simp
  have c1: "client_bound st1" by (simp add: st1_def st)
  have "(?A \<longrightarrow> ?P) \<and> (all_valid ops i c \<longrightarrow> send_range ops env path f info (take n c) (of_nat a) (of_nat m) (Some v) st \<noteq> None)"
  proof (cases "m \<le> n - a")
    case True
    then have mk: "m - k = 0" "k = m" by (simp_all add: k_def)
    have nc: "n \<le> length c" using n by simp
    have sent: "send_range ops env path f info (take n c) (of_nat a) (of_nat m) (Some v) st =
        (if done_ok ops i c n then Some (finished (total_bytes_written st1) [] st1) else None)"
      using send_rest_done[OF F v(1,2) nc v(3) c1] unfolding sr mk(1) by simp
    have fin: "finished (total_bytes_written st1) [] st1 = finished (total_bytes_written st) (take m (drop a c)) (tell (ReceivedResponse ?head) st)"
      unfolding finished_def st1_def tell_def by (simp add: mk(2))
    have "touched_valid ops i c a (a + m)" if "done_ok ops i c n"
      using touched_valid_mono[OF read_and_done_valid[OF b F'(11)], of a "a + m"] that True a unfolding done_ok_def by simp
    then show ?thesis unfolding sent fin outcome_def using all_valid_done_ok[OF _ F'(11) nc, of ops] by auto
  next
    case False
    then have k: "k = n - a" "0 < m - k" "n + (m - k) = a + m" using a by (simp_all add: k_def)
    have n1024: "n = 1024" "n + (m - k) \<le> length c" using False m n a k(3) by simp_all
    have p: "if n < block_len i then n = 1024 \<and> 1024 \<le> n else n mod block_len i = 0"
      and bn: "(if n < block_len i then 1024 else n div block_len i * block_len i) = n" using F'(2) n1024(1) by auto
    have "\<exists>dp. send_rest ops env f info (of_nat n) (of_nat (m - k)) (of_nat n) (Some v) st1 = Some (st1\<lparr>data_producer := Some dp\<rparr>) \<and>
        producing f i off c n (a + m) n (st1\<lparr>data_producer := Some dp\<rparr>)"
      using send_rest_producing[OF F k(2) n1024(2) p v, of st1] unfolding bn k(3) by (simp add: blocks_ok_refl)
    then obtain dp where dp: "send_rest ops env f info (of_nat n) (of_nat (m - k)) (of_nat n) (Some v) st1 = Some (st1\<lparr>data_producer := Some dp\<rparr>)"
      "producing f i off c n (a + m) n (st1\<lparr>data_producer := Some dp\<rparr>)" by blast
    have "st1\<lparr>data_producer := Some dp\<rparr> =
        (tell (ReceivedResponse ?head) st)\<lparr>data_producer := Some dp, piped := piped st @ take (n - a) (drop a c)\<rparr>"
      unfolding st1_def tell_def k(1) by simp
    moreover have "blocks_ok ops i c a n" using blocks_ok_mono[OF b] by simp
    ultimately have "outcome ops f i off c a (a + m) ?head st (st1\<lparr>data_producer := Some dp\<rparr>)"
      unfolding outcome_def using dp(2) a by (metis less_imp_le)
    then show ?thesis unfolding sr dp(1) by auto
  qed
  then show "?A \<Longrightarrow> ?P" "all_valid ops i c \<Longrightarrow> send_range ops env path f info (take n c) (of_nat a) (of_nat m) (Some v) st \<noteq> None"
    by blast+
qed

lemma send_range_later:
  assumes F: "verified_file ops env f info i off c"
    and n: "n = min 1024 (length c)" and a: "n \<le> a" and m: "0 < m" "a + m \<le> length c"
    and v: "v_file v = f" "reads_at i c n v" "total_hash_byte_count v = of_nat n"
  shows "send_range ops env path f info (take n c) (of_nat a) (of_nat m) (Some v) st = Some st' \<Longrightarrow>
      outcome ops f i off c a (a + m) (content_head env path (take n c) (of_nat m)) st st'" (is "?A \<Longrightarrow> ?P")
    "all_valid ops i c \<Longrightarrow> send_range ops env path f info (take n c) (of_nat a) (of_nat m) (Some v) st \<noteq> None"
proof -
  note F' = verified_fileD[OF F]
  let ?B = "block_len i" and ?head = "content_head env path (take n c) (of_nat m)"
  let ?sr = "send_range ops env path f info (take n c) (of_nat a) (of_nat m) (Some v) st"
  define st1 where "st1 = tell (ReceivedResponse ?head) st"
  define b where "b = (if a < ?B then 1024 else a div ?B * ?B)"
  have n1024: "n = 1024" "a < length c" using n a m by simp_all
  have B: "?B < 2 ^ 31" using F'(1) by (simp add: integrity_ok_def)
  have a64: "unat (of_nat a :: u64) = a" "unat (of_nat n :: u64) = n" using n1024 F'(5) by (simp_all add: unat_of_nat_64)
  have len: "length (take n c) = n" using n by simp
  have nlt: "\<not> (of_nat a :: u64) < of_nat n" using a by (simp only: word_less_nat_alt a64 not_less)
  have bs: "(ucast (ip_block_size i) :: u64) = of_nat ?B" "ip_block_size i = of_nat ?B" by (simp_all add: block_len_def)
  have ge: "(ucast (ip_block_size i) :: u64) \<le> of_nat a \<longleftrightarrow> ?B \<le> a"
    unfolding bs(1) using B by (simp add: word_le_nat_alt a64 unat_of_nat_64)
  have rest: "if blocks_ok ops i c b a
      then \<exists>dp. send_rest ops env f info (of_nat a) (of_nat m) d (Some w) st1 = Some (st1\<lparr>data_producer := Some dp\<rparr>) \<and>
                producing f i off c a (a + m) a (st1\<lparr>data_producer := Some dp\<rparr>)
      else send_rest ops env f info (of_nat a) (of_nat m) d (Some w) st1 = None"
    if "v_file w = f" "reads_at i c p w" "total_hash_byte_count w = d" "if a < ?B then p = 1024 \<and> 1024 \<le> a else p mod ?B = 0" for w p d
    unfolding b_def by (rule send_rest_producing[OF F m that(4,1-3)])
  have out: "outcome ops f i off c a (a + m) ?head st (st1\<lparr>data_producer := Some dp\<rparr>)"
    if "producing f i off c a (a + m) a (st1\<lparr>data_producer := Some dp\<rparr>)" for dp
    unfolding outcome_def using that blocks_ok_refl
    by (intro disjI2 exI[of _ a] exI[of _ dp]) (simp add: st1_def tell_def)
  have bok: "all_valid ops i c \<Longrightarrow> blocks_ok ops i c b a" using all_valid_blocks_ok[OF _ F'(11), of ops c a] n1024(2) by simp
  have "(?A \<longrightarrow> ?P) \<and> (all_valid ops i c \<longrightarrow> ?sr \<noteq> None)"
  proof (cases "?B \<le> a")
    case True
    have drop: "(ucast (ip_block_size i - kMaxBytesToSniff) :: u64) = of_nat (?B - 1024)"
    proof -
      have "ip_block_size i - kMaxBytesToSniff = of_nat (?B - 1024)" using F'(2) by (simp add: bs(2) kMaxBytesToSniff_def of_nat_diff)
      then show ?thesis using B ucast_of_nat_32[of "?B - 1024"] by simp
    qed
    define w where "w = read_on i c n (?B - 1024) v"
    have "n + (?B - 1024) = ?B" using F'(2) n1024(1) by simp
    then have w: "v_file w = f" "reads_at i c ?B w" "total_hash_byte_count w = of_nat n + of_nat (?B - 1024)"
      using reads_at_read_on[OF v(2), of "?B - 1024"] v unfolding w_def by (simp_all add: total_read_on)
    have "filtered_read ops env f (fi_offset info + ucast kMaxBytesToSniff) (of_nat (?B - 1024)) (Some v) =
        (if blocks_ok ops i c n ?B then Some (MOJO_OK, take (?B - 1024) (drop n c), Some w) else None)"
      using filtered_reads[OF F'(1) v(2) F'(4) _ F'(6) _ refl, of "?B - 1024" "fi_offset info + ucast kMaxBytesToSniff" ops]
        \<open>n + (?B - 1024) = ?B\<close> True n1024 unfolding w_def by (simp add: F'(7) kMaxBytesToSniff_def)
    then have sr: "?sr = (if blocks_ok ops i c n ?B
        then send_rest ops env f info (of_nat a) (of_nat m) (of_nat n + of_nat (?B - 1024)) (Some w) st1 else None)"
      using nlt ge True unfolding send_range_def Let_def len sniff_size[OF F, folded n] F'(9) option.case drop st1_def by simp
    have "blocks_ok ops i c n ?B" if "all_valid ops i c" using all_valid_blocks_ok[OF that F'(11)] True n1024(2) by simp
    moreover have pc: "if a < ?B then ?B = 1024 \<and> 1024 \<le> a else ?B mod ?B = 0" using True by simp
    ultimately show ?thesis unfolding sr using rest[OF w pc] out bok by (auto split: if_splits)
  next
    case False
    then have sr: "?sr = send_rest ops env f info (of_nat a) (of_nat m) (of_nat n) (Some v) st1"
      using nlt ge unfolding send_range_def Let_def len sniff_size[OF F, folded n] F'(9) option.case st1_def by simp
    have pc: "if a < ?B then n = 1024 \<and> 1024 \<le> a else n mod ?B = 0" using False a n1024 by simp
    show ?thesis unfolding sr using rest[OF v pc] out bok by (auto split: if_splits)
  qed
  then show "?A \<Longrightarrow> ?P" "all_valid ops i c \<Longrightarrow> ?sr \<noteq> None" by blast+
qed

text \<open>A file without content: nothing is sent, and the validator expects that no block is left, or one of
  no bytes.\<close>

lemma send_range_empty:
  assumes F: "verified_file ops env f info i off []" and st: "client_bound st"
    and v: "v_file v = f" "reads_at i [] 0 v" "total_hash_byte_count v = 0"
  shows "send_range ops env path f info [] 0 0 (Some v) st =
    (if done_ok ops i [] 0
     then Some (finished (total_bytes_written st) [] (tell (ReceivedResponse (content_head env path [] 0)) st)) else None)"
proof -
  note F' = verified_fileD[OF F]
  have B: "0 < block_len i" "block_len i < 2 ^ 31" using F'(1) by (simp_all add: integrity_ok_def)
  have "unat (of_nat (block_len i) :: u64) = block_len i" using B(2) by (simp add: unat_of_nat_64)
  then have "ip_block_size i \<noteq> 0" using B(1) unfolding block_len_def by auto
  then have ne: "(ucast (ip_block_size i) :: u64) \<noteq> 0" by (metis ucast_u32_u64 unat_eq_zero)
  have "send_rest ops env f info 0 0 0 (Some v) (tell m st) =
      (if done_ok ops i [] 0 then Some (finished (total_bytes_written st) [] (tell m st)) else None)" for m
    using send_rest_done[OF F v(1,2), of "tell m st"] v(3) st by simp
  then show ?thesis using ne
    unfolding send_range_def Let_def sniff_size[OF F] F'(9) option.case by simp
qed

text \<open>The range that is asked for, as its first byte and its number of bytes.\<close>

definition good_range :: "('p, 'f, 'r) loader_env \<Rightarrow> 'r \<Rightarrow> nat \<Rightarrow> bool" where
  "good_range env r len \<longleftrightarrow>
     (range_IsValid env r \<longrightarrow> first_byte_position env r \<le> last_byte_position env r \<and> unat (last_byte_position env r) < len)"

definition range_bytes :: "('p, 'f, 'r) loader_env \<Rightarrow> 'r \<Rightarrow> nat \<Rightarrow> nat \<times> nat" where
  "range_bytes env r len =
     (if range_IsValid env r
      then (unat (first_byte_position env r), unat (last_byte_position env r) - unat (first_byte_position env r) + 1)
      else (0, len))"

lemma serve_file_outcome:
  assumes F: "verified_file ops env f info i off c" and w: "writes_all env" and st: "client_bound st"
    and r: "requested_range env (fi_size info) = Some r" "good_range env r (length c)"
    and am: "range_bytes env r (length c) = (a, m)"
  shows "serve_file ops env path f info st = Some st' \<Longrightarrow>
      outcome ops f i off c a (a + m) (content_head env path (take 1024 c) (of_nat m)) (st\<lparr>total_bytes_written := of_nat m\<rparr>) st'"
      (is "?A \<Longrightarrow> ?P")
    "all_valid ops i c \<Longrightarrow> serve_file ops env path f info st \<noteq> None"
proof -
  note F' = verified_fileD[OF F]
  define n where "n = min 1024 (length c)"
  define v where "v = read_on i c 0 n (AsarFileValidator_make i f)"
  let ?st = "st\<lparr>total_bytes_written := of_nat m\<rparr>"
  let ?sr = "send_range ops env path f info (take n c) (of_nat a) (of_nat m) (Some v) ?st"
  have n: "n \<le> length c" "take 1024 c = take n c" by (simp_all add: n_def min_def)
  have made: "reads_at i c 0 (AsarFileValidator_make i f)" using reads_at_make[OF F'(1)] .
  have v: "v_file v = f" "reads_at i c n v" "total_hash_byte_count v = of_nat n"
    using reads_at_read_on[OF made, of n] by (simp_all add: v_def total_read_on) (simp_all add: AsarFileValidator_make_def)
  have am': "a + m \<le> length c" "m = 0 \<Longrightarrow> c = [] \<and> a = 0"
    using am r(2) unfolding range_bytes_def good_range_def by (auto split: if_splits simp: word_le_nat_alt)
  have words: "(if range_IsValid env r then first_byte_position env r else 0) = of_nat a"
    "(if range_IsValid env r then last_byte_position env r - of_nat a + 1 else ucast (fi_size info)) = of_nat m"
    using am r(2) ucast_of_nat_32[OF F'(5)] unfolding range_bytes_def good_range_def
    by (auto split: if_splits simp: F'(8) word_le_nat_alt of_nat_diff)
  have "filtered_read ops env f (fi_offset info) (of_nat n) (Some (AsarFileValidator_make i f)) =
      (if blocks_ok ops i c 0 n then Some (MOJO_OK, take n c, Some v) else None)"
    using filtered_reads[OF F'(1) made F'(4) _ F'(6) _ refl, of n "fi_offset info" ops] n by (simp add: F'(7) v_def)
  then have serve: "serve_file ops env path f info st = (if blocks_ok ops i c 0 n then ?sr else None)"
    using words unfolding serve_file_def sniff_size[OF F, folded n_def] F'(9) by (simp add: r(1) Let_def)
  have b: "all_valid ops i c \<Longrightarrow> blocks_ok ops i c 0 n" using all_valid_blocks_ok[OF _ F'(11) n(1)] .
  have c1: "client_bound ?st" using st by simp
  consider "a < n" | "n \<le> a" "0 < m" | "m = 0" "c = []" "a = 0" using am'(2) by fastforce
  then have "(?A \<longrightarrow> ?P) \<and> (all_valid ops i c \<longrightarrow> serve_file ops env path f info st \<noteq> None)"
  proof cases
    case 1
    then show ?thesis
      using send_range_head[OF F w c1 n_def 1 am'(1) v] b unfolding serve n(2) by (auto split: if_splits)
  next
    case 2
    then show ?thesis
      using send_range_later[OF F n_def 2 am'(1) v] b unfolding serve n(2) by (auto split: if_splits)
  next
    case 3
    have v0: "reads_at i [] 0 v" "total_hash_byte_count v = 0" using v 3(2) by (simp_all add: n_def)
    have sr: "?sr = (if done_ok ops i [] 0
        then Some (finished (total_bytes_written ?st) [] (tell (ReceivedResponse (content_head env path [] 0)) ?st)) else None)"
      using send_range_empty[OF F[unfolded 3(2)] c1 v(1) v0, of path] 3 by simp
    have "all_valid ops i [] \<Longrightarrow> done_ok ops i [] 0" using all_valid_done_ok[OF _ F'(11), of ops "[]" 0] by simp
    then show ?thesis unfolding serve sr n(2) using b 3 by (auto simp: outcome_def touched_valid_def)
  qed
  then show "?A \<Longrightarrow> ?P" "all_valid ops i c \<Longrightarrow> serve_file ops env path f info st \<noteq> None" by blast+
qed

section \<open>What is served\<close>

lemma deliver_all_valid:
  assumes F: "verified_file ops env f info i off c" and V: "all_valid ops i c"
    and st: "producing f i off c a e p st" "client_bound st" and ns: "e - p \<le> sum_list (map unat ns)"
  shows "\<exists>st'. deliver ops env ns st = Some st' \<and> data_producer st' = None"
proof -
  obtain dp0 where dp0: "data_producer st = Some dp0" using st(1) unfolding producing_def by blast
  obtain st1 where s1: "producer_steps ops env ns st = Some st1" using producer_steps_all_valid[OF F V st(1)] by blast
  obtain q dp where q: "p \<le> q" "q \<le> e" "min e (p + sum_list (map unat ns)) \<le> q" "producing f i off c a e q st1"
    and st1: "st1 = st\<lparr>data_producer := Some dp, piped := piped st @ take (q - p) (drop p c)\<rparr>"
    using producer_steps_reads[OF F st(1) s1] by blast
  have el: "e \<le> length c" using st(1) by (simp add: producing_def)
  have qe: "q = e" using q(1-3) ns by (simp add: min_def split: if_splits)
  have "dp_position dp = dp_end dp" using q(4) unfolding producing_def st1 qe by auto
  moreover have "producer_done ops MOJO_OK st1 = Some (finished (total_bytes_written st1) [] st1)"
    using producer_done_reads[OF F q(4), of] st(2) all_valid_done_ok[OF V verified_fileD(11)[OF F] el] by (simp add: qe st1)
  ultimately have "deliver ops env ns st = Some (finished (total_bytes_written st1) [] st1)"
    by (simp add: deliver_def dp0 s1) (simp add: st1)
  then show ?thesis by (simp add: finished_def MaybeDeleteSelf_def)
qed

lemma touched_valid_join:
  assumes "blocks_ok ops i c a p" "touched_valid ops i c p e" "0 < block_len i"
  shows "touched_valid ops i c a e"
  unfolding touched_valid_def
proof (intro allI impI)
  fix j assume j: "a < Suc j * block_len i" "j * block_len i < e"
  show "valid_block ops i c j"
  proof (cases "p < Suc j * block_len i")
    case True
    then show ?thesis using assms(2) j(2) unfolding touched_valid_def by blast
  next
    case False
    then have "Suc j \<le> p div block_len i" using assms(3) by (simp add: less_eq_div_iff_mult_less_eq)
    moreover have "a div block_len i \<le> j" using j(1) assms(3) by (metis div_less_iff_less_mult less_Suc_eq_le)
    ultimately show ?thesis using assms(1) unfolding blocks_ok_def list_all_iff by auto
  qed
qed

lemma finished_simps:
  "data_producer (finished n b st) = None" "piped (finished n b st) = piped st @ b"
  "client_log (finished n b st) = client_log st @ [Completed NET_OK n]"
  by (simp_all add: finished_def MaybeDeleteSelf_def)

lemma outcome_delivered:
  assumes F: "verified_file ops env f info i off c" and st: "client_bound st"
    and o: "outcome ops f i off c a (a + m) head st st1" and d: "deliver ops env ns st1 = Some st2" "data_producer st2 = None"
  shows "piped st2 = piped st @ take m (drop a c)"
    "client_log st2 = client_log st @ [ReceivedResponse head, Completed NET_OK (total_bytes_written st)]"
    "touched_valid ops i c a (a + m)"
proof -
  from o consider "touched_valid ops i c a (a + m)"
      "st1 = finished (total_bytes_written st) (take m (drop a c)) (tell (ReceivedResponse head) st)"
    | p dp where "a \<le> p" "blocks_ok ops i c a p" "producing f i off c p (a + m) p st1"
        "st1 = (tell (ReceivedResponse head) st)\<lparr>data_producer := Some dp, piped := piped st @ take (p - a) (drop a c)\<rparr>"
    unfolding outcome_def add_diff_cancel_left' by blast
  then have "piped st2 = piped st @ take m (drop a c) \<and>
    client_log st2 = client_log st @ [ReceivedResponse head, Completed NET_OK (total_bytes_written st)] \<and> touched_valid ops i c a (a + m)"
  proof cases
    case 1
    then have "st2 = st1" using d(1) by (simp add: deliver_def finished_simps)
    then show ?thesis using 1 by (simp add: finished_simps)
  next
    case (2 p dp)
    have bound: "client_bound st1" using st unfolding 2(4) by simp
    have pe: "p \<le> a + m" using 2(3) by (simp add: producing_def)
    from deliver_reads[OF F 2(3) bound d]
    have e: "st2 = finished (total_bytes_written st1) (take (a + m - p) (drop p c)) st1" "touched_valid ops i c p (a + m)" by blast+
    have "take (p - a) (drop a c) @ take (a + m - p) (drop p c) = take m (drop a c)"
      using take_add[of "p - a" "a + m - p" "drop a c"] 2(1) pe by (simp add: add.commute)
    moreover have "touched_valid ops i c a (a + m)" using touched_valid_join[OF 2(2) e(2) verified_fileD(11)[OF F]] .
    ultimately show ?thesis unfolding e(1) finished_simps 2(4) by simp
  qed
  then show "piped st2 = piped st @ take m (drop a c)"
    "client_log st2 = client_log st @ [ReceivedResponse head, Completed NET_OK (total_bytes_written st)]"
    "touched_valid ops i c a (a + m)" by blast+
qed

lemma outcome_all_valid:
  assumes F: "verified_file ops env f info i off c" "all_valid ops i c" and st: "client_bound st"
    and o: "outcome ops f i off c a (a + m) head st st1" and ns: "m \<le> sum_list (map unat ns)"
  shows "\<exists>st2. deliver ops env ns st1 = Some st2 \<and> data_producer st2 = None"
proof -
  from o consider "st1 = finished (total_bytes_written st) (take m (drop a c)) (tell (ReceivedResponse head) st)"
    | p dp where "a \<le> p" "producing f i off c p (a + m) p st1"
        "st1 = (tell (ReceivedResponse head) st)\<lparr>data_producer := Some dp, piped := piped st @ take (p - a) (drop a c)\<rparr>"
    unfolding outcome_def add_diff_cancel_left' by blast
  then show ?thesis
  proof cases
    case 1
    then show ?thesis by (simp add: deliver_def finished_simps)
  next
    case (2 p dp)
    then show ?thesis using deliver_all_valid[OF F 2(2)] st ns by (simp add: 2(3))
  qed
qed

text \<open>C4: a page that asks for a range of a file whose blocks have hashes gets exactly the bytes of the
  range, and is told that it is complete; and by then every block that the range touches has been found
  to have the hash of the header, whatever the sizes of the reads were.\<close>

theorem served_bytes_are_checked:
  assumes "verified_file ops env f info i off c" "writes_all env" "client_bound st"
    and "requested_range env (fi_size info) = Some r" "good_range env r (length c)" "range_bytes env r (length c) = (a, m)"
    and "serve_file ops env path f info st = Some st1" "deliver ops env ns st1 = Some st2" "data_producer st2 = None"
  shows "piped st2 = piped st @ take m (drop a c) \<and>
    client_log st2 = client_log st @ [ReceivedResponse (content_head env path (take 1024 c) (of_nat m)), Completed NET_OK (of_nat m)] \<and>
    touched_valid ops i c a (a + m)"
  using outcome_delivered[OF assms(1) _ serve_file_outcome(1)[OF assms(1-7)] assms(8,9)] assms(3) by simp

text \<open>C16: a file whose blocks all have the hashes of the header is served: nothing ends the process, and
  when the reads have given everything, the page has the bytes of the range and is told that it is complete.\<close>

theorem valid_file_is_served:
  assumes "verified_file ops env f info i off c" "all_valid ops i c" "writes_all env" "client_bound st"
    and "requested_range env (fi_size info) = Some r" "good_range env r (length c)" "range_bytes env r (length c) = (a, m)"
    and "m \<le> sum_list (map unat ns)"
  shows "\<exists>st1 st2. serve_file ops env path f info st = Some st1 \<and> deliver ops env ns st1 = Some st2 \<and>
    data_producer st2 = None \<and> piped st2 = piped st @ take m (drop a c)"
proof -
  obtain st1 where s1: "serve_file ops env path f info st = Some st1"
    using serve_file_outcome(2)[OF assms(1,3-7,2)] by blast
  note o = serve_file_outcome(1)[OF assms(1,3-7) s1]
  obtain st2 where s2: "deliver ops env ns st1 = Some st2" "data_producer st2 = None"
    using outcome_all_valid[OF assms(1,2) _ o assms(8)] assms(4) by auto
  then show ?thesis using s1 outcome_delivered(1)[OF assms(1) _ o s2] assms(4) by simp
qed

end
