(* ===== verification/Asar_Served.thy ===== *)
theory Asar_Served
  imports Asar_Serving
begin

text \<open>
  What happens to a page that asks for a range that a file does not have; and a file with its hashes, for
  the witnesses.
\<close>

section \<open>A range that cannot be satisfied\<close>

text \<open>The validator is then told that everything is read without having been told where it is: it takes the
  file for one at offset 0 of the archive, of which everything is still to be read.\<close>

lemma OnDone_unplaced:
  assumes i: "integrity_ok i" and v: "reads_at i c n v" and n: "0 < n" "n < block_len i" "n \<le> length c"
    and z: "read_start v = 0" "extra_read v = 0" "read_max v = 0" "total_hash_byte_count v = of_nat n"
    and rd: "File_Read ops (of_nat n) (of_nat (block_len i - n)) (v_file v) = (len, bytes)" and nb: "ip_blocks i \<noteq> []"
  shows "OnDone ops v \<noteq> None \<longleftrightarrow> len = int (block_len i - n) \<and> ip_blocks i ! 0 = sha256_hex ops (take n c @ bytes)"
proof -
  let ?B = "block_len i"
  have B: "?B < 2 ^ 31" using i by (simp add: integrity_ok_def)
  have vi: "v_integrity v = i" "v = reading i c n v" using v unfolding reads_at_def by blast+
  have cur: "current_block v = 0" "current_hash_byte_count v = of_nat n" "current_hash v = Some (take n c)"
    by (subst vi(2), simp add: reading_def n)+
  have "n < 2 ^ 64" "?B - n < 2 ^ 64" using B n(2) by simp_all
  then have un: "unat (of_nat n :: u64) = n" "unat (of_nat (?B - n) :: u64) = ?B - n" using unat_of_nat_64 by blast+
  have n0: "(of_nat n :: u64) \<noteq> 0" using un(1) n(1) by (metis unat_0 less_irrefl)
  have need: "min (v_block_size v - of_nat n) (0 - of_nat n) = (of_nat (?B - n) :: u64)"
  proof -
    have "v_block_size v - of_nat n = of_nat (?B - n)" using n(2) by (simp add: v_block_size_nat vi(1) of_nat_diff)
    moreover have "(0 - of_nat n :: u64) = of_nat (2 ^ 64 - n)" using B n(2) by (subst of_nat_diff) simp_all
    then have "unat (0 - of_nat n :: u64) = 2 ^ 64 - n" using unat_of_nat_64[of "2 ^ 64 - n"] n(1) by simp
    then have "of_nat (?B - n) \<le> (0 - of_nat n :: u64)" using B n(2) unfolding word_le_nat_alt un(2) by simp
    ultimately show ?thesis by (simp add: min_absorb1)
  qed
  have ub: "uint (of_nat (?B - n) :: u64) = int (?B - n)" using un(2) by (metis uint_nat)
  have b0: "(of_nat (?B - n) :: u64) \<noteq> 0" using un(2) n(2) by (metis unat_0 zero_less_diff less_irrefl)
  have rest: "hash_rest ops (take n c) (v\<lparr>done_reading := True\<rparr>) = (if len = int (?B - n) then Some (take n c @ bytes) else None)"
  proof -
    define w where "w = v\<lparr>done_reading := True\<rparr>"
    have s: "total_hash_byte_count w - extra_read w = of_nat n" "read_max w - read_start w = 0"
      "0 - total_hash_byte_count w + extra_read w = 0 - of_nat n"
      "read_start w + total_hash_byte_count w - extra_read w = of_nat n"
      "v_block_size w - current_hash_byte_count w = v_block_size v - of_nat n"
      "v_file w = v_file v" by (simp_all add: w_def z v_block_size_def cur(2))
    show ?thesis
      unfolding hash_rest_def Let_def w_def[symmetric] s need rd prod.case ub using n0 b0 by (simp add: w_def)
  qed
  show ?thesis
    using rest n0 cur vi(1) nb by (auto simp: OnDone_def FinishBlock_def idx_def Let_def split: if_splits)
qed

text \<open>C39: a page that asks for a range that cannot be satisfied is told so, but the check that follows
  hashes bytes of the archive from the wrong place: it goes on from the start of the archive, not of the file.
  Unless these happen to be the bytes of the file, a file that is as the header says ends the process.\<close>

theorem unsatisfiable_range_checks_other_bytes:
  assumes "verified_file ops env f info i off c" "client_bound st" "requested_range env (fi_size info) = None"
    and "n = min 1024 (length c)" "0 < n" "n < block_len i" "ip_blocks i \<noteq> []"
    and "File_Read ops (of_nat n) (of_nat (block_len i - n)) f = (len, bytes)"
  shows "serve_file ops env path f info st =
    (if len = int (block_len i - n) \<and> ip_blocks i ! 0 = sha256_hex ops (take n c @ bytes)
     then Some (MaybeDeleteSelf ((tell (Completed NET_REQUEST_RANGE_NOT_SATISFIABLE 0) st)\<lparr>client_bound := False\<rparr>))
     else None)"
proof -
  note F' = verified_fileD[OF assms(1)]
  define v where "v = read_on i c 0 n (AsarFileValidator_make i f)"
  have made: "reads_at i c 0 (AsarFileValidator_make i f)" using reads_at_make[OF F'(1)] .
  have v: "reads_at i c n v" "v_file v = f" "read_start v = 0" "extra_read v = 0" "read_max v = 0" "total_hash_byte_count v = of_nat n"
    using reads_at_read_on[OF made, of n] by (simp_all add: v_def read_on_def reading_def AsarFileValidator_make_def)
  have nc: "n \<le> length c" using assms(4) by simp
  have "blocks_ok ops i c 0 n" using assms(5-7) by (simp add: blocks_ok_def)
  then have "filtered_read ops env f (fi_offset info) (of_nat n) (Some (AsarFileValidator_make i f)) = Some (MOJO_OK, take n c, Some v)"
    using filtered_reads[OF F'(1) made F'(4) _ F'(6) _ refl, of n "fi_offset info" ops] nc by (simp add: F'(7) v_def)
  then have serve: "serve_file ops env path f info st = give_up ops NET_REQUEST_RANGE_NOT_SATISFIABLE (Some v) st"
    unfolding serve_file_def sniff_size[OF assms(1), folded assms(4)] F'(9) by (simp add: assms(3))
  have "OnDone ops v \<noteq> None \<longleftrightarrow> len = int (block_len i - n) \<and> ip_blocks i ! 0 = sha256_hex ops (take n c @ bytes)"
    using OnDone_unplaced[OF F'(1) v(1) assms(5,6) nc v(3-6) _ assms(7)] assms(8) v(2) by simp
  then show ?thesis
    using assms(2) unfolding serve give_up_def drop_source_def
    by (cases "OnDone ops v") (auto simp: OnClientComplete_def)
qed

section \<open>A short write\<close>

text \<open>When the pipe takes fewer bytes than it was given, but without an error, nothing more is sent, and
  the page is told that the whole range is complete.\<close>

lemma short_write_ends_as_complete:
  assumes "client_bound st" "first < of_nat (length initial)"
    and "k = min (ucast (of_nat (length initial) - first)) (ucast amount)"
    and "write_data env (take (unat k) (drop (unat first) initial)) = (MOJO_OK, w)" "w \<noteq> k"
  shows "send_range ops env path f info initial first amount None st =
    Some (finished (total_bytes_written st) (take (unat w) (drop (unat first) initial)) st)"
  using assms unfolding send_range_def Let_def
  by (cases st) (simp add: OnFileWritten_finished drop_source_def finished_def)

section \<open>Witnesses\<close>

text \<open>A file of 3000 bytes in an archive, after 50 other bytes, in blocks of 2048 bytes; the hash of the
  sample counts bytes.\<close>

definition checked_hash :: "u8 list \<Rightarrow> string" where
  "checked_hash b = (let sevens = length (filter (\<lambda>x. x = 7) b)
     in if length b = 2048 \<and> sevens = 1024 then ''full'' else if length b = 952 \<and> sevens = 0 then ''part'' else ''bad'')"

definition checked_asar :: "(sample_json, string list, u8 list, unit) asar_ops" where
  "checked_asar = (sample_asar sample_header)
     \<lparr>File_Read := \<lambda>off n f. let s = take (unat n) (drop (unat off) f) in (int (length s), s), sha256_hex := checked_hash\<rparr>"

definition sample_content :: "u8 list" where "sample_content = replicate 1024 7 @ replicate 1976 8"
definition sample_archive :: "u8 list" where "sample_archive = replicate 50 1 @ sample_content"

definition sample_integrity :: IntegrityPayload where
  "sample_integrity = \<lparr>ip_algorithm = SHA256, ip_hash = [], ip_block_size = 2048, ip_blocks = [''full'', ''part'']\<rparr>"

definition sample_info :: FileInfo where
  "sample_info = \<lparr>fi_unpacked = False, fi_executable = False, fi_size = 3000, fi_offset = 50, fi_integrity = Some sample_integrity\<rparr>"

definition checked_env :: "u64 \<times> u64 \<Rightarrow> (string list, u8 list, u64 \<times> u64) loader_env" where
  "checked_env r =
     \<lparr>FileURLToFilePath = Some [], pipe_created = True, range_header = Some ''bytes'', ParseRangeHeader = \<lambda>_. Some [r],
      ComputeBounds = \<lambda>n r. (if fst r \<le> snd r \<and> snd r < ucast n then Some r else None), range_IsValid = \<lambda>r. fst r \<le> snd r,
      first_byte_position = fst, last_byte_position = snd, default_range = (1, 0),
      source_read = \<lambda>f off n. (MOJO_OK, take (unat n) (drop (unat off) f)),
      write_data = \<lambda>b. (MOJO_OK, of_nat (length b)), GetMimeTypeFromFile = \<lambda>_. None, SniffMimeType = \<lambda>_. [], extra_headers = None\<rparr>"

definition checked_client :: "u8 list AsarURLLoader" where
  "checked_client = AsarURLLoader_init\<lparr>client_bound := True, receiver_bound := True\<rparr>"

lemma sample_slices:
  assumes "p + n \<le> 3000"
  shows "unat (of_nat (50 + p) :: u64) = 50 + p" "unat (of_nat n :: u64) = n"
    "take n (drop (50 + p) sample_archive) = take n (drop p sample_content)"
proof -
  have "50 + p < 2 ^ 64" "n < 2 ^ 64" using assms by simp_all
  then show "unat (of_nat (50 + p) :: u64) = 50 + p" "unat (of_nat n :: u64) = n" using unat_of_nat_64 by blast+
qed (simp add: sample_archive_def)

lemma sample_sizes: "block_len sample_integrity = 2048" "length sample_content = 3000" "length sample_archive = 3050"
  "ip_blocks sample_integrity = [''full'', ''part'']" "ip_algorithm sample_integrity = SHA256"
  by (simp_all add: block_len_def sample_integrity_def sample_content_def sample_archive_def)

lemma sample_verified: "verified_file checked_asar (checked_env r) sample_archive sample_info sample_integrity 50 sample_content"
proof -
  have "holds checked_asar sample_archive 50 sample_content"
    unfolding holds_def sample_sizes(2) checked_asar_def using sample_slices
    by (auto simp: Let_def sample_sizes(3) min_def simp del: of_nat_add)
  moreover have "serves (checked_env r) sample_archive 50 sample_content"
    unfolding serves_def sample_sizes(2) checked_env_def using sample_slices by (simp del: of_nat_add)
  ultimately show ?thesis
    unfolding verified_file_def integrity_ok_def sample_sizes by (simp add: sample_info_def)
qed

lemma sample_all_valid: "all_valid checked_asar sample_integrity sample_content"
proof -
  have "valid_block checked_asar sample_integrity sample_content 0" "valid_block checked_asar sample_integrity sample_content 1"
    by (simp_all add: valid_block_def content_block_def sample_sizes checked_asar_def checked_hash_def sample_content_def)
  then show ?thesis by (simp add: all_valid_def sample_sizes upt_rec)
qed

lemma sample_range:
  "writes_all (checked_env r)" "client_bound checked_client" "piped checked_client = []"
  "requested_range (checked_env (2000, 2499)) (fi_size sample_info) = Some (2000, 2499)"
  "good_range (checked_env (2000, 2499)) (2000, 2499) (length sample_content)"
  "range_bytes (checked_env (2000, 2499)) (2000, 2499) (length sample_content) = (2000, 500)"
  "requested_range (checked_env (5000, 6000)) (fi_size sample_info) = None"
  by (simp_all add: writes_all_def checked_client_def AsarURLLoader_init_def requested_range_def good_range_def range_bytes_def
      checked_env_def sample_info_def sample_content_def)

theorem valid_file_is_served_witness:
  "case serve_file checked_asar (checked_env (2000, 2499)) [] sample_archive sample_info checked_client of
     None \<Rightarrow> False
   | Some st1 \<Rightarrow> map_option piped (deliver checked_asar (checked_env (2000, 2499)) [300, 200] st1) = Some (replicate 500 8)"
proof -
  have "500 \<le> sum_list (map unat [300, 200 :: u64])" by simp
  from valid_file_is_served[OF sample_verified sample_all_valid sample_range(1,2,4,5,6) this, of "[]"]
  obtain st1 st2 where s: "serve_file checked_asar (checked_env (2000, 2499)) [] sample_archive sample_info checked_client = Some st1"
    "deliver checked_asar (checked_env (2000, 2499)) [300, 200] st1 = Some st2"
    "piped st2 = piped checked_client @ take 500 (drop 2000 sample_content)" by blast
  then show ?thesis by (simp add: sample_range(3)) (simp add: sample_content_def)
qed

theorem served_bytes_are_checked_witness:
  "case serve_file checked_asar (checked_env (2000, 2499)) [] sample_archive sample_info checked_client of
     None \<Rightarrow> False
   | Some st1 \<Rightarrow>
      (case deliver checked_asar (checked_env (2000, 2499)) [500] st1 of
         None \<Rightarrow> False
       | Some st2 \<Rightarrow> piped st2 = replicate 500 8 \<and> length (client_log st2) = 2 \<and> touched_valid checked_asar sample_integrity sample_content 2000 2500)"
proof -
  obtain st1 where s1: "serve_file checked_asar (checked_env (2000, 2499)) [] sample_archive sample_info checked_client = Some st1"
    using serve_file_outcome(2)[OF sample_verified sample_range(1,2,4,5,6) sample_all_valid, of "[]"] by blast
  obtain st2 where s2: "deliver checked_asar (checked_env (2000, 2499)) [500] st1 = Some st2" "data_producer st2 = None"
    using outcome_all_valid[OF sample_verified sample_all_valid _ serve_file_outcome(1)[OF sample_verified sample_range(1,2,4,5,6) s1], of "[500]"]
      sample_range(2) by auto
  from served_bytes_are_checked[OF sample_verified sample_range(1,2,4,5,6) s1 s2]
  have "piped st2 = piped checked_client @ take 500 (drop 2000 sample_content)"
    "length (client_log st2) = length (client_log checked_client) + 2"
    "touched_valid checked_asar sample_integrity sample_content 2000 2500" by simp_all
  then show ?thesis using s1 s2(1)
    by (simp add: sample_range(3)) (simp add: sample_content_def checked_client_def AsarURLLoader_init_def)
qed

theorem unsatisfiable_range_checks_other_bytes_witness:
  "all_valid checked_asar sample_integrity sample_content \<and>
   serve_file checked_asar (checked_env (5000, 6000)) [] sample_archive sample_info checked_client = None"
proof -
  let ?bytes = "take 1024 (drop 1024 sample_archive)"
  have rd: "File_Read checked_asar (of_nat 1024) (of_nat (block_len sample_integrity - 1024)) sample_archive = (1024, ?bytes)"
    by (simp add: checked_asar_def block_len_def sample_integrity_def sample_archive_def sample_content_def Let_def)
  have "1024 = min 1024 (length sample_content)" "0 < (1024 :: nat)" "1024 < block_len sample_integrity" "ip_blocks sample_integrity \<noteq> []"
    by (simp_all add: sample_content_def block_len_def sample_integrity_def)
  from unsatisfiable_range_checks_other_bytes[OF sample_verified sample_range(2,7) this rd, of "[]"]
  show ?thesis using sample_all_valid
    by (simp add: sample_sizes) (simp add: checked_asar_def sample_archive_def sample_content_def checked_hash_def)
qed

end
