(* ===== verification/V8_Converter.thy ===== *)
theory V8_Converter
  imports Machine_Float
begin

text \<open>
  shell/common/v8\_value\_converter.cc: the conversion between values of V8 and \<open>base::Value\<close>, through
  which the messages between the processes pass. Objects of V8 may be cyclic; the conversion cuts
  a reference to an object that is being converted, and it stops at a depth of 100. V8 and the Node
  buffers are parameters: functions on handles and on the state of the isolate, since a property may
  be a getter that runs a script. The outer \<^const>\<open>None\<close> of a result is a crash (\<open>ToLocalChecked\<close>,
  \<open>Check\<close>, the use of an empty handle); an inner \<^const>\<open>None\<close> is a null pointer or an empty handle.
\<close>

section \<open>Values and parameters\<close>

text \<open>The types of \<open>base::Value\<close>. A dictionary is its list of entries in the order of iteration.\<close>

datatype base_value =
  VNone | VBool bool | VInt int | VDouble fp | VString string | VBlob "u8 list"
  | VList "base_value list" | VDict "(string \<times> base_value) list"

record ('h, 'c, 'w) v8_ops =
  IsExternal :: "'h \<Rightarrow> bool"
  IsNull :: "'h \<Rightarrow> bool"
  IsBoolean :: "'h \<Rightarrow> bool"
  IsInt32 :: "'h \<Rightarrow> bool"
  IsNumber :: "'h \<Rightarrow> bool"
  IsString :: "'h \<Rightarrow> bool"
  IsUndefined :: "'h \<Rightarrow> bool"
  IsDate :: "'h \<Rightarrow> bool"
  IsRegExp :: "'h \<Rightarrow> bool"
  IsArray :: "'h \<Rightarrow> bool"
  IsFunction :: "'h \<Rightarrow> bool"
  IsObject :: "'h \<Rightarrow> bool"
  Buffer_HasInstance :: "'h \<Rightarrow> bool"
  BooleanValue :: "'h \<Rightarrow> bool"
  Int32Value :: "'h \<Rightarrow> int"
  NumberValue :: "'h \<Rightarrow> fp"
  Utf8Value :: "'h \<Rightarrow> 'w \<Rightarrow> string option \<times> 'w"
  Buffer_Data :: "'h \<Rightarrow> 'w \<Rightarrow> u8 list"
  GetIdentityHash :: "'h \<Rightarrow> int"
  GetCreationContextChecked :: "'h \<Rightarrow> 'c"
  Array_Length :: "'h \<Rightarrow> 'w \<Rightarrow> u32"
  Array_Get :: "'c \<Rightarrow> 'h \<Rightarrow> u32 \<Rightarrow> 'w \<Rightarrow> 'h option \<times> 'w"
  HasRealIndexedProperty :: "'c \<Rightarrow> 'h \<Rightarrow> u32 \<Rightarrow> 'w \<Rightarrow> bool"
  GetOwnPropertyNames :: "'c \<Rightarrow> 'h \<Rightarrow> 'w \<Rightarrow> 'h list option \<times> 'w"
  Object_Get :: "'c \<Rightarrow> 'h \<Rightarrow> 'h \<Rightarrow> 'w \<Rightarrow> 'h option \<times> 'w"
  Get_toISOString :: "'c \<Rightarrow> 'h \<Rightarrow> 'w \<Rightarrow> 'h option \<times> 'w"
  Function_Call :: "'c \<Rightarrow> 'h \<Rightarrow> 'h \<Rightarrow> 'h list \<Rightarrow> 'w \<Rightarrow> 'h option \<times> 'w"
  v8_Null :: 'h
  Boolean_New :: "bool \<Rightarrow> 'h"
  Integer_New :: "int \<Rightarrow> 'w \<Rightarrow> 'h \<times> 'w"
  Number_New :: "fp \<Rightarrow> 'w \<Rightarrow> 'h \<times> 'w"
  String_NewFromUtf8 :: "string \<Rightarrow> 'w \<Rightarrow> 'h option \<times> 'w"
  Array_New :: "nat \<Rightarrow> 'w \<Rightarrow> 'h \<times> 'w"
  Array_Set :: "'c \<Rightarrow> 'h \<Rightarrow> u32 \<Rightarrow> 'h \<Rightarrow> 'w \<Rightarrow> bool \<times> 'w"
  Dictionary_CreateEmpty :: "'w \<Rightarrow> 'h \<times> 'w"
  SetHidden_simple :: "'h \<Rightarrow> 'w \<Rightarrow> 'w"
  Dictionary_Set :: "'h \<Rightarrow> string \<Rightarrow> 'h \<Rightarrow> 'w \<Rightarrow> 'w"
  NodeBindings_IsInitialized :: "'w \<Rightarrow> bool"
  Buffer_Copy :: "u8 list \<Rightarrow> 'w \<Rightarrow> 'h option \<times> 'w"
  kMaxLength :: nat
  ArrayBuffer_New :: "u8 list \<Rightarrow> 'w \<Rightarrow> 'h \<times> 'w"
  Uint8Array_New :: "'h \<Rightarrow> nat \<Rightarrow> 'w \<Rightarrow> 'h \<times> 'w"
  GetHidden_Buffer :: "'w \<Rightarrow> 'h option"
  Buffer_from :: "'h \<Rightarrow> 'w \<Rightarrow> 'h option \<times> 'w"
  Dict_Set :: "string \<Rightarrow> base_value \<Rightarrow> (string \<times> base_value) list \<Rightarrow> (string \<times> base_value) list"

record V8ValueConverter =
  reg_exp_allowed :: bool
  function_allowed :: bool
  strip_null_from_objects :: bool

definition V8ValueConverter_init :: V8ValueConverter where
  "V8ValueConverter_init = \<lparr>reg_exp_allowed = False, function_allowed = False, strip_null_from_objects = False\<rparr>"

definition SetRegExpAllowed :: "bool \<Rightarrow> V8ValueConverter \<Rightarrow> V8ValueConverter" where
  "SetRegExpAllowed val conv = conv\<lparr>reg_exp_allowed := val\<rparr>"

definition SetFunctionAllowed :: "bool \<Rightarrow> V8ValueConverter \<Rightarrow> V8ValueConverter" where
  "SetFunctionAllowed val conv = conv\<lparr>function_allowed := val\<rparr>"

definition SetStripNullFromObjects :: "bool \<Rightarrow> V8ValueConverter \<Rightarrow> V8ValueConverter" where
  "SetStripNullFromObjects val conv = conv\<lparr>strip_null_from_objects := val\<rparr>"

definition kMaxRecursionDepth :: nat where "kMaxRecursionDepth = 100"

section \<open>The objects being converted\<close>

text \<open>The multimap from identity hashes to handles is the list of its entries.\<close>

type_synonym 'h unique_map = "(int \<times> 'h) list"

definition GetIteratorInMap :: "('h, 'c, 'w) v8_ops \<Rightarrow> 'h \<Rightarrow> 'h unique_map \<Rightarrow> (int \<times> 'h) option" where
  "GetIteratorInMap ops handle m =
     (let hash = GetIdentityHash ops handle
      in find (\<lambda>it. snd it = handle) (filter (\<lambda>it. fst it = hash) m))"

definition AddToUniquenessCheck :: "('h, 'c, 'w) v8_ops \<Rightarrow> 'h \<Rightarrow> 'h unique_map \<Rightarrow> bool \<times> 'h unique_map" where
  "AddToUniquenessCheck ops handle m =
     (case GetIteratorInMap ops handle m of
        Some _ \<Rightarrow> (False, m)
      | None \<Rightarrow> (True, m @ [(GetIdentityHash ops handle, handle)]))"

definition RemoveFromUniquenessCheck :: "('h, 'c, 'w) v8_ops \<Rightarrow> 'h \<Rightarrow> 'h unique_map \<Rightarrow> bool \<times> 'h unique_map" where
  "RemoveFromUniquenessCheck ops handle m =
     (case GetIteratorInMap ops handle m of
        None \<Rightarrow> (False, m)
      | Some it \<Rightarrow> (True, remove1 it m))"

section \<open>From V8\<close>

text \<open>The state of a conversion: the objects being converted and the state of the isolate.\<close>

type_synonym ('h, 'w) conv_state = "'h unique_map \<times> 'w"
type_synonym ('h, 'w) from_v8 = "'h \<Rightarrow> ('h, 'w) conv_state \<Rightarrow> (base_value option \<times> ('h, 'w) conv_state) option"

text \<open>The loop of \<open>FromV8Array\<close>. It reads the length again in each step, as a getter may change it;
  it ends because the index is below a 32-bit length.\<close>

function array_loop ::
  "('h, 'c, 'w) v8_ops \<Rightarrow> ('h, 'w) from_v8 \<Rightarrow> 'c \<Rightarrow> 'h \<Rightarrow> u32 \<Rightarrow> base_value list \<Rightarrow> ('h, 'w) conv_state
    \<Rightarrow> (base_value list \<times> ('h, 'w) conv_state) option" where
  "array_loop ops conv ctx val i result (m, w) =
     (if i < Array_Length ops val w then
        let (maybe_child, w1) = Array_Get ops ctx val i w;
            child_v8 = (case maybe_child of Some c \<Rightarrow> c | None \<Rightarrow> v8_Null ops)
        in if \<not> HasRealIndexedProperty ops ctx val i w1
           then array_loop ops conv ctx val (i + 1) (result @ [VNone]) (m, w1)
           else do {
             (child, s2) \<leftarrow> conv child_v8 (m, w1);
             array_loop ops conv ctx val (i + 1) (result @ [case child of Some c \<Rightarrow> c | None \<Rightarrow> VNone]) s2 }
      else Some (result, m, w))"
  by pat_completeness auto

lemma u32_Suc: "i < n \<Longrightarrow> unat (i + 1) = Suc (unat (i :: u32))"
  using unat_u32_less [of n] by (simp add: unat_word_ariths word_less_nat_alt)

termination array_loop
proof (relation "measure (\<lambda>(ops, conv, ctx, val, i, result, s). 4294967296 - unat i)", goal_cases)
  case 1
  show ?case by simp
next
  case (2 ops conv ctx val i result m w)
  then show ?case using unat_u32_less [of i] by (simp only: u32_Suc in_measure case_prod_conv)
next
  case (3 ops conv ctx val i result m w)
  then show ?case using unat_u32_less [of i] by (simp only: u32_Suc in_measure case_prod_conv)
qed

declare array_loop.simps [simp del]

definition scope_context :: "('h, 'c, 'w) v8_ops \<Rightarrow> 'h \<Rightarrow> 'c \<Rightarrow> 'c" where
  "scope_context ops val ctx = (if GetCreationContextChecked ops val \<noteq> ctx then GetCreationContextChecked ops val else ctx)"

text \<open>\<open>ScopedUniquenessGuard\<close>: the object is added to the map, and removed when the conversion of its
  content is done. An object that is in the map already converts to null.\<close>

definition ScopedUniquenessGuard ::
  "('h, 'c, 'w) v8_ops \<Rightarrow> 'h \<Rightarrow> (('h, 'w) conv_state \<Rightarrow> (base_value \<times> ('h, 'w) conv_state) option)
    \<Rightarrow> ('h, 'w) conv_state \<Rightarrow> (base_value option \<times> ('h, 'w) conv_state) option" where
  "ScopedUniquenessGuard ops val body s =
     (let (is_valid, m1) = AddToUniquenessCheck ops val (fst s)
      in if \<not> is_valid then Some (Some VNone, s)
         else do {
           (result, m2, w2) \<leftarrow> body (m1, snd s);
           Some (Some result, snd (RemoveFromUniquenessCheck ops val m2), w2) })"

definition FromV8Array :: "('h, 'c, 'w) v8_ops \<Rightarrow> ('c \<Rightarrow> ('h, 'w) from_v8) \<Rightarrow> 'c \<Rightarrow> ('h, 'w) from_v8" where
  "FromV8Array ops conv ctx val =
     ScopedUniquenessGuard ops val
       (\<lambda>s. let ctx1 = scope_context ops val ctx
            in map_option (map_prod VList id) (array_loop ops (conv ctx1) ctx1 val 0 [] s))"

definition FromNodeBuffer :: "('h, 'c, 'w) v8_ops \<Rightarrow> 'h \<Rightarrow> 'w \<Rightarrow> base_value" where
  "FromNodeBuffer ops v w = VBlob (Buffer_Data ops v w)"

text \<open>The loop of \<open>FromV8Object\<close> over the names of the properties; a name that is neither a string nor a
  number is skipped.\<close>

fun object_loop ::
  "('h, 'c, 'w) v8_ops \<Rightarrow> bool \<Rightarrow> ('h, 'w) from_v8 \<Rightarrow> 'c \<Rightarrow> 'h \<Rightarrow> 'h list \<Rightarrow> (string \<times> base_value) list
    \<Rightarrow> ('h, 'w) conv_state \<Rightarrow> ((string \<times> base_value) list \<times> ('h, 'w) conv_state) option" where
  "object_loop ops strip conv ctx val [] result s = Some (result, s)"
| "object_loop ops strip conv ctx val (key # names) result (m, w) =
     (if \<not> IsString ops key \<and> \<not> IsNumber ops key then object_loop ops strip conv ctx val names result (m, w)
      else let (name, w1) = Utf8Value ops key w;
               (maybe_child, w2) = Object_Get ops ctx val key w1;
               child_v8 = (case maybe_child of Some c \<Rightarrow> c | None \<Rightarrow> v8_Null ops)
           in do {
             (child, s3) \<leftarrow> conv child_v8 (m, w2);
             object_loop ops strip conv ctx val names
               (case child of
                  None \<Rightarrow> result
                | Some c \<Rightarrow> if strip \<and> c = VNone then result else Dict_Set ops (case name of Some n \<Rightarrow> n | None \<Rightarrow> []) c result)
               s3 })"

definition FromV8Object :: "('h, 'c, 'w) v8_ops \<Rightarrow> bool \<Rightarrow> ('c \<Rightarrow> ('h, 'w) from_v8) \<Rightarrow> 'c \<Rightarrow> ('h, 'w) from_v8" where
  "FromV8Object ops strip conv ctx val =
     ScopedUniquenessGuard ops val
       (\<lambda>(m, w). let ctx1 = scope_context ops val ctx;
                     (property_names, w1) = GetOwnPropertyNames ops ctx1 val w
                 in case property_names of
                      None \<Rightarrow> Some (VDict [], m, w1)
                    | Some names \<Rightarrow> map_option (map_prod VDict id) (object_loop ops strip (conv ctx1) ctx1 val names [] (m, w1)))"

text \<open>The text of a date, \<^const>\<open>None\<close> inside where its method \<open>toISOString\<close> is missing or throws. To read
  the method has to succeed.\<close>

definition date_string :: "('h, 'c, 'w) v8_ops \<Rightarrow> 'c \<Rightarrow> 'h \<Rightarrow> 'w \<Rightarrow> (string option \<times> 'w) option" where
  "date_string ops ctx val w =
     (let (toISOString, w1) = Get_toISOString ops ctx val w
      in case toISOString of
           None \<Rightarrow> None
         | Some f \<Rightarrow>
             if IsFunction ops f then
               let (result, w2) = Function_Call ops ctx f val [] w1
               in case result of
                    None \<Rightarrow> Some (None, w2)
                  | Some r \<Rightarrow> let (utf8, w3) = Utf8Value ops r w2 in Some (Some (case utf8 of Some t \<Rightarrow> t | None \<Rightarrow> []), w3)
             else Some (None, w1))"

text \<open>The kinds of values from regular expressions on. The text of a regular expression is read as a
  C string: it ends at the first NUL, and a null pointer is undefined.\<close>

definition FromV8Other ::
  "('h, 'c, 'w) v8_ops \<Rightarrow> V8ValueConverter \<Rightarrow> ('c \<Rightarrow> ('h, 'w) from_v8) \<Rightarrow> 'c \<Rightarrow> ('h, 'w) from_v8" where
  "FromV8Other ops cv conv ctx val s =
     (if IsRegExp ops val then
        if \<not> reg_exp_allowed cv then FromV8Object ops (strip_null_from_objects cv) conv ctx val s
        else (case Utf8Value ops val (snd s) of
                (None, _) \<Rightarrow> None
              | (Some t, w1) \<Rightarrow> Some (Some (VString (takeWhile (\<lambda>c. c \<noteq> CHR 0x00) t)), fst s, w1))
      else if IsArray ops val then FromV8Array ops conv ctx val s
      else if IsFunction ops val then
        if \<not> function_allowed cv then Some (None, s) else FromV8Object ops (strip_null_from_objects cv) conv ctx val s
      else if Buffer_HasInstance ops val then Some (Some (FromNodeBuffer ops val (snd s)), s)
      else if IsObject ops val then FromV8Object ops (strip_null_from_objects cv) conv ctx val s
      else Some (None, s))"

text \<open>The first argument is \<open>max_recursion_depth_\<close> on entry; at 0 the level makes it negative.\<close>

fun FromV8ValueImpl ::
  "nat \<Rightarrow> ('h, 'c, 'w) v8_ops \<Rightarrow> V8ValueConverter \<Rightarrow> 'c \<Rightarrow> ('h, 'w) from_v8" where
  "FromV8ValueImpl 0 ops cv ctx val s = Some (None, s)"
| "FromV8ValueImpl (Suc d) ops cv ctx val s =
     (if IsExternal ops val then Some (Some VNone, s)
      else if IsNull ops val then Some (Some VNone, s)
      else if IsBoolean ops val then Some (Some (VBool (BooleanValue ops val)), s)
      else if IsInt32 ops val then Some (Some (VInt (Int32Value ops val)), s)
      else if IsNumber ops val then
        (case NumberValue ops val of Fin x \<Rightarrow> Some (Some (VDouble (Fin x)), s) | _ \<Rightarrow> Some (None, s))
      else if IsString ops val then
        (case Utf8Value ops val (snd s) of (t, w1) \<Rightarrow> Some (Some (VString (case t of Some u \<Rightarrow> u | None \<Rightarrow> [])), fst s, w1))
      else if IsUndefined ops val then Some (None, s)
      else if IsDate ops val then do {
        (t, w1) \<leftarrow> date_string ops ctx val (snd s);
        (case t of
           Some u \<Rightarrow> Some (Some (VString u), fst s, w1)
         | None \<Rightarrow> FromV8Other ops cv (FromV8ValueImpl d ops cv) ctx val (fst s, w1)) }
      else FromV8Other ops cv (FromV8ValueImpl d ops cv) ctx val s)"

definition FromV8Value ::
  "('h, 'c, 'w) v8_ops \<Rightarrow> V8ValueConverter \<Rightarrow> 'h \<Rightarrow> 'c \<Rightarrow> 'w \<Rightarrow> (base_value option \<times> 'w) option" where
  "FromV8Value ops cv val ctx w =
     map_option (\<lambda>(r, m, w1). (r, w1)) (FromV8ValueImpl kMaxRecursionDepth ops cv ctx val ([], w))"

section \<open>To V8\<close>

definition ToArrayBuffer :: "('h, 'c, 'w) v8_ops \<Rightarrow> 'c \<Rightarrow> u8 list \<Rightarrow> 'w \<Rightarrow> ('h option \<times> 'w) option" where
  "ToArrayBuffer ops ctx data w =
     (if NodeBindings_IsInitialized ops w then
        (case Buffer_Copy ops data w of (None, _) \<Rightarrow> None | (Some b, w1) \<Rightarrow> Some (Some b, w1))
      else if kMaxLength ops < length data then Some (None, w)
      else let (array_buffer, w1) = ArrayBuffer_New ops data w;
               plain = (\<lambda>w. let (u, w') = Uint8Array_New ops array_buffer (length data) w in Some (Some u, w'))
           in case GetHidden_Buffer ops w1 of
                None \<Rightarrow> plain w1
              | Some buffer_value \<Rightarrow>
                  if \<not> IsFunction ops buffer_value then plain w1
                  else (case Buffer_from ops buffer_value w1 of
                          (None, w2) \<Rightarrow> plain w2
                        | (Some from_value, w2) \<Rightarrow>
                            if \<not> IsFunction ops from_value then plain w2
                            else (case Function_Call ops ctx from_value (v8_Null ops) [array_buffer] w2 of
                                    (Some r, w3) \<Rightarrow> Some (Some r, w3)
                                  | (None, w3) \<Rightarrow> plain w3)))"

text \<open>\<open>ToV8ValueImpl\<close> with the loops of \<open>ToV8Array\<close> and \<open>ToV8Object\<close>. A handle for a child that is empty
  may not be set; setting an element is checked.\<close>

fun ToV8ValueImpl :: "('h, 'c, 'w) v8_ops \<Rightarrow> 'c \<Rightarrow> base_value \<Rightarrow> 'w \<Rightarrow> ('h option \<times> 'w) option"
  and ToV8Array :: "('h, 'c, 'w) v8_ops \<Rightarrow> 'c \<Rightarrow> 'h \<Rightarrow> nat \<Rightarrow> base_value list \<Rightarrow> 'w \<Rightarrow> ('h option \<times> 'w) option"
  and ToV8Object :: "('h, 'c, 'w) v8_ops \<Rightarrow> 'c \<Rightarrow> 'h \<Rightarrow> (string \<times> base_value) list \<Rightarrow> 'w \<Rightarrow> ('h option \<times> 'w) option" where
  "ToV8ValueImpl ops ctx VNone w = Some (Some (v8_Null ops), w)"
| "ToV8ValueImpl ops ctx (VBool b) w = Some (Some (Boolean_New ops b), w)"
| "ToV8ValueImpl ops ctx (VInt n) w = (let (h, w1) = Integer_New ops n w in Some (Some h, w1))"
| "ToV8ValueImpl ops ctx (VDouble x) w = (let (h, w1) = Number_New ops x w in Some (Some h, w1))"
| "ToV8ValueImpl ops ctx (VString t) w =
     (case String_NewFromUtf8 ops t w of (None, _) \<Rightarrow> None | (Some h, w1) \<Rightarrow> Some (Some h, w1))"
| "ToV8ValueImpl ops ctx (VBlob data) w = ToArrayBuffer ops ctx data w"
| "ToV8ValueImpl ops ctx (VList xs) w =
     (let (result, w1) = Array_New ops (length xs) w in ToV8Array ops ctx result 0 xs w1)"
| "ToV8ValueImpl ops ctx (VDict kvs) w =
     (let (result, w1) = Dictionary_CreateEmpty ops w in ToV8Object ops ctx result kvs (SetHidden_simple ops result w1))"
| "ToV8Array ops ctx result i [] w = Some (Some result, w)"
| "ToV8Array ops ctx result i (child # xs) w = do {
     (child_v8, w1) \<leftarrow> ToV8ValueImpl ops ctx child w;
     (case child_v8 of
        None \<Rightarrow> None
      | Some c \<Rightarrow> (case Array_Set ops ctx result (of_nat i) c w1 of
                     (False, _) \<Rightarrow> None
                   | (True, w2) \<Rightarrow> ToV8Array ops ctx result (Suc i) xs w2)) }"
| "ToV8Object ops ctx result [] w = Some (Some result, w)"
| "ToV8Object ops ctx result ((key, child) # kvs) w = do {
     (child_v8, w1) \<leftarrow> ToV8ValueImpl ops ctx child w;
     (case child_v8 of
        None \<Rightarrow> None
      | Some c \<Rightarrow> ToV8Object ops ctx result kvs (Dictionary_Set ops result key c w1)) }"

definition ToV8Value :: "('h, 'c, 'w) v8_ops \<Rightarrow> base_value \<Rightarrow> 'c \<Rightarrow> 'w \<Rightarrow> ('h option \<times> 'w) option" where
  "ToV8Value ops v ctx w = ToV8ValueImpl ops ctx v w"

end
