(* ===== verification/V8_Roundtrip.thy ===== *)
theory V8_Roundtrip
  imports V8_Converter "HOL-Library.Multiset"
begin

text \<open>
  What the conversions of \<open>V8_Converter\<close> compute. A value of V8 is a graph of objects; the conversion
  gives its unfolding, in which a reference to an object that is being converted is null. The
  value that \<open>ToV8Value\<close> builds has no such reference, so that \<open>FromV8Value\<close> gives back the value it was
  built from.
\<close>

section \<open>Kinds of values\<close>

text \<open>The first test of \<open>FromV8ValueImpl\<close> that a value passes.\<close>

datatype v8_kind =
  KNull | KBoolean | KInt32 | KNumber | KString | KUndefined | KDate | KRegExp | KArray | KFunction | KBuffer | KObject | KOther

definition kind_of :: "('h, 'c, 'w) v8_ops \<Rightarrow> 'h \<Rightarrow> v8_kind" where
  "kind_of ops h =
     (if IsExternal ops h \<or> IsNull ops h then KNull else if IsBoolean ops h then KBoolean
      else if IsInt32 ops h then KInt32 else if IsNumber ops h then KNumber else if IsString ops h then KString
      else if IsUndefined ops h then KUndefined else if IsDate ops h then KDate else if IsRegExp ops h then KRegExp
      else if IsArray ops h then KArray else if IsFunction ops h then KFunction
      else if Buffer_HasInstance ops h then KBuffer else if IsObject ops h then KObject else KOther)"

lemma FromV8ValueImpl_kind:
  "FromV8ValueImpl (Suc d) ops cv ctx h s =
     (case kind_of ops h of
        KNull \<Rightarrow> Some (Some VNone, s)
      | KBoolean \<Rightarrow> Some (Some (VBool (BooleanValue ops h)), s)
      | KInt32 \<Rightarrow> Some (Some (VInt (Int32Value ops h)), s)
      | KNumber \<Rightarrow> (case NumberValue ops h of Fin x \<Rightarrow> Some (Some (VDouble (Fin x)), s) | _ \<Rightarrow> Some (None, s))
      | KString \<Rightarrow> (case Utf8Value ops h (snd s) of (t, w1) \<Rightarrow> Some (Some (VString (case t of Some u \<Rightarrow> u | None \<Rightarrow> [])), fst s, w1))
      | KUndefined \<Rightarrow> Some (None, s)
      | KArray \<Rightarrow> FromV8Array ops (FromV8ValueImpl d ops cv) ctx h s
      | KBuffer \<Rightarrow> Some (Some (VBlob (Buffer_Data ops h (snd s))), s)
      | KObject \<Rightarrow> FromV8Object ops (strip_null_from_objects cv) (FromV8ValueImpl d ops cv) ctx h s
      | KDate \<Rightarrow> do {
          (t, w1) \<leftarrow> date_string ops ctx h (snd s);
          (case t of
             Some u \<Rightarrow> Some (Some (VString u), fst s, w1)
           | None \<Rightarrow> FromV8Other ops cv (FromV8ValueImpl d ops cv) ctx h (fst s, w1)) }
      | _ \<Rightarrow> FromV8Other ops cv (FromV8ValueImpl d ops cv) ctx h s)"
  by (auto simp: kind_of_def FromV8Other_def FromNodeBuffer_def)

declare FromV8ValueImpl.simps(2) [simp del]

section \<open>The map of objects being converted\<close>

lemma GetIteratorInMap_iff:
  "GetIteratorInMap ops h m = (if (GetIdentityHash ops h, h) \<in> set m then Some (GetIdentityHash ops h, h) else None)"
  unfolding GetIteratorInMap_def Let_def by (induction m) auto

lemma AddToUniquenessCheck_iff:
  "AddToUniquenessCheck ops h m =
     (if (GetIdentityHash ops h, h) \<in> set m then (False, m) else (True, m @ [(GetIdentityHash ops h, h)]))"
  by (simp add: AddToUniquenessCheck_def GetIteratorInMap_iff)

lemma Remove_added:
  "(GetIdentityHash ops h, h) \<notin> set m \<Longrightarrow> RemoveFromUniquenessCheck ops h (m @ [(GetIdentityHash ops h, h)]) = (True, m)"
  by (simp add: RemoveFromUniquenessCheck_def GetIteratorInMap_iff remove1_append)

section \<open>Depth and state of a conversion\<close>

fun depth_le :: "nat \<Rightarrow> base_value \<Rightarrow> bool" where
  "depth_le 0 v = False"
| "depth_le (Suc d) (VList xs) = list_all (depth_le d) xs"
| "depth_le (Suc d) (VDict kvs) = list_all (\<lambda>(k, v). depth_le d v) kvs"
| "depth_le (Suc d) v = True"

text \<open>What a converter of children promises: the map of objects is the one before, and the result is at
  most so deep.\<close>

definition conv_keeps :: "nat \<Rightarrow> ('h, 'w) from_v8 \<Rightarrow> bool" where
  "conv_keeps d conv \<longleftrightarrow>
     (\<forall>h m w r m' w'. conv h (m, w) = Some (r, m', w') \<longrightarrow> m' = m \<and> (\<forall>v. r = Some v \<longrightarrow> depth_le d v))"

lemma conv_keepsD:
  "conv_keeps d conv \<Longrightarrow> conv h (m, w) = Some (r, m', w') \<Longrightarrow> m' = m \<and> (\<forall>v. r = Some v \<longrightarrow> depth_le d v)"
  unfolding conv_keeps_def by blast

lemma array_loop_keeps:
  assumes "conv_keeps (Suc d) conv" "list_all (depth_le (Suc d)) result"
    "array_loop ops conv ctx val i result (m, w) = Some (r, m', w')"
  shows "m' = m \<and> list_all (depth_le (Suc d)) r"
  using assms
proof (induction ops conv ctx val i result "(m, w)" arbitrary: m w rule: array_loop.induct)
  case (1 ops conv ctx val i result m w)
  obtain mc w1 where g: "Array_Get ops ctx val i w = (mc, w1)" by fastforce
  note loop = 1(5) [unfolded array_loop.simps [of ops conv ctx val i result m w] g Let_def case_prod_conv]
  show ?case
  proof (cases "i < Array_Length ops val w")
    case False
    then show ?thesis using loop 1(4) by simp
  next
    case True
    show ?thesis
    proof (cases "HasRealIndexedProperty ops ctx val i w1")
      case False
      show ?thesis using 1(1) [OF True g [symmetric] refl refl False 1(3)] loop True False 1(4) by simp
    next
      case real: True
      obtain c m2 w2 where c: "conv (case mc of Some c \<Rightarrow> c | None \<Rightarrow> v8_Null ops) (m, w1) = Some (c, m2, w2)"
        "array_loop ops conv ctx val (i + 1) (result @ [case c of Some c \<Rightarrow> c | None \<Rightarrow> VNone]) (m2, w2) = Some (r, m', w')"
        using loop True real by (auto split: bind_splits)
      have k: "m2 = m" "\<forall>v. c = Some v \<longrightarrow> depth_le (Suc d) v" using conv_keepsD [OF 1(3) c(1)] by auto
      show ?thesis
        using 1(2) [OF True g [symmetric] refl refl _ c(1) refl 1(3) _ c(2)] real k 1(4) by (simp split: option.split)
    qed
  qed
qed

text \<open>What is relied on of dictionaries: setting a key adds its entry and no other.\<close>

definition dict_entries :: "('h, 'c, 'w) v8_ops \<Rightarrow> bool" where
  "dict_entries ops \<longleftrightarrow> (\<forall>k v d. set (Dict_Set ops k v d) \<subseteq> insert (k, v) (set d))"

lemma object_loop_keeps:
  assumes "dict_entries ops" "conv_keeps (Suc d) conv" "list_all (\<lambda>(k, v). depth_le (Suc d) v) result"
    "object_loop ops strip conv ctx val names result (m, w) = Some (r, m', w')"
  shows "m' = m \<and> list_all (\<lambda>(k, v). depth_le (Suc d) v) r"
  using assms(3,4)
proof (induction names arbitrary: result w)
  case Nil
  then show ?case by simp
next
  case (Cons key names)
  obtain name w1 mc w2 where g: "Utf8Value ops key w = (name, w1)" "Object_Get ops ctx val key w1 = (mc, w2)" by fastforce
  show ?case
  proof (cases "IsString ops key \<or> IsNumber ops key")
    case False
    then show ?thesis using Cons.IH [OF Cons.prems(1)] Cons.prems(2) by simp
  next
    case True
    then obtain c m3 w3 where c: "conv (case mc of Some c \<Rightarrow> c | None \<Rightarrow> v8_Null ops) (m, w2) = Some (c, m3, w3)"
      and rest: "object_loop ops strip conv ctx val names
        (case c of None \<Rightarrow> result
         | Some v \<Rightarrow> if strip \<and> v = VNone then result else Dict_Set ops (case name of Some n \<Rightarrow> n | None \<Rightarrow> []) v result)
        (m3, w3) = Some (r, m', w')"
      using Cons.prems(2) g by (auto split: bind_splits)
    have k: "m3 = m" "\<forall>v. c = Some v \<longrightarrow> depth_le (Suc d) v" using conv_keepsD [OF assms(2) c] by auto
    have "list_all (\<lambda>(k, v). depth_le (Suc d) v) (Dict_Set ops n v result)" if "depth_le (Suc d) v" for n v
      using assms(1) Cons.prems(1) that unfolding dict_entries_def list_all_iff by blast
    then show ?thesis using Cons.IH [OF _ rest [unfolded k(1)]] k(2) Cons.prems(1) by (auto split: option.splits)
  qed
qed

lemma Guard_keeps:
  assumes "ScopedUniquenessGuard ops h body (m, w) = Some (r, m', w')"
    "\<And>m w x m' w'. body (m, w) = Some (x, m', w') \<Longrightarrow> m' = m \<and> depth_le (Suc d) x"
  shows "m' = m \<and> (\<forall>v. r = Some v \<longrightarrow> depth_le (Suc d) v)"
proof (cases "(GetIdentityHash ops h, h) \<in> set m")
  case True
  then show ?thesis using assms(1) by (auto simp: ScopedUniquenessGuard_def AddToUniquenessCheck_iff)
next
  case False
  then obtain x m2 w2 where b: "body (m @ [(GetIdentityHash ops h, h)], w) = Some (x, m2, w2)"
    "r = Some x" "m' = snd (RemoveFromUniquenessCheck ops h m2)"
    using assms(1) by (auto simp: ScopedUniquenessGuard_def AddToUniquenessCheck_iff split: bind_splits)
  then show ?thesis using assms(2) [OF b(1)] Remove_added [OF False] by auto
qed

lemma FromV8Array_keeps:
  assumes "\<forall>c. conv_keeps (Suc d) (conv c)" "FromV8Array ops conv ctx h (m, w) = Some (r, m', w')"
  shows "m' = m \<and> (\<forall>v. r = Some v \<longrightarrow> depth_le (Suc (Suc d)) v)"
  using assms(2) unfolding FromV8Array_def
  by (rule Guard_keeps) (auto simp: Let_def dest!: array_loop_keeps [OF assms(1) [rule_format], rotated])

lemma FromV8Object_keeps:
  assumes "dict_entries ops" "\<forall>c. conv_keeps (Suc d) (conv c)" "FromV8Object ops strip conv ctx h (m, w) = Some (r, m', w')"
  shows "m' = m \<and> (\<forall>v. r = Some v \<longrightarrow> depth_le (Suc (Suc d)) v)"
  using assms(3) unfolding FromV8Object_def
  by (rule Guard_keeps)
    (auto simp: Let_def split: prod.splits option.splits dest!: object_loop_keeps [OF assms(1) assms(2) [rule_format], rotated])

lemma FromV8Other_keeps:
  assumes "dict_entries ops" "\<forall>c. conv_keeps (Suc d) (conv c)" "FromV8Other ops cv conv ctx h (m, w) = Some (r, m', w')"
  shows "m' = m \<and> (\<forall>v. r = Some v \<longrightarrow> depth_le (Suc (Suc d)) v)"
  using assms(3) FromV8Array_keeps [OF assms(2)] FromV8Object_keeps [OF assms(1,2)]
  by (auto simp: FromV8Other_def FromNodeBuffer_def split: if_splits prod.splits option.splits)


lemma FromV8ValueImpl_keeps:
  assumes "dict_entries ops"
  shows "conv_keeps (Suc d) (FromV8ValueImpl d ops cv ctx)"
proof (induction d arbitrary: ctx)
  case 0
  show ?case by (simp add: conv_keeps_def)
next
  case (Suc d)
  have all: "\<forall>c. conv_keeps (Suc d) (FromV8ValueImpl d ops cv c)" using Suc.IH by simp
  note keeps = FromV8Array_keeps [OF all] FromV8Object_keeps [OF assms all] FromV8Other_keeps [OF assms all]
  have "m' = m \<and> (\<forall>v. r = Some v \<longrightarrow> depth_le (Suc (Suc d)) v)"
    if "FromV8ValueImpl (Suc d) ops cv ctx h (m, w) = Some (r, m', w')" for h m w r m' w'
    using that unfolding FromV8ValueImpl_kind
    by (cases "kind_of ops h") (auto split: fp.splits prod.splits option.splits bind_splits dest!: keeps)
  then show ?case unfolding conv_keeps_def by blast
qed

text \<open>C34: a conversion from V8 leaves the map of the objects being converted as it was, whatever the
  scripts do that its getters run, and the value it gives is nested at most one level deeper than
  the bound: an array at the last level has null for its elements. So it is finite also for a
  cyclic object.\<close>

theorem FromV8ValueImpl_bounds:
  assumes "dict_entries ops" "FromV8ValueImpl d ops cv ctx h (m, w) = Some (r, m', w')"
  shows "m' = m \<and> (\<forall>v. r = Some v \<longrightarrow> depth_le (Suc d) v)"
  using conv_keepsD [OF FromV8ValueImpl_keeps [OF assms(1)] assms(2)] .

section \<open>The unfolding of a value\<close>

text \<open>What can be read of an object that runs no script: an element of an array, the entries of an
  object in the order of their enumeration.\<close>

definition elem :: "('h, 'c, 'w) v8_ops \<Rightarrow> 'w \<Rightarrow> 'h \<Rightarrow> u32 \<Rightarrow> 'h \<Rightarrow> bool" where
  "elem ops w h i c \<longleftrightarrow> (\<forall>ctx. Array_Get ops ctx h i w = (Some c, w) \<and> HasRealIndexedProperty ops ctx h i w)"

definition entries :: "('h, 'c, 'w) v8_ops \<Rightarrow> 'w \<Rightarrow> 'h \<Rightarrow> (string \<times> 'h) list \<Rightarrow> bool" where
  "entries ops w h es \<longleftrightarrow>
     (\<exists>names. (\<forall>ctx. GetOwnPropertyNames ops ctx h w = (Some names, w)) \<and>
        list_all2 (\<lambda>k (n, c). (IsString ops k \<or> IsNumber ops k) \<and> Utf8Value ops k w = (Some n, w) \<and>
                     (\<forall>ctx. Object_Get ops ctx h k w = (Some c, w))) names es)"

definition build_dict :: "('h, 'c, 'w) v8_ops \<Rightarrow> (string \<times> base_value) list \<Rightarrow> (string \<times> base_value) list" where
  "build_dict ops ys = foldl (\<lambda>d (k, v). Dict_Set ops k v d) [] ys"

text \<open>\<open>unfolds ops N w A h v\<close>: the handle \<open>h\<close> unfolds to \<open>v\<close>, where the objects in \<open>A\<close> are being
  converted; the objects of the unfolding are among \<open>N\<close>.\<close>

inductive unfolds :: "('h, 'c, 'w) v8_ops \<Rightarrow> 'h set \<Rightarrow> 'w \<Rightarrow> 'h set \<Rightarrow> 'h \<Rightarrow> base_value \<Rightarrow> bool"
  for ops :: "('h, 'c, 'w) v8_ops" and N :: "'h set" and w :: 'w where
  u_null: "kind_of ops h = KNull \<Longrightarrow> unfolds ops N w A h VNone"
| u_bool: "kind_of ops h = KBoolean \<Longrightarrow> unfolds ops N w A h (VBool (BooleanValue ops h))"
| u_int: "kind_of ops h = KInt32 \<Longrightarrow> unfolds ops N w A h (VInt (Int32Value ops h))"
| u_num: "kind_of ops h = KNumber \<Longrightarrow> NumberValue ops h = Fin x \<Longrightarrow> unfolds ops N w A h (VDouble (Fin x))"
| u_str: "kind_of ops h = KString \<Longrightarrow> Utf8Value ops h w = (Some t, w) \<Longrightarrow> unfolds ops N w A h (VString t)"
| u_buf: "kind_of ops h = KBuffer \<Longrightarrow> h \<in> N \<Longrightarrow> unfolds ops N w A h (VBlob (Buffer_Data ops h w))"
| u_back: "kind_of ops h = KArray \<or> kind_of ops h = KObject \<Longrightarrow> h \<in> A \<Longrightarrow> unfolds ops N w A h VNone"
| u_arr: "kind_of ops h = KArray \<Longrightarrow> h \<notin> A \<Longrightarrow> h \<in> N \<Longrightarrow> unat (Array_Length ops h w) = length xs \<Longrightarrow>
    \<forall>i < length xs. \<exists>c. elem ops w h (of_nat i) c \<and> unfolds ops N w (insert h A) c (xs ! i) \<Longrightarrow>
    unfolds ops N w A h (VList xs)"
| u_obj: "kind_of ops h = KObject \<Longrightarrow> h \<notin> A \<Longrightarrow> h \<in> N \<Longrightarrow> entries ops w h es \<Longrightarrow>
    list_all2 (\<lambda>e y. fst e = fst y \<and> unfolds ops N w (insert h A) (snd e) (snd y)) es ys \<Longrightarrow>
    unfolds ops N w A h (VDict (build_dict ops ys))"

lemma array_loop_unfolds:
  assumes "unat (Array_Length ops h w) = length xs"
    "\<forall>i < length xs. \<exists>c. elem ops w h (of_nat i) c \<and> conv c (m, w) = Some (Some (xs ! i), m, w)"
    "unat i \<le> length xs"
  shows "array_loop ops conv ctx h i (take (unat i) xs) (m, w) = Some (xs, m, w)"
  using assms(3)
proof (induction "length xs - unat i" arbitrary: i)
  case 0
  then show ?case using assms(1) by (subst array_loop.simps) (simp add: word_less_nat_alt)
next
  case (Suc n)
  have lt: "unat i < length xs" using Suc.hyps(2) by simp
  then have less: "i < Array_Length ops h w" using assms(1) by (simp add: word_less_nat_alt)
  obtain c where c: "elem ops w h i c" "conv c (m, w) = Some (Some (xs ! unat i), m, w)" using assms(2) lt by fastforce
  have next1: "unat (i + 1) = Suc (unat i)" using u32_Suc [OF less] .
  show ?case
    using Suc.hyps(1) [of "i + 1"] Suc.hyps(2) lt less c next1
    by (subst array_loop.simps) (simp add: elem_def take_Suc_conv_app_nth)
qed

lemma object_loop_unfolds:
  assumes "list_all2 (\<lambda>k (n, v). (IsString ops k \<or> IsNumber ops k) \<and> Utf8Value ops k w = (Some n, w) \<and>
      (\<exists>c. Object_Get ops ctx h k w = (Some c, w) \<and> conv c (m, w) = Some (Some v, m, w))) names ys"
  shows "object_loop ops False conv ctx h names d (m, w) = Some (foldl (\<lambda>d (k, v). Dict_Set ops k v d) d ys, m, w)"
  using assms by (induction names ys arbitrary: d rule: list_all2_induct) auto


lemma foldl_dict_mset:
  assumes "\<And>k v d. k \<notin> fst ` set d \<Longrightarrow> mset (Dict_Set ops k v d) = add_mset (k, v) (mset d)"
    "distinct (map fst (d @ ys))"
  shows "mset (foldl (\<lambda>d (k, v). Dict_Set ops k v d) d ys) = mset d + mset ys"
  using assms(2)
proof (induction ys arbitrary: d)
  case Nil
  then show ?case by simp
next
  case (Cons y ys)
  obtain k v where y: "y = (k, v)" by fastforce
  have k: "k \<notin> fst ` set d" using Cons.prems y by auto
  note m = assms(1) [OF k, of v]
  have "mset (map fst (Dict_Set ops k v d)) = mset (map fst (d @ [y]))" using m y by simp
  then have dist: "distinct (map fst (Dict_Set ops k v d)) = distinct (map fst (d @ [y]))"
    and keys: "set (map fst (Dict_Set ops k v d)) = set (map fst (d @ [y]))"
    by (rule mset_eq_imp_distinct_iff, rule mset_eq_setD)
  have "distinct (map fst (Dict_Set ops k v d @ ys))"
    unfolding map_append distinct_append dist keys using Cons.prems by auto
  then show ?case using Cons.IH [of "Dict_Set ops k v d"] m y by simp
qed

text \<open>A conversion at least as deep as the unfolding gives it and changes nothing. What is relied on of
  dictionaries: setting a new key adds its entry.\<close>

definition dict_adds :: "('h, 'c, 'w) v8_ops \<Rightarrow> bool" where
  "dict_adds ops \<longleftrightarrow> (\<forall>k v d. k \<notin> fst ` set d \<longrightarrow> mset (Dict_Set ops k v d) = add_mset (k, v) (mset d))"

definition distinct_names :: "('h, 'c, 'w) v8_ops \<Rightarrow> 'w \<Rightarrow> bool" where
  "distinct_names ops w \<longleftrightarrow> (\<forall>h es. entries ops w h es \<longrightarrow> distinct (map fst es))"

lemma build_dict_set:
  assumes "dict_adds ops" "distinct (map fst ys)"
  shows "set (build_dict ops ys) = set ys"
proof -
  have "mset (build_dict ops ys) = mset ys"
    using foldl_dict_mset [of ops "[]" ys] assms by (simp add: build_dict_def dict_adds_def)
  then show ?thesis by (rule mset_eq_setD)
qed

lemma Guard_fresh:
  assumes "(GetIdentityHash ops h, h) \<notin> set m" "body (m @ [(GetIdentityHash ops h, h)], w) = Some (v, m @ [(GetIdentityHash ops h, h)], w)"
  shows "ScopedUniquenessGuard ops h body (m, w) = Some (Some v, m, w)"
  using assms by (simp add: ScopedUniquenessGuard_def AddToUniquenessCheck_iff Remove_added)

lemma depth_leE:
  assumes "depth_le d v"
  obtains d' where "d = Suc d'"
  using assms by (cases d) auto

lemma Guard_back: "(GetIdentityHash ops h, h) \<in> set m \<Longrightarrow> ScopedUniquenessGuard ops h body (m, w) = Some (Some VNone, m, w)"
  by (simp add: ScopedUniquenessGuard_def AddToUniquenessCheck_iff)

lemma FromV8_unfolds:
  assumes "unfolds ops N w A h v" "dict_adds ops" "distinct_names ops w" "\<not> strip_null_from_objects cv"
    "A = {x. (GetIdentityHash ops x, x) \<in> set m}" "depth_le d v"
  shows "FromV8ValueImpl d ops cv ctx h (m, w) = Some (Some v, m, w)"
  using assms(1,5,6)
proof (induction arbitrary: m d ctx rule: unfolds.induct)
  case (u_arr h A xs)
  let ?m = "m @ [(GetIdentityHash ops h, h)]"
  obtain d' where d: "d = Suc d'" "list_all (depth_le d') xs" using u_arr.prems(2) by (cases d) auto
  have A: "insert h A = {x. (GetIdentityHash ops x, x) \<in> set ?m}" using u_arr.prems(1) by auto
  have fresh: "(GetIdentityHash ops h, h) \<notin> set m" using u_arr.hyps(2) u_arr.prems(1) by simp
  have child: "\<forall>i < length xs. \<exists>c. elem ops w h (of_nat i) c \<and>
      FromV8ValueImpl d' ops cv k c (?m, w) = Some (Some (xs ! i), ?m, w)" for k
  proof (intro allI impI)
    fix i assume i: "i < length xs"
    obtain c where c: "elem ops w h (of_nat i) c" and conv: "\<forall>x. insert h A = {y. (GetIdentityHash ops y, y) \<in> set x} \<longrightarrow>
        (\<forall>d. depth_le d (xs ! i) \<longrightarrow> (\<forall>k. FromV8ValueImpl d ops cv k c (x, w) = Some (Some (xs ! i), x, w)))"
      using u_arr.IH [THEN spec, THEN mp, OF i] by (elim exE conjE)
    have "FromV8ValueImpl d' ops cv k c (?m, w) = Some (Some (xs ! i), ?m, w)"
      using d(2) i by (intro conv [rule_format, OF A]) (simp add: list_all_length)
    then show "\<exists>c. elem ops w h (of_nat i) c \<and> FromV8ValueImpl d' ops cv k c (?m, w) = Some (Some (xs ! i), ?m, w)"
      using c by blast
  qed
  have "array_loop ops (FromV8ValueImpl d' ops cv k) k h 0 [] (?m, w) = Some (xs, ?m, w)" for k
    using array_loop_unfolds [where i = 0 and conv = "FromV8ValueImpl d' ops cv k", OF u_arr.hyps(4) child] by simp
  then have "FromV8Array ops (FromV8ValueImpl d' ops cv) ctx h (m, w) = Some (Some (VList xs), m, w)"
    unfolding FromV8Array_def by (intro Guard_fresh fresh) (simp add: Let_def)
  then show ?case using u_arr.hyps(1) d(1) by (simp add: FromV8ValueImpl_kind)
next
  case (u_obj h A es ys)
  let ?m = "m @ [(GetIdentityHash ops h, h)]"
  obtain d' where d: "d = Suc d'" "list_all (\<lambda>(k, v). depth_le d' v) (build_dict ops ys)" using u_obj.prems(2) by (cases d) auto
  have A: "insert h A = {x. (GetIdentityHash ops x, x) \<in> set ?m}" using u_obj.prems(1) by auto
  have fresh: "(GetIdentityHash ops h, h) \<notin> set m" using u_obj.hyps(2) u_obj.prems(1) by simp
  have "map fst es = map fst ys" using u_obj.IH by (induction rule: list_all2_induct) auto
  then have "distinct (map fst ys)" using u_obj.hyps(4) assms(3) unfolding distinct_names_def by metis
  then have "\<forall>y \<in> set ys. depth_le d' (snd y)" using d(2) build_dict_set [OF assms(2)] by (fastforce simp: list_all_iff)
  then have child: "list_all2 (\<lambda>e y. fst e = fst y \<and>
      (\<forall>k. FromV8ValueImpl d' ops cv k (snd e) (?m, w) = Some (Some (snd y), ?m, w))) es ys"
    using u_obj.IH A by (intro list.rel_mono_strong [OF u_obj.IH]) blast
  obtain names where names: "\<And>k. GetOwnPropertyNames ops k h w = (Some names, w)"
    "list_all2 (\<lambda>k (n, c). (IsString ops k \<or> IsNumber ops k) \<and> Utf8Value ops k w = (Some n, w) \<and>
       (\<forall>ctx. Object_Get ops ctx h k w = (Some c, w))) names es"
    using u_obj.hyps(4) by (auto simp: entries_def)
  have "list_all2 (\<lambda>x (n, v). (IsString ops x \<or> IsNumber ops x) \<and> Utf8Value ops x w = (Some n, w) \<and>
      (\<exists>c. Object_Get ops k h x w = (Some c, w) \<and> FromV8ValueImpl d' ops cv k c (?m, w) = Some (Some v, ?m, w))) names ys" for k
    by (rule list_all2_trans [OF _ names(2) child]) auto
  note loop = object_loop_unfolds [where conv = "FromV8ValueImpl d' ops cv k" for k, OF this]
  have "FromV8Object ops False (FromV8ValueImpl d' ops cv) ctx h (m, w) = Some (Some (VDict (build_dict ops ys)), m, w)"
    unfolding FromV8Object_def by (intro Guard_fresh fresh) (simp add: Let_def names(1) loop build_dict_def)
  then show ?case using u_obj.hyps(1) d(1) assms(4) by (simp add: FromV8ValueImpl_kind)
next
  case (u_back h A)
  then show ?case by (elim depth_leE) (auto simp: FromV8ValueImpl_kind FromV8Array_def FromV8Object_def Guard_back)
qed (auto simp: FromV8ValueImpl_kind elim!: depth_leE)


section \<open>What is built unfolds to what it was built from\<close>

text \<open>What is relied on of V8. \<open>same\<close>: the objects in \<open>S\<close>, and all strings, read as before.\<close>

definition same :: "('h, 'c, 'w) v8_ops \<Rightarrow> 'h set \<Rightarrow> 'w \<Rightarrow> 'w \<Rightarrow> bool" where
  "same ops S w w' \<longleftrightarrow>
     (\<forall>h \<in> S. Array_Length ops h w' = Array_Length ops h w \<and> Buffer_Data ops h w' = Buffer_Data ops h w \<and>
        (\<forall>i c. elem ops w h i c \<longrightarrow> elem ops w' h i c) \<and> (\<forall>es. entries ops w h es \<longrightarrow> entries ops w' h es)) \<and>
     (\<forall>h t. kind_of ops h = KString \<longrightarrow> Utf8Value ops h w = (Some t, w) \<longrightarrow> Utf8Value ops h w' = (Some t, w'))"

lemma same_refl [simp]: "same ops S w w"
  by (simp add: same_def)

lemma same_trans: "same ops S w w' \<Longrightarrow> same ops S w' w'' \<Longrightarrow> same ops S w w''"
  by (simp add: same_def)

lemma same_mono: "same ops S w w' \<Longrightarrow> T \<subseteq> S \<Longrightarrow> same ops T w w'"
  unfolding same_def by blast

definition fresh :: "('h, 'c, 'w) v8_ops \<Rightarrow> ('w \<Rightarrow> 'h set) \<Rightarrow> 'w \<Rightarrow> 'h \<Rightarrow> 'w \<Rightarrow> bool" where
  "fresh ops alloc w h w' \<longleftrightarrow> h \<notin> alloc w \<and> alloc w' = insert h (alloc w) \<and> same ops (alloc w) w w'"

definition unchanged :: "('h, 'c, 'w) v8_ops \<Rightarrow> ('w \<Rightarrow> 'h set) \<Rightarrow> 'h set \<Rightarrow> 'w \<Rightarrow> 'w \<Rightarrow> bool" where
  "unchanged ops alloc S w w' \<longleftrightarrow> alloc w' = alloc w \<and> same ops S w w'"

text \<open>Primitive values: null, booleans, 32-bit integers, other finite numbers, strings with a valid
  encoding.\<close>

definition v8_primitives :: "('h, 'c, 'w) v8_ops \<Rightarrow> ('w \<Rightarrow> 'h set) \<Rightarrow> (string \<Rightarrow> bool) \<Rightarrow> bool" where
  "v8_primitives ops alloc valid \<longleftrightarrow>
     kind_of ops (v8_Null ops) = KNull \<and>
     (\<forall>b. kind_of ops (Boolean_New ops b) = KBoolean \<and> BooleanValue ops (Boolean_New ops b) = b) \<and>
     (\<forall>n w. int32_min \<le> n \<and> n \<le> int32_max \<longrightarrow>
        (\<exists>h w'. Integer_New ops n w = (h, w') \<and> kind_of ops h = KInt32 \<and> Int32Value ops h = n \<and> unchanged ops alloc (alloc w) w w')) \<and>
     (\<forall>x w. \<not> (\<exists>n. x = of_int n \<and> int32_min \<le> n \<and> n \<le> int32_max) \<longrightarrow>
        (\<exists>h w'. Number_New ops (Fin x) w = (h, w') \<and> kind_of ops h = KNumber \<and> NumberValue ops h = Fin x \<and>
           unchanged ops alloc (alloc w) w w')) \<and>
     (\<forall>t w. valid t \<longrightarrow>
        (\<exists>h w'. String_NewFromUtf8 ops t w = (Some h, w') \<and> kind_of ops h = KString \<and> Utf8Value ops h w' = (Some t, w') \<and>
           unchanged ops alloc (alloc w) w w'))"

text \<open>In a process with Node: buffers, arrays and plain objects are new objects; setting an element or a property
  changes only the object it is set on. The order in which an object enumerates its properties is
  left open.\<close>

definition v8_objects :: "('h, 'c, 'w) v8_ops \<Rightarrow> ('w \<Rightarrow> 'h set) \<Rightarrow> (string \<Rightarrow> bool) \<Rightarrow> bool" where
  "v8_objects ops alloc valid \<longleftrightarrow>
     (\<forall>data w. NodeBindings_IsInitialized ops w \<and>
        (\<exists>h w'. Buffer_Copy ops data w = (Some h, w') \<and> kind_of ops h = KBuffer \<and> Buffer_Data ops h w' = data \<and> fresh ops alloc w h w')) \<and>
     (\<forall>n w. n < 2 ^ 32 \<longrightarrow>
        (\<exists>h w'. Array_New ops n w = (h, w') \<and> kind_of ops h = KArray \<and> unat (Array_Length ops h w') = n \<and> fresh ops alloc w h w')) \<and>
     (\<forall>ctx h i c w. h \<in> alloc w \<and> kind_of ops h = KArray \<and> i < Array_Length ops h w \<longrightarrow>
        (\<exists>w'. Array_Set ops ctx h i c w = (True, w') \<and> unchanged ops alloc (alloc w - {h}) w w' \<and>
           Array_Length ops h w' = Array_Length ops h w \<and> elem ops w' h i c \<and>
           (\<forall>j d. j \<noteq> i \<and> elem ops w h j d \<longrightarrow> elem ops w' h j d))) \<and>
     (\<forall>w. \<exists>h w'. Dictionary_CreateEmpty ops w = (h, w') \<and> kind_of ops h = KObject \<and> entries ops w' h [] \<and> fresh ops alloc w h w') \<and>
     (\<forall>h w. unchanged ops alloc (alloc w) w (SetHidden_simple ops h w)) \<and>
     (\<forall>h k c w es. h \<in> alloc w \<and> kind_of ops h = KObject \<and> valid k \<and> entries ops w h es \<and> k \<notin> fst ` set es \<longrightarrow>
        unchanged ops alloc (alloc w - {h}) w (Dictionary_Set ops h k c w) \<and>
        (\<exists>es'. entries ops (Dictionary_Set ops h k c w) h es' \<and> mset es' = add_mset (k, c) (mset es)))"

text \<open>The values that pass: strings and keys have a valid encoding, a double is finite and is no 32-bit
  integer (it would come back as one), the keys of a dictionary are in the order of dictionaries.\<close>

fun sendable :: "(string \<Rightarrow> bool) \<Rightarrow> (string list \<Rightarrow> bool) \<Rightarrow> base_value \<Rightarrow> bool" where
  "sendable valid keys_ok (VInt n) = (int32_min \<le> n \<and> n \<le> int32_max)"
| "sendable valid keys_ok (VDouble x) =
     (case x of Fin r \<Rightarrow> \<not> (\<exists>n. r = of_int n \<and> int32_min \<le> n \<and> n \<le> int32_max) | _ \<Rightarrow> False)"
| "sendable valid keys_ok (VString t) = valid t"
| "sendable valid keys_ok (VList xs) = (length xs < 2 ^ 32 \<and> (\<forall>x \<in> set xs. sendable valid keys_ok x))"
| "sendable valid keys_ok (VDict kvs) =
     (keys_ok (map fst kvs) \<and> distinct (map fst kvs) \<and> (\<forall>kv \<in> set kvs. valid (fst kv) \<and> sendable valid keys_ok (snd kv)))"
| "sendable valid keys_ok v = True"

lemma unfolds_frame:
  assumes "unfolds ops N w A h v" "same ops N w w'" "N \<subseteq> N'"
  shows "unfolds ops N' w' A h v"
  using assms(1)
proof (induction rule: unfolds.induct)
  case (u_buf h A)
  then have "Buffer_Data ops h w' = Buffer_Data ops h w" using assms(2) by (simp add: same_def)
  then show ?case using unfolds.u_buf [of ops h N' w' A] u_buf assms(3) by auto
next
  case (u_str h t A)
  then show ?case using assms(2) by (auto simp: same_def intro: unfolds.u_str)
next
  case (u_arr h A xs)
  then have "unat (Array_Length ops h w') = length xs" "\<And>i c. elem ops w h i c \<Longrightarrow> elem ops w' h i c"
    using assms(2) by (auto simp: same_def)
  then show ?case using u_arr assms(3) by (intro unfolds.u_arr) blast+
next
  case (u_obj h A es ys)
  then have "entries ops w' h es" using assms(2) by (simp add: same_def)
  then show ?case using u_obj assms(3) by (intro unfolds.u_obj) (auto elim: list.rel_mono_strong)
qed (auto intro: unfolds.intros)


text \<open>The value of a handle that was built between two states, and that the objects before are as they
  were.\<close>

definition built :: "('h, 'c, 'w) v8_ops \<Rightarrow> ('w \<Rightarrow> 'h set) \<Rightarrow> 'w \<Rightarrow> 'w \<Rightarrow> 'h \<Rightarrow> base_value \<Rightarrow> bool" where
  "built ops alloc w w' h v \<longleftrightarrow>
     (\<forall>A. A \<inter> (alloc w' - alloc w) = {} \<longrightarrow> unfolds ops (alloc w' - alloc w) w' A h v)"

definition builds :: "('h, 'c, 'w) v8_ops \<Rightarrow> ('w \<Rightarrow> 'h set) \<Rightarrow> 'c \<Rightarrow> base_value \<Rightarrow> bool" where
  "builds ops alloc ctx v \<longleftrightarrow>
     (\<forall>w. \<exists>h w'. ToV8ValueImpl ops ctx v w = Some (Some h, w') \<and> alloc w \<subseteq> alloc w' \<and> same ops (alloc w) w w' \<and> built ops alloc w w' h v)"

lemma buildsD:
  assumes "builds ops alloc ctx v"
  obtains h w' where "ToV8ValueImpl ops ctx v w = Some (Some h, w')" "alloc w \<subseteq> alloc w'" "same ops (alloc w) w w'" "built ops alloc w w' h v"
  using assms unfolding builds_def by blast

lemma built_frame:
  assumes "built ops alloc w0 w1 h v" "same ops (alloc w1 - alloc w0) w1 w2" "alloc w1 \<subseteq> alloc w2"
  shows "built ops alloc w0 w2 h v"
  unfolding built_def
proof (intro allI impI)
  fix A assume "A \<inter> (alloc w2 - alloc w0) = {}"
  then have "A \<inter> (alloc w1 - alloc w0) = {}" using assms(3) by blast
  then have "unfolds ops (alloc w1 - alloc w0) w1 A h v" using assms(1) by (simp add: built_def)
  then show "unfolds ops (alloc w2 - alloc w0) w2 A h v" by (rule unfolds_frame [OF _ assms(2)]) (use assms(3) in blast)
qed

lemma built_earlier:
  assumes "built ops alloc w1 w2 h v" "alloc w0 \<subseteq> alloc w1"
  shows "built ops alloc w0 w2 h v"
  unfolding built_def
proof (intro allI impI)
  fix A assume "A \<inter> (alloc w2 - alloc w0) = {}"
  then have "A \<inter> (alloc w2 - alloc w1) = {}" using assms(2) by blast
  then have "unfolds ops (alloc w2 - alloc w1) w2 A h v" using assms(1) by (simp add: built_def)
  then show "unfolds ops (alloc w2 - alloc w0) w2 A h v" by (rule unfolds_frame [OF _ same_refl]) (use assms(2) in blast)
qed

lemma ToV8Array_builds:
  assumes "v8_objects ops alloc valid" "\<forall>x \<in> set xs. builds ops alloc ctx x"
    "r \<in> alloc w" "kind_of ops r = KArray" "unat (Array_Length ops r w) = i + length xs" "i = length cs"
    "\<forall>j < i. elem ops w r (of_nat j) (cs ! j)"
  shows "\<exists>w' ds. ToV8Array ops ctx r i xs w = Some (Some r, w') \<and> alloc w \<subseteq> alloc w' \<and> same ops (alloc w - {r}) w w' \<and>
    Array_Length ops r w' = Array_Length ops r w \<and> (\<forall>j < i + length xs. elem ops w' r (of_nat j) ((cs @ ds) ! j)) \<and>
    list_all2 (built ops alloc w w') ds xs"
  using assms(2-)
proof (induction xs arbitrary: w i cs)
  case Nil
  then show ?case by auto
next
  case (Cons x xs)
  obtain c w1 where c: "ToV8ValueImpl ops ctx x w = Some (Some c, w1)" "alloc w \<subseteq> alloc w1" "same ops (alloc w) w w1" "built ops alloc w w1 c x"
    using Cons.prems(1) by (auto intro: buildsD)
  have r1: "r \<in> alloc w1" "Array_Length ops r w1 = Array_Length ops r w" "\<forall>j < i. elem ops w1 r (of_nat j) (cs ! j)"
    using c(2,3) Cons.prems(2,6) by (auto simp: same_def)
  have i32: "unat (of_nat i :: u32) = i" using Cons.prems(4) unat_u32_less [of "Array_Length ops r w"] by (simp add: unat_of_nat)
  have lt: "(of_nat i :: u32) < Array_Length ops r w1" using Cons.prems(4) r1(2) i32 by (simp add: word_less_nat_alt)
  obtain w2 where w2: "Array_Set ops ctx r (of_nat i) c w1 = (True, w2)" "unchanged ops alloc (alloc w1 - {r}) w1 w2"
    "Array_Length ops r w2 = Array_Length ops r w1" "elem ops w2 r (of_nat i) c"
    "\<forall>j d. j \<noteq> of_nat i \<and> elem ops w1 r j d \<longrightarrow> elem ops w2 r j d"
    using assms(1) r1(1) Cons.prems(3) lt unfolding v8_objects_def by metis
  have keep: "\<forall>j < Suc i. elem ops w2 r (of_nat j) ((cs @ [c]) ! j)"
  proof (intro allI impI)
    fix j assume "j < Suc i"
    show "elem ops w2 r (of_nat j) ((cs @ [c]) ! j)"
    proof (cases "j = i")
      case True
      then show ?thesis using w2(4) Cons.prems(5) by simp
    next
      case False
      then have "j < i" using \<open>j < Suc i\<close> by simp
      moreover have "unat (of_nat j :: u32) = j" using \<open>j < i\<close> Cons.prems(4) unat_u32_less [of "Array_Length ops r w"] by (simp add: unat_of_nat)
      ultimately show ?thesis using w2(5) r1(3) i32 Cons.prems(5) by (metis False nth_append)
    qed
  qed
  have a2: "alloc w2 = alloc w1" "same ops (alloc w1 - {r}) w1 w2" using w2(2) by (auto simp: unchanged_def)
  obtain w' ds where rest: "ToV8Array ops ctx r (Suc i) xs w2 = Some (Some r, w')" "alloc w2 \<subseteq> alloc w'" "same ops (alloc w2 - {r}) w2 w'"
    "Array_Length ops r w' = Array_Length ops r w2" "\<forall>j < Suc i + length xs. elem ops w' r (of_nat j) (((cs @ [c]) @ ds) ! j)"
    "list_all2 (built ops alloc w2 w') ds xs"
    using Cons.IH [of w2 "Suc i" "cs @ [c]"] Cons.prems r1 w2(3) keep a2(1) by auto
  have s: "same ops (alloc w1 - {r}) w1 w'" using same_trans [OF a2(2)] rest(3) a2(1) by simp
  have "same ops (alloc w - {r}) w w'"
    by (rule same_trans [OF same_mono [OF c(3)] same_mono [OF s]]) (use c(2) in auto)
  moreover have "built ops alloc w w' c x"
    using c(2) Cons.prems(2) a2(1) rest(2) by (intro built_frame [OF c(4)] same_mono [OF s]) auto
  moreover have "list_all2 (built ops alloc w w') ds xs"
    using rest(6) built_earlier c(2) a2(1) by (metis (mono_tags, lifting) list_all2_mono)
  moreover have "ToV8Array ops ctx r i (x # xs) w = Some (Some r, w')" using c(1) w2(1) rest(1) by simp
  moreover have "\<forall>j < i + length (x # xs). elem ops w' r (of_nat j) ((cs @ c # ds) ! j)" using rest(5) by simp
  moreover have "alloc w \<subseteq> alloc w'" using c(2) a2(1) rest(2) by blast
  moreover have "Array_Length ops r w' = Array_Length ops r w" using rest(4) w2(3) r1(2) by simp
  moreover have "list_all2 (built ops alloc w w') (c # ds) (x # xs)" using calculation(2,3) by simp
  ultimately show ?case by blast
qed


lemma ToV8Object_builds:
  assumes "v8_objects ops alloc valid" "\<forall>kv \<in> set kvs. valid (fst kv) \<and> builds ops alloc ctx (snd kv)"
    "r \<in> alloc w" "kind_of ops r = KObject" "entries ops w r es" "mset es = mset (zip ks cs)" "length cs = length ks"
    "distinct (ks @ map fst kvs)"
  shows "\<exists>w' ds es'. ToV8Object ops ctx r kvs w = Some (Some r, w') \<and> alloc w \<subseteq> alloc w' \<and> same ops (alloc w - {r}) w w' \<and>
    entries ops w' r es' \<and> mset es' = mset (zip (ks @ map fst kvs) (cs @ ds)) \<and> list_all2 (built ops alloc w w') ds (map snd kvs)"
  using assms(2-)
proof (induction kvs arbitrary: w ks cs es)
  case Nil
  then show ?case by auto
next
  case (Cons kv kvs)
  obtain k x where kv: "kv = (k, x)" by fastforce
  obtain c w1 where c: "ToV8ValueImpl ops ctx x w = Some (Some c, w1)" "alloc w \<subseteq> alloc w1" "same ops (alloc w) w w1" "built ops alloc w w1 c x"
    using Cons.prems(1) kv by (auto intro: buildsD)
  have r1: "r \<in> alloc w1" "entries ops w1 r es" using c(2,3) Cons.prems(2,4) by (auto simp: same_def)
  have "set es = set (zip ks cs)" using Cons.prems(5) by (rule mset_eq_setD)
  then have k: "k \<notin> fst ` set es" using Cons.prems(7) kv by (auto dest: set_zip_leftD)
  define w2 where "w2 = Dictionary_Set ops r k c w1"
  obtain es2 where w2: "unchanged ops alloc (alloc w1 - {r}) w1 w2" "entries ops w2 r es2" "mset es2 = add_mset (k, c) (mset es)"
    using assms(1) r1 Cons.prems(1,3) k kv unfolding v8_objects_def w2_def by (metis fst_conv list.set_intros(1))
  have a2: "alloc w2 = alloc w1" "same ops (alloc w1 - {r}) w1 w2" using w2(1) by (auto simp: unchanged_def)
  have es2: "mset es2 = mset (zip (ks @ [k]) (cs @ [c]))" using w2(3) Cons.prems(5,6) by simp
  have prem: "\<forall>kv \<in> set kvs. valid (fst kv) \<and> builds ops alloc ctx (snd kv)" "r \<in> alloc w2"
    "length (cs @ [c]) = length (ks @ [k])" "distinct ((ks @ [k]) @ map fst kvs)"
    using Cons.prems r1(1) a2(1) kv by auto
  obtain w' ds es' where rest: "ToV8Object ops ctx r kvs w2 = Some (Some r, w')" "alloc w2 \<subseteq> alloc w'" "same ops (alloc w2 - {r}) w2 w'"
    "entries ops w' r es'" "mset es' = mset (zip ((ks @ [k]) @ map fst kvs) ((cs @ [c]) @ ds))" "list_all2 (built ops alloc w2 w') ds (map snd kvs)"
    using Cons.IH [OF prem(1,2) Cons.prems(3) w2(2) es2 prem(3,4)] by blast
  have s: "same ops (alloc w1 - {r}) w1 w'" using same_trans [OF a2(2)] rest(3) a2(1) by simp
  have "same ops (alloc w - {r}) w w'"
    by (rule same_trans [OF same_mono [OF c(3)] same_mono [OF s]]) (use c(2) in auto)
  moreover have "built ops alloc w w' c x"
    using c(2) Cons.prems(2) a2(1) rest(2) by (intro built_frame [OF c(4)] same_mono [OF s]) auto
  moreover have "list_all2 (built ops alloc w w') ds (map snd kvs)"
    using rest(6) built_earlier c(2) a2(1) by (metis (mono_tags, lifting) list_all2_mono)
  moreover have "ToV8Object ops ctx r (kv # kvs) w = Some (Some r, w')" using c(1) rest(1) kv by (simp add: w2_def)
  moreover have "mset es' = mset (zip (ks @ map fst (kv # kvs)) (cs @ c # ds))" using rest(5) kv by simp
  moreover have "alloc w \<subseteq> alloc w'" using c(2) a2(1) rest(2) by blast
  moreover have "list_all2 (built ops alloc w w') (c # ds) (map snd (kv # kvs))" using calculation(2,3) kv by simp
  ultimately show ?case using rest(4) by blast
qed


text \<open>A dictionary holds its keys in one order: to set its entries in any order gives it back.\<close>

definition dict_order :: "('h, 'c, 'w) v8_ops \<Rightarrow> (string list \<Rightarrow> bool) \<Rightarrow> bool" where
  "dict_order ops keys_ok \<longleftrightarrow> (\<forall>ys d. keys_ok (map fst d) \<longrightarrow> mset ys = mset d \<longrightarrow> build_dict ops ys = d)"

lemma v8_new_array:
  assumes "v8_objects ops alloc valid" "n < 2 ^ 32"
  shows "\<exists>h w'. Array_New ops n w = (h, w') \<and> kind_of ops h = KArray \<and> unat (Array_Length ops h w') = n \<and> fresh ops alloc w h w'"
  using assms(1) [unfolded v8_objects_def, THEN conjunct2, THEN conjunct1] assms(2) by blast

lemma v8_new_dict:
  assumes "v8_objects ops alloc valid"
  shows "\<exists>h w'. Dictionary_CreateEmpty ops w = (h, w') \<and> kind_of ops h = KObject \<and> entries ops w' h [] \<and> fresh ops alloc w h w'"
  using assms [unfolded v8_objects_def, THEN conjunct2, THEN conjunct2, THEN conjunct2, THEN conjunct1] by blast

lemma v8_new_buffer:
  assumes "v8_objects ops alloc valid"
  shows "NodeBindings_IsInitialized ops w \<and>
    (\<exists>h w'. Buffer_Copy ops data w = (Some h, w') \<and> kind_of ops h = KBuffer \<and> Buffer_Data ops h w' = data \<and> fresh ops alloc w h w')"
  using assms [unfolded v8_objects_def, THEN conjunct1] by blast

lemma builds_primitive:
  assumes "\<And>w. \<exists>h w'. ToV8ValueImpl ops ctx v w = Some (Some h, w') \<and> unchanged ops alloc (alloc w) w w' \<and> (\<forall>N A. unfolds ops N w' A h v)"
  shows "builds ops alloc ctx v"
  unfolding builds_def
proof
  fix w
  obtain h w' where "ToV8ValueImpl ops ctx v w = Some (Some h, w')" "unchanged ops alloc (alloc w) w w'" "\<forall>N A. unfolds ops N w' A h v"
    using assms [of w] by blast
  then show "\<exists>h w'. ToV8ValueImpl ops ctx v w = Some (Some h, w') \<and> alloc w \<subseteq> alloc w' \<and> same ops (alloc w) w w' \<and> built ops alloc w w' h v"
    by (auto simp: unchanged_def built_def)
qed

lemma builds_list:
  assumes "v8_objects ops alloc valid" "\<forall>x \<in> set xs. builds ops alloc ctx x" "length xs < 2 ^ 32"
  shows "builds ops alloc ctx (VList xs)"
  unfolding builds_def
proof
  fix w
  obtain r w1 where r: "Array_New ops (length xs) w = (r, w1)" "kind_of ops r = KArray" "unat (Array_Length ops r w1) = length xs" "fresh ops alloc w r w1"
    using v8_new_array [OF assms(1,3)] by blast
  then have f: "r \<notin> alloc w" "alloc w1 = insert r (alloc w)" "same ops (alloc w) w w1" by (auto simp: fresh_def)
  have pre: "r \<in> alloc w1" "unat (Array_Length ops r w1) = 0 + length xs" using f(2) r(3) by simp_all
  obtain w' ds where t: "ToV8Array ops ctx r 0 xs w1 = Some (Some r, w')" "alloc w1 \<subseteq> alloc w'" "same ops (alloc w1 - {r}) w1 w'"
    "Array_Length ops r w' = Array_Length ops r w1" "\<forall>j < length xs. elem ops w' r (of_nat j) (ds ! j)" "list_all2 (built ops alloc w1 w') ds xs"
    using ToV8Array_builds [OF assms(1,2) pre(1) r(2) pre(2), of "[]"] by auto
  have keep: "same ops (alloc w) w w'"
    by (rule same_trans [OF f(3) same_mono [OF t(3)]]) (use f in auto)
  have len: "unat (Array_Length ops r w') = length xs" using t(4) r(3) by simp
  have "built ops alloc w w' r (VList xs)"
    unfolding built_def
  proof (intro allI impI)
    fix A assume A: "A \<inter> (alloc w' - alloc w) = {}"
    have new: "r \<in> alloc w' - alloc w" using f t(2) by auto
    have "insert r A \<inter> (alloc w' - alloc w1) = {}" using A f(2) by auto
    then have "unfolds ops (alloc w' - alloc w1) w' (insert r A) (ds ! j) (xs ! j)" if "j < length xs" for j
      using list_all2_nthD2 [OF t(6) that] by (simp add: built_def)
    then have kids: "unfolds ops (alloc w' - alloc w) w' (insert r A) (ds ! j) (xs ! j)" if "j < length xs" for j
      using that f(2) by (blast intro: unfolds_frame [OF _ same_refl])
    have "r \<notin> A" using new A by blast
    then show "unfolds ops (alloc w' - alloc w) w' A r (VList xs)"
      by (rule unfolds.u_arr [OF r(2) _ new len]) (use kids t(5) in blast)
  qed
  then show "\<exists>h w'. ToV8ValueImpl ops ctx (VList xs) w = Some (Some h, w') \<and> alloc w \<subseteq> alloc w' \<and> same ops (alloc w) w w' \<and>
      built ops alloc w w' h (VList xs)"
    using r(1) t(1,2) f(2) keep by auto
qed

lemma builds_dict:
  assumes "v8_objects ops alloc valid" "dict_order ops keys_ok" "\<forall>kv \<in> set kvs. valid (fst kv) \<and> builds ops alloc ctx (snd kv)"
    "keys_ok (map fst kvs)" "distinct (map fst kvs)"
  shows "builds ops alloc ctx (VDict kvs)"
  unfolding builds_def
proof
  fix w
  obtain r w1 where r: "Dictionary_CreateEmpty ops w = (r, w1)" "kind_of ops r = KObject" "entries ops w1 r []" "fresh ops alloc w r w1"
    using v8_new_dict [OF assms(1)] by blast
  then have f: "r \<notin> alloc w" "alloc w1 = insert r (alloc w)" "same ops (alloc w) w w1" by (auto simp: fresh_def)
  define w2 where "w2 = SetHidden_simple ops r w1"
  have h: "alloc w2 = alloc w1" "same ops (alloc w1) w1 w2" using assms(1) by (auto simp: v8_objects_def unchanged_def w2_def)
  have pre: "r \<in> alloc w2" "entries ops w2 r []" "mset [] = mset (zip [] [])" "length [] = length []" "distinct ([] @ map fst kvs)"
    using f(2) h r(3) assms(5) by (auto simp: same_def)
  obtain w' ds es where t: "ToV8Object ops ctx r kvs w2 = Some (Some r, w')" "alloc w2 \<subseteq> alloc w'" "same ops (alloc w2 - {r}) w2 w'"
    "entries ops w' r es" "mset es = mset (zip (map fst kvs) ds)" "list_all2 (built ops alloc w2 w') ds (map snd kvs)"
    using ToV8Object_builds [OF assms(1,3) pre(1) r(2) pre(2-)] by auto
  have keep: "same ops (alloc w) w w'"
    by (rule same_trans [OF f(3) same_trans [OF same_mono [OF h(2)] same_mono [OF t(3)]]]) (use f h in auto)
  have "list_all2 (\<lambda>e y. fst e = fst y \<and> built ops alloc w2 w' (snd e) (snd y)) (zip (map fst kvs) ds) kvs"
    using t(6) by (auto simp: list_all2_conv_all_nth)
  then obtain ys where ys: "list_all2 (\<lambda>e y. fst e = fst y \<and> built ops alloc w2 w' (snd e) (snd y)) es ys" "mset ys = mset kvs"
    using list_all2_reorder_left_invariance [OF _ t(5)] by blast
  have dict: "build_dict ops ys = kvs" using assms(2,4) ys(2) by (simp add: dict_order_def)
  have "built ops alloc w w' r (VDict kvs)"
    unfolding built_def
  proof (intro allI impI)
    fix A assume A: "A \<inter> (alloc w' - alloc w) = {}"
    have new: "r \<in> alloc w' - alloc w" using f h t(2) by auto
    have "insert r A \<inter> (alloc w' - alloc w2) = {}" using A f(2) h by auto
    then have "unfolds ops (alloc w' - alloc w2) w' (insert r A) c v" if "built ops alloc w2 w' c v" for c v
      using that unfolding built_def by blast
    then have "unfolds ops (alloc w' - alloc w) w' (insert r A) c v" if "built ops alloc w2 w' c v" for c v
      using that f(2) h(1) by (blast intro: unfolds_frame [OF _ same_refl])
    then have "list_all2 (\<lambda>e y. fst e = fst y \<and> unfolds ops (alloc w' - alloc w) w' (insert r A) (snd e) (snd y)) es ys"
      using ys(1) by (auto elim: list_all2_mono)
    then show "unfolds ops (alloc w' - alloc w) w' A r (VDict kvs)"
      using new A unfolds.u_obj [OF r(2) _ new t(4), of A ys] dict by auto
  qed
  then show "\<exists>h w'. ToV8ValueImpl ops ctx (VDict kvs) w = Some (Some h, w') \<and> alloc w \<subseteq> alloc w' \<and> same ops (alloc w) w w' \<and>
      built ops alloc w w' h (VDict kvs)"
    using r(1) t(1,2) f(2) h(1) keep by (auto simp: w2_def)
qed

lemma builds_fresh_buffer:
  assumes "v8_objects ops alloc valid"
  shows "builds ops alloc ctx (VBlob data)"
  unfolding builds_def
proof
  fix w
  obtain h w' where h: "NodeBindings_IsInitialized ops w" "Buffer_Copy ops data w = (Some h, w')" "kind_of ops h = KBuffer" "Buffer_Data ops h w' = data" "fresh ops alloc w h w'"
    using v8_new_buffer [OF assms] by blast
  then have "unfolds ops (alloc w' - alloc w) w' A h (VBlob data)" for A
    using unfolds.u_buf [OF h(3), of "alloc w' - alloc w" w' A] by (auto simp: fresh_def)
  then show "\<exists>h w'. ToV8ValueImpl ops ctx (VBlob data) w = Some (Some h, w') \<and> alloc w \<subseteq> alloc w' \<and> same ops (alloc w) w w' \<and>
      built ops alloc w w' h (VBlob data)"
    using h by (auto simp: ToArrayBuffer_def fresh_def built_def)
qed

lemma ToV8_builds:
  assumes "v8_primitives ops alloc valid" "v8_objects ops alloc valid" "dict_order ops keys_ok"
  shows "sendable valid keys_ok v \<Longrightarrow> builds ops alloc ctx v"
proof (induction v)
  case VNone
  have "kind_of ops (v8_Null ops) = KNull" using assms(1) by (simp add: v8_primitives_def)
  then show ?case by (intro builds_primitive) (auto simp: unchanged_def intro: u_null)
next
  case (VBool b)
  have "kind_of ops (Boolean_New ops b) = KBoolean" "BooleanValue ops (Boolean_New ops b) = b" using assms(1) by (auto simp: v8_primitives_def)
  then show ?case using u_bool [of ops "Boolean_New ops b"] by (intro builds_primitive) (auto simp: unchanged_def)
next
  case (VInt n)
  have "\<exists>h w'. Integer_New ops n w = (h, w') \<and> kind_of ops h = KInt32 \<and> Int32Value ops h = n \<and> unchanged ops alloc (alloc w) w w'" for w
    using assms(1) VInt by (simp add: v8_primitives_def)
  then have "\<exists>h w'. ToV8ValueImpl ops ctx (VInt n) w = Some (Some h, w') \<and> unchanged ops alloc (alloc w) w w' \<and> (\<forall>N A. unfolds ops N w' A h (VInt n))" for w
    using u_int [of ops] by (metis (no_types, lifting) ToV8ValueImpl.simps case_prod_conv option.case)
  then show ?case by (rule builds_primitive)
next
  case (VDouble x)
  then obtain r where x: "x = Fin r" "\<not> (\<exists>n. r = of_int n \<and> int32_min \<le> n \<and> n \<le> int32_max)" by (cases x) auto
  have "\<exists>h w'. Number_New ops (Fin r) w = (h, w') \<and> kind_of ops h = KNumber \<and> NumberValue ops h = Fin r \<and> unchanged ops alloc (alloc w) w w'" for w
    using assms(1) [unfolded v8_primitives_def, THEN conjunct2, THEN conjunct2, THEN conjunct2, THEN conjunct1] x(2) by blast
  then have "\<exists>h w'. ToV8ValueImpl ops ctx (VDouble (Fin r)) w = Some (Some h, w') \<and> unchanged ops alloc (alloc w) w w' \<and> (\<forall>N A. unfolds ops N w' A h (VDouble (Fin r)))" for w
    using u_num [of ops] by (metis (no_types, lifting) ToV8ValueImpl.simps case_prod_conv option.case)
  then show ?case unfolding x(1) by (rule builds_primitive)
next
  case (VString t)
  have "\<exists>h w'. String_NewFromUtf8 ops t w = (Some h, w') \<and> kind_of ops h = KString \<and> Utf8Value ops h w' = (Some t, w') \<and>
      unchanged ops alloc (alloc w) w w'" for w
    using assms(1) VString by (simp add: v8_primitives_def)
  then have "\<exists>h w'. ToV8ValueImpl ops ctx (VString t) w = Some (Some h, w') \<and> unchanged ops alloc (alloc w) w w' \<and> (\<forall>N A. unfolds ops N w' A h (VString t))" for w
    using u_str [of ops] by (metis (no_types, lifting) ToV8ValueImpl.simps case_prod_conv option.case)
  then show ?case by (rule builds_primitive)
next
  case (VBlob data)
  show ?case by (rule builds_fresh_buffer [OF assms(2)])
next
  case (VList xs)
  then show ?case by (intro builds_list [OF assms(2)]) auto
next
  case (VDict kvs)
  then show ?case by (intro builds_dict [OF assms(2,3)]) (auto simp: prod_set_simps)
qed


end
