(* ===== verification/V8_Sample.thy ===== *)
theory V8_Sample
  imports V8_Roundtrip "HOL-Library.Char_ord" "HOL-Library.List_Lexorder"
begin

text \<open>
  An isolate with a store of arrays, plain objects and buffers, for which the laws of \<open>V8_Roundtrip\<close>
  hold, and the properties of the conversions on values of it.
\<close>

datatype sample_kind = SArr | SDic | SBuf
datatype sample_handle = SNull | SBool bool | SInt int | SNum rat | SStr string | SObj sample_kind nat
datatype sample_object = ArrO "sample_handle option list" | DicO "(string \<times> sample_handle) list" | BufO "u8 list"

fun object_kind :: "sample_object \<Rightarrow> sample_kind" where
  "object_kind (ArrO _) = SArr" | "object_kind (DicO _) = SDic" | "object_kind (BufO _) = SBuf"

definition sample_alloc :: "sample_object list \<Rightarrow> sample_handle set" where
  "sample_alloc w = (\<lambda>n. SObj (object_kind (w ! n)) n) ` {..<length w}"

fun obj_at :: "sample_object list \<Rightarrow> sample_handle \<Rightarrow> sample_object option" where
  "obj_at w (SObj k n) = (if n < length w then Some (w ! n) else None)"
| "obj_at w _ = None"

fun slots :: "sample_object option \<Rightarrow> sample_handle option list" where
  "slots (Some (ArrO xs)) = xs" | "slots _ = []"

fun props :: "sample_object option \<Rightarrow> (string \<times> sample_handle) list" where
  "props (Some (DicO kvs)) = kvs" | "props _ = []"

fun bytes_of :: "sample_object option \<Rightarrow> u8 list" where
  "bytes_of (Some (BufO bs)) = bs" | "bytes_of _ = []"

fun sample_text :: "sample_handle \<Rightarrow> string option" where
  "sample_text (SStr t) = Some t" | "sample_text _ = None"

fun sample_array_set :: "sample_handle \<Rightarrow> u32 \<Rightarrow> sample_handle \<Rightarrow> sample_object list \<Rightarrow> sample_object list" where
  "sample_array_set (SObj k n) i c w = w[n := ArrO ((slots (obj_at w (SObj k n)))[unat i := Some c])]"
| "sample_array_set _ i c w = w"

fun sample_dict_set :: "sample_handle \<Rightarrow> string \<Rightarrow> sample_handle \<Rightarrow> sample_object list \<Rightarrow> sample_object list" where
  "sample_dict_set (SObj k n) key c w = w[n := DicO (props (obj_at w (SObj k n)) @ [(key, c)])]"
| "sample_dict_set _ key c w = w"

definition sample_dict :: "string \<Rightarrow> base_value \<Rightarrow> (string \<times> base_value) list \<Rightarrow> (string \<times> base_value) list" where
  "sample_dict k v d = insort_key fst (k, v) (filter (\<lambda>e. fst e \<noteq> k) d)"

definition sample_v8 :: "(sample_handle, unit, sample_object list) v8_ops" where
  "sample_v8 = \<lparr>
     IsExternal = (\<lambda>h. False), IsNull = (\<lambda>h. h = SNull), IsBoolean = (\<lambda>h. \<exists>b \<in> {True, False}. h = SBool b),
     IsInt32 = (\<lambda>h. case h of SInt _ \<Rightarrow> True | _ \<Rightarrow> False), IsNumber = (\<lambda>h. case h of SInt _ \<Rightarrow> True | SNum _ \<Rightarrow> True | _ \<Rightarrow> False),
     IsString = (\<lambda>h. case h of SStr _ \<Rightarrow> True | _ \<Rightarrow> False), IsUndefined = (\<lambda>h. False), IsDate = (\<lambda>h. False), IsRegExp = (\<lambda>h. False),
     IsArray = (\<lambda>h. case h of SObj SArr _ \<Rightarrow> True | _ \<Rightarrow> False), IsFunction = (\<lambda>h. False),
     IsObject = (\<lambda>h. case h of SObj _ _ \<Rightarrow> True | _ \<Rightarrow> False), Buffer_HasInstance = (\<lambda>h. case h of SObj SBuf _ \<Rightarrow> True | _ \<Rightarrow> False),
     BooleanValue = (\<lambda>h. h = SBool True), Int32Value = (\<lambda>h. case h of SInt n \<Rightarrow> n | _ \<Rightarrow> 0),
     NumberValue = (\<lambda>h. case h of SNum r \<Rightarrow> Fin r | _ \<Rightarrow> NaN), Utf8Value = (\<lambda>h w. (sample_text h, w)),
     Buffer_Data = (\<lambda>h w. bytes_of (obj_at w h)), GetIdentityHash = (\<lambda>h. 0), GetCreationContextChecked = (\<lambda>h. ()),
     Array_Length = (\<lambda>h w. of_nat (length (slots (obj_at w h)))),
     Array_Get = (\<lambda>ctx h i w. (if unat i < length (slots (obj_at w h)) then slots (obj_at w h) ! unat i else None, w)),
     HasRealIndexedProperty = (\<lambda>ctx h i w. unat i < length (slots (obj_at w h)) \<and> slots (obj_at w h) ! unat i \<noteq> None),
     GetOwnPropertyNames = (\<lambda>ctx h w. (Some (map SStr (remdups (map fst (props (obj_at w h))))), w)),
     Object_Get = (\<lambda>ctx h k w. (Option.bind (sample_text k) (map_of (props (obj_at w h))), w)),
     Get_toISOString = (\<lambda>ctx h w. (None, w)), Function_Call = (\<lambda>ctx f this args w. (None, w)),
     v8_Null = SNull, Boolean_New = SBool, Integer_New = (\<lambda>n w. (SInt n, w)),
     Number_New = (\<lambda>x w. (case x of Fin r \<Rightarrow> SNum r | _ \<Rightarrow> SNull, w)), String_NewFromUtf8 = (\<lambda>t w. (Some (SStr t), w)),
     Array_New = (\<lambda>n w. (SObj SArr (length w), w @ [ArrO (replicate n None)])),
     Array_Set = (\<lambda>ctx h i c w. (True, sample_array_set h i c w)),
     Dictionary_CreateEmpty = (\<lambda>w. (SObj SDic (length w), w @ [DicO []])), SetHidden_simple = (\<lambda>h w. w),
     Dictionary_Set = sample_dict_set, NodeBindings_IsInitialized = (\<lambda>w. True),
     Buffer_Copy = (\<lambda>bs w. (Some (SObj SBuf (length w)), w @ [BufO bs])), kMaxLength = 1000,
     ArrayBuffer_New = (\<lambda>bs w. (SObj SBuf (length w), w @ [BufO bs])), Uint8Array_New = (\<lambda>h n w. (h, w)),
     GetHidden_Buffer = (\<lambda>w. None), Buffer_from = (\<lambda>h w. (None, w)), Dict_Set = sample_dict\<rparr>"

lemmas sample_v8_simps = v8_ops.simps sample_v8_def

lemma sample_fields [simp]:
  "BooleanValue sample_v8 h = (h = SBool True)" "Int32Value sample_v8 (SInt n) = n" "NumberValue sample_v8 (SNum r) = Fin r"
  "Utf8Value sample_v8 h w = (sample_text h, w)" "Buffer_Data sample_v8 h w = bytes_of (obj_at w h)" "GetIdentityHash sample_v8 h = 0"
  "GetCreationContextChecked sample_v8 h = ()" "Array_Length sample_v8 h w = of_nat (length (slots (obj_at w h)))"
  "GetOwnPropertyNames sample_v8 ctx h w = (Some (map SStr (remdups (map fst (props (obj_at w h))))), w)"
  "Object_Get sample_v8 ctx h k w = (Option.bind (sample_text k) (map_of (props (obj_at w h))), w)"
  "v8_Null sample_v8 = SNull" "Boolean_New sample_v8 b = SBool b" "Integer_New sample_v8 n w = (SInt n, w)"
  "Number_New sample_v8 (Fin r) w = (SNum r, w)" "String_NewFromUtf8 sample_v8 t w = (Some (SStr t), w)"
  "Array_New sample_v8 m w = (SObj SArr (length w), w @ [ArrO (replicate m None)])"
  "Array_Set sample_v8 ctx h i c w = (True, sample_array_set h i c w)"
  "Dictionary_CreateEmpty sample_v8 w = (SObj SDic (length w), w @ [DicO []])" "SetHidden_simple sample_v8 h w = w"
  "Dictionary_Set sample_v8 = sample_dict_set" "NodeBindings_IsInitialized sample_v8 w"
  "Buffer_Copy sample_v8 bs w = (Some (SObj SBuf (length w)), w @ [BufO bs])" "Dict_Set sample_v8 = sample_dict"
  "IsString sample_v8 (SStr t)"
  by (auto simp: sample_v8_simps)

lemma sample_kind_simps [simp]:
  "kind_of sample_v8 SNull = KNull" "kind_of sample_v8 (SBool b) = KBoolean" "kind_of sample_v8 (SInt i) = KInt32"
  "kind_of sample_v8 (SNum r) = KNumber" "kind_of sample_v8 (SStr t) = KString" "kind_of sample_v8 (SObj SArr n) = KArray"
  "kind_of sample_v8 (SObj SDic n) = KObject" "kind_of sample_v8 (SObj SBuf n) = KBuffer"
  by (auto simp: kind_of_def sample_v8_simps)

lemma sample_elem [simp]:
  "elem sample_v8 w h i c \<longleftrightarrow> unat i < length (slots (obj_at w h)) \<and> slots (obj_at w h) ! unat i = Some c"
  by (auto simp: elem_def sample_v8_simps)

lemma sample_entries [simp]:
  "entries sample_v8 w h es \<longleftrightarrow> es = map (\<lambda>k. (k, the (map_of (props (obj_at w h)) k))) (remdups (map fst (props (obj_at w h))))"
proof -
  have "list_all2 (\<lambda>k (n, c). k = n \<and> map_of kvs k = Some c) ks es \<longleftrightarrow> es = map (\<lambda>k. (k, the (map_of kvs k))) ks"
    if "set ks \<subseteq> fst ` set kvs" for ks and kvs :: "(string \<times> sample_handle) list"
    using that
  proof (induction ks arbitrary: es)
    case (Cons k ks)
    then obtain c where "map_of kvs k = Some c" by (metis insert_subset list.simps(15) map_of_eq_None_iff option.exhaust)
    then show ?case using Cons by (cases es) auto
  qed simp
  then show ?thesis by (simp add: entries_def sample_v8_simps list_all2_map1 case_prod_unfold)
qed

lemma sample_same:
  assumes "\<And>h. h \<in> S \<Longrightarrow> obj_at w' h = obj_at w h"
  shows "same sample_v8 S w w'"
  using assms by (auto simp: same_def)

section \<open>The laws\<close>

lemma alloc_append: "sample_alloc (w @ [x]) = insert (SObj (object_kind x) (length w)) (sample_alloc w)"
  by (auto simp: sample_alloc_def nth_append image_iff less_Suc_eq)

lemma alloc_new: "SObj k (length w) \<notin> sample_alloc w"
  by (auto simp: sample_alloc_def)

lemma sample_fresh: "object_kind x = k \<Longrightarrow> fresh sample_v8 sample_alloc w (SObj k (length w)) (w @ [x])"
  by (auto simp: fresh_def alloc_append alloc_new) (auto simp: sample_alloc_def nth_append intro!: sample_same)

lemma sample_update:
  assumes "SObj k n \<in> sample_alloc w" "object_kind x = k"
  shows "unchanged sample_v8 sample_alloc (sample_alloc w - {SObj k n}) w (w[n := x])"
  unfolding unchanged_def
proof
  show "sample_alloc (w[n := x]) = sample_alloc w"
    using assms by (auto simp: sample_alloc_def nth_list_update image_iff)
  show "same sample_v8 (sample_alloc w - {SObj k n}) w (w[n := x])"
  proof (rule sample_same)
    fix h assume h: "h \<in> sample_alloc w - {SObj k n}"
    then obtain j where j: "h = SObj (object_kind (w ! j)) j" "j < length w" by (auto simp: sample_alloc_def)
    have "object_kind (w ! n) = k" using assms(1) by (auto simp: sample_alloc_def)
    then have "j \<noteq> n" using h j by auto
    then show "obj_at (w[n := x]) h = obj_at w h" using j by simp
  qed
qed

lemma sample_allocE:
  assumes "h \<in> sample_alloc w" "kind_of sample_v8 h = KArray"
  obtains n xs where "h = SObj SArr n" "n < length w" "w ! n = ArrO xs"
proof -
  obtain n where n: "h = SObj (object_kind (w ! n)) n" "n < length w" using assms(1) by (auto simp: sample_alloc_def)
  then obtain xs where "w ! n = ArrO xs" using assms(2) by (cases "w ! n") auto
  then show ?thesis using that n by simp
qed

lemma sample_dictE:
  assumes "h \<in> sample_alloc w" "kind_of sample_v8 h = KObject"
  obtains n kvs where "h = SObj SDic n" "n < length w" "w ! n = DicO kvs"
proof -
  obtain n where n: "h = SObj (object_kind (w ! n)) n" "n < length w" using assms(1) by (auto simp: sample_alloc_def)
  then obtain kvs where "w ! n = DicO kvs" using assms(2) by (cases "w ! n") auto
  then show ?thesis using that n by simp
qed

lemma sample_primitives: "v8_primitives sample_v8 sample_alloc (\<lambda>t. True)"
  by (auto simp: v8_primitives_def unchanged_def)

lemma remdups_snoc: "k \<notin> set xs \<Longrightarrow> remdups (xs @ [k]) = remdups xs @ [k]"
  by (induction xs) auto

lemma sample_array_law:
  assumes "h \<in> sample_alloc w" "kind_of sample_v8 h = KArray" "i < Array_Length sample_v8 h w"
  shows "\<exists>w'. Array_Set sample_v8 ctx h i c w = (True, w') \<and> unchanged sample_v8 sample_alloc (sample_alloc w - {h}) w w' \<and>
    Array_Length sample_v8 h w' = Array_Length sample_v8 h w \<and> elem sample_v8 w' h i c \<and>
    (\<forall>j d. j \<noteq> i \<and> elem sample_v8 w h j d \<longrightarrow> elem sample_v8 w' h j d)"
proof -
  obtain n xs where n: "h = SObj SArr n" "n < length w" "w ! n = ArrO xs" using sample_allocE [OF assms(1,2)] .
  have "unat i < unat (of_nat (length xs) :: u32)" using assms(3) n by (simp add: word_less_nat_alt)
  then have "unat i < length xs" by (simp add: unat_of_nat)
  then show ?thesis
    using n sample_update [of SArr n w "ArrO (xs[unat i := Some c])"] assms(1)
    by (auto simp: nth_list_update word_unat_eq_iff)
qed

lemma sample_dict_law:
  assumes "h \<in> sample_alloc w" "kind_of sample_v8 h = KObject" "entries sample_v8 w h es" "k \<notin> fst ` set es"
  shows "unchanged sample_v8 sample_alloc (sample_alloc w - {h}) w (Dictionary_Set sample_v8 h k c w) \<and>
    (\<exists>es'. entries sample_v8 (Dictionary_Set sample_v8 h k c w) h es' \<and> mset es' = add_mset (k, c) (mset es))"
proof -
  obtain n kvs where n: "h = SObj SDic n" "n < length w" "w ! n = DicO kvs" using sample_dictE [OF assms(1,2)] .
  have es: "es = map (\<lambda>k. (k, the (map_of kvs k))) (remdups (map fst kvs))" using assms(3) n by simp
  then have k: "k \<notin> fst ` set kvs" using assms(4) by (auto simp: image_iff)
  then have old: "the (([k \<mapsto> c] ++ map_of kvs) x) = the (map_of kvs x)" if "x \<in> fst ` set kvs" for x
    using that by (auto simp: map_add_def split: option.split)
  have new: "map_of kvs k = None" using k by (simp add: map_of_eq_None_iff)
  show ?thesis
    using n sample_update [of SDic n w "DicO (kvs @ [(k, c)])"] assms(1) k
    by (auto simp: remdups_snoc es map_add_def old [unfolded map_add_def] new intro!: image_mset_cong)
qed

lemma sample_objects: "v8_objects sample_v8 sample_alloc (\<lambda>t. True)"
  unfolding v8_objects_def
proof (intro conjI allI impI, goal_cases)
  case (3 n w)
  then show ?case by (auto simp: unat_of_nat sample_fresh)
next
  case (4 ctx h i c w)
  then show ?case by (intro sample_array_law) auto
next
  case (7 h k c w es)
  then show ?case using sample_dict_law by blast
next
  case (8 h k c w es)
  then show ?case using sample_dict_law by blast
qed (auto simp: unchanged_def sample_fresh)


lemma sample_dict_adds: "dict_adds sample_v8"
  unfolding dict_adds_def
proof (intro allI impI)
  fix k v and d :: "(string \<times> base_value) list"
  assume "k \<notin> fst ` set d"
  then have "filter (\<lambda>e. fst e \<noteq> k) d = d" by (intro filter_True) auto
  then show "mset (Dict_Set sample_v8 k v d) = add_mset (k, v) (mset d)" by (simp add: sample_dict_def)
qed

lemma sample_dict_entries: "dict_entries sample_v8"
  by (auto simp: dict_entries_def sample_dict_def set_insort_key)

definition sample_keys :: "string list \<Rightarrow> bool" where
  "sample_keys ks \<longleftrightarrow> sorted ks \<and> distinct ks"

lemma foldl_dict_sorted:
  "sorted (map fst d) \<Longrightarrow> sorted (map fst (foldl (\<lambda>d (k, v). sample_dict k v d) d ys))"
  by (induction ys arbitrary: d) (auto simp: sample_dict_def sorted_insort_key sorted_filter)

lemma sample_dict_order: "dict_order sample_v8 sample_keys"
  unfolding dict_order_def
proof (intro allI impI)
  fix ys d :: "(string \<times> base_value) list"
  assume d: "sample_keys (map fst d)" and ys: "mset ys = mset d"
  have "mset (map fst ys) = mset (map fst d)" using ys by simp
  then have dist: "distinct (map fst ys)" using d mset_eq_imp_distinct_iff sample_keys_def by metis
  have m: "mset (build_dict sample_v8 ys) = mset d"
    using foldl_dict_mset [of sample_v8 "[]" ys] dist ys sample_dict_adds by (simp add: build_dict_def dict_adds_def)
  then have m1: "mset (map fst (build_dict sample_v8 ys)) = mset (map fst d)" by (simp add: mset_map)
  show "build_dict sample_v8 ys = d"
  proof (rule map_sorted_distinct_set_unique [where f = fst])
    have set: "set (build_dict sample_v8 ys) = set d" using m by (rule mset_eq_setD)
    show "inj_on fst (set (build_dict sample_v8 ys) \<union> set d)" using d set by (simp add: sample_keys_def distinct_map)
    show "sorted (map fst (build_dict sample_v8 ys))" using foldl_dict_sorted [of "[]" ys] by (simp add: build_dict_def)
    show "distinct (map fst (build_dict sample_v8 ys))" using m1 d mset_eq_imp_distinct_iff sample_keys_def by metis
    show "sorted (map fst d)" "distinct (map fst d)" using d by (auto simp: sample_keys_def)
    show "set (build_dict sample_v8 ys) = set d" using set .
  qed
qed

lemma sample_names: "distinct_names sample_v8 w"
  by (auto simp: distinct_names_def o_def)

section \<open>The properties on values of the store\<close>

definition sample_message :: base_value where
  "sample_message = VDict [(''a'', VList [VInt 1, VNone, VDict []]), (''b'', VString ''text''), (''c'', VBlob [1, 2])]"

lemma sample_message_sendable: "sendable (\<lambda>t. True) sample_keys sample_message"
  by (simp add: sample_message_def sample_keys_def int32_min_def int32_max_def less_char_def)

lemma sample_message_depth: "depth_le kMaxRecursionDepth sample_message"
proof -
  have k: "kMaxRecursionDepth = Suc (Suc (Suc 97))" by (simp add: kMaxRecursionDepth_def)
  show ?thesis unfolding sample_message_def k by (simp only: depth_le.simps list.pred_inject case_prod_conv simp_thms)
qed


text \<open>An object with a property that is the object itself.\<close>

definition sample_cycle :: "sample_object list" where
  "sample_cycle = [DicO [(''me'', SObj SDic 0)]]"

lemma sample_cycle_converts:
  "FromV8ValueImpl 5 sample_v8 V8ValueConverter_init () (SObj SDic 0) ([], sample_cycle) =
     Some (Some (VDict [(''me'', VNone)]), [], sample_cycle)"
  by (simp add: numeral_eq_Suc FromV8ValueImpl_kind FromV8Object_def ScopedUniquenessGuard_def AddToUniquenessCheck_iff
      RemoveFromUniquenessCheck_def GetIteratorInMap_iff sample_cycle_def scope_context_def V8ValueConverter_init_def sample_dict_def Let_def)

theorem FromV8ValueImpl_bounds_witness:
  "FromV8ValueImpl 5 sample_v8 V8ValueConverter_init () (SObj SDic 0) ([], sample_cycle) =
     Some (Some (VDict [(''me'', VNone)]), [], sample_cycle) \<and> depth_le 6 (VDict [(''me'', VNone)])"
  using FromV8ValueImpl_bounds [OF sample_dict_entries sample_cycle_converts] sample_cycle_converts by simp

end
