(* ===== verification/Permission_Manager.thy ===== *)
theory Permission_Manager
  imports Prelude
begin

text \<open>
  shell/browser/electron\_permission\_manager.cc: the permission requests of pages. A request may ask for
  several permissions; the handler of the application is called once for each and answers through
  a callback, at once or later, more than once or never. When as many answers have come as there
  are permissions the request is complete and its callback runs. Without a handler everything is
  granted.

  The handlers are scripts: a script answers a call with actions on the manager, which may depend on
  all that happened before. What the manager does to the outside is recorded as effects. The
  numbering of \<open>base::IDMap\<close> is a parameter. \<^const>\<open>None\<close> is a crash: the run of a null callback, an access
  outside a vector.
\<close>

section \<open>Data\<close>

datatype PermissionStatus = GRANTED | DENIED | ASK

text \<open>The types the code names: of Blink, and from \<open>POINTER_LOCK\<close> on those that \<open>WebContentsPermissionHelper\<close>
  adds.\<close>

datatype PermissionType =
  MIDI_SYSEX | GEOLOCATION | AUDIO_CAPTURE | VIDEO_CAPTURE | NOTIFICATIONS | OtherPermission nat
  | POINTER_LOCK | FULLSCREEN | OPEN_EXTERNAL | SERIAL | HID

datatype detail = DString string | DBool bool | DStrings "string list" | DOther nat

type_synonym details = "string \<rightharpoonup> detail"

text \<open>What is read of a \<open>RenderFrameHost\<close>.\<close>

record frame_host =
  rf_process :: int
  rf_id :: nat
  rf_url :: string
  rf_main :: bool
  rf_web_contents :: "nat option"
  rf_origin_url :: string
  rf_main_origin :: string

text \<open>A \<open>StatusesCallback\<close> is one of the caller, or a \<open>StatusCallback\<close> in its wrapper.\<close>

datatype statuses_callback = Statuses nat | SingleStatus nat

record PendingRequest =
  pr_process :: int
  pr_frame :: nat
  pr_callback :: "statuses_callback option"
  pr_permissions :: "PermissionType list"
  pr_results :: "PermissionStatus list"
  pr_remaining :: u64

record handler_call =
  hc_web_contents :: "nat option"
  hc_permission :: PermissionType
  hc_request :: int
  hc_index :: nat
  hc_details :: details

datatype effect =
  RunStatuses nat "PermissionStatus list"
  | RunStatus nat PermissionStatus
  | GrantSendMidiSysExMessage int
  | UserDidOptIntoLocationServices
  | RunHandler nat handler_call

record PermissionManager =
  request_handler :: "nat option"
  check_handler :: "nat option"
  device_permission_handler :: "nat option"
  pending_requests :: "(int \<times> PendingRequest) list"
  used_ids :: "int list"
  effects :: "effect list"

datatype pm_action =
  Respond int nat PermissionStatus
  | ChangeRequestHandler "nat option"
  | ChangeCheckHandler "nat option"
  | ChangeDeviceHandler "nat option"

record pm_env =
  fresh_id :: "int list \<Rightarrow> int"
  frame_gone :: "nat \<Rightarrow> bool"
  script :: "nat \<Rightarrow> handler_call \<Rightarrow> effect list \<Rightarrow> pm_action list"
  check_script :: "nat \<Rightarrow> nat option \<Rightarrow> PermissionType \<Rightarrow> string \<Rightarrow> details \<Rightarrow> bool"

definition emit :: "effect list \<Rightarrow> PermissionManager \<Rightarrow> PermissionManager" where
  "emit es st = st\<lparr>effects := effects st @ es\<rparr>"

section \<open>Pending requests\<close>

definition PendingRequest_make :: "frame_host \<Rightarrow> PermissionType list \<Rightarrow> statuses_callback \<Rightarrow> PendingRequest" where
  "PendingRequest_make f permissions callback =
     \<lparr>pr_process = rf_process f, pr_frame = rf_id f, pr_callback = Some callback, pr_permissions = permissions,
      pr_results = replicate (length permissions) DENIED, pr_remaining = of_nat (length permissions)\<rparr>"

definition grant_effects :: "int \<Rightarrow> PermissionType \<Rightarrow> effect list" where
  "grant_effects pid permission =
     (if permission = MIDI_SYSEX then [GrantSendMidiSysExMessage pid]
      else if permission = GEOLOCATION then [UserDidOptIntoLocationServices] else [])"

definition SetPermissionStatus ::
  "nat \<Rightarrow> PermissionStatus \<Rightarrow> PendingRequest \<Rightarrow> (PendingRequest \<times> effect list) option" where
  "SetPermissionStatus permission_id status req = do {
     es \<leftarrow> (if status = GRANTED then map_option (grant_effects (pr_process req)) (idx (pr_permissions req) permission_id) else Some []);
     _ \<leftarrow> idx (pr_results req) permission_id;
     Some (req\<lparr>pr_results := (pr_results req)[permission_id := status], pr_remaining := pr_remaining req - 1\<rparr>, es) }"

definition IsComplete :: "PendingRequest \<Rightarrow> bool" where
  "IsComplete req \<longleftrightarrow> pr_remaining req = 0"

definition run_statuses :: "statuses_callback \<Rightarrow> PermissionStatus list \<Rightarrow> effect list option" where
  "run_statuses callback results =
     (case callback of
        Statuses n \<Rightarrow> Some [RunStatuses n results]
      | SingleStatus n \<Rightarrow> map_option (\<lambda>s. [RunStatus n s]) (idx results 0))"

text \<open>\<open>RunCallback\<close> moves the callback out of the request.\<close>

definition RunCallback :: "PendingRequest \<Rightarrow> (PendingRequest \<times> effect list) option" where
  "RunCallback req =
     (case pr_callback req of
        None \<Rightarrow> Some (req, [])
      | Some callback \<Rightarrow> map_option (Pair (req\<lparr>pr_callback := None\<rparr>)) (run_statuses callback (pr_results req)))"

section \<open>The manager\<close>

definition PermissionManager_init :: PermissionManager where
  "PermissionManager_init = \<lparr>request_handler = None, check_handler = None, device_permission_handler = None,
     pending_requests = [], used_ids = [], effects = []\<rparr>"

fun run_pending :: "pm_env \<Rightarrow> (int \<times> PendingRequest) list \<Rightarrow> effect list option" where
  "run_pending env [] = Some []"
| "run_pending env ((i, req) # rest) = do {
     es \<leftarrow> (if frame_gone env (pr_frame req) then Some [] else map_option snd (RunCallback req));
     es2 \<leftarrow> run_pending env rest;
     Some (es @ es2) }"

definition SetPermissionRequestHandler :: "pm_env \<Rightarrow> nat option \<Rightarrow> PermissionManager \<Rightarrow> PermissionManager option" where
  "SetPermissionRequestHandler env handler st =
     (if handler = None \<and> pending_requests st \<noteq> [] then do {
        es \<leftarrow> run_pending env (pending_requests st);
        Some (emit es (st\<lparr>pending_requests := [], request_handler := handler\<rparr>)) }
      else Some (st\<lparr>request_handler := handler\<rparr>))"

definition SetPermissionCheckHandler :: "nat option \<Rightarrow> PermissionManager \<Rightarrow> PermissionManager" where
  "SetPermissionCheckHandler handler st = st\<lparr>check_handler := handler\<rparr>"

definition SetDevicePermissionHandler :: "nat option \<Rightarrow> PermissionManager \<Rightarrow> PermissionManager" where
  "SetDevicePermissionHandler handler st = st\<lparr>device_permission_handler := handler\<rparr>"

definition OnPermissionResponse :: "int \<Rightarrow> nat \<Rightarrow> PermissionStatus \<Rightarrow> PermissionManager \<Rightarrow> PermissionManager option" where
  "OnPermissionResponse request_id permission_id status st =
     (case map_of (pending_requests st) request_id of
        None \<Rightarrow> Some st
      | Some pending_request \<Rightarrow> do {
          (req, es) \<leftarrow> SetPermissionStatus permission_id status pending_request;
          (if IsComplete req then do {
             (req2, es2) \<leftarrow> RunCallback req;
             Some (emit (es @ es2) (st\<lparr>pending_requests := filter (\<lambda>p. fst p \<noteq> request_id) (pending_requests st)\<rparr>)) }
           else Some (emit es (st\<lparr>pending_requests := map (\<lambda>p. if fst p = request_id then (request_id, req) else p) (pending_requests st)\<rparr>))) })"

fun run_action :: "pm_env \<Rightarrow> pm_action \<Rightarrow> PermissionManager \<Rightarrow> PermissionManager option" where
  "run_action env (Respond rid i status) st = OnPermissionResponse rid i status st"
| "run_action env (ChangeRequestHandler h) st = SetPermissionRequestHandler env h st"
| "run_action env (ChangeCheckHandler h) st = Some (SetPermissionCheckHandler h st)"
| "run_action env (ChangeDeviceHandler h) st = Some (SetDevicePermissionHandler h st)"

fun run_actions :: "pm_env \<Rightarrow> pm_action list \<Rightarrow> PermissionManager \<Rightarrow> PermissionManager option" where
  "run_actions env [] st = Some st"
| "run_actions env (a # as) st = Option.bind (run_action env a st) (run_actions env as)"

definition request_details :: "frame_host \<Rightarrow> details option \<Rightarrow> details" where
  "request_details f details =
     (case details of None \<Rightarrow> Map.empty | Some d \<Rightarrow> d)
       (''requestingUrl'' \<mapsto> DString (rf_url f), ''isMainFrame'' \<mapsto> DBool (rf_main f))"

text \<open>The calls of the handler. The member is read again for each permission.\<close>

fun handler_loop ::
  "pm_env \<Rightarrow> frame_host \<Rightarrow> details option \<Rightarrow> int \<Rightarrow> nat \<Rightarrow> PermissionType list \<Rightarrow> PermissionManager \<Rightarrow> PermissionManager option" where
  "handler_loop env f details rid i [] st = Some st"
| "handler_loop env f details rid i (permission # rest) st =
     (let call = \<lparr>hc_web_contents = rf_web_contents f, hc_permission = permission, hc_request = rid, hc_index = i,
                  hc_details = request_details f details\<rparr>
      in case request_handler st of
           None \<Rightarrow> None
         | Some h \<Rightarrow> do {
             st1 \<leftarrow> run_actions env (script env h call (effects st)) (emit [RunHandler h call] st);
             handler_loop env f details rid (Suc i) rest st1 })"

definition RequestPermissionsWithDetails ::
  "pm_env \<Rightarrow> PermissionType list \<Rightarrow> frame_host \<Rightarrow> details option \<Rightarrow> statuses_callback \<Rightarrow> PermissionManager \<Rightarrow> PermissionManager option" where
  "RequestPermissionsWithDetails env permissions f details response_callback st =
     (if permissions = [] then map_option (\<lambda>es. emit es st) (run_statuses response_callback [])
      else if request_handler st = None then do {
        es \<leftarrow> run_statuses response_callback (map (\<lambda>p. GRANTED) permissions);
        Some (emit (concat (map (grant_effects (rf_process f)) permissions) @ es) st) }
      else let rid = fresh_id env (used_ids st)
           in handler_loop env f details rid 0 permissions
                (st\<lparr>pending_requests := pending_requests st @ [(rid, PendingRequest_make f permissions response_callback)],
                    used_ids := rid # used_ids st\<rparr>))"

definition RequestPermissionWithDetails ::
  "pm_env \<Rightarrow> PermissionType \<Rightarrow> frame_host \<Rightarrow> details option \<Rightarrow> nat \<Rightarrow> PermissionManager \<Rightarrow> PermissionManager option" where
  "RequestPermissionWithDetails env permission f details response_callback st =
     RequestPermissionsWithDetails env [permission] f details (SingleStatus response_callback) st"

definition RequestPermission ::
  "pm_env \<Rightarrow> PermissionType \<Rightarrow> frame_host \<Rightarrow> nat \<Rightarrow> PermissionManager \<Rightarrow> PermissionManager option" where
  "RequestPermission env permission f response_callback st = RequestPermissionWithDetails env permission f None response_callback st"

definition RequestPermissions ::
  "pm_env \<Rightarrow> PermissionType list \<Rightarrow> frame_host \<Rightarrow> nat \<Rightarrow> PermissionManager \<Rightarrow> PermissionManager option" where
  "RequestPermissions env permissions f response_callback st =
     RequestPermissionsWithDetails env permissions f None (Statuses response_callback) st"

definition RequestPermissionsFromCurrentDocument ::
  "pm_env \<Rightarrow> PermissionType list \<Rightarrow> frame_host \<Rightarrow> nat \<Rightarrow> PermissionManager \<Rightarrow> PermissionManager option" where
  "RequestPermissionsFromCurrentDocument env permissions f callback st =
     RequestPermissionsWithDetails env permissions f None (Statuses callback) st"

section \<open>Checks\<close>

definition CheckPermissionWithDetails ::
  "pm_env \<Rightarrow> PermissionType \<Rightarrow> frame_host option \<Rightarrow> string \<Rightarrow> details option \<Rightarrow> PermissionManager \<Rightarrow> bool" where
  "CheckPermissionWithDetails env permission frame requesting_origin details st =
     (case check_handler st of
        None \<Rightarrow> True
      | Some h \<Rightarrow>
          let d0 = (case details of None \<Rightarrow> Map.empty | Some d \<Rightarrow> d);
              d1 = (case frame of None \<Rightarrow> d0 | Some f \<Rightarrow> d0(''requestingUrl'' \<mapsto> DString (rf_url f)));
              d2 = d1(''isMainFrame'' \<mapsto> DBool (case frame of None \<Rightarrow> False | Some f \<Rightarrow> rf_main f));
              d3 = (case permission of
                      AUDIO_CAPTURE \<Rightarrow> d2(''mediaType'' \<mapsto> DString ''audio'')
                    | VIDEO_CAPTURE \<Rightarrow> d2(''mediaType'' \<mapsto> DString ''video'')
                    | _ \<Rightarrow> d2)
          in check_script env h (case frame of None \<Rightarrow> None | Some f \<Rightarrow> rf_web_contents f) permission requesting_origin d3)"

definition GetPermissionStatus ::
  "pm_env \<Rightarrow> PermissionType \<Rightarrow> string \<Rightarrow> string \<Rightarrow> PermissionManager \<Rightarrow> PermissionStatus" where
  "GetPermissionStatus env permission requesting_origin embedding_origin st =
     (if CheckPermissionWithDetails env permission None requesting_origin (Some [''embeddingOrigin'' \<mapsto> DString embedding_origin]) st
      then GRANTED else DENIED)"

definition GetPermissionStatusForCurrentDocument ::
  "pm_env \<Rightarrow> PermissionType \<Rightarrow> frame_host \<Rightarrow> PermissionManager \<Rightarrow> PermissionStatus" where
  "GetPermissionStatusForCurrentDocument env permission f st =
     (if CheckPermissionWithDetails env permission (Some f) (rf_origin_url f) (Some [''embeddingOrigin'' \<mapsto> DString (rf_main_origin f)]) st
      then GRANTED else DENIED)"

definition GetPermissionStatusForWorker ::
  "pm_env \<Rightarrow> PermissionType \<Rightarrow> string \<Rightarrow> PermissionManager \<Rightarrow> PermissionStatus" where
  "GetPermissionStatusForWorker env permission worker_origin st = GetPermissionStatus env permission worker_origin worker_origin st"

section \<open>The helper of a web contents\<close>

text \<open>shell/browser/web\_contents\_permission\_helper.cc. The requests of a web contents are those of its main
  frame; the callback is told whether the status is \<open>GRANTED\<close>.\<close>

record web_contents =
  wc_main_frame :: frame_host
  wc_url :: string

datatype MediaStreamType = NO_SERVICE | DEVICE_AUDIO_CAPTURE | DEVICE_VIDEO_CAPTURE | OtherStream nat

definition MediaStreamTypeToString :: "MediaStreamType \<Rightarrow> string" where
  "MediaStreamTypeToString t =
     (case t of DEVICE_AUDIO_CAPTURE \<Rightarrow> ''audio'' | DEVICE_VIDEO_CAPTURE \<Rightarrow> ''video'' | _ \<Rightarrow> ''unknown'')"

definition helper_OnPermissionResponse :: "PermissionStatus \<Rightarrow> bool" where
  "helper_OnPermissionResponse status = (if status = GRANTED then True else False)"

definition helper_RequestPermission ::
  "pm_env \<Rightarrow> web_contents \<Rightarrow> PermissionType \<Rightarrow> nat \<Rightarrow> bool \<Rightarrow> details option \<Rightarrow> PermissionManager \<Rightarrow> PermissionManager option" where
  "helper_RequestPermission env wc permission callback user_gesture details st =
     RequestPermissionWithDetails env permission (wc_main_frame wc) details callback st"

definition helper_CheckPermission ::
  "pm_env \<Rightarrow> web_contents \<Rightarrow> PermissionType \<Rightarrow> details option \<Rightarrow> PermissionManager \<Rightarrow> bool" where
  "helper_CheckPermission env wc permission details st =
     CheckPermissionWithDetails env permission (Some (wc_main_frame wc)) (wc_url wc) details st"

definition RequestFullscreenPermission :: "pm_env \<Rightarrow> web_contents \<Rightarrow> nat \<Rightarrow> PermissionManager \<Rightarrow> PermissionManager option" where
  "RequestFullscreenPermission env wc callback st = helper_RequestPermission env wc FULLSCREEN callback False None st"

definition RequestMediaAccessPermission ::
  "pm_env \<Rightarrow> web_contents \<Rightarrow> MediaStreamType \<Rightarrow> MediaStreamType \<Rightarrow> string \<Rightarrow> nat \<Rightarrow> PermissionManager \<Rightarrow> PermissionManager option" where
  "RequestMediaAccessPermission env wc audio_type video_type security_origin callback st =
     (let media_types = (if audio_type = DEVICE_AUDIO_CAPTURE then [''audio''] else []) @
                        (if video_type = DEVICE_VIDEO_CAPTURE then [''video''] else [])
      in helper_RequestPermission env wc AUDIO_CAPTURE callback False
           (Some [''mediaTypes'' \<mapsto> DStrings media_types, ''securityOrigin'' \<mapsto> DString security_origin]) st)"

definition RequestWebNotificationPermission :: "pm_env \<Rightarrow> web_contents \<Rightarrow> nat \<Rightarrow> PermissionManager \<Rightarrow> PermissionManager option" where
  "RequestWebNotificationPermission env wc callback st = helper_RequestPermission env wc NOTIFICATIONS callback False None st"

definition RequestPointerLockPermission :: "pm_env \<Rightarrow> web_contents \<Rightarrow> bool \<Rightarrow> nat \<Rightarrow> PermissionManager \<Rightarrow> PermissionManager option" where
  "RequestPointerLockPermission env wc user_gesture callback st = helper_RequestPermission env wc POINTER_LOCK callback user_gesture None st"

definition RequestOpenExternalPermission ::
  "pm_env \<Rightarrow> web_contents \<Rightarrow> nat \<Rightarrow> bool \<Rightarrow> string \<Rightarrow> PermissionManager \<Rightarrow> PermissionManager option" where
  "RequestOpenExternalPermission env wc callback user_gesture url st =
     helper_RequestPermission env wc OPEN_EXTERNAL callback user_gesture (Some [''externalURL'' \<mapsto> DString url]) st"

definition CheckMediaAccessPermission :: "pm_env \<Rightarrow> web_contents \<Rightarrow> string \<Rightarrow> MediaStreamType \<Rightarrow> PermissionManager \<Rightarrow> bool" where
  "CheckMediaAccessPermission env wc security_origin type1 st =
     helper_CheckPermission env wc AUDIO_CAPTURE
       (Some [''securityOrigin'' \<mapsto> DString security_origin, ''mediaType'' \<mapsto> DString (MediaStreamTypeToString type1)]) st"

definition CheckSerialAccessPermission :: "pm_env \<Rightarrow> web_contents \<Rightarrow> string \<Rightarrow> PermissionManager \<Rightarrow> bool" where
  "CheckSerialAccessPermission env wc embedding_origin st =
     helper_CheckPermission env wc SERIAL (Some [''securityOrigin'' \<mapsto> DString embedding_origin]) st"

section \<open>Answers to a request\<close>

definition pending_ok :: "PendingRequest \<Rightarrow> bool" where
  "pending_ok req \<longleftrightarrow> length (pr_results req) = length (pr_permissions req) \<and> 0 < pr_remaining req \<and>
     unat (pr_remaining req) \<le> length (pr_permissions req) \<and> pr_callback req \<noteq> None"

text \<open>The callbacks that ran, with what they were given.\<close>

definition callbacks_ran :: "effect list \<Rightarrow> (statuses_callback \<times> PermissionStatus list) list" where
  "callbacks_ran es = concat (map (\<lambda>e. case e of RunStatuses n rs \<Rightarrow> [(Statuses n, rs)] | RunStatus n s \<Rightarrow> [(SingleStatus n, [s])] | _ \<Rightarrow> []) es)"

lemma callbacks_ran_simps [simp]: "callbacks_ran [] = []" "callbacks_ran (es @ fs) = callbacks_ran es @ callbacks_ran fs" "callbacks_ran (grant_effects pid p) = []" "callbacks_ran [RunHandler h c] = []"
  by (simp_all add: callbacks_ran_def grant_effects_def)

definition answer :: "PermissionStatus list \<Rightarrow> nat \<times> PermissionStatus \<Rightarrow> PermissionStatus list" where
  "answer results r = results[fst r := snd r]"

lemma length_answer [simp]: "length (answer rs r) = length rs" "length (foldl answer rs as) = length rs"
  by (simp add: answer_def, induction as arbitrary: rs) (simp_all add: answer_def)

fun respond_all :: "int \<Rightarrow> (nat \<times> PermissionStatus) list \<Rightarrow> PermissionManager \<Rightarrow> PermissionManager option" where
  "respond_all rid [] st = Some st"
| "respond_all rid ((i, s) # as) st = Option.bind (OnPermissionResponse rid i s st) (respond_all rid as)"

text \<open>The value a callback is given: the whole list, or its only element.\<close>

definition given :: "statuses_callback \<Rightarrow> PermissionStatus list \<Rightarrow> PermissionStatus list" where
  "given cb results = (case cb of Statuses _ \<Rightarrow> results | SingleStatus _ \<Rightarrow> take 1 results)"

lemma run_statuses_callbacks:
  "results \<noteq> [] \<Longrightarrow> \<exists>es. run_statuses cb results = Some es \<and> callbacks_ran es = [(cb, given cb results)] \<and>
     (\<forall>h c. RunHandler h c \<notin> set es)"
  by (cases cb; cases results) (auto simp: run_statuses_def callbacks_ran_def given_def)

lemma SetPermissionStatus_ok:
  assumes "length (pr_results req) = length (pr_permissions req)" "i < length (pr_permissions req)"
  shows "\<exists>es. SetPermissionStatus i s req =
    Some (req\<lparr>pr_results := answer (pr_results req) (i, s), pr_remaining := pr_remaining req - 1\<rparr>, es) \<and> callbacks_ran es = [] \<and>
    (\<forall>h c. RunHandler h c \<notin> set es)"
  using assms by (auto simp: SetPermissionStatus_def answer_def grant_effects_def callbacks_ran_def)

lemma map_of_replaced:
  "map_of (map (\<lambda>p. if fst p = k then (k, v) else p) xs) k2 = (if k2 = k \<and> map_of xs k \<noteq> None then Some v else map_of xs k2)"
  by (induction xs) auto

lemma map_of_removed: "map_of (filter (\<lambda>p. fst p \<noteq> k) xs) k2 = (if k2 = k then None else map_of xs k2)"
  by (induction xs) auto

text \<open>The request after an answer that does not complete it.\<close>

abbreviation answered :: "nat \<Rightarrow> PermissionStatus \<Rightarrow> PendingRequest \<Rightarrow> PendingRequest" where
  "answered i s req \<equiv> req\<lparr>pr_results := answer (pr_results req) (i, s), pr_remaining := pr_remaining req - 1\<rparr>"

lemma OnPermissionResponse_eq:
  assumes "map_of (pending_requests st) rid = Some req" "pending_ok req" "i < length (pr_permissions req)"
  shows "\<exists>es. OnPermissionResponse rid i s st =
      Some (emit es (st\<lparr>pending_requests :=
        if pr_remaining req = 1 then filter (\<lambda>p. fst p \<noteq> rid) (pending_requests st)
        else map (\<lambda>p. if fst p = rid then (rid, answered i s req) else p) (pending_requests st)\<rparr>)) \<and>
    callbacks_ran es =
      (if pr_remaining req = 1 then [(the (pr_callback req), given (the (pr_callback req)) (answer (pr_results req) (i, s)))] else []) \<and>
    (\<forall>h c. RunHandler h c \<notin> set es)"
proof -
  have ok: "length (pr_results req) = length (pr_permissions req)" "pr_callback req \<noteq> None" using assms(2) by (auto simp: pending_ok_def)
  obtain cb where cb: "pr_callback req = Some cb" using ok(2) by auto
  obtain es where es: "SetPermissionStatus i s req = Some (answered i s req, es)" "callbacks_ran es = []" "\<forall>h c. RunHandler h c \<notin> set es"
    using SetPermissionStatus_ok [OF ok(1) assms(3)] by blast
  have "answer (pr_results req) (i, s) \<noteq> []" using ok(1) assms(3) by (metis length_answer(1) length_0_conv not_less_zero)
  then obtain es2 where es2: "run_statuses cb (answer (pr_results req) (i, s)) = Some es2"
    "callbacks_ran es2 = [(cb, given cb (answer (pr_results req) (i, s)))]" "\<forall>h c. RunHandler h c \<notin> set es2"
    using run_statuses_callbacks by blast
  have last: "IsComplete (answered i s req) \<longleftrightarrow> pr_remaining req = 1" by (simp add: IsComplete_def)
  have "OnPermissionResponse rid i s st =
      Some (emit (if pr_remaining req = 1 then es @ es2 else es) (st\<lparr>pending_requests :=
        if pr_remaining req = 1 then filter (\<lambda>p. fst p \<noteq> rid) (pending_requests st)
        else map (\<lambda>p. if fst p = rid then (rid, answered i s req) else p) (pending_requests st)\<rparr>))"
    unfolding OnPermissionResponse_def using assms(1) es(1) es2(1) cb last by (simp add: RunCallback_def)
  then show ?thesis using es es2 cb by auto
qed

lemma OnPermissionResponse_pending:
  assumes "map_of (pending_requests st) rid = Some req" "pending_ok req" "i < length (pr_permissions req)"
  shows "\<exists>st'. OnPermissionResponse rid i s st = Some st' \<and>
    (\<forall>k. k \<noteq> rid \<longrightarrow> map_of (pending_requests st') k = map_of (pending_requests st) k) \<and>
    (if pr_remaining req = 1
     then map_of (pending_requests st') rid = None \<and>
       callbacks_ran (effects st') = callbacks_ran (effects st) @
         [(the (pr_callback req), given (the (pr_callback req)) (answer (pr_results req) (i, s)))]
     else map_of (pending_requests st') rid = Some (answered i s req) \<and>
       callbacks_ran (effects st') = callbacks_ran (effects st))"
  using OnPermissionResponse_eq [OF assms, of s] assms(1) by (auto simp: emit_def map_of_replaced map_of_removed)

lemma u64_pred: "w \<noteq> (0 :: u64) \<Longrightarrow> unat w = Suc (unat (w - 1))"
  using unat_gt_0 [of w] by (simp add: unat_minus_one)


end
