(* ===== verification/Permission_Properties.thy ===== *)
theory Permission_Properties
  imports Permission_Manager
begin

text \<open>
  The permission manager over time: requests, answers and changes of the handlers in any order, where
  an answer comes through a callback that the handler was given. Every callback of a caller runs at
  most once and no answer makes the manager fail. Also what the checks tell the check handler.
\<close>

section \<open>The invariant\<close>

definition pending_callbacks :: "PermissionManager \<Rightarrow> statuses_callback list" where
  "pending_callbacks st = map (\<lambda>p. the (pr_callback (snd p))) (pending_requests st)"

definition calls_ok :: "PermissionManager \<Rightarrow> bool" where
  "calls_ok st \<longleftrightarrow> (\<forall>h c. RunHandler h c \<in> set (effects st) \<longrightarrow> hc_request c \<in> set (used_ids st) \<and>
     (\<forall>req. map_of (pending_requests st) (hc_request c) = Some req \<longrightarrow> hc_index c < length (pr_permissions req)))"

definition pm_inv :: "PermissionManager \<Rightarrow> bool" where
  "pm_inv st \<longleftrightarrow> (\<forall>p \<in> set (pending_requests st). pending_ok (snd p) \<and> fst p \<in> set (used_ids st)) \<and>
     distinct (map fst (pending_requests st)) \<and> calls_ok st \<and>
     distinct (map fst (callbacks_ran (effects st)) @ pending_callbacks st)"

text \<open>An answer comes through a callback of a call that was made.\<close>

definition legal :: "effect set \<Rightarrow> pm_action \<Rightarrow> bool" where
  "legal calls a \<longleftrightarrow> (case a of Respond rid i s \<Rightarrow> \<exists>h c. RunHandler h c \<in> calls \<and> hc_request c = rid \<and> hc_index c = i | _ \<Rightarrow> True)"

lemma legal_mono: "legal A a \<Longrightarrow> A \<subseteq> B \<Longrightarrow> legal B a"
  by (auto simp: legal_def split: pm_action.splits)

definition script_ok :: "pm_env \<Rightarrow> bool" where
  "script_ok env \<longleftrightarrow> (\<forall>h call log. \<forall>a \<in> set (script env h call log). legal (insert (RunHandler h call) (set log)) a)"

definition ids_ok :: "pm_env \<Rightarrow> bool" where
  "ids_ok env \<longleftrightarrow> (\<forall>used. fresh_id env used \<notin> set used)"

inductive pm_reach :: "pm_env \<Rightarrow> PermissionManager \<Rightarrow> bool" for env where
  pm_init: "pm_reach env PermissionManager_init"
| pm_act: "pm_reach env st \<Longrightarrow> legal (set (effects st)) a \<Longrightarrow> run_action env a st = Some st' \<Longrightarrow> pm_reach env st'"
| pm_request: "pm_reach env st \<Longrightarrow> cb \<notin> set (map fst (callbacks_ran (effects st)) @ pending_callbacks st) \<Longrightarrow>
    length permissions < 2 ^ 64 \<Longrightarrow> RequestPermissionsWithDetails env permissions f details cb st = Some st' \<Longrightarrow> pm_reach env st'"

section \<open>It is kept\<close>

lemma calls_ok_fewer:
  assumes "calls_ok st" "set (used_ids st) \<subseteq> set (used_ids st')" "\<forall>h c. RunHandler h c \<in> set (effects st') \<longrightarrow> RunHandler h c \<in> set (effects st)"
    "\<forall>k req'. map_of (pending_requests st') k = Some req' \<longrightarrow>
       (\<exists>req. map_of (pending_requests st) k = Some req \<and> pr_permissions req' = pr_permissions req)"
  shows "calls_ok st'"
  using assms unfolding calls_ok_def by (metis subset_iff)

text \<open>What every action keeps: the ids given out, the effects so far, and which permissions a request asks for.\<close>

definition keeps :: "PermissionManager \<Rightarrow> PermissionManager \<Rightarrow> bool" where
  "keeps st st' \<longleftrightarrow> used_ids st' = used_ids st \<and> set (effects st) \<subseteq> set (effects st') \<and>
     (\<forall>k req'. map_of (pending_requests st') k = Some req' \<longrightarrow>
        (\<exists>req. map_of (pending_requests st) k = Some req \<and> pr_permissions req' = pr_permissions req))"

lemma keeps_refl [simp]: "keeps st st"
  by (simp add: keeps_def)

lemma keeps_trans: "keeps st st1 \<Longrightarrow> keeps st1 st2 \<Longrightarrow> keeps st st2"
  unfolding keeps_def by (metis subset_trans)

lemma OnPermissionResponse_inv:
  assumes "pm_inv st" "legal (set (effects st)) (Respond rid i s)"
  shows "\<exists>st'. OnPermissionResponse rid i s st = Some st' \<and> pm_inv st' \<and> keeps st st'"
proof (cases "map_of (pending_requests st) rid")
  case None
  then show ?thesis using assms(1) by (simp add: OnPermissionResponse_def)
next
  case (Some req)
  have mem: "(rid, req) \<in> set (pending_requests st)" using Some by (rule map_of_SomeD)
  have ok: "pending_ok req" "distinct (map fst (pending_requests st))" "calls_ok st" using assms(1) mem by (auto simp: pm_inv_def)
  have i: "i < length (pr_permissions req)" using assms(2) Some ok(3) by (auto simp: legal_def calls_ok_def)
  let ?ps = "if pr_remaining req = 1 then filter (\<lambda>p. fst p \<noteq> rid) (pending_requests st)
        else map (\<lambda>p. if fst p = rid then (rid, answered i s req) else p) (pending_requests st)"
  obtain es where es: "OnPermissionResponse rid i s st = Some (emit es (st\<lparr>pending_requests := ?ps\<rparr>))"
    "callbacks_ran es = (if pr_remaining req = 1 then [(the (pr_callback req), given (the (pr_callback req)) (answer (pr_results req) (i, s)))] else [])"
    "\<forall>h c. RunHandler h c \<notin> set es"
    using OnPermissionResponse_eq [OF Some ok(1) i] by blast
  let ?st = "emit es (st\<lparr>pending_requests := ?ps\<rparr>)"
  have calls: "calls_ok ?st"
    by (rule calls_ok_fewer [OF ok(3)]) (use es(3) Some in \<open>auto simp: emit_def map_of_replaced map_of_removed split: if_splits\<close>)
  obtain xs ys where ps: "pending_requests st = xs @ (rid, req) # ys" using mem by (meson split_list)
  have others: "\<forall>p \<in> set xs \<union> set ys. fst p \<noteq> rid" using ok(2) unfolding ps by force
  have "filter (\<lambda>p. fst p \<noteq> rid) (pending_requests st) = xs @ ys" unfolding ps using others by (auto simp: filter_id_conv)
  moreover have "map (\<lambda>p. if fst p = rid then (rid, answered i s req) else p) (pending_requests st) = xs @ (rid, answered i s req) # ys"
    unfolding ps map_append list.map using others by (intro arg_cong2 [of _ _ _ _ append] arg_cong2 [of _ _ _ _ Cons] map_idI) auto
  ultimately have new: "?ps = (if pr_remaining req = 1 then xs @ ys else xs @ (rid, answered i s req) # ys)" by simp
  have still: "pending_ok (answered i s req)" if "pr_remaining req \<noteq> 1"
    using ok(1) that u64_pred [of "pr_remaining req"] by (auto simp: pending_ok_def word_gt_0)
  have inv: "\<forall>p \<in> set (xs @ (rid, req) # ys). pending_ok (snd p) \<and> fst p \<in> set (used_ids st)" "distinct (map fst (xs @ (rid, req) # ys))"
    "distinct (map fst (callbacks_ran (effects st)) @ map (\<lambda>p. the (pr_callback (snd p))) (xs @ (rid, req) # ys))"
    using assms(1) unfolding pm_inv_def pending_callbacks_def ps by blast+
  have "pm_inv ?st"
  proof (cases "pr_remaining req = 1")
    case True
    have "\<forall>p \<in> set (xs @ ys). pending_ok (snd p) \<and> fst p \<in> set (used_ids st)" "distinct (map fst (xs @ ys))"
      "distinct (map fst (callbacks_ran (effects st)) @ the (pr_callback req) # map (\<lambda>p. the (pr_callback (snd p))) (xs @ ys))"
      using inv by auto
    then show ?thesis using calls es(2) True unfolding new by (simp add: pm_inv_def emit_def pending_callbacks_def)
  next
    case False
    then show ?thesis using inv calls es(2) still unfolding new by (simp add: pm_inv_def emit_def pending_callbacks_def)
  qed
  moreover have "keeps st ?st" using Some by (auto simp: keeps_def emit_def map_of_replaced map_of_removed split: if_splits)
  ultimately show ?thesis using es(1) by blast
qed

lemma run_pending_ran:
  assumes "\<forall>p \<in> set ps. pending_ok (snd p)"
  shows "\<exists>es. run_pending env ps = Some es \<and> set (map fst (callbacks_ran es)) \<subseteq> (\<lambda>p. the (pr_callback (snd p))) ` set ps \<and>
    (distinct (map (\<lambda>p. the (pr_callback (snd p))) ps) \<longrightarrow> distinct (map fst (callbacks_ran es))) \<and> (\<forall>h c. RunHandler h c \<notin> set es)"
  using assms
proof (induction ps)
  case Nil
  then show ?case by simp
next
  case (Cons p ps)
  obtain k req where p: "p = (k, req)" by fastforce
  obtain cb where cb: "pr_callback req = Some cb" "pr_results req \<noteq> []"
    using Cons.prems p by (fastforce simp: pending_ok_def word_less_nat_alt)
  obtain es where es: "run_pending env ps = Some es" "set (map fst (callbacks_ran es)) \<subseteq> (\<lambda>p. the (pr_callback (snd p))) ` set ps"
    "distinct (map (\<lambda>p. the (pr_callback (snd p))) ps) \<longrightarrow> distinct (map fst (callbacks_ran es))" "\<forall>h c. RunHandler h c \<notin> set es"
    using Cons by auto
  obtain es2 where "run_statuses cb (pr_results req) = Some es2" "callbacks_ran es2 = [(cb, given cb (pr_results req))]" "\<forall>h c. RunHandler h c \<notin> set es2"
    using run_statuses_callbacks [OF cb(2)] by blast
  then show ?case using es p cb by (auto simp: RunCallback_def)
qed

lemma SetPermissionRequestHandler_inv:
  assumes "pm_inv st"
  shows "\<exists>st'. SetPermissionRequestHandler env h st = Some st' \<and> pm_inv st' \<and> keeps st st'"
proof (cases "h = None \<and> pending_requests st \<noteq> []")
  case False
  then show ?thesis using assms by (auto simp: SetPermissionRequestHandler_def pm_inv_def calls_ok_def pending_callbacks_def keeps_def)
next
  case True
  obtain es where es: "run_pending env (pending_requests st) = Some es"
    "set (map fst (callbacks_ran es)) \<subseteq> (\<lambda>p. the (pr_callback (snd p))) ` set (pending_requests st)"
    "distinct (map (\<lambda>p. the (pr_callback (snd p))) (pending_requests st)) \<longrightarrow> distinct (map fst (callbacks_ran es))" "\<forall>h c. RunHandler h c \<notin> set es"
    using run_pending_ran [of "pending_requests st"] assms unfolding pm_inv_def by blast
  then have "SetPermissionRequestHandler env h st = Some (emit es (st\<lparr>pending_requests := [], request_handler := h\<rparr>))"
    using True by (simp add: SetPermissionRequestHandler_def)
  moreover have "pm_inv (emit es (st\<lparr>pending_requests := [], request_handler := h\<rparr>))"
  proof -
    have "set (map fst (callbacks_ran (effects st))) \<inter> set (map fst (callbacks_ran es)) = {}"
      using assms es(2) by (simp add: pm_inv_def pending_callbacks_def) blast
    then show ?thesis using assms es(3,4) by (simp add: pm_inv_def emit_def calls_ok_def pending_callbacks_def)
  qed
  ultimately show ?thesis by (simp add: emit_def keeps_def)
qed

lemma run_action_inv:
  assumes "pm_inv st" "legal (set (effects st)) a"
  shows "\<exists>st'. run_action env a st = Some st' \<and> pm_inv st' \<and> keeps st st'"
proof (cases a)
  case (Respond rid i s)
  then show ?thesis using OnPermissionResponse_inv [OF assms(1)] assms(2) by fastforce
next
  case (ChangeRequestHandler h)
  then show ?thesis using SetPermissionRequestHandler_inv [OF assms(1)] by simp
qed (use assms in \<open>auto simp: pm_inv_def calls_ok_def pending_callbacks_def SetPermissionCheckHandler_def SetDevicePermissionHandler_def keeps_def\<close>)

lemma run_actions_inv:
  assumes "pm_inv st" "\<forall>a \<in> set as. legal (set (effects st)) a"
  shows "\<exists>st'. run_actions env as st = Some st' \<and> pm_inv st' \<and> keeps st st'"
  using assms
proof (induction as arbitrary: st)
  case Nil
  then show ?case by simp
next
  case (Cons a as)
  obtain st1 where st1: "run_action env a st = Some st1" "pm_inv st1" "keeps st st1"
    using run_action_inv [OF Cons.prems(1), of a env] Cons.prems(2) by auto
  have "\<forall>a \<in> set as. legal (set (effects st1)) a" using Cons.prems(2) st1(3) legal_mono by (auto simp: keeps_def)
  then obtain st2 where "run_actions env as st1 = Some st2" "pm_inv st2" "keeps st1 st2" using Cons.IH [OF st1(2)] by blast
  then show ?case using st1(1) keeps_trans [OF st1(3)] by auto
qed


lemma handler_loop_inv:
  assumes "script_ok env" "pm_inv st" "handler_loop env f details rid i perms st = Some st'" "rid \<in> set (used_ids st)"
    "\<forall>req. map_of (pending_requests st) rid = Some req \<longrightarrow> i + length perms \<le> length (pr_permissions req)"
  shows "pm_inv st'"
  using assms(2-)
proof (induction perms arbitrary: i st)
  case Nil
  then show ?case by simp
next
  case (Cons permission perms)
  let ?call = "\<lparr>hc_web_contents = rf_web_contents f, hc_permission = permission, hc_request = rid, hc_index = i,
    hc_details = request_details f details\<rparr>"
  obtain h st1 where run: "run_actions env (script env h ?call (effects st)) (emit [RunHandler h ?call] st) = Some st1"
    "handler_loop env f details rid (Suc i) perms st1 = Some st'"
    using Cons.prems(2) by (auto simp: Let_def split: option.splits bind_splits)
  let ?st = "emit [RunHandler h ?call] st"
  have inv: "pm_inv ?st" using Cons.prems(1,3,4) by (auto simp: pm_inv_def emit_def calls_ok_def pending_callbacks_def)
  have "\<forall>a \<in> set (script env h ?call (effects st)). legal (set (effects ?st)) a"
    using assms(1) legal_mono unfolding script_ok_def by (fastforce simp: emit_def)
  then have st1: "pm_inv st1" "keeps ?st st1" using run_actions_inv [OF inv] run(1) by (metis option.inject)+
  have "rid \<in> set (used_ids st1)" using st1(2) Cons.prems(3) by (simp add: keeps_def emit_def)
  moreover have "\<forall>req. map_of (pending_requests st1) rid = Some req \<longrightarrow> Suc i + length perms \<le> length (pr_permissions req)"
    using st1(2) Cons.prems(4) by (fastforce simp: keeps_def emit_def)
  ultimately show ?case using Cons.IH [OF st1(1) run(2)] by blast
qed

lemma request_inv:
  assumes "script_ok env" "ids_ok env" "pm_inv st" "cb \<notin> set (map fst (callbacks_ran (effects st)) @ pending_callbacks st)"
    "length permissions < 2 ^ 64" "RequestPermissionsWithDetails env permissions f details cb st = Some st'"
  shows "pm_inv st'"
proof -
  have told: "pm_inv (emit (gs @ es) st)"
    if "callbacks_ran es = [(cb, x)]" "callbacks_ran gs = []" "\<forall>h c. RunHandler h c \<notin> set (gs @ es)" for es gs x
    using that assms(3,4) by (auto simp: pm_inv_def emit_def calls_ok_def pending_callbacks_def)
  have none: "callbacks_ran (concat (map (grant_effects pid) ps)) = []" "\<forall>h c. RunHandler h c \<notin> set (concat (map (grant_effects pid) ps))" for pid ps
    by (induction ps) (simp_all, auto simp: grant_effects_def)
  consider (empty) "permissions = []" | (all) "permissions \<noteq> []" "request_handler st = None" | (ask) "permissions \<noteq> []" "request_handler st \<noteq> None" by blast
  then show ?thesis
  proof cases
    case empty
    then obtain es where "run_statuses cb [] = Some es" "st' = emit es st" using assms(6) by (auto simp: RequestPermissionsWithDetails_def)
    moreover from this obtain n where "cb = Statuses n" "es = [RunStatuses n []]" by (auto simp: run_statuses_def split: statuses_callback.splits)
    ultimately show ?thesis using told [where es = es and gs = "[]"] by (simp add: callbacks_ran_def)
  next
    case all
    then obtain es where "run_statuses cb (map (\<lambda>p. GRANTED) permissions) = Some es"
      "st' = emit (concat (map (grant_effects (rf_process f)) permissions) @ es) st"
      using assms(6) by (auto simp: RequestPermissionsWithDetails_def split: bind_splits)
    then show ?thesis
      using run_statuses_callbacks [of "map (\<lambda>p. GRANTED) permissions" cb] all(1) told none by fastforce
  next
    case ask
    let ?rid = "fresh_id env (used_ids st)"
    let ?st = "st\<lparr>pending_requests := pending_requests st @ [(?rid, PendingRequest_make f permissions cb)], used_ids := ?rid # used_ids st\<rparr>"
    have loop: "handler_loop env f details ?rid 0 permissions ?st = Some st'"
      using assms(6) ask by (simp add: RequestPermissionsWithDetails_def Let_def)
    have fresh: "?rid \<notin> set (used_ids st)" using assms(2) by (simp add: ids_ok_def)
    have n: "unat (of_nat (length permissions) :: u64) = length permissions" using assms(5) by (simp add: unat_of_nat)
    have make: "pending_ok (PendingRequest_make f permissions cb)"
      using n ask(1) by (simp add: pending_ok_def PendingRequest_make_def word_less_nat_alt)
    have "?rid \<notin> fst ` set (pending_requests st)" using assms(3) fresh unfolding pm_inv_def by auto
    then have new: "map_of (pending_requests st) ?rid = None" by (simp only: map_of_eq_None_iff not_False_eq_True)
    have old: "calls_ok st" using assms(3) by (simp add: pm_inv_def)
    have calls: "calls_ok ?st"
      unfolding calls_ok_def
    proof (intro allI impI conjI)
      fix h c assume c: "RunHandler h c \<in> set (effects ?st)"
      then have "hc_request c \<in> set (used_ids st)" using old by (simp add: calls_ok_def)
      then show "hc_request c \<in> set (used_ids ?st)" by simp
      fix req assume "map_of (pending_requests ?st) (hc_request c) = Some req"
      then have "map_of (pending_requests st) (hc_request c) = Some req"
        using \<open>hc_request c \<in> set (used_ids st)\<close> fresh by (auto simp: map_add_def split: option.splits if_splits)
      then show "hc_index c < length (pr_permissions req)" using old c by (simp add: calls_ok_def)
    qed
    have "pm_inv ?st"
      using assms(3,4) make new calls unfolding pm_inv_def pending_callbacks_def
      by (auto simp: PendingRequest_make_def map_of_eq_None_iff)
    then show ?thesis
      by (rule handler_loop_inv [OF assms(1) _ loop]) (use new in \<open>auto simp: map_add_def PendingRequest_make_def\<close>)
  qed
qed

text \<open>In every state the manager can reach, each callback of a caller has run at most once and is not
  pending then, and every pending request still needs an answer and has a status for each of its
  permissions. In such a state no answer and no change of a handler fails.\<close>

theorem permissions_reach_inv:
  assumes "script_ok env" "ids_ok env" "pm_reach env st"
  shows "distinct (map fst (callbacks_ran (effects st)) @ pending_callbacks st) \<and>
    (\<forall>p \<in> set (pending_requests st). pending_ok (snd p)) \<and>
    (\<forall>a. legal (set (effects st)) a \<longrightarrow> (\<exists>st'. run_action env a st = Some st'))"
proof -
  have "pm_inv st" using assms(3)
  proof (induction rule: pm_reach.induct)
    case pm_init
    then show ?case by (simp add: PermissionManager_init_def pm_inv_def calls_ok_def pending_callbacks_def)
  next
    case (pm_act st a st')
    then show ?case using run_action_inv [of st a env] by auto
  next
    case (pm_request st cb permissions f details st')
    then show ?case using request_inv [OF assms(1,2)] by blast
  qed
  then have "\<exists>st'. run_action env a st = Some st'" if "legal (set (effects st)) a" for a using run_action_inv that by blast
  then show ?thesis using \<open>pm_inv st\<close> unfolding pm_inv_def by blast
qed


section \<open>What the checks tell\<close>

text \<open>A check for the camera is shown to the check handler as one for the microphone. The type that
  \<open>CheckMediaAccessPermission\<close> puts into the details is written over, as the check is made for
  \<open>AUDIO_CAPTURE\<close>: the handler is told \<open>audio\<close> for every type of stream.\<close>

theorem CheckMediaAccess_says_audio:
  assumes "check_handler st = Some h"
  shows "CheckMediaAccessPermission env wc origin t st =
    check_script env h (rf_web_contents (wc_main_frame wc)) AUDIO_CAPTURE (wc_url wc)
      [''securityOrigin'' \<mapsto> DString origin, ''requestingUrl'' \<mapsto> DString (rf_url (wc_main_frame wc)),
       ''isMainFrame'' \<mapsto> DBool (rf_main (wc_main_frame wc)), ''mediaType'' \<mapsto> DString ''audio'']"
  using assms by (simp add: CheckMediaAccessPermission_def helper_CheckPermission_def CheckPermissionWithDetails_def Let_def)

text \<open>A handler that removes itself while a request for several permissions is put to it: the next call
  runs a null callback.\<close>

lemma handler_removed_in_call:
  assumes "request_handler st = Some h"
    "script env h \<lparr>hc_web_contents = rf_web_contents f, hc_permission = p, hc_request = fresh_id env (used_ids st), hc_index = 0,
       hc_details = request_details f details\<rparr> (effects st) = [ChangeRequestHandler None]"
  shows "RequestPermissionsWithDetails env (p # q # ps) f details cb st = None"
  using assms
  by (auto simp: RequestPermissionsWithDetails_def Let_def SetPermissionRequestHandler_def emit_def split: bind_splits)

section \<open>Witnesses\<close>

definition sample_frame :: frame_host where
  "sample_frame = \<lparr>rf_process = 7, rf_id = 1, rf_url = ''u'', rf_main = True, rf_web_contents = Some 0, rf_origin_url = ''o'', rf_main_origin = ''o''\<rparr>"

text \<open>A handler that grants every other permission at once and leaves the rest open.\<close>

definition sample_env :: pm_env where
  "sample_env = \<lparr>fresh_id = (\<lambda>used. Max (insert 0 (set used)) + 1), frame_gone = (\<lambda>n. False),
     script = (\<lambda>h call log. if even (hc_index call) then [Respond (hc_request call) (hc_index call) GRANTED] else []),
     check_script = (\<lambda>h wc p origin d. d ''mediaType'' = Some (DString ''video''))\<rparr>"

definition sample_request :: PendingRequest where
  "sample_request = PendingRequest_make sample_frame [GEOLOCATION, MIDI_SYSEX] (Statuses 4)"

definition sample_manager :: PermissionManager where
  "sample_manager = PermissionManager_init\<lparr>request_handler := Some 0, check_handler := Some 1, pending_requests := [(1, sample_request)], used_ids := [1]\<rparr>"


lemma sample_env_ok: "script_ok sample_env" "ids_ok sample_env"
proof -
  show "script_ok sample_env" by (auto simp: script_ok_def sample_env_def legal_def)
  have "Max (insert 0 (set used)) + 1 \<notin> set used" for used :: "int list"
    by (metis Max_ge finite_insert insertCI List.finite_set not_le zless_add1_eq order_refl)
  then show "ids_ok sample_env" by (simp add: ids_ok_def sample_env_def)
qed

theorem permissions_reach_inv_witness:
  "\<exists>st. pm_reach sample_env st \<and> request_handler st = Some 0 \<and>
     (\<forall>a. legal (set (effects st)) a \<longrightarrow> (\<exists>st'. run_action sample_env a st = Some st'))"
proof -
  let ?st = "PermissionManager_init\<lparr>request_handler := Some 0\<rparr>"
  have "run_action sample_env (ChangeRequestHandler (Some 0)) PermissionManager_init = Some ?st"
    by (simp add: SetPermissionRequestHandler_def)
  then have r: "pm_reach sample_env ?st" by (rule pm_act [OF pm_init, rotated]) (simp add: legal_def)
  then show ?thesis using permissions_reach_inv [OF sample_env_ok r] by (intro exI [of _ ?st]) simp
qed

theorem CheckMediaAccess_says_audio_witness:
  "\<not> CheckMediaAccessPermission sample_env \<lparr>wc_main_frame = sample_frame, wc_url = ''u''\<rparr> ''o'' DEVICE_VIDEO_CAPTURE sample_manager"
proof -
  have "check_handler sample_manager = Some 1" by (simp add: sample_manager_def)
  from CheckMediaAccess_says_audio [OF this, of sample_env "\<lparr>wc_main_frame = sample_frame, wc_url = ''u''\<rparr>" "''o''" DEVICE_VIDEO_CAPTURE]
  show ?thesis by (auto simp: sample_env_def)
qed

end
