(* ===== verification/Device_Permissions.thy ===== *)
theory Device_Permissions
  imports Permission_Manager
begin

text \<open>
  The permissions of pages for devices: what \<open>ElectronBrowserContext\<close> has granted
  (electron\_browser\_context.cc), the device part of the permission manager, and its clients for
  human interface devices (hid/hid\_chooser\_context.cc) and serial ports
  (serial/serial\_chooser\_context.cc). Origins are strings; names of devices, the encoding of tokens and
  the script of the device handler are parameters. \<^const>\<open>None\<close> is undefined behaviour.
\<close>

section \<open>Granted devices\<close>

datatype device_field = FInt int | FStr string

type_synonym device = "string \<rightharpoonup> device_field"

definition FindInt :: "string \<Rightarrow> device \<Rightarrow> int option" where
  "FindInt k d = (case d k of Some (FInt n) \<Rightarrow> Some n | _ \<Rightarrow> None)"

definition FindString :: "string \<Rightarrow> device \<Rightarrow> string option" where
  "FindString k d = (case d k of Some (FStr t) \<Rightarrow> Some t | _ \<Rightarrow> None)"

datatype platform = Windows | Mac | Linux

record dev_env =
  build :: platform
  device_script :: "nat \<Rightarrow> PermissionType \<Rightarrow> string \<Rightarrow> device \<Rightarrow> bool"
  hid_name_of_ids :: "int \<Rightarrow> int \<Rightarrow> string"
  lossy_utf8 :: "string \<Rightarrow> string"
  encode_token :: "nat \<Rightarrow> string"
  disable_hid_blocklist :: bool

type_synonym DevicePermissionMap = "PermissionType \<Rightarrow> (string \<rightharpoonup> device list) option"

definition DoesDeviceMatch :: "dev_env \<Rightarrow> device \<Rightarrow> device \<Rightarrow> PermissionType \<Rightarrow> bool" where
  "DoesDeviceMatch env device device_to_compare permission_type =
     (if permission_type = HID then
        if FindInt ''vendorId'' device \<noteq> FindInt ''vendorId'' device_to_compare \<or>
           FindInt ''productId'' device \<noteq> FindInt ''productId'' device_to_compare
        then False
        else (case (FindString ''serialNumber'' device_to_compare, FindString ''serialNumber'' device) of
                (Some serial_number, Some device_serial_number) \<Rightarrow> device_serial_number = serial_number
              | _ \<Rightarrow> False)
      else if permission_type = SERIAL then
        if build env = Windows then
          (case (FindString ''device_instance_id'' device, FindString ''device_instance_id'' device_to_compare) of
             (Some instance_id, Some port_instance_id) \<Rightarrow> instance_id = port_instance_id
           | _ \<Rightarrow> False)
        else
          if FindInt ''vendor_id'' device \<noteq> FindInt ''vendor_id'' device_to_compare \<or>
             FindInt ''product_id'' device \<noteq> FindInt ''product_id'' device_to_compare \<or>
             (case (FindString ''serial_number'' device, FindString ''serial_number'' device_to_compare) of
                (Some serial_number, Some port_serial_number) \<Rightarrow> port_serial_number \<noteq> serial_number
              | _ \<Rightarrow> False)
          then False
          else if build env = Mac \<and>
             (case (FindString ''usb_driver'' device, FindString ''usb_driver'' device_to_compare) of
                (Some usb_driver_key, Some port_usb_driver_key) \<Rightarrow> usb_driver_key \<noteq> port_usb_driver_key
              | _ \<Rightarrow> False)
          then False
          else True
      else False)"

definition ctx_GrantDevicePermission :: "string \<Rightarrow> device \<Rightarrow> PermissionType \<Rightarrow> DevicePermissionMap \<Rightarrow> DevicePermissionMap" where
  "ctx_GrantDevicePermission origin device permission_type granted_devices =
     (let origins = (case granted_devices permission_type of Some m \<Rightarrow> m | None \<Rightarrow> Map.empty);
          devices = (case origins origin of Some ds \<Rightarrow> ds | None \<Rightarrow> [])
      in granted_devices(permission_type := Some (origins(origin \<mapsto> devices @ [device]))))"

definition ctx_RevokeDevicePermission :: "dev_env \<Rightarrow> string \<Rightarrow> device \<Rightarrow> PermissionType \<Rightarrow> DevicePermissionMap \<Rightarrow> DevicePermissionMap" where
  "ctx_RevokeDevicePermission env origin device permission_type granted_devices =
     (case granted_devices permission_type of
        None \<Rightarrow> granted_devices
      | Some origins \<Rightarrow>
          (case origins origin of
             None \<Rightarrow> granted_devices
           | Some devices \<Rightarrow>
               granted_devices(permission_type :=
                 Some (origins(origin \<mapsto> filter (\<lambda>it. \<not> DoesDeviceMatch env device it permission_type) devices)))))"

definition ctx_CheckDevicePermission :: "dev_env \<Rightarrow> string \<Rightarrow> device \<Rightarrow> PermissionType \<Rightarrow> DevicePermissionMap \<Rightarrow> bool" where
  "ctx_CheckDevicePermission env origin device permission_type granted_devices =
     (case granted_devices permission_type of
        None \<Rightarrow> False
      | Some origins \<Rightarrow>
          (case origins origin of
             None \<Rightarrow> False
           | Some devices \<Rightarrow> list_ex (\<lambda>device_to_compare. DoesDeviceMatch env device device_to_compare permission_type) devices))"

section \<open>The permission manager\<close>

definition CheckDevicePermission ::
  "dev_env \<Rightarrow> PermissionManager \<Rightarrow> PermissionType \<Rightarrow> string \<Rightarrow> device \<Rightarrow> DevicePermissionMap \<Rightarrow> bool" where
  "CheckDevicePermission env pm permission origin device browser_context =
     (case device_permission_handler pm of
        None \<Rightarrow> ctx_CheckDevicePermission env origin device permission browser_context
      | Some h \<Rightarrow> device_script env h permission origin device)"

definition GrantDevicePermission ::
  "PermissionManager \<Rightarrow> PermissionType \<Rightarrow> string \<Rightarrow> device \<Rightarrow> DevicePermissionMap \<Rightarrow> DevicePermissionMap" where
  "GrantDevicePermission pm permission origin device browser_context =
     (if device_permission_handler pm = None then ctx_GrantDevicePermission origin device permission browser_context
      else browser_context)"

definition RevokeDevicePermission ::
  "dev_env \<Rightarrow> PermissionType \<Rightarrow> string \<Rightarrow> device \<Rightarrow> DevicePermissionMap \<Rightarrow> DevicePermissionMap" where
  "RevokeDevicePermission env permission origin device browser_context =
     ctx_RevokeDevicePermission env origin device permission browser_context"

section \<open>Human interface devices\<close>

record HidDeviceInfo =
  hid_guid :: string
  physical_device_id :: string
  hid_vendor_id :: int
  hid_product_id :: int
  product_name :: string
  hid_serial_number :: string
  is_excluded_by_blocklist :: bool

datatype hid_effect =
  HidDeviceRevoked HidDeviceInfo string
  | HidAdded HidDeviceInfo | HidRemoved HidDeviceInfo | HidChanged HidDeviceInfo | HidConnectionError
  | PostDevices nat "HidDeviceInfo list"
  | RunDevices nat "HidDeviceInfo list"
  | BindHidManager

text \<open>The map \<open>devices_\<close> is an association list, a set of guids a list without repetitions; their order is
  not that of the keys.\<close>

record HidChooserContext =
  hid_initialized :: bool
  pending_get_devices :: "nat list"
  ephemeral_devices :: "string \<rightharpoonup> string list"
  hid_devices :: "(string \<times> HidDeviceInfo) list"
  hid_connected :: bool
  granted :: DevicePermissionMap
  has_session :: bool
  hid_effects :: "hid_effect list"

definition hid_emit :: "hid_effect list \<Rightarrow> HidChooserContext \<Rightarrow> HidChooserContext" where
  "hid_emit es st = st\<lparr>hid_effects := hid_effects st @ es\<rparr>"

definition DisplayNameFromDeviceInfo :: "dev_env \<Rightarrow> HidDeviceInfo \<Rightarrow> string" where
  "DisplayNameFromDeviceInfo env device =
     (if product_name device = [] then hid_name_of_ids env (hid_vendor_id device) (hid_product_id device)
      else lossy_utf8 env (product_name device))"

definition hid_CanStorePersistentEntry :: "HidDeviceInfo \<Rightarrow> bool" where
  "hid_CanStorePersistentEntry device \<longleftrightarrow> hid_serial_number device \<noteq> [] \<and> product_name device \<noteq> []"

definition DeviceInfoToValue :: "dev_env \<Rightarrow> HidDeviceInfo \<Rightarrow> device" where
  "DeviceInfoToValue env device =
     (let v = [''name'' \<mapsto> FStr (DisplayNameFromDeviceInfo env device), ''vendorId'' \<mapsto> FInt (hid_vendor_id device),
               ''productId'' \<mapsto> FInt (hid_product_id device)]
      in if hid_CanStorePersistentEntry device then v(''serialNumber'' \<mapsto> FStr (hid_serial_number device))
         else v(''guid'' \<mapsto> FStr (hid_guid device)))"

definition hid_GrantDevicePermission ::
  "dev_env \<Rightarrow> PermissionManager \<Rightarrow> string \<Rightarrow> HidDeviceInfo \<Rightarrow> HidChooserContext \<Rightarrow> HidChooserContext" where
  "hid_GrantDevicePermission env pm origin device st =
     (if hid_CanStorePersistentEntry device
      then st\<lparr>granted := GrantDevicePermission pm HID origin (DeviceInfoToValue env device) (granted st)\<rparr>
      else st\<lparr>ephemeral_devices := (ephemeral_devices st)(origin \<mapsto>
             List.insert (hid_guid device) (case ephemeral_devices st origin of Some gs \<Rightarrow> gs | None \<Rightarrow> []))\<rparr>)"

text \<open>The loop over the guids of an origin: \<open>kept\<close> are those passed, the list those to come. A guid
  without a device dereferences a null pointer. When the last guid is erased the set itself is
  erased, and the loop goes on to compare with its end.\<close>

fun revoke_loop :: "(string \<times> HidDeviceInfo) list \<Rightarrow> string \<Rightarrow> string list \<Rightarrow> string list \<Rightarrow> string list option" where
  "revoke_loop devices pid kept [] = Some kept"
| "revoke_loop devices pid kept (guid # guids) =
     (case map_of devices guid of
        None \<Rightarrow> None
      | Some d \<Rightarrow>
          if physical_device_id d \<noteq> pid then revoke_loop devices pid (kept @ [guid]) guids
          else if kept @ guids = [] then None
          else revoke_loop devices pid kept guids)"

definition RevokeEphemeralDevicePermission :: "string \<Rightarrow> HidDeviceInfo \<Rightarrow> HidChooserContext \<Rightarrow> HidChooserContext option" where
  "RevokeEphemeralDevicePermission origin device st =
     (case ephemeral_devices st origin of
        None \<Rightarrow> Some st
      | Some guids \<Rightarrow> map_option (\<lambda>gs. st\<lparr>ephemeral_devices := (ephemeral_devices st)(origin \<mapsto> gs)\<rparr>)
                        (revoke_loop (hid_devices st) (physical_device_id device) [] guids))"

definition RevokePersistentDevicePermission :: "dev_env \<Rightarrow> string \<Rightarrow> HidDeviceInfo \<Rightarrow> HidChooserContext \<Rightarrow> HidChooserContext option" where
  "RevokePersistentDevicePermission env origin device st =
     RevokeEphemeralDevicePermission origin device
       (st\<lparr>granted := RevokeDevicePermission env HID origin (DeviceInfoToValue env device) (granted st)\<rparr>)"

definition hid_RevokeDevicePermission :: "dev_env \<Rightarrow> string \<Rightarrow> HidDeviceInfo \<Rightarrow> HidChooserContext \<Rightarrow> HidChooserContext option" where
  "hid_RevokeDevicePermission env origin device st = do {
     st1 \<leftarrow> (if hid_CanStorePersistentEntry device then RevokePersistentDevicePermission env origin device st
             else RevokeEphemeralDevicePermission origin device st);
     Some (if has_session st1 then hid_emit [HidDeviceRevoked device origin] st1 else st1) }"

definition HasDevicePermission ::
  "dev_env \<Rightarrow> PermissionManager \<Rightarrow> string \<Rightarrow> HidDeviceInfo \<Rightarrow> HidChooserContext \<Rightarrow> bool" where
  "HasDevicePermission env pm origin device st =
     (if \<not> disable_hid_blocklist env \<and> is_excluded_by_blocklist device then False
      else if (case ephemeral_devices st origin of Some gs \<Rightarrow> hid_guid device \<in> set gs | None \<Rightarrow> False) then True
      else CheckDevicePermission env pm HID origin (DeviceInfoToValue env device) (granted st))"

text \<open>Connecting asks for the devices; the answer comes to \<open>InitDeviceList\<close>.\<close>

definition EnsureHidManagerConnection :: "HidChooserContext \<Rightarrow> HidChooserContext" where
  "EnsureHidManagerConnection st =
     (if hid_connected st then st else hid_emit [BindHidManager] (st\<lparr>hid_connected := True\<rparr>))"

definition GetDevices :: "nat \<Rightarrow> HidChooserContext \<Rightarrow> HidChooserContext" where
  "GetDevices callback st =
     (if \<not> hid_initialized st
      then let st1 = EnsureHidManagerConnection st in st1\<lparr>pending_get_devices := pending_get_devices st1 @ [callback]\<rparr>
      else hid_emit [PostDevices callback (map snd (hid_devices st))] st)"

definition GetDeviceInfo :: "string \<Rightarrow> HidChooserContext \<Rightarrow> HidDeviceInfo option" where
  "GetDeviceInfo guid st = map_of (hid_devices st) guid"

text \<open>\<open>std::map::insert\<close> keeps an entry that is there.\<close>

definition hid_insert :: "HidDeviceInfo \<Rightarrow> (string \<times> HidDeviceInfo) list \<Rightarrow> (string \<times> HidDeviceInfo) list" where
  "hid_insert d ds = (if map_of ds (hid_guid d) = None then ds @ [(hid_guid d, d)] else ds)"

definition DeviceAdded :: "HidDeviceInfo \<Rightarrow> HidChooserContext \<Rightarrow> HidChooserContext" where
  "DeviceAdded device st = hid_emit [HidAdded device] (st\<lparr>hid_devices := hid_insert device (hid_devices st)\<rparr>)"

definition DeviceRemoved :: "HidDeviceInfo \<Rightarrow> HidChooserContext \<Rightarrow> HidChooserContext" where
  "DeviceRemoved device st =
     (let st1 = hid_emit [HidRemoved device] (st\<lparr>hid_devices := filter (\<lambda>p. fst p \<noteq> hid_guid device) (hid_devices st)\<rparr>)
      in if hid_CanStorePersistentEntry device then st1
         else st1\<lparr>ephemeral_devices := (\<lambda>origin. map_option (removeAll (hid_guid device)) (ephemeral_devices st1 origin))\<rparr>)"

definition DeviceChanged :: "HidDeviceInfo \<Rightarrow> HidChooserContext \<Rightarrow> HidChooserContext" where
  "DeviceChanged device st =
     hid_emit [HidChanged device]
       (st\<lparr>hid_devices := (if map_of (hid_devices st) (hid_guid device) = None then hid_devices st @ [(hid_guid device, device)]
                           else map (\<lambda>p. if fst p = hid_guid device then (hid_guid device, device) else p) (hid_devices st))\<rparr>)"

definition InitDeviceList :: "HidDeviceInfo list \<Rightarrow> HidChooserContext \<Rightarrow> HidChooserContext" where
  "InitDeviceList devices st =
     (let ds = fold hid_insert devices (hid_devices st)
      in hid_emit (map (\<lambda>cb. RunDevices cb (map snd ds)) (pending_get_devices st))
           (st\<lparr>hid_devices := ds, hid_initialized := True, pending_get_devices := []\<rparr>))"

definition OnHidManagerConnectionError :: "HidChooserContext \<Rightarrow> HidChooserContext" where
  "OnHidManagerConnectionError st =
     hid_emit [HidConnectionError] (st\<lparr>hid_connected := False, hid_devices := [], ephemeral_devices := Map.empty\<rparr>)"

section \<open>Serial ports\<close>

record SerialPortInfo =
  display_name :: "string option"
  port_path :: string
  port_token :: nat
  device_instance_id :: string
  has_vendor_id :: bool
  port_vendor_id :: int
  has_product_id :: bool
  port_product_id :: int
  port_serial_number :: "string option"
  usb_driver_name :: "string option"

definition serial_CanStorePersistentEntry :: "dev_env \<Rightarrow> SerialPortInfo \<Rightarrow> bool" where
  "serial_CanStorePersistentEntry env port =
     (if display_name port = None \<or> display_name port = Some [] then False
      else if build env = Windows then device_instance_id port \<noteq> []
      else if \<not> has_vendor_id port \<or> \<not> has_product_id port \<or> port_serial_number port = None \<or> port_serial_number port = Some [] then False
      else if build env = Mac \<and> (usb_driver_name port = None \<or> usb_driver_name port = Some []) then False
      else True)"

definition PortInfoToValue :: "dev_env \<Rightarrow> SerialPortInfo \<Rightarrow> device" where
  "PortInfoToValue env port =
     (let v = [''name'' \<mapsto> FStr (case display_name port of Some n \<Rightarrow> if n \<noteq> [] then n else port_path port | None \<Rightarrow> port_path port)]
      in if \<not> serial_CanStorePersistentEntry env port then v(''token'' \<mapsto> FStr (encode_token env (port_token port)))
         else if build env = Windows then v(''device_instance_id'' \<mapsto> FStr (device_instance_id port))
         else let v1 = v(''vendor_id'' \<mapsto> FInt (port_vendor_id port), ''product_id'' \<mapsto> FInt (port_product_id port),
                         ''serial_number'' \<mapsto> FStr (the (port_serial_number port)))
              in if build env = Mac then v1(''usb_driver'' \<mapsto> FStr (the (usb_driver_name port))) else v1)"

definition GrantPortPermission ::
  "dev_env \<Rightarrow> PermissionManager \<Rightarrow> string \<Rightarrow> SerialPortInfo \<Rightarrow> DevicePermissionMap \<Rightarrow> DevicePermissionMap" where
  "GrantPortPermission env pm origin port ctx = GrantDevicePermission pm SERIAL origin (PortInfoToValue env port) ctx"

definition HasPortPermission ::
  "dev_env \<Rightarrow> PermissionManager \<Rightarrow> string \<Rightarrow> SerialPortInfo \<Rightarrow> DevicePermissionMap \<Rightarrow> bool" where
  "HasPortPermission env pm origin port ctx = CheckDevicePermission env pm SERIAL origin (PortInfoToValue env port) ctx"

text \<open>A page that gives up a port changes nothing.\<close>

definition RevokePortPermissionWebInitiated :: "string \<Rightarrow> nat \<Rightarrow> DevicePermissionMap \<Rightarrow> DevicePermissionMap" where
  "RevokePortPermissionWebInitiated origin token ctx = ctx"


section \<open>What is permitted\<close>

datatype device_op = Grant string device PermissionType | Revoke string device PermissionType

text \<open>A grant in a history that no later revocation takes back.\<close>

definition survives :: "(device \<Rightarrow> device \<Rightarrow> PermissionType \<Rightarrow> bool) \<Rightarrow> string \<Rightarrow> PermissionType \<Rightarrow> device \<Rightarrow> device_op list \<Rightarrow> bool" where
  "survives matches origin t e ops \<longleftrightarrow>
     (\<exists>ops1 ops2. ops = ops1 @ Grant origin e t # ops2 \<and> (\<forall>d. Revoke origin d t \<in> set ops2 \<longrightarrow> \<not> matches d e t))"

lemma survives_Nil [simp]: "\<not> survives matches origin t e []"
  by (simp add: survives_def)

lemma survives_snoc:
  "survives matches origin t e (ops @ [p]) \<longleftrightarrow>
     p = Grant origin e t \<or> survives matches origin t e ops \<and> (\<forall>d. p = Revoke origin d t \<longrightarrow> \<not> matches d e t)"
proof
  assume "survives matches origin t e (ops @ [p])"
  then obtain ops1 ops2 where o: "ops @ [p] = ops1 @ Grant origin e t # ops2" "\<forall>d. Revoke origin d t \<in> set ops2 \<longrightarrow> \<not> matches d e t"
    unfolding survives_def by blast
  show "p = Grant origin e t \<or> survives matches origin t e ops \<and> (\<forall>d. p = Revoke origin d t \<longrightarrow> \<not> matches d e t)"
  proof (cases ops2 rule: rev_cases)
    case Nil
    then show ?thesis using o(1) by simp
  next
    case (snoc r q)
    then have "ops = ops1 @ Grant origin e t # r" "q = p" using o(1) by simp_all
    then show ?thesis using o(2) snoc unfolding survives_def by auto
  qed
next
  assume "p = Grant origin e t \<or> survives matches origin t e ops \<and> (\<forall>d. p = Revoke origin d t \<longrightarrow> \<not> matches d e t)"
  then show "survives matches origin t e (ops @ [p])"
  proof (elim disjE conjE)
    assume "p = Grant origin e t"
    then have "ops @ [p] = ops @ Grant origin e t # []" by simp
    then show ?thesis unfolding survives_def by (metis empty_iff list.set(1))
  next
    assume "survives matches origin t e ops" and r: "\<forall>d. p = Revoke origin d t \<longrightarrow> \<not> matches d e t"
    then obtain ops1 ops2 where o: "ops = ops1 @ Grant origin e t # ops2" "\<forall>d. Revoke origin d t \<in> set ops2 \<longrightarrow> \<not> matches d e t"
      unfolding survives_def by blast
    have "ops @ [p] = ops1 @ Grant origin e t # (ops2 @ [p])" "\<forall>d. Revoke origin d t \<in> set (ops2 @ [p]) \<longrightarrow> \<not> matches d e t"
      using o r by auto
    then show ?thesis unfolding survives_def by blast
  qed
qed

text \<open>The interface of a store of grants: a list of devices for each origin and type.\<close>

locale grant_store =
  fixes stored :: "string \<Rightarrow> PermissionType \<Rightarrow> 's \<Rightarrow> device list"
    and grant revoke :: "string \<Rightarrow> device \<Rightarrow> PermissionType \<Rightarrow> 's \<Rightarrow> 's"
    and matches :: "device \<Rightarrow> device \<Rightarrow> PermissionType \<Rightarrow> bool"
  assumes stored_grant: "stored origin t (grant o1 d t1 s) = stored origin t s @ (if origin = o1 \<and> t = t1 then [d] else [])"
    and stored_revoke: "stored origin t (revoke o1 d t1 s) =
      (if origin = o1 \<and> t = t1 then filter (\<lambda>e. \<not> matches d e t) (stored origin t s) else stored origin t s)"
begin

lemma stored_history:
  assumes "stored origin t s = []"
  shows "e \<in> set (stored origin t (fold (\<lambda>p. case p of Grant o1 d t1 \<Rightarrow> grant o1 d t1 | Revoke o1 d t1 \<Rightarrow> revoke o1 d t1) ops s)) \<longleftrightarrow>
    survives matches origin t e ops"
proof (induction ops rule: rev_induct)
  case Nil
  then show ?case using assms by simp
next
  case (snoc p ops)
  then show ?case by (cases p) (auto simp: survives_snoc stored_grant stored_revoke)
qed

end

definition stored_devices :: "string \<Rightarrow> PermissionType \<Rightarrow> DevicePermissionMap \<Rightarrow> device list" where
  "stored_devices origin t m = (case m t of Some origins \<Rightarrow> (case origins origin of Some ds \<Rightarrow> ds | None \<Rightarrow> []) | None \<Rightarrow> [])"

interpretation ctx: grant_store stored_devices ctx_GrantDevicePermission "ctx_RevokeDevicePermission env" "DoesDeviceMatch env"
  by unfold_locales
    (auto simp: stored_devices_def ctx_GrantDevicePermission_def ctx_RevokeDevicePermission_def Let_def split: option.splits)

lemma Check_stored: "ctx_CheckDevicePermission env origin d t m \<longleftrightarrow> (\<exists>e \<in> set (stored_devices origin t m). DoesDeviceMatch env d e t)"
  by (auto simp: ctx_CheckDevicePermission_def stored_devices_def list_ex_iff split: option.splits)

fun run_device_op :: "dev_env \<Rightarrow> PermissionManager \<Rightarrow> device_op \<Rightarrow> DevicePermissionMap \<Rightarrow> DevicePermissionMap" where
  "run_device_op env pm (Grant origin d t) m = GrantDevicePermission pm t origin d m"
| "run_device_op env pm (Revoke origin d t) m = RevokeDevicePermission env t origin d m"

text \<open>C21: what a page may use. After any grants and revocations, without a handler of the application, an
  origin has a permission for a device exactly when a device that the given one matches was granted to
  this origin and of this type, and no later revocation for this origin and type matched it.\<close>

theorem device_permission_history:
  assumes "device_permission_handler pm = None"
  shows "CheckDevicePermission env pm t origin d (fold (run_device_op env pm) ops (\<lambda>t. None)) \<longleftrightarrow>
    (\<exists>ops1 e ops2. ops = ops1 @ Grant origin e t # ops2 \<and> DoesDeviceMatch env d e t \<and>
       (\<forall>r. Revoke origin r t \<in> set ops2 \<longrightarrow> \<not> DoesDeviceMatch env r e t))"
proof -
  have step: "run_device_op env pm = (\<lambda>p. case p of Grant o1 d t1 \<Rightarrow> ctx_GrantDevicePermission o1 d t1 | Revoke o1 d t1 \<Rightarrow> ctx_RevokeDevicePermission env o1 d t1)"
    using assms by (auto simp: fun_eq_iff GrantDevicePermission_def RevokeDevicePermission_def split: device_op.split)
  have "stored_devices origin t (\<lambda>t. None) = []" by (simp add: stored_devices_def)
  from ctx.stored_history [where env = env, OF this] show ?thesis
    using assms unfolding step CheckDevicePermission_def by (simp add: Check_stored Bex_def survives_def) blast
qed

text \<open>A device with a serial number and a name that is granted to a page is permitted to it, and no
  longer when it is revoked.\<close>

theorem hid_grant_revoke:
  assumes "device_permission_handler pm = None" "hid_CanStorePersistentEntry d" "disable_hid_blocklist env \<or> \<not> is_excluded_by_blocklist d"
    "ephemeral_devices st origin = None"
  shows "HasDevicePermission env pm origin d (hid_GrantDevicePermission env pm origin d st) \<and>
    (\<exists>st'. hid_RevokeDevicePermission env origin d (hid_GrantDevicePermission env pm origin d st) = Some st' \<and>
       \<not> HasDevicePermission env pm origin d st')"
proof -
  let ?v = "DeviceInfoToValue env d"
  have self: "DoesDeviceMatch env ?v ?v HID" using assms(2) by (simp add: DoesDeviceMatch_def DeviceInfoToValue_def FindString_def Let_def)
  let ?st = "hid_GrantDevicePermission env pm origin d st"
  have st: "granted ?st = ctx_GrantDevicePermission origin ?v HID (granted st)" "ephemeral_devices ?st origin = None"
    using assms by (auto simp: hid_GrantDevicePermission_def GrantDevicePermission_def)
  have has: "HasDevicePermission env pm origin d ?st"
    using st self assms(1,3) by (auto simp: HasDevicePermission_def CheckDevicePermission_def Check_stored ctx.stored_grant)
  let ?st2 = "?st\<lparr>granted := ctx_RevokeDevicePermission env origin ?v HID (granted ?st)\<rparr>"
  have r: "hid_RevokeDevicePermission env origin d ?st =
      Some (if has_session ?st then hid_emit [HidDeviceRevoked d origin] ?st2 else ?st2)"
    using st(2) assms(2) by (simp add: hid_RevokeDevicePermission_def RevokePersistentDevicePermission_def RevokeEphemeralDevicePermission_def RevokeDevicePermission_def)
  have "\<not> HasDevicePermission env pm origin d (if has_session ?st then hid_emit [HidDeviceRevoked d origin] ?st2 else ?st2)"
    using st(2) assms(1) by (auto simp: HasDevicePermission_def CheckDevicePermission_def Check_stored ctx.stored_revoke hid_emit_def)
  then show ?thesis using has r by blast
qed

text \<open>Revoking the only permission of a page for devices without a serial number is undefined: the
  set of its devices is erased while the loop over it goes on.\<close>

theorem revoke_last_ephemeral:
  assumes "\<not> hid_CanStorePersistentEntry d" "ephemeral_devices st origin = None" "map_of (hid_devices st) (hid_guid d) = Some d"
  shows "hid_RevokeDevicePermission env origin d (hid_GrantDevicePermission env pm origin d st) = None"
  using assms by (simp add: hid_RevokeDevicePermission_def hid_GrantDevicePermission_def RevokeEphemeralDevicePermission_def List.insert_def)

text \<open>On Mac and Linux a permission for one serial port that has no stable identity (no display name, no
  serial number) is a permission for all such ports: the values of two of them have none of the
  fields that are compared, and the token is not.\<close>

theorem serial_grant_is_for_all:
  assumes "build env \<noteq> Windows" "device_permission_handler pm = None"
    "\<not> serial_CanStorePersistentEntry env p" "\<not> serial_CanStorePersistentEntry env q"
  shows "HasPortPermission env pm origin q (GrantPortPermission env pm origin p ctx)"
proof -
  have "DoesDeviceMatch env (PortInfoToValue env q) (PortInfoToValue env p) SERIAL"
    using assms(1,3,4) by (simp add: DoesDeviceMatch_def PortInfoToValue_def FindInt_def FindString_def Let_def)
  then show ?thesis
    using assms(2) by (auto simp: HasPortPermission_def GrantPortPermission_def CheckDevicePermission_def GrantDevicePermission_def Check_stored ctx.stored_grant)
qed

text \<open>After the connection to the service is lost the context still counts as initialised: it answers with
  no devices and does not connect again.\<close>

lemma GetDevices_after_error:
  assumes "hid_initialized st"
  shows "GetDevices cb (OnHidManagerConnectionError st) = hid_emit [PostDevices cb []] (OnHidManagerConnectionError st) \<and>
    \<not> hid_connected (GetDevices cb (OnHidManagerConnectionError st))"
  using assms by (simp add: GetDevices_def OnHidManagerConnectionError_def hid_emit_def)

section \<open>Witnesses\<close>

definition sample_dev_env :: dev_env where
  "sample_dev_env = \<lparr>build = Linux, device_script = (\<lambda>h t origin d. False), hid_name_of_ids = (\<lambda>v p. ''HID''), lossy_utf8 = (\<lambda>t. t),
     encode_token = (\<lambda>n. replicate n CHR ''A''), disable_hid_blocklist = False\<rparr>"

definition sample_keyboard :: HidDeviceInfo where
  "sample_keyboard = \<lparr>hid_guid = ''g1'', physical_device_id = ''usb1'', hid_vendor_id = 1, hid_product_id = 2, product_name = ''keys'',
     hid_serial_number = ''s1'', is_excluded_by_blocklist = False\<rparr>"

definition sample_stick :: HidDeviceInfo where
  "sample_stick = sample_keyboard\<lparr>hid_guid := ''g2'', hid_serial_number := []\<rparr>"

definition sample_hid :: HidChooserContext where
  "sample_hid = \<lparr>hid_initialized = True, pending_get_devices = [], ephemeral_devices = Map.empty,
     hid_devices = [(''g1'', sample_keyboard), (''g2'', sample_stick)], hid_connected = True, granted = (\<lambda>t. None), has_session = False, hid_effects = []\<rparr>"

definition sample_port :: "nat \<Rightarrow> SerialPortInfo" where
  "sample_port n = \<lparr>display_name = None, port_path = ''/dev/ttyS'', port_token = n, device_instance_id = [], has_vendor_id = False, port_vendor_id = 0,
     has_product_id = False, port_product_id = 0, port_serial_number = None, usb_driver_name = None\<rparr>"

lemma no_device_handler: "device_permission_handler PermissionManager_init = None"
  by (simp add: PermissionManager_init_def)

theorem device_permission_history_witness:
  "let d = DeviceInfoToValue sample_dev_env sample_keyboard in
   \<not> CheckDevicePermission sample_dev_env PermissionManager_init HID ''a'' d
       (fold (run_device_op sample_dev_env PermissionManager_init) [Grant ''b'' d HID, Grant ''a'' d SERIAL] (\<lambda>t. None))"
  unfolding Let_def device_permission_history [OF no_device_handler]
  by (auto simp: Cons_eq_append_conv)

theorem hid_grant_revoke_witness:
  "\<exists>st'. hid_RevokeDevicePermission sample_dev_env ''a'' sample_keyboard
     (hid_GrantDevicePermission sample_dev_env PermissionManager_init ''a'' sample_keyboard sample_hid) = Some st' \<and>
   \<not> HasDevicePermission sample_dev_env PermissionManager_init ''a'' sample_keyboard st'"
  using hid_grant_revoke [OF no_device_handler, of sample_keyboard sample_dev_env sample_hid "''a''"]
  by (simp add: hid_CanStorePersistentEntry_def sample_keyboard_def sample_hid_def)

theorem revoke_last_ephemeral_witness:
  "hid_RevokeDevicePermission sample_dev_env ''a'' sample_stick
     (hid_GrantDevicePermission sample_dev_env PermissionManager_init ''a'' sample_stick sample_hid) = None"
  by (rule revoke_last_ephemeral) (simp_all add: hid_CanStorePersistentEntry_def sample_stick_def sample_keyboard_def sample_hid_def)

theorem serial_grant_is_for_all_witness:
  "HasPortPermission sample_dev_env PermissionManager_init ''a'' (sample_port 2)
     (GrantPortPermission sample_dev_env PermissionManager_init ''a'' (sample_port 1) (\<lambda>t. None))"
  by (rule serial_grant_is_for_all) (simp_all add: sample_dev_env_def no_device_handler serial_CanStorePersistentEntry_def sample_port_def)

end
