(* ===== verification/Accelerators.thy ===== *)
theory Accelerators
  imports Prelude "HOL-Library.Multiset"
begin

text \<open>
  Keyboard shortcuts: shell/common/keyboard\_util.cc reads the name of a key,
  shell/browser/ui/accelerator\_util.cc reads a shortcut such as \<open>Ctrl+Shift+A\<close> and keeps the table of the
  shortcuts of a menu, shell/browser/api/electron\_api\_global\_shortcut.cc registers shortcuts of the
  whole system. The string functions of Chromium, the delegate of a menu and the listener for the
  keys of the system are parameters. Key codes carry the names of their enumerators.
\<close>

section \<open>Keys\<close>

datatype KeyboardCode = VKEY string | VKEY_F int

abbreviation VKEY_UNKNOWN :: KeyboardCode where "VKEY_UNKNOWN \<equiv> VKEY ''UNKNOWN''"

record str_ops =
  ToLowerASCII :: "string \<Rightarrow> string"
  StringToInt :: "string \<Rightarrow> int option"
  IsStringASCII :: "string \<Rightarrow> bool"
  SplitTokens :: "string \<Rightarrow> string list"
  str_mac :: bool

text \<open>The names of \<open>KeyboardCodeFromKeyIdentifier\<close>, in the order of its tests.\<close>

definition key_identifiers :: "bool \<Rightarrow> (string \<times> KeyboardCode) list" where
  "key_identifiers mac = [
     (''ctrl'', VKEY ''CONTROL''), (''control'', VKEY ''CONTROL''), (''super'', VKEY ''COMMAND''),
     (''cmd'', VKEY ''COMMAND''), (''command'', VKEY ''COMMAND''), (''meta'', VKEY ''COMMAND''),
     (''commandorcontrol'', if mac then VKEY ''COMMAND'' else VKEY ''CONTROL''),
     (''cmdorctrl'', if mac then VKEY ''COMMAND'' else VKEY ''CONTROL''), (''alt'', VKEY ''MENU''),
     (''option'', VKEY ''MENU''), (''shift'', VKEY ''SHIFT''), (''altgr'', VKEY ''ALTGR''),
     (''plus'', VKEY ''OEM_PLUS''), (''capslock'', VKEY ''CAPITAL''), (''numlock'', VKEY ''NUMLOCK''),
     (''scrolllock'', VKEY ''SCROLL''), (''tab'', VKEY ''TAB''), (''num0'', VKEY ''NUMPAD0''),
     (''num1'', VKEY ''NUMPAD1''), (''num2'', VKEY ''NUMPAD2''), (''num3'', VKEY ''NUMPAD3''),
     (''num4'', VKEY ''NUMPAD4''), (''num5'', VKEY ''NUMPAD5''), (''num6'', VKEY ''NUMPAD6''),
     (''num7'', VKEY ''NUMPAD7''), (''num8'', VKEY ''NUMPAD8''), (''num9'', VKEY ''NUMPAD9''),
     (''numadd'', VKEY ''ADD''), (''nummult'', VKEY ''MULTIPLY''), (''numdec'', VKEY ''DECIMAL''),
     (''numsub'', VKEY ''SUBTRACT''), (''numdiv'', VKEY ''DIVIDE''), (''space'', VKEY ''SPACE''),
     (''backspace'', VKEY ''BACK''), (''delete'', VKEY ''DELETE''), (''insert'', VKEY ''INSERT''),
     (''enter'', VKEY ''RETURN''), (''return'', VKEY ''RETURN''), (''up'', VKEY ''UP''),
     (''down'', VKEY ''DOWN''), (''left'', VKEY ''LEFT''), (''right'', VKEY ''RIGHT''),
     (''home'', VKEY ''HOME''), (''end'', VKEY ''END''), (''pageup'', VKEY ''PRIOR''),
     (''pagedown'', VKEY ''NEXT''), (''esc'', VKEY ''ESCAPE''), (''escape'', VKEY ''ESCAPE''),
     (''volumemute'', VKEY ''VOLUME_MUTE''), (''volumeup'', VKEY ''VOLUME_UP''),
     (''volumedown'', VKEY ''VOLUME_DOWN''), (''medianexttrack'', VKEY ''MEDIA_NEXT_TRACK''),
     (''mediaprevioustrack'', VKEY ''MEDIA_PREV_TRACK''), (''mediastop'', VKEY ''MEDIA_STOP''),
     (''mediaplaypause'', VKEY ''MEDIA_PLAY_PAUSE''), (''printscreen'', VKEY ''SNAPSHOT'')]"

text \<open>The second component is the shifted character, where the key has one.\<close>

definition KeyboardCodeFromKeyIdentifier :: "str_ops \<Rightarrow> string \<Rightarrow> char option \<Rightarrow> KeyboardCode \<times> char option" where
  "KeyboardCodeFromKeyIdentifier ops s shifted_char =
     (let str = ToLowerASCII ops s
      in case map_of (key_identifiers (str_mac ops)) str of
           Some code \<Rightarrow> (code, if str = ''plus'' then Some (CHR ''+'') else shifted_char)
         | None \<Rightarrow>
             if 1 < length str \<and> str ! 0 = CHR ''f'' then
               (case StringToInt ops (tl str) of
                  Some n \<Rightarrow> (if 0 < n \<and> n < 25 then VKEY_F n else VKEY_UNKNOWN, shifted_char)
                | None \<Rightarrow> (VKEY_UNKNOWN, shifted_char))
             else (VKEY_UNKNOWN, shifted_char))"

text \<open>The cases of \<open>KeyboardCodeFromCharCode\<close>, with whether the character needs the shift key.\<close>

definition char_codes :: "(char \<times> KeyboardCode \<times> bool) list" where
  "char_codes = [
     (CHR 0x08, VKEY ''BACK'', False), (CHR 0x7F, VKEY ''DELETE'', False), (CHR 0x09, VKEY ''TAB'', False),
     (CHR 0x0D, VKEY ''RETURN'', False), (CHR 0x1B, VKEY ''ESCAPE'', False), (CHR 0x20, VKEY ''SPACE'', False),
     (CHR ''a'', VKEY ''A'', False), (CHR ''b'', VKEY ''B'', False), (CHR ''c'', VKEY ''C'', False),
     (CHR ''d'', VKEY ''D'', False), (CHR ''e'', VKEY ''E'', False), (CHR ''f'', VKEY ''F'', False),
     (CHR ''g'', VKEY ''G'', False), (CHR ''h'', VKEY ''H'', False), (CHR ''i'', VKEY ''I'', False),
     (CHR ''j'', VKEY ''J'', False), (CHR ''k'', VKEY ''K'', False), (CHR ''l'', VKEY ''L'', False),
     (CHR ''m'', VKEY ''M'', False), (CHR ''n'', VKEY ''N'', False), (CHR ''o'', VKEY ''O'', False),
     (CHR ''p'', VKEY ''P'', False), (CHR ''q'', VKEY ''Q'', False), (CHR ''r'', VKEY ''R'', False),
     (CHR ''s'', VKEY ''S'', False), (CHR ''t'', VKEY ''T'', False), (CHR ''u'', VKEY ''U'', False),
     (CHR ''v'', VKEY ''V'', False), (CHR ''w'', VKEY ''W'', False), (CHR ''x'', VKEY ''X'', False),
     (CHR ''y'', VKEY ''Y'', False), (CHR ''z'', VKEY ''Z'', False), (CHR 0x29, VKEY ''0'', True),
     (CHR ''0'', VKEY ''0'', False), (CHR 0x21, VKEY ''1'', True), (CHR ''1'', VKEY ''1'', False),
     (CHR 0x40, VKEY ''2'', True), (CHR ''2'', VKEY ''2'', False), (CHR 0x23, VKEY ''3'', True),
     (CHR ''3'', VKEY ''3'', False), (CHR 0x24, VKEY ''4'', True), (CHR ''4'', VKEY ''4'', False),
     (CHR 0x25, VKEY ''5'', True), (CHR ''5'', VKEY ''5'', False), (CHR 0x5E, VKEY ''6'', True),
     (CHR ''6'', VKEY ''6'', False), (CHR 0x26, VKEY ''7'', True), (CHR ''7'', VKEY ''7'', False),
     (CHR 0x2A, VKEY ''8'', True), (CHR ''8'', VKEY ''8'', False), (CHR 0x28, VKEY ''9'', True),
     (CHR ''9'', VKEY ''9'', False), (CHR 0x3A, VKEY ''OEM_1'', True), (CHR 0x3B, VKEY ''OEM_1'', False),
     (CHR 0x2B, VKEY ''OEM_PLUS'', True), (CHR 0x3D, VKEY ''OEM_PLUS'', False),
     (CHR 0x3C, VKEY ''OEM_COMMA'', True), (CHR 0x2C, VKEY ''OEM_COMMA'', False),
     (CHR 0x5F, VKEY ''OEM_MINUS'', True), (CHR 0x2D, VKEY ''OEM_MINUS'', False),
     (CHR 0x3E, VKEY ''OEM_PERIOD'', True), (CHR 0x2E, VKEY ''OEM_PERIOD'', False),
     (CHR 0x3F, VKEY ''OEM_2'', True), (CHR 0x2F, VKEY ''OEM_2'', False), (CHR 0x7E, VKEY ''OEM_3'', True),
     (CHR 0x60, VKEY ''OEM_3'', False), (CHR 0x7B, VKEY ''OEM_4'', True), (CHR 0x5B, VKEY ''OEM_4'', False),
     (CHR 0x7C, VKEY ''OEM_5'', True), (CHR 0x5C, VKEY ''OEM_5'', False), (CHR 0x7D, VKEY ''OEM_6'', True),
     (CHR 0x5D, VKEY ''OEM_6'', False), (CHR 0x22, VKEY ''OEM_7'', True), (CHR 0x27, VKEY ''OEM_7'', False)]"

definition KeyboardCodeFromCharCode :: "str_ops \<Rightarrow> char \<Rightarrow> KeyboardCode \<times> bool" where
  "KeyboardCodeFromCharCode ops c =
     (case map_of char_codes (hd (ToLowerASCII ops [c])) of Some r \<Rightarrow> r | None \<Rightarrow> (VKEY_UNKNOWN, False))"

definition KeyboardCodeFromStr :: "str_ops \<Rightarrow> string \<Rightarrow> char option \<Rightarrow> KeyboardCode \<times> char option" where
  "KeyboardCodeFromStr ops str shifted_char =
     (if length str = 1 then
        let (ret, shifted) = KeyboardCodeFromCharCode ops (str ! 0)
        in (ret, if shifted then Some (str ! 0) else shifted_char)
      else KeyboardCodeFromKeyIdentifier ops str shifted_char)"

section \<open>Shortcuts\<close>

datatype event_flag = EF_SHIFT_DOWN | EF_CONTROL_DOWN | EF_ALT_DOWN | EF_COMMAND_DOWN | EF_ALTGR_DOWN

record Accelerator =
  acc_key :: KeyboardCode
  acc_modifiers :: "event_flag set"
  acc_shifted_char :: "char option"

definition modifier_of :: "KeyboardCode \<Rightarrow> event_flag option" where
  "modifier_of code = map_of
     [(VKEY ''SHIFT'', EF_SHIFT_DOWN), (VKEY ''CONTROL'', EF_CONTROL_DOWN), (VKEY ''MENU'', EF_ALT_DOWN),
      (VKEY ''COMMAND'', EF_COMMAND_DOWN), (VKEY ''ALTGR'', EF_ALTGR_DOWN)] code"

fun token_loop :: "str_ops \<Rightarrow> string list \<Rightarrow> event_flag set \<Rightarrow> KeyboardCode \<Rightarrow> char option \<Rightarrow> event_flag set \<times> KeyboardCode \<times> char option" where
  "token_loop ops [] modifiers key shifted = (modifiers, key, shifted)"
| "token_loop ops (token # tokens) modifiers key shifted =
     (let (code, shifted1) = KeyboardCodeFromStr ops token shifted;
          modifiers1 = (if shifted1 \<noteq> None then insert EF_SHIFT_DOWN modifiers else modifiers)
      in case modifier_of code of
           Some flag \<Rightarrow> token_loop ops tokens (insert flag modifiers1) key shifted1
         | None \<Rightarrow> token_loop ops tokens modifiers1 code shifted1)"

definition StringToAccelerator :: "str_ops \<Rightarrow> string \<Rightarrow> Accelerator option" where
  "StringToAccelerator ops shortcut =
     (if \<not> IsStringASCII ops shortcut then None
      else let (modifiers, key, shifted) = token_loop ops (SplitTokens ops shortcut) {} VKEY_UNKNOWN None
           in if key = VKEY_UNKNOWN then None
              else Some \<lparr>acc_key = key, acc_modifiers = modifiers, acc_shifted_char = shifted\<rparr>)"

section \<open>Shortcuts of a menu\<close>

text \<open>A model is the list of its items; for an item, what the delegate says of its command. A model in
  the tree is named by the positions that lead to it.\<close>

datatype menu_item = Submenu "menu_item list" | Command bool "Accelerator option" bool

type_synonym MenuItem = "nat \<times> nat list"
type_synonym AcceleratorTable = "Accelerator \<rightharpoonup> MenuItem"

fun GenerateAcceleratorTable :: "nat list \<Rightarrow> nat \<Rightarrow> menu_item list \<Rightarrow> AcceleratorTable \<Rightarrow> AcceleratorTable" where
  "GenerateAcceleratorTable path i [] table = table"
| "GenerateAcceleratorTable path i (Submenu sub # items) table =
     GenerateAcceleratorTable path (Suc i) items (GenerateAcceleratorTable (path @ [i]) 0 sub table)"
| "GenerateAcceleratorTable path i (Command should_register accelerator enabled # items) table =
     GenerateAcceleratorTable path (Suc i) items
       (if should_register then (case accelerator of Some a \<Rightarrow> table(a \<mapsto> (i, path)) | None \<Rightarrow> table) else table)"

text \<open>The item that is activated, if any; \<open>IsEnabledAt\<close> is asked of the model.\<close>

definition TriggerAcceleratorTableCommand :: "(MenuItem \<Rightarrow> bool) \<Rightarrow> AcceleratorTable \<Rightarrow> Accelerator \<Rightarrow> MenuItem option" where
  "TriggerAcceleratorTableCommand IsEnabledAt table accelerator =
     (case table accelerator of
        None \<Rightarrow> None
      | Some item \<Rightarrow> if IsEnabledAt item then Some item else None)"

section \<open>Shortcuts of the system\<close>

record 'l shortcut_ops =
  is_ready :: bool
  ops_mac :: bool
  IsMediaKey :: "Accelerator \<Rightarrow> bool"
  UntrustedClient :: bool
  RegisterAccelerator :: "Accelerator \<Rightarrow> 'l \<Rightarrow> bool \<times> 'l"
  UnregisterAccelerator :: "Accelerator \<Rightarrow> 'l \<Rightarrow> 'l"
  UnregisterAccelerators :: "'l \<Rightarrow> 'l"

record 'l GlobalShortcut =
  accelerator_callback_map :: "Accelerator \<rightharpoonup> nat"
  listener :: 'l
  internal_media_keys :: bool

text \<open>Before the application is ready every call throws; then the result is that of the early return.\<close>

definition Register :: "'l shortcut_ops \<Rightarrow> Accelerator \<Rightarrow> nat \<Rightarrow> 'l GlobalShortcut \<Rightarrow> bool \<times> 'l GlobalShortcut" where
  "Register ops accelerator callback st =
     (if \<not> is_ready ops then (False, st)
      else if ops_mac ops \<and> IsMediaKey ops accelerator \<and> UntrustedClient ops then (False, st)
      else let st1 = (if ops_mac ops \<and> IsMediaKey ops accelerator then st\<lparr>internal_media_keys := False\<rparr> else st);
               (ok, l) = RegisterAccelerator ops accelerator (listener st1)
           in if \<not> ok then (False, st1\<lparr>listener := l\<rparr>)
              else (True, st1\<lparr>listener := l, accelerator_callback_map := (accelerator_callback_map st1)(accelerator \<mapsto> callback)\<rparr>))"

definition Unregister :: "'l shortcut_ops \<Rightarrow> Accelerator \<Rightarrow> 'l GlobalShortcut \<Rightarrow> 'l GlobalShortcut" where
  "Unregister ops accelerator st =
     (if \<not> is_ready ops then st
      else if accelerator_callback_map st accelerator = None then st
      else let m = (accelerator_callback_map st)(accelerator := None)
           in st\<lparr>accelerator_callback_map := m,
                 internal_media_keys := (if ops_mac ops \<and> IsMediaKey ops accelerator \<and> (\<forall>a \<in> dom m. \<not> IsMediaKey ops a) then True
                                         else internal_media_keys st),
                 listener := UnregisterAccelerator ops accelerator (listener st)\<rparr>)"

definition UnregisterSome :: "'l shortcut_ops \<Rightarrow> Accelerator list \<Rightarrow> 'l GlobalShortcut \<Rightarrow> 'l GlobalShortcut" where
  "UnregisterSome ops accelerators st = fold (Unregister ops) accelerators st"

fun register_loop ::
  "'l shortcut_ops \<Rightarrow> nat \<Rightarrow> Accelerator list \<Rightarrow> Accelerator list \<Rightarrow> 'l GlobalShortcut \<Rightarrow> bool \<times> 'l GlobalShortcut" where
  "register_loop ops callback registered [] st = (True, st)"
| "register_loop ops callback registered (accelerator # accelerators) st =
     (let (ok, st1) = Register ops accelerator callback st
      in if \<not> ok then (False, UnregisterSome ops registered st1)
         else register_loop ops callback (registered @ [accelerator]) accelerators st1)"

definition RegisterAll :: "'l shortcut_ops \<Rightarrow> Accelerator list \<Rightarrow> nat \<Rightarrow> 'l GlobalShortcut \<Rightarrow> bool \<times> 'l GlobalShortcut" where
  "RegisterAll ops accelerators callback st =
     (if \<not> is_ready ops then (False, st) else register_loop ops callback [] accelerators st)"

definition IsRegistered :: "Accelerator \<Rightarrow> 'l GlobalShortcut \<Rightarrow> bool" where
  "IsRegistered accelerator st \<longleftrightarrow> accelerator_callback_map st accelerator \<noteq> None"

definition UnregisterAll :: "'l shortcut_ops \<Rightarrow> 'l GlobalShortcut \<Rightarrow> 'l GlobalShortcut" where
  "UnregisterAll ops st =
     (if \<not> is_ready ops then st
      else st\<lparr>accelerator_callback_map := Map.empty, listener := UnregisterAccelerators ops (listener st)\<rparr>)"

text \<open>The callback that runs; a key that is not registered is not reached.\<close>

definition OnKeyPressed :: "Accelerator \<Rightarrow> 'l GlobalShortcut \<Rightarrow> nat option" where
  "OnKeyPressed accelerator st = accelerator_callback_map st accelerator"


section \<open>Reading a shortcut\<close>

text \<open>A token is read alone: its code, and the character it is shifted for.\<close>

definition token_code :: "str_ops \<Rightarrow> string \<Rightarrow> KeyboardCode" where
  "token_code ops token = fst (KeyboardCodeFromStr ops token None)"

definition token_shifted :: "str_ops \<Rightarrow> string \<Rightarrow> char option" where
  "token_shifted ops token = snd (KeyboardCodeFromStr ops token None)"

lemma KeyboardCodeFromStr_alone:
  "KeyboardCodeFromStr ops token sc = (token_code ops token, case token_shifted ops token of Some c \<Rightarrow> Some c | None \<Rightarrow> sc)"
  by (auto simp: token_code_def token_shifted_def KeyboardCodeFromStr_def KeyboardCodeFromKeyIdentifier_def Let_def split: option.split prod.split)

definition is_key :: "str_ops \<Rightarrow> string \<Rightarrow> bool" where
  "is_key ops token \<longleftrightarrow> modifier_of (token_code ops token) = None"

definition token_flags :: "str_ops \<Rightarrow> string \<Rightarrow> event_flag set" where
  "token_flags ops token = set_option (modifier_of (token_code ops token)) \<union> (if token_shifted ops token \<noteq> None then {EF_SHIFT_DOWN} else {})"

fun last_some :: "'a option \<Rightarrow> 'a option list \<Rightarrow> 'a option" where
  "last_some x [] = x"
| "last_some x (y # ys) = last_some (case y of Some _ \<Rightarrow> y | None \<Rightarrow> x) ys"

lemma last_some_None: "last_some x ys = None \<longleftrightarrow> x = None \<and> (\<forall>y \<in> set ys. y = None)"
  by (induction ys arbitrary: x) (auto split: option.split)

lemma token_loop_spec:
  assumes "sh \<noteq> None \<Longrightarrow> EF_SHIFT_DOWN \<in> mods"
  shows "token_loop ops tokens mods key sh =
    (mods \<union> (\<Union>t \<in> set tokens. token_flags ops t),
     last (key # map (token_code ops) (filter (is_key ops) tokens)),
     last_some sh (map (token_shifted ops) tokens))"
  using assms
proof (induction tokens arbitrary: mods key sh)
  case Nil
  then show ?case by simp
next
  case (Cons token tokens)
  show ?case
  proof (cases "modifier_of (token_code ops token)")
    case None
    then show ?thesis
      using Cons by (cases "token_shifted ops token"; cases sh) (auto simp: KeyboardCodeFromStr_alone Let_def is_key_def token_flags_def)
  next
    case (Some flag)
    then show ?thesis
      using Cons by (cases "token_shifted ops token"; cases sh) (auto simp: KeyboardCodeFromStr_alone Let_def is_key_def token_flags_def)
  qed
qed

text \<open>What a shortcut means. Its key is the last token that is no modifier, whatever came before it;
  the shortcut is refused when there is none or when that one is unknown; its flags are those of all
  its modifiers, and shift where a token is a shifted character.\<close>

lemma StringToAccelerator_spec:
  "StringToAccelerator ops s =
     (let tokens = SplitTokens ops s; keys = filter (is_key ops) tokens
      in if \<not> IsStringASCII ops s \<or> keys = [] \<or> token_code ops (last keys) = VKEY_UNKNOWN then None
         else Some \<lparr>acc_key = token_code ops (last keys), acc_modifiers = (\<Union>t \<in> set tokens. token_flags ops t),
                    acc_shifted_char = last_some None (map (token_shifted ops) tokens)\<rparr>)"
  using token_loop_spec [of None "{}" ops "SplitTokens ops s" VKEY_UNKNOWN]
  by (simp add: StringToAccelerator_def Let_def last_map)

lemma char_codes_keys: "list_all (\<lambda>(c, code, sh). modifier_of code = None) char_codes"
  by (simp add: char_codes_def modifier_of_def)

lemma shifted_is_key:
  assumes "token_shifted ops token \<noteq> None"
  shows "is_key ops token"
proof (cases "length token = 1")
  case True
  obtain code sh where r: "KeyboardCodeFromCharCode ops (token ! 0) = (code, sh)" by fastforce
  then have "map_of char_codes (hd (ToLowerASCII ops [token ! 0])) = Some (code, sh)"
    using assms True by (auto simp: token_shifted_def KeyboardCodeFromStr_def KeyboardCodeFromCharCode_def split: option.splits if_splits)
  then have "modifier_of code = None" using char_codes_keys by (auto simp: list_all_iff dest!: map_of_SomeD)
  then show ?thesis using r True by (simp add: is_key_def token_code_def KeyboardCodeFromStr_def)
next
  case False
  then have "ToLowerASCII ops token = ''plus''"
    using assms by (auto simp: token_shifted_def KeyboardCodeFromStr_def KeyboardCodeFromKeyIdentifier_def Let_def split: option.splits if_splits)
  then show ?thesis using False
    by (simp add: is_key_def token_code_def KeyboardCodeFromStr_def KeyboardCodeFromKeyIdentifier_def key_identifiers_def modifier_of_def)
qed

lemma last_some_keys:
  "last_some x (map (token_shifted ops) tokens) = last_some x (map (token_shifted ops) (filter (is_key ops) tokens))"
proof (induction tokens arbitrary: x)
  case (Cons t ts)
  then show ?case using shifted_is_key [of ops t] by (cases "token_shifted ops t") auto
qed simp

text \<open>C40: in a shortcut with one key the order of its parts does not matter.\<close>

theorem StringToAccelerator_order:
  assumes "mset (SplitTokens ops s) = mset (SplitTokens ops t)" "IsStringASCII ops s = IsStringASCII ops t"
    "filter (is_key ops) (SplitTokens ops s) = [k]"
  shows "StringToAccelerator ops s = StringToAccelerator ops t"
proof -
  have "mset (filter (is_key ops) (SplitTokens ops t)) = {#k#}" using assms(1,3) by (metis mset_filter mset_single_iff)
  then have keys: "filter (is_key ops) (SplitTokens ops t) = [k]" by (simp only: mset_single_iff)
  have "set (SplitTokens ops s) = set (SplitTokens ops t)" using assms(1) by (rule mset_eq_setD)
  then show ?thesis
    using assms(2) by (simp add: StringToAccelerator_spec assms(3) keys last_some_keys Let_def)
qed

section \<open>Registering several shortcuts\<close>

text \<open>What is relied on of the listener: it refuses a shortcut that is registered, a shortcut it accepts is
  registered from then on, and unregistering takes it back.\<close>

definition listener_ok :: "'l shortcut_ops \<Rightarrow> ('l \<Rightarrow> Accelerator set) \<Rightarrow> bool" where
  "listener_ok ops owned \<longleftrightarrow>
     (\<forall>a l. (a \<in> owned l \<longrightarrow> \<not> fst (RegisterAccelerator ops a l)) \<and>
        owned (snd (RegisterAccelerator ops a l)) = (if fst (RegisterAccelerator ops a l) then insert a (owned l) else owned l) \<and>
        owned (UnregisterAccelerator ops a l) = owned l - {a} \<and> owned (UnregisterAccelerators ops l) = {})"

definition shortcuts_ok :: "('l \<Rightarrow> Accelerator set) \<Rightarrow> 'l GlobalShortcut \<Rightarrow> bool" where
  "shortcuts_ok owned st \<longleftrightarrow> owned (listener st) = dom (accelerator_callback_map st)"

lemma Register_ok:
  assumes "listener_ok ops owned" "shortcuts_ok owned st" "Register ops a cb st = (ok, st1)"
  shows "shortcuts_ok owned st1 \<and> (if ok then accelerator_callback_map st a = None \<and>
      accelerator_callback_map st1 = (accelerator_callback_map st)(a \<mapsto> cb)
    else accelerator_callback_map st1 = accelerator_callback_map st)"
proof -
  obtain b l where r: "RegisterAccelerator ops a (listener st) = (b, l)" by fastforce
  have l: "a \<in> owned (listener st) \<longrightarrow> \<not> b" "owned l = (if b then insert a (owned (listener st)) else owned (listener st))"
    using assms(1) r unfolding listener_ok_def by (metis fst_conv, metis fst_conv snd_conv)
  show ?thesis
    using assms(2,3) r l by (auto simp: Register_def shortcuts_ok_def Let_def split: if_splits)
qed

lemma UnregisterSome_ok:
  assumes "listener_ok ops owned" "is_ready ops"
  shows "shortcuts_ok owned st \<Longrightarrow> shortcuts_ok owned (UnregisterSome ops as st) \<and>
    accelerator_callback_map (UnregisterSome ops as st) = accelerator_callback_map st |` (- set as)"
proof (induction as arbitrary: st)
  case Nil
  then show ?case by (simp add: UnregisterSome_def)
next
  case (Cons a as)
  have "shortcuts_ok owned (Unregister ops a st)" "accelerator_callback_map (Unregister ops a st) = (accelerator_callback_map st)(a := None)"
    using Cons.prems assms by (auto simp: shortcuts_ok_def Unregister_def Let_def listener_ok_def)
  then show ?case
    using Cons.IH [of "Unregister ops a st"] by (auto simp: UnregisterSome_def restrict_map_def fun_eq_iff)
qed

lemma register_loop_ok:
  assumes "listener_ok ops owned" "is_ready ops"
  shows "shortcuts_ok owned st \<Longrightarrow> set registered \<inter> dom m = {} \<Longrightarrow>
    accelerator_callback_map st = m ++ (\<lambda>a. if a \<in> set registered then Some cb else None) \<Longrightarrow>
    register_loop ops cb registered as st = (ok, st') \<Longrightarrow>
    shortcuts_ok owned st' \<and>
    accelerator_callback_map st' = (if ok then m ++ (\<lambda>a. if a \<in> set registered \<union> set as then Some cb else None) else m)"
proof (induction as arbitrary: registered st)
  case Nil
  then show ?case by simp
next
  case (Cons a as)
  obtain b st1 where r: "Register ops a cb st = (b, st1)" by fastforce
  note reg = Register_ok [OF assms(1) Cons.prems(1) r]
  show ?case
  proof (cases b)
    case False
    then have st': "st' = UnregisterSome ops registered st1" "\<not> ok" using Cons.prems(4) r by auto
    have "m x = None" if "x \<in> set registered" for x using Cons.prems(2) that by blast
    then have "(m ++ (\<lambda>a. if a \<in> set registered then Some cb else None)) |` (- set registered) = m"
      by (auto simp: fun_eq_iff restrict_map_def map_add_def)
    then show ?thesis
      using UnregisterSome_ok [OF assms, of st1 registered] reg False st' Cons.prems(3) by auto
  next
    case True
    then have new: "m a = None" "accelerator_callback_map st1 = m ++ (\<lambda>x. if x \<in> set (registered @ [a]) then Some cb else None)"
      using reg Cons.prems(3) by (auto simp: map_add_def fun_eq_iff split: option.splits if_splits)
    have "set (registered @ [a]) \<inter> dom m = {}" using Cons.prems(2) new(1) by auto
    then show ?thesis
      using Cons.IH [of st1 "registered @ [a]"] reg True new(2) Cons.prems(4) r by (simp add: Un_commute insert_commute)
  qed
qed

text \<open>Registering several shortcuts registers all of them or none, and the listener knows exactly the
  shortcuts that have a callback.\<close>

theorem RegisterAll_atomic:
  assumes "listener_ok ops owned" "is_ready ops" "shortcuts_ok owned st" "RegisterAll ops as cb st = (ok, st')"
  shows "shortcuts_ok owned st' \<and> accelerator_callback_map st' =
    (if ok then accelerator_callback_map st ++ (\<lambda>a. if a \<in> set as then Some cb else None) else accelerator_callback_map st)"
  using register_loop_ok [OF assms(1-3), of "[]" "accelerator_callback_map st"] assms(2,4)
  by (simp add: RegisterAll_def map_add_def)

text \<open>On Mac the last media key that is unregistered gives the media keys back to the system, but not when
  all shortcuts are unregistered at once.\<close>

lemma UnregisterAll_media_keys:
  "internal_media_keys (UnregisterAll ops st) = internal_media_keys st"
  by (simp add: UnregisterAll_def)

section \<open>Witnesses\<close>

text \<open>String functions that know two ways to write one shortcut, and a listener that is the list of what is
  registered.\<close>

definition sample_strings :: str_ops where
  "sample_strings = \<lparr>ToLowerASCII = map (\<lambda>c. if c = CHR ''C'' then CHR ''c'' else if c = CHR ''S'' then CHR ''s'' else c),
     StringToInt = (\<lambda>s. None), IsStringASCII = (\<lambda>s. True),
     SplitTokens = (\<lambda>s. if s = ''Ctrl+Shift+x'' then [''Ctrl'', ''Shift'', ''x''] else if s = ''x+Shift+Ctrl'' then [''x'', ''Shift'', ''Ctrl''] else [s]),
     str_mac = False\<rparr>"

theorem StringToAccelerator_order_witness:
  "StringToAccelerator sample_strings ''Ctrl+Shift+x'' = StringToAccelerator sample_strings ''x+Shift+Ctrl''"
proof -
  have k: "is_key sample_strings ''x''" "\<not> is_key sample_strings ''Ctrl''" "\<not> is_key sample_strings ''Shift''"
    by (simp_all add: is_key_def token_code_def KeyboardCodeFromStr_def KeyboardCodeFromCharCode_def KeyboardCodeFromKeyIdentifier_def
        key_identifiers_def char_codes_def modifier_of_def sample_strings_def)
  show ?thesis
  proof (rule StringToAccelerator_order)
    show "mset (SplitTokens sample_strings ''Ctrl+Shift+x'') = mset (SplitTokens sample_strings ''x+Shift+Ctrl'')"
      "IsStringASCII sample_strings ''Ctrl+Shift+x'' = IsStringASCII sample_strings ''x+Shift+Ctrl''"
      by (simp_all add: sample_strings_def)
    have "SplitTokens sample_strings ''Ctrl+Shift+x'' = [''Ctrl'', ''Shift'', ''x'']" by (simp add: sample_strings_def)
    then show "filter (is_key sample_strings) (SplitTokens sample_strings ''Ctrl+Shift+x'') = [''x'']" using k by simp
  qed
qed

definition sample_listener :: "Accelerator list shortcut_ops" where
  "sample_listener = \<lparr>is_ready = True, ops_mac = False, IsMediaKey = (\<lambda>a. False), UntrustedClient = False,
     RegisterAccelerator = (\<lambda>a l. if a \<in> set l then (False, l) else (True, a # l)),
     UnregisterAccelerator = removeAll, UnregisterAccelerators = (\<lambda>l. [])\<rparr>"

definition sample_accelerator :: "int \<Rightarrow> Accelerator" where
  "sample_accelerator n = \<lparr>acc_key = VKEY_F n, acc_modifiers = {}, acc_shifted_char = None\<rparr>"

theorem RegisterAll_atomic_witness:
  "let st = \<lparr>accelerator_callback_map = [sample_accelerator 2 \<mapsto> 7], listener = [sample_accelerator 2], internal_media_keys = True\<rparr>;
       (ok, st') = RegisterAll sample_listener [sample_accelerator 1, sample_accelerator 2] 8 st
   in \<not> ok \<and> accelerator_callback_map st' = accelerator_callback_map st"
proof -
  let ?st = "\<lparr>accelerator_callback_map = [sample_accelerator 2 \<mapsto> 7], listener = [sample_accelerator 2], internal_media_keys = True\<rparr>"
  obtain ok st' where r: "RegisterAll sample_listener [sample_accelerator 1, sample_accelerator 2] 8 ?st = (ok, st')" by fastforce
  have l: "listener_ok sample_listener set" by (simp add: listener_ok_def sample_listener_def insert_absorb)
  have ready: "is_ready sample_listener" by (simp add: sample_listener_def)
  have inv: "shortcuts_ok set ?st" by (simp add: shortcuts_ok_def)
  have "\<not> ok" using r by (auto simp: RegisterAll_def Register_def sample_listener_def Let_def sample_accelerator_def)
  then show ?thesis using RegisterAll_atomic [OF l ready inv r] r by simp
qed

end
