(* ===== verification/Browser_Lifecycle.thy ===== *)
theory Browser_Lifecycle
  imports Prelude
begin

text \<open>
  The life of the application: the list of its windows (shell/browser/window\_list.cc), how it quits
  (shell/browser/browser.cc), and the part of a window that closes it (native\_window.cc,
  native\_window\_views.cc, api/electron\_api\_browser\_window.cc).

  A window is a number. What the scripts answer to an event (whether they prevent it) may depend on
  all events before: it is a function of the log. The close of a page takes time: the window asks the
  page, and later the page closes or stays (\<open>PageClosed\<close>, \<open>PageCancelled\<close>). The handler of
  \<open>window-all-closed\<close> may quit the application; other calls of scripts are later steps.
\<close>

section \<open>State\<close>

datatype lc_event =
  WindowAdded nat | WindowRemoved nat | CloseEvent nat | AskPage nat | ClosedEvent nat
  | WindowAllClosed | BeforeQuit | WillQuit | QuitEvent | PostQuitClosure
  | WillFinishLaunching | FinishLaunching | ReadyResolved | ProcessExit int

record Browser =
  windows :: "nat list"
  closed :: "nat list"
  is_quitting :: bool
  is_exiting :: bool
  is_ready :: bool
  is_shutdown :: bool
  quit_main_message_loop :: bool
  ready_promise :: bool
  lc_log :: "lc_event list"

record lc_env =
  prevents_close :: "nat \<Rightarrow> lc_event list \<Rightarrow> bool"
  prevents_before_quit :: "lc_event list \<Rightarrow> bool"
  prevents_will_quit :: "lc_event list \<Rightarrow> bool"
  quits_when_all_closed :: "lc_event list \<Rightarrow> bool"
  IsClosable :: "nat \<Rightarrow> bool"
  has_page :: "nat \<Rightarrow> bool"
  SetExitCode :: "int \<Rightarrow> bool"
  lc_mac :: bool

definition Browser_init :: Browser where
  "Browser_init = \<lparr>windows = [], closed = [], is_quitting = False, is_exiting = False, is_ready = False, is_shutdown = False,
     quit_main_message_loop = False, ready_promise = False, lc_log = []\<rparr>"

definition event :: "lc_event \<Rightarrow> Browser \<Rightarrow> Browser" where
  "event e st = st\<lparr>lc_log := lc_log st @ [e]\<rparr>"

section \<open>Quitting\<close>

definition Shutdown :: "Browser \<Rightarrow> Browser" where
  "Shutdown st =
     (if is_shutdown st then st
      else let st1 = event QuitEvent (st\<lparr>is_shutdown := True, is_quitting := True\<rparr>)
           in if quit_main_message_loop st1 then event PostQuitClosure (st1\<lparr>quit_main_message_loop := False\<rparr>) else st1)"

definition NotifyAndShutdown :: "lc_env \<Rightarrow> Browser \<Rightarrow> Browser" where
  "NotifyAndShutdown env st =
     (if is_shutdown st then st
      else if prevents_will_quit env (lc_log st) then (event WillQuit st)\<lparr>is_quitting := False\<rparr>
      else Shutdown (event WillQuit st))"

text \<open>\<open>Quit\<close>, over the way the windows are closed.\<close>

definition quit_with :: "lc_env \<Rightarrow> (Browser \<Rightarrow> Browser) \<Rightarrow> Browser \<Rightarrow> Browser" where
  "quit_with env close_all st =
     (if is_quitting st then st
      else let st1 = (event BeforeQuit st)\<lparr>is_quitting := \<not> prevents_before_quit env (lc_log st)\<rparr>
           in if \<not> is_quitting st1 then st1
              else if windows st1 = [] then NotifyAndShutdown env st1
              else close_all st1)"

text \<open>When all windows are closed there is none to close, so that \<open>Quit\<close> does not get to close windows.\<close>

definition OnWindowAllClosed :: "lc_env \<Rightarrow> Browser \<Rightarrow> Browser" where
  "OnWindowAllClosed env st =
     (if is_exiting st then Shutdown st
      else if is_quitting st then NotifyAndShutdown env st
      else if quits_when_all_closed env (lc_log st) then quit_with env (\<lambda>s. s) (event WindowAllClosed st)
      else event WindowAllClosed st)"

definition OnWindowCloseCancelled :: "Browser \<Rightarrow> Browser" where
  "OnWindowCloseCancelled st = (if is_quitting st then st\<lparr>is_quitting := False\<rparr> else st)"

section \<open>Windows\<close>

definition AddWindow :: "nat \<Rightarrow> Browser \<Rightarrow> Browser" where
  "AddWindow n st = event (WindowAdded n) (st\<lparr>windows := windows st @ [n]\<rparr>)"

definition RemoveWindow :: "lc_env \<Rightarrow> nat \<Rightarrow> Browser \<Rightarrow> Browser" where
  "RemoveWindow env n st =
     (let st1 = event (WindowRemoved n) (st\<lparr>windows := removeAll n (windows st)\<rparr>)
      in if windows st1 = [] then OnWindowAllClosed env st1 else st1)"

definition WindowCloseCancelled :: "nat \<Rightarrow> Browser \<Rightarrow> Browser" where
  "WindowCloseCancelled n st = OnWindowCloseCancelled st"

definition NotifyWindowClosed :: "lc_env \<Rightarrow> nat \<Rightarrow> Browser \<Rightarrow> Browser" where
  "NotifyWindowClosed env n st =
     (if n \<in> set (closed st) then st
      else RemoveWindow env n (event (ClosedEvent n) (st\<lparr>closed := n # closed st\<rparr>)))"

definition CloseImmediately :: "lc_env \<Rightarrow> nat \<Rightarrow> Browser \<Rightarrow> Browser" where
  "CloseImmediately env n st = NotifyWindowClosed env n st"

definition NotifyWindowCloseButtonClicked :: "lc_env \<Rightarrow> nat \<Rightarrow> Browser \<Rightarrow> Browser" where
  "NotifyWindowCloseButtonClicked env n st =
     (let st1 = event (CloseEvent n) st
      in if prevents_close env n (lc_log st) then WindowCloseCancelled n st1
         else if has_page env n then event (AskPage n) st1
         else CloseImmediately env n st1)"

definition Close :: "lc_env \<Rightarrow> nat \<Rightarrow> Browser \<Rightarrow> Browser" where
  "Close env n st =
     (if \<not> IsClosable env n then WindowCloseCancelled n st else NotifyWindowCloseButtonClicked env n st)"

fun close_loop :: "lc_env \<Rightarrow> (nat \<Rightarrow> Browser \<Rightarrow> Browser) \<Rightarrow> nat list \<Rightarrow> Browser \<Rightarrow> Browser" where
  "close_loop env close [] st = st"
| "close_loop env close (n # ns) st = close_loop env close ns (if n \<in> set (closed st) then st else close n st)"

definition CloseAllWindows :: "lc_env \<Rightarrow> Browser \<Rightarrow> Browser" where
  "CloseAllWindows env st = close_loop env (Close env) (if lc_mac env then rev (windows st) else windows st) st"

definition DestroyAllWindows :: "lc_env \<Rightarrow> Browser \<Rightarrow> Browser" where
  "DestroyAllWindows env st = close_loop env (CloseImmediately env) (windows st) st"

definition Quit :: "lc_env \<Rightarrow> Browser \<Rightarrow> Browser" where
  "Quit env st = quit_with env (CloseAllWindows env) st"

definition Exit :: "lc_env \<Rightarrow> int \<Rightarrow> Browser \<Rightarrow> Browser" where
  "Exit env code st =
     (if \<not> SetExitCode env code then event (ProcessExit code) st
      else let st1 = st\<lparr>is_quitting := True, is_exiting := True\<rparr>
           in if windows st1 = [] then Shutdown st1 else DestroyAllWindows env st1)"

section \<open>Start\<close>

definition browser_WillFinishLaunching :: "Browser \<Rightarrow> Browser" where
  "browser_WillFinishLaunching st = event WillFinishLaunching st"

definition DidFinishLaunching :: "Browser \<Rightarrow> Browser" where
  "DidFinishLaunching st =
     (let st1 = st\<lparr>is_ready := True\<rparr>
      in event FinishLaunching (if ready_promise st1 then event ReadyResolved st1 else st1))"

definition WhenReady :: "Browser \<Rightarrow> Browser" where
  "WhenReady st =
     (if ready_promise st then st
      else let st1 = st\<lparr>ready_promise := True\<rparr> in if is_ready st1 then event ReadyResolved st1 else st1)"

definition SetMainMessageLoopQuitClosure :: "Browser \<Rightarrow> Browser" where
  "SetMainMessageLoopQuitClosure st =
     (if is_shutdown st then event PostQuitClosure st else st\<lparr>quit_main_message_loop := True\<rparr>)"

text \<open>The answers of a page that was asked to close.\<close>

definition PageClosed :: "lc_env \<Rightarrow> nat \<Rightarrow> Browser \<Rightarrow> Browser" where
  "PageClosed env n st = (if n \<in> set (closed st) then st else CloseImmediately env n st)"

definition PageCancelled :: "nat \<Rightarrow> Browser \<Rightarrow> Browser" where
  "PageCancelled n st = WindowCloseCancelled n st"

section \<open>The states of a run\<close>

inductive lc_reach :: "lc_env \<Rightarrow> Browser \<Rightarrow> bool" for env where
  lc_init: "lc_reach env Browser_init"
| lc_Quit: "lc_reach env st \<Longrightarrow> lc_reach env (Quit env st)"
| lc_Exit: "lc_reach env st \<Longrightarrow> lc_reach env (Exit env code st)"
| lc_Add: "lc_reach env st \<Longrightarrow> n \<notin> set (windows st) \<Longrightarrow> n \<notin> set (closed st) \<Longrightarrow> lc_reach env (AddWindow n st)"
| lc_Close: "lc_reach env st \<Longrightarrow> n \<in> set (windows st) \<Longrightarrow> lc_reach env (Close env n st)"
| lc_Destroy: "lc_reach env st \<Longrightarrow> n \<in> set (windows st) \<Longrightarrow> lc_reach env (CloseImmediately env n st)"
| lc_PageClosed: "lc_reach env st \<Longrightarrow> AskPage n \<in> set (lc_log st) \<Longrightarrow> lc_reach env (PageClosed env n st)"
| lc_PageCancelled: "lc_reach env st \<Longrightarrow> AskPage n \<in> set (lc_log st) \<Longrightarrow> lc_reach env (PageCancelled n st)"
| lc_Will: "lc_reach env st \<Longrightarrow> lc_reach env (browser_WillFinishLaunching st)"
| lc_Did: "lc_reach env st \<Longrightarrow> lc_reach env (DidFinishLaunching st)"
| lc_When: "lc_reach env st \<Longrightarrow> lc_reach env (WhenReady st)"
| lc_Closure: "lc_reach env st \<Longrightarrow> \<not> quit_main_message_loop st \<Longrightarrow> PostQuitClosure \<notin> set (lc_log st) \<Longrightarrow>
    lc_reach env (SetMainMessageLoopQuitClosure st)"

text \<open>The windows a log leaves open, and logs in which the application quits only without windows.\<close>

fun open_upd :: "lc_event \<Rightarrow> nat list \<Rightarrow> nat list" where
  "open_upd (WindowAdded n) ws = ws @ [n]"
| "open_upd (WindowRemoved n) ws = removeAll n ws"
| "open_upd _ ws = ws"

definition open_windows :: "lc_event list \<Rightarrow> nat list" where
  "open_windows l = fold open_upd l []"

definition quits_ok :: "lc_event list \<Rightarrow> bool" where
  "quits_ok l \<longleftrightarrow> (\<forall>pre post. l = pre @ QuitEvent # post \<longrightarrow> open_windows pre = [])"

definition lc_inv :: "Browser \<Rightarrow> bool" where
  "lc_inv st \<longleftrightarrow>
     count_list (lc_log st) QuitEvent = (if is_shutdown st then 1 else 0) \<and>
     count_list (lc_log st) PostQuitClosure \<le> 1 \<and>
     (PostQuitClosure \<in> set (lc_log st) \<longrightarrow> is_shutdown st \<and> \<not> quit_main_message_loop st) \<and>
     (quit_main_message_loop st \<longrightarrow> \<not> is_shutdown st) \<and>
     quits_ok (lc_log st) \<and> open_windows (lc_log st) = windows st \<and>
     distinct (windows st) \<and> set (windows st) \<inter> set (closed st) = {}"

lemma open_windows_snoc [simp]: "open_windows (l @ [e]) = open_upd e (open_windows l)"
  by (simp add: open_windows_def)

lemma quits_ok_snoc [simp]: "quits_ok (l @ [e]) \<longleftrightarrow> quits_ok l \<and> (e = QuitEvent \<longrightarrow> open_windows l = [])"
proof -
  have "(\<exists>pre post. l @ [e] = pre @ QuitEvent # post \<and> open_windows pre \<noteq> []) \<longleftrightarrow>
      (\<exists>pre post. l = pre @ QuitEvent # post \<and> open_windows pre \<noteq> []) \<or> (e = QuitEvent \<and> open_windows l \<noteq> [])"
    (is "?L \<longleftrightarrow> ?R")
  proof
    assume ?L
    then obtain pre post where *: "l @ [e] = pre @ QuitEvent # post" "open_windows pre \<noteq> []" by blast
    then show ?R by (cases post rule: rev_cases) auto
  next
    assume ?R
    then show ?L
    proof
      assume "\<exists>pre post. l = pre @ QuitEvent # post \<and> open_windows pre \<noteq> []"
      then obtain pre post where "l = pre @ QuitEvent # post" "open_windows pre \<noteq> []" by blast
      then show ?L by (intro exI[of _ pre] exI[of _ "post @ [e]"]) simp
    qed auto
  qed
  then show ?thesis unfolding quits_ok_def by blast
qed

lemma snoc2 [simp]:
  "open_windows (l @ [a, b]) = open_upd b (open_upd a (open_windows l))"
  "quits_ok (l @ [a, b]) \<longleftrightarrow> quits_ok (l @ [a]) \<and> (b = QuitEvent \<longrightarrow> open_windows (l @ [a]) = [])"
  using open_windows_snoc[of "l @ [a]" b] quits_ok_snoc[of "l @ [a]" b] by simp_all

lemma quits_ok_Nil [simp]: "quits_ok []"
  by (simp add: quits_ok_def)

lemma event_simps [simp]:
  "windows (event e st) = windows st" "closed (event e st) = closed st"
  "is_quitting (event e st) = is_quitting st" "is_exiting (event e st) = is_exiting st"
  "is_ready (event e st) = is_ready st" "is_shutdown (event e st) = is_shutdown st"
  "quit_main_message_loop (event e st) = quit_main_message_loop st"
  "ready_promise (event e st) = ready_promise st" "lc_log (event e st) = lc_log st @ [e]"
  by (simp_all add: event_def)

lemma lc_inv_flags [simp]:
  "lc_inv (st\<lparr>is_quitting := b\<rparr>) = lc_inv st" "lc_inv (st\<lparr>is_exiting := b\<rparr>) = lc_inv st"
  "lc_inv (st\<lparr>is_ready := b\<rparr>) = lc_inv st" "lc_inv (st\<lparr>ready_promise := b\<rparr>) = lc_inv st"
  by (simp_all add: lc_inv_def)

text \<open>Events that neither end the application nor change its windows.\<close>

definition plain_event :: "lc_event \<Rightarrow> bool" where
  "plain_event e \<longleftrightarrow> e \<noteq> QuitEvent \<and> e \<noteq> PostQuitClosure \<and> (\<forall>ws. open_upd e ws = ws)"

lemma plain_events [simp]:
  "plain_event (CloseEvent n)" "plain_event (AskPage n)" "plain_event (ClosedEvent n)" "plain_event WindowAllClosed"
  "plain_event BeforeQuit" "plain_event WillQuit" "plain_event WillFinishLaunching" "plain_event FinishLaunching"
  "plain_event ReadyResolved" "plain_event (ProcessExit c)"
  by (simp_all add: plain_event_def)

lemma lc_inv_event: "plain_event e \<Longrightarrow> lc_inv (event e st) = lc_inv st"
  by (auto simp: lc_inv_def plain_event_def)

lemma lc_inv_Shutdown: "lc_inv st \<Longrightarrow> windows st = [] \<Longrightarrow> lc_inv (Shutdown st)"
  by (auto simp: lc_inv_def Shutdown_def Let_def dest: count_list_0_iff[THEN iffD1])

lemma lc_inv_NotifyAndShutdown: "lc_inv st \<Longrightarrow> windows st = [] \<Longrightarrow> lc_inv (NotifyAndShutdown env st)"
  by (simp add: NotifyAndShutdown_def lc_inv_Shutdown lc_inv_event)

lemma lc_inv_quit_with:
  assumes "lc_inv st" "\<And>s. lc_inv s \<Longrightarrow> lc_inv (f s)"
  shows "lc_inv (quit_with env f st)"
  using assms by (simp add: quit_with_def Let_def lc_inv_NotifyAndShutdown lc_inv_event)

lemma lc_inv_OnWindowAllClosed: "lc_inv st \<Longrightarrow> windows st = [] \<Longrightarrow> lc_inv (OnWindowAllClosed env st)"
  by (simp add: OnWindowAllClosed_def lc_inv_Shutdown lc_inv_NotifyAndShutdown lc_inv_event lc_inv_quit_with)

lemma lc_inv_WindowCloseCancelled: "lc_inv st \<Longrightarrow> lc_inv (WindowCloseCancelled n st)"
  by (simp add: WindowCloseCancelled_def OnWindowCloseCancelled_def)

lemma lc_inv_NotifyWindowClosed: "lc_inv st \<Longrightarrow> lc_inv (NotifyWindowClosed env n st)"
proof -
  assume inv: "lc_inv st"
  define s where "s = event (WindowRemoved n) ((event (ClosedEvent n) (st\<lparr>closed := n # closed st\<rparr>))
    \<lparr>windows := removeAll n (windows st)\<rparr>)"
  have "lc_inv s" using inv by (auto simp: s_def lc_inv_def event_def distinct_removeAll)
  then show ?thesis
    using inv lc_inv_OnWindowAllClosed[of s env]
    by (simp add: NotifyWindowClosed_def RemoveWindow_def Let_def flip: s_def)
qed

lemma lc_inv_Close: "lc_inv st \<Longrightarrow> lc_inv (Close env n st)"
  by (simp add: Close_def NotifyWindowCloseButtonClicked_def CloseImmediately_def Let_def
      lc_inv_WindowCloseCancelled lc_inv_event lc_inv_NotifyWindowClosed)

lemma lc_inv_close_loop:
  "(\<And>n s. lc_inv s \<Longrightarrow> lc_inv (f n s)) \<Longrightarrow> lc_inv st \<Longrightarrow> lc_inv (close_loop env f ns st)"
  by (induction ns arbitrary: st) simp_all

lemma lc_inv_Quit: "lc_inv st \<Longrightarrow> lc_inv (Quit env st)"
  unfolding Quit_def CloseAllWindows_def by (intro lc_inv_quit_with lc_inv_close_loop lc_inv_Close)

lemma lc_inv_Exit: "lc_inv st \<Longrightarrow> lc_inv (Exit env code st)"
  by (simp add: Exit_def Let_def lc_inv_event lc_inv_Shutdown DestroyAllWindows_def CloseImmediately_def
      lc_inv_close_loop lc_inv_NotifyWindowClosed)

lemma lc_inv_AddWindow:
  "lc_inv st \<Longrightarrow> n \<notin> set (windows st) \<Longrightarrow> n \<notin> set (closed st) \<Longrightarrow> lc_inv (AddWindow n st)"
  by (auto simp: AddWindow_def lc_inv_def)

lemma lc_inv_SetMainMessageLoopQuitClosure:
  "lc_inv st \<Longrightarrow> \<not> quit_main_message_loop st \<Longrightarrow> PostQuitClosure \<notin> set (lc_log st) \<Longrightarrow>
   lc_inv (SetMainMessageLoopQuitClosure st)"
  by (auto simp: SetMainMessageLoopQuitClosure_def lc_inv_def count_notin)

lemmas lc_inv_ops = lc_inv_Quit lc_inv_Exit lc_inv_AddWindow lc_inv_Close lc_inv_NotifyWindowClosed
  lc_inv_WindowCloseCancelled lc_inv_SetMainMessageLoopQuitClosure lc_inv_event

lemma lc_reach_inv: "lc_reach env st \<Longrightarrow> lc_inv st"
proof (induction rule: lc_reach.induct)
  case lc_init
  show ?case by (simp add: lc_inv_def Browser_init_def open_windows_def)
qed (simp_all add: lc_inv_ops CloseImmediately_def PageClosed_def PageCancelled_def browser_WillFinishLaunching_def
    DidFinishLaunching_def WhenReady_def Let_def)


section \<open>The application ends\<close>

text \<open>A state in which the close of the last window shuts the application down.\<close>

definition ending :: "lc_env \<Rightarrow> Browser \<Rightarrow> bool" where
  "ending env st \<longleftrightarrow> is_quitting st \<and> (is_exiting st \<or> (\<forall>l. \<not> prevents_will_quit env l)) \<and>
     (windows st = [] \<longrightarrow> is_shutdown st) \<and> set (windows st) \<inter> set (closed st) = {}"

lemma ending_event [simp]: "ending env (event e st) = ending env st"
  by (simp add: ending_def)

lemma Shutdown_simps [simp]:
  "windows (Shutdown st) = windows st" "closed (Shutdown st) = closed st" "is_shutdown (Shutdown st)"
  "is_exiting (Shutdown st) = is_exiting st"
  by (simp_all add: Shutdown_def Let_def)

lemma Shutdown_quitting: "is_quitting st \<Longrightarrow> is_quitting (Shutdown st)"
  by (simp add: Shutdown_def Let_def)

lemma NotifyWindowClosed_ending:
  assumes "ending env st" "n \<notin> set (closed st)"
  shows "ending env (NotifyWindowClosed env n st)" "windows (NotifyWindowClosed env n st) = removeAll n (windows st)"
    "closed (NotifyWindowClosed env n st) = n # closed st"
  using assms
  by (auto simp: ending_def NotifyWindowClosed_def RemoveWindow_def OnWindowAllClosed_def NotifyAndShutdown_def
      Shutdown_quitting Let_def)

lemma PageClosed_ending:
  assumes "ending env st"
  shows "ending env (PageClosed env n st)" "windows (PageClosed env n st) = removeAll n (windows st)"
proof -
  have "n \<in> set (closed st) \<Longrightarrow> removeAll n (windows st) = windows st"
    using assms by (auto simp: ending_def intro: removeAll_id)
  then show "ending env (PageClosed env n st)" "windows (PageClosed env n st) = removeAll n (windows st)"
    using NotifyWindowClosed_ending[OF assms, of n] assms by (auto simp: PageClosed_def CloseImmediately_def)
qed

lemma fold_PageClosed_ending:
  "ending env st \<Longrightarrow> ending env (fold (PageClosed env) ns st) \<and>
   windows (fold (PageClosed env) ns st) = filter (\<lambda>n. n \<notin> set ns) (windows st)"
  by (induction ns arbitrary: st)
    (auto simp: PageClosed_ending removeAll_filter_not_eq intro: filter_cong)

lemma close_loop_PageClosed: "close_loop env (CloseImmediately env) ns st = fold (PageClosed env) ns st"
  by (induction ns arbitrary: st) (simp_all add: PageClosed_def)

text \<open>
  \<open>app.exit\<close> cannot be prevented: from every state of a run, when the exit code can be set, it destroys
  every window and shuts the application down, without a \<open>close\<close> event to any window, whatever the scripts
  answer to events.
\<close>

theorem Exit_shuts_down:
  assumes "lc_reach env st" "SetExitCode env code"
  shows "is_shutdown (Exit env code st) \<and> windows (Exit env code st) = []"
proof (cases "windows st = []")
  case True
  then show ?thesis using assms(2) by (simp add: Exit_def)
next
  case False
  define st1 where "st1 = st\<lparr>is_quitting := True, is_exiting := True\<rparr>"
  have "ending env st1"
    using lc_reach_inv[OF assms(1)] False by (simp add: ending_def st1_def lc_inv_def)
  from fold_PageClosed_ending[OF this, of "windows st1"] False assms(2) show ?thesis
    by (simp add: Exit_def DestroyAllWindows_def close_loop_PageClosed ending_def Let_def flip: st1_def)
qed

text \<open>The environment of a quit nobody objects to.\<close>

definition nobody_objects :: "lc_env \<Rightarrow> bool" where
  "nobody_objects env \<longleftrightarrow> (\<forall>n. IsClosable env n) \<and> (\<forall>n l. \<not> prevents_close env n l) \<and>
     (\<forall>l. \<not> prevents_before_quit env l) \<and> (\<forall>l. \<not> prevents_will_quit env l)"

lemma Shutdown_log: "set (lc_log st) \<subseteq> set (lc_log (Shutdown st))"
  by (auto simp: Shutdown_def Let_def)

lemma NotifyWindowClosed_log:
  assumes "ending env st"
  shows "set (lc_log st) \<subseteq> set (lc_log (NotifyWindowClosed env n st))"
proof -
  have *: "set (lc_log (Shutdown (event WillQuit s))) \<supseteq> set (lc_log s)"
    "set (lc_log (Shutdown (event (WindowRemoved n) s))) \<supseteq> set (lc_log s)" for s
    using Shutdown_log[of "event WillQuit s"] Shutdown_log[of "event (WindowRemoved n) s"] by auto
  show ?thesis
    using assms *(1)[of "event (WindowRemoved n) (event (ClosedEvent n) (st\<lparr>closed := n # closed st\<rparr>)\<lparr>windows := []\<rparr>)"]
      *(2)[of "event (ClosedEvent n) (st\<lparr>closed := n # closed st\<rparr>)\<lparr>windows := []\<rparr>"]
    by (auto simp: ending_def NotifyWindowClosed_def RemoveWindow_def OnWindowAllClosed_def NotifyAndShutdown_def Let_def)
qed

lemma Close_unobjected:
  assumes "nobody_objects env"
  shows "Close env n st = (if has_page env n then event (AskPage n) (event (CloseEvent n) st)
     else NotifyWindowClosed env n (event (CloseEvent n) st))"
  using assms by (simp add: nobody_objects_def Close_def NotifyWindowCloseButtonClicked_def CloseImmediately_def Let_def)

lemma close_loop_ending:
  assumes "nobody_objects env"
  shows "ending env st \<Longrightarrow>
    ending env (close_loop env (Close env) ns st) \<and>
    set (windows (close_loop env (Close env) ns st)) = {n \<in> set (windows st). n \<in> set ns \<longrightarrow> has_page env n} \<and>
    set (lc_log st) \<subseteq> set (lc_log (close_loop env (Close env) ns st)) \<and>
    (\<forall>n \<in> set ns - set (closed st). has_page env n \<longrightarrow> AskPage n \<in> set (lc_log (close_loop env (Close env) ns st)))"
proof (induction ns arbitrary: st)
  case Nil
  then show ?case by simp
next
  case (Cons n ns)
  let ?e = "event (CloseEvent n) st"
  consider "n \<in> set (closed st)" | "n \<notin> set (closed st)" "has_page env n" | "n \<notin> set (closed st)" "\<not> has_page env n"
    by blast
  then show ?case
  proof cases
    case 1
    then show ?thesis using Cons.IH[of st] Cons.prems by (auto simp: ending_def)
  next
    case 2
    then show ?thesis
      using Cons.IH[of "event (AskPage n) ?e"] Cons.prems by (auto simp: Close_unobjected[OF assms])
  next
    case 3
    have e: "ending env ?e" using Cons.prems by simp
    note N = NotifyWindowClosed_ending[OF e, of n] NotifyWindowClosed_log[OF e, of n]
    from 3 show ?thesis
      using Cons.IH[of "NotifyWindowClosed env n ?e"] N by (auto simp: Close_unobjected[OF assms])
  qed
qed

text \<open>
  C33: When nobody objects (every window is closable, no script prevents an event), \<open>app.quit\<close> ends the
  application: it leaves open only windows whose page has been asked to close, and once these pages have
  closed, in whatever order, the application has shut down and no window is left. \<open>Quit\<close> itself does so
  when no window has a page or none is open.
\<close>

theorem Quit_shuts_down:
  assumes "lc_reach env st" "\<not> is_quitting st" "nobody_objects env" "set ns = set (windows (Quit env st))"
  shows "(\<forall>n \<in> set (windows (Quit env st)). AskPage n \<in> set (lc_log (Quit env st)) \<and> has_page env n) \<and>
     is_shutdown (fold (PageClosed env) ns (Quit env st)) \<and> windows (fold (PageClosed env) ns (Quit env st)) = []"
proof -
  define st1 where "st1 = (event BeforeQuit st)\<lparr>is_quitting := True\<rparr>"
  have Q: "Quit env st = (if windows st1 = [] then NotifyAndShutdown env st1 else CloseAllWindows env st1)"
    using assms(2,3) by (simp add: Quit_def quit_with_def nobody_objects_def Let_def st1_def)
  have "ending env (Quit env st) \<and> (\<forall>n \<in> set (windows (Quit env st)). AskPage n \<in> set (lc_log (Quit env st)) \<and> has_page env n)"
  proof (cases "windows st1 = []")
    case True
    have "is_quitting (NotifyAndShutdown env st1)" "is_shutdown (NotifyAndShutdown env st1)"
      "windows (NotifyAndShutdown env st1) = []"
      using assms(3) True by (simp_all add: NotifyAndShutdown_def nobody_objects_def Shutdown_quitting st1_def)
    then show ?thesis using Q True assms(3) by (simp add: ending_def nobody_objects_def)
  next
    case False
    have inv: "set (windows st1) \<inter> set (closed st1) = {}"
      using lc_reach_inv[OF assms(1)] by (simp add: lc_inv_def st1_def)
    then have e: "ending env st1"
      using assms(3) False by (simp add: ending_def nobody_objects_def) (simp add: st1_def)
    define order where "order = (if lc_mac env then rev (windows st1) else windows st1)"
    have o: "set order - set (closed st1) = set (windows st1)" "set order = set (windows st1)"
      using inv by (auto simp: order_def)
    have "Quit env st = close_loop env (Close env) order st1"
      using Q False by (simp add: CloseAllWindows_def order_def)
    then show ?thesis using close_loop_ending[OF assms(3) e, of order] o by simp
  qed
  then show ?thesis using fold_PageClosed_ending[of env "Quit env st" ns] assms(4) by (auto simp: ending_def)
qed

section \<open>Instances\<close>

definition lc_demo_env :: lc_env where
  "lc_demo_env = \<lparr>prevents_close = \<lambda>n l. False, prevents_before_quit = \<lambda>l. False, prevents_will_quit = \<lambda>l. False,
     quits_when_all_closed = \<lambda>l. True, IsClosable = \<lambda>n. True, has_page = \<lambda>n. n < 2, SetExitCode = \<lambda>c. True, lc_mac = False\<rparr>"

definition lc_demo :: Browser where
  "lc_demo = AddWindow 2 (AddWindow 1 (AddWindow 0 (SetMainMessageLoopQuitClosure (DidFinishLaunching Browser_init))))"

lemma lc_demo_reach: "lc_reach lc_demo_env lc_demo"
  unfolding lc_demo_def
  by (intro lc_reach.intros)
    (simp_all add: AddWindow_def SetMainMessageLoopQuitClosure_def DidFinishLaunching_def Browser_init_def Let_def)


theorem Exit_shuts_down_witness:
  "windows lc_demo = [0, 1, 2] \<and> is_shutdown (Exit lc_demo_env 7 lc_demo) \<and> windows (Exit lc_demo_env 7 lc_demo) = []"
  using Exit_shuts_down[OF lc_demo_reach, of 7]
  by (simp add: lc_demo_env_def) (simp add: lc_demo_def AddWindow_def SetMainMessageLoopQuitClosure_def DidFinishLaunching_def Browser_init_def Let_def)

theorem Quit_shuts_down_witness:
  "windows (Quit lc_demo_env lc_demo) = [0, 1] \<and>
   is_shutdown (fold (PageClosed lc_demo_env) [1, 0] (Quit lc_demo_env lc_demo))"
proof -
  have 1: "windows (Quit lc_demo_env lc_demo) = [0, 1]" by code_simp
  have 2: "\<not> is_quitting lc_demo" by code_simp
  have "nobody_objects lc_demo_env" by (simp add: nobody_objects_def lc_demo_env_def)
  then show ?thesis using Quit_shuts_down[OF lc_demo_reach 2, of "[1, 0]"] 1 by auto
qed

text \<open>
  A quit that one window refuses still closes the others: after the first window has prevented its close,
  the quit is over, and the second window is closed all the same.
\<close>

lemma cancelled_quit_closes_others:
  "(let env = lc_demo_env\<lparr>prevents_close := \<lambda>n l. n = 2\<rparr>; st = Quit env (AddWindow 3 (AddWindow 2 Browser_init))
    in windows st = [2] \<and> \<not> is_quitting st \<and> \<not> is_shutdown st)"
  by code_simp

end
