(* ===== verification/Protocol_Registry.thy ===== *)
theory Protocol_Registry
  imports Prelude
begin

text \<open>
  Custom protocols: the registry of protocol handlers (shell/browser/protocol\_registry.cc), the script
  interface over it (shell/browser/api/electron\_api\_protocol.cc), and the privileges of custom schemes
  on their way from the browser process over the command line (electron\_browser\_client.cc) to renderers
  (shell/renderer/renderer\_client\_base.cc) and utility processes (shell/app/electron\_content\_client.cc).

  Handlers and callbacks of scripts are numbers. The factories of Chromium, the command line and the
  splitting and joining of strings are parameters.
\<close>

section \<open>The registry\<close>

datatype ProtocolType = kBuffer | kString | kFile | kHttp | kStream | kFree

datatype loader_factory = AsarURLLoaderFactory | ElectronURLLoaderFactory ProtocolType nat | OtherFactory nat

type_synonym HandlersMap = "string \<rightharpoonup> ProtocolType \<times> nat"

record ProtocolRegistry =
  handlers :: HandlersMap
  intercept_handlers :: HandlersMap

definition ProtocolRegistry_init :: ProtocolRegistry where
  "ProtocolRegistry_init = \<lparr>handlers = Map.empty, intercept_handlers = Map.empty\<rparr>"

definition try_emplace :: "string \<Rightarrow> ProtocolType \<times> nat \<Rightarrow> HandlersMap \<Rightarrow> bool \<times> HandlersMap" where
  "try_emplace scheme h m = (case m scheme of None \<Rightarrow> (True, m(scheme \<mapsto> h)) | Some _ \<Rightarrow> (False, m))"

definition erase :: "string \<Rightarrow> HandlersMap \<Rightarrow> bool \<times> HandlersMap" where
  "erase scheme m = (m scheme \<noteq> None, m(scheme := None))"

definition RegisterURLLoaderFactories ::
  "(string \<rightharpoonup> loader_factory) \<Rightarrow> bool \<Rightarrow> ProtocolRegistry \<Rightarrow> (string \<rightharpoonup> loader_factory)" where
  "RegisterURLLoaderFactories factories allow_file_access r =
     (let f1 = (if factories ''file'' \<noteq> None then factories(''file'' \<mapsto> AsarURLLoaderFactory)
                else if allow_file_access then factories(''file'' \<mapsto> AsarURLLoaderFactory)
                else factories)
      in (\<lambda>scheme. case f1 scheme of
            Some f \<Rightarrow> Some f
          | None \<Rightarrow> map_option (\<lambda>(t, h). ElectronURLLoaderFactory t h) (handlers r scheme)))"

definition registry_RegisterProtocol :: "ProtocolType \<Rightarrow> string \<Rightarrow> nat \<Rightarrow> ProtocolRegistry \<Rightarrow> bool \<times> ProtocolRegistry" where
  "registry_RegisterProtocol type scheme handler r =
     (let (ok, m) = try_emplace scheme (type, handler) (handlers r) in (ok, r\<lparr>handlers := m\<rparr>))"

definition registry_UnregisterProtocol :: "string \<Rightarrow> ProtocolRegistry \<Rightarrow> bool \<times> ProtocolRegistry" where
  "registry_UnregisterProtocol scheme r = (let (ok, m) = erase scheme (handlers r) in (ok, r\<lparr>handlers := m\<rparr>))"

definition registry_IsProtocolRegistered :: "string \<Rightarrow> ProtocolRegistry \<Rightarrow> bool" where
  "registry_IsProtocolRegistered scheme r \<longleftrightarrow> handlers r scheme \<noteq> None"

definition registry_InterceptProtocol :: "ProtocolType \<Rightarrow> string \<Rightarrow> nat \<Rightarrow> ProtocolRegistry \<Rightarrow> bool \<times> ProtocolRegistry" where
  "registry_InterceptProtocol type scheme handler r =
     (let (ok, m) = try_emplace scheme (type, handler) (intercept_handlers r) in (ok, r\<lparr>intercept_handlers := m\<rparr>))"

definition registry_UninterceptProtocol :: "string \<Rightarrow> ProtocolRegistry \<Rightarrow> bool \<times> ProtocolRegistry" where
  "registry_UninterceptProtocol scheme r =
     (let (ok, m) = erase scheme (intercept_handlers r) in (ok, r\<lparr>intercept_handlers := m\<rparr>))"

definition registry_IsProtocolIntercepted :: "string \<Rightarrow> ProtocolRegistry \<Rightarrow> bool" where
  "registry_IsProtocolIntercepted scheme r \<longleftrightarrow> intercept_handlers r scheme \<noteq> None"

section \<open>The script interface\<close>

datatype ProtocolError = kOK | kRegistered | kNotRegistered | kIntercepted | kNotIntercepted

datatype protocol_effect = Warning string | RunProtocolCallback nat "string option"

fun ErrorCodeToString :: "ProtocolError \<Rightarrow> string" where
  "ErrorCodeToString kRegistered = ''The scheme has been registered''"
| "ErrorCodeToString kNotRegistered = ''The scheme has not been registered''"
| "ErrorCodeToString kIntercepted = ''The scheme has been intercepted''"
| "ErrorCodeToString kNotIntercepted = ''The scheme has not been intercepted''"
| "ErrorCodeToString kOK = ''Unexpected error''"

definition kBuiltinSchemes :: "string list" where
  "kBuiltinSchemes = [''about'', ''file'', ''http'', ''https'', ''data'', ''filesystem'']"

definition HandleOptionalCallback :: "nat option \<Rightarrow> ProtocolError \<Rightarrow> protocol_effect list" where
  "HandleOptionalCallback cb error =
     (case cb of
        None \<Rightarrow> []
      | Some f \<Rightarrow>
          [Warning ''ProtocolDeprecateCallback'',
           RunProtocolCallback f (if error = kOK then None else Some (ErrorCodeToString error))])"

definition RegisterProtocol :: "ProtocolType \<Rightarrow> string \<Rightarrow> nat \<Rightarrow> ProtocolRegistry \<Rightarrow> ProtocolError \<times> ProtocolRegistry" where
  "RegisterProtocol type scheme handler r =
     (let (added, r1) = registry_RegisterProtocol type scheme handler r in (if added then kOK else kRegistered, r1))"

definition RegisterProtocolFor ::
  "ProtocolType \<Rightarrow> string \<Rightarrow> nat \<Rightarrow> nat option \<Rightarrow> ProtocolRegistry \<Rightarrow> bool \<times> protocol_effect list \<times> ProtocolRegistry" where
  "RegisterProtocolFor type scheme handler cb r =
     (let (result, r1) = RegisterProtocol type scheme handler r
      in (result = kOK, HandleOptionalCallback cb result, r1))"

definition UnregisterProtocol :: "string \<Rightarrow> nat option \<Rightarrow> ProtocolRegistry \<Rightarrow> bool \<times> protocol_effect list \<times> ProtocolRegistry" where
  "UnregisterProtocol scheme cb r =
     (let (removed, r1) = registry_UnregisterProtocol scheme r
      in (removed, HandleOptionalCallback cb (if removed then kOK else kNotRegistered), r1))"

definition IsProtocolRegistered :: "string \<Rightarrow> ProtocolRegistry \<Rightarrow> bool" where
  "IsProtocolRegistered scheme r = registry_IsProtocolRegistered scheme r"

definition InterceptProtocol :: "ProtocolType \<Rightarrow> string \<Rightarrow> nat \<Rightarrow> ProtocolRegistry \<Rightarrow> ProtocolError \<times> ProtocolRegistry" where
  "InterceptProtocol type scheme handler r =
     (let (added, r1) = registry_InterceptProtocol type scheme handler r in (if added then kOK else kIntercepted, r1))"

definition InterceptProtocolFor ::
  "ProtocolType \<Rightarrow> string \<Rightarrow> nat \<Rightarrow> nat option \<Rightarrow> ProtocolRegistry \<Rightarrow> bool \<times> protocol_effect list \<times> ProtocolRegistry" where
  "InterceptProtocolFor type scheme handler cb r =
     (let (result, r1) = InterceptProtocol type scheme handler r
      in (result = kOK, HandleOptionalCallback cb result, r1))"

definition UninterceptProtocol :: "string \<Rightarrow> nat option \<Rightarrow> ProtocolRegistry \<Rightarrow> bool \<times> protocol_effect list \<times> ProtocolRegistry" where
  "UninterceptProtocol scheme cb r =
     (let (removed, r1) = registry_UninterceptProtocol scheme r
      in (removed, HandleOptionalCallback cb (if removed then kOK else kNotIntercepted), r1))"

definition IsProtocolIntercepted :: "string \<Rightarrow> ProtocolRegistry \<Rightarrow> bool" where
  "IsProtocolIntercepted scheme r = registry_IsProtocolIntercepted scheme r"

definition IsProtocolHandled :: "string \<Rightarrow> ProtocolRegistry \<Rightarrow> bool" where
  "IsProtocolHandled scheme r \<longleftrightarrow>
     IsProtocolRegistered scheme r \<or> IsProtocolIntercepted scheme r \<or> scheme \<in> set kBuiltinSchemes"

section \<open>Privileged schemes\<close>

record SchemeOptions =
  opt_standard :: bool
  opt_secure :: bool
  opt_bypassCSP :: bool
  opt_allowServiceWorkers :: bool
  opt_supportFetchAPI :: bool
  opt_corsEnabled :: bool
  opt_stream :: bool

record CustomScheme =
  cs_scheme :: string
  cs_options :: SchemeOptions

text \<open>The schemes a process knows, and its command line switches.\<close>

record process_schemes =
  ps_standard :: "string list"
  ps_web_safe :: "string list"
  ps_secure :: "string list"
  ps_csp_bypassing :: "string list"
  ps_cors :: "string list"
  ps_service_worker :: "string list"
  ps_fetch :: "string list"
  ps_streaming :: "string list"
  ps_blink_service_worker :: "string list"
  ps_savable :: "string list"
  g_standard_schemes :: "string list"
  g_streaming_schemes :: "string list"
  ps_switches :: "string \<rightharpoonup> string"

record string_ops =
  JoinString :: "string list \<Rightarrow> string"
  SplitString :: "string \<Rightarrow> string list"

definition AddServiceWorkerScheme :: "string \<Rightarrow> process_schemes \<Rightarrow> process_schemes" where
  "AddServiceWorkerScheme scheme p = p\<lparr>ps_service_worker := ps_service_worker p @ [scheme]\<rparr>"

text \<open>One turn of the loop of \<open>RegisterSchemesAsPrivileged\<close>, over the schemes collected for the switches
  (secure, CSP bypassing, CORS, fetch, service worker).\<close>

type_synonym scheme_lists = "string list \<times> string list \<times> string list \<times> string list \<times> string list"

definition privilege_step :: "CustomScheme \<Rightarrow> scheme_lists \<times> process_schemes \<Rightarrow> scheme_lists \<times> process_schemes" where
  "privilege_step c x =
     (let ((sec, csp, cors, fetch, sw), p) = x;
          s = cs_scheme c; opt = cs_options c;
          p1 = (if opt_standard opt then p\<lparr>ps_standard := ps_standard p @ [s], g_standard_schemes := g_standard_schemes p @ [s],
                       ps_web_safe := ps_web_safe p @ [s]\<rparr> else p);
          (sec, p2) = (if opt_secure opt then (sec @ [s], p1\<lparr>ps_secure := ps_secure p1 @ [s]\<rparr>) else (sec, p1));
          (csp, p3) = (if opt_bypassCSP opt then (csp @ [s], p2\<lparr>ps_csp_bypassing := ps_csp_bypassing p2 @ [s]\<rparr>) else (csp, p2));
          (cors, p4) = (if opt_corsEnabled opt then (cors @ [s], p3\<lparr>ps_cors := ps_cors p3 @ [s]\<rparr>) else (cors, p3));
          fetch = (if opt_supportFetchAPI opt then fetch @ [s] else fetch);
          (sw, p5) = (if opt_allowServiceWorkers opt then (sw @ [s], AddServiceWorkerScheme s p4) else (sw, p4));
          p6 = (if opt_stream opt then p5\<lparr>g_streaming_schemes := g_streaming_schemes p5 @ [s]\<rparr> else p5)
      in ((sec, csp, cors, fetch, sw), p6))"

definition AppendSchemesToCmdLine :: "string_ops \<Rightarrow> string \<Rightarrow> string list \<Rightarrow> process_schemes \<Rightarrow> process_schemes" where
  "AppendSchemesToCmdLine ops switch_name schemes p =
     p\<lparr>ps_switches := (ps_switches p)(switch_name \<mapsto> JoinString ops schemes)\<rparr>"

definition api_RegisterSchemesAsPrivileged :: "string_ops \<Rightarrow> CustomScheme list \<Rightarrow> process_schemes \<Rightarrow> process_schemes" where
  "api_RegisterSchemesAsPrivileged ops custom_schemes p =
     (let ((sec, csp, cors, fetch, sw), p1) = fold privilege_step custom_schemes (([], [], [], [], []), p);
          p2 = AppendSchemesToCmdLine ops ''secure-schemes'' sec p1;
          p3 = AppendSchemesToCmdLine ops ''bypasscsp-schemes'' csp p2;
          p4 = AppendSchemesToCmdLine ops ''cors-schemes'' cors p3;
          p5 = AppendSchemesToCmdLine ops ''fetch-schemes'' fetch p4;
          p6 = AppendSchemesToCmdLine ops ''service-worker-schemes'' sw p5;
          p7 = AppendSchemesToCmdLine ops ''standard-schemes'' (g_standard_schemes p6) p6
      in AppendSchemesToCmdLine ops ''streaming-schemes'' (g_streaming_schemes p7) p7)"

text \<open>The argument of the call is \<^const>\<open>None\<close> where it is not an array of schemes.\<close>

definition RegisterSchemesAsPrivileged ::
  "string_ops \<Rightarrow> bool \<Rightarrow> CustomScheme list option \<Rightarrow> process_schemes \<Rightarrow> string + process_schemes" where
  "RegisterSchemesAsPrivileged ops is_ready val p =
     (if is_ready then Inl ''protocol.registerSchemesAsPrivileged should be called before app is ready''
      else case val of
        None \<Rightarrow> Inl ''Argument must be an array of custom schemes.''
      | Some custom_schemes \<Rightarrow> Inr (api_RegisterSchemesAsPrivileged ops custom_schemes p))"

section \<open>The other processes\<close>

definition kCommonSwitchNames :: "string list" where
  "kCommonSwitchNames = [''standard-schemes'', ''enable-sandbox'', ''secure-schemes'', ''bypasscsp-schemes'',
     ''cors-schemes'', ''fetch-schemes'', ''service-worker-schemes'', ''streaming-schemes'']"

definition CopySwitches :: "process_schemes \<Rightarrow> process_schemes \<Rightarrow> process_schemes" where
  "CopySwitches parent child =
     child\<lparr>ps_switches := (\<lambda>n. if n \<in> set kCommonSwitchNames \<and> ps_switches parent n \<noteq> None then ps_switches parent n
                              else ps_switches child n)\<rparr>"

definition GetSwitchValueASCII :: "process_schemes \<Rightarrow> string \<Rightarrow> string" where
  "GetSwitchValueASCII p n = (case ps_switches p n of Some v \<Rightarrow> v | None \<Rightarrow> [])"

definition ParseSchemesCLISwitch :: "string_ops \<Rightarrow> process_schemes \<Rightarrow> string \<Rightarrow> string list" where
  "ParseSchemesCLISwitch ops p n = SplitString ops (GetSwitchValueASCII p n)"

definition RendererClientBase :: "string_ops \<Rightarrow> process_schemes \<Rightarrow> process_schemes" where
  "RendererClientBase ops p =
     (let p1 = fold AddServiceWorkerScheme (ParseSchemesCLISwitch ops p ''service-worker-schemes'') p;
          p2 = p1\<lparr>ps_standard := ps_standard p1 @ ParseSchemesCLISwitch ops p ''standard-schemes''\<rparr>;
          p3 = p2\<lparr>ps_cors := ps_cors p2 @ ParseSchemesCLISwitch ops p ''cors-schemes''\<rparr>;
          p4 = p3\<lparr>ps_streaming := ps_streaming p3 @ ParseSchemesCLISwitch ops p ''streaming-schemes''\<rparr>
      in p4\<lparr>ps_secure := ps_secure p4 @ ParseSchemesCLISwitch ops p ''secure-schemes''\<rparr>)"

definition RenderThreadStarted :: "string_ops \<Rightarrow> process_schemes \<Rightarrow> process_schemes" where
  "RenderThreadStarted ops p =
     (let p0 = p\<lparr>ps_fetch := ps_fetch p @ [''chrome-extension''], ps_csp_bypassing := ps_csp_bypassing p @ [''chrome-extension'']\<rparr>;
          p1 = p0\<lparr>ps_fetch := ps_fetch p0 @ ParseSchemesCLISwitch ops p ''fetch-schemes''\<rparr>;
          p2 = p1\<lparr>ps_blink_service_worker := ps_blink_service_worker p1 @ ParseSchemesCLISwitch ops p ''service-worker-schemes''\<rparr>;
          p3 = p2\<lparr>ps_csp_bypassing := ps_csp_bypassing p2 @ ParseSchemesCLISwitch ops p ''bypasscsp-schemes''\<rparr>
      in p3\<lparr>ps_blink_service_worker := ps_blink_service_worker p3 @ [''file''], ps_fetch := ps_fetch p3 @ [''file'']\<rparr>)"

definition AppendDelimitedSwitchToVector :: "string_ops \<Rightarrow> process_schemes \<Rightarrow> string \<Rightarrow> string list \<Rightarrow> string list" where
  "AppendDelimitedSwitchToVector ops p cmd_switch append_me =
     (let switch_value = GetSwitchValueASCII p cmd_switch
      in if switch_value \<noteq> [] then append_me @ SplitString ops switch_value else append_me)"

definition AddAdditionalSchemes :: "string_ops \<Rightarrow> bool \<Rightarrow> bool \<Rightarrow> process_schemes \<Rightarrow> process_schemes" where
  "AddAdditionalSchemes ops is_utility extensions p =
     (let p1 = (if is_utility then
                  p\<lparr>ps_service_worker := AppendDelimitedSwitchToVector ops p ''service-worker-schemes'' (ps_service_worker p),
                    ps_standard := AppendDelimitedSwitchToVector ops p ''standard-schemes'' (ps_standard p),
                    ps_secure := AppendDelimitedSwitchToVector ops p ''secure-schemes'' (ps_secure p),
                    ps_csp_bypassing := AppendDelimitedSwitchToVector ops p ''bypasscsp-schemes'' (ps_csp_bypassing p),
                    ps_cors := AppendDelimitedSwitchToVector ops p ''cors-schemes'' (ps_cors p)\<rparr>
                else p);
          p2 = p1\<lparr>ps_service_worker := ps_service_worker p1 @ [''file'']\<rparr>
      in if extensions then
           p2\<lparr>ps_standard := ps_standard p2 @ [''chrome-extension''], ps_savable := ps_savable p2 @ [''chrome-extension''],
              ps_secure := ps_secure p2 @ [''chrome-extension''], ps_service_worker := ps_service_worker p2 @ [''chrome-extension''],
              ps_cors := ps_cors p2 @ [''chrome-extension''], ps_csp_bypassing := ps_csp_bypassing p2 @ [''chrome-extension'']\<rparr>
         else p2)"

definition GetAdditionalAllowedSchemesForFileSystem :: "process_schemes \<Rightarrow> string list \<Rightarrow> string list" where
  "GetAdditionalAllowedSchemesForFileSystem p additional = additional @ g_standard_schemes p @ [''devtools'', ''chrome'']"

section \<open>Tables of handlers\<close>

text \<open>What both tables of the registry promise: the first handler for a free scheme stays until the scheme
  is dropped; operations on the other table do not matter.\<close>

datatype table_op = Put ProtocolType string nat | Drop string

locale scheme_table =
  fixes run :: "'o \<Rightarrow> 's \<Rightarrow> 's"
    and view :: "'o \<Rightarrow> table_op option"
    and look :: "'s \<Rightarrow> HandlersMap"
  assumes run_Put: "view p = Some (Put ty s h) \<Longrightarrow>
      look (run p r) = (if look r s = None then (look r)(s \<mapsto> (ty, h)) else look r)"
    and run_Drop: "view p = Some (Drop s) \<Longrightarrow> look (run p r) = (look r)(s := None)"
    and run_other: "view p = None \<Longrightarrow> look (run p r) = look r"
begin

lemma look_run:
  "look (run p r) s = Some (ty, h) \<longleftrightarrow>
     (view p = Some (Put ty s h) \<and> look r s = None) \<or> (look r s = Some (ty, h) \<and> view p \<noteq> Some (Drop s))"
proof (cases "view p")
  case None
  then show ?thesis by (simp add: run_other)
next
  case (Some v)
  then show ?thesis by (cases v) (auto simp: run_Put run_Drop)
qed

lemma history:
  assumes "look r0 = Map.empty"
  shows "look (fold run ops r0) s = Some (ty, h) \<longleftrightarrow>
    (\<exists>pre p post. ops = pre @ p # post \<and> view p = Some (Put ty s h) \<and> look (fold run pre r0) s = None \<and>
       (\<forall>q \<in> set post. view q \<noteq> Some (Drop s)))"
proof (induction ops rule: rev_induct)
  case Nil
  then show ?case using assms by simp
next
  case (snoc p ops)
  let ?H = "\<lambda>ops. \<exists>pre p post. ops = pre @ p # post \<and> view p = Some (Put ty s h) \<and> look (fold run pre r0) s = None \<and>
       (\<forall>q \<in> set post. view q \<noteq> Some (Drop s))"
  have "?H (ops @ [p]) \<longleftrightarrow> (view p = Some (Put ty s h) \<and> look (fold run ops r0) s = None) \<or> (?H ops \<and> view p \<noteq> Some (Drop s))"
    (is "?L \<longleftrightarrow> ?R")
  proof
    assume ?L
    then obtain pre q post where *: "ops @ [p] = pre @ q # post" "view q = Some (Put ty s h)" "look (fold run pre r0) s = None"
        "\<forall>q \<in> set post. view q \<noteq> Some (Drop s)" by blast
    then show ?R by (cases post rule: rev_cases) auto
  next
    assume ?R
    then show ?L
    proof
      assume "view p = Some (Put ty s h) \<and> look (fold run ops r0) s = None"
      then show ?L by (intro exI[of _ ops] exI[of _ p] exI[of _ "[]"]) simp
    next
      assume a: "?H ops \<and> view p \<noteq> Some (Drop s)"
      then obtain pre q post where "ops = pre @ q # post" "view q = Some (Put ty s h)" "look (fold run pre r0) s = None"
        "\<forall>q \<in> set post. view q \<noteq> Some (Drop s)" by blast
      with a show ?L by (intro exI[of _ pre] exI[of _ q] exI[of _ "post @ [p]"]) auto
    qed
  qed
  with snoc show ?case by (simp add: look_run)
qed

end

datatype protocol_op =
  OpRegister ProtocolType string nat "nat option" | OpUnregister string "nat option"
  | OpIntercept ProtocolType string nat "nat option" | OpUnintercept string "nat option"

fun run_protocol :: "protocol_op \<Rightarrow> ProtocolRegistry \<Rightarrow> ProtocolRegistry" where
  "run_protocol (OpRegister ty s h cb) r = snd (snd (RegisterProtocolFor ty s h cb r))"
| "run_protocol (OpUnregister s cb) r = snd (snd (UnregisterProtocol s cb r))"
| "run_protocol (OpIntercept ty s h cb) r = snd (snd (InterceptProtocolFor ty s h cb r))"
| "run_protocol (OpUnintercept s cb) r = snd (snd (UninterceptProtocol s cb r))"

fun register_view :: "protocol_op \<Rightarrow> table_op option" where
  "register_view (OpRegister ty s h cb) = Some (Put ty s h)"
| "register_view (OpUnregister s cb) = Some (Drop s)"
| "register_view _ = None"

fun intercept_view :: "protocol_op \<Rightarrow> table_op option" where
  "intercept_view (OpIntercept ty s h cb) = Some (Put ty s h)"
| "intercept_view (OpUnintercept s cb) = Some (Drop s)"
| "intercept_view _ = None"

lemmas protocol_defs = RegisterProtocolFor_def RegisterProtocol_def UnregisterProtocol_def InterceptProtocolFor_def
  InterceptProtocol_def UninterceptProtocol_def registry_RegisterProtocol_def registry_UnregisterProtocol_def
  registry_InterceptProtocol_def registry_UninterceptProtocol_def try_emplace_def erase_def

interpretation registered: scheme_table run_protocol register_view handlers
proof
  fix p ty s h r
  show "register_view p = Some (Put ty s h) \<Longrightarrow>
      handlers (run_protocol p r) = (if handlers r s = None then (handlers r)(s \<mapsto> (ty, h)) else handlers r)"
    by (cases p) (auto simp: protocol_defs Let_def split: option.splits)
  show "register_view p = Some (Drop s) \<Longrightarrow> handlers (run_protocol p r) = (handlers r)(s := None)"
    by (cases p) (auto simp: protocol_defs Let_def split: option.splits)
  show "register_view p = None \<Longrightarrow> handlers (run_protocol p r) = handlers r"
    by (cases p) (auto simp: protocol_defs Let_def split: option.splits)
qed

interpretation intercepted: scheme_table run_protocol intercept_view intercept_handlers
proof
  fix p ty s h r
  show "intercept_view p = Some (Put ty s h) \<Longrightarrow>
      intercept_handlers (run_protocol p r) =
        (if intercept_handlers r s = None then (intercept_handlers r)(s \<mapsto> (ty, h)) else intercept_handlers r)"
    by (cases p) (auto simp: protocol_defs Let_def split: option.splits)
  show "intercept_view p = Some (Drop s) \<Longrightarrow> intercept_handlers (run_protocol p r) = (intercept_handlers r)(s := None)"
    by (cases p) (auto simp: protocol_defs Let_def split: option.splits)
  show "intercept_view p = None \<Longrightarrow> intercept_handlers (run_protocol p r) = intercept_handlers r"
    by (cases p) (auto simp: protocol_defs Let_def split: option.splits)
qed

lemma register_view_simps [simp]:
  "register_view p = Some (Put ty s h) \<longleftrightarrow> (\<exists>cb. p = OpRegister ty s h cb)"
  "register_view p = Some (Drop s) \<longleftrightarrow> (\<exists>cb. p = OpUnregister s cb)"
  "intercept_view p = Some (Put ty s h) \<longleftrightarrow> (\<exists>cb. p = OpIntercept ty s h cb)"
  "intercept_view p = Some (Drop s) \<longleftrightarrow> (\<exists>cb. p = OpUnintercept s cb)"
  by (cases p; auto)+

lemma registered_history:
  "handlers (fold run_protocol ops ProtocolRegistry_init) s = Some (ty, h) \<longleftrightarrow>
   (\<exists>pre cb post. ops = pre @ OpRegister ty s h cb # post \<and>
      \<not> IsProtocolRegistered s (fold run_protocol pre ProtocolRegistry_init) \<and> (\<forall>cb'. OpUnregister s cb' \<notin> set post))"
proof -
  have "handlers ProtocolRegistry_init = Map.empty" by (simp add: ProtocolRegistry_init_def)
  note H = registered.history[OF this, of ops s ty h]
  show ?thesis
    unfolding H IsProtocolRegistered_def registry_IsProtocolRegistered_def not_not register_view_simps by blast
qed

lemma intercepted_history:
  "intercept_handlers (fold run_protocol ops ProtocolRegistry_init) s = Some (ty, h) \<longleftrightarrow>
   (\<exists>pre cb post. ops = pre @ OpIntercept ty s h cb # post \<and>
      \<not> IsProtocolIntercepted s (fold run_protocol pre ProtocolRegistry_init) \<and> (\<forall>cb'. OpUnintercept s cb' \<notin> set post))"
proof -
  have "intercept_handlers ProtocolRegistry_init = Map.empty" by (simp add: ProtocolRegistry_init_def)
  note H = intercepted.history[OF this, of ops s ty h]
  show ?thesis
    unfolding H IsProtocolIntercepted_def registry_IsProtocolIntercepted_def not_not register_view_simps by blast
qed

lemma RegisterURLLoaderFactories_handler:
  assumes "factories s = None" "s = ''file'' \<longrightarrow> \<not> allow"
  shows "RegisterURLLoaderFactories factories allow r s = Some (ElectronURLLoaderFactory ty h) \<longleftrightarrow> handlers r s = Some (ty, h)"
  using assms by (auto simp: RegisterURLLoaderFactories_def Let_def split: option.splits)

text \<open>
  After any sequence of calls of the protocol module, a scheme that Chromium has no factory for is
  loaded with exactly the handler of the first registration since the scheme was last unregistered (or
  not at all), whatever is intercepted in between; \<open>file\<close> gets the factory for archives exactly where
  Chromium or the caller allows file access, even when a handler is registered for it. Likewise the
  intercepting handler of a scheme is the first one since it was last unintercepted.
\<close>

theorem protocol_history:
  fixes ops :: "protocol_op list"
  defines "r \<equiv> fold run_protocol ops ProtocolRegistry_init"
  shows "(factories s = None \<and> (s = ''file'' \<longrightarrow> \<not> allow) \<longrightarrow>
      (RegisterURLLoaderFactories factories allow r s = Some (ElectronURLLoaderFactory ty h) \<longleftrightarrow>
       (\<exists>pre cb post. ops = pre @ OpRegister ty s h cb # post \<and>
          \<not> IsProtocolRegistered s (fold run_protocol pre ProtocolRegistry_init) \<and> (\<forall>cb'. OpUnregister s cb' \<notin> set post)))) \<and>
    (factories ''file'' \<noteq> None \<or> allow \<longrightarrow> RegisterURLLoaderFactories factories allow r ''file'' = Some AsarURLLoaderFactory) \<and>
    (intercept_handlers r s = Some (ty, h) \<longleftrightarrow>
       (\<exists>pre cb post. ops = pre @ OpIntercept ty s h cb # post \<and>
          \<not> IsProtocolIntercepted s (fold run_protocol pre ProtocolRegistry_init) \<and> (\<forall>cb'. OpUnintercept s cb' \<notin> set post)))"
proof (intro conjI impI)
  assume "factories s = None \<and> (s = ''file'' \<longrightarrow> \<not> allow)"
  then show "RegisterURLLoaderFactories factories allow r s = Some (ElectronURLLoaderFactory ty h) \<longleftrightarrow>
       (\<exists>pre cb post. ops = pre @ OpRegister ty s h cb # post \<and>
          \<not> IsProtocolRegistered s (fold run_protocol pre ProtocolRegistry_init) \<and> (\<forall>cb'. OpUnregister s cb' \<notin> set post))"
    unfolding r_def using RegisterURLLoaderFactories_handler registered_history by simp
qed (auto simp: RegisterURLLoaderFactories_def r_def intercepted_history)

theorem protocol_history_witness:
  "RegisterURLLoaderFactories Map.empty False
     (fold run_protocol [OpRegister kString ''app'' 1 None, OpRegister kFile ''app'' 2 None] ProtocolRegistry_init) ''app'' =
   Some (ElectronURLLoaderFactory kString 1)"
proof -
  let ?ops = "[OpRegister kString ''app'' 1 None, OpRegister kFile ''app'' 2 None]"
  have "\<exists>pre cb post. ?ops = pre @ OpRegister kString ''app'' 1 cb # post \<and>
      \<not> IsProtocolRegistered ''app'' (fold run_protocol pre ProtocolRegistry_init) \<and> (\<forall>cb'. OpUnregister ''app'' cb' \<notin> set post)"
    by (intro exI[of _ "[]"] exI[of _ None] exI[of _ "[OpRegister kFile ''app'' 2 None]"])
      (simp add: IsProtocolRegistered_def registry_IsProtocolRegistered_def ProtocolRegistry_init_def)
  then show ?thesis
    using protocol_history[of Map.empty "''app''" False ?ops kString 1] by simp
qed

section \<open>Privileges reach the other processes\<close>

text \<open>The documented law of joining and splitting at commas: names without commas and surrounding
  space come back.\<close>

definition split_join :: "string_ops \<Rightarrow> (string \<Rightarrow> bool) \<Rightarrow> bool" where
  "split_join ops ok \<longleftrightarrow> (\<forall>xs. (\<forall>x \<in> set xs. ok x) \<longrightarrow> SplitString ops (JoinString ops xs) = xs) \<and> SplitString ops [] = []"

definition with_privilege :: "(SchemeOptions \<Rightarrow> bool) \<Rightarrow> CustomScheme list \<Rightarrow> string list" where
  "with_privilege opt cs = map cs_scheme (filter (\<lambda>c. opt (cs_options c)) cs)"

lemma with_privilege_simps [simp]:
  "with_privilege opt [] = []"
  "with_privilege opt (c # cs) = (if opt (cs_options c) then [cs_scheme c] else []) @ with_privilege opt cs"
  by (simp_all add: with_privilege_def)

lemma privilege_step_eq:
  "privilege_step c ((sec, csp, cors, fetch, sw), p) =
   ((sec @ with_privilege opt_secure [c], csp @ with_privilege opt_bypassCSP [c], cors @ with_privilege opt_corsEnabled [c],
     fetch @ with_privilege opt_supportFetchAPI [c], sw @ with_privilege opt_allowServiceWorkers [c]),
    p\<lparr>ps_standard := ps_standard p @ with_privilege opt_standard [c],
      g_standard_schemes := g_standard_schemes p @ with_privilege opt_standard [c],
      ps_web_safe := ps_web_safe p @ with_privilege opt_standard [c],
      ps_secure := ps_secure p @ with_privilege opt_secure [c],
      ps_csp_bypassing := ps_csp_bypassing p @ with_privilege opt_bypassCSP [c],
      ps_cors := ps_cors p @ with_privilege opt_corsEnabled [c],
      ps_service_worker := ps_service_worker p @ with_privilege opt_allowServiceWorkers [c],
      g_streaming_schemes := g_streaming_schemes p @ with_privilege opt_stream [c]\<rparr>)"
  by (cases "opt_standard (cs_options c)"; cases "opt_secure (cs_options c)"; cases "opt_bypassCSP (cs_options c)";
      cases "opt_corsEnabled (cs_options c)"; cases "opt_supportFetchAPI (cs_options c)";
      cases "opt_allowServiceWorkers (cs_options c)"; cases "opt_stream (cs_options c)";
      simp add: privilege_step_def AddServiceWorkerScheme_def Let_def)

lemma with_privilege_Cons: "with_privilege opt (c # cs) = with_privilege opt [c] @ with_privilege opt cs"
  by (simp add: with_privilege_def)

lemma fold_privilege_step:
  "fold privilege_step cs ((sec, csp, cors, fetch, sw), p) =
   ((sec @ with_privilege opt_secure cs, csp @ with_privilege opt_bypassCSP cs, cors @ with_privilege opt_corsEnabled cs,
     fetch @ with_privilege opt_supportFetchAPI cs, sw @ with_privilege opt_allowServiceWorkers cs),
    p\<lparr>ps_standard := ps_standard p @ with_privilege opt_standard cs,
      g_standard_schemes := g_standard_schemes p @ with_privilege opt_standard cs,
      ps_web_safe := ps_web_safe p @ with_privilege opt_standard cs,
      ps_secure := ps_secure p @ with_privilege opt_secure cs,
      ps_csp_bypassing := ps_csp_bypassing p @ with_privilege opt_bypassCSP cs,
      ps_cors := ps_cors p @ with_privilege opt_corsEnabled cs,
      ps_service_worker := ps_service_worker p @ with_privilege opt_allowServiceWorkers cs,
      g_streaming_schemes := g_streaming_schemes p @ with_privilege opt_stream cs\<rparr>)"
proof (induction cs arbitrary: sec csp cors fetch sw p)
  case Nil
  then show ?case by simp
next
  case (Cons c cs)
  show ?case
    unfolding fold_Cons o_apply privilege_step_eq Cons.IH
    by (simp del: with_privilege_simps(2) add: with_privilege_Cons [of _ c cs])
qed

text \<open>A process that has just started, with the switches Chromium gave it.\<close>

definition process_start :: "(string \<rightharpoonup> string) \<Rightarrow> process_schemes" where
  "process_start sw = \<lparr>ps_standard = [], ps_web_safe = [], ps_secure = [], ps_csp_bypassing = [], ps_cors = [],
     ps_service_worker = [], ps_fetch = [], ps_streaming = [], ps_blink_service_worker = [], ps_savable = [],
     g_standard_schemes = [], g_streaming_schemes = [], ps_switches = sw\<rparr>"

definition scheme_switch :: "CustomScheme list \<Rightarrow> string \<Rightarrow> string list option" where
  "scheme_switch cs n = map_of
     [(''secure-schemes'', with_privilege opt_secure cs), (''bypasscsp-schemes'', with_privilege opt_bypassCSP cs),
      (''cors-schemes'', with_privilege opt_corsEnabled cs), (''fetch-schemes'', with_privilege opt_supportFetchAPI cs),
      (''service-worker-schemes'', with_privilege opt_allowServiceWorkers cs), (''standard-schemes'', with_privilege opt_standard cs),
      (''streaming-schemes'', with_privilege opt_stream cs)] n"

lemma privileged_switches:
  assumes "scheme_switch cs n = Some l"
  shows "ps_switches (CopySwitches (api_RegisterSchemesAsPrivileged ops cs (process_start sw)) child) n = Some (JoinString ops l)"
  using assms
  by (auto simp: api_RegisterSchemesAsPrivileged_def fold_privilege_step AppendSchemesToCmdLine_def CopySwitches_def
      kCommonSwitchNames_def process_start_def scheme_switch_def split: if_splits)

lemma parsed_privileges:
  assumes "split_join ops ok" "\<forall>c \<in> set cs. ok (cs_scheme c)" "scheme_switch cs n = Some l"
    "ps_switches p = ps_switches (CopySwitches (api_RegisterSchemesAsPrivileged ops cs (process_start sw)) child)"
  shows "ParseSchemesCLISwitch ops p n = l" "AppendDelimitedSwitchToVector ops p n xs = xs @ l"
proof -
  have "\<forall>x \<in> set l. ok x"
    using assms(2,3) by (auto simp: scheme_switch_def with_privilege_def split: if_splits)
  then have l: "SplitString ops (JoinString ops l) = l" and e: "SplitString ops [] = []"
    using assms(1) by (simp_all add: split_join_def)
  show "ParseSchemesCLISwitch ops p n = l"
    using privileged_switches[OF assms(3)] assms(4) l by (simp add: ParseSchemesCLISwitch_def GetSwitchValueASCII_def)
  show "AppendDelimitedSwitchToVector ops p n xs = xs @ l"
    using privileged_switches[OF assms(3)] assms(4) l e
    by (cases "JoinString ops l = []") (auto simp: AppendDelimitedSwitchToVector_def GetSwitchValueASCII_def)
qed

lemma fold_AddServiceWorkerScheme: "fold AddServiceWorkerScheme xs p = p\<lparr>ps_service_worker := ps_service_worker p @ xs\<rparr>"
  by (induction xs arbitrary: p) (simp_all add: AddServiceWorkerScheme_def)

text \<open>
  C25: Privileges of custom schemes reach the other processes unchanged: when the names of the schemes have
  no commas or spaces around them, a renderer started after \<open>registerSchemesAsPrivileged\<close> gives each of the
  seven privileges to exactly the schemes that ask for it (besides its own \<open>file\<close> and
  \<open>chrome-extension\<close>), and a utility process gives each of its five privileges to exactly these schemes.
\<close>

theorem privileges_reach_processes:
  assumes "split_join ops ok" "\<forall>c \<in> set cs. ok (cs_scheme c)"
    "RegisterSchemesAsPrivileged ops False (Some cs) (process_start sw) = Inr browser"
    "child = CopySwitches browser (process_start sw')"
    "r = RenderThreadStarted ops (RendererClientBase ops child)" "u = AddAdditionalSchemes ops True False child"
  shows "ps_standard r = with_privilege opt_standard cs \<and> ps_secure r = with_privilege opt_secure cs \<and>
    ps_cors r = with_privilege opt_corsEnabled cs \<and> ps_streaming r = with_privilege opt_stream cs \<and>
    ps_csp_bypassing r = ''chrome-extension'' # with_privilege opt_bypassCSP cs \<and>
    ps_fetch r = ''chrome-extension'' # with_privilege opt_supportFetchAPI cs @ [''file''] \<and>
    ps_service_worker r = with_privilege opt_allowServiceWorkers cs \<and>
    ps_blink_service_worker r = with_privilege opt_allowServiceWorkers cs @ [''file''] \<and>
    ps_standard u = with_privilege opt_standard cs \<and> ps_secure u = with_privilege opt_secure cs \<and>
    ps_cors u = with_privilege opt_corsEnabled cs \<and> ps_csp_bypassing u = with_privilege opt_bypassCSP cs \<and>
    ps_service_worker u = with_privilege opt_allowServiceWorkers cs @ [''file'']"
proof -
  have b: "child = CopySwitches (api_RegisterSchemesAsPrivileged ops cs (process_start sw)) (process_start sw')"
    using assms(3,4) by (simp add: RegisterSchemesAsPrivileged_def)
  note P = parsed_privileges[OF assms(1,2)]
  have L: "ps_standard child = []" "ps_secure child = []" "ps_csp_bypassing child = []" "ps_cors child = []"
    "ps_service_worker child = []" "ps_fetch child = []" "ps_streaming child = []" "ps_blink_service_worker child = []"
    by (simp_all add: b CopySwitches_def process_start_def)
  have S: "ps_switches (RendererClientBase ops child) = ps_switches child"
    by (simp add: RendererClientBase_def fold_AddServiceWorkerScheme Let_def)
  have R: "ParseSchemesCLISwitch ops p n = l" "AppendDelimitedSwitchToVector ops p n xs = xs @ l"
    if "scheme_switch cs n = Some l" "ps_switches p = ps_switches child" for n l p xs
    using that P[where p = p and n = n and l = l and sw = sw and child = "process_start sw'"] by (simp_all add: b)
  show ?thesis
    unfolding assms(5,6)
    by (simp add: RenderThreadStarted_def RendererClientBase_def AddAdditionalSchemes_def fold_AddServiceWorkerScheme R L Let_def
        scheme_switch_def)
qed

text \<open>Joining and splitting at commas, for instances.\<close>

fun comma_split :: "string \<Rightarrow> string list" where
  "comma_split [] = [[]]"
| "comma_split (c # cs) = (if c = CHR '','' then [] # comma_split cs else (c # hd (comma_split cs)) # tl (comma_split cs))"

fun comma_join :: "string list \<Rightarrow> string" where
  "comma_join [] = []"
| "comma_join [x] = x"
| "comma_join (x # y # xs) = x @ CHR '','' # comma_join (y # xs)"

definition comma_ops :: string_ops where
  "comma_ops = \<lparr>JoinString = comma_join, SplitString = (\<lambda>s. filter (\<lambda>x. x \<noteq> []) (comma_split s))\<rparr>"

definition scheme_name_ok :: "string \<Rightarrow> bool" where
  "scheme_name_ok x \<longleftrightarrow> x \<noteq> [] \<and> CHR '','' \<notin> set x"

lemma comma_split_plain: "CHR '','' \<notin> set x \<Longrightarrow> comma_split x = [x]"
  by (induction x) auto

lemma comma_split_first: "CHR '','' \<notin> set x \<Longrightarrow> comma_split (x @ CHR '','' # s) = x # comma_split s"
  by (induction x) auto

lemma comma_split_join: "\<forall>x \<in> set xs. scheme_name_ok x \<Longrightarrow> filter (\<lambda>x. x \<noteq> []) (comma_split (comma_join xs)) = xs"
  by (induction xs rule: comma_join.induct) (simp_all add: scheme_name_ok_def comma_split_plain comma_split_first)

lemma comma_ops_law: "split_join comma_ops scheme_name_ok"
  by (simp add: split_join_def comma_ops_def comma_split_join)

theorem privileges_reach_processes_witness:
  "let app = \<lparr>cs_scheme = ''app'', cs_options = \<lparr>opt_standard = True, opt_secure = True, opt_bypassCSP = False,
         opt_allowServiceWorkers = False, opt_supportFetchAPI = True, opt_corsEnabled = False, opt_stream = True\<rparr>\<rparr>;
       browser = api_RegisterSchemesAsPrivileged comma_ops [app, app\<lparr>cs_scheme := ''media''\<rparr>] (process_start Map.empty)
   in ps_secure (RenderThreadStarted comma_ops (RendererClientBase comma_ops (CopySwitches browser (process_start Map.empty)))) =
      [''app'', ''media'']"
  unfolding Let_def
  by (subst privileges_reach_processes[OF comma_ops_law _ _ refl refl refl, THEN conjunct2, THEN conjunct1])
    (auto simp: RegisterSchemesAsPrivileged_def scheme_name_ok_def)

end
