(* ===== verification/Proxy_Lookup.thy ===== *)
theory Proxy_Lookup
  imports Prelude
begin

text \<open>
  The queue of proxy lookups (shell/browser/net/resolve\_proxy\_helper.cc). One lookup at a time is
  with the network service; the others wait. A callback is a number; when it runs, scripts may ask for
  further lookups at once, which is a parameter that may depend on all answers so far.
\<close>

section \<open>State and operations\<close>

type_synonym proxy_request = "string \<times> nat option"

record ResolveProxyHelper =
  pending_requests :: "proxy_request list"
  receiver :: "nat option"
  lookups :: "string list"
  completed :: "(proxy_request \<times> string) list"
  requested :: "proxy_request list"

text \<open>\<open>receiver\<close> names the lookup whose answer arrives here; \<open>lookups\<close> are those sent to the network
  service. \<open>completed\<close> and \<open>requested\<close> record the answers given and the calls made.\<close>

definition ResolveProxyHelper_init :: ResolveProxyHelper where
  "ResolveProxyHelper_init = \<lparr>pending_requests = [], receiver = None, lookups = [], completed = [], requested = []\<rparr>"

definition StartPendingRequest :: "ResolveProxyHelper \<Rightarrow> ResolveProxyHelper option" where
  "StartPendingRequest st =
     (case pending_requests st of
        [] \<Rightarrow> None
      | (url, _) # _ \<Rightarrow> Some (st\<lparr>receiver := Some (length (lookups st)), lookups := lookups st @ [url]\<rparr>))"

definition ResolveProxy :: "string \<Rightarrow> nat option \<Rightarrow> ResolveProxyHelper \<Rightarrow> ResolveProxyHelper option" where
  "ResolveProxy url cb st =
     (let st1 = st\<lparr>pending_requests := pending_requests st @ [(url, cb)], requested := requested st @ [(url, cb)]\<rparr>
      in if receiver st1 = None then StartPendingRequest st1 else Some st1)"

fun resolve_all :: "proxy_request list \<Rightarrow> ResolveProxyHelper \<Rightarrow> ResolveProxyHelper option" where
  "resolve_all [] st = Some st"
| "resolve_all ((url, cb) # rs) st = do { st1 \<leftarrow> ResolveProxy url cb st; resolve_all rs st1 }"

definition OnProxyLookupComplete ::
  "(nat \<Rightarrow> (proxy_request \<times> string) list \<Rightarrow> proxy_request list) \<Rightarrow> string option \<Rightarrow> ResolveProxyHelper \<Rightarrow> ResolveProxyHelper option" where
  "OnProxyLookupComplete react proxy_info st =
     (case pending_requests st of
        [] \<Rightarrow> None
      | request # rest \<Rightarrow>
          let proxy = (case proxy_info of Some pac \<Rightarrow> pac | None \<Rightarrow> []);
              st1 = st\<lparr>receiver := None, pending_requests := rest, completed := completed st @ [(request, proxy)]\<rparr>
          in do {
            st2 \<leftarrow> (case snd request of
                     None \<Rightarrow> Some st1
                   | Some cb \<Rightarrow> resolve_all (react cb (completed st1)) st1);
            if pending_requests st2 \<noteq> [] then StartPendingRequest st2 else Some st2 })"

section \<open>Every request is answered once, in order\<close>

inductive proxy_reach :: "(nat \<Rightarrow> (proxy_request \<times> string) list \<Rightarrow> proxy_request list) \<Rightarrow> ResolveProxyHelper \<Rightarrow> bool" for react where
  proxy_start: "proxy_reach react ResolveProxyHelper_init"
| proxy_ask: "proxy_reach react st \<Longrightarrow> ResolveProxy url cb st = Some st' \<Longrightarrow> proxy_reach react st'"
| proxy_answer: "proxy_reach react st \<Longrightarrow> receiver st \<noteq> None \<Longrightarrow> OnProxyLookupComplete react info st = Some st' \<Longrightarrow> proxy_reach react st'"

definition proxy_queue :: "ResolveProxyHelper \<Rightarrow> bool" where
  "proxy_queue st \<longleftrightarrow> map fst (completed st) @ pending_requests st = requested st"

definition proxy_inv :: "ResolveProxyHelper \<Rightarrow> bool" where
  "proxy_inv st \<longleftrightarrow> proxy_queue st \<and>
     (case receiver st of
        None \<Rightarrow> pending_requests st = []
      | Some i \<Rightarrow> i < length (lookups st) \<and> pending_requests st \<noteq> [] \<and> lookups st ! i = fst (hd (pending_requests st)))"

lemma StartPendingRequest_ok:
  assumes "proxy_queue st" "pending_requests st \<noteq> []"
  obtains st' where "StartPendingRequest st = Some st'" "proxy_inv st'" "completed st' = completed st" "requested st' = requested st"
proof -
  obtain url cb rest where p: "pending_requests st = (url, cb) # rest" using assms(2) by (cases "pending_requests st") auto
  then show ?thesis using assms(1) that by (auto simp: StartPendingRequest_def proxy_inv_def proxy_queue_def)
qed

text \<open>During a callback the queue may be non-empty without a lookup.\<close>

lemma ResolveProxy_ok:
  assumes "proxy_queue st" "receiver st \<noteq> None \<longrightarrow> proxy_inv st"
  obtains st' where "ResolveProxy url cb st = Some st'" "proxy_inv st'" "completed st' = completed st"
    "requested st' = requested st @ [(url, cb)]"
proof (cases "receiver st")
  case None
  define st1 where "st1 = st\<lparr>pending_requests := pending_requests st @ [(url, cb)], requested := requested st @ [(url, cb)]\<rparr>"
  have "proxy_queue st1" "pending_requests st1 \<noteq> []" using assms(1) by (auto simp: st1_def proxy_queue_def)
  then obtain st' where "StartPendingRequest st1 = Some st'" "proxy_inv st'" "completed st' = completed st1" "requested st' = requested st1"
    by (rule StartPendingRequest_ok)
  then show ?thesis using that None by (simp add: ResolveProxy_def st1_def)
next
  case (Some i)
  with assms that show ?thesis
    by (auto simp: ResolveProxy_def proxy_inv_def proxy_queue_def hd_append)
qed

lemma resolve_all_ok:
  "proxy_queue st \<Longrightarrow> receiver st \<noteq> None \<longrightarrow> proxy_inv st \<Longrightarrow>
   \<exists>st'. resolve_all rs st = Some st' \<and> proxy_queue st' \<and> (receiver st' \<noteq> None \<longrightarrow> proxy_inv st') \<and>
     completed st' = completed st \<and> requested st' = requested st @ rs"
proof (induction rs arbitrary: st)
  case Nil
  then show ?case by simp
next
  case (Cons r rs)
  obtain url cb where r: "r = (url, cb)" by fastforce
  obtain st1 where "ResolveProxy url cb st = Some st1" "proxy_inv st1" "completed st1 = completed st"
    "requested st1 = requested st @ [(url, cb)]" by (rule ResolveProxy_ok[OF Cons.prems])
  then show ?case using Cons.IH[of st1] r by (auto simp: proxy_inv_def)
qed

lemma proxy_inv_queue: "proxy_inv st \<Longrightarrow> proxy_queue st"
  by (simp add: proxy_inv_def)

lemma OnProxyLookupComplete_ok:
  assumes "proxy_inv st" "pending_requests st = request # rest"
  obtains st' where "OnProxyLookupComplete react info st = Some st'" "proxy_inv st'"
    "completed st' = completed st @ [(request, case info of Some pac \<Rightarrow> pac | None \<Rightarrow> [])]"
proof -
  define st1 where "st1 = st\<lparr>receiver := None, pending_requests := rest,
    completed := completed st @ [(request, case info of Some pac \<Rightarrow> pac | None \<Rightarrow> [])]\<rparr>"
  have q: "proxy_queue st1" using assms by (simp add: st1_def proxy_inv_def proxy_queue_def)
  define m where "m = (case snd request of None \<Rightarrow> Some st1 | Some cb \<Rightarrow> resolve_all (react cb (completed st1)) st1)"
  have "\<exists>st2. m = Some st2 \<and> proxy_queue st2 \<and> (receiver st2 \<noteq> None \<longrightarrow> proxy_inv st2) \<and> completed st2 = completed st1"
  proof (cases "snd request")
    case None
    then show ?thesis using q by (simp add: m_def) (simp add: st1_def)
  next
    case (Some cb)
    then show ?thesis using resolve_all_ok[OF q, of "react cb (completed st1)"] by (auto simp: m_def) (auto simp: st1_def)
  qed
  then obtain st2 where st2: "m = Some st2" "proxy_queue st2" "receiver st2 \<noteq> None \<longrightarrow> proxy_inv st2" "completed st2 = completed st1"
    by blast
  have C: "OnProxyLookupComplete react info st = (if pending_requests st2 \<noteq> [] then StartPendingRequest st2 else Some st2)"
  proof -
    have "OnProxyLookupComplete react info st =
        m \<bind> (\<lambda>st2. if pending_requests st2 \<noteq> [] then StartPendingRequest st2 else Some st2)"
      unfolding OnProxyLookupComplete_def m_def st1_def Let_def by (simp only: assms(2) list.case)
    then show ?thesis by (simp add: st2(1))
  qed
  show ?thesis
  proof (cases "pending_requests st2 = []")
    case True
    then have "proxy_inv st2" using st2 by (auto simp: proxy_inv_def split: option.splits)
    then show ?thesis using that C True st2(4) by (simp add: st1_def)
  next
    case False
    from StartPendingRequest_ok[OF st2(2) False] C False st2(4) that show ?thesis by (auto simp: st1_def)
  qed
qed

lemma proxy_reach_inv: "proxy_reach react st \<Longrightarrow> proxy_inv st"
proof (induction rule: proxy_reach.induct)
  case proxy_start
  show ?case by (simp add: proxy_inv_def proxy_queue_def ResolveProxyHelper_init_def)
next
  case (proxy_ask st url cb st')
  then show ?case using ResolveProxy_ok[of st url cb] proxy_inv_queue by force
next
  case (proxy_answer st info st')
  from proxy_answer obtain r rest where p: "pending_requests st = r # rest"
    by (cases "pending_requests st") (auto simp: proxy_inv_def)
  from OnProxyLookupComplete_ok[OF proxy_answer.IH p, of react info] proxy_answer show ?case by auto
qed

text \<open>
  The lookups of proxies are a queue, even when callbacks ask for further lookups while they run: the
  requests are answered one by one in the order they were made, each exactly once; while requests wait, a
  lookup for exactly the first of them is with the network service, and its answer (or the loss of the
  connection) answers that request and leaves the helper in such a state again.
\<close>

theorem proxy_requests_in_order:
  assumes "proxy_reach react st"
  shows "map fst (completed st) @ pending_requests st = requested st \<and>
    (pending_requests st = [] \<longleftrightarrow> receiver st = None) \<and>
    (\<forall>r rest. pending_requests st = r # rest \<longrightarrow>
       (\<exists>i. receiver st = Some i \<and> lookups st ! i = fst r) \<and>
       (\<forall>info. \<exists>st'. OnProxyLookupComplete react info st = Some st' \<and> proxy_reach react st' \<and>
          completed st' = completed st @ [(r, case info of Some pac \<Rightarrow> pac | None \<Rightarrow> [])])) \<and>
    (\<forall>url cb. \<exists>st'. ResolveProxy url cb st = Some st' \<and> proxy_reach react st' \<and> requested st' = requested st @ [(url, cb)])"
proof -
  have inv: "proxy_inv st" by (rule proxy_reach_inv[OF assms])
  have 1: "\<exists>st'. OnProxyLookupComplete react info st = Some st' \<and> proxy_reach react st' \<and>
      completed st' = completed st @ [(r, case info of Some pac \<Rightarrow> pac | None \<Rightarrow> [])]"
    if p: "pending_requests st = r # rest" for r rest info
  proof -
    obtain st' where st': "OnProxyLookupComplete react info st = Some st'"
      "completed st' = completed st @ [(r, case info of Some pac \<Rightarrow> pac | None \<Rightarrow> [])]"
      by (rule OnProxyLookupComplete_ok[OF inv p])
    have "receiver st \<noteq> None" using inv p by (auto simp: proxy_inv_def split: option.splits)
    then show ?thesis using st' proxy_answer[OF assms _ st'(1)] by blast
  qed
  have 2: "\<exists>st'. ResolveProxy url cb st = Some st' \<and> proxy_reach react st' \<and> requested st' = requested st @ [(url, cb)]" for url cb
    using ResolveProxy_ok[OF proxy_inv_queue[OF inv], of url cb] inv proxy_ask[OF assms] by metis
  show ?thesis using 1 2 inv by (auto simp: proxy_inv_def proxy_queue_def split: option.splits)
qed

section \<open>Instances\<close>

definition two_lookups :: "ResolveProxyHelper option" where
  "two_lookups = do { st \<leftarrow> ResolveProxy ''a'' (Some 0) ResolveProxyHelper_init; ResolveProxy ''b'' (Some 1) st }"

theorem proxy_requests_in_order_witness:
  "\<exists>st st'. two_lookups = Some st \<and> OnProxyLookupComplete (\<lambda>cb l. []) (Some ''DIRECT'') st = Some st' \<and>
     completed st' = [((''a'', Some 0), ''DIRECT'')]"
proof -
  obtain st where st: "two_lookups = Some st" "completed st = []" "pending_requests st = [(''a'', Some 0), (''b'', Some 1)]"
    by (simp add: two_lookups_def ResolveProxy_def StartPendingRequest_def ResolveProxyHelper_init_def)
  have "proxy_reach (\<lambda>cb l. []) st"
    using st(1) unfolding two_lookups_def bind_eq_Some_conv by (blast intro: proxy_ask proxy_start)
  from proxy_requests_in_order[OF this] st show ?thesis by fastforce
qed

text \<open>A callback that asks for a lookup while others wait makes the helper start two lookups for the first
  of them: \<open>ResolveProxy\<close> starts one because the receiver is unbound, and \<open>OnProxyLookupComplete\<close> starts it
  again over the bound receiver.\<close>

lemma reentrant_lookup_twice:
  "(do { st \<leftarrow> two_lookups; st1 \<leftarrow> OnProxyLookupComplete (\<lambda>cb l. [(''c'', None)]) None st; Some (lookups st1) }) =
   Some [''a'', ''b'', ''b'']"
  by code_simp

end
