(* ===== verification/Power_Save.thy ===== *)
theory Power_Save
  imports Prelude
begin

text \<open>
  The power save blockers of the scripts (shell/browser/api/electron\_api\_power\_save\_blocker.cc): many
  blockers share one wake lock of the device service. The calls on the wake lock are recorded; the
  counter of identifiers is an \<open>int\<close>, so that the call after the last one is undefined.
\<close>

section \<open>State and operations\<close>

datatype WakeLockType = kPreventAppSuspension | kPreventDisplaySleep

datatype wake_lock_call = GetWakeLockWithoutContext WakeLockType | ChangeType WakeLockType | RequestWakeLock | CancelWakeLock

record PowerSaveBlocker =
  current_lock_type :: WakeLockType
  is_wake_lock_active :: bool
  wake_lock_types :: "(int \<times> WakeLockType) list"
  wake_lock_bound :: bool
  blocker_count :: int
  lock_calls :: "wake_lock_call list"

definition WakeLockType_FromV8 :: "string option \<Rightarrow> WakeLockType option" where
  "WakeLockType_FromV8 val =
     (case val of
        None \<Rightarrow> None
      | Some type \<Rightarrow>
          if type = ''prevent-app-suspension'' then Some kPreventAppSuspension
          else if type = ''prevent-display-sleep'' then Some kPreventDisplaySleep
          else None)"

definition PowerSaveBlocker_init :: PowerSaveBlocker where
  "PowerSaveBlocker_init = \<lparr>current_lock_type = kPreventAppSuspension, is_wake_lock_active = False, wake_lock_types = [],
     wake_lock_bound = False, blocker_count = 0, lock_calls = []\<rparr>"

definition GetWakeLock :: "PowerSaveBlocker \<Rightarrow> PowerSaveBlocker" where
  "GetWakeLock st =
     (if \<not> wake_lock_bound st
      then st\<lparr>wake_lock_bound := True, lock_calls := lock_calls st @ [GetWakeLockWithoutContext kPreventAppSuspension]\<rparr>
      else st)"

definition lock_call :: "wake_lock_call \<Rightarrow> PowerSaveBlocker \<Rightarrow> PowerSaveBlocker" where
  "lock_call c st = (let st1 = GetWakeLock st in st1\<lparr>lock_calls := lock_calls st1 @ [c]\<rparr>)"

text \<open>The loop over the blockers stops at the first one that keeps the display on.\<close>

fun new_lock_type :: "(int \<times> WakeLockType) list \<Rightarrow> WakeLockType" where
  "new_lock_type [] = kPreventAppSuspension"
| "new_lock_type (element # es) = (if snd element = kPreventDisplaySleep then kPreventDisplaySleep else new_lock_type es)"

definition UpdatePowerSaveBlocker :: "PowerSaveBlocker \<Rightarrow> PowerSaveBlocker" where
  "UpdatePowerSaveBlocker st =
     (if wake_lock_types st = [] then
        if is_wake_lock_active st then (lock_call CancelWakeLock st)\<lparr>is_wake_lock_active := False\<rparr> else st
      else
        let t = new_lock_type (wake_lock_types st);
            st1 = (if current_lock_type st \<noteq> t then (lock_call (ChangeType t) st)\<lparr>current_lock_type := t\<rparr> else st)
        in if \<not> is_wake_lock_active st1 then (lock_call RequestWakeLock st1)\<lparr>is_wake_lock_active := True\<rparr> else st1)"

text \<open>The map is ordered by the identifiers, which \<open>Start\<close> gives in ascending order.\<close>

definition set_type :: "int \<Rightarrow> WakeLockType \<Rightarrow> (int \<times> WakeLockType) list \<Rightarrow> (int \<times> WakeLockType) list" where
  "set_type i t m = filter (\<lambda>e. fst e < i) m @ (i, t) # filter (\<lambda>e. fst e > i) m"

definition Start :: "WakeLockType \<Rightarrow> PowerSaveBlocker \<Rightarrow> (int \<times> PowerSaveBlocker) option" where
  "Start type st =
     (let i = blocker_count st;
          st1 = UpdatePowerSaveBlocker (st\<lparr>wake_lock_types := set_type i type (wake_lock_types st)\<rparr>)
      in do { c \<leftarrow> int_checked (i + 1); Some (i, st1\<lparr>blocker_count := c\<rparr>) })"

definition Stop :: "int \<Rightarrow> PowerSaveBlocker \<Rightarrow> bool \<times> PowerSaveBlocker" where
  "Stop n st =
     (let success = (n \<in> fst ` set (wake_lock_types st));
          st1 = UpdatePowerSaveBlocker (st\<lparr>wake_lock_types := filter (\<lambda>e. fst e \<noteq> n) (wake_lock_types st)\<rparr>)
      in (success, st1))"

definition IsStarted :: "int \<Rightarrow> PowerSaveBlocker \<Rightarrow> bool" where
  "IsStarted n st \<longleftrightarrow> n \<in> fst ` set (wake_lock_types st)"

section \<open>The wake lock of the device\<close>

text \<open>What the device service does: a lock has a type and is held or not. \<^const>\<open>None\<close> is a call without
  a lock, a second request or a cancellation of a lock that is not held.\<close>

fun device_step :: "wake_lock_call \<Rightarrow> (WakeLockType \<times> bool) option \<Rightarrow> (WakeLockType \<times> bool) option option" where
  "device_step (GetWakeLockWithoutContext t) None = Some (Some (t, False))"
| "device_step (ChangeType t) (Some (_, held)) = Some (Some (t, held))"
| "device_step RequestWakeLock (Some (t, False)) = Some (Some (t, True))"
| "device_step CancelWakeLock (Some (t, True)) = Some (Some (t, False))"
| "device_step _ _ = None"

definition device_lock :: "wake_lock_call list \<Rightarrow> (WakeLockType \<times> bool) option option" where
  "device_lock l = fold (\<lambda>c s. case s of None \<Rightarrow> None | Some d \<Rightarrow> device_step c d) l (Some None)"

lemma device_lock_simps [simp]:
  "device_lock [] = Some None"
  "device_lock (l @ [c]) = (case device_lock l of None \<Rightarrow> None | Some d \<Rightarrow> device_step c d)"
  by (simp_all add: device_lock_def)

text \<open>The lock the blockers ask for.\<close>

definition wanted_lock :: "(int \<times> WakeLockType) list \<Rightarrow> WakeLockType option" where
  "wanted_lock m =
     (if m = [] then None else if kPreventDisplaySleep \<in> snd ` set m then Some kPreventDisplaySleep else Some kPreventAppSuspension)"

definition held_lock :: "(WakeLockType \<times> bool) option \<Rightarrow> WakeLockType option" where
  "held_lock d = (case d of Some (t, True) \<Rightarrow> Some t | _ \<Rightarrow> None)"

text \<open>The invariant of the lock, and of the identifiers.\<close>

definition lock_inv :: "PowerSaveBlocker \<Rightarrow> bool" where
  "lock_inv st \<longleftrightarrow>
     device_lock (lock_calls st) =
       Some (if wake_lock_bound st then Some (current_lock_type st, is_wake_lock_active st) else None) \<and>
     (\<not> wake_lock_bound st \<longrightarrow> current_lock_type st = kPreventAppSuspension \<and> \<not> is_wake_lock_active st)"

definition blockers_ok :: "PowerSaveBlocker \<Rightarrow> bool" where
  "blockers_ok st \<longleftrightarrow> lock_inv st \<and> (is_wake_lock_active st \<longleftrightarrow> wake_lock_types st \<noteq> []) \<and>
     (wake_lock_types st \<noteq> [] \<longrightarrow> current_lock_type st = new_lock_type (wake_lock_types st)) \<and>
     sorted_wrt (<) (map fst (wake_lock_types st)) \<and> (\<forall>e \<in> set (wake_lock_types st). fst e < blocker_count st)"

lemma new_lock_type_wanted: "m \<noteq> [] \<Longrightarrow> wanted_lock m = Some (new_lock_type m)"
proof -
  have "new_lock_type m = (if kPreventDisplaySleep \<in> snd ` set m then kPreventDisplaySleep else kPreventAppSuspension)"
    by (induction m) auto
  then show "m \<noteq> [] \<Longrightarrow> wanted_lock m = Some (new_lock_type m)" by (simp add: wanted_lock_def)
qed

lemma snoc_two: "l @ [a, b] = (l @ [a]) @ [b]"
  by simp

lemma lock_call_simps [simp]:
  "wake_lock_types (lock_call c st) = wake_lock_types st" "blocker_count (lock_call c st) = blocker_count st"
  "current_lock_type (lock_call c st) = current_lock_type st" "is_wake_lock_active (lock_call c st) = is_wake_lock_active st"
  by (simp_all add: lock_call_def GetWakeLock_def Let_def)

lemma lock_inv_ChangeType:
  "lock_inv st \<Longrightarrow> lock_inv ((lock_call (ChangeType t) st)\<lparr>current_lock_type := t\<rparr>)"
  by (cases "wake_lock_bound st")
    (simp_all only: lock_inv_def lock_call_def GetWakeLock_def Let_def, simp_all add: device_lock_def)

lemma lock_inv_Request:
  "lock_inv st \<Longrightarrow> \<not> is_wake_lock_active st \<Longrightarrow> lock_inv ((lock_call RequestWakeLock st)\<lparr>is_wake_lock_active := True\<rparr>)"
  by (cases "wake_lock_bound st")
    (simp_all only: lock_inv_def lock_call_def GetWakeLock_def Let_def, simp_all add: device_lock_def)

lemma lock_inv_Cancel:
  "lock_inv st \<Longrightarrow> is_wake_lock_active st \<Longrightarrow> lock_inv ((lock_call CancelWakeLock st)\<lparr>is_wake_lock_active := False\<rparr>)"
  by (cases "wake_lock_bound st")
    (simp_all only: lock_inv_def lock_call_def GetWakeLock_def Let_def, simp_all add: device_lock_def)

lemma UpdatePowerSaveBlocker_ok:
  assumes "lock_inv st"
  defines "st' \<equiv> UpdatePowerSaveBlocker st"
  shows "lock_inv st'" "is_wake_lock_active st' \<longleftrightarrow> wake_lock_types st \<noteq> []"
    "wake_lock_types st \<noteq> [] \<longrightarrow> current_lock_type st' = new_lock_type (wake_lock_types st)"
    "wake_lock_types st' = wake_lock_types st" "blocker_count st' = blocker_count st"
proof -
  have "lock_inv st' \<and> (is_wake_lock_active st' \<longleftrightarrow> wake_lock_types st \<noteq> []) \<and>
    (wake_lock_types st \<noteq> [] \<longrightarrow> current_lock_type st' = new_lock_type (wake_lock_types st)) \<and>
    wake_lock_types st' = wake_lock_types st \<and> blocker_count st' = blocker_count st"
    using assms(1) unfolding st'_def UpdatePowerSaveBlocker_def
    by (auto simp: Let_def lock_inv_ChangeType lock_inv_Cancel lock_inv_Request)
  then show "lock_inv st'" "is_wake_lock_active st' \<longleftrightarrow> wake_lock_types st \<noteq> []"
    "wake_lock_types st \<noteq> [] \<longrightarrow> current_lock_type st' = new_lock_type (wake_lock_types st)"
    "wake_lock_types st' = wake_lock_types st" "blocker_count st' = blocker_count st" by auto
qed

lemma lock_inv_types [simp]:
  "lock_inv (st\<lparr>wake_lock_types := m\<rparr>) = lock_inv st" "lock_inv (st\<lparr>blocker_count := n\<rparr>) = lock_inv st"
  by (simp_all add: lock_inv_def)

lemma set_type_new: "\<forall>e \<in> set m. fst e < i \<Longrightarrow> set_type i t m = m @ [(i, t)]"
  by (induction m) (auto simp: set_type_def)

lemma blockers_ok_Start:
  assumes "blockers_ok st" "Start type st = Some (i, st')"
  shows "blockers_ok st' \<and> wake_lock_types st' = wake_lock_types st @ [(i, type)] \<and> \<not> IsStarted i st"
proof -
  let ?s = "st\<lparr>wake_lock_types := wake_lock_types st @ [(blocker_count st, type)]\<rparr>"
  have t: "set_type (blocker_count st) type (wake_lock_types st) = wake_lock_types st @ [(blocker_count st, type)]"
    using assms(1) by (simp add: set_type_new blockers_ok_def)
  have i: "i = blocker_count st" "st' = (UpdatePowerSaveBlocker ?s)\<lparr>blocker_count := blocker_count st + 1\<rparr>"
    using assms(2) t by (auto simp: Start_def Let_def int_checked_def bind_eq_Some_conv split: if_splits)
  have "lock_inv ?s" using assms(1) by (simp add: blockers_ok_def)
  from UpdatePowerSaveBlocker_ok[OF this] assms(1) i show ?thesis
    by (auto simp: blockers_ok_def sorted_wrt_append IsStarted_def)
qed

lemma blockers_ok_Stop:
  assumes "blockers_ok st" "Stop n st = (ok, st')"
  shows "blockers_ok st' \<and> wake_lock_types st' = filter (\<lambda>e. fst e \<noteq> n) (wake_lock_types st) \<and> (ok \<longleftrightarrow> IsStarted n st)"
proof -
  let ?s = "st\<lparr>wake_lock_types := filter (\<lambda>e. fst e \<noteq> n) (wake_lock_types st)\<rparr>"
  have i: "st' = UpdatePowerSaveBlocker ?s" "ok \<longleftrightarrow> IsStarted n st"
    using assms(2) by (auto simp: Stop_def Let_def IsStarted_def)
  have s: "sorted_wrt (<) (map fst (filter (\<lambda>e. fst e \<noteq> n) (wake_lock_types st)))"
    using assms(1) by (simp add: blockers_ok_def sorted_wrt_map sorted_wrt_filter)
  have "lock_inv ?s" using assms(1) by (simp add: blockers_ok_def)
  from UpdatePowerSaveBlocker_ok[OF this] assms(1) i s show ?thesis
    by (auto simp: blockers_ok_def)
qed

section \<open>The lock held is the one wanted\<close>

datatype blocker_op = StartBlocker WakeLockType | StopBlocker int

fun run_blocker :: "blocker_op \<Rightarrow> PowerSaveBlocker \<Rightarrow> PowerSaveBlocker option" where
  "run_blocker (StartBlocker t) st = map_option snd (Start t st)"
| "run_blocker (StopBlocker i) st = Some (snd (Stop i st))"

fun run_blockers :: "blocker_op list \<Rightarrow> PowerSaveBlocker \<Rightarrow> PowerSaveBlocker option" where
  "run_blockers [] st = Some st"
| "run_blockers (p # ps) st = do { st1 \<leftarrow> run_blocker p st; run_blockers ps st1 }"

lemma blockers_ok_run: "blockers_ok st \<Longrightarrow> run_blockers ps st = Some st' \<Longrightarrow> blockers_ok st'"
proof (induction ps arbitrary: st)
  case (Cons p ps)
  from Cons.prems(2) obtain st1 where 1: "run_blocker p st = Some st1" "run_blockers ps st1 = Some st'"
    by (auto simp: bind_eq_Some_conv)
  have "blockers_ok st1"
    using 1(1) Cons.prems(1) by (cases p) (auto dest: blockers_ok_Start blockers_ok_Stop[OF _ surjective_pairing])
  then show ?case using Cons.IH 1(2) by blast
qed simp

lemma blockers_ok_init: "blockers_ok PowerSaveBlocker_init"
  by (simp add: blockers_ok_def lock_inv_def PowerSaveBlocker_init_def)

text \<open>
  After any sequence of starts and stops the device holds exactly the wake lock the running blockers
  ask for: none when no blocker runs, one that keeps the display on when some blocker asks for it, and one
  that only keeps the application running otherwise; the calls that lead there are legal (the lock exists
  before it is used, is never requested twice in a row and never cancelled while not held). The next blocker
  gets an identifier no running blocker has.
\<close>

theorem wake_lock_as_wanted:
  assumes "run_blockers ps PowerSaveBlocker_init = Some st"
  shows "\<exists>d. device_lock (lock_calls st) = Some d \<and> held_lock d = wanted_lock (wake_lock_types st) \<and>
    (\<forall>type i st'. Start type st = Some (i, st') \<longrightarrow> \<not> IsStarted i st \<and> IsStarted i st' \<and>
       (\<forall>j. j \<noteq> i \<longrightarrow> IsStarted j st' = IsStarted j st) \<and> \<not> IsStarted i (snd (Stop i st')))"
proof -
  have ok: "blockers_ok st" by (rule blockers_ok_run[OF blockers_ok_init assms])
  have ids: "\<not> IsStarted i st \<and> IsStarted i st' \<and> (\<forall>j. j \<noteq> i \<longrightarrow> IsStarted j st' = IsStarted j st) \<and> \<not> IsStarted i (snd (Stop i st'))"
    if "Start type st = Some (i, st')" for type i st'
    using blockers_ok_Start[OF ok that] blockers_ok_Stop[of st' i, OF _ surjective_pairing] by (auto simp: IsStarted_def)
  let ?d = "if wake_lock_bound st then Some (current_lock_type st, is_wake_lock_active st) else None"
  have d: "device_lock (lock_calls st) = Some ?d" using ok by (simp add: blockers_ok_def lock_inv_def)
  have "held_lock ?d = wanted_lock (wake_lock_types st)"
  proof (cases "wake_lock_types st = []")
    case True
    then show ?thesis using ok by (auto simp: blockers_ok_def held_lock_def wanted_lock_def)
  next
    case False
    moreover from False ok have "is_wake_lock_active st" "wake_lock_bound st"
      "current_lock_type st = new_lock_type (wake_lock_types st)"
      by (auto simp: blockers_ok_def lock_inv_def)
    ultimately show ?thesis by (simp add: held_lock_def new_lock_type_wanted)
  qed
  with d ids show ?thesis by blast
qed

theorem wake_lock_as_wanted_witness:
  "\<exists>st d. run_blockers [StartBlocker kPreventAppSuspension, StartBlocker kPreventDisplaySleep, StopBlocker 0] PowerSaveBlocker_init = Some st \<and>
     device_lock (lock_calls st) = Some d \<and> held_lock d = Some kPreventDisplaySleep"
proof -
  let ?ps = "[StartBlocker kPreventAppSuspension, StartBlocker kPreventDisplaySleep, StopBlocker 0]"
  have "map_option wake_lock_types (run_blockers ?ps PowerSaveBlocker_init) = Some [(1, kPreventDisplaySleep)]" by code_simp
  then obtain st where st: "run_blockers ?ps PowerSaveBlocker_init = Some st" "wake_lock_types st = [(1, kPreventDisplaySleep)]"
    by blast
  from wake_lock_as_wanted[OF st(1)] st show ?thesis by (auto simp: wanted_lock_def)
qed

end
