(* ===== verification/Web_Request.thy ===== *)
theory Web_Request
  imports Prelude
begin

text \<open>
  The listeners of the webRequest module (shell/browser/api/electron\_api\_web\_request.cc) and the requests
  that wait for their answers. URL patterns, the conversion of script values and the listeners themselves
  are parameters; a continuation of a request is a value of a type variable. What a request hands out as
  an out-parameter (a pointer into the request) is a reference, and what is written through it a value.
\<close>

section \<open>State\<close>

datatype SimpleEvent = kOnSendHeaders | kOnBeforeRedirect | kOnResponseStarted | kOnCompleted | kOnErrorOccurred
datatype ResponseEvent = kOnBeforeRequest | kOnBeforeSendHeaders | kOnHeadersReceived

datatype WebRequestResourceType =
  MAIN_FRAME | SUB_FRAME | STYLESHEET | SCRIPT | IMAGE | FONT | OBJECT | XHR | PING | CSP_REPORT | MEDIA | WEB_SOCKET
  | OtherResource nat

fun WebRequestResourceType_ToV8 :: "WebRequestResourceType \<Rightarrow> string" where
  "WebRequestResourceType_ToV8 MAIN_FRAME = ''mainFrame''"
| "WebRequestResourceType_ToV8 SUB_FRAME = ''subFrame''"
| "WebRequestResourceType_ToV8 STYLESHEET = ''stylesheet''"
| "WebRequestResourceType_ToV8 SCRIPT = ''script''"
| "WebRequestResourceType_ToV8 IMAGE = ''image''"
| "WebRequestResourceType_ToV8 FONT = ''font''"
| "WebRequestResourceType_ToV8 OBJECT = ''object''"
| "WebRequestResourceType_ToV8 XHR = ''xhr''"
| "WebRequestResourceType_ToV8 PING = ''ping''"
| "WebRequestResourceType_ToV8 CSP_REPORT = ''cspReport''"
| "WebRequestResourceType_ToV8 MEDIA = ''media''"
| "WebRequestResourceType_ToV8 WEB_SOCKET = ''webSocket''"
| "WebRequestResourceType_ToV8 (OtherResource _) = ''other''"

text \<open>A URL pattern is its text; \<open>Parse\<close> accepts it or gives an error type. A listener is a number.\<close>

type_synonym url = string
type_synonym header_list = "(string \<times> string) list"

record web_ops =
  MatchesURL :: "string \<Rightarrow> url \<Rightarrow> bool"
  URLPattern_Parse :: "string \<Rightarrow> string option"
  ResponseHeaders_FromV8 :: "string \<Rightarrow> nat \<Rightarrow> string"

type_synonym listener_info = "string list \<times> nat"

record 'k WebRequest =
  simple_listeners :: "SimpleEvent \<rightharpoonup> listener_info"
  response_listeners :: "ResponseEvent \<rightharpoonup> listener_info"
  callbacks :: "nat \<rightharpoonup> 'k"

definition WebRequest_init :: "'k WebRequest" where
  "WebRequest_init = \<lparr>simple_listeners = Map.empty, response_listeners = Map.empty, callbacks = Map.empty\<rparr>"

definition simple_events :: "SimpleEvent list" where
  "simple_events = [kOnSendHeaders, kOnBeforeRedirect, kOnResponseStarted, kOnCompleted, kOnErrorOccurred]"

definition response_events :: "ResponseEvent list" where
  "response_events = [kOnBeforeRequest, kOnBeforeSendHeaders, kOnHeadersReceived]"

definition HasListener :: "'k WebRequest \<Rightarrow> bool" where
  "HasListener w \<longleftrightarrow>
     \<not> ((\<forall>e \<in> set simple_events. simple_listeners w e = None) \<and> (\<forall>e \<in> set response_events. response_listeners w e = None))"

definition MatchesFilterCondition :: "web_ops \<Rightarrow> url \<Rightarrow> string list \<Rightarrow> bool" where
  "MatchesFilterCondition ops u patterns \<longleftrightarrow> patterns = [] \<or> (\<exists>p \<in> set patterns. MatchesURL ops p u)"

section \<open>Setting listeners\<close>

text \<open>The arguments of a script: a function, null, an object with or without \<open>urls\<close>, or another value.\<close>

datatype js_arg = JsFunction nat | JsNull | JsFilter "string list option" | JsOther

datatype listener_error = NoUrls | InvalidPattern string string | MustPassFunction

text \<open>The arguments after the filter: \<open>GetNext\<close> leaves the argument as it was when there is none.\<close>

definition read_filter :: "js_arg list \<Rightarrow> listener_error + (string list \<times> js_arg option)" where
  "read_filter args =
     (case args of
        [] \<Rightarrow> Inr ([], None)
      | JsFilter None # rest \<Rightarrow> Inl NoUrls
      | JsFilter (Some urls) # rest \<Rightarrow> Inr (urls, Some (case rest of a # _ \<Rightarrow> a | [] \<Rightarrow> JsFilter (Some urls)))
      | a # _ \<Rightarrow> Inr ([], Some a))"

fun parse_patterns :: "web_ops \<Rightarrow> string list \<Rightarrow> listener_error + string list" where
  "parse_patterns ops [] = Inr []"
| "parse_patterns ops (p # ps) =
     (case URLPattern_Parse ops p of
        Some error_type \<Rightarrow> Inl (InvalidPattern p error_type)
      | None \<Rightarrow> (case parse_patterns ops ps of Inl e \<Rightarrow> Inl e | Inr qs \<Rightarrow> Inr (p # qs)))"

definition SetListener ::
  "web_ops \<Rightarrow> 'e \<Rightarrow> ('e \<rightharpoonup> listener_info) \<Rightarrow> js_arg list \<Rightarrow> listener_error + ('e \<rightharpoonup> listener_info)" where
  "SetListener ops event listeners args =
     (case read_filter args of
        Inl e \<Rightarrow> Inl e
      | Inr (filter_patterns, arg) \<Rightarrow>
          (case parse_patterns ops filter_patterns of
             Inl e \<Rightarrow> Inl e
           | Inr patterns \<Rightarrow>
               (case arg of
                  Some (JsFunction f) \<Rightarrow> Inr (listeners(event \<mapsto> (patterns, f)))
                | Some JsNull \<Rightarrow> Inr (listeners(event := None))
                | _ \<Rightarrow> Inl MustPassFunction)))"

definition SetSimpleListener :: "web_ops \<Rightarrow> SimpleEvent \<Rightarrow> js_arg list \<Rightarrow> 'k WebRequest \<Rightarrow> listener_error + 'k WebRequest" where
  "SetSimpleListener ops event args w =
     map_sum id (\<lambda>l. w\<lparr>simple_listeners := l\<rparr>) (SetListener ops event (simple_listeners w) args)"

definition SetResponseListener :: "web_ops \<Rightarrow> ResponseEvent \<Rightarrow> js_arg list \<Rightarrow> 'k WebRequest \<Rightarrow> listener_error + 'k WebRequest" where
  "SetResponseListener ops event args w =
     map_sum id (\<lambda>l. w\<lparr>response_listeners := l\<rparr>) (SetListener ops event (response_listeners w) args)"

section \<open>Events\<close>

definition OK :: int where "OK = 0"
definition ERR_IO_PENDING :: int where "ERR_IO_PENDING = - 1"
definition ERR_FAILED :: int where "ERR_FAILED = - 2"
definition ERR_ABORTED :: int where "ERR_ABORTED = - 3"
definition ERR_BLOCKED_BY_CLIENT :: int where "ERR_BLOCKED_BY_CLIENT = - 20"

lemmas net_errors = OK_def ERR_IO_PENDING_def ERR_FAILED_def ERR_ABORTED_def ERR_BLOCKED_BY_CLIENT_def

text \<open>The listener a simple event calls, if any.\<close>

definition HandleSimpleEvent :: "web_ops \<Rightarrow> SimpleEvent \<Rightarrow> url \<Rightarrow> 'k WebRequest \<Rightarrow> nat option" where
  "HandleSimpleEvent ops event u w =
     (case simple_listeners w event of
        None \<Rightarrow> None
      | Some (patterns, listener) \<Rightarrow> if \<not> MatchesFilterCondition ops u patterns then None else Some listener)"

text \<open>The listener a response event calls and the state in which it runs: the continuation waits under the
  identifier of the request. Without a listener the event returns \<open>net::OK\<close>, else \<open>net::ERR_IO_PENDING\<close>.\<close>

definition HandleResponseEvent :: "web_ops \<Rightarrow> ResponseEvent \<Rightarrow> nat \<Rightarrow> url \<Rightarrow> 'k \<Rightarrow> 'k WebRequest \<Rightarrow> (nat \<times> 'k WebRequest) option" where
  "HandleResponseEvent ops event rid u callback w =
     (case response_listeners w event of
        None \<Rightarrow> None
      | Some (patterns, listener) \<Rightarrow>
          if \<not> MatchesFilterCondition ops u patterns then None
          else Some (listener, w\<lparr>callbacks := (callbacks w)(rid \<mapsto> callback)\<rparr>))"

text \<open>The answer of a listener: \<^const>\<open>None\<close> where it is no object, else its members.\<close>

record js_response =
  js_cancel :: bool
  js_redirectURL :: "url option"
  js_requestHeaders :: "header_list option"
  js_responseHeaders :: "nat option"
  js_statusLine :: "string option"

datatype out_ref = NewLocation | RequestHeaders | ResponseHeaders string

datatype out_write = WriteLocation url | WriteRequestHeaders header_list | WriteResponseHeaders string

fun ReadFromResponse :: "web_ops \<Rightarrow> js_response \<Rightarrow> out_ref \<Rightarrow> out_write option" where
  "ReadFromResponse ops response NewLocation = map_option WriteLocation (js_redirectURL response)"
| "ReadFromResponse ops response RequestHeaders = map_option WriteRequestHeaders (js_requestHeaders response)"
| "ReadFromResponse ops response (ResponseHeaders line) =
     (let status_line = (case js_statusLine response of Some l \<Rightarrow> l | None \<Rightarrow> line)
      in map_option (\<lambda>v. WriteResponseHeaders (ResponseHeaders_FromV8 ops status_line v)) (js_responseHeaders response))"

text \<open>\<^const>\<open>None\<close> where no continuation waits; else what is written through the reference, and the continuation
  and its result that are posted.\<close>

definition OnListenerResult ::
  "web_ops \<Rightarrow> nat \<Rightarrow> out_ref \<Rightarrow> js_response option \<Rightarrow> 'k WebRequest \<Rightarrow> (out_write option \<times> 'k \<times> int \<times> 'k WebRequest) option" where
  "OnListenerResult ops rid out response w =
     (case callbacks w rid of
        None \<Rightarrow> None
      | Some k \<Rightarrow>
          let (result, written) =
            (case response of
               None \<Rightarrow> (OK, None)
             | Some r \<Rightarrow> if js_cancel r then (ERR_BLOCKED_BY_CLIENT, None) else (OK, ReadFromResponse ops r out))
          in Some (written, k, result, w\<lparr>callbacks := (callbacks w)(rid := None)\<rparr>))"

definition erase_callback :: "nat \<Rightarrow> 'k WebRequest \<Rightarrow> 'k WebRequest" where
  "erase_callback rid w = w\<lparr>callbacks := (callbacks w)(rid := None)\<rparr>"

text \<open>\<open>OnErrorOccurred\<close> and \<open>OnCompleted\<close>: the answer to an earlier event no longer counts.\<close>

definition web_OnErrorOccurred :: "web_ops \<Rightarrow> nat \<Rightarrow> url \<Rightarrow> 'k WebRequest \<Rightarrow> nat option \<times> 'k WebRequest" where
  "web_OnErrorOccurred ops rid u w =
     (let w1 = erase_callback rid w in (HandleSimpleEvent ops kOnErrorOccurred u w1, w1))"

definition web_OnCompleted :: "web_ops \<Rightarrow> nat \<Rightarrow> url \<Rightarrow> 'k WebRequest \<Rightarrow> nat option \<times> 'k WebRequest" where
  "web_OnCompleted ops rid u w =
     (let w1 = erase_callback rid w in (HandleSimpleEvent ops kOnCompleted u w1, w1))"

definition OnRequestWillBeDestroyed :: "nat \<Rightarrow> 'k WebRequest \<Rightarrow> 'k WebRequest" where
  "OnRequestWillBeDestroyed rid w = erase_callback rid w"

section \<open>Listeners\<close>

lemma parse_patterns_Inr: "parse_patterns ops ps = Inr qs \<Longrightarrow> qs = ps \<and> (\<forall>p \<in> set ps. URLPattern_Parse ops p = None)"
  by (induction ps arbitrary: qs) (auto split: option.splits sum.splits)

lemma parse_patterns_ok: "\<forall>p \<in> set ps. URLPattern_Parse ops p = None \<Longrightarrow> parse_patterns ops ps = Inr ps"
  by (induction ps) auto

text \<open>A listener with a filter is called for exactly the URLs that match one of its patterns; other events keep
  theirs.\<close>

lemma SetSimpleListener_filter:
  assumes "\<forall>p \<in> set urls. URLPattern_Parse ops p = None"
    "SetSimpleListener ops e [JsFilter (Some urls), JsFunction f] w = Inr w'"
  shows "HandleSimpleEvent ops e u w' = (if urls = [] \<or> (\<exists>p \<in> set urls. MatchesURL ops p u) then Some f else None)"
    "e' \<noteq> e \<Longrightarrow> HandleSimpleEvent ops e' u w' = HandleSimpleEvent ops e' u w"
  using assms
  by (auto simp: SetSimpleListener_def SetListener_def read_filter_def parse_patterns_ok HandleSimpleEvent_def
      MatchesFilterCondition_def)

text \<open>A call that throws changes nothing, as it has no new state; these are the calls that throw.\<close>

lemma SetListener_throws:
  assumes "SetListener ops e l args = Inl err"
  shows "err = NoUrls \<and> (\<exists>rest. args = JsFilter None # rest) \<or>
    (\<exists>p ty ps rest. err = InvalidPattern p ty \<and> args = JsFilter (Some ps) # rest \<and> p \<in> set ps \<and> URLPattern_Parse ops p = Some ty) \<or>
    err = MustPassFunction"
proof -
  have *: "parse_patterns ops ps = Inl err \<Longrightarrow> \<exists>p ty. err = InvalidPattern p ty \<and> p \<in> set ps \<and> URLPattern_Parse ops p = Some ty" for ps
    by (induction ps) (auto split: option.splits sum.splits)
  show ?thesis
    using assms *
    by (auto simp: SetListener_def read_filter_def split: list.splits js_arg.splits option.splits sum.splits)
qed

lemma HandleResponseEvent_callbacks:
  "HandleResponseEvent ops event rid u k w = Some (l, w') \<Longrightarrow> callbacks w' = (callbacks w)(rid \<mapsto> k)"
  by (auto simp: HandleResponseEvent_def split: option.splits prod.splits if_splits)

lemma OnListenerResult_callbacks:
  "OnListenerResult ops rid out resp w = Some (wr, k, res, w') \<Longrightarrow>
     callbacks w rid = Some k \<and> w' = erase_callback rid w \<and> (res = OK \<or> res = ERR_BLOCKED_BY_CLIENT)"
  by (auto simp: OnListenerResult_def erase_callback_def split: option.splits prod.splits if_splits)

lemma erase_callback_simps [simp]:
  "callbacks (erase_callback rid w) = (callbacks w)(rid := None)"
  "simple_listeners (erase_callback rid w) = simple_listeners w"
  "response_listeners (erase_callback rid w) = response_listeners w"
  by (simp_all add: erase_callback_def)

end
