(* ===== verification/Url_Loader_Proxy.thy ===== *)
theory Url_Loader_Proxy
  imports Web_Request Protocol_Registry
begin

text \<open>
  Requests that scripts may watch, change or cancel (shell/browser/net/proxying\_url\_loader\_factory.cc):
  a proxy between the client of a request and the network service, which asks the listeners of the
  webRequest module (theory \<open>Web_Request\<close>) and hands schemes with an intercepting handler (theory
  \<open>Protocol_Registry\<close>) to the script.

  The state holds the factory, its requests and the listeners. Requests refer to each other by identifier,
  and a continuation bound to a weak pointer does nothing when its request is gone. Messages to the client,
  to the network service and to listeners are recorded. A message pipe is unbound, or bound and perhaps
  paused. A call through a null pointer or an unbound pipe, an empty optional and a write into a request that
  is gone are undefined (\<^const>\<open>None\<close>). The identifiers of requests, 64-bit numbers that count up, are
  taken not to wrap. Headers, URLs and origins of Chromium are parameters.
\<close>

section \<open>State\<close>

datatype pipe = Unbound | Bound bool

fun pause :: "pipe \<Rightarrow> pipe" where
  "pause Unbound = Unbound"
| "pause (Bound _) = Bound True"

fun resume :: "pipe \<Rightarrow> pipe" where
  "resume Unbound = Unbound"
| "resume (Bound _) = Bound False"

record ResourceRequest =
  rq_url :: url
  rq_method :: string
  rq_headers :: header_list
  rq_body :: "nat option"
  rq_initiator :: "string option"
  rq_site_for_cookies :: string
  rq_referrer :: string
  rq_referrer_policy :: nat
  rq_ignore_limits :: bool

record RedirectInfo =
  ri_status_code :: int
  ri_new_method :: string
  ri_new_url :: url
  ri_new_site_for_cookies :: string
  ri_new_referrer :: string
  ri_new_referrer_policy :: nat

record URLResponseHead =
  rh_headers :: "string option"
  rh_rest :: nat

record FollowRedirectParams =
  fr_removed_headers :: "string list"
  fr_modified_headers :: header_list
  fr_modified_cors_exempt_headers :: header_list
  fr_new_url :: "url option"

datatype continuation =
  ContinueToBeforeSendHeaders_k | ContinueToSendHeaders_k "string list" "string list" | ContinueToStartRequest_k
  | ContinueToHandleOverrideHeaders_k | ContinueToResponseStarted_k | ContinueToBeforeRedirect_k RedirectInfo

record InProgressRequest =
  r_request :: ResourceRequest
  r_network_service_request_id :: int
  r_info :: "url option"
  r_has_client :: bool
  r_proxied_client :: pipe
  r_header_client :: pipe
  r_target_loader :: bool
  r_current_response :: "URLResponseHead option"
  r_current_body :: "nat option"
  r_override_headers :: "string option"
  r_redirect_url :: url
  r_for_cors_preflight :: bool
  r_has_any_extra_headers_listeners :: bool
  r_uses_header_client :: bool
  r_on_before_send_headers_callback :: bool
  r_on_headers_received_callback :: bool
  r_pending_follow_redirect_params :: "FollowRedirectParams option"

datatype net_event =
  RequestCreated nat bool
  | SimpleCalled nat SimpleEvent nat | ResponseCalled nat ResponseEvent nat
  | ClientResponse nat URLResponseHead "nat option" | ClientRedirect nat RedirectInfo URLResponseHead
  | ClientComplete nat int | ClientOther nat nat
  | LoaderStarted nat ResourceRequest bool | LoaderFollowRedirect nat FollowRedirectParams | LoaderOther nat nat
  | BeforeSendHeadersReply nat int "header_list option" | HeadersReceivedReply nat int "string option" url
  | InterceptedCall nat ProtocolType ResourceRequest | AsarLoader ResourceRequest | PassThrough int ResourceRequest

record world =
  web :: "continuation WebRequest"
  requests :: "(nat \<times> InProgressRequest) list"
  network_ids :: "int \<rightharpoonup> nat"
  request_id_generator :: nat
  target_factory_bound :: bool
  proxy_receivers :: nat
  header_client_bound :: bool
  factory_deleted :: bool
  tasks :: "(nat \<times> continuation \<times> int) list"
  held :: "(nat \<times> out_ref) list"
  net_log :: "net_event list"

record proxy_env =
  wops :: web_ops
  answers :: "nat \<Rightarrow> ResponseEvent \<Rightarrow> nat \<Rightarrow> net_event list \<Rightarrow> js_response option option"
  RemoveHeader :: "string \<Rightarrow> header_list \<Rightarrow> header_list"
  MergeFrom :: "header_list \<Rightarrow> header_list \<Rightarrow> header_list"
  GetHeader :: "string \<Rightarrow> header_list \<Rightarrow> string option"
  SetHeader :: "string \<Rightarrow> string \<Rightarrow> header_list \<Rightarrow> header_list"
  GetStatusLine :: "string \<Rightarrow> string"
  IsRedirect :: "string \<Rightarrow> url option"
  response_code :: "string \<Rightarrow> int"
  SiteForCookies_FromUrl :: "url \<Rightarrow> string"
  Origin_Create :: "url \<Rightarrow> string"
  IsSameOriginWith :: "string \<Rightarrow> string \<Rightarrow> bool"
  opaque_origin :: string
  AssembleRawHeaders :: "string \<Rightarrow> string"
  url_scheme :: "url \<Rightarrow> string"
  DomainIs :: "url \<Rightarrow> string \<Rightarrow> bool"
  intercepted_handlers :: HandlersMap
  for_service_worker_script :: bool
  ignore_connections_limit_domains :: "string list"

text \<open>\<open>answers\<close> tells what a listener answers while it is called: nothing yet (outer \<^const>\<open>None\<close>), or at once.\<close>

definition this :: "nat \<Rightarrow> world \<Rightarrow> InProgressRequest option" where
  "this i w = map_of (requests w) i"

definition upd :: "nat \<Rightarrow> (InProgressRequest \<Rightarrow> InProgressRequest) \<Rightarrow> world \<Rightarrow> world" where
  "upd i f w = w\<lparr>requests := map (\<lambda>x. if fst x = i then (i, f (snd x)) else x) (requests w)\<rparr>"

definition note_net :: "net_event \<Rightarrow> world \<Rightarrow> world" where
  "note_net e w = w\<lparr>net_log := net_log w @ [e]\<rparr>"

section \<open>The listeners\<close>

definition note_simple :: "SimpleEvent \<Rightarrow> nat \<Rightarrow> nat option \<Rightarrow> world \<Rightarrow> world" where
  "note_simple ev i l w = (case l of None \<Rightarrow> w | Some f \<Rightarrow> note_net (SimpleCalled f ev i) w)"

definition simple_event :: "proxy_env \<Rightarrow> SimpleEvent \<Rightarrow> nat \<Rightarrow> world \<Rightarrow> world option" where
  "simple_event env ev i w = do {
     r \<leftarrow> this i w;
     u \<leftarrow> r_info r;
     Some (note_simple ev i (HandleSimpleEvent (wops env) ev u (web w)) w) }"

fun apply_write :: "out_write \<Rightarrow> InProgressRequest \<Rightarrow> InProgressRequest" where
  "apply_write (WriteLocation u) r = r\<lparr>r_redirect_url := u\<rparr>"
| "apply_write (WriteRequestHeaders h) r = r\<lparr>r_request := (r_request r)\<lparr>rq_headers := h\<rparr>\<rparr>"
| "apply_write (WriteResponseHeaders h) r = r\<lparr>r_override_headers := Some h\<rparr>"

definition write_out :: "nat \<Rightarrow> out_write option \<Rightarrow> world \<Rightarrow> world option" where
  "write_out i wr w =
     (case wr of
        None \<Rightarrow> Some w
      | Some x \<Rightarrow> (case this i w of None \<Rightarrow> None | Some _ \<Rightarrow> Some (upd i (apply_write x) w)))"

definition listener_result :: "proxy_env \<Rightarrow> nat \<Rightarrow> out_ref \<Rightarrow> js_response option \<Rightarrow> world \<Rightarrow> world option" where
  "listener_result env i out resp w =
     (case OnListenerResult (wops env) i out resp (web w) of
        None \<Rightarrow> Some w
      | Some (wr, k, result, web') \<Rightarrow> do {
          w1 \<leftarrow> write_out i wr w;
          Some (w1\<lparr>web := web', tasks := tasks w1 @ [(i, k, result)]\<rparr>) })"

definition response_event ::
  "proxy_env \<Rightarrow> ResponseEvent \<Rightarrow> nat \<Rightarrow> continuation \<Rightarrow> out_ref \<Rightarrow> world \<Rightarrow> (int \<times> world) option" where
  "response_event env ev i k out w = do {
     r \<leftarrow> this i w;
     u \<leftarrow> r_info r;
     (case HandleResponseEvent (wops env) ev i u k (web w) of
        None \<Rightarrow> Some (OK, w)
      | Some (l, web') \<Rightarrow>
          let w1 = note_net (ResponseCalled l ev i) (w\<lparr>web := web'\<rparr>)
          in case answers env l ev i (net_log w1) of
               None \<Rightarrow> Some (ERR_IO_PENDING, w1\<lparr>held := held w1 @ [(i, out)]\<rparr>)
             | Some resp \<Rightarrow> do { w2 \<leftarrow> listener_result env i out resp w1; Some (ERR_IO_PENDING, w2) }) }"

section \<open>The end of a request\<close>

definition MaybeDeleteThis :: "world \<Rightarrow> world" where
  "MaybeDeleteThis w =
     (if target_factory_bound w \<or> requests w \<noteq> [] \<or> proxy_receivers w \<noteq> 0 then w else w\<lparr>factory_deleted := True\<rparr>)"

definition destroy_request :: "nat \<Rightarrow> InProgressRequest \<Rightarrow> world \<Rightarrow> world" where
  "destroy_request i r w =
     (let w1 = (if r_info r \<noteq> None then w\<lparr>web := OnRequestWillBeDestroyed i (web w)\<rparr> else w);
          w2 = (if r_on_before_send_headers_callback r then note_net (BeforeSendHeadersReply i ERR_ABORTED None) w1 else w1)
      in if r_on_headers_received_callback r then note_net (HeadersReceivedReply i ERR_ABORTED None []) w2 else w2)"

definition RemoveRequest :: "int \<Rightarrow> nat \<Rightarrow> world \<Rightarrow> world" where
  "RemoveRequest nid i w =
     (let w1 = w\<lparr>network_ids := (network_ids w)(nid := None)\<rparr>
      in MaybeDeleteThis
           (case this i w1 of
              None \<Rightarrow> w1
            | Some r \<Rightarrow> destroy_request i r (w1\<lparr>requests := filter (\<lambda>x. fst x \<noteq> i) (requests w1)\<rparr>)))"

definition OnRequestError :: "proxy_env \<Rightarrow> nat \<Rightarrow> int \<Rightarrow> world \<Rightarrow> world option" where
  "OnRequestError env i error_code w = do {
     r \<leftarrow> this i w;
     u \<leftarrow> r_info r;
     let w1 = (if r_has_client r then note_net (ClientComplete i error_code) w else w);
         (l, web') = web_OnErrorOccurred (wops env) i u (web w1);
         w2 = note_simple kOnErrorOccurred i l (w1\<lparr>web := web'\<rparr>)
     in Some (RemoveRequest (r_network_service_request_id r) i w2) }"

section \<open>The steps of a request\<close>

text \<open>A null response may not be sent, and there has to be a client.\<close>

definition ContinueToBeforeRedirect :: "proxy_env \<Rightarrow> nat \<Rightarrow> RedirectInfo \<Rightarrow> int \<Rightarrow> world \<Rightarrow> world option" where
  "ContinueToBeforeRedirect env i redirect_info error_code w =
     (if error_code \<noteq> OK then OnRequestError env i error_code w
      else do {
        let w1 = upd i (\<lambda>r. r\<lparr>r_proxied_client := resume (r_proxied_client r)\<rparr>) w;
        w2 \<leftarrow> simple_event env kOnBeforeRedirect i w1;
        r \<leftarrow> this i w2;
        head \<leftarrow> r_current_response r;
        if \<not> r_has_client r then None
        else Some (upd i (\<lambda>r. r\<lparr>r_request := (r_request r)
               \<lparr>rq_url := ri_new_url redirect_info, rq_method := ri_new_method redirect_info,
                rq_site_for_cookies := ri_new_site_for_cookies redirect_info, rq_referrer := ri_new_referrer redirect_info,
                rq_referrer_policy := ri_new_referrer_policy redirect_info,
                rq_body := (if ri_new_method redirect_info = ''GET'' then None else rq_body (r_request r))\<rparr>\<rparr>)
               (note_net (ClientRedirect i redirect_info head) w2)) })"

definition internal_redirect_headers :: "url \<Rightarrow> string" where
  "internal_redirect_headers u =
     ''HTTP/1.1 307 Internal Redirect'' @ [CHR 0x0A] @ ''Location: '' @ u @ [CHR 0x0A] @
     ''Non-Authoritative-Reason: WebRequest API'' @ [CHR 0x0A, CHR 0x0A]"

definition HandleBeforeRequestRedirect :: "proxy_env \<Rightarrow> nat \<Rightarrow> world \<Rightarrow> world option" where
  "HandleBeforeRequestRedirect env i w = do {
     r \<leftarrow> this i w;
     let u = r_redirect_url r;
         redirect_info = \<lparr>ri_status_code = 307, ri_new_method = rq_method (r_request r), ri_new_url = u,
           ri_new_site_for_cookies = SiteForCookies_FromUrl env u, ri_new_referrer = [], ri_new_referrer_policy = 0\<rparr>;
         tainted = (case rq_initiator (r_request r) of
             None \<Rightarrow> False
           | Some origin \<Rightarrow>
               \<not> IsSameOriginWith env (Origin_Create env u) (Origin_Create env (rq_url (r_request r))) \<and>
               \<not> IsSameOriginWith env origin (Origin_Create env (rq_url (r_request r))));
         head = \<lparr>rh_headers = Some (AssembleRawHeaders env (internal_redirect_headers u)), rh_rest = 0\<rparr>;
         w1 = upd i (\<lambda>r. r\<lparr>r_proxied_client := Unbound, r_header_client := Unbound, r_target_loader := False,
                r_request := (if tainted then (r_request r)\<lparr>rq_initiator := Some (opaque_origin env)\<rparr> else r_request r),
                r_current_response := Some head\<rparr>) w
     in ContinueToBeforeRedirect env i redirect_info OK w1 }"

definition ContinueToStartRequest :: "proxy_env \<Rightarrow> nat \<Rightarrow> int \<Rightarrow> world \<Rightarrow> world option" where
  "ContinueToStartRequest env i error_code w =
     (if error_code \<noteq> OK then OnRequestError env i error_code w
      else do {
        r \<leftarrow> this i w;
        if r_uses_header_client r \<and> r_redirect_url r \<noteq> [] then HandleBeforeRequestRedirect env i w
        else
          let w1 = upd i (\<lambda>r. r\<lparr>r_proxied_client := resume (r_proxied_client r), r_header_client := resume (r_header_client r)\<rparr>) w
          in if r_for_cors_preflight r then Some w1
             else if \<not> r_target_loader r \<and> target_factory_bound w1 then
               Some (upd i (\<lambda>r. r\<lparr>r_target_loader := True, r_proxied_client := Bound False\<rparr>)
                 (note_net (LoaderStarted i (r_request r) (r_has_any_extra_headers_listeners r)) w1))
             else Some w1 })"

definition add_headers :: "proxy_env \<Rightarrow> ResourceRequest \<Rightarrow> string list \<Rightarrow> string list \<Rightarrow> FollowRedirectParams \<Rightarrow> FollowRedirectParams" where
  "add_headers env request removed_headers set_headers p =
     p\<lparr>fr_removed_headers := fr_removed_headers p @ removed_headers,
       fr_modified_headers := fold (\<lambda>h m. case GetHeader env h (rq_headers request) of Some v \<Rightarrow> SetHeader env h v m | None \<Rightarrow> m)
         set_headers (fr_modified_headers p)\<rparr>"

definition ContinueToSendHeaders :: "proxy_env \<Rightarrow> nat \<Rightarrow> string list \<Rightarrow> string list \<Rightarrow> int \<Rightarrow> world \<Rightarrow> world option" where
  "ContinueToSendHeaders env i removed_headers set_headers error_code w =
     (if error_code \<noteq> OK then OnRequestError env i error_code w
      else do {
        r \<leftarrow> this i w;
        w1 \<leftarrow> (if r_uses_header_client r then
                 (if \<not> r_on_before_send_headers_callback r then None
                  else Some (note_net (BeforeSendHeadersReply i error_code (Some (rq_headers (r_request r))))
                               (upd i (\<lambda>r. r\<lparr>r_on_before_send_headers_callback := False\<rparr>) w)))
               else
                 (case r_pending_follow_redirect_params r of
                    None \<Rightarrow> Some w
                  | Some p \<Rightarrow>
                      let p1 = add_headers env (r_request r) removed_headers set_headers p
                      in Some (upd i (\<lambda>r. r\<lparr>r_pending_follow_redirect_params := None\<rparr>)
                           (if r_target_loader r then note_net (LoaderFollowRedirect i p1) w else w))));
        w2 \<leftarrow> simple_event env kOnSendHeaders i (upd i (\<lambda>r. r\<lparr>r_proxied_client := resume (r_proxied_client r)\<rparr>) w1);
        if \<not> r_uses_header_client r then ContinueToStartRequest env i OK w2 else Some w2 })"

text \<open>While the listener of \<open>onBeforeSendHeaders\<close> has not answered, the pipe from the network is resumed, not
  paused as the comment in the code says.\<close>

definition ContinueToBeforeSendHeaders :: "proxy_env \<Rightarrow> nat \<Rightarrow> int \<Rightarrow> world \<Rightarrow> world option" where
  "ContinueToBeforeSendHeaders env i error_code w =
     (if error_code \<noteq> OK then OnRequestError env i error_code w
      else do {
        r \<leftarrow> this i w;
        if \<not> r_uses_header_client r \<and> r_redirect_url r \<noteq> [] then
          (if r_for_cors_preflight r then OnRequestError env i ERR_FAILED w else HandleBeforeRequestRedirect env i w)
        else do {
          (result, w1) \<leftarrow> response_event env kOnBeforeSendHeaders i (ContinueToSendHeaders_k [] []) RequestHeaders
             (upd i (\<lambda>r. r\<lparr>r_proxied_client := resume (r_proxied_client r)\<rparr>) w);
          if result = ERR_BLOCKED_BY_CLIENT then OnRequestError env i result w1
          else if result = ERR_IO_PENDING then Some (upd i (\<lambda>r. r\<lparr>r_proxied_client := resume (r_proxied_client r)\<rparr>) w1)
          else ContinueToSendHeaders env i [] [] OK w1 } })"

definition ContinueToHandleOverrideHeaders :: "proxy_env \<Rightarrow> nat \<Rightarrow> int \<Rightarrow> world \<Rightarrow> world option" where
  "ContinueToHandleOverrideHeaders env i error_code w =
     (if error_code \<noteq> OK then OnRequestError env i error_code w
      else do {
        r \<leftarrow> this i w;
        head \<leftarrow> r_current_response r;
        let hs = r_override_headers r;
        let head1 = (if hs \<noteq> None \<and> r_uses_header_client r then head\<lparr>rh_headers := hs\<rparr> else head);
        let w1 = upd i (\<lambda>r. r\<lparr>r_current_response := Some head1\<rparr>) w;
        if r_for_cors_preflight r \<and> r_redirect_url r \<noteq> [] then OnRequestError env i ERR_FAILED w1
        else if \<not> r_on_headers_received_callback r then None
        else
          let w2 = upd i (\<lambda>r. r\<lparr>r_on_headers_received_callback := False, r_override_headers := None\<rparr>)
                     (note_net (HeadersReceivedReply i OK hs (r_redirect_url r)) w1)
          in if r_for_cors_preflight r then
               (if map_option (response_code env) (rh_headers head1) = Some 407 then Some w2
                else do {
                  w3 \<leftarrow> simple_event env kOnResponseStarted i w2;
                  u \<leftarrow> r_info r;
                  let (l, web') = web_OnCompleted (wops env) i u (web w3)
                  in Some (RemoveRequest (r_network_service_request_id r) i
                             (note_simple kOnCompleted i l (w3\<lparr>web := web'\<rparr>))) })
             else Some (upd i (\<lambda>r. r\<lparr>r_proxied_client := resume (r_proxied_client r)\<rparr>) w2) })"

definition ContinueToResponseStarted :: "proxy_env \<Rightarrow> nat \<Rightarrow> int \<Rightarrow> world \<Rightarrow> world option" where
  "ContinueToResponseStarted env i error_code w =
     (if error_code \<noteq> OK then OnRequestError env i error_code w
      else do {
        r \<leftarrow> this i w;
        head \<leftarrow> r_current_response r;
        let head1 = (if r_override_headers r \<noteq> None then head\<lparr>rh_headers := r_override_headers r\<rparr> else head);
        let w1 = upd i (\<lambda>r. r\<lparr>r_current_response := Some head1\<rparr>) w;
        (case Option.bind (r_override_headers r) (\<lambda>h. map_option (Pair h) (IsRedirect env h)) of
           Some (h, new_url) \<Rightarrow>
             ContinueToBeforeRedirect env i
               \<lparr>ri_status_code = response_code env h, ri_new_method = rq_method (r_request r), ri_new_url = new_url,
                ri_new_site_for_cookies = SiteForCookies_FromUrl env new_url, ri_new_referrer = [], ri_new_referrer_policy = 0\<rparr>
               OK (upd i (\<lambda>r. r\<lparr>r_proxied_client := Unbound, r_header_client := Unbound, r_target_loader := False\<rparr>) w1)
         | None \<Rightarrow>
             if r_proxied_client r = Unbound then None
             else do {
               w2 \<leftarrow> simple_event env kOnResponseStarted i (upd i (\<lambda>r. r\<lparr>r_proxied_client := resume (r_proxied_client r)\<rparr>) w1);
               if \<not> r_has_client r then None
               else Some (upd i (\<lambda>r. r\<lparr>r_current_body := None\<rparr>)
                      (note_net (ClientResponse i head1 (r_current_body r)) w2)) }) })"

fun continue_with :: "proxy_env \<Rightarrow> continuation \<Rightarrow> nat \<Rightarrow> int \<Rightarrow> world \<Rightarrow> world option" where
  "continue_with env ContinueToBeforeSendHeaders_k i e w = ContinueToBeforeSendHeaders env i e w"
| "continue_with env (ContinueToSendHeaders_k rm st) i e w = ContinueToSendHeaders env i rm st e w"
| "continue_with env ContinueToStartRequest_k i e w = ContinueToStartRequest env i e w"
| "continue_with env ContinueToHandleOverrideHeaders_k i e w = ContinueToHandleOverrideHeaders env i e w"
| "continue_with env ContinueToResponseStarted_k i e w = ContinueToResponseStarted env i e w"
| "continue_with env (ContinueToBeforeRedirect_k ri) i e w = ContinueToBeforeRedirect env i ri e w"

definition HandleResponseOrRedirectHeaders :: "proxy_env \<Rightarrow> nat \<Rightarrow> continuation \<Rightarrow> world \<Rightarrow> world option" where
  "HandleResponseOrRedirectHeaders env i k w = do {
     r \<leftarrow> this i w;
     head \<leftarrow> r_current_response r;
     let status_line = (case rh_headers head of Some h \<Rightarrow> GetStatusLine env h | None \<Rightarrow> []);
     (result, w1) \<leftarrow> response_event env kOnHeadersReceived i k (ResponseHeaders status_line)
        (upd i (\<lambda>r. r\<lparr>r_override_headers := None, r_redirect_url := []\<rparr>) w);
     if result = ERR_BLOCKED_BY_CLIENT then OnRequestError env i result w1
     else if result = ERR_IO_PENDING then Some (upd i (\<lambda>r. r\<lparr>r_proxied_client := pause (r_proxied_client r)\<rparr>) w1)
     else continue_with env k i OK w1 }"

section \<open>Messages\<close>

definition UpdateRequestInfo :: "nat \<Rightarrow> world \<Rightarrow> world" where
  "UpdateRequestInfo i w =
     upd i (\<lambda>r. r\<lparr>r_info := Some (rq_url (r_request r)),
        r_uses_header_client := header_client_bound w \<and> (r_for_cors_preflight r \<or> r_network_service_request_id r \<noteq> 0) \<and>
          r_has_any_extra_headers_listeners r\<rparr>) w"

definition RestartInternal :: "proxy_env \<Rightarrow> nat \<Rightarrow> world \<Rightarrow> world option" where
  "RestartInternal env i w = do {
     r \<leftarrow> this i w;
     if \<not> r_uses_header_client r \<and> r_for_cors_preflight r then Some w
     else do {
       let k = (if r_uses_header_client r then ContinueToStartRequest_k else ContinueToBeforeSendHeaders_k);
       (result, w1) \<leftarrow> response_event env kOnBeforeRequest i k NewLocation (upd i (\<lambda>r. r\<lparr>r_redirect_url := []\<rparr>) w);
       if result = ERR_BLOCKED_BY_CLIENT then OnRequestError env i result w1
       else if result = ERR_IO_PENDING then
         Some (upd i (\<lambda>r. r\<lparr>r_proxied_client := pause (r_proxied_client r), r_header_client := pause (r_header_client r)\<rparr>) w1)
       else continue_with env k i OK w1 } }"

definition Restart :: "proxy_env \<Rightarrow> nat \<Rightarrow> world \<Rightarrow> world option" where
  "Restart env i w = RestartInternal env i (UpdateRequestInfo i w)"

definition FollowRedirect :: "proxy_env \<Rightarrow> nat \<Rightarrow> FollowRedirectParams \<Rightarrow> world \<Rightarrow> world option" where
  "FollowRedirect env i p w = do {
     _ \<leftarrow> this i w;
     let w1 = UpdateRequestInfo i
           (upd i (\<lambda>r. r\<lparr>r_request := (r_request r)
              \<lparr>rq_url := (case fr_new_url p of Some u \<Rightarrow> u | None \<Rightarrow> rq_url (r_request r)),
               rq_headers := MergeFrom env (fr_modified_headers p)
                 (fold (RemoveHeader env) (fr_removed_headers p) (rq_headers (r_request r)))\<rparr>\<rparr>) w);
     r1 \<leftarrow> this i w1;
     RestartInternal env i
       (if \<not> r_target_loader r1 then w1
        else if r_uses_header_client r1 then note_net (LoaderFollowRedirect i p) w1
        else upd i (\<lambda>r. r\<lparr>r_pending_follow_redirect_params := Some p\<rparr>) w1) }"

text \<open>\<open>SetPriority\<close>, \<open>PauseReadingBodyFromNet\<close> and \<open>ResumeReadingBodyFromNet\<close>, by number, to the network;
  \<open>OnReceiveEarlyHints\<close>, \<open>OnUploadProgress\<close>, \<open>OnReceiveCachedMetadata\<close> and \<open>OnTransferSizeUpdated\<close> to the client.\<close>

definition forward_to_loader :: "nat \<Rightarrow> nat \<Rightarrow> world \<Rightarrow> world option" where
  "forward_to_loader i m w = do {
     r \<leftarrow> this i w;
     Some (if r_target_loader r then note_net (LoaderOther i m) w else w) }"

definition forward_to_client :: "nat \<Rightarrow> nat \<Rightarrow> world \<Rightarrow> world option" where
  "forward_to_client i m w = do {
     r \<leftarrow> this i w;
     if r_has_client r then Some (note_net (ClientOther i m) w) else None }"

definition OnReceiveResponse :: "proxy_env \<Rightarrow> nat \<Rightarrow> URLResponseHead \<Rightarrow> nat option \<Rightarrow> world \<Rightarrow> world option" where
  "OnReceiveResponse env i head body w = do {
     r \<leftarrow> this i w;
     if r_uses_header_client r then do {
       saved \<leftarrow> r_current_response r;
       ContinueToResponseStarted env i OK
         (upd i (\<lambda>r. r\<lparr>r_current_body := body, r_current_response := Some (head\<lparr>rh_headers := rh_headers saved\<rparr>)\<rparr>) w) }
     else
       HandleResponseOrRedirectHeaders env i ContinueToResponseStarted_k
         (upd i (\<lambda>r. r\<lparr>r_current_body := body, r_current_response := Some head\<rparr>) w) }"

definition OnReceiveRedirect :: "proxy_env \<Rightarrow> nat \<Rightarrow> RedirectInfo \<Rightarrow> URLResponseHead \<Rightarrow> world \<Rightarrow> world option" where
  "OnReceiveRedirect env i redirect_info head w = do {
     r \<leftarrow> this i w;
     if r_uses_header_client r then do {
       saved \<leftarrow> r_current_response r;
       ContinueToBeforeRedirect env i redirect_info OK
         (upd i (\<lambda>r. r\<lparr>r_current_response :=
            Some (if rh_headers saved \<noteq> None then head\<lparr>rh_headers := rh_headers saved\<rparr> else head)\<rparr>) w) }
     else
       HandleResponseOrRedirectHeaders env i (ContinueToBeforeRedirect_k redirect_info)
         (upd i (\<lambda>r. r\<lparr>r_current_response := Some head\<rparr>) w) }"

definition OnComplete :: "proxy_env \<Rightarrow> nat \<Rightarrow> int \<Rightarrow> world \<Rightarrow> world option" where
  "OnComplete env i error_code w =
     (if error_code \<noteq> OK then OnRequestError env i error_code w
      else do {
        r \<leftarrow> this i w;
        u \<leftarrow> r_info r;
        if \<not> r_has_client r then None
        else
          let w1 = note_net (ClientComplete i error_code) w;
              (l, web') = web_OnCompleted (wops env) i u (web w1)
          in Some (RemoveRequest (r_network_service_request_id r) i (note_simple kOnCompleted i l (w1\<lparr>web := web'\<rparr>))) })"

definition request_OnLoaderCreated :: "nat \<Rightarrow> world \<Rightarrow> world option" where
  "request_OnLoaderCreated i w = do {
     _ \<leftarrow> this i w;
     Some (upd i (\<lambda>r. r\<lparr>r_header_client := Bound False\<rparr>) w) }"

definition OnBeforeSendHeaders :: "proxy_env \<Rightarrow> nat \<Rightarrow> header_list \<Rightarrow> world \<Rightarrow> world option" where
  "OnBeforeSendHeaders env i headers w = do {
     r \<leftarrow> this i w;
     if \<not> r_uses_header_client r then Some (note_net (BeforeSendHeadersReply i OK None) w)
     else ContinueToBeforeSendHeaders env i OK
       (upd i (\<lambda>r. r\<lparr>r_request := (r_request r)\<lparr>rq_headers := headers\<rparr>, r_on_before_send_headers_callback := True\<rparr>) w) }"

definition OnHeadersReceived :: "proxy_env \<Rightarrow> nat \<Rightarrow> string \<Rightarrow> nat \<Rightarrow> world \<Rightarrow> world option" where
  "OnHeadersReceived env i headers remote_endpoint w = do {
     r \<leftarrow> this i w;
     if \<not> r_uses_header_client r then
       let w1 = note_net (HeadersReceivedReply i OK None []) w
       in Some (if r_for_cors_preflight r then RemoveRequest (r_network_service_request_id r) i w1 else w1)
     else HandleResponseOrRedirectHeaders env i ContinueToHandleOverrideHeaders_k
       (upd i (\<lambda>r. r\<lparr>r_on_headers_received_callback := True,
          r_current_response := Some \<lparr>rh_headers = Some headers, rh_rest = remote_endpoint\<rparr>\<rparr>) w) }"

section \<open>The factory\<close>

definition factory_init :: "nat \<Rightarrow> bool \<Rightarrow> world" where
  "factory_init generator header_client =
     \<lparr>web = WebRequest_init, requests = [], network_ids = Map.empty, request_id_generator = generator,
      target_factory_bound = True, proxy_receivers = 1, header_client_bound = header_client, factory_deleted = False,
      tasks = [], held = [], net_log = []\<rparr>"

definition InProgressRequest_make :: "int \<Rightarrow> ResourceRequest \<Rightarrow> InProgressRequest" where
  "InProgressRequest_make nid request =
     \<lparr>r_request = request, r_network_service_request_id = nid, r_info = None, r_has_client = True, r_proxied_client = Unbound,
      r_header_client = Unbound, r_target_loader = False, r_current_response = Some \<lparr>rh_headers = None, rh_rest = 0\<rparr>,
      r_current_body = None, r_override_headers = None, r_redirect_url = [], r_for_cors_preflight = False,
      r_has_any_extra_headers_listeners = (nid \<noteq> 0), r_uses_header_client = False, r_on_before_send_headers_callback = False,
      r_on_headers_received_callback = False, r_pending_follow_redirect_params = None\<rparr>"

definition InProgressRequest_preflight :: "ResourceRequest \<Rightarrow> InProgressRequest" where
  "InProgressRequest_preflight request =
     (InProgressRequest_make 0 request)\<lparr>r_has_client := False, r_current_response := None, r_for_cors_preflight := True,
        r_has_any_extra_headers_listeners := True\<rparr>"

definition ShouldIgnoreConnectionsLimit :: "proxy_env \<Rightarrow> ResourceRequest \<Rightarrow> bool" where
  "ShouldIgnoreConnectionsLimit env request \<longleftrightarrow> (\<exists>d \<in> set (ignore_connections_limit_domains env). DomainIs env (rq_url request) d)"

definition add_request :: "InProgressRequest \<Rightarrow> world \<Rightarrow> nat \<times> world" where
  "add_request r w =
     (let i = Suc (request_id_generator w)
      in (i, note_net (RequestCreated i (r_for_cors_preflight r))
               (w\<lparr>request_id_generator := i, requests := requests w @ [(i, r)]\<rparr>)))"

definition proxy_Clone :: "world \<Rightarrow> world" where
  "proxy_Clone w = w\<lparr>proxy_receivers := Suc (proxy_receivers w)\<rparr>"

definition CreateLoaderAndStart :: "proxy_env \<Rightarrow> int \<Rightarrow> ResourceRequest \<Rightarrow> world \<Rightarrow> world option" where
  "CreateLoaderAndStart env request_id original_request w =
     (let request = (if ShouldIgnoreConnectionsLimit env original_request then original_request\<lparr>rq_ignore_limits := True\<rparr>
                     else original_request)
      in case intercepted_handlers env (url_scheme env (rq_url request)) of
           Some (type, handler) \<Rightarrow> Some (note_net (InterceptedCall handler type request) (proxy_Clone w))
         | None \<Rightarrow>
             if for_service_worker_script env \<and> url_scheme env (rq_url request) = ''file'' then Some (note_net (AsarLoader request) w)
             else if \<not> HasListener (web w) then
               (if target_factory_bound w then Some (note_net (PassThrough request_id request) w) else None)
             else
               let (i, w1) = add_request (InProgressRequest_make request_id request) w;
                   w2 = (if request_id \<noteq> 0 \<and> network_ids w1 request_id = None
                         then w1\<lparr>network_ids := (network_ids w1)(request_id \<mapsto> i)\<rparr> else w1)
               in Restart env i w2)"

definition factory_OnLoaderCreated :: "int \<Rightarrow> world \<Rightarrow> world option" where
  "factory_OnLoaderCreated request_id w =
     (case network_ids w request_id of
        None \<Rightarrow> Some w
      | Some i \<Rightarrow> request_OnLoaderCreated i w)"

definition OnLoaderForCorsPreflightCreated :: "proxy_env \<Rightarrow> ResourceRequest \<Rightarrow> world \<Rightarrow> world option" where
  "OnLoaderForCorsPreflightCreated env request w = do {
     let (i, w1) = add_request (InProgressRequest_preflight request) w;
     w2 \<leftarrow> request_OnLoaderCreated i w1;
     Restart env i w2 }"

definition OnTargetFactoryError :: "world \<Rightarrow> world" where
  "OnTargetFactoryError w = MaybeDeleteThis (w\<lparr>target_factory_bound := False, proxy_receivers := 0\<rparr>)"

text \<open>One of the pipes of clients of the factory has closed.\<close>

definition OnProxyBindingError :: "world \<Rightarrow> world" where
  "OnProxyBindingError w =
     (let w1 = w\<lparr>proxy_receivers := proxy_receivers w - 1\<rparr>
      in MaybeDeleteThis (if proxy_receivers w1 = 0 then w1\<lparr>target_factory_bound := False\<rparr> else w1))"

section \<open>Tasks and scripts\<close>

definition run_task :: "proxy_env \<Rightarrow> world \<Rightarrow> world option" where
  "run_task env w =
     (case tasks w of
        [] \<Rightarrow> Some w
      | (i, k, result) # ts \<Rightarrow>
          let w1 = w\<lparr>tasks := ts\<rparr>
          in case this i w1 of None \<Rightarrow> Some w1 | Some _ \<Rightarrow> continue_with env k i result w1)"

text \<open>A script answers an event it has kept; its response callback can be used once.\<close>

definition answer_held :: "proxy_env \<Rightarrow> nat \<Rightarrow> js_response option \<Rightarrow> world \<Rightarrow> world option" where
  "answer_held env n resp w =
     (if n < length (held w) then
        let (i, out) = held w ! n
        in listener_result env i out resp (w\<lparr>held := take n (held w) @ drop (Suc n) (held w)\<rparr>)
      else Some w)"

end
