(* ===== verification/Url_Loader_Inv.thy ===== *)
theory Url_Loader_Inv
  imports Url_Loader_Proxy
begin

text \<open>
  What holds of the requests of a proxying factory in every run: no pointer to a request outlives it, the
  factory lives exactly as long as it is needed, and the client of each request hears of its end once.
\<close>

section \<open>Invariant\<close>

text \<open>The request for which a message is sent to its client or to the network.\<close>

fun sent_for :: "net_event \<Rightarrow> nat option" where
  "sent_for (ClientResponse i _ _) = Some i"
| "sent_for (ClientRedirect i _ _) = Some i"
| "sent_for (ClientComplete i _) = Some i"
| "sent_for (ClientOther i _) = Some i"
| "sent_for (LoaderStarted i _ _) = Some i"
| "sent_for (LoaderFollowRedirect i _) = Some i"
| "sent_for (LoaderOther i _) = Some i"
| "sent_for _ = None"

definition completed_in :: "nat \<Rightarrow> net_event list \<Rightarrow> bool" where
  "completed_in i l \<longleftrightarrow> (\<exists>c. ClientComplete i c \<in> set l)"

text \<open>After a completion nothing more is sent to the client or the network.\<close>

definition silent_after :: "net_event list \<Rightarrow> bool" where
  "silent_after l \<longleftrightarrow> (\<forall>pre i c post. l = pre @ ClientComplete i c # post \<longrightarrow> (\<forall>e \<in> set post. sent_for e \<noteq> Some i))"

lemma silent_after_snoc:
  "silent_after (l @ [e]) \<longleftrightarrow> silent_after l \<and> (\<forall>i. sent_for e = Some i \<longrightarrow> \<not> completed_in i l)"
proof
  assume L: "silent_after (l @ [e])"
  have "silent_after l"
    unfolding silent_after_def
  proof (intro allI impI)
    fix pre i c post
    assume "l = pre @ ClientComplete i c # post"
    then have "l @ [e] = pre @ ClientComplete i c # (post @ [e])" by simp
    with L have "\<forall>x \<in> set (post @ [e]). sent_for x \<noteq> Some i" unfolding silent_after_def by blast
    then show "\<forall>e \<in> set post. sent_for e \<noteq> Some i" by simp
  qed
  moreover have "\<not> completed_in i l" if "sent_for e = Some i" for i
  proof
    assume "completed_in i l"
    then obtain pre c post where "l = pre @ ClientComplete i c # post" by (auto simp: completed_in_def dest!: split_list)
    then have "l @ [e] = pre @ ClientComplete i c # (post @ [e])" by simp
    with L have "\<forall>x \<in> set (post @ [e]). sent_for x \<noteq> Some i" unfolding silent_after_def by blast
    with that show False by simp
  qed
  ultimately show "silent_after l \<and> (\<forall>i. sent_for e = Some i \<longrightarrow> \<not> completed_in i l)" by blast
next
  assume R: "silent_after l \<and> (\<forall>i. sent_for e = Some i \<longrightarrow> \<not> completed_in i l)"
  show "silent_after (l @ [e])"
    unfolding silent_after_def
  proof (intro allI impI)
    fix pre i c post
    assume eq: "l @ [e] = pre @ ClientComplete i c # post"
    show "\<forall>e \<in> set post. sent_for e \<noteq> Some i"
    proof (cases post rule: rev_cases)
      case Nil
      then show ?thesis by simp
    next
      case (snoc p x)
      with eq have l: "l = pre @ ClientComplete i c # p" "x = e" by auto
      then have "completed_in i l" by (auto simp: completed_in_def)
      with R l snoc show ?thesis unfolding silent_after_def by auto
    qed
  qed
qed

text \<open>The requests in \<open>X\<close> have sent their last message and are about to be removed.\<close>

definition req_ok :: "net_event list \<Rightarrow> nat \<Rightarrow> InProgressRequest \<Rightarrow> bool" where
  "req_ok l i r \<longleftrightarrow> r_info r \<noteq> None \<and> (r_has_client r \<longleftrightarrow> \<not> r_for_cors_preflight r) \<and>
     RequestCreated i (r_for_cors_preflight r) \<in> set l"

definition alive :: "nat \<Rightarrow> world \<Rightarrow> bool" where
  "alive i w \<longleftrightarrow> i \<in> fst ` set (requests w)"

definition ids_ok :: "world \<Rightarrow> bool" where
  "ids_ok w \<longleftrightarrow> distinct (map fst (requests w)) \<and> (\<forall>i. alive i w \<longrightarrow> i \<le> request_id_generator w) \<and>
     (\<forall>i k. callbacks (web w) i = Some k \<longrightarrow> alive i w) \<and>
     (\<forall>n i. network_ids w n = Some i \<longrightarrow> (\<exists>r. this i w = Some r \<and> r_network_service_request_id r = n)) \<and>
     (proxy_receivers w > 0 \<longrightarrow> target_factory_bound w) \<and>
     (factory_deleted w \<longleftrightarrow> \<not> target_factory_bound w \<and> requests w = [] \<and> proxy_receivers w = 0)"

definition log_ok :: "nat set \<Rightarrow> world \<Rightarrow> bool" where
  "log_ok X w \<longleftrightarrow> (\<forall>x \<in> set (requests w). req_ok (net_log w) (fst x) (snd x)) \<and>
     (\<forall>i b. RequestCreated i b \<in> set (net_log w) \<longrightarrow> i \<le> request_id_generator w) \<and>
     (\<forall>i. RequestCreated i True \<in> set (net_log w) \<longrightarrow> RequestCreated i False \<notin> set (net_log w)) \<and>
     (\<forall>e \<in> set (net_log w). \<forall>i. sent_for e = Some i \<longrightarrow> i \<le> request_id_generator w) \<and>
     (\<forall>i. alive i w \<and> i \<notin> X \<longrightarrow> \<not> completed_in i (net_log w)) \<and>
     silent_after (net_log w) \<and>
     (\<forall>i. RequestCreated i False \<in> set (net_log w) \<and> (\<not> alive i w \<or> i \<in> X) \<longrightarrow> completed_in i (net_log w))"

definition inv_x :: "nat set \<Rightarrow> world \<Rightarrow> bool" where
  "inv_x X w \<longleftrightarrow> ids_ok w \<and> log_ok X w"

section \<open>Small steps\<close>

lemma this_alive: "this i w \<noteq> None \<longleftrightarrow> alive i w"
  by (auto simp: this_def alive_def map_of_eq_None_iff)

lemma this_Some_alive: "this i w = Some r \<Longrightarrow> alive i w"
  using this_alive by force

lemma map_of_upd:
  "map_of (map (\<lambda>x. if fst x = i then (i, f (snd x)) else x) xs) j = (if j = i then map_option f (map_of xs i) else map_of xs j)"
  by (induction xs) auto

lemma this_upd: "this j (upd i f w) = (if j = i then map_option f (this i w) else this j w)"
  by (simp add: this_def upd_def map_of_upd)

lemma upd_simps [simp]:
  "web (upd i f w) = web w" "network_ids (upd i f w) = network_ids w" "request_id_generator (upd i f w) = request_id_generator w"
  "target_factory_bound (upd i f w) = target_factory_bound w" "proxy_receivers (upd i f w) = proxy_receivers w"
  "header_client_bound (upd i f w) = header_client_bound w" "factory_deleted (upd i f w) = factory_deleted w"
  "tasks (upd i f w) = tasks w" "held (upd i f w) = held w" "net_log (upd i f w) = net_log w"
  "requests (upd i f w) = [] \<longleftrightarrow> requests w = []"
  by (simp_all add: upd_def)

lemma map_fst_upd [simp]: "map fst (requests (upd i f w)) = map fst (requests w)"
  by (auto simp: upd_def intro!: map_cong)

lemma alive_upd [simp]: "alive j (upd i f w) = alive j w"
  unfolding alive_def by (metis map_fst_upd set_map)

lemma note_net_simps [simp]:
  "web (note_net e w) = web w" "network_ids (note_net e w) = network_ids w" "request_id_generator (note_net e w) = request_id_generator w"
  "target_factory_bound (note_net e w) = target_factory_bound w" "proxy_receivers (note_net e w) = proxy_receivers w"
  "header_client_bound (note_net e w) = header_client_bound w" "factory_deleted (note_net e w) = factory_deleted w"
  "tasks (note_net e w) = tasks w" "held (note_net e w) = held w" "net_log (note_net e w) = net_log w @ [e]"
  "requests (note_net e w) = requests w"
  by (simp_all add: note_net_def)

lemma alive_more [simp]:
  "alive i (note_net e w) = alive i w" "alive i (w\<lparr>web := ws\<rparr>) = alive i w" "alive i (w\<lparr>tasks := ts\<rparr>) = alive i w"
  "alive i (w\<lparr>held := hs\<rparr>) = alive i w" "alive i (w\<lparr>network_ids := ns\<rparr>) = alive i w"
  "alive i (w\<lparr>target_factory_bound := b\<rparr>) = alive i w" "alive i (w\<lparr>proxy_receivers := n\<rparr>) = alive i w"
  "alive i (w\<lparr>factory_deleted := d\<rparr>) = alive i w"
  by (simp_all add: alive_def)

lemma this_more [simp]:
  "this i (note_net e w) = this i w" "this i (w\<lparr>web := ws\<rparr>) = this i w" "this i (w\<lparr>tasks := ts\<rparr>) = this i w"
  "this i (w\<lparr>held := hs\<rparr>) = this i w" "this i (w\<lparr>network_ids := ns\<rparr>) = this i w"
  "this i (w\<lparr>target_factory_bound := b\<rparr>) = this i w" "this i (w\<lparr>proxy_receivers := n\<rparr>) = this i w"
  "this i (w\<lparr>factory_deleted := d\<rparr>) = this i w"
  by (simp_all add: this_def)

text \<open>Changes of a request that the invariant does not see.\<close>

definition good_upd :: "(InProgressRequest \<Rightarrow> InProgressRequest) \<Rightarrow> bool" where
  "good_upd f \<longleftrightarrow> (\<forall>r. (r_info r \<noteq> None \<longrightarrow> r_info (f r) \<noteq> None) \<and> r_has_client (f r) = r_has_client r \<and>
     r_for_cors_preflight (f r) = r_for_cors_preflight r \<and> r_network_service_request_id (f r) = r_network_service_request_id r)"

lemma inv_upd:
  assumes "inv_x X w" "good_upd f"
  shows "inv_x X (upd i f w)"
proof -
  have "set (requests (upd i f w)) = (\<lambda>x. if fst x = i then (i, f (snd x)) else x) ` set (requests w)"
    by (simp add: upd_def)
  then have "\<forall>x \<in> set (requests (upd i f w)). req_ok (net_log w) (fst x) (snd x)"
    using assms by (auto simp: inv_x_def log_ok_def req_ok_def good_upd_def)
  moreover have "\<forall>n j. network_ids w n = Some j \<longrightarrow> (\<exists>r. this j (upd i f w) = Some r \<and> r_network_service_request_id r = n)"
  proof (intro allI impI)
    fix n j
    assume "network_ids w n = Some j"
    then obtain r where "this j w = Some r" "r_network_service_request_id r = n"
      using assms(1) unfolding inv_x_def ids_ok_def by blast
    then show "\<exists>r. this j (upd i f w) = Some r \<and> r_network_service_request_id r = n"
      using assms(2) by (cases "j = i") (auto simp: this_upd good_upd_def)
  qed
  ultimately show ?thesis
    using assms(1) by (simp add: inv_x_def ids_ok_def log_ok_def)
qed

definition net_plain :: "net_event \<Rightarrow> bool" where
  "net_plain e \<longleftrightarrow> sent_for e = None \<and> (\<forall>i b. e \<noteq> RequestCreated i b)"

lemma net_plains [simp]:
  "net_plain (SimpleCalled l ev i)" "net_plain (ResponseCalled l rv i)" "net_plain (BeforeSendHeadersReply i c h)"
  "net_plain (HeadersReceivedReply i c s u)" "net_plain (InterceptedCall n ty rq)" "net_plain (AsarLoader rq)"
  "net_plain (PassThrough nid rq)"
  by (simp_all add: net_plain_def)

lemma req_ok_mono: "req_ok l i r \<Longrightarrow> req_ok (l @ l') i r"
  by (auto simp: req_ok_def)

lemma completed_in_snoc: "completed_in i (l @ [e]) \<longleftrightarrow> completed_in i l \<or> (\<exists>c. e = ClientComplete i c)"
  by (auto simp: completed_in_def)

lemma inv_note: "inv_x X w \<Longrightarrow> net_plain e \<Longrightarrow> inv_x X (note_net e w)"
  by (auto simp: inv_x_def ids_ok_def log_ok_def net_plain_def silent_after_snoc completed_in_snoc intro: req_ok_mono)

lemma inv_client:
  "inv_x X w \<Longrightarrow> alive i w \<Longrightarrow> i \<notin> X \<Longrightarrow> sent_for e = Some i \<Longrightarrow> \<forall>j c. e \<noteq> ClientComplete j c \<Longrightarrow> inv_x X (note_net e w)"
  by (cases e) (auto simp: inv_x_def ids_ok_def log_ok_def silent_after_snoc completed_in_snoc intro: req_ok_mono)

lemma inv_complete:
  "inv_x {} w \<Longrightarrow> alive i w \<Longrightarrow> inv_x {i} (note_net (ClientComplete i c) w)"
  by (auto simp: inv_x_def ids_ok_def log_ok_def silent_after_snoc completed_in_snoc intro: req_ok_mono)

lemma inv_web:
  "inv_x X w \<Longrightarrow> (\<And>i k. callbacks web' i = Some k \<Longrightarrow> alive i w) \<Longrightarrow> inv_x X (w\<lparr>web := web'\<rparr>)"
  by (auto simp: inv_x_def ids_ok_def log_ok_def)

lemma inv_tasks [simp]: "inv_x X (w\<lparr>tasks := ts\<rparr>) = inv_x X w" "inv_x X (w\<lparr>held := hs\<rparr>) = inv_x X w"
  by (simp_all add: inv_x_def ids_ok_def log_ok_def)

section \<open>Operations\<close>

lemma note_simple_this [simp]: "this j (note_simple ev i l w) = this j w" "alive j (note_simple ev i l w) = alive j w"
  "web (note_simple ev i l w) = web w"
  by (simp_all add: note_simple_def split: option.splits)

lemma inv_note_simple: "inv_x X w \<Longrightarrow> inv_x X (note_simple ev i l w)"
  by (simp add: note_simple_def inv_note split: option.splits)

lemma simple_event_inv:
  assumes "inv_x X w" "simple_event env ev i w = Some w'"
  shows "inv_x X w' \<and> (\<forall>j. this j w' = this j w)"
  using assms by (auto simp: simple_event_def bind_eq_Some_conv inv_note_simple)

lemma good_upd_write: "good_upd (apply_write x)"
  by (cases x) (simp_all add: good_upd_def)

lemma write_out_inv:
  assumes "inv_x X w" "write_out i wr w = Some w'"
  shows "inv_x X w' \<and> (\<forall>j. alive j w' = alive j w) \<and> web w' = web w"
  using assms by (auto simp: write_out_def inv_upd good_upd_write split: option.splits)

lemma inv_callbacks: "inv_x X w \<Longrightarrow> callbacks (web w) i = Some k \<Longrightarrow> alive i w"
  unfolding inv_x_def ids_ok_def by blast

lemma listener_result_inv:
  assumes "inv_x X w" "listener_result env i out resp w = Some w'"
  shows "inv_x X w' \<and> (\<forall>j. alive j w' = alive j w)"
proof (cases "OnListenerResult (wops env) i out resp (web w)")
  case None
  then show ?thesis using assms by (simp add: listener_result_def)
next
  case (Some y)
  obtain wr k res web' where y: "y = (wr, k, res, web')" by (metis prod_cases4)
  obtain w1 where w1: "write_out i wr w = Some w1" "w' = w1\<lparr>web := web', tasks := tasks w1 @ [(i, k, res)]\<rparr>"
    using assms(2) Some y by (auto simp: listener_result_def bind_eq_Some_conv)
  note W = write_out_inv[OF assms(1) w1(1)]
  have web': "web' = erase_callback i (web w)" using OnListenerResult_callbacks[OF Some[unfolded y]] by blast
  have "inv_x X (w1\<lparr>web := web'\<rparr>)"
    using W by (intro inv_web) (auto simp: web' split: if_splits dest: inv_callbacks[OF assms(1)])
  then show ?thesis using W w1(2) inv_tasks(1)[where w = "w1\<lparr>web := web'\<rparr>"] by simp
qed

lemma response_event_inv:
  assumes "inv_x X w" "response_event env ev i k out w = Some (result, w')"
  shows "inv_x X w' \<and> (\<forall>j. alive j w' = alive j w) \<and> (result = OK \<or> result = ERR_IO_PENDING)"
proof -
  obtain r u where r: "this i w = Some r" "r_info r = Some u"
    using assms(2) by (auto simp: response_event_def bind_eq_Some_conv)
  show ?thesis
  proof (cases "HandleResponseEvent (wops env) ev i u k (web w)")
    case None
    then show ?thesis using assms r by (auto simp: response_event_def)
  next
    case (Some y)
    obtain l web' where y: "y = (l, web')" by fastforce
    define w1 where "w1 = note_net (ResponseCalled l ev i) (w\<lparr>web := web'\<rparr>)"
    have cb: "callbacks web' = (callbacks (web w))(i \<mapsto> k)" by (rule HandleResponseEvent_callbacks[OF Some[unfolded y]])
    have "inv_x X (w\<lparr>web := web'\<rparr>)"
      using assms(1) this_Some_alive[OF r(1)]
      by (intro inv_web) (auto simp: cb split: if_splits dest: inv_callbacks)
    then have w1: "inv_x X w1" "\<And>j. alive j w1 = alive j w" by (simp_all add: w1_def inv_note)
    show ?thesis
    proof (cases "answers env l ev i (net_log w1)")
      case None
      then have "w' = w1\<lparr>held := held w1 @ [(i, out)]\<rparr>" "result = ERR_IO_PENDING"
        using assms(2) r Some y by (auto simp: response_event_def Let_def w1_def)
      then show ?thesis using w1 by simp
    next
      case (Some resp)
      then have "listener_result env i out resp w1 = Some w'" "result = ERR_IO_PENDING"
        using assms(2) r \<open>HandleResponseEvent (wops env) ev i u k (web w) = Some y\<close> y
        by (auto simp: response_event_def Let_def w1_def bind_eq_Some_conv)
      then show ?thesis using listener_result_inv[OF w1(1)] w1(2) by simp
    qed
  qed
qed

lemma alive_filter: "alive j (w\<lparr>requests := filter (\<lambda>x. fst x \<noteq> i) (requests w)\<rparr>) \<longleftrightarrow> j \<noteq> i \<and> alive j w"
  by (auto simp: alive_def)

lemma this_filter: "this j (w\<lparr>requests := filter (\<lambda>x. fst x \<noteq> i) (requests w)\<rparr>) = (if j = i then None else this j w)"
proof -
  have "map_of (filter (\<lambda>x. fst x \<noteq> i) xs) j = (if j = i then None else map_of xs j)" for xs :: "(nat \<times> InProgressRequest) list"
    by (induction xs) auto
  then show ?thesis by (simp add: this_def)
qed

text \<open>A request that is about to be removed.\<close>

definition last_step :: "world \<Rightarrow> bool" where
  "last_step w \<longleftrightarrow> (factory_deleted w \<longleftrightarrow> \<not> target_factory_bound w \<and> requests w = [] \<and> proxy_receivers w = 0)"

definition inv_core :: "world \<Rightarrow> bool" where
  "inv_core w \<longleftrightarrow> inv_x {} (w\<lparr>factory_deleted := \<not> target_factory_bound w \<and> requests w = [] \<and> proxy_receivers w = 0\<rparr>)"

lemma inv_core_note: "inv_core w \<Longrightarrow> net_plain e \<Longrightarrow> inv_core (note_net e w)"
proof -
  assume "inv_core w" "net_plain e"
  from inv_note[OF this(1)[unfolded inv_core_def] this(2)] show "inv_core (note_net e w)"
    by (cases w) (simp add: inv_core_def note_net_def)
qed

lemma inv_core_MaybeDeleteThis: "inv_core w \<Longrightarrow> \<not> factory_deleted w \<Longrightarrow> inv_x {} (MaybeDeleteThis w)"
proof -
  assume "inv_core w" "\<not> factory_deleted w"
  moreover have "w\<lparr>factory_deleted := False\<rparr> = w" if "\<not> factory_deleted w" using that by simp
  ultimately show "inv_x {} (MaybeDeleteThis w)"
    by (cases "\<not> target_factory_bound w \<and> requests w = [] \<and> proxy_receivers w = 0")
      (auto simp: inv_core_def MaybeDeleteThis_def)
qed

lemma alive_MaybeDeleteThis [simp]: "alive j (MaybeDeleteThis w) = alive j w"
  by (simp add: MaybeDeleteThis_def)

lemma RemoveRequest_core:
  assumes "inv_x {i} w" "this i w = Some r" "nid = r_network_service_request_id r"
  defines "w2 \<equiv> w\<lparr>network_ids := (network_ids w)(nid := None), requests := filter (\<lambda>x. fst x \<noteq> i) (requests w),
      web := OnRequestWillBeDestroyed i (web w)\<rparr>"
  shows "inv_core w2" "\<And>j. alive j w2 \<longleftrightarrow> j \<noteq> i \<and> alive j w" "\<not> factory_deleted w2"
proof -
  have "this j w2 = (if j = i then None else this j w)" for j
    using this_filter[of j i w] by (simp add: this_def w2_def)
  note T = this
  show A: "\<And>j. alive j w2 \<longleftrightarrow> j \<noteq> i \<and> alive j w"
    unfolding this_alive[symmetric] T by simp
  have ne: "requests w \<noteq> []" using assms(2) by (auto simp: this_def)
  then show "\<not> factory_deleted w2" using assms(1) by (simp add: w2_def inv_x_def ids_ok_def)
  have N: "\<forall>n j. network_ids w2 n = Some j \<longrightarrow> (\<exists>r. this j w2 = Some r \<and> r_network_service_request_id r = n)"
  proof (intro allI impI)
    fix n j
    assume "network_ids w2 n = Some j"
    then have n: "n \<noteq> nid" "network_ids w n = Some j" by (auto simp: w2_def split: if_splits)
    then obtain q where q: "this j w = Some q" "r_network_service_request_id q = n"
      using assms(1) unfolding inv_x_def ids_ok_def by blast
    with n assms(2,3) have "j \<noteq> i" by auto
    with q T show "\<exists>r. this j w2 = Some r \<and> r_network_service_request_id r = n" by simp
  qed
  have D: "distinct (map fst (filter (\<lambda>x. fst x \<noteq> i) (requests w)))"
    using assms(1) by (auto simp: inv_x_def ids_ok_def intro: distinct_map_filter)
  have C: "\<forall>j k. callbacks (web w2) j = Some k \<longrightarrow> alive j w2"
  proof (intro allI impI)
    fix j k
    assume "callbacks (web w2) j = Some k"
    then have "j \<noteq> i" "callbacks (web w) j = Some k" by (auto simp: w2_def OnRequestWillBeDestroyed_def split: if_splits)
    then show "alive j w2" using inv_callbacks[OF assms(1)] A by simp
  qed
  let ?w = "w2\<lparr>factory_deleted := \<not> target_factory_bound w2 \<and> requests w2 = [] \<and> proxy_receivers w2 = 0\<rparr>"
  have f: "requests w2 = filter (\<lambda>x. fst x \<noteq> i) (requests w)" "net_log w2 = net_log w"
    "request_id_generator w2 = request_id_generator w" "target_factory_bound w2 = target_factory_bound w"
    "proxy_receivers w2 = proxy_receivers w"
    by (simp_all add: w2_def)
  have "ids_ok ?w"
    using assms(1) N D C A by (simp add: inv_x_def ids_ok_def f)
  moreover have "log_ok {} ?w"
    using assms(1) A by (auto simp: inv_x_def log_ok_def f)
  ultimately show "inv_core w2" by (simp add: inv_core_def inv_x_def)
qed

lemma RemoveRequest_inv:
  assumes "inv_x {i} w" "this i w = Some r" "nid = r_network_service_request_id r"
  shows "inv_x {} (RemoveRequest nid i w)" "\<And>j. alive j (RemoveRequest nid i w) \<longleftrightarrow> j \<noteq> i \<and> alive j w"
proof -
  define w2 where "w2 = w\<lparr>network_ids := (network_ids w)(nid := None), requests := filter (\<lambda>x. fst x \<noteq> i) (requests w),
      web := OnRequestWillBeDestroyed i (web w)\<rparr>"
  note C = RemoveRequest_core[OF assms, folded w2_def]
  have info: "r_info r \<noteq> None"
    using assms(1,2) map_of_SomeD[of "requests w" i r] by (fastforce simp: inv_x_def log_ok_def req_ok_def this_def)
  obtain es where es: "destroy_request i r (w\<lparr>network_ids := (network_ids w)(nid := None), requests := filter (\<lambda>x. fst x \<noteq> i) (requests w)\<rparr>)
      = fold note_net es w2" "\<forall>e \<in> set es. net_plain e"
  proof -
    have "destroy_request i r (w\<lparr>network_ids := (network_ids w)(nid := None), requests := filter (\<lambda>x. fst x \<noteq> i) (requests w)\<rparr>)
      = fold note_net ((if r_on_before_send_headers_callback r then [BeforeSendHeadersReply i ERR_ABORTED None] else []) @
          (if r_on_headers_received_callback r then [HeadersReceivedReply i ERR_ABORTED None []] else [])) w2"
      using info by (simp add: destroy_request_def w2_def Let_def)
    then show ?thesis by (rule that) auto
  qed
  have F: "inv_core v \<Longrightarrow> \<not> factory_deleted v \<Longrightarrow> \<forall>e \<in> set es. net_plain e \<Longrightarrow>
      inv_core (fold note_net es v) \<and> \<not> factory_deleted (fold note_net es v) \<and> (\<forall>j. alive j (fold note_net es v) = alive j v)" for v es
    by (induction es arbitrary: v) (simp_all add: inv_core_note)
  have R: "RemoveRequest nid i w = MaybeDeleteThis (fold note_net es w2)"
    using es(1) assms(2) by (simp add: RemoveRequest_def Let_def)
  from F[OF C(1,3) es(2)] C(2) show "inv_x {} (RemoveRequest nid i w)"
    "\<And>j. alive j (RemoveRequest nid i w) \<longleftrightarrow> j \<noteq> i \<and> alive j w"
    unfolding R by (simp_all add: inv_core_MaybeDeleteThis)
qed

abbreviation inv_net :: "world \<Rightarrow> bool" where "inv_net w \<equiv> inv_x {} w"

lemma inv_request: "inv_x X w \<Longrightarrow> this i w = Some r \<Longrightarrow> req_ok (net_log w) i r"
  using map_of_SomeD[of "requests w" i r] by (fastforce simp: inv_x_def log_ok_def this_def)

lemma inv_preflight:
  assumes "inv_net w" "this i w = Some r" "r_for_cors_preflight r"
  shows "inv_x {i} w"
  using assms inv_request[OF assms(1,2)] by (auto simp: inv_x_def log_ok_def req_ok_def)

lemma OnRequestError_inv:
  assumes "inv_net w" "OnRequestError env i c w = Some w'"
  shows "inv_net w'"
proof -
  obtain r u where r: "this i w = Some r" "r_info r = Some u"
    using assms(2) by (auto simp: OnRequestError_def bind_eq_Some_conv)
  define w1 where "w1 = (if r_has_client r then note_net (ClientComplete i c) w else w)"
  have w1: "inv_x {i} w1" "this i w1 = Some r" "\<And>j. alive j w1 = alive j w" "web w1 = web w"
    using assms(1) r(1) inv_complete[OF assms(1), of i c] this_Some_alive[OF r(1)] inv_preflight[OF assms(1) r(1)]
      inv_request[OF assms(1) r(1)]
    by (auto simp: w1_def req_ok_def)
  obtain l where l: "w' = RemoveRequest (r_network_service_request_id r) i
      (note_simple kOnErrorOccurred i l (w1\<lparr>web := erase_callback i (web w1)\<rparr>))"
    using assms(2) r by (auto simp: OnRequestError_def Let_def web_OnErrorOccurred_def w1_def)
  have "inv_x {i} (w1\<lparr>web := erase_callback i (web w1)\<rparr>)"
    using w1 by (intro inv_web) (auto split: if_splits dest: inv_callbacks)
  then have "inv_x {i} (note_simple kOnErrorOccurred i l (w1\<lparr>web := erase_callback i (web w1)\<rparr>))"
    by (rule inv_note_simple)
  then show ?thesis unfolding l by (rule RemoveRequest_inv(1)) (simp_all add: w1)
qed

lemma good_upds [simp]:
  "good_upd (\<lambda>r. r\<lparr>r_proxied_client := f1 r\<rparr>)" "good_upd (\<lambda>r. r\<lparr>r_header_client := f1 r\<rparr>)"
  "good_upd (\<lambda>r. r\<lparr>r_proxied_client := f1 r, r_header_client := f2 r\<rparr>)"
  "good_upd (\<lambda>r. r\<lparr>r_target_loader := f3 r, r_proxied_client := f1 r\<rparr>)"
  "good_upd (\<lambda>r. r\<lparr>r_proxied_client := f1 r, r_header_client := f2 r, r_target_loader := f3 r\<rparr>)"
  "good_upd (\<lambda>r. r\<lparr>r_proxied_client := f1 r, r_header_client := f2 r, r_target_loader := f3 r, r_request := f4 r, r_current_response := f5 r\<rparr>)"
  "good_upd (\<lambda>r. r\<lparr>r_request := f4 r\<rparr>)" "good_upd (\<lambda>r. r\<lparr>r_current_response := f5 r\<rparr>)"
  "good_upd (\<lambda>r. r\<lparr>r_on_before_send_headers_callback := f3 r\<rparr>)" "good_upd (\<lambda>r. r\<lparr>r_pending_follow_redirect_params := f6 r\<rparr>)"
  "good_upd (\<lambda>r. r\<lparr>r_on_headers_received_callback := f3 r, r_override_headers := f7 r\<rparr>)"
  "good_upd (\<lambda>r. r\<lparr>r_current_body := f8 r\<rparr>)" "good_upd (\<lambda>r. r\<lparr>r_override_headers := f7 r, r_redirect_url := f9 r\<rparr>)"
  "good_upd (\<lambda>r. r\<lparr>r_redirect_url := f9 r\<rparr>)" "good_upd (\<lambda>r. r\<lparr>r_info := Some (f10 r), r_uses_header_client := f3 r\<rparr>)"
  "good_upd (\<lambda>r. r\<lparr>r_current_body := f8 r, r_current_response := f5 r\<rparr>)"
  "good_upd (\<lambda>r. r\<lparr>r_request := f4 r, r_on_before_send_headers_callback := f3 r\<rparr>)"
  "good_upd (\<lambda>r. r\<lparr>r_on_headers_received_callback := f3 r, r_current_response := f5 r\<rparr>)"
  by (simp_all add: good_upd_def)

lemmas inv_steps = inv_upd inv_note inv_client inv_note_simple

lemma ContinueToBeforeRedirect_inv:
  assumes "inv_net w" "ContinueToBeforeRedirect env i ri c w = Some w'"
  shows "inv_net w'"
proof (cases "c = OK")
  case False
  then show ?thesis using assms OnRequestError_inv by (simp add: ContinueToBeforeRedirect_def)
next
  case True
  let ?w1 = "upd i (\<lambda>r. r\<lparr>r_proxied_client := resume (r_proxied_client r)\<rparr>) w"
  obtain w2 r head f where w2: "simple_event env kOnBeforeRedirect i ?w1 = Some w2" "this i w2 = Some r"
      "w' = upd i (\<lambda>r. r\<lparr>r_request := f r\<rparr>) (note_net (ClientRedirect i ri head) w2)"
    using assms(2) True by (fastforce simp: ContinueToBeforeRedirect_def bind_eq_Some_conv split: if_splits)
  have "inv_net w2" using simple_event_inv[OF _ w2(1)] assms(1) by (simp add: inv_upd)
  then show ?thesis using this_Some_alive[OF w2(2)] unfolding w2(3) by (simp add: inv_steps)
qed

lemma HandleBeforeRequestRedirect_inv:
  "inv_net w \<Longrightarrow> HandleBeforeRequestRedirect env i w = Some w' \<Longrightarrow> inv_net w'"
  unfolding HandleBeforeRequestRedirect_def Let_def bind_eq_Some_conv
  by (elim exE conjE, erule ContinueToBeforeRedirect_inv[rotated], rule inv_upd, assumption, simp)

lemmas error_elims = OnRequestError_inv[rotated] HandleBeforeRequestRedirect_inv[rotated]

lemma ContinueToStartRequest_inv:
  "inv_net w \<Longrightarrow> ContinueToStartRequest env i c w = Some w' \<Longrightarrow> inv_net w'"
  by (cases "c = OK")
    (auto simp: ContinueToStartRequest_def bind_eq_Some_conv Let_def inv_steps split: if_splits elim: error_elims dest!: this_Some_alive)

lemma ContinueToSendHeaders_inv:
  assumes "inv_net w" "ContinueToSendHeaders env i rm st c w = Some w'"
  shows "inv_net w'"
proof (cases "c = OK")
  case False
  then show ?thesis using assms OnRequestError_inv by (simp add: ContinueToSendHeaders_def)
next
  case True
  let ?U = "\<lambda>w1. upd i (\<lambda>r. r\<lparr>r_proxied_client := resume (r_proxied_client r)\<rparr>) w1"
  obtain r w1 w2 where r: "this i w = Some r" and w1: "(if r_uses_header_client r then
                 (if \<not> r_on_before_send_headers_callback r then None
                  else Some (note_net (BeforeSendHeadersReply i OK (Some (rq_headers (r_request r))))
                               (upd i (\<lambda>r. r\<lparr>r_on_before_send_headers_callback := False\<rparr>) w)))
               else
                 (case r_pending_follow_redirect_params r of
                    None \<Rightarrow> Some w
                  | Some p \<Rightarrow>
                      let p1 = add_headers env (r_request r) rm st p
                      in Some (upd i (\<lambda>r. r\<lparr>r_pending_follow_redirect_params := None\<rparr>)
                           (if r_target_loader r then note_net (LoaderFollowRedirect i p1) w else w)))) = Some w1"
    and w2: "simple_event env kOnSendHeaders i (?U w1) = Some w2"
      "(if \<not> r_uses_header_client r then ContinueToStartRequest env i OK w2 else Some w2) = Some w'"
    using assms(2) by (simp only: ContinueToSendHeaders_def True simp_thms if_False if_True bind_eq_Some_conv) blast
  have "inv_net w1" using w1 assms(1) this_Some_alive[OF r] by (auto simp: Let_def inv_steps split: if_splits option.splits)
  then have "inv_net w2" using simple_event_inv[OF _ w2(1)] by (simp add: inv_upd)
  then show ?thesis using w2(2) ContinueToStartRequest_inv by (auto split: if_splits)
qed

lemma ContinueToBeforeSendHeaders_inv:
  assumes "inv_net w" "ContinueToBeforeSendHeaders env i c w = Some w'"
  shows "inv_net w'"
proof (cases "c = OK")
  case False
  then show ?thesis using assms OnRequestError_inv by (simp add: ContinueToBeforeSendHeaders_def)
next
  case True
  then obtain r where r: "this i w = Some r"
    using assms(2) by (auto simp: ContinueToBeforeSendHeaders_def bind_eq_Some_conv)
  show ?thesis
  proof (cases "\<not> r_uses_header_client r \<and> r_redirect_url r \<noteq> []")
    case redirect: True
    then show ?thesis
      using assms True r by (auto simp: ContinueToBeforeSendHeaders_def split: if_splits elim: error_elims)
  next
    case False
    let ?w = "upd i (\<lambda>r. r\<lparr>r_proxied_client := resume (r_proxied_client r)\<rparr>) w"
    obtain result w1 where e: "response_event env kOnBeforeSendHeaders i (ContinueToSendHeaders_k [] []) RequestHeaders ?w = Some (result, w1)"
      "(if result = ERR_BLOCKED_BY_CLIENT then OnRequestError env i result w1
          else if result = ERR_IO_PENDING then Some (upd i (\<lambda>r. r\<lparr>r_proxied_client := resume (r_proxied_client r)\<rparr>) w1)
          else ContinueToSendHeaders env i [] [] OK w1) = Some w'"
      using assms(2) True r False by (auto simp: ContinueToBeforeSendHeaders_def bind_eq_Some_conv)
    have "inv_net w1" using response_event_inv[OF _ e(1)] assms(1) by (simp add: inv_upd)
    then show ?thesis
      using e(2) by (auto simp: inv_upd split: if_splits elim: error_elims ContinueToSendHeaders_inv[rotated])
  qed
qed

text \<open>The listeners hear of the completion and the request is removed.\<close>

lemma finish_inv:
  assumes "inv_x {i} w" "this i w = Some r" "callbacks web' = (callbacks (web w))(i := None)"
  shows "inv_net (RemoveRequest (r_network_service_request_id r) i (note_simple ev i l (w\<lparr>web := web'\<rparr>)))"
proof -
  have "inv_x {i} (w\<lparr>web := web'\<rparr>)"
    using assms by (intro inv_web) (auto split: if_splits dest: inv_callbacks)
  then have "inv_x {i} (note_simple ev i l (w\<lparr>web := web'\<rparr>))" by (rule inv_note_simple)
  then show ?thesis by (rule RemoveRequest_inv(1)) (simp_all add: assms(2))
qed

lemma ContinueToHandleOverrideHeaders_inv:
  assumes "inv_net w" "ContinueToHandleOverrideHeaders env i c w = Some w'"
  shows "inv_net w'"
proof (cases "c = OK")
  case False
  then show ?thesis using assms OnRequestError_inv by (simp add: ContinueToHandleOverrideHeaders_def)
next
  case True
  then obtain r head where r: "this i w = Some r" "r_current_response r = Some head"
    using assms(2) by (auto simp: ContinueToHandleOverrideHeaders_def bind_eq_Some_conv)
  define hs where "hs = r_override_headers r"
  define head1 where "head1 = (if hs \<noteq> None \<and> r_uses_header_client r then head\<lparr>rh_headers := hs\<rparr> else head)"
  define w1 where "w1 = upd i (\<lambda>r. r\<lparr>r_current_response := Some head1\<rparr>) w"
  define w2 where "w2 = upd i (\<lambda>r. r\<lparr>r_on_headers_received_callback := False, r_override_headers := None\<rparr>)
                     (note_net (HeadersReceivedReply i OK hs (r_redirect_url r)) w1)"
  have inv: "inv_net w1" "inv_net w2" using assms(1) by (simp_all add: w1_def w2_def inv_steps)
  obtain q where q: "this i w2 = Some q" "r_for_cors_preflight q = r_for_cors_preflight r"
      "r_network_service_request_id q = r_network_service_request_id r"
    using r(1) by (simp add: w2_def w1_def this_upd)
  have E: "(if r_for_cors_preflight r \<and> r_redirect_url r \<noteq> [] then OnRequestError env i ERR_FAILED w1
        else if \<not> r_on_headers_received_callback r then None
        else if r_for_cors_preflight r then
               (if map_option (response_code env) (rh_headers head1) = Some 407 then Some w2
                else do {
                  w3 \<leftarrow> simple_event env kOnResponseStarted i w2;
                  u \<leftarrow> r_info r;
                  let (l, web') = web_OnCompleted (wops env) i u (web w3)
                  in Some (RemoveRequest (r_network_service_request_id r) i
                             (note_simple kOnCompleted i l (w3\<lparr>web := web'\<rparr>))) })
             else Some (upd i (\<lambda>r. r\<lparr>r_proxied_client := resume (r_proxied_client r)\<rparr>) w2)) = Some w'"
    using assms(2) r
    unfolding ContinueToHandleOverrideHeaders_def True w2_def w1_def head1_def hs_def
    by (simp only: bind.bind_lunit simp_thms if_False if_True Let_def)
  have F: "inv_net w'" if "r_for_cors_preflight r" "simple_event env kOnResponseStarted i w2 = Some w3" "r_info r = Some u"
     "(let (l, web') = web_OnCompleted (wops env) i u (web w3)
       in Some (RemoveRequest (r_network_service_request_id r) i (note_simple kOnCompleted i l (w3\<lparr>web := web'\<rparr>)))) = Some w'" for w3 u
  proof -
    have w3: "inv_net w3" "this i w3 = Some q" using simple_event_inv[OF inv(2) that(2)] q(1) by simp_all
    then have "inv_x {i} w3" using inv_preflight q(2) that(1) by blast
    from finish_inv[OF this w3(2)] that(4) q(3) show ?thesis
      by (auto simp: web_OnCompleted_def Let_def)
  qed
  show ?thesis
    using E inv F by (auto simp: bind_eq_Some_conv inv_upd split: if_splits elim: error_elims)
qed

lemma ContinueToResponseStarted_inv:
  assumes "inv_net w" "ContinueToResponseStarted env i c w = Some w'"
  shows "inv_net w'"
proof (cases "c = OK")
  case False
  then show ?thesis using assms OnRequestError_inv by (simp add: ContinueToResponseStarted_def)
next
  case True
  then obtain r head where r: "this i w = Some r" "r_current_response r = Some head"
    using assms(2) by (auto simp: ContinueToResponseStarted_def bind_eq_Some_conv)
  define head1 where "head1 = (if r_override_headers r \<noteq> None then head\<lparr>rh_headers := r_override_headers r\<rparr> else head)"
  define w1 where "w1 = upd i (\<lambda>r. r\<lparr>r_current_response := Some head1\<rparr>) w"
  let ?w2 = "upd i (\<lambda>r. r\<lparr>r_proxied_client := resume (r_proxied_client r)\<rparr>) w1"
  have inv: "inv_net w1" using assms(1) by (simp add: w1_def inv_upd)
  show ?thesis
  proof (cases "Option.bind (r_override_headers r) (\<lambda>h. map_option (Pair h) (IsRedirect env h))")
    case (Some y)
    obtain h u where y: "y = (h, u)" by fastforce
    from assms(2) True r Some y obtain ri where
      "ContinueToBeforeRedirect env i ri OK (upd i (\<lambda>r. r\<lparr>r_proxied_client := Unbound, r_header_client := Unbound, r_target_loader := False\<rparr>) w1) = Some w'"
      by (auto simp: ContinueToResponseStarted_def w1_def head1_def Let_def)
    then show ?thesis by (rule ContinueToBeforeRedirect_inv[rotated]) (simp add: inv inv_upd)
  next
    case None
    then obtain w2 where w2: "simple_event env kOnResponseStarted i ?w2 = Some w2"
      "w' = upd i (\<lambda>r. r\<lparr>r_current_body := None\<rparr>) (note_net (ClientResponse i head1 (r_current_body r)) w2)"
      using assms(2) True r by (auto simp: ContinueToResponseStarted_def w1_def head1_def Let_def bind_eq_Some_conv split: if_splits)
    have "inv_net w2" "\<forall>j. this j w2 = this j ?w2" using simple_event_inv[OF inv_upd[OF inv good_upds(1)] w2(1)] by simp_all
    moreover from this(2) have "alive i w2" using r(1) this_alive[of i w2] by (simp add: this_upd w1_def)
    ultimately show ?thesis unfolding w2(2) by (simp add: inv_steps)
  qed
qed

lemma continue_with_inv: "inv_net w \<Longrightarrow> continue_with env k i c w = Some w' \<Longrightarrow> inv_net w'"
  by (cases k) (auto elim: ContinueToBeforeSendHeaders_inv[rotated] ContinueToSendHeaders_inv[rotated] ContinueToStartRequest_inv[rotated]
      ContinueToHandleOverrideHeaders_inv[rotated] ContinueToResponseStarted_inv[rotated] ContinueToBeforeRedirect_inv[rotated])

lemma HandleResponseOrRedirectHeaders_inv:
  assumes "inv_net w" "HandleResponseOrRedirectHeaders env i k w = Some w'"
  shows "inv_net w'"
proof -
  let ?w = "upd i (\<lambda>r. r\<lparr>r_override_headers := None, r_redirect_url := []\<rparr>) w"
  obtain line result w1 where e: "response_event env kOnHeadersReceived i k (ResponseHeaders line) ?w = Some (result, w1)"
    "(if result = ERR_BLOCKED_BY_CLIENT then OnRequestError env i result w1
      else if result = ERR_IO_PENDING then Some (upd i (\<lambda>r. r\<lparr>r_proxied_client := pause (r_proxied_client r)\<rparr>) w1)
      else continue_with env k i OK w1) = Some w'"
    using assms(2) by (auto simp: HandleResponseOrRedirectHeaders_def Let_def bind_eq_Some_conv)
  have "inv_net w1" using response_event_inv[OF _ e(1)] assms(1) by (simp add: inv_upd)
  then show ?thesis using e(2) by (auto simp: inv_upd split: if_splits elim: error_elims continue_with_inv[rotated])
qed

lemma RestartInternal_inv:
  assumes "inv_net w" "RestartInternal env i w = Some w'"
  shows "inv_net w'"
proof -
  obtain r where r: "this i w = Some r" using assms(2) by (auto simp: RestartInternal_def bind_eq_Some_conv)
  show ?thesis
  proof (cases "\<not> r_uses_header_client r \<and> r_for_cors_preflight r")
    case True
    then show ?thesis using assms r by (simp add: RestartInternal_def)
  next
    case False
    define k where "k = (if r_uses_header_client r then ContinueToStartRequest_k else ContinueToBeforeSendHeaders_k)"
    obtain result w1 where e: "response_event env kOnBeforeRequest i k NewLocation (upd i (\<lambda>r. r\<lparr>r_redirect_url := []\<rparr>) w) = Some (result, w1)"
      "(if result = ERR_BLOCKED_BY_CLIENT then OnRequestError env i result w1
       else if result = ERR_IO_PENDING then
         Some (upd i (\<lambda>r. r\<lparr>r_proxied_client := pause (r_proxied_client r), r_header_client := pause (r_header_client r)\<rparr>) w1)
       else continue_with env k i OK w1) = Some w'"
      using assms(2) r False by (auto simp: RestartInternal_def Let_def bind_eq_Some_conv simp flip: k_def)
    have "inv_net w1" using response_event_inv[OF _ e(1)] assms(1) by (simp add: inv_upd)
    then show ?thesis using e(2) by (auto simp: inv_upd split: if_splits elim: error_elims continue_with_inv[rotated])
  qed
qed

lemma FollowRedirect_inv:
  assumes "inv_net w" "FollowRedirect env i p w = Some w'"
  shows "inv_net w'"
proof -
  obtain w1 r1 f where "w1 = UpdateRequestInfo i (upd i (\<lambda>r. r\<lparr>r_request := f r\<rparr>) w)" "this i w1 = Some r1"
    "RestartInternal env i
       (if \<not> r_target_loader r1 then w1
        else if r_uses_header_client r1 then note_net (LoaderFollowRedirect i p) w1
        else upd i (\<lambda>r. r\<lparr>r_pending_follow_redirect_params := Some p\<rparr>) w1) = Some w'"
    using assms(2) by (auto simp: FollowRedirect_def Let_def bind_eq_Some_conv)
  then show ?thesis
    using assms(1)
    by (auto simp: UpdateRequestInfo_def inv_steps split: if_splits dest!: this_Some_alive elim!: RestartInternal_inv[rotated])
qed

lemma forward_inv:
  "inv_net w \<Longrightarrow> forward_to_loader i m w = Some w' \<Longrightarrow> inv_net w'"
  "inv_net w \<Longrightarrow> forward_to_client i m w = Some w' \<Longrightarrow> inv_net w'"
  by (auto simp: forward_to_loader_def forward_to_client_def bind_eq_Some_conv inv_steps dest: this_Some_alive split: if_splits)

lemma OnReceiveResponse_inv: "inv_net w \<Longrightarrow> OnReceiveResponse env i head body w = Some w' \<Longrightarrow> inv_net w'"
  by (auto simp: OnReceiveResponse_def bind_eq_Some_conv inv_upd split: if_splits
      elim!: ContinueToResponseStarted_inv[rotated] HandleResponseOrRedirectHeaders_inv[rotated])

lemma OnReceiveRedirect_inv: "inv_net w \<Longrightarrow> OnReceiveRedirect env i ri head w = Some w' \<Longrightarrow> inv_net w'"
  by (auto simp: OnReceiveRedirect_def bind_eq_Some_conv inv_upd split: if_splits
      elim!: ContinueToBeforeRedirect_inv[rotated] HandleResponseOrRedirectHeaders_inv[rotated])

lemma OnComplete_inv:
  assumes "inv_net w" "OnComplete env i c w = Some w'"
  shows "inv_net w'"
proof (cases "c = OK")
  case False
  then show ?thesis using assms OnRequestError_inv by (simp add: OnComplete_def)
next
  case True
  then obtain r u where r: "this i w = Some r" "r_info r = Some u" "r_has_client r"
    using assms(2) by (auto simp: OnComplete_def bind_eq_Some_conv split: if_splits)
  have "inv_x {i} (note_net (ClientComplete i OK) w)"
    by (rule inv_complete[OF assms(1) this_Some_alive[OF r(1)]])
  from finish_inv[OF this, of r] assms(2) True r show ?thesis
    by (auto simp: OnComplete_def web_OnCompleted_def Let_def)
qed

lemma request_OnLoaderCreated_inv: "inv_net w \<Longrightarrow> request_OnLoaderCreated i w = Some w' \<Longrightarrow> inv_net w'"
  by (auto simp: request_OnLoaderCreated_def bind_eq_Some_conv inv_upd)

lemma factory_OnLoaderCreated_inv: "inv_net w \<Longrightarrow> factory_OnLoaderCreated n w = Some w' \<Longrightarrow> inv_net w'"
  by (auto simp: factory_OnLoaderCreated_def split: option.splits elim: request_OnLoaderCreated_inv[rotated])

lemma OnBeforeSendHeaders_inv: "inv_net w \<Longrightarrow> OnBeforeSendHeaders env i h w = Some w' \<Longrightarrow> inv_net w'"
  by (auto simp: OnBeforeSendHeaders_def bind_eq_Some_conv inv_steps split: if_splits elim!: ContinueToBeforeSendHeaders_inv[rotated])

lemma OnHeadersReceived_inv:
  assumes "inv_net w" "OnHeadersReceived env i h n w = Some w'"
  shows "inv_net w'"
proof -
  obtain r where r: "this i w = Some r" using assms(2) by (auto simp: OnHeadersReceived_def bind_eq_Some_conv)
  have "inv_net (RemoveRequest (r_network_service_request_id r) i (note_net (HeadersReceivedReply i OK None []) w))"
    if "r_for_cors_preflight r"
    using RemoveRequest_inv(1)[OF inv_note[OF inv_preflight[OF assms(1) r that]]] r by simp
  then show ?thesis
    using assms r
    by (auto simp: OnHeadersReceived_def Let_def inv_steps split: if_splits elim!: HandleResponseOrRedirectHeaders_inv[rotated])
qed

lemma run_task_inv: "inv_net w \<Longrightarrow> run_task env w = Some w' \<Longrightarrow> inv_net w'"
  by (auto simp: run_task_def Let_def split: list.splits option.splits elim!: continue_with_inv[rotated])

lemma answer_held_inv: "inv_net w \<Longrightarrow> answer_held env n resp w = Some w' \<Longrightarrow> inv_net w'"
  by (auto simp: answer_held_def split: if_splits prod.splits dest!: listener_result_inv[rotated])

section \<open>New requests\<close>

definition with_request :: "InProgressRequest \<Rightarrow> (int \<rightharpoonup> nat) \<Rightarrow> world \<Rightarrow> world" where
  "with_request r ns w = w\<lparr>request_id_generator := Suc (request_id_generator w),
     requests := requests w @ [(Suc (request_id_generator w), r)],
     net_log := net_log w @ [RequestCreated (Suc (request_id_generator w)) (r_for_cors_preflight r)], network_ids := ns\<rparr>"

lemma with_request_inv:
  assumes inv: "inv_net w" and live: "\<not> factory_deleted w"
    and r: "r_info r \<noteq> None" "r_has_client r \<longleftrightarrow> \<not> r_for_cors_preflight r"
    and ns: "ns = network_ids w \<or> ns = (network_ids w)(r_network_service_request_id r \<mapsto> Suc (request_id_generator w))"
  shows "inv_net (with_request r ns w)"
proof -
  define i where "i = Suc (request_id_generator w)"
  let ?v = "with_request r ns w"
  have a: "alive j ?v \<longleftrightarrow> alive j w \<or> j = i" for j
    by (auto simp: with_request_def alive_def i_def)
  have fresh: "\<not> alive i w" using inv by (auto simp: inv_x_def ids_ok_def i_def)
  then have t: "this j ?v = (if j = i then Some r else this j w)" for j
    using this_alive[of i w] by (auto simp: this_def with_request_def i_def map_add_def split: option.splits)
  have nc: "\<not> completed_in i (net_log w)" "\<And>b. RequestCreated i b \<notin> set (net_log w)"
    using inv unfolding inv_x_def log_ok_def completed_in_def i_def by force+
  have f: "web ?v = web w" "network_ids ?v = ns" "request_id_generator ?v = i"
    "target_factory_bound ?v = target_factory_bound w" "proxy_receivers ?v = proxy_receivers w"
    "factory_deleted ?v = factory_deleted w" "net_log ?v = net_log w @ [RequestCreated i (r_for_cors_preflight r)]"
    "requests ?v = requests w @ [(i, r)]"
    by (simp_all add: with_request_def i_def)
  have N: "\<forall>n j. ns n = Some j \<longrightarrow> (\<exists>q. this j ?v = Some q \<and> r_network_service_request_id q = n)"
  proof (intro allI impI)
    fix n j
    assume n: "ns n = Some j"
    show "\<exists>q. this j ?v = Some q \<and> r_network_service_request_id q = n"
    proof (cases "network_ids w n = Some j")
      case True
      then obtain q where "this j w = Some q" "r_network_service_request_id q = n"
        using inv unfolding inv_x_def ids_ok_def by blast
      then show ?thesis using t fresh this_Some_alive[of j w q] by auto
    next
      case False
      with ns n have "n = r_network_service_request_id r" "j = i" by (auto simp: i_def split: if_splits)
      then show ?thesis by (simp add: t)
    qed
  qed
  have "ids_ok ?v"
    using inv N fresh live by (auto simp: inv_x_def ids_ok_def f a alive_def i_def)
  moreover have "log_ok {} ?v"
  proof -
    have "\<forall>x \<in> set (requests ?v). req_ok (net_log ?v) (fst x) (snd x)"
      using inv r by (auto simp: f inv_x_def log_ok_def intro: req_ok_mono) (auto simp: req_ok_def)
    moreover have "silent_after (net_log ?v)" using inv by (simp add: f silent_after_snoc inv_x_def log_ok_def)
    moreover have "\<forall>j. alive j ?v \<and> j \<notin> {} \<longrightarrow> \<not> completed_in j (net_log ?v)"
      using inv nc by (auto simp: f a completed_in_snoc inv_x_def log_ok_def)
    moreover have "\<forall>e \<in> set (net_log ?v). \<forall>j. sent_for e = Some j \<longrightarrow> j \<le> request_id_generator ?v"
      using inv by (fastforce simp: f i_def inv_x_def log_ok_def)
    moreover have "\<forall>j b. RequestCreated j b \<in> set (net_log ?v) \<longrightarrow> j \<le> request_id_generator ?v"
      using inv by (fastforce simp: f i_def inv_x_def log_ok_def)
    moreover have "\<forall>j. RequestCreated j True \<in> set (net_log ?v) \<longrightarrow> RequestCreated j False \<notin> set (net_log ?v)"
      using inv nc by (auto simp: f inv_x_def log_ok_def)
    moreover have "\<forall>j. RequestCreated j False \<in> set (net_log ?v) \<and> (\<not> alive j ?v \<or> j \<in> {}) \<longrightarrow> completed_in j (net_log ?v)"
      using inv by (auto simp: f a completed_in_snoc inv_x_def log_ok_def)
    ultimately show ?thesis unfolding log_ok_def by blast
  qed
  ultimately show ?thesis by (simp add: inv_x_def)
qed

lemma add_request_update:
  assumes "inv_net w" "add_request r w = (i, w1)" "good_upd f"
  obtains r' where "UpdateRequestInfo i (upd i f (w1\<lparr>network_ids := ns\<rparr>)) = with_request r' ns w" "i = Suc (request_id_generator w)"
    "r_info r' \<noteq> None" "r_has_client r' = r_has_client r" "r_for_cors_preflight r' = r_for_cors_preflight r"
    "r_network_service_request_id r' = r_network_service_request_id r"
proof -
  have i: "i = Suc (request_id_generator w)" "w1 = note_net (RequestCreated i (r_for_cors_preflight r))
               (w\<lparr>request_id_generator := i, requests := requests w @ [(i, r)]\<rparr>)"
    using assms(2) by (auto simp: add_request_def Let_def)
  define g where "g = (\<lambda>q :: InProgressRequest. q\<lparr>r_info := Some (rq_url (r_request q)),
        r_uses_header_client := header_client_bound w \<and> (r_for_cors_preflight q \<or> r_network_service_request_id q \<noteq> 0) \<and>
          r_has_any_extra_headers_listeners q\<rparr>)"
  have fresh: "i \<notin> fst ` set (requests w)" using assms(1) i(1) by (auto simp: inv_x_def ids_ok_def alive_def)
  have m: "map (\<lambda>x. if fst x = i then (i, h (snd x)) else x) (requests w) = requests w" for h
    using fresh by (force intro!: map_idI)
  have R: "requests (upd i h v) = requests w @ [(i, h q)]" if "requests v = requests w @ [(i, q)]" for h v q
    using that m by (simp add: upd_def)
  define v where "v = upd i f (w1\<lparr>network_ids := ns\<rparr>)"
  have v: "requests v = requests w @ [(i, f r)]" "header_client_bound v = header_client_bound w" "network_ids v = ns"
    "web v = web w" "request_id_generator v = i" "target_factory_bound v = target_factory_bound w"
    "proxy_receivers v = proxy_receivers w" "factory_deleted v = factory_deleted w" "tasks v = tasks w" "held v = held w"
    "net_log v = net_log w @ [RequestCreated i (r_for_cors_preflight r)]"
    using R[of "w1\<lparr>network_ids := ns\<rparr>" r f] by (simp_all add: v_def i(2))
  have "UpdateRequestInfo i v = with_request (g (f r)) ns w"
    using R[OF v(1), of g] assms(3)
    by (intro world.equality) (simp_all add: UpdateRequestInfo_def with_request_def v i(1) good_upd_def flip: g_def, simp_all add: g_def good_upd_def)
  then show ?thesis using assms(3) i(1) by (intro that[of "g (f r)"]) (simp_all add: g_def good_upd_def v_def)
qed

lemma CreateLoaderAndStart_inv:
  assumes inv: "inv_net w" "\<not> factory_deleted w" "proxy_receivers w > 0"
    and c: "CreateLoaderAndStart env nid request w = Some w'"
  shows "inv_net w'"
proof -
  define rq where "rq = (if ShouldIgnoreConnectionsLimit env request then request\<lparr>rq_ignore_limits := True\<rparr> else request)"
  have clone: "inv_net (proxy_Clone w)"
    using inv by (auto simp: proxy_Clone_def inv_x_def ids_ok_def log_ok_def alive_def this_def)
  obtain i w1 where add: "add_request (InProgressRequest_make nid rq) w = (i, w1)" by fastforce
  define ns where "ns = (if nid \<noteq> 0 \<and> network_ids w1 nid = None then (network_ids w1)(nid \<mapsto> i) else network_ids w1)"
  have w1: "network_ids w1 = network_ids w" "i = Suc (request_id_generator w)"
    using add by (auto simp: add_request_def Let_def)
  have w2: "(if nid \<noteq> 0 \<and> network_ids w1 nid = None then w1\<lparr>network_ids := (network_ids w1)(nid \<mapsto> i)\<rparr> else w1) =
      w1\<lparr>network_ids := ns\<rparr>"
    by (simp add: ns_def)
  have u: "upd j (\<lambda>r. r) v = v" for j v
  proof -
    have "map (\<lambda>x. if fst x = j then (j, snd x) else x) (requests v) = requests v" by (auto intro!: map_idI)
    then show ?thesis by (simp add: upd_def)
  qed
  obtain r' where r': "UpdateRequestInfo i (w1\<lparr>network_ids := ns\<rparr>) = with_request r' ns w" "r_info r' \<noteq> None"
      "r_has_client r'" "\<not> r_for_cors_preflight r'" "r_network_service_request_id r' = nid"
  proof (rule add_request_update[OF inv(1) add, of "\<lambda>r. r" ns])
    show "good_upd (\<lambda>r. r)" by (simp add: good_upd_def)
  qed (rule that, simp_all add: InProgressRequest_make_def u)
  have N: "inv_net (UpdateRequestInfo i (w1\<lparr>network_ids := ns\<rparr>))"
    unfolding r'(1) by (rule with_request_inv[OF inv(1,2)]) (auto simp: r' ns_def w1)
  show ?thesis
  proof (cases "intercepted_handlers env (url_scheme env (rq_url rq))")
    case None
    then show ?thesis
      using c inv(1) RestartInternal_inv[OF N] add w2
      by (auto simp: CreateLoaderAndStart_def rq_def[symmetric] Let_def inv_note Restart_def split: if_splits)
  next
    case (Some y)
    then show ?thesis
      using c clone by (cases y) (auto simp: CreateLoaderAndStart_def rq_def[symmetric] Let_def inv_note)
  qed
qed

lemma OnLoaderForCorsPreflightCreated_inv:
  assumes inv: "inv_net w" "\<not> factory_deleted w" and c: "OnLoaderForCorsPreflightCreated env request w = Some w'"
  shows "inv_net w'"
proof -
  obtain i w1 where add: "add_request (InProgressRequest_preflight request) w = (i, w1)" by fastforce
  have w1: "w1\<lparr>network_ids := network_ids w\<rparr> = w1" using add by (cases w) (auto simp: add_request_def Let_def note_net_def)
  obtain r' where r': "UpdateRequestInfo i (upd i (\<lambda>r. r\<lparr>r_header_client := Bound False\<rparr>) w1) = with_request r' (network_ids w) w"
      "r_info r' \<noteq> None" "\<not> r_has_client r'" "r_for_cors_preflight r'"
  proof (rule add_request_update[OF inv(1) add, of "\<lambda>r. r\<lparr>r_header_client := Bound False\<rparr>" "network_ids w"])
    show "good_upd (\<lambda>r. r\<lparr>r_header_client := Bound False\<rparr>)" by simp
  qed (rule that, simp_all add: InProgressRequest_preflight_def w1)
  have N: "inv_net (UpdateRequestInfo i (upd i (\<lambda>r. r\<lparr>r_header_client := Bound False\<rparr>) w1))"
    unfolding r'(1) by (rule with_request_inv[OF inv]) (auto simp: r')
  show ?thesis
    using c add RestartInternal_inv[OF N]
    by (auto simp: OnLoaderForCorsPreflightCreated_def bind_eq_Some_conv request_OnLoaderCreated_def Restart_def)
qed

lemma inv_factory:
  assumes "inv_net w" "\<not> factory_deleted w" "n > 0 \<longrightarrow> b"
  shows "inv_net (MaybeDeleteThis (w\<lparr>target_factory_bound := b, proxy_receivers := n\<rparr>))"
proof -
  have "inv_core (w\<lparr>target_factory_bound := b, proxy_receivers := n\<rparr>)"
    using assms by (auto simp: inv_core_def inv_x_def ids_ok_def log_ok_def alive_def this_def)
  then show ?thesis using assms(2) by (intro inv_core_MaybeDeleteThis) simp_all
qed

lemma OnTargetFactoryError_inv: "inv_net w \<Longrightarrow> \<not> factory_deleted w \<Longrightarrow> inv_net (OnTargetFactoryError w)"
  unfolding OnTargetFactoryError_def by (rule inv_factory) simp_all

lemma OnProxyBindingError_inv: "inv_net w \<Longrightarrow> \<not> factory_deleted w \<Longrightarrow> proxy_receivers w > 0 \<Longrightarrow> inv_net (OnProxyBindingError w)"
proof -
  assume a: "inv_net w" "\<not> factory_deleted w" "proxy_receivers w > 0"
  then have "target_factory_bound w" by (simp add: inv_x_def ids_ok_def)
  then have "OnProxyBindingError w = MaybeDeleteThis (w\<lparr>target_factory_bound := proxy_receivers w \<noteq> 1, proxy_receivers := proxy_receivers w - 1\<rparr>)"
    using a(3) by (cases w) (auto simp: OnProxyBindingError_def Let_def)
  then show "inv_net (OnProxyBindingError w)" using a by (simp add: inv_factory)
qed

lemma proxy_Clone_inv: "inv_net w \<Longrightarrow> proxy_receivers w > 0 \<Longrightarrow> inv_net (proxy_Clone w)"
  by (auto simp: proxy_Clone_def inv_x_def ids_ok_def log_ok_def alive_def this_def)

end
