(* ===== verification/Url_Loader_Properties.thy ===== *)
theory Url_Loader_Properties
  imports Url_Loader_Inv
begin

text \<open>
  The runs of a proxying factory, and what its clients and the scripts can rely on in all of them.
\<close>

section \<open>Runs\<close>

text \<open>A message of the network arrives on a pipe that is bound and not paused, one of a client or of a closed
  pipe while the request lives; tasks, answers of scripts and changes of listeners come at any time.\<close>

inductive net_reach :: "proxy_env \<Rightarrow> world \<Rightarrow> bool" for env where
  net_init: "net_reach env (factory_init generator header_client)"
| net_create: "net_reach env w \<Longrightarrow> \<not> factory_deleted w \<Longrightarrow> proxy_receivers w > 0 \<Longrightarrow>
    CreateLoaderAndStart env nid rq w = Some w' \<Longrightarrow> net_reach env w'"
| net_clone: "net_reach env w \<Longrightarrow> \<not> factory_deleted w \<Longrightarrow> proxy_receivers w > 0 \<Longrightarrow> net_reach env (proxy_Clone w)"
| net_target_error: "net_reach env w \<Longrightarrow> \<not> factory_deleted w \<Longrightarrow> net_reach env (OnTargetFactoryError w)"
| net_binding_error: "net_reach env w \<Longrightarrow> \<not> factory_deleted w \<Longrightarrow> proxy_receivers w > 0 \<Longrightarrow> net_reach env (OnProxyBindingError w)"
| net_preflight: "net_reach env w \<Longrightarrow> \<not> factory_deleted w \<Longrightarrow> header_client_bound w \<Longrightarrow>
    OnLoaderForCorsPreflightCreated env rq w = Some w' \<Longrightarrow> net_reach env w'"
| net_loader: "net_reach env w \<Longrightarrow> \<not> factory_deleted w \<Longrightarrow> factory_OnLoaderCreated nid w = Some w' \<Longrightarrow> net_reach env w'"
| net_follow: "net_reach env w \<Longrightarrow> this i w = Some r \<Longrightarrow> r_has_client r \<Longrightarrow> FollowRedirect env i p w = Some w' \<Longrightarrow> net_reach env w'"
| net_to_loader: "net_reach env w \<Longrightarrow> this i w = Some r \<Longrightarrow> r_has_client r \<Longrightarrow> forward_to_loader i m w = Some w' \<Longrightarrow> net_reach env w'"
| net_to_client: "net_reach env w \<Longrightarrow> this i w = Some r \<Longrightarrow> r_proxied_client r = Bound False \<Longrightarrow>
    forward_to_client i m w = Some w' \<Longrightarrow> net_reach env w'"
| net_response: "net_reach env w \<Longrightarrow> this i w = Some r \<Longrightarrow> r_proxied_client r = Bound False \<Longrightarrow>
    OnReceiveResponse env i head body w = Some w' \<Longrightarrow> net_reach env w'"
| net_redirect: "net_reach env w \<Longrightarrow> this i w = Some r \<Longrightarrow> r_proxied_client r = Bound False \<Longrightarrow>
    OnReceiveRedirect env i ri head w = Some w' \<Longrightarrow> net_reach env w'"
| net_complete: "net_reach env w \<Longrightarrow> this i w = Some r \<Longrightarrow> r_proxied_client r = Bound False \<Longrightarrow>
    OnComplete env i c w = Some w' \<Longrightarrow> net_reach env w'"
| net_send_headers: "net_reach env w \<Longrightarrow> this i w = Some r \<Longrightarrow> r_header_client r = Bound False \<Longrightarrow>
    OnBeforeSendHeaders env i h w = Some w' \<Longrightarrow> net_reach env w'"
| net_headers_received: "net_reach env w \<Longrightarrow> this i w = Some r \<Longrightarrow> r_header_client r = Bound False \<Longrightarrow>
    OnHeadersReceived env i hs n w = Some w' \<Longrightarrow> net_reach env w'"
| net_disconnect: "net_reach env w \<Longrightarrow> this i w = Some r \<Longrightarrow> c = (if r_has_client r then ERR_ABORTED else ERR_FAILED) \<Longrightarrow>
    OnRequestError env i c w = Some w' \<Longrightarrow> net_reach env w'"
| net_task: "net_reach env w \<Longrightarrow> run_task env w = Some w' \<Longrightarrow> net_reach env w'"
| net_answer: "net_reach env w \<Longrightarrow> answer_held env n resp w = Some w' \<Longrightarrow> net_reach env w'"
| net_set_simple: "net_reach env w \<Longrightarrow> SetSimpleListener (wops env) ev args (web w) = Inr ws \<Longrightarrow> net_reach env (w\<lparr>web := ws\<rparr>)"
| net_set_response: "net_reach env w \<Longrightarrow> SetResponseListener (wops env) rv args (web w) = Inr ws \<Longrightarrow> net_reach env (w\<lparr>web := ws\<rparr>)"

lemma map_sum_InrD: "map_sum id f x = Inr y \<Longrightarrow> \<exists>z. x = Inr z \<and> y = f z"
  by (cases x) auto

lemma set_listener_callbacks:
  "SetSimpleListener ops ev args w = Inr ws \<Longrightarrow> callbacks ws = callbacks w"
  "SetResponseListener ops rv args w = Inr ws \<Longrightarrow> callbacks ws = callbacks w"
  by (auto simp: SetSimpleListener_def SetResponseListener_def dest!: map_sum_InrD)

lemma inv_init: "inv_net (factory_init g hc)"
  by (simp add: inv_x_def ids_ok_def log_ok_def factory_init_def WebRequest_init_def alive_def silent_after_def)

lemma net_reach_inv: "net_reach env w \<Longrightarrow> inv_net w"
proof (induction rule: net_reach.induct)
  case (net_set_simple w ev args ws)
  then show ?case by (intro inv_web) (auto simp: set_listener_callbacks dest: inv_callbacks)
next
  case (net_set_response w rv args ws)
  then show ?case by (intro inv_web) (auto simp: set_listener_callbacks dest: inv_callbacks)
qed (auto intro: inv_init CreateLoaderAndStart_inv proxy_Clone_inv OnTargetFactoryError_inv OnProxyBindingError_inv
  OnLoaderForCorsPreflightCreated_inv factory_OnLoaderCreated_inv FollowRedirect_inv forward_inv OnReceiveResponse_inv
  OnReceiveRedirect_inv OnComplete_inv OnBeforeSendHeaders_inv OnHeadersReceived_inv OnRequestError_inv run_task_inv answer_held_inv)

section \<open>No pointer outlives its request\<close>

lemma answer_held_defined: "inv_net w \<Longrightarrow> answer_held env n resp w \<noteq> None"
proof -
  assume inv: "inv_net w"
  have "listener_result env i out resp v \<noteq> None" if "inv_net v" for i out v
  proof (cases "OnListenerResult (wops env) i out resp (web v)")
    case None
    then show ?thesis by (simp add: listener_result_def)
  next
    case (Some y)
    obtain wr k res web' where y: "y = (wr, k, res, web')" by (metis prod_cases4)
    have "alive i v" using OnListenerResult_callbacks[OF Some[unfolded y]] inv_callbacks[OF that] by blast
    then have "write_out i wr v \<noteq> None" using this_alive[of i v] by (auto simp: write_out_def split: option.splits)
    then show ?thesis using Some y by (auto simp: listener_result_def)
  qed
  then show ?thesis using inv by (auto simp: answer_held_def split: prod.splits)
qed

text \<open>
  C2: In every run of the proxy, whatever the client, the network and the scripts do and however late a
  script answers: a continuation waits only for a request that lives, and the answer of a script is always
  defined, so that it never writes into a request that is gone; the identifiers of the network service name
  living requests that carry them; while a client is connected the factory has its target factory; and the
  factory is deleted exactly when it has no target, no client and no request.
\<close>

theorem requests_not_dangling:
  assumes "net_reach env w"
  shows "(\<forall>i k. callbacks (web w) i = Some k \<longrightarrow> this i w \<noteq> None) \<and>
    (\<forall>n resp. answer_held env n resp w \<noteq> None) \<and>
    (\<forall>n i. network_ids w n = Some i \<longrightarrow> (\<exists>r. this i w = Some r \<and> r_network_service_request_id r = n)) \<and>
    (proxy_receivers w > 0 \<longrightarrow> target_factory_bound w) \<and>
    (factory_deleted w \<longleftrightarrow> \<not> target_factory_bound w \<and> proxy_receivers w = 0 \<and> requests w = [])"
proof -
  have inv: "inv_net w" by (rule net_reach_inv[OF assms])
  have "\<forall>i k. callbacks (web w) i = Some k \<longrightarrow> this i w \<noteq> None"
    using inv_callbacks[OF inv] this_alive by blast
  moreover have "\<forall>n resp. answer_held env n resp w \<noteq> None" using answer_held_defined[OF inv] by blast
  moreover have "\<forall>n i. network_ids w n = Some i \<longrightarrow> (\<exists>r. this i w = Some r \<and> r_network_service_request_id r = n)"
    using inv unfolding inv_x_def ids_ok_def by blast
  moreover have "proxy_receivers w > 0 \<longrightarrow> target_factory_bound w"
    "factory_deleted w \<longleftrightarrow> \<not> target_factory_bound w \<and> proxy_receivers w = 0 \<and> requests w = []"
    using inv unfolding inv_x_def ids_ok_def by blast+
  ultimately show ?thesis by blast
qed


lemma RemoveRequest_log:
  "\<exists>new. net_log (RemoveRequest nid i w) = net_log w @ new \<and> (\<forall>e \<in> set new. sent_for e = None)"
  by (auto simp: RemoveRequest_def destroy_request_def MaybeDeleteThis_def Let_def split: option.splits)

lemma this_RemoveRequest: "this i w \<noteq> None \<Longrightarrow> this i (RemoveRequest nid i w) = None"
proof -
  assume "this i w \<noteq> None"
  then obtain r where "this i w = Some r" by blast
  moreover have "this i (destroy_request i r v) = this i v" for v by (simp add: destroy_request_def Let_def)
  moreover have "this i (MaybeDeleteThis v) = this i v" for v by (simp add: MaybeDeleteThis_def)
  moreover have "this i (v\<lparr>requests := filter (\<lambda>x. fst x \<noteq> i) (requests v)\<rparr>) = None" for v by (simp add: this_filter)
  ultimately show ?thesis
    by (simp add: RemoveRequest_def Let_def) (simp add: this_def)
qed

lemma OnRequestError_ends:
  assumes "this i w = Some r" "r_info r = Some u" "r_has_client r"
  shows "\<exists>w2 new. OnRequestError env i c w = Some w2 \<and> this i w2 = None \<and>
    net_log w2 = net_log w @ ClientComplete i c # new \<and> (\<forall>e \<in> set new. sent_for e = None)"
proof -
  let ?w1 = "note_net (ClientComplete i c) w"
  obtain l ws where l: "web_OnErrorOccurred (wops env) i u (web ?w1) = (l, ws)" by fastforce
  define v where "v = note_simple kOnErrorOccurred i l (?w1\<lparr>web := ws\<rparr>)"
  have v: "this i v = Some r" "\<exists>new. net_log v = net_log w @ ClientComplete i c # new \<and> (\<forall>e \<in> set new. sent_for e = None)"
    using assms(1) by (auto simp: v_def note_simple_def split: option.splits)
  have "OnRequestError env i c w = Some (RemoveRequest (r_network_service_request_id r) i v)"
    using assms l by (simp add: OnRequestError_def v_def)
  then show ?thesis
    using v RemoveRequest_log[of "r_network_service_request_id r" i v] this_RemoveRequest[of i v] by fastforce
qed

text \<open>
  C13: A listener that cancels a request ends it: when a script answers with \<open>cancel\<close> an event a request of a
  client waits for, then the answer, once its task has run, completes the request with
  \<open>net::ERR_BLOCKED_BY_CLIENT\<close>, removes it, and starts or sends nothing for it.
\<close>

theorem cancel_ends_request:
  assumes "net_reach env w" "tasks w = []" "n < length (held w)" "held w ! n = (i, out)" "callbacks (web w) i = Some k"
    "this i w = Some r" "r_has_client r" "js_cancel resp"
  shows "\<exists>w1 w2. answer_held env n (Some resp) w = Some w1 \<and> run_task env w1 = Some w2 \<and> this i w2 = None \<and>
    (\<exists>new. net_log w2 = net_log w @ ClientComplete i ERR_BLOCKED_BY_CLIENT # new \<and> (\<forall>e \<in> set new. sent_for e \<noteq> Some i))"
proof -
  have inv: "inv_net w" by (rule net_reach_inv[OF assms(1)])
  define w1 where "w1 = w\<lparr>held := take n (held w) @ drop (Suc n) (held w), web := (web w)\<lparr>callbacks := (callbacks (web w))(i := None)\<rparr>,
     tasks := [(i, k, ERR_BLOCKED_BY_CLIENT)]\<rparr>"
  have w1: "answer_held env n (Some resp) w = Some w1"
    using assms(2-5,8) by (simp add: answer_held_def listener_result_def OnListenerResult_def write_out_def w1_def)
  obtain u where u: "r_info r = Some u" using inv_request[OF inv assms(6)] by (auto simp: req_ok_def)
  have t: "this i (w1\<lparr>tasks := []\<rparr>) = Some r" using assms(6) by (simp add: w1_def this_def)
  have "run_task env w1 = continue_with env k i ERR_BLOCKED_BY_CLIENT (w1\<lparr>tasks := []\<rparr>)"
    using t by (simp add: run_task_def w1_def Let_def)
  also have "\<dots> = OnRequestError env i ERR_BLOCKED_BY_CLIENT (w1\<lparr>tasks := []\<rparr>)"
    by (cases k) (simp_all add: net_errors ContinueToBeforeSendHeaders_def ContinueToSendHeaders_def ContinueToStartRequest_def
        ContinueToHandleOverrideHeaders_def ContinueToResponseStarted_def ContinueToBeforeRedirect_def)
  finally have run: "run_task env w1 = OnRequestError env i ERR_BLOCKED_BY_CLIENT (w1\<lparr>tasks := []\<rparr>)" .
  from OnRequestError_ends[OF t u assms(7), of env ERR_BLOCKED_BY_CLIENT] obtain w2 new where
    "OnRequestError env i ERR_BLOCKED_BY_CLIENT (w1\<lparr>tasks := []\<rparr>) = Some w2" "this i w2 = None"
    "net_log w2 = net_log w @ ClientComplete i ERR_BLOCKED_BY_CLIENT # new" "\<forall>e \<in> set new. sent_for e = None"
    by (auto simp: w1_def)
  then show ?thesis using w1 run by fastforce
qed

section \<open>A preflight that is redirected\<close>

lemma ContinueToBeforeRedirect_no_client:
  assumes "\<And>r. this i w = Some r \<Longrightarrow> \<not> r_has_client r"
  shows "ContinueToBeforeRedirect env i ri OK w = None"
proof (cases "this i w")
  case None
  then have "this i (upd i (\<lambda>r. r\<lparr>r_proxied_client := resume (r_proxied_client r)\<rparr>) w) = None" by (simp add: this_upd)
  then show ?thesis by (simp add: ContinueToBeforeRedirect_def simple_event_def)
next
  case (Some r)
  then have "this i (upd i (\<lambda>r. r\<lparr>r_proxied_client := resume (r_proxied_client r)\<rparr>) w) =
      Some (r\<lparr>r_proxied_client := resume (r_proxied_client r)\<rparr>)" by (simp add: this_upd)
  then show ?thesis
    using assms[OF Some]
    by (cases "r_info r"; cases "r_current_response r") (auto simp: ContinueToBeforeRedirect_def simple_event_def)
qed

text \<open>C38: 
  A script that redirects a CORS preflight in \<open>onBeforeRequest\<close> makes the browser process call through
  an unbound pipe: such a request has no client to redirect, but \<open>ContinueToStartRequest\<close>, unlike
  \<open>ContinueToBeforeSendHeaders\<close>, does not test for preflights before it sends the redirect to the client.
\<close>

theorem preflight_redirect_undefined:
  assumes "net_reach env w" "tasks w = []" "n < length (held w)" "held w ! n = (i, NewLocation)"
    "callbacks (web w) i = Some ContinueToStartRequest_k" "this i w = Some r" "r_for_cors_preflight r" "r_uses_header_client r"
    "\<not> js_cancel resp" "js_redirectURL resp = Some u" "u \<noteq> []"
  shows "\<exists>w1. answer_held env n (Some resp) w = Some w1 \<and> run_task env w1 = None"
proof -
  have client: "\<not> r_has_client r"
    using inv_request[OF net_reach_inv[OF assms(1)] assms(6)] assms(7) by (simp add: req_ok_def)
  define v where "v = w\<lparr>held := take n (held w) @ drop (Suc n) (held w)\<rparr>"
  have tv: "this i v = Some r" using assms(6) by (simp add: v_def)
  define w1 where "w1 = (upd i (\<lambda>r. r\<lparr>r_redirect_url := u\<rparr>) v)\<lparr>web := (web w)\<lparr>callbacks := (callbacks (web w))(i := None)\<rparr>,
     tasks := [(i, ContinueToStartRequest_k, OK)]\<rparr>"
  have "apply_write (WriteLocation u) = (\<lambda>r. r\<lparr>r_redirect_url := u\<rparr>)" by (rule ext) simp
  then have W: "write_out i (Some (WriteLocation u)) v = Some (upd i (\<lambda>r. r\<lparr>r_redirect_url := u\<rparr>) v)"
    by (simp add: write_out_def tv)
  have v: "web v = web w" "tasks v = []" using assms(2) by (simp_all add: v_def)
  have "answer_held env n (Some resp) w = listener_result env i NewLocation (Some resp) v"
    using assms(3,4) by (simp add: answer_held_def v_def)
  also have "\<dots> = Some w1"
    using assms(5,9,10) by (simp add: listener_result_def OnListenerResult_def W v w1_def)
  finally have w1: "answer_held env n (Some resp) w = Some w1" .
  have t: "this i (w1\<lparr>tasks := []\<rparr>) = Some (r\<lparr>r_redirect_url := u\<rparr>)"
    using tv by (simp add: w1_def this_upd)
  have "HandleBeforeRequestRedirect env i (w1\<lparr>tasks := []\<rparr>) = None"
    using t client by (simp add: HandleBeforeRequestRedirect_def Let_def) (rule ContinueToBeforeRedirect_no_client, auto simp: this_upd split: if_splits)
  then have "ContinueToStartRequest env i OK (w1\<lparr>tasks := []\<rparr>) = None"
    using t assms(8,11) by (simp add: ContinueToStartRequest_def)
  then have "run_task env w1 = None"
    using t by (simp add: run_task_def Let_def) (simp add: w1_def)
  then show ?thesis using w1 by blast
qed

text \<open>Where the header client is not used, the headers a listener of \<open>onBeforeSendHeaders\<close> changes are not
  passed on when a redirect is followed: the continuation is bound to empty sets of removed and changed
  headers, so that the network service gets just what the client asked for.\<close>

lemma redirect_drops_listener_headers:
  assumes "this i w = Some r" "\<not> r_uses_header_client r" "r_pending_follow_redirect_params r = Some p" "r_target_loader r"
    "r_info r = Some u" "target_factory_bound w" "r_redirect_url r = []"
  shows "\<exists>w'. continue_with env (ContinueToSendHeaders_k [] []) i OK w = Some w' \<and> LoaderFollowRedirect i p \<in> set (net_log w')"
proof -
  have p: "add_headers env (r_request r) [] [] p = p" by (simp add: add_headers_def)
  show ?thesis
    using assms p
    by (simp add: ContinueToSendHeaders_def simple_event_def ContinueToStartRequest_def this_upd note_simple_def Let_def split: option.splits)
qed

section \<open>Instances\<close>

definition net_demo_env :: proxy_env where
  "net_demo_env = \<lparr>wops = \<lparr>MatchesURL = \<lambda>p u. p = u, URLPattern_Parse = \<lambda>p. None, ResponseHeaders_FromV8 = \<lambda>l n. l\<rparr>,
     answers = \<lambda>l ev i lg. None, RemoveHeader = \<lambda>n h. filter (\<lambda>x. fst x \<noteq> n) h, MergeFrom = \<lambda>m h. h @ m,
     GetHeader = \<lambda>n h. map_of h n, SetHeader = \<lambda>n v h. (n, v) # h, GetStatusLine = \<lambda>h. h, IsRedirect = \<lambda>h. None,
     response_code = \<lambda>h. 200, SiteForCookies_FromUrl = \<lambda>u. u, Origin_Create = \<lambda>u. u, IsSameOriginWith = \<lambda>a b. a = b,
     opaque_origin = [], AssembleRawHeaders = \<lambda>h. h, url_scheme = \<lambda>u. ''https'', DomainIs = \<lambda>u d. False,
     intercepted_handlers = Map.empty, for_service_worker_script = False, ignore_connections_limit_domains = []\<rparr>"

definition net_demo_request :: ResourceRequest where
  "net_demo_request = \<lparr>rq_url = ''https://a'', rq_method = ''GET'', rq_headers = [], rq_body = None, rq_initiator = None,
     rq_site_for_cookies = [], rq_referrer = [], rq_referrer_policy = 0, rq_ignore_limits = False\<rparr>"

definition net_demo_listening :: world where
  "net_demo_listening = (factory_init 0 True)\<lparr>web := WebRequest_init\<lparr>response_listeners := [kOnBeforeRequest \<mapsto> ([], 7)]\<rparr>\<rparr>"

definition js_answer :: "bool \<Rightarrow> url option \<Rightarrow> js_response" where
  "js_answer cancel u = \<lparr>js_cancel = cancel, js_redirectURL = u, js_requestHeaders = None, js_responseHeaders = None, js_statusLine = None\<rparr>"

lemma net_demo_reach: "net_reach net_demo_env net_demo_listening"
proof -
  have "SetResponseListener (wops net_demo_env) kOnBeforeRequest [JsFunction 7] (web (factory_init 0 True)) =
      Inr (WebRequest_init\<lparr>response_listeners := [kOnBeforeRequest \<mapsto> ([], 7)]\<rparr>)"
    by (simp add: SetResponseListener_def SetListener_def read_filter_def factory_init_def WebRequest_init_def)
  from net_set_response[OF net_init this] show ?thesis by (simp add: net_demo_listening_def)
qed

definition net_waiting :: "world \<Rightarrow> continuation \<Rightarrow> bool \<Rightarrow> bool" where
  "net_waiting w k preflight \<longleftrightarrow> tasks w = [] \<and> held w = [(1, NewLocation)] \<and> callbacks (web w) 1 = Some k \<and>
     (case this 1 w of None \<Rightarrow> False
      | Some r \<Rightarrow> r_has_client r = (\<not> preflight) \<and> r_for_cors_preflight r = preflight \<and> (preflight \<longrightarrow> r_uses_header_client r))"

lemma net_demo_client:
  "case CreateLoaderAndStart net_demo_env 0 net_demo_request net_demo_listening of None \<Rightarrow> False
   | Some w \<Rightarrow> net_waiting w ContinueToBeforeSendHeaders_k False"
  by code_simp

lemma net_demo_preflight:
  "case OnLoaderForCorsPreflightCreated net_demo_env net_demo_request net_demo_listening of None \<Rightarrow> False
   | Some w \<Rightarrow> net_waiting w ContinueToStartRequest_k True"
  by code_simp

lemma net_demo_live: "\<not> factory_deleted net_demo_listening" "proxy_receivers net_demo_listening > 0" "header_client_bound net_demo_listening"
  by (simp_all add: net_demo_listening_def factory_init_def)

theorem cancel_ends_request_witness:
  "\<exists>w w1 w2. CreateLoaderAndStart net_demo_env 0 net_demo_request net_demo_listening = Some w \<and>
     answer_held net_demo_env 0 (Some (js_answer True None)) w = Some w1 \<and> run_task net_demo_env w1 = Some w2 \<and> this 1 w2 = None"
proof -
  obtain w where w: "CreateLoaderAndStart net_demo_env 0 net_demo_request net_demo_listening = Some w"
      "net_waiting w ContinueToBeforeSendHeaders_k False"
    using net_demo_client by (auto split: option.splits)
  then obtain r where r: "this 1 w = Some r" "r_has_client r" by (auto simp: net_waiting_def split: option.splits)
  have "net_reach net_demo_env w" by (rule net_create[OF net_demo_reach net_demo_live(1,2) w(1)])
  moreover have "tasks w = []" "0 < length (held w)" "held w ! 0 = (1, NewLocation)" "callbacks (web w) 1 = Some ContinueToBeforeSendHeaders_k"
    "js_cancel (js_answer True None)"
    using w(2) by (simp_all add: net_waiting_def js_answer_def)
  ultimately show ?thesis using cancel_ends_request[of net_demo_env w 0 1 NewLocation, OF _ _ _ _ _ r] w(1) by blast
qed

theorem preflight_redirect_undefined_witness:
  "\<exists>w w1. OnLoaderForCorsPreflightCreated net_demo_env net_demo_request net_demo_listening = Some w \<and>
     answer_held net_demo_env 0 (Some (js_answer False (Some ''https://b''))) w = Some w1 \<and> run_task net_demo_env w1 = None"
proof -
  obtain w where w: "OnLoaderForCorsPreflightCreated net_demo_env net_demo_request net_demo_listening = Some w"
      "net_waiting w ContinueToStartRequest_k True"
    using net_demo_preflight by (auto split: option.splits)
  then obtain r where r: "this 1 w = Some r" "r_for_cors_preflight r" "r_uses_header_client r"
    by (auto simp: net_waiting_def split: option.splits)
  have "net_reach net_demo_env w" by (rule net_preflight[OF net_demo_reach net_demo_live(1,3) w(1)])
  moreover have "tasks w = []" "0 < length (held w)" "held w ! 0 = (1, NewLocation)" "callbacks (web w) 1 = Some ContinueToStartRequest_k"
    "\<not> js_cancel (js_answer False (Some ''https://b''))" "js_redirectURL (js_answer False (Some ''https://b'')) = Some ''https://b''"
    using w(2) by (simp_all add: net_waiting_def js_answer_def)
  ultimately show ?thesis using preflight_redirect_undefined[of net_demo_env w 0 1, OF _ _ _ _ _ r] w(1) by blast
qed

theorem requests_not_dangling_witness:
  "\<exists>w. CreateLoaderAndStart net_demo_env 0 net_demo_request net_demo_listening = Some w \<and>
     (\<forall>n resp. answer_held net_demo_env n resp w \<noteq> None)"
proof -
  obtain w where w: "CreateLoaderAndStart net_demo_env 0 net_demo_request net_demo_listening = Some w"
    using net_demo_client by (auto split: option.splits)
  have "net_reach net_demo_env w" by (rule net_create[OF net_demo_reach net_demo_live(1,2) w])
  from requests_not_dangling[OF this] w show ?thesis by blast
qed


end
