(* ===== verification/Context_Bridge.thy ===== *)
theory Context_Bridge
  imports Prelude
begin

text \<open>
  shell/renderer/api/electron\_api\_context\_bridge.cc and context\_bridge/object\_cache.cc: values pass
  between the isolated world of a preload script and the main world of a page. Primitive values pass
  as they are, functions and promises by proxies, other objects by copies, such that no object of one
  world gets into the other. V8 and Blink are parameters: functions on handles and on the state of the
  isolate, as reading a property may run a script. The calls that give an object to a script, settle
  a promise, call a function or throw are recorded. The outer \<^const>\<open>None\<close> of a result is a crash (\<open>ToLocalChecked\<close>,
  \<open>CHECK\<close>) or a run that does not end; an inner \<^const>\<open>None\<close> is an empty handle.
\<close>

section \<open>Values and parameters\<close>

datatype js_kind =
  JsUndefined | JsNull | JsBoolean | JsNumber | JsString | JsSymbol | JsBigInt
| JsFunction | JsPromise | JsNativeError | JsArray | JsOrdinary | JsProxy (js_callable: bool)
| JsDate | JsArguments | JsBigIntObject | JsBooleanObject | JsNumberObject | JsStringObject | JsSymbolObject
| JsRegExp | JsMap | JsSet | JsMapIterator | JsSetIterator | JsWeakMap | JsWeakSet
| JsArrayBuffer | JsTypedArray | JsDataView | JsSharedArrayBuffer
| JsWasmModule | JsWasmMemory | JsModuleNamespace

definition IsNullOrUndefined :: "js_kind \<Rightarrow> bool" where
  "IsNullOrUndefined k \<longleftrightarrow> k \<in> {JsNull, JsUndefined}"

definition IsPrimitive :: "js_kind \<Rightarrow> bool" where
  "IsPrimitive k \<longleftrightarrow> k = JsString \<or> k = JsNumber \<or> IsNullOrUndefined k \<or> k = JsBoolean \<or> k = JsSymbol \<or> k = JsBigInt"

text \<open>In V8 every value that is not primitive is an object, and a function is what can be called.\<close>

definition IsObject :: "js_kind \<Rightarrow> bool" where
  "IsObject k \<longleftrightarrow> \<not> IsPrimitive k"

definition IsFunction :: "js_kind \<Rightarrow> bool" where
  "IsFunction k \<longleftrightarrow> k = JsFunction \<or> k = JsProxy True"

definition IsTypedArray :: "js_kind \<Rightarrow> bool" where
  "IsTypedArray k \<longleftrightarrow> k = JsTypedArray"

definition IsArrayBufferView :: "js_kind \<Rightarrow> bool" where
  "IsArrayBufferView k \<longleftrightarrow> k = JsTypedArray \<or> k = JsDataView"

definition IsPlainObject :: "js_kind \<Rightarrow> bool" where
  "IsPlainObject k \<longleftrightarrow>
     IsObject k \<and>
     \<not> (IsNullOrUndefined k \<or> k = JsDate \<or> k = JsArguments \<or> k = JsBigIntObject \<or>
        k = JsBooleanObject \<or> k = JsNumberObject \<or> k = JsStringObject \<or> k = JsSymbolObject \<or>
        k = JsNativeError \<or> k = JsRegExp \<or> k = JsPromise \<or> k = JsMap \<or> k = JsSet \<or>
        k = JsMapIterator \<or> k = JsSetIterator \<or> k = JsWeakMap \<or> k = JsWeakSet \<or>
        k = JsArrayBuffer \<or> IsArrayBufferView k \<or> k = JsArray \<or> k = JsDataView \<or>
        k = JsSharedArrayBuffer \<or> is_JsProxy k \<or> k = JsWasmModule \<or> k = JsWasmMemory \<or>
        k = JsModuleNamespace)"

definition IsPlainArray :: "js_kind \<Rightarrow> bool" where
  "IsPlainArray k \<longleftrightarrow> k = JsArray \<and> \<not> IsTypedArray k"

text \<open>The outcome of a call: a value, an exception that is caught, or nothing.\<close>

datatype 'h call_result = Returned 'h | Threw 'h | Terminated

text \<open>The first argument of most functions is the context that is entered. \<open>GetOwnPropertyNames\<close> is the
  function of V8 with its default filter, which skips symbols; \<open>GetOwnEnumerableNames\<close> is the same
  function with the filter \<open>ONLY_ENUMERABLE\<close>, which does not.\<close>

record ('h, 'c, 'w) bridge_ops =
  kind_of :: "'h \<Rightarrow> js_kind"
  GetIdentityHash :: "'h \<Rightarrow> int"
  GetCreationContext :: "'h \<Rightarrow> 'c"
  NewString :: "string \<Rightarrow> 'h"
  NewBoolean :: "bool \<Rightarrow> 'h"
  BooleanOf :: "'h \<Rightarrow> bool option"
  Private_Get :: "'c \<Rightarrow> 'h \<Rightarrow> string \<Rightarrow> 'w \<Rightarrow> 'h option"
  Private_Set :: "'c \<Rightarrow> 'h \<Rightarrow> string \<Rightarrow> 'h \<Rightarrow> 'w \<Rightarrow> 'w"
  Object_New :: "'c \<Rightarrow> 'w \<Rightarrow> 'h \<times> 'w"
  ProxyFunction_New :: "'c \<Rightarrow> 'h \<Rightarrow> 'w \<Rightarrow> 'h option \<times> 'w"
  Promise_New :: "'c \<Rightarrow> 'w \<Rightarrow> 'h \<times> 'w"
  Error_New :: "'c \<Rightarrow> 'h \<Rightarrow> 'w \<Rightarrow> 'h \<times> 'w"
  CreateMessage :: "'h \<Rightarrow> 'w \<Rightarrow> 'h \<times> 'w"
  Array_Length :: "'h \<Rightarrow> 'w \<Rightarrow> nat"
  Array_New :: "'c \<Rightarrow> nat \<Rightarrow> 'w \<Rightarrow> 'h \<times> 'w"
  Array_Get :: "'c \<Rightarrow> 'h \<Rightarrow> nat \<Rightarrow> 'w \<Rightarrow> 'h option \<times> 'w"
  Array_Set :: "'c \<Rightarrow> 'h \<Rightarrow> nat \<Rightarrow> 'h \<Rightarrow> 'w \<Rightarrow> bool option \<times> 'w"
  Object_Has :: "'c \<Rightarrow> 'h \<Rightarrow> 'h \<Rightarrow> 'w \<Rightarrow> bool option \<times> 'w"
  Object_Get :: "'c \<Rightarrow> 'h \<Rightarrow> 'h \<Rightarrow> 'w \<Rightarrow> 'h option \<times> 'w"
  Object_Set :: "'c \<Rightarrow> 'h \<Rightarrow> 'h \<Rightarrow> 'h \<Rightarrow> 'w \<Rightarrow> bool option \<times> 'w"
  DefineProperty :: "'c \<Rightarrow> 'h \<Rightarrow> 'h \<Rightarrow> 'h option \<Rightarrow> 'h option \<Rightarrow> 'w \<Rightarrow> bool option \<times> 'w"
  DefineReadOnly :: "'c \<Rightarrow> 'h \<Rightarrow> 'h \<Rightarrow> 'h \<Rightarrow> 'w \<Rightarrow> bool option \<times> 'w"
  GetOwnPropertyNames :: "'c \<Rightarrow> 'h \<Rightarrow> 'w \<Rightarrow> 'h list option \<times> 'w"
  GetOwnEnumerableNames :: "'c \<Rightarrow> 'h \<Rightarrow> 'w \<Rightarrow> 'h list option \<times> 'w"
  GetOwnPropertyDescriptor :: "'c \<Rightarrow> 'h \<Rightarrow> 'h \<Rightarrow> 'w \<Rightarrow> 'h option \<times> 'w"
  SetIntegrityLevel_Frozen :: "'c \<Rightarrow> 'h \<Rightarrow> 'w \<Rightarrow> bool option \<times> 'w"
  Element_ToV8 :: "'c \<Rightarrow> 'h \<Rightarrow> 'w \<Rightarrow> ('h \<times> 'w) option"
  Blob_ToV8 :: "'c \<Rightarrow> 'h \<Rightarrow> 'w \<Rightarrow> ('h \<times> 'w) option"
  Serialize :: "'c \<Rightarrow> 'h \<Rightarrow> 'w \<Rightarrow> u8 list option \<times> 'w"
  Deserialize :: "'c \<Rightarrow> u8 list \<Rightarrow> 'w \<Rightarrow> 'h \<times> 'w"
  Function_Call :: "'c \<Rightarrow> 'h \<Rightarrow> 'h list \<Rightarrow> 'w \<Rightarrow> 'h call_result \<times> 'w"
  Context_alive :: "'c \<Rightarrow> 'w \<Rightarrow> bool"
  HasWebFrame :: "'h \<Rightarrow> 'w \<Rightarrow> bool"
  MainWorldContext :: "'w \<Rightarrow> 'c"
  IsolatedWorldContext :: "'w \<Rightarrow> 'c"
  GlobalObject :: "'c \<Rightarrow> 'h"
  kContextBridgeMutability :: bool

definition IsTrue :: "bool option \<Rightarrow> bool" where
  "IsTrue maybe \<longleftrightarrow> maybe = Some True"

datatype ('h, 'c) bridge_effect =
  ElementStored 'h nat 'h
| PropertyStored 'h 'h 'h
| AccessorStored 'h 'h "'h option" "'h option"
| PrivateStored 'h string 'h
| ThenAdded 'h 'h 'c 'c
| PromiseSettled 'h bool 'h
| RecursionError 'c
| ErrorThrown 'c 'h
| BindingError
| Froze 'h bool
| FunctionCalled 'h "'h list"

record ('h, 'c, 'w) bridge =
  world :: 'w
  proxy_map :: "int \<Rightarrow> ('h \<times> 'h) list"
  effects :: "('h, 'c) bridge_effect list"

text \<open>An operation of V8, and an effect that is recorded.\<close>

definition run :: "('w \<Rightarrow> 'a \<times> 'w) \<Rightarrow> ('h, 'c, 'w) bridge \<Rightarrow> 'a \<times> ('h, 'c, 'w) bridge" where
  "run f st = (let (r, w) = f (world st) in (r, st\<lparr>world := w\<rparr>))"

definition did :: "('h, 'c) bridge_effect \<Rightarrow> ('h, 'c, 'w) bridge \<Rightarrow> ('h, 'c, 'w) bridge" where
  "did e st = st\<lparr>effects := effects st @ [e]\<rparr>"

definition SetPrivate :: "('h, 'c, 'w) bridge_ops \<Rightarrow> 'c \<Rightarrow> 'h \<Rightarrow> string \<Rightarrow> 'h \<Rightarrow> ('h, 'c, 'w) bridge \<Rightarrow> ('h, 'c, 'w) bridge" where
  "SetPrivate ops ctx target key val st =
     did (PrivateStored target key val) (st\<lparr>world := Private_Set ops ctx target key val (world st)\<rparr>)"

definition GetPrivate :: "('h, 'c, 'w) bridge_ops \<Rightarrow> 'c \<Rightarrow> 'h \<Rightarrow> string \<Rightarrow> ('h, 'c, 'w) bridge \<Rightarrow> 'h option" where
  "GetPrivate ops ctx target key st = Private_Get ops ctx target key (world st)"

definition kProxyFunctionPrivateKey :: string where
  "kProxyFunctionPrivateKey = ''electron_contextBridge_proxy_fn''"

definition kSupportsDynamicPropertiesPrivateKey :: string where
  "kSupportsDynamicPropertiesPrivateKey = ''electron_contextBridge_supportsDynamicProperties''"

definition kOriginalFunctionPrivateKey :: string where
  "kOriginalFunctionPrivateKey = ''electron_contextBridge_original_fn''"

text \<open>\<open>gin_helper::Dictionary\<close>: reading checks that the key exists.\<close>

definition Dictionary_Get :: "('h, 'c, 'w) bridge_ops \<Rightarrow> 'c \<Rightarrow> 'h \<Rightarrow> 'h \<Rightarrow> 'w \<Rightarrow> 'h option \<times> 'w" where
  "Dictionary_Get ops ctx h key w =
     (let (result, w1) = Object_Has ops ctx h key w
      in if IsTrue result then Object_Get ops ctx h key w1 else (None, w1))"

definition Dictionary_Has :: "('h, 'c, 'w) bridge_ops \<Rightarrow> 'c \<Rightarrow> 'h \<Rightarrow> string \<Rightarrow> 'w \<Rightarrow> bool \<times> 'w" where
  "Dictionary_Has ops ctx h key w =
     (let (result, w1) = Object_Has ops ctx h (NewString ops key) w in (IsTrue result, w1))"

section \<open>The cache of proxied objects\<close>

definition ObjectCache_init :: "int \<Rightarrow> ('h \<times> 'h) list" where
  "ObjectCache_init = (\<lambda>_. [])"

definition CacheProxiedObject ::
  "('h, 'c, 'w) bridge_ops \<Rightarrow> 'h \<Rightarrow> 'h \<Rightarrow> ('h, 'c, 'w) bridge \<Rightarrow> ('h, 'c, 'w) bridge" where
  "CacheProxiedObject ops source proxy_value st =
     (if IsObject (kind_of ops source) \<and> \<not> IsNullOrUndefined (kind_of ops source) then
        let hash = GetIdentityHash ops source
        in st\<lparr>proxy_map := (proxy_map st)(hash := (source, proxy_value) # proxy_map st hash)\<rparr>
      else st)"

definition GetCachedProxiedObject :: "('h, 'c, 'w) bridge_ops \<Rightarrow> 'h \<Rightarrow> ('h, 'c, 'w) bridge \<Rightarrow> 'h option" where
  "GetCachedProxiedObject ops source st =
     (if \<not> IsObject (kind_of ops source) \<or> IsNullOrUndefined (kind_of ops source) then None
      else map_of (proxy_map st (GetIdentityHash ops source)) source)"

section \<open>Passing a value\<close>

datatype BridgeErrorTarget = kSource | kDestination

definition kMaxRecursion :: int where "kMaxRecursion = 1000"

type_synonym ('h, 'c, 'w) passing = "'h \<Rightarrow> ('h, 'c, 'w) bridge \<Rightarrow> ('h option \<times> ('h, 'c, 'w) bridge) option"

definition pass_function ::
  "('h, 'c, 'w) bridge_ops \<Rightarrow> 'c \<Rightarrow> 'c \<Rightarrow> bool \<Rightarrow> 'h \<Rightarrow> ('h, 'c, 'w) bridge \<Rightarrow> 'h option \<times> ('h, 'c, 'w) bridge" where
  "pass_function ops source_context destination_context support_dynamic_properties func st =
     (let maybe_original_fn = GetPrivate ops source_context func kOriginalFunctionPrivateKey st;
          make_proxy =
            (let (state, st1) = run (Object_New ops destination_context) st;
                 st2 = SetPrivate ops destination_context state kProxyFunctionPrivateKey func st1;
                 st3 = SetPrivate ops destination_context state kSupportsDynamicPropertiesPrivateKey
                         (NewBoolean ops support_dynamic_properties) st2;
                 (proxy_func, st4) = run (ProxyFunction_New ops destination_context state) st3
             in case proxy_func of
                  None \<Rightarrow> (None, st4)
                | Some p \<Rightarrow>
                    (Some p, CacheProxiedObject ops func p
                               (SetPrivate ops destination_context p kOriginalFunctionPrivateKey func st4)))
      in case maybe_original_fn of
           None \<Rightarrow> make_proxy
         | Some original \<Rightarrow>
             if IsFunction (kind_of ops original) \<and> GetCreationContext ops original = destination_context
             then (Some original, st) else make_proxy)"

definition pass_promise ::
  "('h, 'c, 'w) bridge_ops \<Rightarrow> 'c \<Rightarrow> 'c \<Rightarrow> 'h \<Rightarrow> ('h, 'c, 'w) bridge \<Rightarrow> 'h option \<times> ('h, 'c, 'w) bridge" where
  "pass_promise ops source_context destination_context source_promise st =
     (let (proxied_promise, st1) = run (Promise_New ops destination_context) st;
          st2 = did (ThenAdded source_promise proxied_promise source_context destination_context) st1
      in (Some proxied_promise, CacheProxiedObject ops source_promise proxied_promise st2))"

definition pass_error ::
  "('h, 'c, 'w) bridge_ops \<Rightarrow> 'c \<Rightarrow> 'c \<Rightarrow> 'h \<Rightarrow> ('h, 'c, 'w) bridge \<Rightarrow> 'h option \<times> ('h, 'c, 'w) bridge" where
  "pass_error ops source_context destination_context val st =
     (let (maybe_message, st1) = run (Object_Get ops source_context val (NewString ops ''message'')) st;
          (message, st2) =
            (case maybe_message of
               Some m \<Rightarrow> if kind_of ops m = JsString then (m, st1) else run (CreateMessage ops val) st1
             | None \<Rightarrow> run (CreateMessage ops val) st1);
          (e, st3) = run (Error_New ops destination_context message) st2
      in (Some e, st3))"

text \<open>The loop over the elements of an array. An element that cannot be read ends the process.\<close>

fun pass_elements ::
  "('h, 'c, 'w) bridge_ops \<Rightarrow> 'c \<Rightarrow> 'c \<Rightarrow> ('h, 'c, 'w) passing \<Rightarrow> 'h \<Rightarrow> 'h \<Rightarrow> nat list
    \<Rightarrow> ('h, 'c, 'w) bridge \<Rightarrow> (bool \<times> ('h, 'c, 'w) bridge) option" where
  "pass_elements ops source_context destination_context conv arr cloned_arr [] st = Some (True, st)"
| "pass_elements ops source_context destination_context conv arr cloned_arr (i # js) st = do {
     let (element, st1) = run (Array_Get ops source_context arr i) st;
     x \<leftarrow> element;
     (value_for_array, st2) \<leftarrow> conv x st1;
     (case value_for_array of
        None \<Rightarrow> Some (False, st2)
      | Some v \<Rightarrow>
          let (result, st3) = run (Array_Set ops destination_context cloned_arr i v) (did (ElementStored cloned_arr i v) st2)
          in if IsTrue result then pass_elements ops source_context destination_context conv arr cloned_arr js st3
             else Some (False, st3)) }"

text \<open>A getter or a setter, if there is one.\<close>

definition pass_accessor ::
  "('h, 'c, 'w) passing \<Rightarrow> 'h option \<Rightarrow> ('h, 'c, 'w) bridge \<Rightarrow> ('h option option \<times> ('h, 'c, 'w) bridge) option" where
  "pass_accessor conv accessor st =
     (case accessor of
        None \<Rightarrow> Some (Some None, st)
      | Some f \<Rightarrow> do {
          (r, st1) \<leftarrow> conv f st;
          Some (case r of None \<Rightarrow> (None, st1) | Some p \<Rightarrow> (Some (Some p), st1)) })"

text \<open>A property whose values may change: its accessors are proxied. The result tells whether the property
  is done with.\<close>

definition proxy_accessors ::
  "('h, 'c, 'w) bridge_ops \<Rightarrow> 'c \<Rightarrow> 'c \<Rightarrow> ('h, 'c, 'w) passing \<Rightarrow> 'h \<Rightarrow> 'h \<Rightarrow> 'h
    \<Rightarrow> ('h, 'c, 'w) bridge \<Rightarrow> (bool \<times> ('h, 'c, 'w) bridge) option" where
  "proxy_accessors ops source_context destination_context conv api proxy key st =
     (let (maybe_desc, st1) = run (GetOwnPropertyDescriptor ops source_context api key) st
      in case maybe_desc of
           None \<Rightarrow> Some (True, st1)
         | Some desc \<Rightarrow>
             if \<not> IsObject (kind_of ops desc) then Some (True, st1)
             else let (has_get, st2) = run (Dictionary_Has ops source_context desc ''get'') st1;
                      (has_any, st3) = (if has_get then (True, st2) else run (Dictionary_Has ops source_context desc ''set'') st2)
                  in if \<not> has_any then Some (False, st3)
                     else let (getter, st4) = run (Dictionary_Get ops source_context desc (NewString ops ''get'')) st3;
                              (setter, st5) = run (Dictionary_Get ops source_context desc (NewString ops ''set'')) st4
                          in do {
                            (getter_proxy, st6) \<leftarrow> pass_accessor conv getter st5;
                            (case getter_proxy of
                               None \<Rightarrow> Some (True, st6)
                             | Some g \<Rightarrow> do {
                                 (setter_proxy, st7) \<leftarrow> pass_accessor conv setter st6;
                                 Some (True, case setter_proxy of
                                               None \<Rightarrow> st7
                                             | Some s \<Rightarrow> snd (run (DefineProperty ops destination_context proxy key g s)
                                                               (did (AccessorStored proxy key g s) st7))) }) })"

text \<open>The loop over the keys of an object. The first argument of the passing function is the depth.\<close>

fun proxy_properties ::
  "('h, 'c, 'w) bridge_ops \<Rightarrow> 'c \<Rightarrow> 'c \<Rightarrow> bool \<Rightarrow> (int \<Rightarrow> ('h, 'c, 'w) passing) \<Rightarrow> int \<Rightarrow> 'h \<Rightarrow> 'h \<Rightarrow> 'h list
    \<Rightarrow> ('h, 'c, 'w) bridge \<Rightarrow> ('h option \<times> ('h, 'c, 'w) bridge) option" where
  "proxy_properties ops source_context destination_context support_dynamic_properties conv recursion_depth api proxy [] st =
     Some (Some proxy, st)"
| "proxy_properties ops source_context destination_context support_dynamic_properties conv recursion_depth api proxy (key # keys) st = do {
     (finished, st1) \<leftarrow> (if support_dynamic_properties
                       then proxy_accessors ops source_context destination_context (conv 1) api proxy key st
                       else Some (False, st));
     (if finished
      then proxy_properties ops source_context destination_context support_dynamic_properties conv recursion_depth api proxy keys st1
      else let (val, st2) = run (Dictionary_Get ops destination_context api key) st1
           in case val of
                None \<Rightarrow> proxy_properties ops source_context destination_context support_dynamic_properties conv recursion_depth api proxy keys st2
              | Some v \<Rightarrow> do {
                  (passed_value, st3) \<leftarrow> conv (recursion_depth + 1) v st2;
                  (case passed_value of
                     None \<Rightarrow> Some (None, st3)
                   | Some p \<Rightarrow>
                       proxy_properties ops source_context destination_context support_dynamic_properties conv recursion_depth api proxy keys
                         (snd (run (Object_Set ops destination_context proxy key p) (did (PropertyStored proxy key p) st3)))) }) }"

definition CreateProxyForAPI ::
  "('h, 'c, 'w) bridge_ops \<Rightarrow> 'c \<Rightarrow> 'c \<Rightarrow> bool \<Rightarrow> (int \<Rightarrow> ('h, 'c, 'w) passing) \<Rightarrow> int \<Rightarrow> ('h, 'c, 'w) passing" where
  "CreateProxyForAPI ops source_context destination_context support_dynamic_properties conv recursion_depth api_object st =
     (let (proxy, st1) = run (Object_New ops destination_context) st;
          st2 = CacheProxiedObject ops api_object proxy st1;
          (maybe_keys, st3) = run (GetOwnEnumerableNames ops source_context api_object) st2
      in case maybe_keys of
           None \<Rightarrow> Some (Some proxy, st3)
         | Some keys \<Rightarrow>
             proxy_properties ops source_context destination_context support_dynamic_properties conv recursion_depth
               api_object proxy keys st3)"

text \<open>What is left is serialised, and fails where that fails.\<close>

definition pass_clone ::
  "('h, 'c, 'w) bridge_ops \<Rightarrow> 'c \<Rightarrow> 'c \<Rightarrow> BridgeErrorTarget \<Rightarrow> 'h \<Rightarrow> ('h, 'c, 'w) bridge
    \<Rightarrow> 'h option \<times> ('h, 'c, 'w) bridge" where
  "pass_clone ops source_context destination_context error_target val st =
     (let error_context = (if error_target = kSource then source_context else destination_context);
          (ret, st1) = run (Serialize ops error_context val) st
      in case ret of
           None \<Rightarrow> (None, st1)
         | Some message \<Rightarrow>
             let (cloned_value, st2) = run (Deserialize ops destination_context message) st1
             in (Some cloned_value, CacheProxiedObject ops val cloned_value st2))"

text \<open>The loops depend monotonically on the function that passes their parts.\<close>

lemma mono_case_option [partial_function_mono]:
  assumes "mono_option f" "\<And>x. mono_option (\<lambda>F. g F x)"
  shows "mono_option (\<lambda>F. case v of None \<Rightarrow> f F | Some x \<Rightarrow> g F x)"
  using assms by (cases v) simp_all

lemma mono_case_prod [partial_function_mono]:
  assumes "\<And>x y. mono_option (\<lambda>F. g F x y)"
  shows "mono_option (\<lambda>F. case v of (x, y) \<Rightarrow> g F x y)"
  using assms by (cases v) simp

lemma pass_elements_mono [partial_function_mono]:
  assumes "\<And>x s. mono_option (\<lambda>F. f F x s)"
  shows "mono_option (\<lambda>F. pass_elements ops src dst (f F) arr c js st)"
proof (induction js arbitrary: st)
  case Nil
  show ?case by (simp add: option.const_mono)
next
  case (Cons i js)
  show ?case unfolding pass_elements.simps Let_def by (intro partial_function_mono assms Cons)
qed

lemma pass_accessor_mono [partial_function_mono]:
  assumes "\<And>x s. mono_option (\<lambda>F. f F x s)"
  shows "mono_option (\<lambda>F. pass_accessor (f F) a st)"
  unfolding pass_accessor_def by (intro partial_function_mono assms)

lemma proxy_accessors_mono [partial_function_mono]:
  assumes "\<And>x s. mono_option (\<lambda>F. f F x s)"
  shows "mono_option (\<lambda>F. proxy_accessors ops src dst (f F) api proxy key st)"
  unfolding proxy_accessors_def Let_def by (intro partial_function_mono assms)

lemma proxy_properties_mono [partial_function_mono]:
  assumes "\<And>d x s. mono_option (\<lambda>F. f F d x s)"
  shows "mono_option (\<lambda>F. proxy_properties ops src dst sdp (f F) d api proxy keys st)"
proof (induction keys arbitrary: st)
  case Nil
  show ?case by (simp add: option.const_mono)
next
  case (Cons key keys)
  show ?case unfolding proxy_properties.simps Let_def by (intro partial_function_mono assms Cons)
qed

lemma CreateProxyForAPI_mono [partial_function_mono]:
  assumes "\<And>d x s. mono_option (\<lambda>F. f F d x s)"
  shows "mono_option (\<lambda>F. CreateProxyForAPI ops src dst sdp (f F) d api st)"
  unfolding CreateProxyForAPI_def Let_def by (intro partial_function_mono assms)

partial_function (option) PassValueToOtherContext ::
  "('h, 'c, 'w) bridge_ops \<Rightarrow> 'c \<Rightarrow> 'c \<Rightarrow> bool \<Rightarrow> BridgeErrorTarget \<Rightarrow> int \<Rightarrow> ('h, 'c, 'w) passing" where
  "PassValueToOtherContext ops source_context destination_context support_dynamic_properties error_target recursion_depth val st =
     (if kMaxRecursion \<le> recursion_depth
      then Some (None, did (RecursionError (if error_target = kSource then source_context else destination_context)) st)
      else if IsPrimitive (kind_of ops val) then Some (Some val, st)
      else case GetCachedProxiedObject ops val st of
             Some cached_value \<Rightarrow> Some (Some cached_value, st)
           | None \<Rightarrow>
      if IsFunction (kind_of ops val)
      then Some (pass_function ops source_context destination_context support_dynamic_properties val st)
      else if kind_of ops val = JsPromise then Some (pass_promise ops source_context destination_context val st)
      else if kind_of ops val = JsNativeError then Some (pass_error ops source_context destination_context val st)
      else if IsPlainArray (kind_of ops val) then
        let len = Array_Length ops val (world st);
            (cloned_arr, st1) = run (Array_New ops destination_context len) st
        in do {
          (complete, st2) \<leftarrow> pass_elements ops source_context destination_context
             (PassValueToOtherContext ops source_context destination_context support_dynamic_properties kSource (recursion_depth + 1))
             val cloned_arr [0..<len] st1;
          Some (if complete then (Some cloned_arr, CacheProxiedObject ops val cloned_arr st2) else (None, st2)) }
      else case Element_ToV8 ops destination_context val (world st) of
             Some (e, w) \<Rightarrow> Some (Some e, st\<lparr>world := w\<rparr>)
           | None \<Rightarrow>
           case Blob_ToV8 ops destination_context val (world st) of
             Some (b, w) \<Rightarrow> Some (Some b, st\<lparr>world := w\<rparr>)
           | None \<Rightarrow>
      if IsPlainObject (kind_of ops val)
      then CreateProxyForAPI ops source_context destination_context support_dynamic_properties
             (PassValueToOtherContext ops source_context destination_context support_dynamic_properties kSource)
             (recursion_depth + 1) val st
      else Some (pass_clone ops source_context destination_context error_target val st))"

text \<open>The callbacks of a proxied promise. The contexts are held weakly, and the cache is a new one.\<close>

definition settle_proxied_promise ::
  "('h, 'c, 'w) bridge_ops \<Rightarrow> 'c \<Rightarrow> 'c \<Rightarrow> 'h \<Rightarrow> bool \<Rightarrow> 'h \<Rightarrow> ('h, 'c, 'w) bridge \<Rightarrow> ('h, 'c, 'w) bridge option" where
  "settle_proxied_promise ops source_context destination_context proxied_promise fulfilled result st =
     (if \<not> Context_alive ops source_context (world st) \<or> \<not> Context_alive ops destination_context (world st) then Some st
      else do {
        (val, st1) \<leftarrow> PassValueToOtherContext ops source_context destination_context False kSource 0 result
                       (st\<lparr>proxy_map := ObjectCache_init\<rparr>);
        Some (case val of None \<Rightarrow> st1 | Some v \<Rightarrow> did (PromiseSettled proxied_promise fulfilled v) st1) })"

section \<open>Calling a proxied function\<close>

fun pass_arguments ::
  "('h, 'c, 'w) passing \<Rightarrow> 'h list \<Rightarrow> ('h, 'c, 'w) bridge \<Rightarrow> ('h list option \<times> ('h, 'c, 'w) bridge) option" where
  "pass_arguments conv [] st = Some (Some [], st)"
| "pass_arguments conv (val # vals) st = do {
     (arg, st1) \<leftarrow> conv val st;
     (case arg of
        None \<Rightarrow> Some (None, st1)
      | Some a \<Rightarrow> do {
          (args, st2) \<leftarrow> pass_arguments conv vals st1;
          Some (map_option ((#) a) args, st2) }) }"

definition unknown_exception :: string where
  "unknown_exception =
     ''An unknown exception occurred in the isolated context, an error occurred but a valid exception was not thrown.''"

definition exception_message ::
  "('h, 'c, 'w) bridge_ops \<Rightarrow> 'c \<Rightarrow> 'h \<Rightarrow> ('h, 'c, 'w) bridge \<Rightarrow> 'h \<times> ('h, 'c, 'w) bridge" where
  "exception_message ops func_owning_context exception st =
     (if kind_of ops exception \<noteq> JsNull \<and> IsObject (kind_of ops exception) then
        let (maybe_message, st1) = run (Object_Get ops func_owning_context exception (NewString ops ''message'')) st
        in case maybe_message of
             None \<Rightarrow> (NewString ops unknown_exception, st1)
           | Some m \<Rightarrow> (if kind_of ops m = JsString then m else NewString ops unknown_exception, st1)
      else (NewString ops unknown_exception, st))"

text \<open>A call of a proxy from \<open>calling_context\<close>, with the \<open>data\<close> of the proxy. The result is the value that
  is returned to the caller, if there is one.\<close>

definition ProxyFunctionWrapper ::
  "('h, 'c, 'w) bridge_ops \<Rightarrow> 'c \<Rightarrow> 'h \<Rightarrow> 'h list \<Rightarrow> ('h, 'c, 'w) bridge \<Rightarrow> ('h option \<times> ('h, 'c, 'w) bridge) option" where
  "ProxyFunctionWrapper ops calling_context data original_args st =
     (if \<not> IsObject (kind_of ops data) then None
      else case (Option.bind (GetPrivate ops calling_context data kSupportsDynamicPropertiesPrivateKey st) (BooleanOf ops),
                 GetPrivate ops calling_context data kProxyFunctionPrivateKey st) of
        (Some support_dynamic_properties, Some func) \<Rightarrow>
          let func_owning_context = GetCreationContext ops func
          in do {
            (proxied_args, st1) \<leftarrow> pass_arguments
               (PassValueToOtherContext ops calling_context func_owning_context support_dynamic_properties kSource 0)
               original_args (st\<lparr>proxy_map := ObjectCache_init\<rparr>);
            (case proxied_args of
               None \<Rightarrow> Some (None, st1)
             | Some args \<Rightarrow>
                 let (outcome, st2) = run (Function_Call ops func_owning_context func args) (did (FunctionCalled func args) st1)
                 in case outcome of
                      Threw exception \<Rightarrow>
                        let (message, st3) = exception_message ops func_owning_context exception st2;
                            (e, st4) = run (Error_New ops calling_context message) st3
                        in Some (None, did (ErrorThrown calling_context e) st4)
                    | Terminated \<Rightarrow> Some (None, st2)
                    | Returned r \<Rightarrow>
                        PassValueToOtherContext ops func_owning_context calling_context support_dynamic_properties
                          kDestination 0 r st2) }
      | _ \<Rightarrow> Some (None, st))"

section \<open>Freezing\<close>

text \<open>The loop over the children of an object. A child that cannot be read ends the process.\<close>

fun freeze_children ::
  "('h, 'c, 'w) bridge_ops \<Rightarrow> 'c \<Rightarrow> ('h \<Rightarrow> ('h, 'c, 'w) bridge \<Rightarrow> (bool \<times> ('h, 'c, 'w) bridge) option) \<Rightarrow> 'h \<Rightarrow> 'h list
    \<Rightarrow> ('h, 'c, 'w) bridge \<Rightarrow> (bool \<times> ('h, 'c, 'w) bridge) option" where
  "freeze_children ops ctx freeze object [] st = Some (True, st)"
| "freeze_children ops ctx freeze object (name # names) st = do {
     let (maybe_child, st1) = run (Object_Get ops ctx object name) st;
     child \<leftarrow> maybe_child;
     (if IsObject (kind_of ops child) \<and> \<not> IsTypedArray (kind_of ops child) then do {
        (ok, st2) \<leftarrow> freeze child st1;
        (if \<not> ok then Some (False, st2) else freeze_children ops ctx freeze object names st2) }
      else freeze_children ops ctx freeze object names st1) }"

lemma freeze_children_mono [partial_function_mono]:
  assumes "\<And>x s. mono_option (\<lambda>F. f F x s)"
  shows "mono_option (\<lambda>F. freeze_children ops ctx (f F) object names st)"
proof (induction names arbitrary: st)
  case Nil
  show ?case by (simp add: option.const_mono)
next
  case (Cons name names)
  show ?case unfolding freeze_children.simps Let_def by (intro partial_function_mono assms Cons)
qed

text \<open>The set \<open>frozen\<close> of identity hashes is passed by value.\<close>

partial_function (option) DeepFreeze ::
  "('h, 'c, 'w) bridge_ops \<Rightarrow> 'c \<Rightarrow> int set \<Rightarrow> 'h \<Rightarrow> ('h, 'c, 'w) bridge \<Rightarrow> (bool \<times> ('h, 'c, 'w) bridge) option" where
  "DeepFreeze ops ctx frozen object st =
     (if GetIdentityHash ops object \<in> frozen then Some (True, st)
      else let (maybe_names, st1) = run (GetOwnPropertyNames ops ctx object) st
           in do {
             property_names \<leftarrow> maybe_names;
             (ok, st2) \<leftarrow> freeze_children ops ctx (DeepFreeze ops ctx (insert (GetIdentityHash ops object) frozen)) object property_names st1;
             (if \<not> ok then Some (False, st2)
              else let (result, st3) = run (SetIntegrityLevel_Frozen ops ctx object) st2
                   in Some (IsTrue result, did (Froze object (IsTrue result)) st3)) })"

section \<open>Exposing an interface\<close>

text \<open>Called from \<open>current_context\<close>. A window without a frame ends the process.\<close>

definition ExposeAPIInMainWorld ::
  "('h, 'c, 'w) bridge_ops \<Rightarrow> 'c \<Rightarrow> string \<Rightarrow> 'h \<Rightarrow> ('h, 'c, 'w) bridge \<Rightarrow> ('h, 'c, 'w) bridge option" where
  "ExposeAPIInMainWorld ops current_context key api st =
     (if \<not> HasWebFrame ops (GlobalObject ops current_context) (world st) then None
      else let main_context = MainWorldContext ops (world st);
               global = GlobalObject ops main_context;
               (has_key, st1) = run (Dictionary_Has ops current_context global key) st
           in if has_key then Some (did BindingError st1)
              else let isolated_context = IsolatedWorldContext ops (world st1)
                   in do {
                     (maybe_proxy, st2) \<leftarrow> PassValueToOtherContext ops isolated_context main_context False kSource 0 api
                                              (st1\<lparr>proxy_map := ObjectCache_init\<rparr>);
                     (case maybe_proxy of
                        None \<Rightarrow> Some st2
                      | Some proxy \<Rightarrow>
                          if kContextBridgeMutability ops
                          then Some (snd (run (Object_Set ops main_context global (NewString ops key) proxy)
                                            (did (PropertyStored global (NewString ops key) proxy) st2)))
                          else do {
                            (ok, st3) \<leftarrow> (if IsObject (kind_of ops proxy) \<and> \<not> IsTypedArray (kind_of ops proxy)
                                         then DeepFreeze ops main_context {} proxy st2 else Some (True, st2));
                            Some (if \<not> ok then st3
                                  else snd (run (DefineReadOnly ops main_context global (NewString ops key) proxy)
                                              (did (PropertyStored global (NewString ops key) proxy) st3))) }) })"

text \<open>The path is not empty. A key of the path without an object ends the process.\<close>

fun TraceKeyPath ::
  "('h, 'c, 'w) bridge_ops \<Rightarrow> 'c \<Rightarrow> 'h \<Rightarrow> string list \<Rightarrow> ('h, 'c, 'w) bridge \<Rightarrow> ('h \<times> ('h, 'c, 'w) bridge) option" where
  "TraceKeyPath ops current_context current (k # k' # key_path) st =
     (let (val, st1) = run (Dictionary_Get ops current_context current (NewString ops k)) st
      in do {
        v \<leftarrow> val;
        (if IsObject (kind_of ops v) then TraceKeyPath ops current_context v (k' # key_path) st1 else None) })"
| "TraceKeyPath ops current_context current _ st = Some (current, st)"

definition OverrideGlobalValueFromIsolatedWorld ::
  "('h, 'c, 'w) bridge_ops \<Rightarrow> 'c \<Rightarrow> string list \<Rightarrow> 'h \<Rightarrow> bool \<Rightarrow> ('h, 'c, 'w) bridge \<Rightarrow> ('h, 'c, 'w) bridge option" where
  "OverrideGlobalValueFromIsolatedWorld ops current_context key_path val support_dynamic_properties st =
     (if key_path = [] then Some st
      else if \<not> HasWebFrame ops val (world st) then None
      else let main_context = MainWorldContext ops (world st);
               final_key = NewString ops (last key_path)
           in do {
             (target_object, st1) \<leftarrow> TraceKeyPath ops current_context (GlobalObject ops main_context) key_path st;
             (maybe_proxy, st2) \<leftarrow> PassValueToOtherContext ops (GetCreationContext ops val) main_context
                                      support_dynamic_properties kSource 1 val (st1\<lparr>proxy_map := ObjectCache_init\<rparr>);
             proxy \<leftarrow> maybe_proxy;
             Some (snd (run (Object_Set ops main_context target_object final_key proxy)
                          (did (PropertyStored target_object final_key proxy) st2))) })"

definition OverrideGlobalPropertyFromIsolatedWorld ::
  "('h, 'c, 'w) bridge_ops \<Rightarrow> 'c \<Rightarrow> string list \<Rightarrow> 'h \<Rightarrow> 'h \<Rightarrow> ('h, 'c, 'w) bridge \<Rightarrow> (bool \<times> ('h, 'c, 'w) bridge) option" where
  "OverrideGlobalPropertyFromIsolatedWorld ops current_context key_path getter setter st =
     (if key_path = [] then Some (False, st)
      else if \<not> HasWebFrame ops getter (world st) then None
      else let main_context = MainWorldContext ops (world st);
               final_key = NewString ops (last key_path);
               pass = (\<lambda>v s. do {
                         (r, s1) \<leftarrow> PassValueToOtherContext ops (GetCreationContext ops getter) main_context False kSource 1 v s;
                         p \<leftarrow> r;
                         Some (Some p, s1) })
           in do {
             (target_object, st1) \<leftarrow> TraceKeyPath ops current_context (GlobalObject ops main_context) key_path st;
             let st2 = st1\<lparr>proxy_map := ObjectCache_init\<rparr>;
             (getter_proxy, st3) \<leftarrow> (if \<not> IsNullOrUndefined (kind_of ops getter) then pass getter st2 else Some (None, st2));
             (setter_proxy, st4) \<leftarrow> (if \<not> IsNullOrUndefined (kind_of ops setter) \<and> IsObject (kind_of ops setter)
                                    then pass setter st3 else Some (None, st3));
             let (success, st5) = run (DefineProperty ops main_context target_object final_key getter_proxy setter_proxy)
                                    (did (AccessorStored target_object final_key getter_proxy setter_proxy) st4);
             Some (IsTrue success, st5) })"

definition IsCalledFromMainWorld :: "('h, 'c, 'w) bridge_ops \<Rightarrow> 'c \<Rightarrow> ('h, 'c, 'w) bridge \<Rightarrow> bool option" where
  "IsCalledFromMainWorld ops current_context st =
     (if \<not> HasWebFrame ops (GlobalObject ops current_context) (world st) then None
      else Some (current_context = MainWorldContext ops (world st)))"

section \<open>Facts on the steps\<close>

lemma did_simps [simp]:
  "effects (did e st) = effects st @ [e]"
  "world (did e st) = world st"
  "proxy_map (did e st) = proxy_map st"
  by (simp_all add: did_def)

lemma bind_pairE:
  assumes "Option.bind m (\<lambda>(a, b). f a b) = Some z"
  obtains a b where "m = Some (a, b)" "f a b = Some z"
  using assms by (auto simp: bind_eq_Some_conv)

lemma run_fst: "run f st = (r, st') \<Longrightarrow> r = fst (f (world st))"
  by (auto simp: run_def split: prod.splits)

lemma run_parts: "run f st = (r, st') \<Longrightarrow> r = fst (f (world st)) \<and> world st' = snd (f (world st)) \<and> effects st' = effects st"
  by (auto simp: run_def split: prod.splits)

end
