(* ===== verification/Bridge_Isolation.thy ===== *)
theory Bridge_Isolation
  imports Context_Bridge
begin

text \<open>
  What the context bridge keeps apart: a value that is passed on, and every value stored in an object
  on the way, is primitive or was created in the destination. With it, the calls of proxied functions
  and the interfaces in the main world, which are frozen as deep as the names that are listed.
\<close>

section \<open>What may be handed over\<close>

definition made_in :: "('h, 'c, 'w) bridge_ops \<Rightarrow> 'c \<Rightarrow> 'h \<Rightarrow> bool" where
  "made_in ops c h \<longleftrightarrow> GetCreationContext ops h = c"

definition handed :: "('h, 'c, 'w) bridge_ops \<Rightarrow> 'c \<Rightarrow> 'h \<Rightarrow> bool" where
  "handed ops c h \<longleftrightarrow> IsPrimitive (kind_of ops h) \<or> made_in ops c h"

text \<open>V8 and Blink create objects in the context they are given; \<open>Exception::Error\<close> and structured
  cloning as well.\<close>

definition creates_in :: "('h, 'c, 'w) bridge_ops \<Rightarrow> 'c \<Rightarrow> bool" where
  "creates_in ops c \<longleftrightarrow>
     (\<forall>w. made_in ops c (fst (Object_New ops c w))) \<and>
     (\<forall>s w p. fst (ProxyFunction_New ops c s w) = Some p \<longrightarrow> made_in ops c p) \<and>
     (\<forall>w. made_in ops c (fst (Promise_New ops c w))) \<and>
     (\<forall>m w. made_in ops c (fst (Error_New ops c m w))) \<and>
     (\<forall>n w. made_in ops c (fst (Array_New ops c n w))) \<and>
     (\<forall>v w. pred_option (\<lambda>x. handed ops c (fst x)) (Element_ToV8 ops c v w)) \<and>
     (\<forall>v w. pred_option (\<lambda>x. handed ops c (fst x)) (Blob_ToV8 ops c v w)) \<and>
     (\<forall>m w. handed ops c (fst (Deserialize ops c m w)))"

fun effect_ok :: "('h, 'c, 'w) bridge_ops \<Rightarrow> 'c \<Rightarrow> ('h, 'c) bridge_effect \<Rightarrow> bool" where
  "effect_ok ops c (ElementStored a i v) = (made_in ops c a \<and> handed ops c v)"
| "effect_ok ops c (PropertyStored obj k v) = (made_in ops c obj \<and> handed ops c v)"
| "effect_ok ops c (AccessorStored obj k g s) = (made_in ops c obj \<and> pred_option (handed ops c) g \<and> pred_option (handed ops c) s)"
| "effect_ok ops c (PrivateStored obj k v) = made_in ops c obj"
| "effect_ok ops c (ThenAdded source_promise p src dst) = (made_in ops c p \<and> dst = c)"
| "effect_ok ops c (PromiseSettled p b v) = handed ops c v"
| "effect_ok ops c (ErrorThrown c' e) = handed ops c' e"
| "effect_ok ops c (FunctionCalled f args) = (\<forall>a \<in> set args. handed ops c a)"
| "effect_ok ops c _ = True"

text \<open>\<open>K\<close> is what may be met in the source. Of the cache only the objects in \<open>K\<close> matter.\<close>

definition cache_ok :: "('h, 'c, 'w) bridge_ops \<Rightarrow> 'c \<Rightarrow> ('h \<Rightarrow> bool) \<Rightarrow> ('h, 'c, 'w) bridge \<Rightarrow> bool" where
  "cache_ok ops c K st \<longleftrightarrow> (\<forall>n. \<forall>x \<in> set (proxy_map st n). K (fst x) \<longrightarrow> handed ops c (snd x))"

text \<open>A step of the bridge: its effects are allowed, and it caches objects of the source with what may
  stand for them.\<close>

definition keeps_apart ::
  "('h, 'c, 'w) bridge_ops \<Rightarrow> 'c \<Rightarrow> ('h \<Rightarrow> bool) \<Rightarrow> ('h, 'c, 'w) bridge \<Rightarrow> ('h, 'c, 'w) bridge \<Rightarrow> bool" where
  "keeps_apart ops c K st st' \<longleftrightarrow>
     (\<exists>es. effects st' = effects st @ es \<and> (\<forall>e \<in> set es. effect_ok ops c e)) \<and>
     (\<forall>n. \<forall>x \<in> set (proxy_map st' n). x \<in> set (proxy_map st n) \<or>
        K (fst x) \<and> IsObject (kind_of ops (fst x)) \<and> handed ops c (snd x))"

text \<open>What is read from the objects of the source is among what may be met there.\<close>

definition reads_in :: "('h, 'c, 'w) bridge_ops \<Rightarrow> 'c \<Rightarrow> 'c \<Rightarrow> ('h \<Rightarrow> bool) \<Rightarrow> bool" where
  "reads_in ops src dst K \<longleftrightarrow>
     (\<forall>a i w. K a \<longrightarrow> pred_option K (fst (Array_Get ops src a i w))) \<and>
     (\<forall>c \<in> {src, dst}. \<forall>obj k w. K obj \<longrightarrow> pred_option K (fst (Object_Get ops c obj k w))) \<and>
     (\<forall>obj k w. K obj \<longrightarrow> pred_option K (fst (GetOwnPropertyDescriptor ops src obj k w)))"

lemma keeps_apart_refl [simp]: "keeps_apart ops c K st st"
  by (simp add: keeps_apart_def)

lemma keeps_apart_trans [trans]: "keeps_apart ops c K st st1 \<Longrightarrow> keeps_apart ops c K st1 st2 \<Longrightarrow> keeps_apart ops c K st st2"
  unfolding keeps_apart_def by fastforce

lemma keeps_apart_then:
  "keeps_apart ops c K st st1 \<Longrightarrow> keeps_apart ops c K st1 st2 \<and> Q \<Longrightarrow> keeps_apart ops c K st st2 \<and> Q"
  by (auto intro: keeps_apart_trans)

lemma keeps_apart_world [simp]: "keeps_apart ops c K st (st'\<lparr>world := w\<rparr>) = keeps_apart ops c K st st'"
  by (simp add: keeps_apart_def cache_ok_def)

lemma keeps_apart_run: "run f st = (r, st') \<Longrightarrow> keeps_apart ops c K st st'"
  by (auto simp: run_def split: prod.splits)

lemma keeps_apart_did: "effect_ok ops c e \<Longrightarrow> keeps_apart ops c K st (did e st)"
  by (auto simp: keeps_apart_def did_def cache_ok_def)

lemma keeps_apart_SetPrivate: "made_in ops c obj \<Longrightarrow> keeps_apart ops c K st (SetPrivate ops ctx obj k v st)"
  by (auto simp: keeps_apart_def did_def cache_ok_def SetPrivate_def)

lemma keeps_apart_cache: "K v \<Longrightarrow> handed ops c p \<Longrightarrow> keeps_apart ops c K st (CacheProxiedObject ops v p st)"
  by (auto simp: keeps_apart_def CacheProxiedObject_def Let_def)

lemma GetCached_handed: "cache_ok ops c K st \<Longrightarrow> K v \<Longrightarrow> GetCachedProxiedObject ops v st = Some p \<Longrightarrow> handed ops c p"
  by (fastforce simp: GetCachedProxiedObject_def cache_ok_def dest!: map_of_SomeD split: if_splits)

lemma reads_inD:
  assumes "reads_in ops src dst K" "K obj"
  shows "pred_option K (fst (Array_Get ops src obj i w))"
    "c \<in> {src, dst} \<Longrightarrow> pred_option K (fst (Object_Get ops c obj k w))"
    "pred_option K (fst (GetOwnPropertyDescriptor ops src obj k w))"
  using assms by (auto simp: reads_in_def)

lemma Dictionary_Get_in:
  assumes "reads_in ops src dst K" "K obj" "c \<in> {src, dst}"
  shows "pred_option K (fst (Dictionary_Get ops c obj k w))"
  using reads_inD(2) [OF assms] by (simp add: Dictionary_Get_def split: prod.splits)

lemma run_reads:
  "run f st = (Some x, st') \<Longrightarrow> pred_option K (fst (f (world st))) \<Longrightarrow> K x"
  by (metis option.pred_inject(2) run_fst)

lemma made_handed [simp]: "made_in ops c h \<Longrightarrow> handed ops c h"
  by (simp add: handed_def)

text \<open>What an operation may do with a value.\<close>

definition passes :: "('h, 'c, 'w) bridge_ops \<Rightarrow> 'c \<Rightarrow> ('h \<Rightarrow> bool) \<Rightarrow> ('h, 'c, 'w) bridge \<Rightarrow> 'h option \<times> ('h, 'c, 'w) bridge \<Rightarrow> bool" where
  "passes ops c K st x \<longleftrightarrow> (cache_ok ops c K st \<longrightarrow> keeps_apart ops c K st (snd x) \<and> pred_option (handed ops c) (fst x))"

definition apart :: "('h, 'c, 'w) bridge_ops \<Rightarrow> 'c \<Rightarrow> ('h \<Rightarrow> bool) \<Rightarrow> ('h, 'c, 'w) passing \<Rightarrow> bool" where
  "apart ops c K conv \<longleftrightarrow> (\<forall>v st y. K v \<longrightarrow> conv v st = Some y \<longrightarrow> passes ops c K st y)"

lemma apartD:
  "apart ops c K conv \<Longrightarrow> K v \<Longrightarrow> conv v st = Some (r, st') \<Longrightarrow> cache_ok ops c K st
    \<Longrightarrow> keeps_apart ops c K st st' \<and> pred_option (handed ops c) r"
  by (force simp: apart_def passes_def)

lemma cache_ok_keeps: "keeps_apart ops c K st st' \<Longrightarrow> cache_ok ops c K st \<Longrightarrow> cache_ok ops c K st'"
  by (fastforce simp: keeps_apart_def cache_ok_def)

section \<open>Each kind of value\<close>

lemma pass_function_apart:
  assumes "creates_in ops dst" "K f"
  shows "passes ops dst K st (pass_function ops src dst sdp f st)"
proof -
  obtain state st1 where 1: "run (Object_New ops dst) st = (state, st1)" by (meson surj_pair)
  let ?s3 = "SetPrivate ops dst state kSupportsDynamicPropertiesPrivateKey (NewBoolean ops sdp)
               (SetPrivate ops dst state kProxyFunctionPrivateKey f st1)"
  obtain p st4 where 4: "run (ProxyFunction_New ops dst state) ?s3 = (p, st4)" by (meson surj_pair)
  have "made_in ops dst state" using assms(1) run_fst [OF 1] by (simp add: creates_in_def)
  then have apart: "keeps_apart ops dst K st st4"
    by (meson 1 4 keeps_apart_run keeps_apart_SetPrivate keeps_apart_trans)
  have p: "made_in ops dst q" if "p = Some q" for q
    using assms(1) run_fst [OF 4] that by (auto simp: creates_in_def)
  have q: "keeps_apart ops dst K st (CacheProxiedObject ops f q (SetPrivate ops dst q kOriginalFunctionPrivateKey f st4))"
    if "p = Some q" for q
    by (meson apart assms(2) keeps_apart_cache keeps_apart_SetPrivate keeps_apart_trans made_handed p that)
  show ?thesis
    using apart p q by (auto simp: pass_function_def Let_def 1 4 passes_def made_in_def split: option.splits)
qed

lemma pass_promise_apart:
  assumes "creates_in ops dst" "K v"
  shows "passes ops dst K st (pass_promise ops src dst v st)"
proof -
  obtain p st1 where 1: "run (Promise_New ops dst) st = (p, st1)" by (meson surj_pair)
  have p: "made_in ops dst p" using assms(1) run_fst [OF 1] by (simp add: creates_in_def)
  have "keeps_apart ops dst K st (CacheProxiedObject ops v p (did (ThenAdded v p src dst) st1))"
    by (meson 1 p assms(2) effect_ok.simps(5) keeps_apart_cache keeps_apart_did keeps_apart_run keeps_apart_trans made_handed)
  then show ?thesis using p by (simp add: pass_promise_def 1 passes_def)
qed

lemma pass_error_apart:
  assumes "creates_in ops dst"
  shows "passes ops dst K st (pass_error ops src dst v st)"
proof -
  obtain m st1 where 1: "run (Object_Get ops src v (NewString ops ''message'')) st = (m, st1)" by (meson surj_pair)
  obtain message st2 where 2: "(case m of
       Some m \<Rightarrow> if kind_of ops m = JsString then (m, st1) else run (CreateMessage ops v) st1
     | None \<Rightarrow> run (CreateMessage ops v) st1) = (message, st2)" by (meson surj_pair)
  have "keeps_apart ops dst K st1 st2"
    using 2 by (cases m) (auto split: if_splits intro: keeps_apart_run)
  note k2 = keeps_apart_trans [OF keeps_apart_run [OF 1] this]
  obtain e st3 where 3: "run (Error_New ops dst message) st2 = (e, st3)" by (meson surj_pair)
  have "made_in ops dst e" using assms(1) run_fst [OF 3] by (simp add: creates_in_def)
  then show ?thesis
    using keeps_apart_trans [OF k2 keeps_apart_run [OF 3]] by (simp add: pass_error_def Let_def 1 2 3 passes_def)
qed

lemma pass_clone_apart:
  assumes "creates_in ops dst" "K v"
  shows "passes ops dst K st (pass_clone ops src dst t v st)"
proof -
  let ?c = "if t = kSource then src else dst"
  obtain m st1 where 1: "run (Serialize ops ?c v) st = (m, st1)" by (meson surj_pair)
  show ?thesis
  proof (cases m)
    case None
    then show ?thesis using 1 by (auto simp: pass_clone_def passes_def Let_def intro: keeps_apart_run)
  next
    case (Some b)
    obtain h st2 where 2: "run (Deserialize ops dst b) st1 = (h, st2)" by (meson surj_pair)
    have "handed ops dst h" using assms(1) run_fst [OF 2] by (simp add: creates_in_def)
    then show ?thesis using 1 2 Some
      by (auto simp: pass_clone_def passes_def Let_def intro: keeps_apart_trans [OF keeps_apart_run keeps_apart_trans [OF keeps_apart_run keeps_apart_cache [where K = K, OF assms(2)]]])
  qed
qed

section \<open>Arrays and objects\<close>

lemma pass_elements_apart:
  assumes conv: "apart ops dst K conv" and reads: "reads_in ops src dst K" "K a" and arr: "made_in ops dst c"
    and "pass_elements ops src dst conv a c js st = Some (b, st')" "cache_ok ops dst K st"
  shows "keeps_apart ops dst K st st'"
  using assms(5,6)
proof (induction js arbitrary: st)
  case (Cons i js)
  obtain e st1 where 1: "run (Array_Get ops src a i) st = (e, st1)" by (meson surj_pair)
  note k1 = keeps_apart_run [OF 1, of ops dst K]
  from Cons.prems(1) 1 obtain x v st2 where x: "e = Some x" "conv x st1 = Some (v, st2)"
    and rest: "(case v of None \<Rightarrow> Some (False, st2)
       | Some v \<Rightarrow> let (result, st3) = run (Array_Set ops dst c i v) (did (ElementStored c i v) st2)
                   in if IsTrue result then pass_elements ops src dst conv a c js st3 else Some (False, st3)) = Some (b, st')"
    by (auto simp: bind_eq_Some_conv)
  have c1: "cache_ok ops dst K st1" by (rule cache_ok_keeps [OF k1 Cons.prems(2)])
  have kx: "K x" by (rule run_reads [OF 1 [unfolded x(1)] reads_inD(1) [OF reads]])
  have k2: "keeps_apart ops dst K st st2" "pred_option (handed ops dst) v"
    using keeps_apart_then [OF k1 apartD [OF conv kx x(2) c1]] by simp_all
  show ?case
  proof (cases v)
    case None
    then show ?thesis using rest k2 by simp
  next
    case (Some w)
    obtain r st3 where 3: "run (Array_Set ops dst c i w) (did (ElementStored c i w) st2) = (r, st3)" by (meson surj_pair)
    have "keeps_apart ops dst K st2 (did (ElementStored c i w) st2)" using k2(2) Some arr by (intro keeps_apart_did) simp
    from keeps_apart_trans [OF keeps_apart_trans [OF k2(1) this] keeps_apart_run [OF 3]]
    have k3: "keeps_apart ops dst K st st3" .
    have c3: "cache_ok ops dst K st3" by (rule cache_ok_keeps [OF k3 Cons.prems(2)])
    show ?thesis
    proof (cases "IsTrue r")
      case True
      with rest Some 3 have "pass_elements ops src dst conv a c js st3 = Some (b, st')" by simp
      from keeps_apart_trans [OF k3 Cons.IH [OF this c3]] show ?thesis .
    next
      case False
      with rest Some 3 k3 show ?thesis by simp
    qed
  qed
qed simp

lemma pass_accessor_apart:
  assumes conv: "apart ops dst K conv" and "pred_option K a"
    and "pass_accessor conv a st = Some (r, st')" "cache_ok ops dst K st"
  shows "keeps_apart ops dst K st st' \<and> pred_option (pred_option (handed ops dst)) r"
  using assms(2-4) by (auto simp: pass_accessor_def bind_eq_Some_conv split: option.splits dest!: apartD [OF conv])

lemma proxy_accessors_apart:
  assumes conv: "apart ops dst K conv" and reads: "reads_in ops src dst K" "K api" and obj: "made_in ops dst proxy"
    and eq: "proxy_accessors ops src dst conv api proxy key st = Some (b, st')" and ok: "cache_ok ops dst K st"
  shows "keeps_apart ops dst K st st'"
proof -
  obtain d st1 where 1: "run (GetOwnPropertyDescriptor ops src api key) st = (d, st1)" by (meson surj_pair)
  note k1 = keeps_apart_run [OF 1, of ops dst K]
  show ?thesis
  proof (cases "pred_option (\<lambda>x. IsObject (kind_of ops x)) d \<and> d \<noteq> None")
    case False
    then show ?thesis using eq k1 by (cases d) (simp_all add: proxy_accessors_def 1)
  next
    case True
    then obtain desc where d: "d = Some desc" "IsObject (kind_of ops desc)" by (cases d) auto
    obtain h st2 where 2: "run (Dictionary_Has ops src desc ''get'') st1 = (h, st2)" by (meson surj_pair)
    obtain any st3 where 3: "(if h then (True, st2) else run (Dictionary_Has ops src desc ''set'') st2) = (any, st3)"
      by (meson surj_pair)
    have "keeps_apart ops dst K st2 st3" using 3 by (auto split: if_splits intro: keeps_apart_run)
    note k3 = keeps_apart_trans [OF keeps_apart_trans [OF k1 keeps_apart_run [OF 2]] this]
    obtain g st4 where 4: "run (Dictionary_Get ops src desc (NewString ops ''get'')) st3 = (g, st4)" by (meson surj_pair)
    obtain s st5 where 5: "run (Dictionary_Get ops src desc (NewString ops ''set'')) st4 = (s, st5)" by (meson surj_pair)
    note k5 = keeps_apart_trans [OF keeps_apart_trans [OF k3 keeps_apart_run [OF 4]] keeps_apart_run [OF 5]]
    have "K desc" by (rule run_reads [OF 1 [unfolded d(1)] reads_inD(3) [OF reads]])
    then have read: "pred_option K g" "pred_option K s"
      using reads(1) run_fst [OF 4] run_fst [OF 5] by (simp_all add: Dictionary_Get_in)
    show ?thesis
    proof (cases any)
      case False
      then show ?thesis using eq k3 by (simp add: proxy_accessors_def 1 2 3 d)
    next
      case True
      with eq obtain gp st6 where g: "pass_accessor conv g st5 = Some (gp, st6)"
        and rest: "(case gp of None \<Rightarrow> Some (True, st6)
           | Some g' \<Rightarrow> do { (sp, st7) \<leftarrow> pass_accessor conv s st6;
               Some (True, case sp of None \<Rightarrow> st7
                 | Some s' \<Rightarrow> snd (run (DefineProperty ops dst proxy key g' s') (did (AccessorStored proxy key g' s') st7))) }) = Some (b, st')"
        by (auto simp: proxy_accessors_def 1 2 3 4 5 d bind_eq_Some_conv)
      note a6 = pass_accessor_apart [OF conv read(1) g cache_ok_keeps [OF k5 ok]]
      have k6: "keeps_apart ops dst K st st6" using keeps_apart_then [OF k5 a6] by simp
      show ?thesis
      proof (cases gp)
        case None
        then show ?thesis using rest k6 by simp
      next
        case (Some g')
        with rest obtain sp st7 where s: "pass_accessor conv s st6 = Some (sp, st7)"
          and st': "st' = (case sp of None \<Rightarrow> st7
             | Some s' \<Rightarrow> snd (run (DefineProperty ops dst proxy key g' s') (did (AccessorStored proxy key g' s') st7)))"
          by (auto simp: bind_eq_Some_conv)
        note a7 = pass_accessor_apart [OF conv read(2) s cache_ok_keeps [OF k6 ok]]
        have k7: "keeps_apart ops dst K st st7" using keeps_apart_then [OF k6 a7] by simp
        show ?thesis
        proof (cases sp)
          case None
          then show ?thesis using st' k7 by simp
        next
          case (Some s')
          have "effect_ok ops dst (AccessorStored proxy key g' s')"
            using a6 a7 obj \<open>gp = Some g'\<close> Some by simp
          note k8 = keeps_apart_trans [OF k7 keeps_apart_did [OF this]]
          obtain x st9 where "run (DefineProperty ops dst proxy key g' s') (did (AccessorStored proxy key g' s') st7) = (x, st9)"
            by (meson surj_pair)
          with st' Some keeps_apart_trans [OF k8 keeps_apart_run] show ?thesis by fastforce
        qed
      qed
    qed
  qed
qed

lemma proxy_properties_apart:
  assumes conv: "\<And>d. apart ops dst K (conv d)" and reads: "reads_in ops src dst K" "K api" and obj: "made_in ops dst proxy"
    and "proxy_properties ops src dst sdp conv d api proxy keys st = Some (r, st')" "cache_ok ops dst K st"
  shows "keeps_apart ops dst K st st' \<and> pred_option (handed ops dst) r"
  using assms(5,6)
proof (induction keys arbitrary: st)
  case Nil
  then show ?case using obj by auto
next
  case (Cons key keys)
  obtain fin st1 where 1: "(if sdp then proxy_accessors ops src dst (conv 1) api proxy key st else Some (False, st)) = Some (fin, st1)"
    and rest: "(if fin then proxy_properties ops src dst sdp conv d api proxy keys st1
       else let (val, st2) = run (Dictionary_Get ops dst api key) st1
            in case val of None \<Rightarrow> proxy_properties ops src dst sdp conv d api proxy keys st2
               | Some v \<Rightarrow> do { (passed_value, st3) \<leftarrow> conv (d + 1) v st2;
                   (case passed_value of None \<Rightarrow> Some (None, st3)
                    | Some p \<Rightarrow> proxy_properties ops src dst sdp conv d api proxy keys
                        (snd (run (Object_Set ops dst proxy key p) (did (PropertyStored proxy key p) st3)))) }) = Some (r, st')"
    by (rule bind_pairE [OF Cons.prems(1) [unfolded proxy_properties.simps]])
  have k1: "keeps_apart ops dst K st st1"
    using 1 proxy_accessors_apart [OF conv [of 1] reads obj _ Cons.prems(2)] by (cases sdp) simp_all
  show ?case
  proof (cases fin)
    case True
    with rest have "proxy_properties ops src dst sdp conv d api proxy keys st1 = Some (r, st')" by simp
    from keeps_apart_then [OF k1 Cons.IH [OF this cache_ok_keeps [OF k1 Cons.prems(2)]]] show ?thesis .
  next
    case False
    obtain val st2 where 2: "run (Dictionary_Get ops dst api key) st1 = (val, st2)" by (meson surj_pair)
    note k2 = keeps_apart_trans [OF k1 keeps_apart_run [OF 2]]
    note c2 = cache_ok_keeps [OF k2 Cons.prems(2)]
    show ?thesis
    proof (cases val)
      case None
      with rest False 2 have "proxy_properties ops src dst sdp conv d api proxy keys st2 = Some (r, st')" by simp
      from keeps_apart_then [OF k2 Cons.IH [OF this c2]] show ?thesis .
    next
      case (Some v)
      with rest False 2 obtain pv st3 where 3: "conv (d + 1) v st2 = Some (pv, st3)"
        and rest2: "(case pv of None \<Rightarrow> Some (None, st3)
                    | Some p \<Rightarrow> proxy_properties ops src dst sdp conv d api proxy keys
                        (snd (run (Object_Set ops dst proxy key p) (did (PropertyStored proxy key p) st3)))) = Some (r, st')"
        by (auto simp: bind_eq_Some_conv)
      have kv: "K v" by (rule run_reads [OF 2 [unfolded Some] Dictionary_Get_in [OF reads]]) simp
      have k3: "keeps_apart ops dst K st st3" and pv: "pred_option (handed ops dst) pv"
        using keeps_apart_then [OF k2 apartD [OF conv kv 3 c2]] by simp_all
      show ?thesis
      proof (cases pv)
        case None
        with rest2 k3 show ?thesis by auto
      next
        case (Some p)
        obtain b st4 where 4: "run (Object_Set ops dst proxy key p) (did (PropertyStored proxy key p) st3) = (b, st4)"
          by (meson surj_pair)
        have "effect_ok ops dst (PropertyStored proxy key p)" using pv Some obj by simp
        note k4 = keeps_apart_trans [OF keeps_apart_trans [OF k3 keeps_apart_did [OF this]] keeps_apart_run [OF 4]]
        have "proxy_properties ops src dst sdp conv d api proxy keys st4 = Some (r, st')" using rest2 Some 4 by simp
        from keeps_apart_then [OF k4 Cons.IH [OF this cache_ok_keeps [OF k4 Cons.prems(2)]]] show ?thesis .
      qed
    qed
  qed
qed

lemma CreateProxyForAPI_apart:
  assumes conv: "\<And>d. apart ops dst K (conv d)" and "creates_in ops dst" and reads: "reads_in ops src dst K" "K api"
    and eq: "CreateProxyForAPI ops src dst sdp conv d api st = Some (r, st')" and ok: "cache_ok ops dst K st"
  shows "keeps_apart ops dst K st st' \<and> pred_option (handed ops dst) r"
proof -
  obtain p st1 where 1: "run (Object_New ops dst) st = (p, st1)" by (meson surj_pair)
  have p: "made_in ops dst p" using assms(2) run_fst [OF 1] by (simp add: creates_in_def)
  obtain ks st3 where 3: "run (GetOwnEnumerableNames ops src api) (CacheProxiedObject ops api p st1) = (ks, st3)"
    by (meson surj_pair)
  note k3 = keeps_apart_trans [OF keeps_apart_trans [OF keeps_apart_run [OF 1] keeps_apart_cache [where K = K, OF reads(2) made_handed [OF p]]] keeps_apart_run [OF 3]]
  show ?thesis
  proof (cases ks)
    case None
    then show ?thesis using eq k3 p by (auto simp: CreateProxyForAPI_def 1 3)
  next
    case (Some keys)
    then have "proxy_properties ops src dst sdp conv d api p keys st3 = Some (r, st')"
      using eq by (simp add: CreateProxyForAPI_def 1 3)
    from keeps_apart_then [OF k3 proxy_properties_apart [OF conv reads p this cache_ok_keeps [OF k3 ok]]] show ?thesis .
  qed
qed

section \<open>A passed value\<close>

lemma passes_simps [simp]:
  "passes ops c K st (None, st)"
  "passes ops c K st (Some v, st) \<longleftrightarrow> (cache_ok ops c K st \<longrightarrow> handed ops c v)"
  by (simp_all add: passes_def)

lemma pass_array_apart:
  assumes conv: "apart ops dst K conv" and "creates_in ops dst" and reads: "reads_in ops src dst K" "K v"
    and eq: "(let len = Array_Length ops v (world st); (cloned_arr, st1) = run (Array_New ops dst len) st
       in do { (complete, st2) \<leftarrow> pass_elements ops src dst conv v cloned_arr [0..<len] st1;
               Some (if complete then (Some cloned_arr, CacheProxiedObject ops v cloned_arr st2) else (None, st2)) }) = Some y"
  shows "passes ops dst K st y"
proof -
  let ?len = "Array_Length ops v (world st)"
  obtain c st1 where 1: "run (Array_New ops dst ?len) st = (c, st1)" by (meson surj_pair)
  have c: "made_in ops dst c" using assms(2) run_fst [OF 1] by (simp add: creates_in_def)
  obtain b st2 where 2: "pass_elements ops src dst conv v c [0..<?len] st1 = Some (b, st2)"
    and y: "y = (if b then (Some c, CacheProxiedObject ops v c st2) else (None, st2))"
    using eq by (auto simp: Let_def 1 bind_eq_Some_conv)
  show ?thesis
    unfolding passes_def
  proof
    assume ok: "cache_ok ops dst K st"
    note k1 = keeps_apart_run [OF 1, of ops dst K]
    note k2 = keeps_apart_trans [OF k1 pass_elements_apart [OF conv reads c 2 cache_ok_keeps [OF k1 ok]]]
    show "keeps_apart ops dst K st (snd y) \<and> pred_option (handed ops dst) (fst y)"
      using y c k2 keeps_apart_trans [OF k2 keeps_apart_cache [where K = K, OF reads(2) made_handed [OF c]]] by simp
  qed
qed

lemma PassValueToOtherContext_apart:
  assumes "creates_in ops dst" "reads_in ops src dst K"
  shows "apart ops dst K (PassValueToOtherContext ops src dst sdp t d)"
  unfolding apart_def
proof (intro allI impI)
  fix v st y
  assume "K v" and eq: "PassValueToOtherContext ops src dst sdp t d v st = Some y"
  have "creates_in ops dst \<and> reads_in ops src dst K \<and> K v \<longrightarrow> passes ops dst K st y"
  proof (rule PassValueToOtherContext.raw_induct [of "\<lambda>ops src dst sdp t d v st y. creates_in ops dst \<and> reads_in ops src dst K \<and> K v \<longrightarrow> passes ops dst K st y", OF _ eq],
      intro impI, goal_cases)
    case (1 F ops src dst sdp t d v st y)
    note step = 1(2)
    have new: "creates_in ops dst" and reads: "reads_in ops src dst K" "K v" using 1(3) by simp_all
    have ih: "apart ops dst K (F ops src dst sdp kSource d)" for d
      using 1(1) new reads by (simp add: apart_def)
    consider "kMaxRecursion \<le> d" | (primitive) "\<not> kMaxRecursion \<le> d" "IsPrimitive (kind_of ops v)"
      | (cached) p where "\<not> kMaxRecursion \<le> d" "\<not> IsPrimitive (kind_of ops v)" "GetCachedProxiedObject ops v st = Some p"
      | (other) "\<not> kMaxRecursion \<le> d" "\<not> IsPrimitive (kind_of ops v)" "GetCachedProxiedObject ops v st = None"
      by fastforce
    then show ?case
    proof cases
      case 1
      with step show ?thesis by (auto simp: passes_def intro!: keeps_apart_did)
    next
      case primitive
      with step show ?thesis by (auto simp: handed_def)
    next
      case cached
      with step GetCached_handed [where K = K, OF _ reads(2)] show ?thesis by fastforce
    next
      case other
      note step = step [unfolded if_not_P [OF other(1)] if_not_P [OF other(2)] other(3) option.case]
      consider "IsFunction (kind_of ops v)" | (promise) "\<not> IsFunction (kind_of ops v)" "kind_of ops v = JsPromise"
        | (error) "\<not> IsFunction (kind_of ops v)" "kind_of ops v = JsNativeError"
        | (array) "\<not> IsFunction (kind_of ops v)" "kind_of ops v \<noteq> JsPromise" "kind_of ops v \<noteq> JsNativeError"
            "IsPlainArray (kind_of ops v)"
        | (rest) "\<not> IsFunction (kind_of ops v)" "kind_of ops v \<noteq> JsPromise" "kind_of ops v \<noteq> JsNativeError"
            "\<not> IsPlainArray (kind_of ops v)"
        by fastforce
      then show ?thesis
      proof cases
        case 1
        with step pass_function_apart [where K = K, OF new reads(2)] show ?thesis by auto
      next
        case promise
        with step pass_promise_apart [where K = K, OF new reads(2)] show ?thesis by auto
      next
        case error
        with step pass_error_apart [OF new] show ?thesis by auto
      next
        case array
        from step [unfolded if_not_P [OF array(1)] if_not_P [OF array(2)] if_not_P [OF array(3)] if_P [OF array(4)]]
        show ?thesis by (rule pass_array_apart [OF ih new reads])
      next
        case rest
        note step = step [unfolded if_not_P [OF rest(1)] if_not_P [OF rest(2)] if_not_P [OF rest(3)] if_not_P [OF rest(4)]]
        have new_dom: "pred_option (\<lambda>x. handed ops dst (fst x)) (Element_ToV8 ops dst v (world st))"
          "pred_option (\<lambda>x. handed ops dst (fst x)) (Blob_ToV8 ops dst v (world st))"
          using new by (simp_all add: creates_in_def)
        show ?thesis
        proof (cases "Element_ToV8 ops dst v (world st)")
          case (Some x)
          with step new_dom show ?thesis by (cases x) (auto simp: passes_def)
        next
          case None
          note step = step [unfolded None option.case]
          show ?thesis
          proof (cases "Blob_ToV8 ops dst v (world st)")
            case (Some x)
            with step new_dom show ?thesis by (cases x) (auto simp: passes_def)
          next
            case None
            note step = step [unfolded None option.case]
            show ?thesis
            proof (cases "IsPlainObject (kind_of ops v)")
              case True
              obtain r st' where y: "y = (r, st')" by (cases y)
              show ?thesis
                unfolding passes_def y
                using CreateProxyForAPI_apart [OF ih new reads step [unfolded if_P [OF True] y]] by simp
            next
              case False
              with step pass_clone_apart [where K = K, OF new reads(2)] show ?thesis by auto
            qed
          qed
        qed
      qed
    qed
  qed
  then show "passes ops dst K st y" using assms \<open>K v\<close> by blast
qed

end
