(* ===== verification/Bridge_Freeze.thy ===== *)
theory Bridge_Freeze
  imports Context_Bridge
begin

text \<open>
  \<open>DeepFreeze\<close> of the context bridge: it ends, as the identity hashes on the way from the object are
  finitely many, and everything that can be reached over the names it lists is frozen.
\<close>

section \<open>The objects it reaches\<close>

definition freezable :: "('h, 'c, 'w) bridge_ops \<Rightarrow> 'h \<Rightarrow> bool" where
  "freezable ops h \<longleftrightarrow> IsObject (kind_of ops h) \<and> \<not> IsTypedArray (kind_of ops h)"

text \<open>Paths over the children of objects, without the hashes of a set \<open>F\<close>.\<close>

inductive reach :: "('h, 'c, 'w) bridge_ops \<Rightarrow> ('h \<Rightarrow> 'h set) \<Rightarrow> int set \<Rightarrow> 'h \<Rightarrow> 'h \<Rightarrow> bool"
  for ops kids F x where
  reach_start: "GetIdentityHash ops x \<notin> F \<Longrightarrow> reach ops kids F x x"
| reach_step: "reach ops kids F x y \<Longrightarrow> z \<in> kids y \<Longrightarrow> freezable ops z \<Longrightarrow> GetIdentityHash ops z \<notin> F \<Longrightarrow> reach ops kids F x z"

definition told_apart :: "('h, 'c, 'w) bridge_ops \<Rightarrow> ('h \<Rightarrow> 'h set) \<Rightarrow> 'h set \<Rightarrow> bool" where
  "told_apart ops kids R \<longleftrightarrow> inj_on (GetIdentityHash ops) R \<and> (\<forall>y \<in> R. \<forall>c \<in> kids y. freezable ops c \<longrightarrow> c \<in> R)"

lemma reach_in: "reach ops kids F x y \<Longrightarrow> x \<in> R \<Longrightarrow> told_apart ops kids R \<Longrightarrow> y \<in> R"
  by (induction rule: reach.induct) (auto simp: told_apart_def)

text \<open>After the last visit of the first object a path does not meet it again.\<close>

lemma reach_split:
  assumes "reach ops kids F x y" "x \<in> R" "told_apart ops kids R"
  shows "y = x \<or> (\<exists>c \<in> kids x. freezable ops c \<and> reach ops kids (insert (GetIdentityHash ops x) F) c y)"
  using assms
proof (induction rule: reach.induct)
  case (reach_step y z)
  have "y \<in> R" by (rule reach_in [OF reach_step.hyps(1) reach_step.prems])
  then have zR: "z \<in> R" using reach_step.hyps(2,3) reach_step.prems(2) by (auto simp: told_apart_def)
  show ?case
  proof (cases "GetIdentityHash ops z = GetIdentityHash ops x")
    case True
    then have "z = x" using zR reach_step.prems by (auto simp: told_apart_def dest: inj_onD)
    then show ?thesis ..
  next
    case False
    then have z: "GetIdentityHash ops z \<notin> insert (GetIdentityHash ops x) F" using reach_step.hyps(4) by simp
    from reach_step.IH [OF reach_step.prems] show ?thesis
    proof
      assume "y = x"
      then show ?thesis using reach_step.hyps(2,3) reach.reach_start [OF z] by blast
    next
      assume "\<exists>c\<in>kids x. freezable ops c \<and> reach ops kids (insert (GetIdentityHash ops x) F) c y"
      then show ?thesis by (meson reach.reach_step reach_step.hyps(2,3) z)
    qed
  qed
qed simp

section \<open>What is reached is frozen\<close>

text \<open>The children of objects do not change in the states \<open>W\<close> while the properties are read and the
  objects frozen; each child is read by a name that is listed.\<close>

definition stable_shape :: "('h, 'c, 'w) bridge_ops \<Rightarrow> 'c \<Rightarrow> ('w \<Rightarrow> bool) \<Rightarrow> ('h \<Rightarrow> 'h set) \<Rightarrow> bool" where
  "stable_shape ops ctx W kids \<longleftrightarrow>
     (\<forall>w. W w \<longrightarrow> (\<forall>obj.
        W (snd (GetOwnPropertyNames ops ctx obj w)) \<and> W (snd (SetIntegrityLevel_Frozen ops ctx obj w)) \<and>
        (\<forall>n. W (snd (Object_Get ops ctx obj n w))) \<and>
        (\<forall>names. fst (GetOwnPropertyNames ops ctx obj w) = Some names \<longrightarrow>
           (\<forall>n \<in> set names. \<forall>w' c. W w' \<longrightarrow> fst (Object_Get ops ctx obj n w') = Some c \<longrightarrow> c \<in> kids obj) \<and>
           (\<forall>c \<in> kids obj. \<exists>n \<in> set names. \<forall>w'. W w' \<longrightarrow> fst (Object_Get ops ctx obj n w') = Some c))))"

lemma stable_shapeD:
  assumes "stable_shape ops ctx W kids" "W w"
  shows "W (snd (GetOwnPropertyNames ops ctx obj w))" "W (snd (SetIntegrityLevel_Frozen ops ctx obj w))"
    "W (snd (Object_Get ops ctx obj n w))"
    "fst (GetOwnPropertyNames ops ctx obj w) = Some names \<Longrightarrow> n \<in> set names \<Longrightarrow> W w'
       \<Longrightarrow> fst (Object_Get ops ctx obj n w') = Some c \<Longrightarrow> c \<in> kids obj"
    "fst (GetOwnPropertyNames ops ctx obj w) = Some names \<Longrightarrow> c \<in> kids obj
       \<Longrightarrow> \<exists>n \<in> set names. \<forall>w'. W w' \<longrightarrow> fst (Object_Get ops ctx obj n w') = Some c"
  using assms by (simp_all add: stable_shape_def)

definition frozen_from ::
  "('h, 'c, 'w) bridge_ops \<Rightarrow> ('h \<Rightarrow> 'h set) \<Rightarrow> int set \<Rightarrow> 'h \<Rightarrow> ('h, 'c, 'w) bridge \<Rightarrow> bool" where
  "frozen_from ops kids F x st \<longleftrightarrow> (\<forall>y. reach ops kids F x y \<longrightarrow> Froze y True \<in> set (effects st))"

lemma frozen_from_mono: "frozen_from ops kids F x st \<Longrightarrow> set (effects st) \<subseteq> set (effects st') \<Longrightarrow> frozen_from ops kids F x st'"
  by (auto simp: frozen_from_def)

definition freezes ::
  "('h, 'c, 'w) bridge_ops \<Rightarrow> ('w \<Rightarrow> bool) \<Rightarrow> ('h \<Rightarrow> 'h set) \<Rightarrow> int set \<Rightarrow> 'h \<Rightarrow> ('h, 'c, 'w) bridge
    \<Rightarrow> bool \<times> ('h, 'c, 'w) bridge \<Rightarrow> bool" where
  "freezes ops W kids F x st y \<longleftrightarrow>
     W (world (snd y)) \<and> set (effects st) \<subseteq> set (effects (snd y)) \<and> (fst y \<longrightarrow> frozen_from ops kids F x (snd y))"

lemma freeze_children_freezes:
  assumes shape: "stable_shape ops ctx W kids"
    and known: "\<forall>n \<in> set names. \<forall>w c. W w \<longrightarrow> fst (Object_Get ops ctx x n w) = Some c \<longrightarrow> freezable ops c \<longrightarrow> c \<in> R"
    and conv: "\<And>c s y. c \<in> R \<Longrightarrow> W (world s) \<Longrightarrow> conv c s = Some y \<Longrightarrow> freezes ops W kids F c s y"
    and "freeze_children ops ctx conv x names st = Some (b, st')" "W (world st)"
  shows "W (world st') \<and> set (effects st) \<subseteq> set (effects st') \<and>
    (b \<longrightarrow> (\<forall>n \<in> set names. \<forall>c. (\<forall>w. W w \<longrightarrow> fst (Object_Get ops ctx x n w) = Some c) \<and> freezable ops c
        \<longrightarrow> frozen_from ops kids F c st'))"
  using assms(2,4,5)
proof (induction names arbitrary: st)
  case (Cons n names)
  note prems = Cons.prems(2,3)
  have IH: "freeze_children ops ctx conv x names s = Some (b, st') \<Longrightarrow> W (world s) \<Longrightarrow> W (world st') \<and>
      set (effects s) \<subseteq> set (effects st') \<and>
      (b \<longrightarrow> (\<forall>n \<in> set names. \<forall>c. (\<forall>w. W w \<longrightarrow> fst (Object_Get ops ctx x n w) = Some c) \<and> freezable ops c
        \<longrightarrow> frozen_from ops kids F c st'))" for s
    using Cons.prems(1) by (intro Cons.IH) simp_all
  obtain m st1 where 1: "run (Object_Get ops ctx x n) st = (m, st1)" by (meson surj_pair)
  note p1 = run_parts [OF 1]
  have w1: "W (world st1)" using p1 stable_shapeD(3) [OF shape prems(2)] by simp
  from prems(1) 1 obtain c where m: "m = Some c" by (auto simp: bind_eq_Some_conv)
  have c: "c \<in> R" if "freezable ops c" using p1 m prems(2) Cons.prems(1) that by simp
  have read: "c' = c" if "\<forall>w. W w \<longrightarrow> fst (Object_Get ops ctx x n w) = Some c'" for c'
    using that prems(2) p1 m by simp
  show ?case
  proof (cases "IsObject (kind_of ops c) \<and> \<not> IsTypedArray (kind_of ops c)")
    case False
    then have "freeze_children ops ctx conv x names st1 = Some (b, st')" using prems(1) by (simp add: 1 m split: if_splits)
    from IH [OF this w1] p1 read False show ?thesis by (auto simp: freezable_def)
  next
    case True
    then obtain ok st2 where 2: "conv c st1 = Some (ok, st2)"
      and rest: "(if \<not> ok then Some (False, st2) else freeze_children ops ctx conv x names st2) = Some (b, st')"
      using prems(1) by (auto simp: 1 m bind_eq_Some_conv)
    have "c \<in> R" using True by (intro c) (simp add: freezable_def)
    note f2 = conv [OF this w1 2, unfolded freezes_def fst_conv snd_conv]
    show ?thesis
    proof (cases ok)
      case False
      with rest f2 p1 show ?thesis by auto
    next
      case True
      with rest have "freeze_children ops ctx conv x names st2 = Some (b, st')" by simp
      note f3 = IH [OF this conjunct1 [OF f2]]
      have "frozen_from ops kids F c st'"
        using f2 f3 True by (auto intro: frozen_from_mono)
      then show ?thesis using f2 f3 p1 read by auto
    qed
  qed
qed simp

lemma DeepFreeze_frozen:
  assumes shape: "stable_shape ops ctx W kids" and apart: "told_apart ops kids R"
    and eq: "DeepFreeze ops ctx F x st = Some y" and "x \<in> R" "W (world st)"
  shows "freezes ops W kids F x st y"
proof -
  have "stable_shape ops ctx W kids \<and> x \<in> R \<and> told_apart ops kids R \<and> W (world st) \<longrightarrow> freezes ops W kids F x st y"
  proof (rule DeepFreeze.raw_induct [of "\<lambda>ops ctx F x st y. stable_shape ops ctx W kids \<and> x \<in> R \<and> told_apart ops kids R \<and> W (world st)
        \<longrightarrow> freezes ops W kids F x st y", OF _ eq], intro impI, goal_cases)
    case (1 D ops ctx F x st y)
    note step = 1(2)
    have h: "stable_shape ops ctx W kids" "x \<in> R" "told_apart ops kids R" "W (world st)" using 1(3) by simp_all
    show ?case
    proof (cases "GetIdentityHash ops x \<in> F")
      case True
      then have "\<not> reach ops kids F x z" for z
        by (intro notI, induct_tac rule: reach.induct) auto
      then show ?thesis using step True h by (auto simp: freezes_def frozen_from_def)
    next
      case False
      let ?F = "insert (GetIdentityHash ops x) F"
      obtain ns st1 where n: "run (GetOwnPropertyNames ops ctx x) st = (ns, st1)" by (meson surj_pair)
      note p1 = run_parts [OF n]
      have w1: "W (world st1)" unfolding conjunct1 [OF conjunct2 [OF p1]] by (rule stable_shapeD(1) [OF h(1,4)])
      obtain names ok st2 where ns: "ns = Some names"
        and f: "freeze_children ops ctx (D ops ctx ?F) x names st1 = Some (ok, st2)"
        and y: "y = (if \<not> ok then (False, st2) else let (result, st3) = run (SetIntegrityLevel_Frozen ops ctx x) st2
                   in (IsTrue result, did (Froze x (IsTrue result)) st3))"
      proof -
        have "do { names \<leftarrow> ns;
           (ok, st2) \<leftarrow> freeze_children ops ctx (D ops ctx ?F) x names st1;
           (if \<not> ok then Some (False, st2)
            else let (result, st3) = run (SetIntegrityLevel_Frozen ops ctx x) st2
                 in Some (IsTrue result, did (Froze x (IsTrue result)) st3)) } = Some y"
          using step False by (simp add: n)
        then obtain names where "ns = Some names" and rest: "do {
           (ok, st2) \<leftarrow> freeze_children ops ctx (D ops ctx ?F) x names st1;
           (if \<not> ok then Some (False, st2)
            else let (result, st3) = run (SetIntegrityLevel_Frozen ops ctx x) st2
                 in Some (IsTrue result, did (Froze x (IsTrue result)) st3)) } = Some y"
          by (cases ns) simp_all
        from rest obtain ok st2 where "freeze_children ops ctx (D ops ctx ?F) x names st1 = Some (ok, st2)"
          and "(if \<not> ok then Some (False, st2) else let (result, st3) = run (SetIntegrityLevel_Frozen ops ctx x) st2
                 in Some (IsTrue result, did (Froze x (IsTrue result)) st3)) = Some y"
          by (rule bind_pairE)
        with \<open>ns = Some names\<close> show thesis
          by (intro that [of names ok st2]) (simp_all add: case_prod_beta Let_def split: if_splits)
      qed
      have conv: "freezes ops W kids ?F c s z" if "c \<in> R" "W (world s)" "D ops ctx ?F c s = Some z" for c s z
        using 1(1) [OF that(3)] that(1,2) h(1,3) by simp
      have "fst (GetOwnPropertyNames ops ctx x (world st)) = Some names" using p1 ns by simp
      then have "\<forall>n \<in> set names. \<forall>w c. W w \<longrightarrow> fst (Object_Get ops ctx x n w) = Some c \<longrightarrow> freezable ops c \<longrightarrow> c \<in> R"
        using stable_shapeD(4) [OF h(1,4)] h(2,3) unfolding told_apart_def by blast
      note f2 = freeze_children_freezes [OF h(1) this conv f w1]
      show ?thesis
      proof (cases ok)
        case False
        then have "y = (False, st2)" using y by simp
        then show ?thesis
          using conjunct1 [OF f2] conjunct1 [OF conjunct2 [OF f2]] conjunct2 [OF conjunct2 [OF p1]]
          by (simp only: freezes_def fst_conv snd_conv simp_thms)
      next
        case True
        obtain res st3 where 3: "run (SetIntegrityLevel_Frozen ops ctx x) st2 = (res, st3)" by (meson surj_pair)
        note p3 = run_parts [OF 3]
        have y': "y = (IsTrue res, did (Froze x (IsTrue res)) st3)" using y True 3 by simp
        have all: "frozen_from ops kids ?F c st2" if "c \<in> kids x" "freezable ops c" for c
        proof -
          have "fst (GetOwnPropertyNames ops ctx x (world st)) = Some names" using p1 ns by simp
          from stable_shapeD(5) [OF h(1,4) this that(1)] obtain n
            where n: "n \<in> set names" "\<forall>w'. W w' \<longrightarrow> fst (Object_Get ops ctx x n w') = Some c" by blast
          from bspec [OF mp [OF conjunct2 [OF conjunct2 [OF f2]] True] n(1)]
          have "(\<forall>w'. W w' \<longrightarrow> fst (Object_Get ops ctx x n w') = Some c) \<and> freezable ops c \<longrightarrow> frozen_from ops kids ?F c st2"
            by (rule spec)
          with n(2) that(2) show ?thesis by simp
        qed
        have "frozen_from ops kids F x (did (Froze x True) st3)"
          unfolding frozen_from_def
        proof (intro allI impI)
          fix z assume "reach ops kids F x z"
          from reach_split [OF this h(2,3)] show "Froze z True \<in> set (effects (did (Froze x True) st3))"
            using all p3 by (auto simp: frozen_from_def)
        qed
        moreover have "W (world st3)" unfolding conjunct1 [OF conjunct2 [OF p3]] by (rule stable_shapeD(2) [OF h(1) conjunct1 [OF f2]])
        moreover have "set (effects st) \<subseteq> set (effects (did (Froze x (IsTrue res)) st3))"
          unfolding did_simps conjunct2 [OF conjunct2 [OF p3]] set_append
          by (rule le_supI1, fold conjunct2 [OF conjunct2 [OF p1]]) (rule conjunct1 [OF conjunct2 [OF f2]])
        ultimately show ?thesis unfolding y' freezes_def by (cases "IsTrue res") simp_all
      qed
    qed
  qed
  then show ?thesis using assms(1,2,4,5) by simp
qed

section \<open>It ends\<close>

definition readable :: "('h, 'c, 'w) bridge_ops \<Rightarrow> 'c \<Rightarrow> bool" where
  "readable ops ctx \<longleftrightarrow>
     (\<forall>obj w. fst (GetOwnPropertyNames ops ctx obj w) \<noteq> None) \<and> (\<forall>obj n w. fst (Object_Get ops ctx obj n w) \<noteq> None)"

lemma run_Some: "fst (f (world st)) \<noteq> None \<Longrightarrow> \<exists>x st'. run f st = (Some x, st')"
  by (auto simp: run_def split: prod.splits)

lemma freeze_children_returns:
  assumes "readable ops ctx" "\<And>c s. \<exists>y. conv c s = Some y"
  shows "\<exists>y. freeze_children ops ctx conv x names st = Some y"
proof (induction names arbitrary: st)
  case (Cons n names)
  obtain c st1 where 1: "run (Object_Get ops ctx x n) st = (Some c, st1)"
    using run_Some [of "Object_Get ops ctx x n" st] assms(1) unfolding readable_def by blast
  obtain ok st2 where "conv c st1 = Some (ok, st2)" using assms(2) by (metis surj_pair)
  with 1 Cons show ?case by auto
qed auto

lemma DeepFreeze_defined:
  assumes "readable ops ctx" and range: "\<And>obj. GetIdentityHash ops obj \<in> {int32_min..int32_max}"
  shows "\<exists>y. DeepFreeze ops ctx F x st = Some y"
proof (induction "card ({int32_min..int32_max} - F)" arbitrary: F x st rule: less_induct)
  case less
  show ?case
  proof (cases "GetIdentityHash ops x \<in> F")
    case True
    then show ?thesis by (subst DeepFreeze.simps) auto
  next
    case False
    let ?F = "insert (GetIdentityHash ops x) F"
    have "{int32_min..int32_max} - ?F \<subset> {int32_min..int32_max} - F" using range [of x] False by blast
    then have "card ({int32_min..int32_max} - ?F) < card ({int32_min..int32_max} - F)" by (rule psubset_card_mono [rotated]) simp
    note ih = less [OF this]
    obtain names st1 where 1: "run (GetOwnPropertyNames ops ctx x) st = (Some names, st1)"
      using run_Some [of "GetOwnPropertyNames ops ctx x" st] assms(1) unfolding readable_def by blast
    obtain ok st2 where 2: "freeze_children ops ctx (DeepFreeze ops ctx ?F) x names st1 = Some (ok, st2)"
      using freeze_children_returns [where conv = "DeepFreeze ops ctx ?F", OF assms(1) ih, of x names st1] by auto
    obtain r st3 where 3: "run (SetIntegrityLevel_Frozen ops ctx x) st2 = (r, st3)" by (meson surj_pair)
    have "DeepFreeze ops ctx F x st = Some (if ok then (IsTrue r, did (Froze x (IsTrue r)) st3) else (False, st2))"
      by (subst DeepFreeze.simps) (simp add: 1 2 3 False)
    then show ?thesis by blast
  qed
qed

end
