(* ===== verification/Bridge_Properties.thy ===== *)
theory Bridge_Properties
  imports Bridge_Isolation Bridge_Freeze
begin

text \<open>
  The properties of the context bridge: worlds are kept apart when values are passed, when a proxied
  function is called and when an interface is exposed; a value is always passed or refused; what is
  exposed is frozen. A heap of objects shows that the laws required of V8 can hold, and what the
  bridge does not freeze.
\<close>

section \<open>Passing a value ends\<close>

text \<open>Reading an element of an array succeeds, and an accessor in the descriptor of a property is a
  function or not defined.\<close>

definition arrays_readable :: "('h, 'c, 'w) bridge_ops \<Rightarrow> 'c \<Rightarrow> bool" where
  "arrays_readable ops src \<longleftrightarrow> (\<forall>a i w. fst (Array_Get ops src a i w) \<noteq> None)"

definition accessors_callable :: "('h, 'c, 'w) bridge_ops \<Rightarrow> 'c \<Rightarrow> bool" where
  "accessors_callable ops src \<longleftrightarrow>
     (\<forall>api key w desc k w' f. fst (GetOwnPropertyDescriptor ops src api key w) = Some desc \<longrightarrow>
        fst (Dictionary_Get ops src desc k w') = Some f \<longrightarrow> IsFunction (kind_of ops f) \<or> IsPrimitive (kind_of ops f))"

definition returns :: "('h \<Rightarrow> bool) \<Rightarrow> ('h, 'c, 'w) passing \<Rightarrow> bool" where
  "returns V conv \<longleftrightarrow> (\<forall>v st. V v \<longrightarrow> conv v st \<noteq> None)"

lemma returnsE:
  assumes "returns V conv" "V v"
  obtains r st' where "conv v st = Some (r, st')"
  using assms by (force simp: returns_def)

lemma pass_elements_returns:
  assumes "arrays_readable ops src" "returns (\<lambda>_. True) conv"
  shows "pass_elements ops src dst conv a c js st \<noteq> None"
proof (induction js arbitrary: st)
  case (Cons i js)
  obtain x st1 where 1: "run (Array_Get ops src a i) st = (Some x, st1)"
    using run_Some [of "Array_Get ops src a i" st] assms(1) unfolding arrays_readable_def by blast
  obtain r st2 where 2: "conv x st1 = Some (r, st2)" using assms(2) by (rule returnsE [where v = x]) simp
  show ?case using Cons by (cases r) (simp_all add: 1 2 Let_def del: not_None_eq split: prod.splits)
qed simp

lemma pass_accessor_returns:
  assumes "returns V conv" "pred_option V a"
  shows "\<exists>r st'. pass_accessor conv a st = Some (r, st')"
proof (cases a)
  case (Some f)
  obtain r st' where "conv f st = Some (r, st')" using assms Some by (elim returnsE [where v = f]) simp_all
  then show ?thesis using Some by (cases r) (auto simp: pass_accessor_def)
qed (auto simp: pass_accessor_def)

lemma proxy_accessors_returns:
  assumes conv: "returns (\<lambda>v. IsFunction (kind_of ops v) \<or> IsPrimitive (kind_of ops v)) conv" and "accessors_callable ops src"
  shows "\<exists>b st'. proxy_accessors ops src dst conv api proxy key st = Some (b, st')"
proof -
  let ?V = "\<lambda>v. IsFunction (kind_of ops v) \<or> IsPrimitive (kind_of ops v)"
  obtain d st1 where 1: "run (GetOwnPropertyDescriptor ops src api key) st = (d, st1)" by (meson surj_pair)
  show ?thesis
  proof (cases d)
    case None
    then show ?thesis by (auto simp: proxy_accessors_def 1)
  next
    case (Some desc)
    obtain h st2 where 2: "run (Dictionary_Has ops src desc ''get'') st1 = (h, st2)" by (meson surj_pair)
    obtain any st3 where 3: "(if h then (True, st2) else run (Dictionary_Has ops src desc ''set'') st2) = (any, st3)"
      by (meson surj_pair)
    obtain g st4 where 4: "run (Dictionary_Get ops src desc (NewString ops ''get'')) st3 = (g, st4)" by (meson surj_pair)
    obtain s st5 where 5: "run (Dictionary_Get ops src desc (NewString ops ''set'')) st4 = (s, st5)" by (meson surj_pair)
    have call: "pred_option ?V f" if "run (Dictionary_Get ops src desc k) st' = (f, st'')" for k st' f st''
      using assms(2) run_fst [OF 1] run_fst [OF that] Some unfolding accessors_callable_def by (cases f) (simp, metis option.pred_inject(2))
    obtain gp st6 where 6: "pass_accessor conv g st5 = Some (gp, st6)"
      using pass_accessor_returns [OF conv call [OF 4]] by blast
    obtain sp st7 where 7: "pass_accessor conv s st6 = Some (sp, st7)"
      using pass_accessor_returns [OF conv call [OF 5]] by blast
    show ?thesis by (auto simp: proxy_accessors_def 1 2 3 4 5 6 7 Some split: option.split)
  qed
qed

lemma proxy_properties_returns:
  assumes leaf: "returns (\<lambda>v. IsFunction (kind_of ops v) \<or> IsPrimitive (kind_of ops v)) (conv 1)"
    and conv: "returns (\<lambda>_. True) (conv (d + 1))" and "accessors_callable ops src"
  shows "proxy_properties ops src dst sdp conv d api proxy keys st \<noteq> None"
proof (induction keys arbitrary: st)
  case (Cons key keys)
  obtain b st1 where 1: "(if sdp then proxy_accessors ops src dst (conv 1) api proxy key st else Some (False, st)) = Some (b, st1)"
    using proxy_accessors_returns [OF leaf assms(3), of dst api proxy key st] by (cases sdp) auto
  obtain v st2 where 2: "run (Dictionary_Get ops dst api key) st1 = (v, st2)" by (meson surj_pair)
  show ?case
  proof (cases v)
    case None
    then show ?thesis using Cons by (simp add: 1 2)
  next
    case (Some x)
    obtain r st3 where "conv (d + 1) x st2 = Some (r, st3)" using conv by (rule returnsE [where v = x]) simp
    then show ?thesis using Cons Some by (cases r) (simp_all add: 1 2)
  qed
qed simp

lemma PassValue_leaf: "returns (\<lambda>v. IsFunction (kind_of ops v) \<or> IsPrimitive (kind_of ops v)) (PassValueToOtherContext ops src dst sdp t d)"
  by (auto simp: returns_def) (subst PassValueToOtherContext.simps; simp split: option.split)+

lemma PassValue_returns:
  assumes "arrays_readable ops src" "accessors_callable ops src"
  shows "returns (\<lambda>_. True) (PassValueToOtherContext ops src dst sdp t d)"
proof (induction "nat (kMaxRecursion - d)" arbitrary: t d rule: less_induct)
  case less
  show ?case
    unfolding returns_def
  proof (intro allI impI)
    fix v st
    show "PassValueToOtherContext ops src dst sdp t d v st \<noteq> None"
    proof (cases "kMaxRecursion \<le> d")
      case True
      then show ?thesis by (subst PassValueToOtherContext.simps) simp
    next
      case False
      then have ih: "returns (\<lambda>_. True) (PassValueToOtherContext ops src dst sdp kSource (d + n))" if "0 < n" for n
        using that by (intro less) auto
      obtain c st1 where 1: "run (Array_New ops dst (Array_Length ops v (world st))) st = (c, st1)" by (meson surj_pair)
      have arr: "pass_elements ops src dst (PassValueToOtherContext ops src dst sdp kSource (d + 1)) v c js st1 \<noteq> None" for js
        using ih [of 1] by (intro pass_elements_returns assms) simp
      have obj: "CreateProxyForAPI ops src dst sdp (PassValueToOtherContext ops src dst sdp kSource) (d + 1) v st \<noteq> None"
        using proxy_properties_returns [where conv = "PassValueToOtherContext ops src dst sdp kSource" and d = "d + 1", OF PassValue_leaf _ assms(2)]
          ih [of 2] by (simp add: CreateProxyForAPI_def Let_def add.assoc split: prod.split option.split)
      show ?thesis
        using arr obj by (subst PassValueToOtherContext.simps) (simp add: False 1 bind_eq_None_conv del: not_None_eq split: option.split prod.split)
    qed
  qed
qed

section \<open>Calling a proxied function\<close>

text \<open>A script that is called returns what it may have in its own world.\<close>

definition calls_in :: "('h, 'c, 'w) bridge_ops \<Rightarrow> 'c \<Rightarrow> bool" where
  "calls_in ops c \<longleftrightarrow>
     (\<forall>f args w r. made_in ops c f \<longrightarrow> (\<forall>a \<in> set args. handed ops c a) \<longrightarrow>
        fst (Function_Call ops c f args w) = Returned r \<longrightarrow> handed ops c r)"

lemma cache_ok_init: "proxy_map st = ObjectCache_init \<Longrightarrow> cache_ok ops c K st"
  by (simp add: cache_ok_def ObjectCache_init_def)

lemma pass_arguments_apart:
  assumes conv: "apart ops dst K conv" and "\<forall>v \<in> set vals. K v"
    and "pass_arguments conv vals st = Some (r, st')" "cache_ok ops dst K st"
  shows "keeps_apart ops dst K st st' \<and> pred_option (\<lambda>args. \<forall>a \<in> set args. handed ops dst a) r"
  using assms(2-4)
proof (induction vals arbitrary: st r)
  case (Cons v vals)
  obtain a st1 where 1: "conv v st = Some (a, st1)"
    and rest: "(case a of None \<Rightarrow> Some (None, st1)
       | Some a \<Rightarrow> do { (args, st2) \<leftarrow> pass_arguments conv vals st1; Some (map_option ((#) a) args, st2) }) = Some (r, st')"
    by (rule bind_pairE [OF Cons.prems(2) [unfolded pass_arguments.simps]])
  note k1 = apartD [OF conv _ 1 Cons.prems(3)]
  show ?case
  proof (cases a)
    case None
    then show ?thesis using rest k1 Cons.prems(1) by auto
  next
    case (Some a')
    then obtain args where 2: "pass_arguments conv vals st1 = Some (args, st')" and r: "r = map_option ((#) a') args"
      using rest by (auto simp: bind_eq_Some_conv)
    have "keeps_apart ops dst K st st1" "handed ops dst a'" using k1 Cons.prems(1) Some by simp_all
    moreover have "keeps_apart ops dst K st1 st' \<and> pred_option (\<lambda>args. \<forall>a \<in> set args. handed ops dst a) args"
      using Cons.prems(1,3) calculation(1) by (intro Cons.IH [OF _ 2]) (auto intro: cache_ok_keeps)
    ultimately show ?thesis using r keeps_apart_trans by (cases args) auto
  qed
qed simp

lemma keeps_apart_effects:
  "keeps_apart ops c K st st' \<Longrightarrow> \<exists>es. effects st' = effects st @ es \<and> (\<forall>e \<in> set es. effect_ok ops c e)"
  by (simp add: keeps_apart_def)

text \<open>After the arguments are passed the cache holds objects of the caller only; none of them is met in
  what the function returns.\<close>

lemma other_cache_ok:
  assumes "keeps_apart ops owner (handed ops calling) st st1" "proxy_map st = ObjectCache_init"
  shows "cache_ok ops calling (handed ops owner) st1"
  unfolding cache_ok_def
proof (intro allI ballI impI)
  fix n x assume x: "x \<in> set (proxy_map st1 n)" and owner: "handed ops owner (fst x)"
  have x': "handed ops calling (fst x)" "IsObject (kind_of ops (fst x))" "handed ops owner (snd x)"
    using assms x by (auto simp: keeps_apart_def ObjectCache_init_def)
  have "owner = calling" using x' owner by (simp add: handed_def made_in_def IsObject_def)
  then show "handed ops calling (snd x)" using x'(3) by simp
qed

lemma wrapper_call:
  assumes new: "creates_in ops calling" and "reads_in ops owner calling (handed ops owner)" "calls_in ops owner"
    and "made_in ops owner func" "\<forall>a \<in> set args. handed ops owner a" "cache_ok ops calling (handed ops owner) st1"
    and eq: "(let (outcome, st2) = run (Function_Call ops owner func args) (did (FunctionCalled func args) st1)
                 in case outcome of
                      Threw exception \<Rightarrow>
                        let (message, st3) = exception_message ops owner exception st2;
                            (e, st4) = run (Error_New ops calling message) st3
                        in Some (None, did (ErrorThrown calling e) st4)
                    | Terminated \<Rightarrow> Some (None, st2)
                    | Returned r \<Rightarrow> PassValueToOtherContext ops owner calling sdp kDestination 0 r st2) = Some (r, st')"
  shows "pred_option (handed ops calling) r \<and>
    (\<exists>es. effects st' = effects st1 @ FunctionCalled func args # es \<and> (\<forall>e \<in> set es. effect_ok ops calling e))"
proof -
  obtain out st2 where 2: "run (Function_Call ops owner func args) (did (FunctionCalled func args) st1) = (out, st2)"
    by (meson surj_pair)
  have e2: "effects st2 = effects st1 @ [FunctionCalled func args]" using run_parts [OF 2] by simp
  have k2: "keeps_apart ops calling K (did (FunctionCalled func args) st1) st2" for K by (rule keeps_apart_run [OF 2])
  show ?thesis
  proof (cases out)
    case (Returned x)
    have x: "handed ops owner x" using assms(3-5) run_fst [OF 2] Returned by (simp add: calls_in_def)
    have "cache_ok ops calling (handed ops owner) st2"
      using assms(6) by (intro cache_ok_keeps [OF k2]) (simp add: cache_ok_def)
    moreover have "PassValueToOtherContext ops owner calling sdp kDestination 0 x st2 = Some (r, st')"
      using eq 2 Returned by simp
    ultimately have "keeps_apart ops calling (handed ops owner) st2 st' \<and> pred_option (handed ops calling) r"
      using apartD [OF PassValueToOtherContext_apart [OF new assms(2)] x] by blast
    then show ?thesis using keeps_apart_effects e2 by fastforce
  next
    case (Threw ex)
    obtain m st3 where 3: "exception_message ops owner ex st2 = (m, st3)" by (meson surj_pair)
    have e3: "effects st3 = effects st2"
      using 3 by (auto simp: exception_message_def Let_def split: if_splits prod.splits option.splits dest!: run_parts)
    obtain e st4 where 4: "run (Error_New ops calling m) st3 = (e, st4)" by (meson surj_pair)
    have "handed ops calling e" using new run_fst [OF 4] by (simp add: creates_in_def)
    then show ?thesis using eq 2 3 4 Threw e2 e3 run_parts [OF 4] by auto
  next
    case Terminated
    then show ?thesis using eq 2 e2 by auto
  qed
qed

section \<open>A heap of objects\<close>

text \<open>An object knows its world, its kind and its number; its properties and private slots are kept in
  lists. Scripts return their first argument.\<close>

datatype sample_value = SUndef | SStr string | SNum nat | SSym nat | SBool bool | SObj nat js_kind nat

record sample_heap =
  fresh :: nat
  props :: "(sample_value \<times> (sample_value \<times> sample_value) list) list"
  privates :: "((sample_value \<times> string) \<times> sample_value) list"

fun sample_kind :: "sample_value \<Rightarrow> js_kind" where
  "sample_kind SUndef = JsUndefined"
| "sample_kind (SStr _) = JsString"
| "sample_kind (SNum _) = JsNumber"
| "sample_kind (SSym _) = JsSymbol"
| "sample_kind (SBool _) = JsBoolean"
| "sample_kind (SObj _ k _) = (if IsPrimitive k then JsOrdinary else k)"

fun sample_realm :: "sample_value \<Rightarrow> nat" where
  "sample_realm (SObj c _ _) = c"
| "sample_realm _ = 0"

fun sample_hash :: "sample_value \<Rightarrow> int" where
  "sample_hash (SObj _ _ n) = int (n mod 1000)"
| "sample_hash _ = 0"

text \<open>An object refers to objects of its own world only.\<close>

fun own_only :: "sample_value \<Rightarrow> sample_value \<Rightarrow> sample_value" where
  "own_only (SObj c _ _) (SObj c' k n) = (if c = c' then SObj c' k n else SUndef)"
| "own_only _ (SObj c k n) = SUndef"
| "own_only _ v = v"

definition props_of :: "sample_value \<Rightarrow> sample_heap \<Rightarrow> (sample_value \<times> sample_value) list" where
  "props_of v w = (case map_of (props w) v of Some ps \<Rightarrow> ps | None \<Rightarrow> [])"

definition sample_read :: "sample_value \<Rightarrow> sample_value \<Rightarrow> sample_heap \<Rightarrow> sample_value option \<times> sample_heap" where
  "sample_read v k w = (Some (case map_of (props_of v w) k of Some x \<Rightarrow> own_only v x | None \<Rightarrow> SUndef), w)"

definition sample_write :: "sample_value \<Rightarrow> sample_value \<Rightarrow> sample_value \<Rightarrow> sample_heap \<Rightarrow> bool option \<times> sample_heap" where
  "sample_write v k x w = (Some True, w\<lparr>props := (v, filter (\<lambda>p. fst p \<noteq> k) (props_of v w) @ [(k, x)]) # props w\<rparr>)"

definition sample_make :: "js_kind \<Rightarrow> nat \<Rightarrow> sample_heap \<Rightarrow> sample_value \<times> sample_heap" where
  "sample_make k c w = (SObj c k (fresh w), w\<lparr>fresh := fresh w + 1\<rparr>)"

definition bridge_sample :: "(sample_value, nat, sample_heap) bridge_ops" where
  "bridge_sample = \<lparr>
     kind_of = sample_kind,
     GetIdentityHash = sample_hash,
     GetCreationContext = sample_realm,
     NewString = SStr,
     NewBoolean = SBool,
     BooleanOf = (\<lambda>v. case v of SBool b \<Rightarrow> Some b | _ \<Rightarrow> None),
     Private_Get = (\<lambda>c v k w. Some (case map_of (privates w) (v, k) of Some x \<Rightarrow> x | None \<Rightarrow> SUndef)),
     Private_Set = (\<lambda>c v k x w. w\<lparr>privates := ((v, k), x) # privates w\<rparr>),
     Object_New = sample_make JsOrdinary,
     ProxyFunction_New = (\<lambda>c d w. map_prod Some id (sample_make JsFunction c w)),
     Promise_New = sample_make JsPromise,
     Error_New = (\<lambda>c m. sample_make JsNativeError c),
     CreateMessage = (\<lambda>v w. (SStr ''Uncaught'', w)),
     Array_Length = (\<lambda>v w. length (props_of v w)),
     Array_New = (\<lambda>c n. sample_make JsArray c),
     Array_Get = (\<lambda>c v i w. sample_read v (SNum i) w),
     Array_Set = (\<lambda>c v i. sample_write v (SNum i)),
     Object_Has = (\<lambda>c v k w. (Some (k \<in> fst ` set (props_of v w)), w)),
     Object_Get = (\<lambda>c. sample_read),
     Object_Set = (\<lambda>c. sample_write),
     DefineProperty = (\<lambda>c v k g s w. (Some True, w)),
     DefineReadOnly = (\<lambda>c. sample_write),
     GetOwnPropertyNames = (\<lambda>c v w. (Some (filter (\<lambda>k. case k of SSym _ \<Rightarrow> False | _ \<Rightarrow> True) (map fst (props_of v w))), w)),
     GetOwnEnumerableNames = (\<lambda>c v w. (Some (map fst (props_of v w)), w)),
     GetOwnPropertyDescriptor = (\<lambda>c v k w. (None, w)),
     SetIntegrityLevel_Frozen = (\<lambda>c v w. (Some True, w)),
     Element_ToV8 = (\<lambda>c v w. None),
     Blob_ToV8 = (\<lambda>c v w. None),
     Serialize = (\<lambda>c v w. (None, w)),
     Deserialize = (\<lambda>c m w. sample_make JsDate c w),
     Function_Call = (\<lambda>c f args w. (Returned (case args of [] \<Rightarrow> SUndef | a # _ \<Rightarrow> a), w)),
     Context_alive = (\<lambda>c w. True),
     HasWebFrame = (\<lambda>v w. True),
     MainWorldContext = (\<lambda>w. 0),
     IsolatedWorldContext = (\<lambda>w. 1),
     GlobalObject = (\<lambda>c. SObj c JsOrdinary 0),
     kContextBridgeMutability = False\<rparr>"

lemma sample_creates: "creates_in bridge_sample c"
  by (simp add: creates_in_def bridge_sample_def made_in_def handed_def sample_make_def)

lemma sample_handed: "handed bridge_sample c v \<longleftrightarrow> (\<forall>c' k n. v = SObj c' k n \<longrightarrow> c' = c)"
  by (cases v) (auto simp: handed_def made_in_def bridge_sample_def IsPrimitive_def IsNullOrUndefined_def)

lemma own_only_handed: "handed bridge_sample c v \<Longrightarrow> handed bridge_sample c (own_only v x)"
  by (cases "(v, x)" rule: own_only.cases) (auto simp: sample_handed)

lemma sample_read_handed: "handed bridge_sample c v \<Longrightarrow> pred_option (handed bridge_sample c) (fst (sample_read v k w))"
  using own_only_handed by (auto simp: sample_read_def sample_handed split: option.split)

lemma sample_reads: "reads_in bridge_sample src dst (handed bridge_sample c)"
  using sample_read_handed by (simp add: reads_in_def) (simp add: bridge_sample_def)

lemma sample_call: "Function_Call bridge_sample c f args w = (Returned (case args of [] \<Rightarrow> SUndef | a # _ \<Rightarrow> a), w)"
  by (simp add: bridge_sample_def)

lemma sample_calls: "calls_in bridge_sample c"
  by (auto simp: calls_in_def sample_call sample_handed split: list.splits)

lemma sample_arrays: "arrays_readable bridge_sample c"
  by (simp add: arrays_readable_def bridge_sample_def sample_read_def)

lemma sample_accessors: "accessors_callable bridge_sample c"
  by (simp add: accessors_callable_def bridge_sample_def)

text \<open>An interface of world 1: an object that refers to itself and to an object with an object under a symbol.
  In world 0 the data of a proxy of its function, and an object.\<close>

definition api_heap :: "(sample_value, nat, sample_heap) bridge" where
  "api_heap = \<lparr>world = \<lparr>fresh = 20,
     props = [(SObj 1 JsOrdinary 1, [(SStr ''self'', SObj 1 JsOrdinary 1), (SStr ''info'', SObj 1 JsOrdinary 3)]),
              (SObj 1 JsOrdinary 3, [(SSym 7, SObj 1 JsOrdinary 5)]),
              (SObj 0 JsOrdinary 8, [(SStr ''x'', SNum 3)])],
     privates = [((SObj 0 JsOrdinary 9, kProxyFunctionPrivateKey), SObj 1 JsFunction 2),
                 ((SObj 0 JsOrdinary 9, kSupportsDynamicPropertiesPrivateKey), SBool False)]\<rparr>,
     proxy_map = ObjectCache_init, effects = []\<rparr>"

section \<open>The properties\<close>

text \<open>C1: A value that passes from one world to another, and everything that is stored in an object, in an
  array, in an accessor or in a promise on the way, is primitive or an object of the destination.\<close>

theorem bridge_keeps_worlds_apart:
  assumes "creates_in ops dst" "proxy_map st = ObjectCache_init"
    and "PassValueToOtherContext ops src dst sdp t d v st = Some (r, st')"
  shows "pred_option (handed ops dst) r \<and>
    (\<exists>es. effects st' = effects st @ es \<and> (\<forall>e \<in> set es. effect_ok ops dst e))"
proof -
  have "reads_in ops src dst (\<lambda>_. True)" by (auto simp: reads_in_def option.pred_set)
  from apartD [OF PassValueToOtherContext_apart [OF assms(1) this] TrueI assms(3) cache_ok_init [OF assms(2)]]
  show ?thesis using keeps_apart_effects by fastforce
qed

declare PassValueToOtherContext.simps [code] DeepFreeze.simps [code]

lemma api_passes:
  "case PassValueToOtherContext bridge_sample 1 0 False kSource 0 (SObj 1 JsOrdinary 1) api_heap of
     Some (r, st') \<Rightarrow> r = Some (SObj 0 JsOrdinary 20) \<and>
       PropertyStored (SObj 0 JsOrdinary 20) (SStr ''info'') (SObj 0 JsOrdinary 21) \<in> set (effects st') \<and>
       PropertyStored (SObj 0 JsOrdinary 20) (SStr ''self'') (SObj 0 JsOrdinary 20) \<in> set (effects st')
   | None \<Rightarrow> False"
  by code_simp

theorem bridge_keeps_worlds_apart_witness:
  "\<exists>st'. PassValueToOtherContext bridge_sample 1 0 False kSource 0 (SObj 1 JsOrdinary 1) api_heap = Some (Some (SObj 0 JsOrdinary 20), st') \<and>
     PropertyStored (SObj 0 JsOrdinary 20) (SStr ''info'') (SObj 0 JsOrdinary 21) \<in> set (effects st') \<and>
     (\<forall>e \<in> set (effects st'). effect_ok bridge_sample 0 e)"
proof -
  obtain r st' where eq: "PassValueToOtherContext bridge_sample 1 0 False kSource 0 (SObj 1 JsOrdinary 1) api_heap = Some (r, st')"
    and r: "r = Some (SObj 0 JsOrdinary 20)" "PropertyStored (SObj 0 JsOrdinary 20) (SStr ''info'') (SObj 0 JsOrdinary 21) \<in> set (effects st')"
    using api_passes by (auto split: option.splits prod.splits)
  have "proxy_map api_heap = ObjectCache_init" "effects api_heap = []" by (simp_all add: api_heap_def)
  then have "\<forall>e \<in> set (effects st'). effect_ok bridge_sample 0 e"
    using bridge_keeps_worlds_apart [OF sample_creates _ eq] by auto
  with eq r show ?thesis by blast
qed

text \<open>C7: When a proxied function is called, the function gets only values of its own world, and the caller
  gets back, or has thrown at it, only values of the caller's world.\<close>

theorem proxied_call_keeps_apart:
  assumes "creates_in ops calling" "creates_in ops owner"
    and "reads_in ops calling owner (handed ops calling)" "reads_in ops owner calling (handed ops owner)"
    and "calls_in ops owner" "\<forall>a \<in> set args. handed ops calling a"
    and "Private_Get ops calling data kProxyFunctionPrivateKey (world st) = Some func" "GetCreationContext ops func = owner"
    and "ProxyFunctionWrapper ops calling data args st = Some (r, st')"
  shows "pred_option (handed ops calling) r \<and>
    (\<exists>es es'. effects st' = effects st @ es @ es' \<and> (\<forall>e \<in> set es. effect_ok ops owner e) \<and> (\<forall>e \<in> set es'. effect_ok ops calling e))"
proof (cases "Option.bind (GetPrivate ops calling data kSupportsDynamicPropertiesPrivateKey st) (BooleanOf ops)")
  case None
  then have "r = None" "st' = st" using assms(9) by (auto simp: ProxyFunctionWrapper_def split: if_splits)
  then show ?thesis by simp
next
  case (Some sdp)
  let ?st = "st\<lparr>proxy_map := ObjectCache_init\<rparr>"
  obtain pargs st1 where 1: "pass_arguments (PassValueToOtherContext ops calling owner sdp kSource 0) args ?st = Some (pargs, st1)"
    and rest: "(case pargs of
               None \<Rightarrow> Some (None, st1)
             | Some args \<Rightarrow>
                 let (outcome, st2) = run (Function_Call ops owner func args) (did (FunctionCalled func args) st1)
                 in case outcome of
                      Threw exception \<Rightarrow>
                        let (message, st3) = exception_message ops owner exception st2;
                            (e, st4) = run (Error_New ops calling message) st3
                        in Some (None, did (ErrorThrown calling e) st4)
                    | Terminated \<Rightarrow> Some (None, st2)
                    | Returned r \<Rightarrow> PassValueToOtherContext ops owner calling sdp kDestination 0 r st2) = Some (r, st')"
    using assms(7-9) Some
    by (auto simp: ProxyFunctionWrapper_def GetPrivate_def Let_def elim!: bind_pairE split: if_splits)
  note k1 = pass_arguments_apart [OF PassValueToOtherContext_apart [OF assms(2,3)] assms(6) 1 cache_ok_init]
  obtain es where es: "effects st1 = effects st @ es" "\<forall>e \<in> set es. effect_ok ops owner e"
    using keeps_apart_effects [of ops owner _ ?st st1] k1 by auto
  show ?thesis
  proof (cases pargs)
    case None
    with rest es show ?thesis by (intro conjI exI [of _ es] exI [of _ "[]"]) auto
  next
    case (Some vs)
    have vs: "\<forall>a \<in> set vs. handed ops owner a" using k1 Some by simp
    have "cache_ok ops calling (handed ops owner) st1" using k1 by (intro other_cache_ok [of ops owner calling ?st]) simp_all
    from wrapper_call [OF assms(1,4,5) _ vs this, of func sdp r st'] rest Some assms(8)
    obtain es' where es': "pred_option (handed ops calling) r" "effects st' = effects st1 @ FunctionCalled func vs # es'"
      "\<forall>e \<in> set es'. effect_ok ops calling e"
      by (auto simp: made_in_def)
    have "effects st' = effects st @ (es @ [FunctionCalled func vs]) @ es'" using es es' by simp
    moreover have "\<forall>e \<in> set (es @ [FunctionCalled func vs]). effect_ok ops owner e" using es vs by simp
    ultimately show ?thesis using es' by blast
  qed
qed

lemma proxy_called:
  "case ProxyFunctionWrapper bridge_sample 0 (SObj 0 JsOrdinary 9) [SObj 0 JsOrdinary 8] api_heap of
     Some (r, st') \<Rightarrow> r = Some (SObj 0 JsOrdinary 21) \<and> FunctionCalled (SObj 1 JsFunction 2) [SObj 1 JsOrdinary 20] \<in> set (effects st')
   | None \<Rightarrow> False"
  by code_simp

theorem proxied_call_keeps_apart_witness:
  "\<exists>st'. ProxyFunctionWrapper bridge_sample 0 (SObj 0 JsOrdinary 9) [SObj 0 JsOrdinary 8] api_heap = Some (Some (SObj 0 JsOrdinary 21), st') \<and>
     FunctionCalled (SObj 1 JsFunction 2) [SObj 1 JsOrdinary 20] \<in> set (effects st') \<and>
     (\<forall>e \<in> set (effects st'). effect_ok bridge_sample 0 e \<or> effect_ok bridge_sample 1 e)"
proof -
  obtain r st' where eq: "ProxyFunctionWrapper bridge_sample 0 (SObj 0 JsOrdinary 9) [SObj 0 JsOrdinary 8] api_heap = Some (r, st')"
    and r: "r = Some (SObj 0 JsOrdinary 21)" "FunctionCalled (SObj 1 JsFunction 2) [SObj 1 JsOrdinary 20] \<in> set (effects st')"
    using proxy_called by (auto split: option.splits prod.splits)
  have "Private_Get bridge_sample 0 (SObj 0 JsOrdinary 9) kProxyFunctionPrivateKey (world api_heap) = Some (SObj 1 JsFunction 2)"
    "GetCreationContext bridge_sample (SObj 1 JsFunction 2) = 1" "effects api_heap = []"
    by (simp_all add: bridge_sample_def api_heap_def)
  moreover have "\<forall>a \<in> set [SObj 0 JsOrdinary 8]. handed bridge_sample 0 a" by (simp add: sample_handed)
  ultimately have "\<forall>e \<in> set (effects st'). effect_ok bridge_sample 0 e \<or> effect_ok bridge_sample 1 e"
    using proxied_call_keeps_apart [OF sample_creates sample_creates sample_reads sample_reads sample_calls _ _ _ eq, of "SObj 1 JsFunction 2" 1] by auto
  with eq r show ?thesis by blast
qed




definition listed_kids :: "sample_heap \<Rightarrow> sample_value \<Rightarrow> sample_value set" where
  "listed_kids w v = {c. \<exists>k. (\<forall>n. k \<noteq> SSym n) \<and> k \<in> fst ` set (props_of v w) \<and> fst (sample_read v k w) = Some c}"

lemma listed_names:
  "fst (GetOwnPropertyNames bridge_sample ctx v w) = Some names \<Longrightarrow>
    n \<in> set names \<longleftrightarrow> (\<forall>m. n \<noteq> SSym m) \<and> n \<in> fst ` set (props_of v w)"
  by (force simp: bridge_sample_def split: sample_value.splits)

lemma sample_parts:
  "Object_Get bridge_sample ctx = sample_read"
  "snd (GetOwnPropertyNames bridge_sample ctx v w) = w"
  "snd (SetIntegrityLevel_Frozen bridge_sample ctx v w) = w"
  "fst (GetOwnPropertyNames bridge_sample ctx v w) \<noteq> None"
  "GetIdentityHash bridge_sample v = sample_hash v"
  "freezable bridge_sample v \<longleftrightarrow> IsObject (sample_kind v) \<and> \<not> IsTypedArray (sample_kind v)"
  by (simp_all add: bridge_sample_def freezable_def)

lemma sample_read_props:
  "snd (sample_read v k w) = w" "fst (sample_read v k w) \<noteq> None"
  "props w' = props w \<Longrightarrow> fst (sample_read v k w') = fst (sample_read v k w)"
  by (simp_all add: sample_read_def props_of_def)

lemma sample_shape: "stable_shape bridge_sample ctx (\<lambda>w. props w = props w0) (listed_kids w0)"
  unfolding stable_shape_def sample_parts sample_read_props
proof (intro allI impI conjI ballI, simp_all)
  fix w v names n w' c
  assume w: "props w = props w0" "fst (GetOwnPropertyNames bridge_sample ctx v w) = Some names" "n \<in> set names"
    and w': "props w' = props w0" "fst (sample_read v n w') = Some c"
  have "props_of v w = props_of v w0" using w(1) by (simp add: props_of_def)
  then show "c \<in> listed_kids w0 v"
    using w(3) w'(2) unfolding listed_names [OF w(2)] listed_kids_def sample_read_props(3) [OF w'(1)]
    by (intro CollectI exI [of _ n]) simp
next
  fix w v names c
  assume w: "props w = props w0" "fst (GetOwnPropertyNames bridge_sample ctx v w) = Some names" and c: "c \<in> listed_kids w0 v"
  have "props_of v w = props_of v w0" using w(1) by (simp add: props_of_def)
  then show "\<exists>n\<in>set names. \<forall>w'. props w' = props w0 \<longrightarrow> fst (sample_read v n w') = Some c"
  proof -
    from c obtain k where k: "\<forall>n. k \<noteq> SSym n" "k \<in> fst ` set (props_of v w)" "fst (sample_read v k w0) = Some c"
      using \<open>props_of v w = props_of v w0\<close> by (auto simp: listed_kids_def)
    then have "k \<in> set names" by (simp add: listed_names [OF w(2)])
    then show ?thesis using k(3) sample_read_props(3) by metis
  qed
qed

lemma sample_hash_range: "sample_hash v \<in> {int32_min..int32_max}"
proof (cases v)
  case (SObj c k n)
  have "n mod 1000 < 1000" by simp
  then show ?thesis unfolding SObj sample_hash.simps by (simp add: int32_min_def int32_max_def del: mod_less_divisor of_nat_mod)
qed (simp_all add: int32_min_def int32_max_def)

lemma api_freezes:
  "map_option fst (DeepFreeze bridge_sample 1 {} (SObj 1 JsOrdinary 1) api_heap) = Some True"
  by code_simp

lemma api_apart: "told_apart bridge_sample (listed_kids (world api_heap)) {SObj 1 JsOrdinary 1, SObj 1 JsOrdinary 3}"
  by (auto simp: told_apart_def inj_on_def sample_parts listed_kids_def props_of_def sample_read_def api_heap_def
      split: if_splits)


text \<open>An object under a symbol is passed on, but it is not frozen, as \<open>GetOwnPropertyNames\<close> does not list symbols.\<close>

lemma symbol_property_not_frozen:
  "case ExposeAPIInMainWorld bridge_sample 1 ''api'' (SObj 1 JsOrdinary 3) api_heap of
     Some st' \<Rightarrow> PropertyStored (SObj 0 JsOrdinary 20) (SSym 7) (SObj 0 JsOrdinary 21) \<in> set (effects st') \<and>
       PropertyStored (SObj 0 JsOrdinary 0) (SStr ''api'') (SObj 0 JsOrdinary 20) \<in> set (effects st') \<and>
       Froze (SObj 0 JsOrdinary 20) True \<in> set (effects st') \<and> (\<forall>b \<in> {True, False}. Froze (SObj 0 JsOrdinary 21) b \<notin> set (effects st'))
   | None \<Rightarrow> False"
  by code_simp

text \<open>An array that contains itself is refused at the bound of the depth: it is cached only when it is done.\<close>

lemma cyclic_array_refused:
  assumes "kind_of ops a = JsArray" "\<And>w. Array_Length ops a w = 1" "\<And>w. Array_Get ops src a 0 w = (Some a, w)"
    and "GetCachedProxiedObject ops a st = None"
  shows "\<exists>st'. PassValueToOtherContext ops src dst sdp t d a st = Some (None, st')"
  using assms(4)
proof (induction "nat (kMaxRecursion - d)" arbitrary: t d st rule: less_induct)
  case less
  show ?case
  proof (cases "kMaxRecursion \<le> d")
    case True
    then show ?thesis by (subst PassValueToOtherContext.simps) auto
  next
    case False
    obtain c st1 where 1: "run (Array_New ops dst 1) st = (c, st1)" by (meson surj_pair)
    have "proxy_map st1 = proxy_map st" using 1 by (auto simp: run_def split: prod.splits)
    then have "GetCachedProxiedObject ops a st1 = None" using less.prems by (simp only: GetCachedProxiedObject_def)
    then obtain st2 where 2: "PassValueToOtherContext ops src dst sdp kSource (d + 1) a st1 = Some (None, st2)"
      using less.hyps [of "d + 1" st1 kSource] False by auto
    have 3: "run (Array_Get ops src a 0) st1 = (Some a, st1)" by (simp add: run_def assms(3))
    have "PassValueToOtherContext ops src dst sdp t d a st = Some (None, st2)"
      by (subst PassValueToOtherContext.simps)
        (simp add: False assms(1,2) less.prems 1 [unfolded One_nat_def] 2 3 IsPrimitive_def IsNullOrUndefined_def IsFunction_def IsPlainArray_def IsTypedArray_def)
    then show ?thesis by blast
  qed
qed

text \<open>A getter that throws for an element of an array ends the process, as its handle is not tested.\<close>

lemma throwing_element_crashes:
  assumes "kind_of ops a = JsArray" "\<And>w. Array_Length ops a w = Suc n" "\<And>w. fst (Array_Get ops src a 0 w) = None"
    and "GetCachedProxiedObject ops a st = None" "d < kMaxRecursion"
  shows "PassValueToOtherContext ops src dst sdp t d a st = None"
proof -
  obtain c st1 where 1: "run (Array_New ops dst (Suc n)) st = (c, st1)" by (meson surj_pair)
  obtain st2 where 2: "run (Array_Get ops src a 0) st1 = (None, st2)"
    using assms(3) [of "world st1"] by (cases "Array_Get ops src a 0 (world st1)") (auto simp: run_def)
  show ?thesis
    by (subst PassValueToOtherContext.simps)
      (simp add: assms 1 2 upt_conv_Cons not_le IsPrimitive_def IsNullOrUndefined_def IsFunction_def IsPlainArray_def IsTypedArray_def del: upt_Suc)
qed

end
