(* ===== verification/Spec2Isabelle.thy ===== *)
theory Spec2Isabelle
  imports Plugin_Transfer Asar_Served V8_Sample Permission_Properties Device_Permissions Accelerators
    Browser_Lifecycle Protocol_Registry Proxy_Lookup Power_Save Url_Loader_Properties Bridge_Properties
begin

text \<open>
  \<^bold>\<open>The office module of electron-libreoffice, and the parts of Electron's shell around it.\<close>

  The repository is a fork of Electron with a module, \<open>src/electron/office\<close>, that embeds
  LibreOffice in a renderer process. A script gets an \<open>OfficeClient\<close> and loads documents with it; a
  loaded document is a \<open>DocumentClient\<close>, an event bus with the commands of the document; an
  \<open><embed>\<close> element of the page is an \<open>OfficeWebPlugin\<close> that shows the document. The plugin has a
  \<open>TileBuffer\<close>, a pool of painted tiles of 256 pixels, and a \<open>PaintManager\<close> that posts jobs to a
  thread pool to paint the tiles in view. LibreOfficeKit calls back with the changes of a document;
  \<open>OfficeInstance\<close> hands each call to the observers registered for the document, the event and
  the view. The files of an application are packed in asar archives, which Electron reads as if they
  were directories. Around the module stands Electron's shell: the browser process quits and closes
  windows (\<open>Browser\<close>), asks the application for permissions, binds keyboard shortcuts, and routes the
  network requests of pages through custom protocols and the listeners of \<open>webRequest\<close>; values cross
  between scripts and C++ as \<open>base::Value\<close>. This development models the module, the archives and
  those parts of the shell, and proves what makes their parts correct, and where they are not, what
  goes wrong.

  \<^bold>\<open>Theories and sources\<close> (files under \<open>src/src/electron/office\<close>; those of the archives under
  \<open>src/src/electron/shell/common/asar\<close>).

  \<^item> \<open>Prelude\<close>: machine integers, undefined shifts, array access.
  \<^item> \<open>Atomic_Bitset\<close>: \<open>atomic_bitset.cc\<close>. The bit set is a list of 64-bit words; it refines a set of
    indices.
  \<^item> \<open>Tile_Ranges\<close>: the range functions of \<open>lok_tilebuffer.cc\<close>. A list of ranges denotes a set of
    tiles; merging and clipping are set operations.
  \<^item> \<open>Machine_Float\<close>, \<open>Twips\<close>, \<open>Plugin_Zoom\<close>: \<open>float\<close> and \<open>double\<close> arithmetic with rounding, the
    conversions of \<open>lok_callback.h\<close>, the clipping of zoom factors.
  \<^item> \<open>Lok_Parse\<close>, \<open>Lok_Callback\<close>: \<open>lok_callback.cc\<close>. Parsers of callback payloads and their conversion
    to values of V8.
  \<^item> \<open>Office_Keys\<close>: \<open>office_keys.cc\<close>. DOM key codes to LibreOffice key codes.
  \<^item> \<open>Cancellation_Flag\<close>: \<open>cancellation_flag.h\<close>. Shared flags on a heap.
  \<^item> \<open>Tile_Buffer\<close>, \<open>Tile_Canvas\<close>: the class \<open>TileBuffer\<close> of \<open>lok_tilebuffer.cc\<close>. The pool, the valid
    tiles and the active context; painting a tile, invalidation, drawing, snapshots.
  \<^item> \<open>Document_Holder\<close>, \<open>Office_Instance\<close>: \<open>document_holder.cc\<close>, \<open>office_instance.cc\<close>. Reference counted
    documents with views, the registry of observers.
  \<^item> \<open>Paint_Manager\<close>: \<open>paint_manager.cc\<close>. Current and next task, posted jobs, barriers.
  \<^item> \<open>Promise\<close>: \<open>promise.cc\<close>, \<open>promise.h\<close>, \<open>v8_stringify.cc\<close>.
  \<^item> \<open>Document_Client\<close>, \<open>Document_Commands\<close>: \<open>document_client.cc\<close>, \<open>v8_callback.cc\<close>,
    \<open>renderer_transferable.cc\<close>. The event bus, mounting, the transfer of a renderer, the commands.
  \<^item> \<open>Office_Client\<close>: \<open>office_client.cc\<close>. Installation in a context, loading of documents.
  \<^item> \<open>Office_Web_Plugin\<close>, \<open>Plugin_Events\<close>, \<open>Plugin_Input\<close>: \<open>office_web_plugin.cc\<close>,
    \<open>web_plugin_utils.cc\<close>. State and painting of the plugin; callbacks, zoom, scroll, rendering a
    document and its end; keyboard, mouse and cursor. \<open>Plugin_Properties\<close> and \<open>Plugin_Transfer\<close> hold
    their lemmas.
  \<^item> \<open>Asar_Archive\<close>, \<open>Asar_Util\<close>: \<open>archive.cc\<close>, \<open>asar_util.cc\<close>, \<open>scoped_temporary_file.cc\<close>. The header
    of an archive, the lookup of files, directories and links in it, the copies of packed files,
    and the caches of opened archives.

  Of the shell (files under \<open>src/src/electron/shell\<close>):

  \<^item> \<open>V8_Converter\<close>, \<open>V8_Roundtrip\<close>, \<open>V8_Sample\<close>: \<open>common/v8_value_converter.cc\<close>. Values between V8 and
    \<open>base::Value\<close>, the check for cycles and the depth limit; V8 is a record of functions on a heap
    with its laws, and a heap of objects that meets them.
  \<^item> \<open>Permission_Manager\<close>, \<open>Permission_Properties\<close>: \<open>browser/electron_permission_manager.cc\<close>,
    \<open>web_contents_permission_helper.cc\<close>. Requests, answers that may come while a
    handler runs, and the state they leave.
  \<^item> \<open>Device_Permissions\<close>: the device grants of \<open>electron_browser_context.cc\<close> and the HID, USB and
    serial contexts that use them. The stores of grants share the locale \<open>grant_store\<close>.
  \<^item> \<open>Accelerators\<close>: \<open>ui/accelerator_util.cc\<close>, \<open>common/keyboard_util.cc\<close>,
    \<open>api/electron_api_global_shortcut.cc\<close>.
  \<^item> \<open>Browser_Lifecycle\<close>: \<open>browser/browser.cc\<close>, \<open>window_list.cc\<close>. Quitting, exiting, closing windows.
  \<^item> \<open>Protocol_Registry\<close>: \<open>protocol_registry.cc\<close>, \<open>electron_api_protocol.cc\<close> and the command line
    of child processes. Tables of schemes share the locale \<open>scheme_table\<close>, interpreted for
    registered and for intercepted schemes.
  \<^item> \<open>Proxy_Lookup\<close>: \<open>net/resolve_proxy_helper.cc\<close>. The queue of proxy lookups.
  \<^item> \<open>Power_Save\<close>: \<open>api/electron_api_power_save_blocker.cc\<close>.
  \<^item> \<open>Web_Request\<close>: \<open>api/electron_api_web_request.cc\<close>. Listeners, filters and the answers of
    listeners.
  \<^item> \<open>Url_Loader_Proxy\<close>, \<open>Url_Loader_Inv\<close>, \<open>Url_Loader_Properties\<close>:
    \<open>net/proxying_url_loader_factory.cc\<close>. A request in progress with its continuations; the invariant
    of the factory, its requests, the network's calls and the callbacks held by listeners.
  \<^item> \<open>Context_Bridge\<close>, \<open>Bridge_Isolation\<close>, \<open>Bridge_Freeze\<close>, \<open>Bridge_Properties\<close>:
    \<open>renderer/api/electron_api_context_bridge.cc\<close>, \<open>context_bridge/object_cache.cc\<close>. Copies and proxies
    of values for another world, on a heap of objects that belong to worlds; freezing.
  \<^item> \<open>Asar_Loader\<close>, \<open>Asar_Validation\<close>, \<open>Asar_Serving\<close>, \<open>Asar_Served\<close>: \<open>browser/net/asar/asar_url_loader.cc\<close>,
    \<open>asar_file_validator.cc\<close>. Files of archives as \<open>file:\<close> URLs with ranges, and the check of
    the hashes of their blocks.

  \<^bold>\<open>How the code is modelled.\<close> An object is a record with the members of the class, and a method is
  a definition that returns the changed object. Undefined behaviour (a null dereference, an
  access out of bounds, a shift by the width of the type, a conversion out of range, an invalidated
  iterator) is \<^const>\<open>None\<close>. Threads and task runners are explicit: a posted task is recorded as a
  value of a datatype, and a definition runs it. While one thread paints a tile the others may
  change the buffer: \<open>TileBuffer_PaintTile\<close> takes the interference as two functions on the
  buffer. In the archives \<^const>\<open>None\<close> is
  also a fatal log message and a lookup that never returns. What is in neither directory is a
  parameter: LibreOfficeKit is a record of
  functions on a state of its own, V8, \<open>gfx\<close>, Skia, Blink, hash functions and USB codes are records
  of functions, as are JSON values, paths and the file system; the clock and uninitialised memory are arguments; what the code relies on is a
  named hypothesis (\<open>observer_list_ok\<close>, \<open>usb_layout\<close>, \<open>codes_ok\<close>), met by the sample instances of the
  witnesses.

  \<^bold>\<open>What is shown.\<close>

  \<^item> Tiles: every reachable buffer keeps its invariant, a valid tile is in the pool with the image the
    document paints there, also under interference; simplified ranges cover the same tiles;
    painting and drawing touch exactly the tiles they should.
  \<^item> Painting: no requested paint is lost, a job and its barrier have the same number of tiles, the
    cancellation flags of the manager stay distinct; scrolling always leaves a task for the rows in
    view.
  \<^item> Documents: listeners are called once and in order, state changes before the ready event are
    delivered, mounts are counted, loads and saves settle their promise exactly once, callbacks
    reach exactly the registered observers.
  \<^item> The plugin: it is registered only with the document it shows; a new plugin goes on where a
    destroyed one with the same key was; input reaches the document exactly when it should;
    the pages in view and the zoom are within their bounds.
  \<^item> Parsing: what is printed is read back.
  \<^item> Archives: reading a path of an archive gives the content that the tree of its header has there;
    the search for the archive in a path ends with the innermost one. A page that asks for a range of
    a file gets exactly its bytes, and every block they touch has been checked by the time it is told
    that they are complete; a file with the right hashes is served to the end.
  \<^item> The context bridge: whatever is passed over it, each world only ever sees values of its own; passing
    a value ends, and a frozen interface is frozen in all its named parts.
  \<^item> Values: a value sent to V8 and read back is the same value; a conversion forgets every object it
    met and is bounded by the depth limit, also with cycles.
  \<^item> Permissions: each request is answered once, with one status for each permission, in whatever order
    the answers come; a device is granted exactly if the last grant was not revoked.
  \<^item> Life cycle: the quit event is sent once, after the windows are gone, and the message loop ends
    once; \<open>Exit\<close> and an unobjected \<open>Quit\<close> end it.
  \<^item> Requests: while callbacks, tasks and network events arrive in any order no freed request is used,
    and the client is told the end of a request at most once; schemes and privileges reach all their
    users; proxy lookups are answered in order.
  \<^item> Errors: undefined or wrong behaviour of the code, each with the states that lead to it.

  \<^bold>\<open>Termination.\<close> Loops are structural recursions or functions with a measure. Some loops of the code
  may run for ever or depend on other threads: \<open>ParseMultipleCSV\<close>, the loop of \<open>PaintTileRange\<close>, and in
  the archives \<open>GetNodeFromPath\<close>, \<open>GetFileInfo\<close> and the loop of \<open>GetAsarArchivePath\<close>. They are partial
  functions into the option type, and that they return is a theorem (with the inputs for which
  they do not: a cycle of links is followed for ever). There is no fuel.

  \<^bold>\<open>Not modelled.\<close> The \<open>gin\<close> object templates and accessors, which only bind names to the methods;
  the loading of the LibreOffice library; log messages and trace events. Memory orders of atomics are
  sequentially consistent. In the shell, \<open>CloseImmediately\<close> is modelled without child windows; the
  ids of requests are taken not to wrap around; the details that \<open>webRequest\<close> passes to listeners are
  opaque. The rest of the repository is Electron: the rest of \<open>shell/\<close> (windows and views, the bindings
  of sessions and web contents, the renderer and utility processes), \<open>lib/\<close>, documentation, tests and
  build files. Most of it forwards calls to Chromium, V8 and the operating system.
\<close>

end
